(* ===== verification/Prelude.thy ===== *)
theory Prelude
  imports Complex_Main "HOL-Library.Multiset" "HOL-Library.Option_ord" "HOL-Library.Product_Lexorder"
begin

text \<open>
  Shared vocabulary of the development: the JavaScript number operations the program uses
  (\<open>Math.round\<close>, integer tests, template rendering of integers), the array idioms that occur in
  every component (\<open>[...new Set(xs)]\<close>, stable \<open>sort\<close> with a comparator on a numeric key,
  conditional row updates) and the lemmas about them that the component theories rely on.

  A JavaScript \<open>number\<close> is modelled as an exact rational (\<open>rat\<close>); the rounding of IEEE doubles is
  not modelled. \<open>Math.round\<close> is exact on that domain: it rounds half way cases towards
  \<open>+\<infinity>\<close>. Strings are UTF-8 byte strings.
\<close>

named_theorems row_simps \<open>how the row operations of the store act on lookups\<close>
named_theorems money_simps \<open>arithmetic of rounded minor-unit amounts\<close>

type_synonym uuid = string
type_synonym millis = int

section \<open>Numbers\<close>

definition js_round :: "rat \<Rightarrow> int" where
  "js_round x = \<lfloor>x + 1 / 2\<rfloor>"

definition is_integer :: "rat \<Rightarrow> bool" where
  "is_integer x \<longleftrightarrow> of_int \<lfloor>x\<rfloor> = x"

lemma js_round_of_int [simp, money_simps]: "js_round (of_int n) = n"
  by (simp add: js_round_def floor_eq_iff)

lemma js_round_of_nat [simp, money_simps]: "js_round (of_nat n) = int n"
  using js_round_of_int [of "int n"] by (simp del: js_round_of_int)

lemma js_round_0 [simp, money_simps]: "js_round 0 = 0"
  using js_round_of_int [of 0] by (simp del: js_round_of_int)

lemma js_round_mono: "x \<le> y \<Longrightarrow> js_round x \<le> js_round y"
  by (simp add: js_round_def floor_mono)

lemma js_round_nonneg: "0 \<le> x \<Longrightarrow> 0 \<le> js_round x"
  using js_round_mono [of 0 x] by simp

lemma js_round_le_of_int: "x \<le> of_int n \<Longrightarrow> js_round x \<le> n"
  using js_round_mono [of x "of_int n"] by simp

lemma js_round_error: "\<bar>of_int (js_round x) - x\<bar> \<le> 1 / 2"
  unfolding js_round_def by linarith

lemma floor_rat_numeral_divide [simp]:
  "\<lfloor>numeral a / numeral b :: rat\<rfloor> = numeral a div numeral b"
  "\<lfloor>- numeral a / numeral b :: rat\<rfloor> = - numeral a div numeral b"
  "\<lfloor>1 / numeral b :: rat\<rfloor> = 1 div numeral b"
  using floor_divide_of_int_eq [of "numeral a" "numeral b", where ?'a = rat]
    floor_divide_of_int_eq [of "- numeral a" "numeral b", where ?'a = rat]
    floor_divide_of_int_eq [of 1 "numeral b", where ?'a = rat] by simp_all

lemma is_integer_of_int [simp]: "is_integer (of_int n)"
  by (simp add: is_integer_def)

lemma is_integer_0 [simp]: "is_integer 0"
  using is_integer_of_int [of 0] by (simp del: is_integer_of_int)

lemma is_integer_add: "is_integer x \<Longrightarrow> is_integer y \<Longrightarrow> is_integer (x + y)"
  by (metis is_integer_def is_integer_of_int of_int_add)

lemma is_integer_mult: "is_integer x \<Longrightarrow> is_integer y \<Longrightarrow> is_integer (x * y)"
  by (metis is_integer_def is_integer_of_int of_int_mult)

lemma is_integer_add_iff: "is_integer x \<Longrightarrow> is_integer (x + y) \<longleftrightarrow> is_integer y"
  by (metis is_integer_def is_integer_of_int add_diff_cancel_left' of_int_diff of_int_add)

lemma is_integer_add_of_int: "is_integer (x + of_int n) \<longleftrightarrow> is_integer x"
  using is_integer_add_iff [of "of_int n" x] by (simp add: add.commute)

lemma is_integer_sum_list: "(\<And>x. x \<in> set xs \<Longrightarrow> is_integer (f x)) \<Longrightarrow> is_integer (\<Sum>x\<leftarrow>xs. f x)"
  by (induction xs) (auto intro: is_integer_add)

section \<open>Integers in template strings\<close>

fun nat_digits :: "nat \<Rightarrow> string" where
  "nat_digits n =
     (if n < 10 then [char_of (48 + n)] else nat_digits (n div 10) @ [char_of (48 + n mod 10)])"

declare nat_digits.simps [simp del]

definition int_text :: "int \<Rightarrow> string" where
  "int_text i = (if i < 0 then ''-'' @ nat_digits (nat (- i)) else nat_digits (nat i))"

section \<open>Arrays\<close>

text \<open>\<open>[...new Set(xs)]\<close>: the distinct elements in the order of their first occurrence.\<close>

fun uniq :: "'a list \<Rightarrow> 'a list" where
  "uniq [] = []"
| "uniq (x # xs) = x # uniq (filter (\<lambda>y. y \<noteq> x) xs)"

lemma set_uniq [simp]: "set (uniq xs) = set xs"
  by (induction xs rule: uniq.induct) auto

lemma distinct_uniq [simp]: "distinct (uniq xs)"
  by (induction xs rule: uniq.induct) auto

lemma uniq_Nil_iff [simp]: "uniq xs = [] \<longleftrightarrow> xs = []"
  by (cases xs) auto

lemma uniq_id: "distinct xs \<Longrightarrow> uniq xs = xs"
  proof (induction xs)
  case (Cons x xs)
  then have "filter (\<lambda>y. y \<noteq> x) xs = xs" by (auto simp: filter_id_conv)
  with Cons show ?case by simp
qed simp

text \<open>
  \<open>Array.prototype.sort\<close> with \<open>(a, b) => f a - f b\<close> is a stable sort on the key \<open>f\<close>: the library's
  \<open>sort_key\<close>. A descending comparator is \<open>sort_key\<close> on the negated key.
\<close>

lemma sum_list_sort_key: "(\<Sum>x\<leftarrow>sort_key k xs. f x) = (\<Sum>x\<leftarrow>xs. f x :: 'b :: comm_monoid_add)"
  by (metis mset_sort mset_map sum_mset_sum_list)

text \<open>\<open>UPDATE \<dots> SET f WHERE P\<close>, and the number of affected rows.\<close>

definition update_where :: "('a \<Rightarrow> bool) \<Rightarrow> ('a \<Rightarrow> 'a) \<Rightarrow> 'a list \<Rightarrow> 'a list" where
  "update_where P f rows = map (\<lambda>r. if P r then f r else r) rows"

definition affected :: "('a \<Rightarrow> bool) \<Rightarrow> 'a list \<Rightarrow> nat" where
  "affected P rows = length (filter P rows)"

lemma update_where_Nil [simp, row_simps]: "update_where P f [] = []"
  by (simp add: update_where_def)

lemma update_where_Cons [simp, row_simps]:
  "update_where P f (r # rs) = (if P r then f r else r) # update_where P f rs"
  by (simp add: update_where_def)

lemma length_update_where [simp, row_simps]: "length (update_where P f rows) = length rows"
  by (simp add: update_where_def)

lemma set_update_where: "set (update_where P f rows) = (\<lambda>r. if P r then f r else r) ` set rows"
  by (simp add: update_where_def)

lemma update_where_none: "affected P rows = 0 \<Longrightarrow> update_where P f rows = rows"
  by (induction rows) (auto simp: affected_def split: if_splits)

lemma map_update_where [row_simps]:
  "(\<And>r. g (f r) = g r) \<Longrightarrow> map g (update_where P f rows) = map g rows"
  by (induction rows) auto

lemma find_update_where:
  "(\<And>r. P r \<Longrightarrow> Q (f r) = Q r) \<Longrightarrow>
   find Q (update_where P f rows) = map_option (\<lambda>r. if P r then f r else r) (find Q rows)"
  by (induction rows) auto

lemma affected_pos: "0 < affected P rows \<longleftrightarrow> (\<exists>r \<in> set rows. P r)"
  by (auto simp: affected_def filter_empty_conv)

lemma find_Some_set: "find P xs = Some x \<Longrightarrow> x \<in> set xs \<and> P x"
  by (induction xs) (auto split: if_splits)

lemma find_cong_set: "(\<And>x. x \<in> set xs \<Longrightarrow> P x = Q x) \<Longrightarrow> find P xs = find Q xs"
  by (induction xs) auto

section \<open>Optional maxima\<close>

text \<open>\<open>xs.length > 0 ? Math.max(...xs) : null\<close>\<close>

definition max_or_null :: "'a :: linorder list \<Rightarrow> 'a option" where
  "max_or_null xs = (case xs of [] \<Rightarrow> None | y # ys \<Rightarrow> Some (fold max ys y))"

lemma max_or_null_Some: "max_or_null xs = Some m \<longleftrightarrow> xs \<noteq> [] \<and> m = Max (set xs)"
  by (cases xs) (auto simp: max_or_null_def simp flip: Max.set_eq_fold)

lemma max_or_null_None [simp]: "max_or_null xs = None \<longleftrightarrow> xs = []"
  by (auto simp: max_or_null_def split: list.splits)

lemma max_or_null_ge: "max_or_null xs = Some m \<Longrightarrow> x \<in> set xs \<Longrightarrow> x \<le> m"
  by (auto simp: max_or_null_Some)

end
