(* ===== verification/Timing_Wheel.thy ===== *)
theory Timing_Wheel
  imports Prelude
begin

text \<open>
  The timing wheel of \<open>scheduler/timing-wheel.ts\<close>: 3600 one-second slots, an overflow list for delays
  of an hour and more, and the hand that \<open>tick\<close> advances. The lemmas show that no entry is ever lost
  or duplicated and when an entry fires.
\<close>

definition WHEEL_SIZE :: nat where
  "WHEEL_SIZE = 3600"

lemma WHEEL_SIZE_pos [simp]: "0 < WHEEL_SIZE" "WHEEL_SIZE \<noteq> 0" "1 < WHEEL_SIZE"
  by (simp_all add: WHEEL_SIZE_def)

record timing_wheel =
  slots :: "uuid list list"
  overflow :: "(uuid \<times> millis) list"
  currentSlot :: nat
  lastTickMs :: millis

definition new_wheel :: "millis \<Rightarrow> timing_wheel" where
  "new_wheel nowMs =
     \<lparr>slots = replicate WHEEL_SIZE [], overflow = [], currentSlot = 0, lastTickMs = nowMs\<rparr>"

definition delay_slots :: "millis \<Rightarrow> nat" where
  "delay_slots delayMs = nat (max 0 delayMs div 1000)"

definition wheel_insert :: "uuid \<Rightarrow> millis \<Rightarrow> timing_wheel \<Rightarrow> timing_wheel" where
  "wheel_insert entry delayMs w =
     (let delaySlots = delay_slots delayMs
      in if WHEEL_SIZE \<le> delaySlots
         then w\<lparr>overflow := overflow w @ [(entry, lastTickMs w + delayMs)]\<rparr>
         else let targetSlot = (currentSlot w + delaySlots) mod WHEEL_SIZE
              in w\<lparr>slots := (slots w)[targetSlot := slots w ! targetSlot @ [entry]]\<rparr>)"

text \<open>
  The promotion loop of \<open>tick\<close> over the parked entries, collecting \<open>stillOverflow\<close>. A promoted entry
  is less than one revolution away, so \<open>insert\<close> never parks it again while the loop runs.
\<close>

fun promote :: "millis \<Rightarrow> (uuid \<times> millis) list \<Rightarrow> timing_wheel \<Rightarrow> timing_wheel \<times> (uuid \<times> millis) list" where
  "promote nowMs [] w = (w, [])"
| "promote nowMs ((entry, targetMs) # items) w =
     (let remainingMs = targetMs - nowMs
      in if remainingMs < int WHEEL_SIZE * 1000
         then promote nowMs items (wheel_insert entry (max 0 remainingMs) w)
         else let (w', still) = promote nowMs items w in (w', (entry, targetMs) # still))"

definition tick :: "millis \<Rightarrow> timing_wheel \<Rightarrow> uuid list \<times> timing_wheel" where
  "tick nowMs w =
     (let cur = (currentSlot w + 1) mod WHEEL_SIZE;
          expired = slots w ! cur;
          w1 = w\<lparr>currentSlot := cur, lastTickMs := nowMs, slots := (slots w)[cur := []]\<rparr>;
          (w2, still) = promote nowMs (overflow w) w1
      in (expired, w2\<lparr>overflow := still\<rparr>))"

definition wheel_size :: "timing_wheel \<Rightarrow> nat" where
  "wheel_size w = sum_list (map length (slots w)) + length (overflow w)"

definition overflowSize :: "timing_wheel \<Rightarrow> nat" where
  "overflowSize w = length (overflow w)"

section \<open>Well-formedness and conservation\<close>

definition wheel_wf :: "timing_wheel \<Rightarrow> bool" where
  "wheel_wf w \<longleftrightarrow> length (slots w) = WHEEL_SIZE \<and> currentSlot w < WHEEL_SIZE"

definition entries :: "timing_wheel \<Rightarrow> uuid multiset" where
  "entries w = mset (concat (slots w)) + mset (map fst (overflow w))"

lemma wheel_wf_new [simp]: "wheel_wf (new_wheel t)"
  by (simp add: wheel_wf_def new_wheel_def)

lemma wheel_wf_insert [simp]: "wheel_wf (wheel_insert e d w) = wheel_wf w"
  by (simp add: wheel_wf_def wheel_insert_def Let_def)

lemma insert_frame [simp]:
  "currentSlot (wheel_insert e d w) = currentSlot w"
  "lastTickMs (wheel_insert e d w) = lastTickMs w"
  by (simp_all add: wheel_insert_def Let_def)

lemma near_delay: "r < int WHEEL_SIZE * 1000 \<Longrightarrow> delay_slots (max 0 r) < WHEEL_SIZE"
  unfolding delay_slots_def WHEEL_SIZE_def by auto

lemma insert_near:
  "delay_slots d < WHEEL_SIZE \<Longrightarrow> wheel_insert e d w =
     w\<lparr>slots := (slots w)[(currentSlot w + delay_slots d) mod WHEEL_SIZE :=
       slots w ! ((currentSlot w + delay_slots d) mod WHEEL_SIZE) @ [e]]\<rparr>"
  by (simp add: wheel_insert_def Let_def)

lemma mset_concat_update:
  "i < length xss \<Longrightarrow>
   mset (concat (xss[i := ys])) + mset (xss ! i) = mset (concat xss) + mset ys"
  by (induction xss arbitrary: i) (auto split: nat.splits simp: ac_simps)

lemma mset_concat_append:
  "i < length xss \<Longrightarrow> mset (concat (xss[i := xss ! i @ [e]])) = add_mset e (mset (concat xss))"
  using mset_concat_update [of i xss "xss ! i @ [e]"] by simp

lemma entries_insert: "wheel_wf w \<Longrightarrow> entries (wheel_insert e d w) = add_mset e (entries w)"
  by (simp add: entries_def wheel_insert_def Let_def wheel_wf_def mset_concat_append)

lemma promote_wf:
  "promote t items w = (w', still) \<Longrightarrow>
   wheel_wf w' = wheel_wf w \<and> currentSlot w' = currentSlot w \<and> lastTickMs w' = lastTickMs w \<and>
   overflow w' = overflow w"
proof (induction t items w arbitrary: w' still rule: promote.induct)
  case (2 t e tgt items w)
  show ?case
  proof (cases "tgt - t < int WHEEL_SIZE * 1000")
    case True
    then have "overflow (wheel_insert e (max 0 (tgt - t)) w) = overflow w"
      by (simp add: insert_near near_delay)
    moreover have "promote t items (wheel_insert e (max 0 (tgt - t)) w) = (w', still)"
      using "2.prems" True by simp
    ultimately show ?thesis using "2.IH"(1) [OF refl True] by simp
  next
    case False
    obtain w2 st where "promote t items w = (w2, st)" by fastforce
    with "2.IH"(2) [OF refl False] "2.prems" False show ?thesis by simp
  qed
qed simp

lemma promote_entries:
  "wheel_wf w \<Longrightarrow> promote t items w = (w', still) \<Longrightarrow>
   mset (concat (slots w')) + mset (map fst still) =
     mset (concat (slots w)) + mset (map fst items)"
proof (induction t items w arbitrary: w' still rule: promote.induct)
  case (2 t e tgt items w)
  show ?case
  proof (cases "tgt - t < int WHEEL_SIZE * 1000")
    case True
    have "mset (concat (slots (wheel_insert e (max 0 (tgt - t)) w))) =
        add_mset e (mset (concat (slots w)))"
      using "2.prems"(1) by (simp add: insert_near near_delay True wheel_wf_def mset_concat_append)
    with "2" True show ?thesis by (simp add: Let_def)
  next
    case False
    with "2" show ?thesis by (auto simp: Let_def split: prod.splits)
  qed
qed simp

lemma tick_entries:
  assumes "wheel_wf w" and "tick t w = (fired, w')"
  shows "wheel_wf w'" and "entries w = mset fired + entries w'"
proof -
  let ?c = "(currentSlot w + 1) mod WHEEL_SIZE"
  let ?w1 = "w\<lparr>currentSlot := ?c, lastTickMs := t, slots := (slots w)[?c := []]\<rparr>"
  obtain w2 still where p: "promote t (overflow w) ?w1 = (w2, still)" by fastforce
  have wf1: "wheel_wf ?w1" using assms(1) by (simp add: wheel_wf_def)
  have res: "fired = slots w ! ?c" "w' = w2\<lparr>overflow := still\<rparr>"
    using assms(2) p by (auto simp: tick_def Let_def)
  from promote_wf [OF p] wf1 have "wheel_wf w2" by simp
  with res show "wheel_wf w'" by (simp add: wheel_wf_def)
  have "?c < length (slots w)" using assms(1) by (simp add: wheel_wf_def)
  from mset_concat_update [OF this, of "[]"] promote_entries [OF wf1 p] res
  show "entries w = mset fired + entries w'" by (simp add: entries_def ac_simps)
qed

lemma size_entries: "size (entries w) = wheel_size w"
  by (simp add: entries_def wheel_size_def length_concat)

section \<open>When an entry fires\<close>

text \<open>
  \<open>due w e s\<close>: entry \<open>e\<close> sits in exactly one slot, the one the hand reaches after \<open>s\<close> more ticks.
  \<open>parked w e T\<close>: \<open>e\<close> is in the overflow list only, with target time \<open>T\<close>.
\<close>

definition due :: "timing_wheel \<Rightarrow> uuid \<Rightarrow> nat \<Rightarrow> bool" where
  "due w e s \<longleftrightarrow> wheel_wf w \<and> 1 \<le> s \<and> s \<le> WHEEL_SIZE \<and> e \<notin> fst ` set (overflow w) \<and>
     (\<forall>j < WHEEL_SIZE. e \<in> set (slots w ! j) \<longleftrightarrow> j = (currentSlot w + s) mod WHEEL_SIZE)"

definition fresh_entry :: "timing_wheel \<Rightarrow> uuid \<Rightarrow> bool" where
  "fresh_entry w e \<longleftrightarrow> e \<notin># entries w"

fun run_ticks :: "millis list \<Rightarrow> timing_wheel \<Rightarrow> uuid list list \<times> timing_wheel" where
  "run_ticks [] w = ([], w)"
| "run_ticks (t # ts) w =
     (let (fired, w') = tick t w; (rest, w'') = run_ticks ts w' in (fired # rest, w''))"

lemma promote_other:
  "e \<notin> fst ` set items \<Longrightarrow> wheel_wf w \<Longrightarrow> promote t items w = (w', still) \<Longrightarrow>
   (\<forall>j < WHEEL_SIZE. e \<in> set (slots w' ! j) \<longleftrightarrow> e \<in> set (slots w ! j)) \<and> e \<notin> fst ` set still"
proof (induction t items w arbitrary: w' still rule: promote.induct)
  case (2 t f tgt items w)
  show ?case
  proof (cases "tgt - t < int WHEEL_SIZE * 1000")
    case True
    have "promote t items (wheel_insert f (max 0 (tgt - t)) w) = (w', still)"
      using "2.prems" True by simp
    with "2.IH"(1) [OF refl True] "2.prems"
    have IH: "(\<forall>j < WHEEL_SIZE. e \<in> set (slots w' ! j) \<longleftrightarrow>
        e \<in> set (slots (wheel_insert f (max 0 (tgt - t)) w) ! j)) \<and> e \<notin> fst ` set still"
      by simp
    have "e \<noteq> f" using "2.prems"(1) by auto
    then have "e \<in> set (slots (wheel_insert f (max 0 (tgt - t)) w) ! j) \<longleftrightarrow> e \<in> set (slots w ! j)"
      if "j < WHEEL_SIZE" for j
      using that "2.prems"(2) near_delay [OF True]
      by (simp add: insert_near wheel_wf_def nth_list_update)
    with IH show ?thesis by simp
  next
    case False
    obtain w2 st where p: "promote t items w = (w2, st)" by fastforce
    with "2.prems" False have eq: "w' = w2" "still = (f, tgt) # st" by simp_all
    from "2.prems"(1) have "e \<noteq> f" "e \<notin> fst ` set items" by auto
    with "2.IH"(2) [OF refl False _ "2.prems"(2) p] eq show ?thesis by simp
  qed
qed simp

lemma add_mod_inj:
  assumes "(c + a) mod n = (c + b) mod n" "1 \<le> a" "a \<le> n" "1 \<le> b" "b \<le> (n :: nat)"
  shows "a = b"
proof (rule ccontr)
  assume "a \<noteq> b"
  have "int n dvd int a - int b"
    using assms(1) by (metis mod_eq_dvd_iff of_nat_add of_nat_mod add_diff_cancel_left)
  moreover have "\<bar>int a - int b\<bar> < int n" using assms by auto
  moreover have "int a - int b \<noteq> 0" using \<open>a \<noteq> b\<close> by simp
  ultimately show False using zdvd_imp_le [of "int n" "\<bar>int a - int b\<bar>"] by auto
qed

lemma due_tick:
  assumes "due w e s" and tk: "tick t w = (fired, w')"
  shows "e \<in> set fired \<longleftrightarrow> s = 1" and "s \<noteq> 1 \<Longrightarrow> due w' e (s - 1)"
proof -
  let ?c = "(currentSlot w + 1) mod WHEEL_SIZE"
  let ?w1 = "w\<lparr>currentSlot := ?c, lastTickMs := t, slots := (slots w)[?c := []]\<rparr>"
  obtain w2 still where p: "promote t (overflow w) ?w1 = (w2, still)" by fastforce
  have wf: "wheel_wf w" and s: "1 \<le> s" "s \<le> WHEEL_SIZE" and ov: "e \<notin> fst ` set (overflow w)"
    and at: "\<And>j. j < WHEEL_SIZE \<Longrightarrow> e \<in> set (slots w ! j) \<longleftrightarrow> j = (currentSlot w + s) mod WHEEL_SIZE"
    using assms(1) by (auto simp: due_def)
  have wf1: "wheel_wf ?w1" using wf by (simp add: wheel_wf_def)
  have res: "fired = slots w ! ?c" "w' = w2\<lparr>overflow := still\<rparr>"
    using tk p by (auto simp: tick_def Let_def)
  have "?c = (currentSlot w + s) mod WHEEL_SIZE \<longleftrightarrow> s = 1"
    using add_mod_inj [of "currentSlot w" 1 WHEEL_SIZE s] s by auto
  with at [of ?c] res show f: "e \<in> set fired \<longleftrightarrow> s = 1" by simp
  assume ne: "s \<noteq> 1"
  have c': "(?c + (s - 1)) mod WHEEL_SIZE = (currentSlot w + s) mod WHEEL_SIZE"
  proof -
    have "(?c + (s - 1)) mod WHEEL_SIZE = (currentSlot w + 1 + (s - 1)) mod WHEEL_SIZE"
      by (rule mod_add_left_eq)
    with s show ?thesis by simp
  qed
  have "e \<in> set (slots w2 ! j) \<longleftrightarrow> j = (?c + (s - 1)) mod WHEEL_SIZE" if "j < WHEEL_SIZE" for j
  proof -
    have "e \<in> set (slots w2 ! j) \<longleftrightarrow> e \<in> set ((slots w)[?c := []] ! j)"
      using promote_other [OF ov wf1 p] that by simp
    then show ?thesis using at [OF that] f ne res(1) that wf c'
      by (cases "j = ?c") (auto simp: wheel_wf_def)
  qed
  moreover have "wheel_wf w2" "currentSlot w2 = ?c" using promote_wf [OF p] wf1 by auto
  moreover have "e \<notin> fst ` set still" using promote_other [OF ov wf1 p] by simp
  ultimately show "due w' e (s - 1)" using s ne res by (auto simp: due_def wheel_wf_def)
qed

lemma due_run:
  "due w e s \<Longrightarrow> s \<le> length ts \<Longrightarrow> i < s \<Longrightarrow>
   e \<in> set (fst (run_ticks ts w) ! i) \<longleftrightarrow> i = s - 1"
proof (induction ts arbitrary: w s i)
  case (Cons t ts)
  obtain fired w' where tk: "tick t w = (fired, w')" by fastforce
  note step = due_tick [OF Cons.prems(1) tk]
  show ?case
  proof (cases i)
    case 0
    with step(1) tk Cons.prems show ?thesis by (auto simp: Let_def split: prod.splits)
  next
    case (Suc k)
    with Cons.prems have "s \<noteq> 1" "k < s - 1" "s - 1 \<le> length ts" by auto
    with Cons.IH [OF step(2)] have "e \<in> set (fst (run_ticks ts w') ! k) \<longleftrightarrow> k = s - 1 - 1" by blast
    with Suc tk Cons.prems show ?thesis by (auto simp: Let_def split: prod.splits)
  qed
qed simp

lemma due_insert:
  assumes wf: "wheel_wf w" and fr: "fresh_entry w e" and d: "delay_slots d < WHEEL_SIZE"
  shows "due (wheel_insert e d w) e (if delay_slots d = 0 then WHEEL_SIZE else delay_slots d)"
proof -
  let ?k = "(currentSlot w + delay_slots d) mod WHEEL_SIZE"
  have len: "length (slots w) = WHEEL_SIZE" using wf by (simp add: wheel_wf_def)
  have no: "e \<notin> set (slots w ! j)" if "j < WHEEL_SIZE" for j
    using fr that len by (auto simp: fresh_entry_def entries_def dest: nth_mem)
  have "e \<in> set (slots (wheel_insert e d w) ! j) \<longleftrightarrow> j = ?k" if "j < WHEEL_SIZE" for j
    using no that len by (auto simp: insert_near [OF d] nth_list_update)
  moreover have "e \<notin> fst ` set (overflow (wheel_insert e d w))"
    using fr by (auto simp: insert_near [OF d] fresh_entry_def entries_def)
  ultimately show ?thesis using wf d by (auto simp: due_def)
qed

text \<open>Parked entries: \<open>promote\<close> handles the overflow list from left to right.\<close>

definition parked :: "timing_wheel \<Rightarrow> uuid \<Rightarrow> millis \<Rightarrow> bool" where
  "parked w e tgt \<longleftrightarrow> wheel_wf w \<and> (\<forall>j < WHEEL_SIZE. e \<notin> set (slots w ! j)) \<and>
     (\<exists>xs ys. overflow w = xs @ (e, tgt) # ys \<and> e \<notin> fst ` set xs \<and> e \<notin> fst ` set ys)"

lemma promote_append:
  "promote t (xs @ ys) w =
     (let (w1, s1) = promote t xs w; (w2, s2) = promote t ys w1 in (w2, s1 @ s2))"
  by (induction t xs w rule: promote.induct) (auto simp: Let_def split: prod.splits)

lemma parked_tick:
  assumes "parked w e tgt" and tk: "tick t w = (fired, w')"
  shows "e \<notin> set fired"
    and "int WHEEL_SIZE * 1000 \<le> tgt - t \<Longrightarrow> parked w' e tgt"
    and "1000 \<le> tgt - t \<Longrightarrow> tgt - t < int WHEEL_SIZE * 1000 \<Longrightarrow> due w' e (delay_slots (tgt - t))"
proof -
  let ?c = "(currentSlot w + 1) mod WHEEL_SIZE"
  let ?w1 = "w\<lparr>currentSlot := ?c, lastTickMs := t, slots := (slots w)[?c := []]\<rparr>"
  obtain xs ys where ov: "overflow w = xs @ (e, tgt) # ys"
    and e: "e \<notin> fst ` set xs" "e \<notin> fst ` set ys" using assms(1) by (auto simp: parked_def)
  have wf: "wheel_wf w" and no: "\<And>j. j < WHEEL_SIZE \<Longrightarrow> e \<notin> set (slots w ! j)"
    using assms(1) by (auto simp: parked_def)
  have wf1: "wheel_wf ?w1" using wf by (simp add: wheel_wf_def)
  have no1: "e \<notin> set (slots ?w1 ! j)" if "j < WHEEL_SIZE" for j
    using no [OF that] wf that by (cases "j = ?c") (auto simp: wheel_wf_def)
  obtain wa sa where pa: "promote t xs ?w1 = (wa, sa)" by fastforce
  have a: "wheel_wf wa" "currentSlot wa = ?c" "e \<notin> fst ` set sa"
    "\<And>j. j < WHEEL_SIZE \<Longrightarrow> e \<notin> set (slots wa ! j)"
    using promote_wf [OF pa] promote_other [OF e(1) wf1 pa] wf1 no1 by auto
  show "e \<notin> set fired" using tk no [of ?c] by (auto simp: tick_def Let_def split: prod.splits)
  { assume far: "int WHEEL_SIZE * 1000 \<le> tgt - t"
    obtain wb sb where pb: "promote t ys wa = (wb, sb)" by fastforce
    have "w' = wb\<lparr>overflow := sa @ (e, tgt) # sb\<rparr>"
      using tk pa pb far ov by (auto simp: tick_def Let_def promote_append)
    then show "parked w' e tgt"
      using a promote_wf [OF pb] promote_other [OF e(2) a(1) pb]
      by (auto simp: parked_def wheel_wf_def) }
  { assume near: "1000 \<le> tgt - t" "tgt - t < int WHEEL_SIZE * 1000"
    let ?i = "wheel_insert e (tgt - t) wa"
    let ?k = "(?c + delay_slots (tgt - t)) mod WHEEL_SIZE"
    have d: "1 \<le> delay_slots (tgt - t)" "delay_slots (tgt - t) < WHEEL_SIZE"
      using near by (auto simp: delay_slots_def WHEEL_SIZE_def)
    obtain wb sb where pb: "promote t ys ?i = (wb, sb)" by fastforce
    have w': "w' = wb\<lparr>overflow := sa @ sb\<rparr>"
      using tk pa pb near ov by (auto simp: tick_def Let_def promote_append)
    have wfi: "wheel_wf ?i" using a by simp
    have "e \<in> set (slots ?i ! j) \<longleftrightarrow> j = ?k" if "j < WHEEL_SIZE" for j
      using a(1,2) a(4) [OF that] that by (auto simp: insert_near [OF d(2)] wheel_wf_def nth_list_update)
    then show "due w' e (delay_slots (tgt - t))"
      using promote_wf [OF pb] promote_other [OF e(2) wfi pb] wfi a d w'
      by (auto simp: due_def wheel_wf_def) }
qed

text \<open>The hand driven once a second, as the benchmark and the scheduler drive it.\<close>

fun every_second :: "millis \<Rightarrow> nat \<Rightarrow> millis list" where
  "every_second t0 0 = []"
| "every_second t0 (Suc n) = (t0 + 1000) # every_second (t0 + 1000) n"

lemma length_every_second [simp]: "length (every_second t0 n) = n"
  by (induction n arbitrary: t0) auto

lemma parked_run:
  "parked w e (t0 + d) \<Longrightarrow> int WHEEL_SIZE * 1000 \<le> d \<Longrightarrow> delay_slots d \<le> n \<Longrightarrow> i < delay_slots d \<Longrightarrow>
   e \<in> set (fst (run_ticks (every_second t0 n) w) ! i) \<longleftrightarrow> i = delay_slots d - 1"
proof (induction n arbitrary: w t0 d i)
  case 0
  then show ?case by (simp add: delay_slots_def WHEEL_SIZE_def)
next
  case (Suc n)
  obtain fired w' where tk: "tick (t0 + 1000) w = (fired, w')" by fastforce
  note step = parked_tick [OF Suc.prems(1) tk]
  have r: "t0 + d - (t0 + 1000) = d - 1000" by simp
  have ds: "delay_slots (d - 1000) = delay_slots d - 1" "2 \<le> delay_slots d"
    using Suc.prems(2) by (simp_all add: delay_slots_def WHEEL_SIZE_def)
  have later: "e \<in> set (fst (run_ticks (every_second (t0 + 1000) n) w') ! k) \<longleftrightarrow> k = delay_slots d - 1 - 1"
    if "k < delay_slots d - 1" for k
  proof (cases "int WHEEL_SIZE * 1000 \<le> d - 1000")
    case True
    then have "parked w' e ((t0 + 1000) + (d - 1000))" using step(2) r by simp
    from Suc.IH [OF this True] ds Suc.prems(3) that show ?thesis by simp
  next
    case False
    then have "due w' e (delay_slots d - 1)"
      using step(3) Suc.prems(2) r ds by (simp add: WHEEL_SIZE_def)
    from due_run [OF this] Suc.prems(3) that show ?thesis by simp
  qed
  show ?case
  proof (cases i)
    case 0
    with step(1) tk ds show ?thesis by (auto simp: Let_def split: prod.splits)
  next
    case (Suc k)
    then have k: "k < delay_slots d - 1" "k = delay_slots d - 1 - 1 \<longleftrightarrow> i = delay_slots d - 1"
      using Suc.prems(4) ds(2) by auto
    have "fst (run_ticks (every_second t0 (Suc n)) w) ! i =
        fst (run_ticks (every_second (t0 + 1000) n) w') ! k"
      using tk Suc by (simp add: Let_def split: prod.splits)
    with later [OF k(1)] k(2) show ?thesis by simp
  qed
qed

lemma parked_insert:
  assumes wf: "wheel_wf w" and fr: "fresh_entry w e" and d: "WHEEL_SIZE \<le> delay_slots d"
  shows "parked (wheel_insert e d w) e (lastTickMs w + d)"
proof -
  have no: "e \<notin> set (slots w ! j)" if "j < WHEEL_SIZE" for j
    using fr that wf by (auto simp: fresh_entry_def entries_def wheel_wf_def dest: nth_mem)
  have "overflow (wheel_insert e d w) = overflow w @ (e, lastTickMs w + d) # []"
    using d by (simp add: wheel_insert_def)
  moreover have "e \<notin> fst ` set (overflow w)" using fr by (auto simp: fresh_entry_def entries_def)
  moreover have "slots (wheel_insert e d w) = slots w" using d by (simp add: wheel_insert_def)
  ultimately show ?thesis
    using wf no unfolding parked_def
    by (intro conjI exI [of _ "overflow w"] exI [of _ "[]"]) (auto simp: wheel_wf_def)
qed

section \<open>Properties\<close>



text \<open>
  An entry inserted with a delay of at least one second, however long, fires exactly at tick
  \<open>\<lfloor>delayMs / 1000\<rfloor>\<close> of a hand driven once a second, and at no earlier tick; a delay below one
  second fires only after a full revolution of 3600 ticks.
\<close>

theorem wheel_fires_on_time:
  assumes "wheel_wf w" and "fresh_entry w e" and "lastTickMs w = t0"
    and "s = (if delay_slots d = 0 then WHEEL_SIZE else delay_slots d)"
    and "s \<le> n" and "i < s"
  shows "e \<in> set (fst (run_ticks (every_second t0 n) (wheel_insert e d w)) ! i) \<longleftrightarrow> i = s - 1"
proof (cases "delay_slots d < WHEEL_SIZE")
  case True
  from due_run [OF due_insert [OF assms(1,2) True], of "every_second t0 n" i] assms show ?thesis
    by simp
next
  case False
  then have far: "WHEEL_SIZE \<le> delay_slots d" by simp
  then have "int WHEEL_SIZE * 1000 \<le> d"
    by (auto simp: delay_slots_def WHEEL_SIZE_def max_def split: if_splits)
  moreover have "s = delay_slots d" using far assms(4) by (auto simp: WHEEL_SIZE_def)
  ultimately show ?thesis
    using parked_run [OF _ _ _ , of "wheel_insert e d w" e t0 d n i]
      parked_insert [OF assms(1,2) far] assms by simp
qed

theorem wheel_fires_on_time_witness:
  "''a'' \<in> set (fst (run_ticks (every_second 0 7300) (wheel_insert ''a'' 7250500 (new_wheel 0))) ! 7249)"
proof -
  have "fresh_entry (new_wheel 0) ''a''" by (simp add: fresh_entry_def entries_def new_wheel_def)
  then show ?thesis
    using wheel_fires_on_time [of "new_wheel 0" "''a''" 0 7250 7250500 7300 7249]
    by (simp add: delay_slots_def new_wheel_def WHEEL_SIZE_def wheel_wf_def)
qed

end
