(* ===== verification/Heap.thy ===== *)
theory Heap
  imports Prelude
begin

text \<open>
  The binary heap of \<open>scheduler/heap.ts\<close>: \<open>HeapNode\<close>, \<open>compareNodes\<close> and the array operations of
  \<open>HeapPriorityQueue\<close>, as functions on the array. The theory states the priority-queue interface its
  client (the scheduler sweep) relies on as a locale, proves the client's facts in it and interprets
  it on the heap.
\<close>

section \<open>The interface\<close>

locale priority_queue =
  fixes empty :: "'q"
    and enqueue :: "'a \<Rightarrow> 'q \<Rightarrow> 'q"
    and pop :: "'q \<Rightarrow> 'a option \<times> 'q"
    and count :: "'q \<Rightarrow> nat"
    and key :: "'a \<Rightarrow> 'k :: linorder"
    and invar :: "'q \<Rightarrow> bool"
    and elems :: "'q \<Rightarrow> 'a multiset"
  assumes invar_empty: "invar empty"
    and elems_empty: "elems empty = {#}"
    and invar_enqueue: "invar q \<Longrightarrow> invar (enqueue x q)"
    and elems_enqueue: "invar q \<Longrightarrow> elems (enqueue x q) = add_mset x (elems q)"
    and count_elems: "invar q \<Longrightarrow> count q = size (elems q)"
    and pop_none: "invar q \<Longrightarrow> elems q = {#} \<Longrightarrow> fst (pop q) = None"
    and pop_some: "invar q \<Longrightarrow> elems q \<noteq> {#} \<Longrightarrow>
      \<exists>x q'. pop q = (Some x, q') \<and> invar q' \<and> elems q = add_mset x (elems q') \<and>
        (\<forall>y \<in># elems q'. key x \<le> key y)"
begin

fun pops :: "nat \<Rightarrow> 'q \<Rightarrow> 'a list" where
  "pops 0 q = []"
| "pops (Suc n) q = (case pop q of (None, _) \<Rightarrow> [] | (Some x, q') \<Rightarrow> x # pops n q')"

lemma mset_pops: "invar q \<Longrightarrow> size (elems q) \<le> n \<Longrightarrow> mset (pops n q) = elems q"
proof (induction n arbitrary: q)
  case (Suc n)
  show ?case
  proof (cases "elems q = {#}")
    case True
    with Suc.prems have "fst (pop q) = None" by (simp add: pop_none)
    with True show ?thesis by (cases "pop q") simp
  next
    case False
    with Suc pop_some [of q] show ?thesis by auto
  qed
qed simp

lemma set_pops_subset: "invar q \<Longrightarrow> set (pops n q) \<subseteq> set_mset (elems q)"
proof (induction n arbitrary: q)
  case (Suc n)
  show ?case
  proof (cases "elems q = {#}")
    case True
    with Suc.prems have "fst (pop q) = None" by (simp add: pop_none)
    then show ?thesis by (cases "pop q") simp
  next
    case False
    with Suc.prems pop_some [of q] obtain x q' where "pop q = (Some x, q')" "invar q'"
      "elems q = add_mset x (elems q')" by auto
    with Suc.IH [of q'] show ?thesis by auto
  qed
qed simp

lemma sorted_pops: "invar q \<Longrightarrow> sorted (map key (pops n q))"
proof (induction n arbitrary: q)
  case (Suc n)
  show ?case
  proof (cases "elems q = {#}")
    case True
    with Suc.prems have "fst (pop q) = None" by (simp add: pop_none)
    then show ?thesis by (cases "pop q") simp
  next
    case False
    with Suc.prems pop_some [of q] obtain x q' where "pop q = (Some x, q')" "invar q'"
      "\<forall>y \<in># elems q'. key x \<le> key y" by auto
    with Suc.IH [of q'] set_pops_subset [of q' n] show ?thesis by auto
  qed
qed simp

lemma invar_fold_enqueue: "invar q \<Longrightarrow> invar (fold enqueue xs q)"
  by (induction xs arbitrary: q) (auto intro: invar_enqueue)

lemma elems_fold_enqueue: "invar q \<Longrightarrow> elems (fold enqueue xs q) = mset xs + elems q"
  by (induction xs arbitrary: q) (auto simp: elems_enqueue invar_enqueue)

text \<open>Filling the queue and popping as often as there are elements sorts them by key.\<close>

lemma fill_and_pop:
  "mset (pops (length xs) (fold enqueue xs empty)) = mset xs"
  "sorted (map key (pops n (fold enqueue xs empty)))"
proof -
  have inv: "invar (fold enqueue xs empty)" by (simp add: invar_fold_enqueue invar_empty)
  have el: "elems (fold enqueue xs empty) = mset xs"
    by (simp add: elems_fold_enqueue invar_empty elems_empty)
  show "mset (pops (length xs) (fold enqueue xs empty)) = mset xs"
    using mset_pops [OF inv, of "length xs"] el by simp
  show "sorted (map key (pops n (fold enqueue xs empty)))"
    by (rule sorted_pops [OF inv])
qed

end

section \<open>Nodes and their order\<close>

record heap_node =
  score :: rat
  scheduledAt :: "millis option"
  createdAt :: millis
  jobId :: uuid

text \<open>The numbers \<open>compareNodes\<close> computes with: timestamps and the sentinel \<open>-Infinity\<close>.\<close>

datatype ext_num = NegInf | Fin rat | PosInf

definition IMMEDIATE :: ext_num where
  "IMMEDIATE = NegInf"

text \<open>
  Only differences of unequal operands are formed, so \<open>-Infinity - -Infinity\<close> (NaN in JavaScript)
  never arises; that case is given an arbitrary value.
\<close>

fun ext_minus :: "ext_num \<Rightarrow> ext_num \<Rightarrow> ext_num" where
  "ext_minus (Fin x) (Fin y) = Fin (x - y)"
| "ext_minus NegInf _ = NegInf"
| "ext_minus PosInf _ = PosInf"
| "ext_minus (Fin _) NegInf = PosInf"
| "ext_minus (Fin _) PosInf = NegInf"

fun ext_neg :: "ext_num \<Rightarrow> bool" where
  "ext_neg NegInf = True"
| "ext_neg (Fin x) = (x < 0)"
| "ext_neg PosInf = False"

fun ext_le0 :: "ext_num \<Rightarrow> bool" where
  "ext_le0 NegInf = True"
| "ext_le0 (Fin x) = (x \<le> 0)"
| "ext_le0 PosInf = False"

definition time_of :: "millis option \<Rightarrow> ext_num" where
  "time_of t = (case t of None \<Rightarrow> IMMEDIATE | Some m \<Rightarrow> Fin (of_int m))"

definition compareNodes :: "heap_node \<Rightarrow> heap_node \<Rightarrow> ext_num" where
  "compareNodes a b =
     (if score a \<noteq> score b then Fin (score a - score b)
      else let aTime = time_of (scheduledAt a); bTime = time_of (scheduledAt b)
           in if aTime \<noteq> bTime then ext_minus aTime bTime
              else Fin (of_int (createdAt a - createdAt b)))"

definition node_key :: "heap_node \<Rightarrow> rat \<times> millis option \<times> millis" where
  "node_key n = (score n, scheduledAt n, createdAt n)"

lemma compareNodes_neg: "ext_neg (compareNodes a b) \<longleftrightarrow> node_key a < node_key b"
  by (cases "scheduledAt a"; cases "scheduledAt b")
    (auto simp: compareNodes_def node_key_def time_of_def IMMEDIATE_def Let_def less_prod_def')

lemma compareNodes_le0: "ext_le0 (compareNodes a b) \<longleftrightarrow> node_key a \<le> node_key b"
  by (cases "scheduledAt a"; cases "scheduledAt b")
    (auto simp: compareNodes_def node_key_def time_of_def IMMEDIATE_def Let_def less_eq_prod_def)

section \<open>The heap operations\<close>

type_synonym heap = "heap_node list"

definition swap_at :: "'a list \<Rightarrow> nat \<Rightarrow> nat \<Rightarrow> 'a list" where
  "swap_at xs i j = xs[i := xs ! j, j := xs ! i]"

fun bubbleUp :: "heap \<Rightarrow> nat \<Rightarrow> heap" where
  "bubbleUp h index =
     (if 0 < index
      then let parent = (index - 1) div 2
           in if ext_le0 (compareNodes (h ! parent) (h ! index)) then h
              else bubbleUp (swap_at h parent index) parent
      else h)"

definition smallest_child :: "heap \<Rightarrow> nat \<Rightarrow> nat" where
  "smallest_child h index =
     (let left = 2 * index + 1;
          right = 2 * index + 2;
          smallest =
            (if left < length h \<and> ext_neg (compareNodes (h ! left) (h ! index)) then left else index)
      in if right < length h \<and> ext_neg (compareNodes (h ! right) (h ! smallest)) then right
         else smallest)"

lemma smallest_child_bounds:
  "smallest_child h i \<noteq> i \<Longrightarrow> i < smallest_child h i \<and> smallest_child h i < length h"
  by (auto simp: smallest_child_def Let_def split: if_splits)

function bubbleDown :: "heap \<Rightarrow> nat \<Rightarrow> heap" where
  "bubbleDown h index =
     (let smallest = smallest_child h index
      in if smallest = index then h else bubbleDown (swap_at h smallest index) smallest)"
  by pat_completeness auto
termination
proof (relation "measure (\<lambda>(h, i). length h - i)")
  fix h :: heap and i s
  assume "s = smallest_child h i" "s \<noteq> i"
  with smallest_child_bounds [of h i] have "i < s" "s < length h" by auto
  then show "((swap_at h s i, s), h, i) \<in> measure (\<lambda>(h, i). length h - i)"
    by (auto simp: swap_at_def)
qed simp

declare bubbleUp.simps [simp del] bubbleDown.simps [simp del]

definition heap_insert :: "heap_node \<Rightarrow> heap \<Rightarrow> heap" where
  "heap_insert node h = (let h' = h @ [node] in bubbleUp h' (length h' - 1))"

definition popMin :: "heap \<Rightarrow> heap_node option \<times> heap" where
  "popMin h =
     (if length h = 0 then (None, h)
      else if length h = 1 then (Some (last h), butlast h)
      else let min = h ! 0; h' = (butlast h)[0 := last h] in (Some min, bubbleDown h' 0))"

definition peek :: "heap \<Rightarrow> heap_node option" where
  "peek h = (if length h = 0 then None else Some (h ! 0))"

definition heap_size :: "heap \<Rightarrow> nat" where
  "heap_size h = length h"

section \<open>The heap invariant\<close>

definition parent_of :: "nat \<Rightarrow> nat" where
  "parent_of i = (i - 1) div 2"

definition heap_inv :: "heap \<Rightarrow> bool" where
  "heap_inv h \<longleftrightarrow> (\<forall>i. 0 < i \<and> i < length h \<longrightarrow> node_key (h ! parent_of i) \<le> node_key (h ! i))"

text \<open>Every edge is ordered except the one above \<open>i\<close> (respectively the ones below \<open>i\<close>).\<close>

definition up_ok :: "heap \<Rightarrow> nat \<Rightarrow> bool" where
  "up_ok h i \<longleftrightarrow>
     (\<forall>j. 0 < j \<and> j < length h \<and> j \<noteq> i \<longrightarrow> node_key (h ! parent_of j) \<le> node_key (h ! j)) \<and>
     (\<forall>j. 0 < i \<and> 0 < j \<and> j < length h \<and> parent_of j = i \<longrightarrow>
        node_key (h ! parent_of i) \<le> node_key (h ! j))"

definition down_ok :: "heap \<Rightarrow> nat \<Rightarrow> bool" where
  "down_ok h i \<longleftrightarrow>
     (\<forall>j. 0 < j \<and> j < length h \<and> parent_of j \<noteq> i \<longrightarrow>
        node_key (h ! parent_of j) \<le> node_key (h ! j)) \<and>
     (\<forall>j. 0 < i \<and> 0 < j \<and> j < length h \<and> parent_of j = i \<longrightarrow>
        node_key (h ! parent_of i) \<le> node_key (h ! j))"

lemma parent_of_less: "0 < i \<Longrightarrow> parent_of i < i"
  by (simp add: parent_of_def)

lemma parent_of_iff: "0 < j \<Longrightarrow> parent_of j = i \<longleftrightarrow> j = 2 * i + 1 \<or> j = 2 * i + 2"
  unfolding parent_of_def by presburger

lemma length_swap_at [simp]: "length (swap_at xs i j) = length xs"
  by (simp add: swap_at_def)

lemma nth_swap_at:
  "i < length xs \<Longrightarrow> j < length xs \<Longrightarrow>
   swap_at xs i j ! k = (if k = j then xs ! i else if k = i then xs ! j else xs ! k)"
  by (cases "k < length xs") (auto simp: swap_at_def nth_list_update)

lemma mset_swap_at: "i < length xs \<Longrightarrow> j < length xs \<Longrightarrow> mset (swap_at xs i j) = mset xs"
  unfolding swap_at_def by (rule mset_swap)

lemma up_ok_swap:
  assumes ok: "up_ok h i" and i: "0 < i" "i < length h"
    and lt: "node_key (h ! i) < node_key (h ! parent_of i)"
  shows "up_ok (swap_at h (parent_of i) i) (parent_of i)"
proof -
  let ?p = "parent_of i"
  have p: "?p < i" using i by (simp add: parent_of_less)
  with i have pl: "?p < length h" by simp
  note nth = nth_swap_at [OF pl i(2)]
  have e: "node_key (h ! parent_of j) \<le> node_key (h ! j)" if "0 < j" "j < length h" "j \<noteq> i" for j
    using ok that by (simp add: up_ok_def)
  have g: "node_key (h ! ?p) \<le> node_key (h ! j)" if "0 < j" "j < length h" "parent_of j = i" for j
    using ok that i by (simp add: up_ok_def)
  show ?thesis
    unfolding up_ok_def
  proof (intro conjI allI impI; elim conjE)
    fix j assume j: "0 < j" "j < length (swap_at h ?p i)" "j \<noteq> ?p"
    show "node_key (swap_at h ?p i ! parent_of j) \<le> node_key (swap_at h ?p i ! j)"
      using e [of j] g [of j] j lt parent_of_less [of j]
      by (cases "j = i"; cases "parent_of j = ?p"; cases "parent_of j = i") (auto simp: nth)
  next
    fix j assume j: "0 < ?p" "0 < j" "j < length (swap_at h ?p i)" "parent_of j = ?p"
    have q: "parent_of ?p < ?p" using j by (simp add: parent_of_less)
    have 1: "node_key (h ! parent_of ?p) \<le> node_key (h ! ?p)" using e [of ?p] j pl p by simp
    show "node_key (swap_at h ?p i ! parent_of ?p) \<le> node_key (swap_at h ?p i ! j)"
      using 1 e [of j] j q p by (cases "j = i") (auto simp: nth)
  qed
qed

lemma bubbleUp_inv: "up_ok h i \<Longrightarrow> i < length h \<Longrightarrow> heap_inv (bubbleUp h i)"
proof (induction h i rule: bubbleUp.induct)
  case (1 h i)
  show ?case
  proof (cases "0 < i \<and> \<not> node_key (h ! parent_of i) \<le> node_key (h ! i)")
    case True
    then have "up_ok (swap_at h (parent_of i) i) (parent_of i)"
      using up_ok_swap [of h i] "1.prems" by (simp add: not_le)
    moreover have "parent_of i < length h" using parent_of_less [of i] True "1.prems" by simp
    ultimately have "heap_inv (bubbleUp (swap_at h (parent_of i) i) (parent_of i))"
      using "1.IH" True by (simp add: compareNodes_le0 parent_of_def)
    with True show ?thesis
      by (subst bubbleUp.simps) (simp add: compareNodes_le0 parent_of_def Let_def)
  next
    case False
    then have "bubbleUp h i = h"
      by (subst bubbleUp.simps) (auto simp: compareNodes_le0 parent_of_def Let_def)
    with False "1.prems" show ?thesis by (auto simp: heap_inv_def up_ok_def)
  qed
qed

lemma mset_bubbleUp: "i < length h \<Longrightarrow> mset (bubbleUp h i) = mset h"
proof (induction h i rule: bubbleUp.induct)
  case (1 h i)
  then show ?case
    by (subst bubbleUp.simps) (auto simp: Let_def mset_swap_at)
qed

text \<open>The child chosen by one round of \<open>bubbleDown\<close> is below the index and minimal around it.\<close>

lemma smallest_child_parent: "smallest_child h i = i \<or> parent_of (smallest_child h i) = i"
  by (auto simp: smallest_child_def Let_def parent_of_def)

lemma smallest_child_less:
  "smallest_child h i \<noteq> i \<Longrightarrow> node_key (h ! smallest_child h i) < node_key (h ! i)"
  by (auto simp: smallest_child_def Let_def compareNodes_neg split: if_splits)

lemma smallest_child_le:
  assumes "0 < j" "j < length h" "parent_of j = i"
  shows "node_key (h ! smallest_child h i) \<le> node_key (h ! j)"
proof -
  from assms have "j = 2 * i + 1 \<or> j = 2 * i + 2" by (simp add: parent_of_iff)
  with assms(2) show ?thesis
    by (elim disjE; auto simp: smallest_child_def Let_def compareNodes_neg; order)
qed

lemma down_ok_swap:
  assumes ok: "down_ok h i" and i: "i < length h" and s: "smallest_child h i = s" "s \<noteq> i"
  shows "down_ok (swap_at h s i) s"
proof -
  have sl: "i < s" "s < length h" using smallest_child_bounds [of h i] s by auto
  have ps: "parent_of s = i" using smallest_child_parent [of h i] s by auto
  have lt: "node_key (h ! s) < node_key (h ! i)" using smallest_child_less [of h i] s by auto
  have mn: "node_key (h ! s) \<le> node_key (h ! j)" if "0 < j" "j < length h" "parent_of j = i" for j
    using smallest_child_le [OF that] s by simp
  note nth = nth_swap_at [OF sl(2) i]
  have e: "node_key (h ! parent_of j) \<le> node_key (h ! j)"
    if "0 < j" "j < length h" "parent_of j \<noteq> i" for j
    using ok that by (simp add: down_ok_def)
  have up: "node_key (h ! parent_of i) \<le> node_key (h ! s)" if "0 < i"
    using ok that sl ps by (simp add: down_ok_def)
  show ?thesis
    unfolding down_ok_def
  proof (intro conjI allI impI; elim conjE)
    fix j assume j: "0 < j" "j < length (swap_at h s i)" "parent_of j \<noteq> s"
    show "node_key (swap_at h s i ! parent_of j) \<le> node_key (swap_at h s i ! j)"
      using e [of j] mn [of j] j lt ps sl up parent_of_less [of j]
      by (cases "j = s"; cases "j = i"; cases "parent_of j = i") (auto simp: nth)
  next
    fix j assume j: "0 < s" "0 < j" "j < length (swap_at h s i)" "parent_of j = s"
    then have "node_key (h ! s) \<le> node_key (h ! j)" using e [of j] sl by auto
    moreover have "j \<noteq> i" "j \<noteq> s" using j parent_of_less [of j] sl by auto
    ultimately show "node_key (swap_at h s i ! parent_of s) \<le> node_key (swap_at h s i ! j)"
      using ps sl by (simp add: nth)
  qed
qed

lemma bubbleDown_inv: "down_ok h i \<Longrightarrow> i < length h \<Longrightarrow> heap_inv (bubbleDown h i)"
proof (induction h i rule: bubbleDown.induct)
  case (1 h i)
  show ?case
  proof (cases "smallest_child h i = i")
    case True
    then have eq: "bubbleDown h i = h" by (subst bubbleDown.simps) (simp add: Let_def)
    have "node_key (h ! parent_of j) \<le> node_key (h ! j)" if "0 < j" "j < length h" for j
      using "1.prems" that smallest_child_le [of j h i] True
      by (cases "parent_of j = i") (auto simp: down_ok_def)
    with eq show ?thesis by (simp add: heap_inv_def)
  next
    case False
    with "1" smallest_child_bounds [of h i] down_ok_swap [of h i]
    have "heap_inv (bubbleDown (swap_at h (smallest_child h i) i) (smallest_child h i))" by simp
    with False show ?thesis by (subst bubbleDown.simps) (simp add: Let_def)
  qed
qed

lemma mset_bubbleDown: "i < length h \<Longrightarrow> mset (bubbleDown h i) = mset h"
proof (induction h i rule: bubbleDown.induct)
  case (1 h i)
  then show ?case
    using smallest_child_bounds [of h i]
    by (subst bubbleDown.simps) (auto simp: Let_def mset_swap_at)
qed

lemma heap_inv_root_min: "heap_inv h \<Longrightarrow> i < length h \<Longrightarrow> node_key (h ! 0) \<le> node_key (h ! i)"
proof (induction i rule: less_induct)
  case (less i)
  show ?case
  proof (cases "i = 0")
    case False
    then have "parent_of i < i" by (simp add: parent_of_less)
    with less False show ?thesis
      by (metis (no_types, lifting) heap_inv_def less_trans neq0_conv order_trans)
  qed simp
qed

section \<open>The operations implement the interface\<close>

lemma heap_insert_inv: "heap_inv h \<Longrightarrow> heap_inv (heap_insert n h)"
proof -
  assume inv: "heap_inv h"
  have "up_ok (h @ [n]) (length h)"
    unfolding up_ok_def
  proof (intro conjI allI impI; elim conjE)
    fix j assume j: "0 < j" "j < length (h @ [n])" "j \<noteq> length h"
    with parent_of_less [of j] have "parent_of j < length h" by simp
    with inv j show "node_key ((h @ [n]) ! parent_of j) \<le> node_key ((h @ [n]) ! j)"
      by (simp add: heap_inv_def nth_append)
  next
    fix j assume "0 < j" "j < length (h @ [n])" "parent_of j = length h"
    with parent_of_less [of j]
    show "node_key ((h @ [n]) ! parent_of (length h)) \<le> node_key ((h @ [n]) ! j)" by simp
  qed
  then show ?thesis by (simp add: heap_insert_def Let_def bubbleUp_inv)
qed

lemma mset_heap_insert: "mset (heap_insert n h) = add_mset n (mset h)"
  by (simp add: heap_insert_def Let_def mset_bubbleUp)

lemma heap_inv_popMin_prefix:
  assumes inv: "heap_inv h" and len: "2 \<le> length h"
  shows "down_ok ((butlast h)[0 := last h]) 0"
  unfolding down_ok_def
proof (intro conjI allI impI; elim conjE)
  fix j assume j: "0 < j" "j < length ((butlast h)[0 := last h])" "parent_of j \<noteq> 0"
  with parent_of_less [of j] have "parent_of j < length h - 1" by simp
  with inv j show "node_key ((butlast h)[0 := last h] ! parent_of j)
      \<le> node_key ((butlast h)[0 := last h] ! j)"
    by (simp add: heap_inv_def nth_butlast)
qed simp

lemma mset_butlast_update:
  assumes "2 \<le> length h"
  shows "mset h = add_mset (h ! 0) (mset ((butlast h)[0 := last h]))"
proof -
  obtain x xs where h: "h = x # xs" "xs \<noteq> []" using assms by (cases h) (auto simp: Suc_le_eq)
  then have "mset xs = add_mset (last xs) (mset (butlast xs))"
    by (metis append_butlast_last_id mset.simps union_code add_mset_add_single mset_append)
  with h show ?thesis by simp
qed

lemma popMin_correct:
  assumes inv: "heap_inv h" and ne: "h \<noteq> []"
  shows "\<exists>x h'. popMin h = (Some x, h') \<and> heap_inv h' \<and> mset h = add_mset x (mset h') \<and>
    (\<forall>y \<in># mset h'. node_key x \<le> node_key y)"
proof (cases "length h = 1")
  case True
  then obtain x where "h = [x]" by (auto simp: length_Suc_conv)
  then show ?thesis by (simp add: popMin_def heap_inv_def)
next
  case False
  with ne have len: "2 \<le> length h" by (cases h; cases "tl h") auto
  define k where "k = (butlast h)[0 := last h]"
  have kl: "0 < length k" using len by (simp add: k_def)
  have pop: "popMin h = (Some (h ! 0), bubbleDown k 0)"
    using len ne by (simp add: popMin_def k_def Let_def)
  have inv': "heap_inv (bubbleDown k 0)"
    using bubbleDown_inv [OF _ kl] heap_inv_popMin_prefix [OF inv len] by (simp add: k_def)
  have ms: "mset h = add_mset (h ! 0) (mset (bubbleDown k 0))"
    using mset_butlast_update [OF len] mset_bubbleDown [OF kl] by (simp add: k_def)
  have "node_key (h ! 0) \<le> node_key y" if "y \<in># mset (bubbleDown k 0)" for y
  proof -
    from that ms have "y \<in> set h" by (metis insert_noteq_member set_mset_mset union_single_eq_member
          mset_add add_mset_remove_trivial insertCI set_mset_add_mset_insert)
    with heap_inv_root_min [OF inv] show ?thesis by (auto simp: in_set_conv_nth)
  qed
  with pop inv' ms show ?thesis by blast
qed

interpretation hq: priority_queue "[]" heap_insert popMin heap_size node_key heap_inv mset
proof unfold_locales
  fix q :: heap assume "heap_inv q" "mset q \<noteq> {#}"
  with popMin_correct [of q] show "\<exists>x q'. popMin q = (Some x, q') \<and> heap_inv q' \<and>
      mset q = add_mset x (mset q') \<and> (\<forall>y \<in># mset q'. node_key x \<le> node_key y)" by simp
qed (simp_all add: heap_inv_def [of "[]"] heap_insert_inv mset_heap_insert heap_size_def popMin_def)

lemma peek_popMin: "peek h = fst (popMin h)"
proof (cases "length h = 1")
  case True
  then obtain x where "h = [x]" by (auto simp: length_Suc_conv)
  then show ?thesis by (simp add: peek_def popMin_def)
qed (simp add: peek_def popMin_def Let_def)

text \<open>The client's loop \<open>while (heap.size() > 0) { const node = heap.popMin()!; \<dots> }\<close>.\<close>

lemma popMin_length: "popMin h = (Some x, h') \<Longrightarrow> length h' < length h"
proof -
  have *: "length (bubbleDown k i) = length k" if "i < length k" for k i
    using mset_bubbleDown [OF that] by (metis size_mset)
  show "popMin h = (Some x, h') \<Longrightarrow> length h' < length h"
    using * [of 0 "(butlast h)[0 := last h]"]
    by (cases h; cases "tl h") (auto simp: popMin_def Let_def split: if_splits)
qed

function drain :: "heap \<Rightarrow> heap_node list" where
  "drain h =
     (if 0 < heap_size h
      then (case popMin h of (Some node, h') \<Rightarrow> node # drain h' | (None, _) \<Rightarrow> [])
      else [])"
  by pat_completeness auto
termination
  by (relation "measure length") (auto dest: sym simp: popMin_length)

declare drain.simps [simp del]

lemma drain_pops: "length h \<le> n \<Longrightarrow> drain h = hq.pops n h"
proof (induction n arbitrary: h)
  case (Suc n)
  show ?case
    using Suc popMin_length [of h]
    by (subst drain.simps)
      (fastforce simp: heap_size_def popMin_def split: prod.splits option.splits if_splits)
qed (simp add: drain.simps heap_size_def)

lemma drain_fill:
  "mset (drain (fold heap_insert ns [])) = mset ns" "sorted (map node_key (drain (fold heap_insert ns [])))"
proof -
  have "length (fold heap_insert ns []) = length ns"
    using hq.elems_fold_enqueue [of "[]" ns] hq.invar_empty by (metis add.right_neutral mset.simps(1) size_mset)
  then have "drain (fold heap_insert ns []) = hq.pops (length ns) (fold heap_insert ns [])"
    by (simp add: drain_pops)
  with hq.fill_and_pop [where xs = ns]
  show "mset (drain (fold heap_insert ns [])) = mset ns" "sorted (map node_key (drain (fold heap_insert ns [])))" by simp_all
qed

text \<open>
  C1. \<open>HeapPriorityQueue\<close> is a priority queue for the order of \<open>compareNodes\<close>: whatever nodes are
  inserted, popping until the heap is empty returns exactly those nodes, ordered by score, then
  by \<open>scheduledAt\<close> with \<open>null\<close> (run immediately) before every timestamp, then by \<open>createdAt\<close>.
\<close>

theorem heap_pops_sorted:
  "mset (drain (fold heap_insert ns [])) = mset ns \<and>
   sorted (map (\<lambda>n. (score n, scheduledAt n, createdAt n)) (drain (fold heap_insert ns [])))"
  using drain_fill [of ns] by (simp add: node_key_def [abs_def])

text \<open>
  \<open>popMin\<close> on a non-empty heap returns the root (what \<open>peek\<close> shows), a least element for
  \<open>compareNodes\<close>, and leaves a heap with exactly the other elements.
\<close>

theorem popMin_min:
  assumes "heap_inv h" and "h \<noteq> []"
  shows "\<exists>x h'. popMin h = (Some x, h') \<and> peek h = Some x \<and> heap_inv h' \<and>
    mset h = add_mset x (mset h') \<and> (\<forall>y \<in> set h'. ext_le0 (compareNodes x y))"
  using popMin_correct [OF assms] by (auto simp: compareNodes_le0 peek_popMin)

theorem popMin_min_witness:
  "\<exists>x h'. popMin [\<lparr>score = 1, scheduledAt = None, createdAt = 7, jobId = ''a''\<rparr>,
      \<lparr>score = 1, scheduledAt = Some 0, createdAt = 3, jobId = ''b''\<rparr>] = (Some x, h') \<and>
     jobId x = ''a''"
proof -
  let ?h = "[\<lparr>score = 1, scheduledAt = None, createdAt = 7, jobId = ''a''\<rparr>,
      \<lparr>score = 1, scheduledAt = Some 0, createdAt = 3, jobId = ''b''\<rparr>] :: heap"
  have "heap_inv ?h"
    by (auto simp: heap_inv_def parent_of_def node_key_def less_Suc_eq nth_Cons')
  from popMin_min [OF this] obtain x h' where "popMin ?h = (Some x, h')" "peek ?h = Some x" by auto
  then show ?thesis by (auto simp: peek_def)
qed

end
