(* ===== verification/Guarded_Update.thy ===== *)
theory Guarded_Update
  imports Prelude
begin

text \<open>
  The contract behind every conditional \<open>UPDATE\<close> of the program (\<open>tryClaimForApproval\<close>,
  \<open>tryStartDelivery\<close>, \<open>trySetStatus\<close>, \<dots>): the statement tests its \<open>WHERE\<close> clause and writes in one
  atomic step and reports whether it changed a row. A client that runs such a statement from any number
  of concurrent callers relies on one fact only: exactly one of them is told it won. The locale states
  the contract and proves that fact once; the components interpret it on their own statements.
\<close>

fun run_attempts :: "('p \<Rightarrow> 's \<Rightarrow> bool \<times> 's) \<Rightarrow> 'p list \<Rightarrow> 's \<Rightarrow> bool list \<times> 's" where
  "run_attempts upd [] s = ([], s)"
| "run_attempts upd (p # ps) s =
     (let (won, s') = upd p s; (rest, s'') = run_attempts upd ps s' in (won # rest, s''))"

lemma length_run_attempts [simp]: "length (fst (run_attempts upd ps s)) = length ps"
  by (induction ps arbitrary: s) (auto split: prod.splits, metis fst_conv)

locale guarded_update =
  fixes enabled :: "'s \<Rightarrow> bool" and upd :: "'p \<Rightarrow> 's \<Rightarrow> bool \<times> 's"
  assumes reports: "fst (upd p s) \<longleftrightarrow> enabled s"
    and consumes: "enabled s \<Longrightarrow> \<not> enabled (snd (upd p s))"
    and refuses: "\<not> enabled s \<Longrightarrow> snd (upd p s) = s"
begin

lemma disabled_attempts:
  "\<not> enabled s \<Longrightarrow> run_attempts upd ps s = (map (\<lambda>_. False) ps, s)"
proof (induction ps)
  case (Cons p ps)
  then have "upd p s = (False, s)" using reports [of p s] refuses [of s p] by (cases "upd p s") auto
  with Cons show ?case by simp
qed simp

lemma first_wins:
  assumes "enabled s"
  shows "run_attempts upd (p # ps) s = (True # map (\<lambda>_. False) ps, snd (upd p s))"
proof -
  have "run_attempts upd ps (snd (upd p s)) = (map (\<lambda>_. False) ps, snd (upd p s))"
    by (rule disabled_attempts) (rule consumes [OF assms])
  then show ?thesis using reports [of p s] assms by (simp add: case_prod_beta Let_def)
qed

lemma one_winner:
  "length (filter (\<lambda>won. won) (fst (run_attempts upd ps s))) = (if enabled s \<and> ps \<noteq> [] then 1 else 0)"
  by (cases ps; cases "enabled s") (auto simp: first_wins disabled_attempts simp del: run_attempts.simps(2))

end

text \<open>The instance shared by all of them: an \<open>UPDATE\<close> of one table guarded by a predicate it falsifies.\<close>

lemma guarded_update_table:
  assumes "\<And>p r. P r \<Longrightarrow> \<not> P (f p r)"
  shows "guarded_update (\<lambda>rows. 0 < affected P rows) (\<lambda>p rows. (0 < affected P rows, update_where P (f p) rows))"
  by unfold_locales (use assms in \<open>auto simp: affected_pos update_where_none set_update_where
    affected_def filter_empty_conv split: if_splits\<close>)

end
