(* ===== verification/Json.thy ===== *)
theory Json
  imports Prelude "HOL-Library.Monad_Syntax"
begin

text \<open>
  JSON documents (the \<open>jsonb\<close> columns \<open>config\<close> and \<open>raw_json\<close>) and the schema combinators with which
  the program declares what it accepts of them. A schema is a parser from a possibly absent field to
  an optional result; each combinator is the translation of the call of the same name in the source's
  schema declarations (\<open>z.object\<close>, \<open>z.literal\<close>, \<open>z.enum\<close>, \<open>z.array\<close>, \<open>z.record\<close>, \<open>.nullable()\<close>,
  \<open>.min(n)\<close>, \<dots>). Only the value a schema returns is modelled, not the error report.
\<close>

datatype json =
    JNull
  | JBool bool
  | JNum rat
  | JStr string
  | JArr "json list"
  | JObj "(string \<times> json) list"

type_synonym 'a schema = "json option \<Rightarrow> 'a option"

definition field :: "string \<Rightarrow> json \<Rightarrow> json option" where
  "field k v = (case v of JObj fs \<Rightarrow> map_of fs k | _ \<Rightarrow> None)"

fun z_string :: "string schema" where
  "z_string (Some (JStr s)) = Some s"
| "z_string _ = None"

fun z_number :: "rat schema" where
  "z_number (Some (JNum x)) = Some x"
| "z_number _ = None"

fun z_boolean :: "bool schema" where
  "z_boolean (Some (JBool b)) = Some b"
| "z_boolean _ = None"

definition z_refine :: "'a schema \<Rightarrow> ('a \<Rightarrow> bool) \<Rightarrow> 'a schema" where
  "z_refine s P v = (case s v of Some x \<Rightarrow> if P x then Some x else None | None \<Rightarrow> None)"

definition z_nonempty_string :: "string schema" where
  "z_nonempty_string = z_refine z_string (\<lambda>s. s \<noteq> [])"

text \<open>Integer-valued numbers are read into \<open>int\<close>.\<close>

definition z_int :: "int schema" where
  "z_int v = map_option floor (z_refine z_number is_integer v)"

definition z_nonneg_int :: "int schema" where
  "z_nonneg_int = z_refine z_int (\<lambda>n. 0 \<le> n)"

definition z_positive_int :: "int schema" where
  "z_positive_int = z_refine z_int (\<lambda>n. 0 < n)"

definition z_positive :: "rat schema" where
  "z_positive = z_refine z_number (\<lambda>x. 0 < x)"

definition z_nonnegative :: "rat schema" where
  "z_nonnegative = z_refine z_number (\<lambda>x. 0 \<le> x)"

definition z_percentage :: "rat schema" where
  "z_percentage = z_refine z_number (\<lambda>x. 0 \<le> x \<and> x \<le> 100)"

definition z_nullable :: "'a schema \<Rightarrow> 'a option schema" where
  "z_nullable s v = (if v = Some JNull then Some None else map_option Some (s v))"

definition z_default :: "'a \<Rightarrow> 'a schema \<Rightarrow> 'a schema" where
  "z_default d s v = (if v = None then Some d else s v)"

definition z_enum :: "(string \<times> 'a) list \<Rightarrow> 'a schema" where
  "z_enum opts v = z_string v \<bind> map_of opts"

definition z_literal :: "string \<Rightarrow> unit schema" where
  "z_literal l = z_enum [(l, ())]"

fun z_array :: "'a schema \<Rightarrow> 'a list schema" where
  "z_array s (Some (JArr vs)) = those (map (\<lambda>v. s (Some v)) vs)"
| "z_array s _ = None"

text \<open>\<open>z.record(key, value)\<close>: every key present is accepted by \<open>key\<close>, and its value by \<open>value\<close>.\<close>

fun z_record :: "'k schema \<Rightarrow> 'v schema \<Rightarrow> ('k \<times> 'v) list schema" where
  "z_record k s (Some (JObj fs)) =
     those (map (\<lambda>(name, v). do { key \<leftarrow> k (Some (JStr name)); x \<leftarrow> s (Some v); Some (key, x) }) fs)"
| "z_record k s _ = None"

text \<open>\<open>z.object\<close>: the value is an object; its fields are then read with \<^const>\<open>field\<close>.\<close>

fun z_object :: "json schema" where
  "z_object (Some (JObj fs)) = Some (JObj fs)"
| "z_object _ = None"

named_theorems schema_simps \<open>what a schema accepts\<close>

lemma z_refine_Some [schema_simps]: "z_refine s P v = Some x \<longleftrightarrow> s v = Some x \<and> P x"
  by (auto simp: z_refine_def split: option.splits)

lemma z_nonempty_string_Some [schema_simps]: "z_nonempty_string v = Some x \<longleftrightarrow> v = Some (JStr x) \<and> x \<noteq> []"
  by (cases v rule: z_string.cases) (auto simp: z_nonempty_string_def schema_simps)

lemma z_number_Some [schema_simps]: "z_number v = Some x \<longleftrightarrow> v = Some (JNum x)"
  by (cases v rule: z_number.cases) auto

lemma z_nonneg_int_Some [schema_simps]: "z_nonneg_int v = Some n \<longleftrightarrow> v = Some (JNum (of_int n)) \<and> 0 \<le> n"
  by (auto simp: z_nonneg_int_def z_int_def schema_simps is_integer_def)

lemma z_positive_int_Some [schema_simps]: "z_positive_int v = Some n \<longleftrightarrow> v = Some (JNum (of_int n)) \<and> 0 < n"
  by (auto simp: z_positive_int_def z_int_def schema_simps is_integer_def)

lemma z_percentage_Some [schema_simps]: "z_percentage v = Some x \<longleftrightarrow> v = Some (JNum x) \<and> 0 \<le> x \<and> x \<le> 100"
  by (auto simp: z_percentage_def schema_simps)

lemma z_positive_Some [schema_simps]: "z_positive v = Some x \<longleftrightarrow> v = Some (JNum x) \<and> 0 < x"
  by (auto simp: z_positive_def schema_simps)

lemma z_nonnegative_Some [schema_simps]: "z_nonnegative v = Some x \<longleftrightarrow> v = Some (JNum x) \<and> 0 \<le> x"
  by (auto simp: z_nonnegative_def schema_simps)

lemma those_map_Some: "those (map f xs) = Some ys \<Longrightarrow> y \<in> set ys \<Longrightarrow> \<exists>x \<in> set xs. f x = Some y"
  by (induction xs arbitrary: ys) (auto split: option.splits)

end
