(* ===== verification/Jobs.thy ===== *)
theory Jobs
  imports Heap Guarded_Update Json
begin

text \<open>
  The background jobs: the row of \<open>jobs/entities/job.entity.ts\<close> and of the dead letter queue, the conditional
  updates and sorted queries of \<open>jobs.model-action.ts\<close>, the operations of \<open>jobs.service.ts\<close> and
  \<open>dlq.service.ts\<close>, the sweep of \<open>scheduler/scheduler.service.ts\<close> over the heap, and the pagination of the
  abstract model action. The queue (Bull) is the list of the entries it holds; what the program relies on is its
  documented behaviour: adding an entry under an id it still holds does nothing. Rows a query orders only up to
  ties come in the order of insertion.
\<close>

section \<open>Rows\<close>

datatype job_status = J_Pending | J_Processing | J_Completed | J_Failed | J_Cancelled
datatype job_type = Send_Email | Webhook_Delivery | Log_Processing
datatype recurring_interval = Every_1_Minute | Every_5_Minutes | Every_1_Hour

fun RECURRING_INTERVAL_MS :: "recurring_interval \<Rightarrow> int" where
  "RECURRING_INTERVAL_MS Every_1_Minute = 60000"
| "RECURRING_INTERVAL_MS Every_5_Minutes = 5 * 60000"
| "RECURRING_INTERVAL_MS Every_1_Hour = 60 * 60000"

record job =
  j_id :: uuid
  j_type :: job_type
  j_payload :: json
  j_priority :: int
  j_status :: job_status
  j_retry_count :: int
  j_max_retries :: int
  j_error_message :: "string option"
  j_scheduled_at :: "millis option"
  j_recurring_interval :: "recurring_interval option"
  j_started_at :: "millis option"
  j_completed_at :: "millis option"
  j_depends_on :: "uuid list option"
  j_priority_score :: rat
  j_lease_expires_at :: "millis option"
  j_created_at :: millis

record dlq_job =
  dlq_id :: uuid
  dlq_original_job_id :: uuid
  dlq_type :: job_type
  dlq_payload :: json
  dlq_priority :: int
  dlq_error_message :: string
  dlq_retry_count :: nat
  dlq_last_attempted_at :: millis

text \<open>An entry of the queue, and where it stands: waiting for a worker, with one, or kept after it ended.\<close>

datatype bull_state = B_Waiting | B_Active job | B_Done | B_Dead

record bull_job =
  b_id :: string
  b_data :: uuid
  b_priority :: int
  b_attempts_made :: nat
  b_state :: bull_state

record job_sys =
  jobs :: "job list"
  dlq :: "dlq_job list"
  bull :: "bull_job list"
  bull_up :: bool
  j_now :: millis
  sse :: "(string \<times> uuid) list"
  handled :: "uuid list"

section \<open>The model action\<close>

definition update_job :: "uuid \<Rightarrow> (job \<Rightarrow> job) \<Rightarrow> job_sys \<Rightarrow> job_sys" where
  "update_job i f s = s\<lparr>jobs := update_where (\<lambda>j. j_id j = i) f (jobs s)\<rparr>"

definition find_job :: "uuid \<Rightarrow> job_sys \<Rightarrow> job option" where
  "find_job i s = find (\<lambda>j. j_id j = i) (jobs s)"

definition claimJob :: "uuid \<Rightarrow> millis \<Rightarrow> job_sys \<Rightarrow> bool \<times> job_sys" where
  "claimJob i leaseExpiresAt s =
     (let P = (\<lambda>j. j_id j = i \<and> j_status j = J_Pending) in
      (0 < affected P (jobs s),
       s\<lparr>jobs := update_where P (\<lambda>j. j\<lparr>j_status := J_Processing, j_started_at := Some (j_now s),
          j_lease_expires_at := Some leaseExpiresAt\<rparr>) (jobs s)\<rparr>))"

definition eligible :: "millis \<Rightarrow> job \<Rightarrow> bool" where
  "eligible now j \<longleftrightarrow> j_status j = J_Pending \<and> (case j_scheduled_at j of None \<Rightarrow> True | Some t \<Rightarrow> t \<le> now)"

definition findEligibleJobs :: "nat \<Rightarrow> job_sys \<Rightarrow> job list" where
  "findEligibleJobs limit s =
     take limit (sort_key (\<lambda>j. (j_priority_score j, j_created_at j)) (filter (eligible (j_now s)) (jobs s)))"

definition findJobsByIds :: "uuid list \<Rightarrow> job_sys \<Rightarrow> job list" where
  "findJobsByIds ids s = filter (\<lambda>j. j_id j \<in> set ids) (jobs s)"

definition findStarvingPendingJobs :: "int \<Rightarrow> nat \<Rightarrow> job_sys \<Rightarrow> job list" where
  "findStarvingPendingJobs thresholdMs limit s =
     take limit (sort_key j_created_at (filter (\<lambda>j. j_status j = J_Pending \<and> j_created_at j \<le> j_now s - thresholdMs) (jobs s)))"

definition lease_expired :: "millis \<Rightarrow> job \<Rightarrow> bool" where
  "lease_expired now j \<longleftrightarrow> (case j_lease_expires_at j of None \<Rightarrow> False | Some t \<Rightarrow> t < now)"

definition findStalledJobs :: "nat \<Rightarrow> job_sys \<Rightarrow> job list" where
  "findStalledJobs limit s =
     take limit (sort_key j_created_at (filter (\<lambda>j. j_status j = J_Processing \<and> lease_expired (j_now s) j) (jobs s)))"

definition countByStatus :: "job_sys \<Rightarrow> job_status \<Rightarrow> nat" where
  "countByStatus s st = length (filter (\<lambda>j. j_status j = st) (jobs s))"

section \<open>Pages\<close>

record pagination_meta =
  pm_total :: nat
  pm_limit :: nat
  pm_page :: nat
  pm_total_pages :: nat
  pm_has_next :: bool
  pm_has_previous :: bool

definition ceil_div :: "nat \<Rightarrow> nat \<Rightarrow> nat" where
  "ceil_div a b = (if a mod b = 0 then a div b else a div b + 1)"

definition computePaginationMeta :: "nat \<Rightarrow> nat \<Rightarrow> nat \<Rightarrow> pagination_meta" where
  "computePaginationMeta n limit page =
     (let total_pages = ceil_div n limit in
      \<lparr>pm_total = n, pm_limit = limit, pm_page = page, pm_total_pages = total_pages,
       pm_has_next = page < total_pages, pm_has_previous = 1 < page\<rparr>)"

definition list_page :: "('a \<Rightarrow> bool) \<Rightarrow> ('a \<Rightarrow> 'k :: linorder) \<Rightarrow> nat \<Rightarrow> nat \<Rightarrow> 'a list \<Rightarrow> 'a list \<times> pagination_meta" where
  "list_page P key page limit rows =
     (take limit (drop (limit * (page - 1)) (sort_key key (filter P rows))),
      computePaginationMeta (length (filter P rows)) limit page)"

record list_jobs_query =
  ql_status :: "job_status option"
  ql_type :: "job_type option"
  ql_priority :: "int option"
  ql_page :: "nat option"
  ql_limit :: "nat option"

definition wanted :: "list_jobs_query \<Rightarrow> job \<Rightarrow> bool" where
  "wanted q j \<longleftrightarrow>
     (case ql_status q of None \<Rightarrow> True | Some x \<Rightarrow> j_status j = x) \<and>
     (case ql_type q of None \<Rightarrow> True | Some x \<Rightarrow> j_type j = x) \<and>
     (case ql_priority q of None \<Rightarrow> True | Some x \<Rightarrow> j_priority j = x)"

definition listJobs :: "list_jobs_query \<Rightarrow> job_sys \<Rightarrow> job list \<times> pagination_meta" where
  "listJobs q s = list_page (wanted q) (\<lambda>j. (j_priority_score j, j_created_at j))
     (case ql_page q of None \<Rightarrow> 1 | Some p \<Rightarrow> p) (case ql_limit q of None \<Rightarrow> 20 | Some l \<Rightarrow> l) (jobs s)"

section \<open>The service\<close>

text \<open>The queue refuses while its store is down: \<open>None\<close>, the exception of \<open>add\<close>.\<close>

definition bull_key :: "uuid \<Rightarrow> string" where
  "bull_key i = ''job:'' @ i"

definition enqueue_job :: "job \<Rightarrow> job_sys \<Rightarrow> job_sys option" where
  "enqueue_job j s =
     (if \<not> bull_up s then None
      else if bull_key (j_id j) \<in> b_id ` set (bull s) then Some s
      else Some (s\<lparr>bull := bull s @ [\<lparr>b_id = bull_key (j_id j), b_data = j_id j, b_priority = j_priority j,
        b_attempts_made = 0, b_state = B_Waiting\<rparr>]\<rparr>))"

record create_job =
  cj_type :: job_type
  cj_payload :: json
  cj_priority :: "int option"
  cj_scheduled_at :: "millis option"
  cj_recurring_interval :: "recurring_interval option"
  cj_depends_on :: "uuid list option"
  cj_max_retries :: "int option"

definition new_job :: "uuid \<Rightarrow> millis \<Rightarrow> create_job \<Rightarrow> job" where
  "new_job i now dto =
     (let priority = (case cj_priority dto of None \<Rightarrow> 2 | Some p \<Rightarrow> p) in
      \<lparr>j_id = i, j_type = cj_type dto, j_payload = cj_payload dto, j_priority = priority, j_status = J_Pending,
       j_retry_count = 0, j_max_retries = (case cj_max_retries dto of None \<Rightarrow> 3 | Some m \<Rightarrow> m), j_error_message = None,
       j_scheduled_at = cj_scheduled_at dto, j_recurring_interval = cj_recurring_interval dto, j_started_at = None,
       j_completed_at = None, j_depends_on = cj_depends_on dto, j_priority_score = of_int priority,
       j_lease_expires_at = None, j_created_at = now\<rparr>)"

definition has_dependencies :: "job \<Rightarrow> bool" where
  "has_dependencies j \<longleftrightarrow> (case j_depends_on j of None \<Rightarrow> False | Some ids \<Rightarrow> ids \<noteq> [])"

text \<open>
  An id is refused when a row has it; \<open>None\<close> is an exception, of the insert or of the queue: in the second case the
  row stays.
\<close>

definition insert_job :: "job \<Rightarrow> job_sys \<Rightarrow> job_sys option" where
  "insert_job j s = (if j_id j \<in> j_id ` set (jobs s) then None else Some (s\<lparr>jobs := jobs s @ [j]\<rparr>))"

definition createJob :: "uuid \<Rightarrow> create_job \<Rightarrow> job_sys \<Rightarrow> job option \<times> job_sys" where
  "createJob i dto s =
     (let j = new_job i (j_now s) dto in
      case insert_job j s of
        None \<Rightarrow> (None, s)
      | Some s \<Rightarrow>
          if j_scheduled_at j = None \<and> \<not> has_dependencies j then
            (case enqueue_job j s of None \<Rightarrow> (None, s) | Some s \<Rightarrow> (Some j, s))
          else (Some j, s))"

datatype job_error = Job_Not_Found uuid | Job_Cannot_Be_Cancelled job_status

definition getJob :: "uuid \<Rightarrow> job_sys \<Rightarrow> job_error + job" where
  "getJob i s = (case find_job i s of None \<Rightarrow> Inl (Job_Not_Found i) | Some j \<Rightarrow> Inr j)"

definition cancelJob :: "uuid \<Rightarrow> job_sys \<Rightarrow> (job_error + job) \<times> job_sys" where
  "cancelJob i s =
     (case getJob i s of
        Inl e \<Rightarrow> (Inl e, s)
      | Inr j \<Rightarrow>
          if j_status j = J_Completed \<or> j_status j = J_Failed then (Inl (Job_Cannot_Be_Cancelled (j_status j)), s)
          else (Inr (j\<lparr>j_status := J_Cancelled\<rparr>), update_job i (\<lambda>j. j\<lparr>j_status := J_Cancelled\<rparr>) s))"

section \<open>The sweep\<close>

definition STARVATION_THRESHOLD_MS :: int where "STARVATION_THRESHOLD_MS = 5 * 60000"
definition SCORE_BOOST_PER_MINUTE :: rat where "SCORE_BOOST_PER_MINUTE = 1 / 10"
definition SWEEP_BATCH_SIZE :: nat where "SWEEP_BATCH_SIZE = 50"

definition job_node :: "job \<Rightarrow> heap_node" where
  "job_node j = \<lparr>score = j_priority_score j, scheduledAt = j_scheduled_at j, createdAt = j_created_at j, jobId = j_id j\<rparr>"

definition dependencies :: "job \<Rightarrow> job_sys \<Rightarrow> job list" where
  "dependencies j s = (case j_depends_on j of None \<Rightarrow> [] | Some ids \<Rightarrow> findJobsByIds ids s)"

definition cascade_fail :: "uuid \<Rightarrow> job_sys \<Rightarrow> job_sys" where
  "cascade_fail i s = update_job i (\<lambda>j. j\<lparr>j_status := J_Failed, j_started_at := Some (j_now s), j_completed_at := Some (j_now s)\<rparr>) s"

definition ready_step :: "job list \<Rightarrow> heap_node \<Rightarrow> nat \<times> job_sys \<Rightarrow> nat \<times> job_sys" where
  "ready_step batch node acc = (case acc of (enqueued, s) \<Rightarrow>
     (case find (\<lambda>j. j_id j = jobId node) batch of
        None \<Rightarrow> (enqueued, s)
      | Some j \<Rightarrow>
          if \<exists>x \<in> set (dependencies j s). j_status x = J_Failed \<or> j_status x = J_Cancelled then (enqueued, cascade_fail (j_id j) s)
          else if \<exists>x \<in> set (dependencies j s). j_status x \<noteq> J_Completed then (enqueued, s)
          else (case enqueue_job j s of None \<Rightarrow> (enqueued, s) | Some s \<Rightarrow> (enqueued + 1, s))))"

text \<open>The heap does not depend on what the loop writes, so it is emptied first.\<close>

definition enqueueReadyJobs :: "job_sys \<Rightarrow> nat \<times> job_sys" where
  "enqueueReadyJobs s =
     (let batch = findEligibleJobs SWEEP_BATCH_SIZE s;
          heap = fold heap_insert (map job_node batch) [] in
      fold (ready_step batch) (drain heap) (0, s))"

definition boosted :: "millis \<Rightarrow> job \<Rightarrow> rat" where
  "boosted now j = max 0 (j_priority_score j - SCORE_BOOST_PER_MINUTE * (of_int (now - j_created_at j) / 60000))"

definition boostStarvingJobs :: "job_sys \<Rightarrow> nat \<times> job_sys" where
  "boostStarvingJobs s =
     (let starving = findStarvingPendingJobs STARVATION_THRESHOLD_MS SWEEP_BATCH_SIZE s in
      (length starving, fold (\<lambda>j. update_job (j_id j) (\<lambda>x. x\<lparr>j_priority_score := boosted (j_now s) j\<rparr>)) starving s))"

definition recoverStalledJobs :: "job_sys \<Rightarrow> nat \<times> job_sys" where
  "recoverStalledJobs s =
     (let stalled = findStalledJobs SWEEP_BATCH_SIZE s in
      (length stalled,
       fold (\<lambda>j. update_job (j_id j) (\<lambda>x. x\<lparr>j_status := J_Pending, j_started_at := None, j_lease_expires_at := None\<rparr>)) stalled s))"

text \<open>
  Recovery ends before the other two start; these run side by side and write different columns, so their order does
  not matter to the rows: the boosts are taken last.
\<close>

definition runSchedulerSweep :: "job_sys \<Rightarrow> job_sys" where
  "runSchedulerSweep s = snd (boostStarvingJobs (snd (enqueueReadyJobs (snd (recoverStalledJobs s)))))"

section \<open>The dead letter queue\<close>

definition moveToDlq :: "uuid \<Rightarrow> string \<Rightarrow> nat \<Rightarrow> job \<Rightarrow> job_sys \<Rightarrow> job_sys" where
  "moveToDlq i msg retryCount j s =
     s\<lparr>dlq := dlq s @ [\<lparr>dlq_id = i, dlq_original_job_id = j_id j, dlq_type = j_type j, dlq_payload = j_payload j,
         dlq_priority = j_priority j, dlq_error_message = msg, dlq_retry_count = retryCount, dlq_last_attempted_at = j_now s\<rparr>],
       sse := sse s @ [(''dlq_added'', j_id j)]\<rparr>"

text \<open>Whether the alert is sent: its e-mail handler may throw, which makes the move throw after the entry is stored.\<close>

definition threshold_reached :: "nat \<Rightarrow> job_sys \<Rightarrow> bool" where
  "threshold_reached DLQ_THRESHOLD s \<longleftrightarrow> DLQ_THRESHOLD \<le> length (dlq s)"

definition listDlqJobs :: "nat \<Rightarrow> nat \<Rightarrow> dlq_job list \<Rightarrow> dlq_job list \<times> pagination_meta" where
  "listDlqJobs page limit newest_first =
     (take limit (drop ((page - 1) * limit) newest_first), computePaginationMeta (length newest_first) limit page)"

definition retryDlqJob :: "uuid \<Rightarrow> uuid \<Rightarrow> job_sys \<Rightarrow> uuid option \<times> job_sys" where
  "retryDlqJob dlqJobId i s =
     (case find (\<lambda>x. dlq_id x = dlqJobId) (dlq s) of
        None \<Rightarrow> (None, s)
      | Some x \<Rightarrow>
          (case createJob i \<lparr>cj_type = dlq_type x, cj_payload = dlq_payload x, cj_priority = Some (dlq_priority x),
               cj_scheduled_at = None, cj_recurring_interval = None, cj_depends_on = None, cj_max_retries = None\<rparr> s of
             (None, s) \<Rightarrow> (None, s)
           | (Some j, s) \<Rightarrow> (Some (j_id j), s\<lparr>dlq := filter (\<lambda>x. dlq_id x \<noteq> dlqJobId) (dlq s)\<rparr>)))"

section \<open>Facts\<close>

lemma update_job_fields [simp]:
  "bull (update_job i f s) = bull s" "bull_up (update_job i f s) = bull_up s" "j_now (update_job i f s) = j_now s"
  "dlq (update_job i f s) = dlq s" "sse (update_job i f s) = sse s" "handled (update_job i f s) = handled s"
  "jobs (update_job i f s) = update_where (\<lambda>j. j_id j = i) f (jobs s)"
  by (simp_all add: update_job_def)

text \<open>The claim is one conditional update: of any number of workers exactly one takes a pending job.\<close>

interpretation claim: guarded_update "\<lambda>s. 0 < affected (\<lambda>j. j_id j = i \<and> j_status j = J_Pending) (jobs s)" "\<lambda>t. claimJob i t" for i
proof unfold_locales
  fix t and s :: job_sys assume "0 < affected (\<lambda>j. j_id j = i \<and> j_status j = J_Pending) (jobs s)"
  show "\<not> 0 < affected (\<lambda>j. j_id j = i \<and> j_status j = J_Pending) (jobs (snd (claimJob i t s)))"
    unfolding claimJob_def Let_def affected_pos
    by (simp add: set_update_where, intro ballI, erule UnE, erule imageE) simp_all
qed (auto simp: claimJob_def Let_def update_where_none)

lemma claimed_once:
  "length (filter (\<lambda>won. won) (fst (run_attempts (claimJob i) ts s))) =
     (if (\<exists>j \<in> set (jobs s). j_id j = i \<and> j_status j = J_Pending) \<and> ts \<noteq> [] then 1 else 0)"
  using claim.one_winner [of i ts s] by (simp add: affected_pos)

lemma boosted_bounds:
  "0 \<le> boosted now j" "0 \<le> j_priority_score j \<Longrightarrow> j_created_at j \<le> now \<Longrightarrow> boosted now j \<le> j_priority_score j"
  by (simp_all add: boosted_def SCORE_BOOST_PER_MINUTE_def)

text \<open>When the queue is down, retrying a dead job leaves both its entry and a new pending row.\<close>

lemma retry_dlq_keeps_entry:
  assumes "find (\<lambda>x. dlq_id x = k) (dlq s) = Some x" and "\<not> bull_up s" and "i \<notin> j_id ` set (jobs s)"
  shows "fst (retryDlqJob k i s) = None \<and> dlq (snd (retryDlqJob k i s)) = dlq s \<and>
    (\<exists>j. jobs (snd (retryDlqJob k i s)) = jobs s @ [j] \<and> j_status j = J_Pending)"
  using assms by (simp add: retryDlqJob_def createJob_def insert_job_def enqueue_job_def new_job_def has_dependencies_def Let_def)

section \<open>What a sweep does\<close>

definition ready :: "job_sys \<Rightarrow> job \<Rightarrow> bool" where
  "ready s j \<longleftrightarrow> (\<forall>x \<in> set (dependencies j s). j_status x = J_Completed)"

definition blocked :: "job_sys \<Rightarrow> job \<Rightarrow> bool" where
  "blocked s j \<longleftrightarrow> (\<exists>x \<in> set (dependencies j s). j_status x = J_Failed \<or> j_status x = J_Cancelled)"

definition entry_of :: "job \<Rightarrow> bull_job" where
  "entry_of j = \<lparr>b_id = bull_key (j_id j), b_data = j_id j, b_priority = j_priority j, b_attempts_made = 0, b_state = B_Waiting\<rparr>"

definition held :: "job_sys \<Rightarrow> job \<Rightarrow> bool" where
  "held s j \<longleftrightarrow> bull_key (j_id j) \<in> b_id ` set (bull s)"

abbreviation failed_at :: "millis \<Rightarrow> job \<Rightarrow> job" where
  "failed_at now j \<equiv> j\<lparr>j_status := J_Failed, j_started_at := Some now, j_completed_at := Some now\<rparr>"

lemma bull_key_eq [simp]: "bull_key i = bull_key k \<longleftrightarrow> i = k"
  by (simp add: bull_key_def)

lemma image_Collect_fixed: "(\<And>y. h (g y) = h y) \<Longrightarrow> {x \<in> g ` S. h x \<in> I} = g ` {y \<in> S. h y \<in> I}"
  by auto

lemma dependencies_update:
  assumes "\<And>x. j_id (f x) = j_id x"
  shows "set (dependencies j (s\<lparr>jobs := update_where P f (jobs s)\<rparr>)) = (\<lambda>y. if P y then f y else y) ` set (dependencies j s)"
proof (cases "j_depends_on j")
  case (Some ids)
  have "j_id (if P y then f y else y) = j_id y" for y using assms by simp
  from image_Collect_fixed [of j_id, OF this] Some show ?thesis
    by (simp add: dependencies_def findJobsByIds_def set_update_where)
qed (simp add: dependencies_def)

lemma dependencies_failed:
  "set (dependencies j (s\<lparr>jobs := update_where P (failed_at t) (jobs s)\<rparr>)) =
     (\<lambda>y. if P y then failed_at t y else y) ` set (dependencies j s)"
  by (rule dependencies_update) simp

lemma cascade_fail_eq: "cascade_fail i s = s\<lparr>jobs := update_where (\<lambda>x. j_id x = i) (failed_at (j_now s)) (jobs s)\<rparr>"
  by (simp add: cascade_fail_def update_job_def)

lemma blocked_mono: "blocked s j \<Longrightarrow> blocked (s\<lparr>jobs := update_where P (failed_at t) (jobs s)\<rparr>) j"
  unfolding blocked_def dependencies_failed bex_simps by (elim bexE, rule_tac x = x in bexI) simp_all

lemma ready_cascade:
  assumes "\<And>x. x \<in> set (jobs s) \<Longrightarrow> j_id x = i \<Longrightarrow> j_status x \<noteq> J_Completed"
  shows "ready (cascade_fail i s) j = ready s j"
proof -
  have "x \<in> set (jobs s)" if "x \<in> set (dependencies j s)" for x
    using that by (auto simp: dependencies_def findJobsByIds_def split: option.splits)
  with assms have "j_status (if j_id y = i then failed_at (j_now s) y else y) = J_Completed \<longleftrightarrow> j_status y = J_Completed"
    if "y \<in> set (dependencies j s)" for y using that by simp
  then have "(\<forall>y \<in> set (dependencies j s). j_status (if j_id y = i then failed_at (j_now s) y else y) = J_Completed) =
      (\<forall>y \<in> set (dependencies j s). j_status y = J_Completed)" by (rule ball_cong [OF refl])
  then show ?thesis unfolding ready_def cascade_fail_eq dependencies_failed ball_simps .
qed

lemma update_where_twice:
  assumes "\<And>x. f (f x) = f x" and "\<And>x. j_id (f x) = j_id x"
  shows "update_where (\<lambda>x. j_id x \<in> F) f (update_where (\<lambda>x. j_id x = i) f rows) = update_where (\<lambda>x. j_id x \<in> insert i F) f rows"
  using assms by (induction rows) auto

lemma ready_step_eq:
  assumes "find (\<lambda>x. j_id x = j_id j) batch = Some j" and "bull_up s"
  shows "ready_step batch (job_node j) (n, s) =
    (if blocked s j then (n, cascade_fail (j_id j) s)
     else if \<not> ready s j then (n, s)
     else (n + 1, if held s j then s else s\<lparr>bull := bull s @ [entry_of j]\<rparr>))"
  using assms by (auto simp: ready_step_def blocked_def ready_def held_def entry_of_def enqueue_job_def job_node_def)

lemma ready_fold:
  assumes "\<forall>j \<in> set ord. find (\<lambda>x. j_id x = j_id j) batch = Some j" and "distinct (map j_id ord)" and "bull_up s"
    and "\<forall>j \<in> set ord. \<forall>x \<in> set (jobs s). j_id x = j_id j \<longrightarrow> j_status x \<noteq> J_Completed"
    and "fold (ready_step batch) (map job_node ord) (n, s) = (n', s')"
  shows "n' = n + length (filter (ready s) ord) \<and> bull s' = bull s @ map entry_of (filter (\<lambda>j. ready s j \<and> \<not> held s j) ord) \<and>
    (\<exists>F. s' = s\<lparr>jobs := update_where (\<lambda>x. j_id x \<in> F) (failed_at (j_now s)) (jobs s), bull := bull s'\<rparr> \<and>
       F \<subseteq> j_id ` set ord \<and> (\<forall>j \<in> set ord. (blocked s j \<longrightarrow> j_id j \<in> F) \<and> (j_id j \<in> F \<longrightarrow> blocked s' j)))"
  using assms
proof (induction ord arbitrary: n s)
  case Nil
  then have "s' = s" "n' = n" by simp_all
  then show ?case by (auto intro!: exI [of _ "{}"] simp: update_where_def)
next
  case (Cons j ord)
  let ?f = "failed_at (j_now s)"
  have "find (\<lambda>x. j_id x = j_id j) batch = Some j" using Cons.prems(1) by simp
  note step = ready_step_eq [OF this Cons.prems(3), of n]
  have other: "j_id k \<noteq> j_id j" if "k \<in> set ord" for k using Cons.prems(2) that by (metis distinct.simps(2) imageI list.set_map list.simps(9))
  have notready: "blocked s j \<Longrightarrow> \<not> ready s j" by (force simp: blocked_def ready_def)
  have p1: "\<forall>k \<in> set ord. find (\<lambda>x. j_id x = j_id k) batch = Some k" using Cons.prems(1) by simp
  have p2: "distinct (map j_id ord)" using Cons.prems(2) by simp
  show ?case
  proof (cases "blocked s j")
    case True
    define s1 where "s1 = cascade_fail (j_id j) s"
    have rest: "fold (ready_step batch) (map job_node ord) (n, s1) = (n', s')" using Cons.prems(5) step True by (simp add: s1_def)
    have s1: "bull_up s1" "bull s1 = bull s" "j_now s1 = j_now s"
      "jobs s1 = update_where (\<lambda>x. j_id x = j_id j) ?f (jobs s)" "s\<lparr>jobs := js, bull := bs\<rparr> = s1\<lparr>jobs := js, bull := bs\<rparr>" for js bs
      using Cons.prems(3) by (simp_all add: s1_def cascade_fail_eq)
    have keep: "ready s1 k = ready s k" "held s1 k = held s k" for k
      using ready_cascade [of s "j_id j" k] Cons.prems(4) by (auto simp: s1_def cascade_fail_eq held_def)
    have p4: "\<forall>k \<in> set ord. \<forall>x \<in> set (jobs s1). j_id x = j_id k \<longrightarrow> j_status x \<noteq> J_Completed"
      using Cons.prems(4) by (auto simp: s1(4) set_update_where)
    from Cons.IH [OF p1 p2 s1(1) p4 rest, unfolded keep s1(2,3)] obtain F where
      n: "n' = n + length (filter (ready s) ord)" and
      b: "bull s' = bull s @ map entry_of (filter (\<lambda>j. ready s j \<and> \<not> held s j) ord)" and
      s': "s' = s1\<lparr>jobs := update_where (\<lambda>x. j_id x \<in> F) ?f (jobs s1), bull := bull s'\<rparr>" and
      F: "F \<subseteq> j_id ` set ord" "\<forall>k \<in> set ord. (blocked s1 k \<longrightarrow> j_id k \<in> F) \<and> (j_id k \<in> F \<longrightarrow> blocked s' k)"
      by blast
    let ?F = "insert (j_id j) F"
    have s2: "s' = s\<lparr>jobs := update_where (\<lambda>x. j_id x \<in> ?F) ?f (jobs s), bull := bull s'\<rparr>"
      unfolding s1(5) using s' by (simp add: s1(4) update_where_twice)
    have mono: "blocked s1 k" if "blocked s k" for k
      unfolding s1_def cascade_fail_eq using that by (rule blocked_mono)
    have "blocked (s\<lparr>jobs := update_where (\<lambda>x. j_id x \<in> ?F) ?f (jobs s)\<rparr>) j" using True by (rule blocked_mono)
    moreover have "blocked s' j = blocked (s\<lparr>jobs := update_where (\<lambda>x. j_id x \<in> ?F) ?f (jobs s)\<rparr>) j"
      by (subst s2) (simp add: blocked_def dependencies_def findJobsByIds_def)
    ultimately have "(blocked s k \<longrightarrow> j_id k \<in> ?F) \<and> (j_id k \<in> ?F \<longrightarrow> blocked s' k)" if "k \<in> set (j # ord)" for k
      using that F(2) other [of k] mono [of k] by auto
    moreover have "?F \<subseteq> j_id ` set (j # ord)" using F(1) by auto
    moreover have "\<not> ready s j" using True by (rule notready)
    ultimately show ?thesis using s2 n b by (intro conjI exI [of _ ?F]) simp_all
  next
    case False
    define s1 where "s1 = (if ready s j \<and> \<not> held s j then s\<lparr>bull := bull s @ [entry_of j]\<rparr> else s)"
    define n1 where "n1 = (if ready s j then n + 1 else n)"
    have rest: "fold (ready_step batch) (map job_node ord) (n1, s1) = (n', s')" using Cons.prems(5) step False
      by (cases "ready s j"; cases "held s j") (simp_all add: s1_def n1_def)
    have s1: "bull_up s1" "jobs s1 = jobs s" "j_now s1 = j_now s" "s1\<lparr>jobs := js, bull := bs\<rparr> = s\<lparr>jobs := js, bull := bs\<rparr>"
      "bull s1 = bull s @ (if ready s j \<and> \<not> held s j then [entry_of j] else [])" for js bs
      using Cons.prems(3) by (simp_all add: s1_def)
    have keep: "ready s1 k = ready s k" "blocked s1 k = blocked s k" for k
      by (simp_all add: ready_def blocked_def dependencies_def findJobsByIds_def s1(2) cong: option.case_cong)
    have p4: "\<forall>k \<in> set ord. \<forall>x \<in> set (jobs s1). j_id x = j_id k \<longrightarrow> j_status x \<noteq> J_Completed"
      using Cons.prems(4) by (simp add: s1(2))
    from Cons.IH [OF p1 p2 s1(1) p4 rest, unfolded keep s1(2,3,4)] obtain F where
      n: "n' = n1 + length (filter (ready s) ord)" and
      b: "bull s' = bull s1 @ map entry_of (filter (\<lambda>j. ready s j \<and> \<not> held s1 j) ord)" and
      s': "s' = s\<lparr>jobs := update_where (\<lambda>x. j_id x \<in> F) ?f (jobs s), bull := bull s'\<rparr>" and
      F: "F \<subseteq> j_id ` set ord" "\<forall>k \<in> set ord. (blocked s k \<longrightarrow> j_id k \<in> F) \<and> (j_id k \<in> F \<longrightarrow> blocked s' k)"
      by blast
    have "held s1 k = held s k" if "k \<in> set ord" for k
      using other [OF that] by (auto simp: held_def entry_of_def s1(5))
    then have "filter (\<lambda>j. ready s j \<and> \<not> held s1 j) ord = filter (\<lambda>j. ready s j \<and> \<not> held s j) ord"
      by (intro filter_cong [OF refl]) simp
    with b have "bull s' = bull s @ map entry_of (filter (\<lambda>j. ready s j \<and> \<not> held s j) (j # ord))" by (simp add: s1(5))
    moreover have "n' = n + length (filter (ready s) (j # ord))" using n by (simp add: n1_def)
    moreover have "j_id j \<notin> F"
    proof
      assume "j_id j \<in> F"
      with F(1) obtain k where "k \<in> set ord" "j_id k = j_id j" by auto
      with other show False by simp
    qed
    with F False have "\<forall>k \<in> set (j # ord). (blocked s k \<longrightarrow> j_id k \<in> F) \<and> (j_id k \<in> F \<longrightarrow> blocked s' k)" by simp
    moreover have "F \<subseteq> j_id ` set (j # ord)" using F(1) by auto
    ultimately show ?thesis using s' by (intro conjI exI [of _ F]) assumption+
  qed
qed

lemma drained_batch:
  assumes "distinct (map j_id batch)"
  obtains ord where "drain (fold heap_insert (map job_node batch) []) = map job_node ord" and "mset ord = mset batch"
    and "sorted (map (\<lambda>j. (j_priority_score j, j_scheduled_at j, j_created_at j)) ord)"
    and "\<forall>j \<in> set batch. find (\<lambda>x. j_id x = j_id j) batch = Some j"
proof -
  let ?nodes = "drain (fold heap_insert (map job_node batch) [])"
  let ?g = "\<lambda>n. the (find (\<lambda>j. j_id j = jobId n) batch)"
  have found: "find (\<lambda>x. j_id x = j_id j) batch = Some j" if "j \<in> set batch" for j
    using that assms by (induction batch) auto
  have m: "mset ?nodes = mset (map job_node batch)" by (rule drain_fill)
  have "?g (job_node j) = j" if "j \<in> set batch" for j using found [OF that] by (simp add: job_node_def)
  then have "map ?g (map job_node batch) = batch" by (simp add: map_idI)
  then have "mset (map ?g ?nodes) = mset batch" using m by (metis mset_map)
  moreover have "job_node (?g n) = n" if "n \<in> set ?nodes" for n
  proof -
    from that m have "n \<in> job_node ` set batch" by (metis list.set_map set_mset_mset)
    then show ?thesis using found by (auto simp: job_node_def)
  qed
  then have "?nodes = map job_node (map ?g ?nodes)" by (simp add: map_idI)
  moreover have "sorted (map node_key ?nodes)" by (rule drain_fill)
  ultimately have "sorted (map node_key (map job_node (map ?g ?nodes)))" by metis
  then have "sorted (map (\<lambda>j. (j_priority_score j, j_scheduled_at j, j_created_at j)) (map ?g ?nodes))"
    by (simp add: comp_def node_key_def job_node_def)
  with that [of "map ?g ?nodes"] found show thesis
    using \<open>?nodes = map job_node (map ?g ?nodes)\<close> \<open>mset (map ?g ?nodes) = mset batch\<close> by blast
qed

text \<open>
  C22. What a sweep puts into the queue: the eligible jobs of the batch are taken by score, then schedule time, then
  creation time; an entry is added for exactly those whose dependencies, as far as their rows exist, are all
  completed and for which the queue holds no entry yet, in that order; a job with a failed or cancelled dependency
  is failed, also when the dependency was failed earlier in the same sweep; no other row changes.
\<close>

theorem sweep_enqueues_ready:
  assumes "bull_up s" and "distinct (map j_id (jobs s))" and "enqueueReadyJobs s = (n, s')"
  shows "\<exists>ord F. mset ord = mset (findEligibleJobs SWEEP_BATCH_SIZE s) \<and>
    sorted (map (\<lambda>j. (j_priority_score j, j_scheduled_at j, j_created_at j)) ord) \<and>
    n = length (filter (ready s) ord) \<and> bull s' = bull s @ map entry_of (filter (\<lambda>j. ready s j \<and> \<not> held s j) ord) \<and>
    jobs s' = update_where (\<lambda>x. j_id x \<in> F) (failed_at (j_now s)) (jobs s) \<and> F \<subseteq> j_id ` set ord \<and>
    (\<forall>j \<in> set ord. (blocked s j \<longrightarrow> j_id j \<in> F) \<and> (j_id j \<in> F \<longrightarrow> blocked s' j))"
proof -
  let ?batch = "findEligibleJobs SWEEP_BATCH_SIZE s"
  have ids: "distinct (map j_id ?batch)" and sub: "set ?batch \<subseteq> {j \<in> set (jobs s). j_status j = J_Pending}"
    using assms(2) by (auto simp: findEligibleJobs_def eligible_def distinct_map take_map [symmetric] dest!: in_set_takeD
      intro!: distinct_take inj_on_subset [where A = "set (jobs s)"])
  obtain ord where o: "drain (fold heap_insert (map job_node ?batch) []) = map job_node ord" "mset ord = mset ?batch"
    "sorted (map (\<lambda>j. (j_priority_score j, j_scheduled_at j, j_created_at j)) ord)"
    "\<forall>j \<in> set ?batch. find (\<lambda>x. j_id x = j_id j) ?batch = Some j"
    using ids by (rule drained_batch)
  have so: "set ord = set ?batch" using o(2) by (metis set_mset_mset)
  have "distinct (map j_id ord)" using ids o(2) by (metis mset_map mset_eq_imp_distinct_iff)
  moreover have "\<forall>j \<in> set ord. \<forall>x \<in> set (jobs s). j_id x = j_id j \<longrightarrow> j_status x \<noteq> J_Completed"
  proof (intro ballI impI)
    fix j x assume "j \<in> set ord" "x \<in> set (jobs s)" "j_id x = j_id j"
    moreover from this(1) sub so have "j \<in> set (jobs s)" "j_status j = J_Pending" by auto
    ultimately have "x = j" using assms(2) by (metis distinct_map inj_onD)
    then show "j_status x \<noteq> J_Completed" using \<open>j_status j = J_Pending\<close> by simp
  qed
  moreover have "fold (ready_step ?batch) (map job_node ord) (0, s) = (n, s')"
    using assms(3) by (simp add: enqueueReadyJobs_def o(1) Let_def)
  ultimately obtain F where "n = 0 + length (filter (ready s) ord)"
    "bull s' = bull s @ map entry_of (filter (\<lambda>j. ready s j \<and> \<not> held s j) ord)"
    "s' = s\<lparr>jobs := update_where (\<lambda>x. j_id x \<in> F) (failed_at (j_now s)) (jobs s), bull := bull s'\<rparr>"
    "F \<subseteq> j_id ` set ord" "\<forall>j \<in> set ord. (blocked s j \<longrightarrow> j_id j \<in> F) \<and> (j_id j \<in> F \<longrightarrow> blocked s' j)"
    using ready_fold [of ord ?batch s 0 n s'] assms(1) o(4) so by blast
  moreover from this(3) have "jobs s' = update_where (\<lambda>x. j_id x \<in> F) (failed_at (j_now s)) (jobs s)"
    by (metis job_sys.select_convs(1) job_sys.surjective job_sys.update_convs(1,3))
  ultimately show ?thesis using o(2,3) by (intro exI [of _ ord] exI [of _ F]) simp
qed

definition sample_job :: "uuid \<Rightarrow> rat \<Rightarrow> job_status \<Rightarrow> uuid list \<Rightarrow> job" where
  "sample_job i sc st deps = \<lparr>j_id = i, j_type = Send_Email, j_payload = JNull, j_priority = 2, j_status = st, j_retry_count = 0,
     j_max_retries = 3, j_error_message = None, j_scheduled_at = None, j_recurring_interval = None, j_started_at = None,
     j_completed_at = None, j_depends_on = Some deps, j_priority_score = sc, j_lease_expires_at = None, j_created_at = 0\<rparr>"

definition sweep_sys :: job_sys where
  "sweep_sys = \<lparr>jobs = [sample_job ''a'' 2 J_Pending [], sample_job ''b'' 1 J_Pending [''c''], sample_job ''c'' 1 J_Completed [],
     sample_job ''d'' 0 J_Pending [''f''], sample_job ''f'' 1 J_Failed []], dlq = [], bull = [], bull_up = True, j_now = 1000, sse = [],
     handled = []\<rparr>"

text \<open>A job without dependencies, one whose dependency is completed and one whose dependency failed: two are queued.\<close>

theorem sweep_enqueues_ready_witness:
  "fst (enqueueReadyJobs sweep_sys) = 2"
proof -
  obtain n s' where e: "enqueueReadyJobs sweep_sys = (n, s')" by (rule prod.exhaust)
  have "bull_up sweep_sys" "distinct (map j_id (jobs sweep_sys))" by code_simp+
  from sweep_enqueues_ready [OF this e] obtain ord where
    ord: "mset ord = mset (findEligibleJobs SWEEP_BATCH_SIZE sweep_sys)" "n = length (filter (ready sweep_sys) ord)" by blast
  have "length (filter (ready sweep_sys) (findEligibleJobs SWEEP_BATCH_SIZE sweep_sys)) = 2" by code_simp
  moreover have "n = length (filter (ready sweep_sys) (findEligibleJobs SWEEP_BATCH_SIZE sweep_sys))"
    using ord by (metis mset_filter size_mset)
  ultimately show ?thesis using e by simp
qed

section \<open>Pages\<close>

lemma ceil_div_cover:
  assumes "0 < b"
  shows "a \<le> b * ceil_div a b"
proof -
  have "a = b * (a div b) + a mod b" "a mod b < b" using assms by simp_all
  moreover have "b * ceil_div a b = b * (a div b) + (if a mod b = 0 then 0 else b)" by (simp add: ceil_div_def distrib_left)
  ultimately show ?thesis by (metis add.right_neutral add_le_cancel_left less_imp_le_nat order_refl)
qed

lemma ceil_div_less:
  assumes "0 < b"
  shows "p < ceil_div a b \<longleftrightarrow> b * p < a"
proof (cases "a mod b = 0")
  case True
  then have "a = b * (a div b)" by auto
  with True assms show ?thesis by (metis ceil_div_def mult_less_cancel1)
next
  case False
  have "p \<le> a div b \<longleftrightarrow> b * p \<le> a" using assms by (simp add: less_eq_div_iff_mult_less_eq mult.commute)
  moreover have "b * p \<noteq> a" using False by auto
  ultimately show ?thesis using False by (auto simp: ceil_div_def)
qed

lemma take_pages: "concat (map (\<lambda>p. take n (drop (n * p) xs)) [0..<m]) = take (n * m) xs"
  by (induction m) (simp_all add: take_add [symmetric] add.commute)

text \<open>
  The pages of a listing are the listing: for every filter, order and page size, walking the pages from the
  first to the last announced by the metadata yields every row that passes the filter exactly once, in the order
  of the key, every page holds at most as many rows as its limit, and the metadata announces a next page exactly
  when there are rows left.
\<close>

theorem pages_cover:
  assumes "0 < limit"
  shows "concat (map (\<lambda>p. fst (list_page P key p limit rows)) [1..<pm_total_pages (snd (list_page P key 1 limit rows)) + 1]) =
      sort_key key (filter P rows) \<and>
    length (fst (list_page P key p limit rows)) \<le> limit \<and>
    (0 < p \<longrightarrow> pm_has_next (snd (list_page P key p limit rows)) = (limit * p < length (filter P rows)))"
proof -
  let ?xs = "sort_key key (filter P rows)" and ?n = "length (filter P rows)"
  have pages: "map (\<lambda>p. fst (list_page P key p limit rows)) [1..<m + 1] = map (\<lambda>p. take limit (drop (limit * p) ?xs)) [0..<m]" for m
  proof -
    have "[1..<m + 1] = map Suc [0..<m]" by (simp add: map_Suc_upt del: upt_Suc)
    then show ?thesis by (simp add: list_page_def comp_def del: upt_Suc)
  qed
  have "?n \<le> limit * ceil_div ?n limit" using assms by (rule ceil_div_cover)
  then have "concat (map (\<lambda>p. fst (list_page P key p limit rows)) [1..<ceil_div ?n limit + 1]) = ?xs"
    unfolding pages take_pages by simp
  moreover have "(p < ceil_div ?n limit) = (limit * p < ?n)" using assms by (rule ceil_div_less)
  ultimately show ?thesis by (simp add: list_page_def computePaginationMeta_def Let_def)
qed

text \<open>Five rows, two a page.\<close>

theorem pages_cover_witness:
  "concat (map (\<lambda>p. fst (list_page (\<lambda>_. True) (\<lambda>x. x) p 2 [5, 3, 1, 4, 2 :: nat])) [1, 2, 3]) = [1, 2, 3, 4, 5]"
proof -
  have "pm_total_pages (snd (list_page (\<lambda>_. True) (\<lambda>x. x) 1 2 [5, 3, 1, 4, 2 :: nat])) = 3" "[1..<3 + 1] = [1, 2, 3 :: nat]"
    by code_simp+
  moreover have "sort_key (\<lambda>x. x) [5, 3, 1, 4, 2 :: nat] = [1, 2, 3, 4, 5]" by simp
  ultimately show ?thesis
    using pages_cover [of 2 "\<lambda>_. True" "\<lambda>x. x" "[5, 3, 1, 4, 2 :: nat]" 1] by simp
qed

end
