(* ===== verification/Job_Worker.thy ===== *)
theory Job_Worker
  imports Jobs
begin

text \<open>
  The worker of the background jobs (\<open>queue/processors/job-worker.processor.ts\<close>): what an attempt does before
  and after the handler of the job runs, what a failed attempt does, and the queue around it (Bull, configured in
  \<open>queue/queue-client.module.ts\<close>): it delivers waiting entries, repeats an attempt that threw until the
  configured number is reached, and keeps entries that ended for a day or more. The actions of the system are the
  calls of the service, the sweep of the scheduler, the steps of the queue and the passing of time, in any order;
  an attempt is two actions, so that any other action can come between.
\<close>

section \<open>An attempt\<close>

record worker_env =
  LEASE_TTL_SECONDS :: int
  QUEUE_MAX_ATTEMPTS :: nat
  DLQ_ALERT_THRESHOLD :: nat

text \<open>Up to the call of the handler; \<open>handled\<close> logs the calls. \<open>None\<close>: the processor returned before.\<close>

definition start_job :: "worker_env \<Rightarrow> uuid \<Rightarrow> job_sys \<Rightarrow> job option \<times> job_sys" where
  "start_job e i s =
     (case find_job i s of
        None \<Rightarrow> (None, s)
      | Some j \<Rightarrow>
          if j_status j = J_Cancelled \<or> j_status j = J_Completed \<or> j_status j = J_Failed then (None, s)
          else if \<exists>x \<in> set (dependencies j s). j_status x \<noteq> J_Completed then (None, s)
          else
            (let (claimed, s) = claimJob i (j_now s + LEASE_TTL_SECONDS e * 1000) s in
             if \<not> claimed then (None, s)
             else (Some j, s\<lparr>sse := sse s @ [(''job_started'', i)], handled := handled s @ [i]\<rparr>)))"

definition next_recurrence :: "uuid \<Rightarrow> millis \<Rightarrow> job \<Rightarrow> recurring_interval \<Rightarrow> job" where
  "next_recurrence i now j r =
     \<lparr>j_id = i, j_type = j_type j, j_payload = j_payload j, j_priority = j_priority j, j_status = J_Pending,
      j_retry_count = 0, j_max_retries = 3, j_error_message = None, j_scheduled_at = Some (now + RECURRING_INTERVAL_MS r),
      j_recurring_interval = Some r, j_started_at = None, j_completed_at = None, j_depends_on = None,
      j_priority_score = of_int (j_priority j), j_lease_expires_at = None, j_created_at = now\<rparr>"

text \<open>After the handler returned; the row of the next recurrence has a generated id, so its insert succeeds.\<close>

definition finish_job :: "uuid \<Rightarrow> job \<Rightarrow> job_sys \<Rightarrow> job_sys" where
  "finish_job next_id j s =
     (let s = update_job (j_id j) (\<lambda>x. x\<lparr>j_status := J_Completed, j_completed_at := Some (j_now s), j_lease_expires_at := None\<rparr>) s;
          s = s\<lparr>sse := sse s @ [(''job_completed'', j_id j)]\<rparr> in
      case j_recurring_interval j of
        None \<Rightarrow> s
      | Some r \<Rightarrow> (case insert_job (next_recurrence next_id (j_now s) j r) s of None \<Rightarrow> s | Some s \<Rightarrow> s))"

text \<open>The handler of the event \<open>failed\<close>, once no attempt is left.\<close>

definition onFailed :: "worker_env \<Rightarrow> bool \<Rightarrow> uuid \<Rightarrow> string \<Rightarrow> nat \<Rightarrow> uuid \<Rightarrow> job_sys \<Rightarrow> job_sys" where
  "onFailed e alert_sent dead_id msg attemptsMade i s =
     (if attemptsMade < QUEUE_MAX_ATTEMPTS e then s
      else
        (case find_job i s of
           None \<Rightarrow> s
         | Some j \<Rightarrow>
             (let s = update_job i (\<lambda>x. x\<lparr>j_status := J_Failed, j_error_message := Some msg, j_lease_expires_at := None\<rparr>) s;
                  s = moveToDlq dead_id msg attemptsMade j s in
              if threshold_reached (DLQ_ALERT_THRESHOLD e) s \<and> \<not> alert_sent then s
              else s\<lparr>sse := sse s @ [(''job_failed'', i)]\<rparr>)))"

section \<open>The system\<close>

definition find_entry :: "string \<Rightarrow> job_sys \<Rightarrow> bull_job option" where
  "find_entry k s = find (\<lambda>b. b_id b = k) (bull s)"

definition update_entry :: "string \<Rightarrow> (bull_job \<Rightarrow> bull_job) \<Rightarrow> job_sys \<Rightarrow> job_sys" where
  "update_entry k f s = s\<lparr>bull := update_where (\<lambda>b. b_id b = k) f (bull s)\<rparr>"

definition entry_state :: "string \<Rightarrow> job_sys \<Rightarrow> bull_state option" where
  "entry_state k s = map_option b_state (find_entry k s)"

datatype job_action =
    Submit uuid create_job
  | Cancel uuid
  | Retry_Dead uuid uuid
  | Sweep
  | Deliver string
  | Finish string uuid
  | Fail string string uuid bool
  | Forget string
  | Wait nat
  | Queue_Up bool

fun perform :: "worker_env \<Rightarrow> job_action \<Rightarrow> job_sys \<Rightarrow> job_sys" where
  "perform e (Submit i dto) s = snd (createJob i dto s)"
| "perform e (Cancel i) s = snd (cancelJob i s)"
| "perform e (Retry_Dead k i) s = snd (retryDlqJob k i s)"
| "perform e Sweep s = runSchedulerSweep s"
| "perform e (Deliver k) s =
     (case find_entry k s of
        Some b \<Rightarrow>
          if b_state b = B_Waiting then
            (case start_job e (b_data b) s of
               (None, s) \<Rightarrow> update_entry k (\<lambda>b. b\<lparr>b_state := B_Done\<rparr>) s
             | (Some j, s) \<Rightarrow> update_entry k (\<lambda>b. b\<lparr>b_state := B_Active j\<rparr>) s)
          else s
      | None \<Rightarrow> s)"
| "perform e (Finish k next_id) s =
     (case entry_state k s of
        Some (B_Active j) \<Rightarrow> update_entry k (\<lambda>b. b\<lparr>b_state := B_Done\<rparr>) (finish_job next_id j s)
      | _ \<Rightarrow> s)"
| "perform e (Fail k msg dead_id alert_sent) s =
     (case find_entry k s of
        Some b \<Rightarrow>
          (case b_state b of
             B_Active j \<Rightarrow>
               (let made = b_attempts_made b + 1 in
                onFailed e alert_sent dead_id msg made (b_data b)
                  (update_entry k (\<lambda>b. b\<lparr>b_attempts_made := made,
                     b_state := (if made < QUEUE_MAX_ATTEMPTS e then B_Waiting else B_Dead)\<rparr>) s))
           | _ \<Rightarrow> s)
      | None \<Rightarrow> s)"
| "perform e (Forget k) s =
     (if entry_state k s = Some B_Done \<or> entry_state k s = Some B_Dead then s\<lparr>bull := filter (\<lambda>b. b_id b \<noteq> k) (bull s)\<rparr> else s)"
| "perform e (Wait ms) s = s\<lparr>j_now := j_now s + int ms\<rparr>"
| "perform e (Queue_Up up) s = s\<lparr>bull_up := up\<rparr>"

definition empty_sys :: job_sys where
  "empty_sys = \<lparr>jobs = [], dlq = [], bull = [], bull_up = True, j_now = 0, sse = [], handled = []\<rparr>"

inductive reachable_sys :: "worker_env \<Rightarrow> job_sys \<Rightarrow> bool" for e where
  start: "reachable_sys e empty_sys"
| step: "reachable_sys e s \<Longrightarrow> reachable_sys e (perform e a s)"

lemma reachable_run: "reachable_sys e s \<Longrightarrow> reachable_sys e (fold (perform e) acts s)"
  by (induction acts arbitrary: s) (auto intro: reachable_sys.step)

section \<open>What the operations leave alone\<close>

definition completed :: "uuid \<Rightarrow> job_sys \<Rightarrow> bool" where
  "completed i s \<longleftrightarrow> (\<exists>x \<in> set (jobs s). j_id x = i \<and> j_status x = J_Completed)"

text \<open>
  A calm operation changes neither which jobs exist nor which are completed, calls no handler, reports nothing, and
  to the queue only adds entries under keys it does not hold.
\<close>

definition calm :: "job_sys \<Rightarrow> job_sys \<Rightarrow> bool" where
  "calm s s' \<longleftrightarrow> map j_id (jobs s') = map j_id (jobs s) \<and> (\<forall>i. completed i s' = completed i s) \<and>
     sse s' = sse s \<and> handled s' = handled s \<and> dlq s' = dlq s \<and>
     (\<exists>es. bull s' = bull s @ es \<and> distinct (map b_id es) \<and>
       (\<forall>b \<in> set es. b_state b = B_Waiting \<and> b_id b = bull_key (b_data b) \<and> b_id b \<notin> b_id ` set (bull s)))"

lemma calm_refl [simp, intro]: "calm s s"
  by (simp add: calm_def)

lemma calm_trans:
  assumes "calm s t" and "calm t u"
  shows "calm s u"
proof -
  from assms(1) obtain es where s: "bull t = bull s @ es" "distinct (map b_id es)"
    "\<forall>b \<in> set es. b_state b = B_Waiting \<and> b_id b = bull_key (b_data b) \<and> b_id b \<notin> b_id ` set (bull s)"
    by (auto simp: calm_def)
  from assms(2) obtain fs where t: "bull u = bull t @ fs" "distinct (map b_id fs)"
    "\<forall>b \<in> set fs. b_state b = B_Waiting \<and> b_id b = bull_key (b_data b) \<and> b_id b \<notin> b_id ` set (bull t)"
    by (auto simp: calm_def)
  have "b_id ` set es \<inter> b_id ` set fs = {}"
  proof (rule ccontr)
    assume "b_id ` set es \<inter> b_id ` set fs \<noteq> {}"
    then obtain k where k: "k \<in> b_id ` set es" "k \<in> b_id ` set fs" by (metis IntE ex_in_conv)
    have "b_id ` set es \<subseteq> b_id ` set (bull t)" by (simp add: s(1) image_mono)
    with k(1) have "k \<in> b_id ` set (bull t)" by (rule rev_subsetD)
    moreover from k(2) obtain x where x: "k = b_id x" "x \<in> set fs" by (rule imageE)
    have "b_id x \<notin> b_id ` set (bull t)" using bspec [OF t(3) x(2)] by (elim conjE)
    ultimately show False using x(1) by metis
  qed
  then have "bull u = bull s @ (es @ fs)" "distinct (map b_id (es @ fs))" using s(1,2) t(1,2) by auto
  moreover have "b_id ` set (bull s) \<subseteq> b_id ` set (bull t)" by (simp add: s(1) image_mono)
  then have "\<forall>b \<in> set (es @ fs). b_state b = B_Waiting \<and> b_id b = bull_key (b_data b) \<and> b_id b \<notin> b_id ` set (bull s)"
    using s(3) t(3) by (metis Un_iff set_append subsetD)
  ultimately show ?thesis using assms unfolding calm_def by metis
qed

text \<open>A loop over jobs none of which is completed.\<close>

lemma calm_fold:
  assumes "\<And>x t. x \<in> set xs \<Longrightarrow> \<forall>i \<in> I. \<not> completed i t \<Longrightarrow> calm t (f x t)" and "\<forall>i \<in> I. \<not> completed i s"
  shows "calm s (fold f xs s)"
  using assms
proof (induction xs arbitrary: s)
  case (Cons x xs)
  then have c: "calm s (f x s)" by simp
  then have "\<forall>i \<in> I. \<not> completed i (f x s)" using Cons.prems(2) by (simp add: calm_def)
  with Cons have "calm (f x s) (fold f xs (f x s))" by simp
  with c show ?case by (simp add: calm_trans)
qed simp

lemma completed_update:
  assumes "\<And>x. j_id (f x) = j_id x"
  shows "completed k (update_job i f s) \<longleftrightarrow>
    (\<exists>x \<in> set (jobs s). j_id x = k \<and> j_status (if j_id x = i then f x else x) = J_Completed)"
  using assms by (auto simp: completed_def set_update_where)

lemma calm_update:
  assumes "\<And>x. j_id (f x) = j_id x" and "\<not> completed i s" and "\<And>x. j_status x \<noteq> J_Completed \<Longrightarrow> j_status (f x) \<noteq> J_Completed"
  shows "calm s (update_job i f s)"
proof -
  have "map j_id (update_where (\<lambda>x. j_id x = i) f (jobs s)) = map j_id (jobs s)"
    using assms(1) by (simp add: map_update_where)
  moreover have "completed k (update_job i f s) = completed k s" for k
    using assms(2,3) unfolding completed_update [of f, OF assms(1)] by (auto simp: completed_def)
  ultimately show ?thesis by (simp add: calm_def)
qed

lemma calm_enqueue: "enqueue_job j s = Some s' \<Longrightarrow> calm s s'"
  by (auto simp: enqueue_job_def calm_def completed_def split: if_splits)

lemma pending_open:
  assumes "distinct (map j_id (jobs s))" and "j \<in> set (jobs s)" and "j_status j \<noteq> J_Completed"
  shows "\<not> completed (j_id j) s"
  using assms unfolding completed_def by (metis distinct_map inj_onD)

lemma ready_step_calm:
  assumes "\<forall>i \<in> j_id ` set batch. \<not> completed i (snd acc)"
  shows "calm (snd acc) (snd (ready_step batch node acc))"
proof -
  obtain n s where acc: "acc = (n, s)" by (rule prod.exhaust)
  show ?thesis
  proof (cases "find (\<lambda>j. j_id j = jobId node) batch")
    case (Some j)
    then have "j \<in> set batch" by (simp add: find_Some_set)
    with assms acc have "calm s (cascade_fail (j_id j) s)" unfolding cascade_fail_def by (intro calm_update) auto
    with Some acc show ?thesis by (auto simp: ready_step_def split: option.splits intro: calm_enqueue)
  qed (simp add: acc ready_step_def)
qed

lemma snd_fold_pair: "snd (fold f xs acc) = fold (\<lambda>x s. snd (f x (n, s))) xs (snd acc)"
  if "\<And>x n m s. snd (f x (n, s)) = snd (f x (m, s))" for f :: "'a \<Rightarrow> 'b \<times> 's \<Rightarrow> 'b \<times> 's"
proof (induction xs arbitrary: acc)
  case (Cons x xs)
  have "snd (f x acc) = snd (f x (n, snd acc))" using that [of x "fst acc" "snd acc" n] by simp
  with Cons show ?case by simp
qed simp

lemma enqueueReadyJobs_calm:
  assumes "distinct (map j_id (jobs s))"
  shows "calm s (snd (enqueueReadyJobs s))"
proof -
  let ?batch = "findEligibleJobs SWEEP_BATCH_SIZE s"
  have "\<forall>i \<in> j_id ` set ?batch. \<not> completed i s"
    using pending_open [OF assms] by (auto simp: findEligibleJobs_def eligible_def dest!: in_set_takeD)
  then have "calm s (fold (\<lambda>x s. snd (ready_step ?batch x (0, s))) ns s)" for ns
    by (intro calm_fold [where I = "j_id ` set ?batch"]) (metis ready_step_calm snd_conv)+
  moreover have "snd (ready_step ?batch x (n, s)) = snd (ready_step ?batch x (m, s))" for x n m s
    by (simp add: ready_step_def split: option.splits)
  ultimately show ?thesis by (simp add: enqueueReadyJobs_def Let_def snd_fold_pair [where n = 0])
qed

lemma sweep_calm:
  assumes "distinct (map j_id (jobs s))"
  shows "calm s (runSchedulerSweep s)"
proof -
  have part: "calm t (fold (\<lambda>j. update_job (j_id j) (f j)) xs t)"
    if "distinct (map j_id (jobs t))" "set xs \<subseteq> {j \<in> set (jobs t). j_status j \<noteq> J_Completed}"
      "\<And>j x. j_id (f j x) = j_id x" "\<And>j x. j_status x \<noteq> J_Completed \<Longrightarrow> j_status (f j x) \<noteq> J_Completed" for t xs f
  proof (rule calm_fold)
    show "\<forall>i \<in> j_id ` set xs. \<not> completed i t" using pending_open [OF that(1)] that(2) by auto
    show "calm u (update_job (j_id x) (f x) u)" if "x \<in> set xs" "\<forall>i \<in> j_id ` set xs. \<not> completed i u" for x u
      using that \<open>\<And>j x. j_id (f j x) = j_id x\<close> \<open>\<And>j x. j_status x \<noteq> J_Completed \<Longrightarrow> j_status (f j x) \<noteq> J_Completed\<close>
      by (intro calm_update) auto
  qed
  let ?s1 = "snd (recoverStalledJobs s)" and ?s2 = "snd (enqueueReadyJobs (snd (recoverStalledJobs s)))"
  have c1: "calm s ?s1" unfolding recoverStalledJobs_def Let_def snd_conv using assms
    by (intro part) (auto simp: findStalledJobs_def dest!: in_set_takeD)
  then have d1: "distinct (map j_id (jobs ?s1))" using assms by (simp add: calm_def)
  then have c2: "calm ?s1 ?s2" by (rule enqueueReadyJobs_calm)
  then have d2: "distinct (map j_id (jobs ?s2))" using d1 by (simp add: calm_def)
  have "calm ?s2 (snd (boostStarvingJobs ?s2))" unfolding boostStarvingJobs_def Let_def snd_conv using d2
    by (intro part) (auto simp: findStarvingPendingJobs_def dest!: in_set_takeD)
  with c1 c2 show ?thesis unfolding runSchedulerSweep_def by (blast intro: calm_trans)
qed

section \<open>The invariant\<close>

text \<open>
  Rows and entries have one id each, an entry carries the job it is named after, an entry a worker holds is of a
  stored job that is not completed, and a completion has been announced once for every completed job, and for no
  other.
\<close>

definition sys_inv :: "job_sys \<Rightarrow> bool" where
  "sys_inv s \<longleftrightarrow> distinct (map j_id (jobs s)) \<and> distinct (map b_id (bull s)) \<and>
     (\<forall>b \<in> set (bull s). b_id b = bull_key (b_data b)) \<and>
     (\<forall>b \<in> set (bull s). \<forall>j. b_state b = B_Active j \<longrightarrow>
        j_id j = b_data b \<and> b_data b \<in> j_id ` set (jobs s) \<and> \<not> completed (b_data b) s) \<and>
     (\<forall>i. count_list (sse s) (''job_completed'', i) = (if completed i s then 1 else 0))"

lemma sys_invD:
  assumes "sys_inv s"
  shows "distinct (map j_id (jobs s))" "distinct (map b_id (bull s))"
    "\<And>b. b \<in> set (bull s) \<Longrightarrow> b_id b = bull_key (b_data b)"
    "\<And>b j. b \<in> set (bull s) \<Longrightarrow> b_state b = B_Active j \<Longrightarrow>
       j_id j = b_data b \<and> b_data b \<in> j_id ` set (jobs s) \<and> \<not> completed (b_data b) s"
    "\<And>i. count_list (sse s) (''job_completed'', i) = (if completed i s then 1 else 0)"
  using assms by (simp_all add: sys_inv_def)

lemma sys_inv_cong:
  assumes "map j_id (jobs s') = map j_id (jobs s)" and "\<And>i. completed i s' = completed i s" and "bull s' = bull s"
    and "\<And>i. count_list (sse s') (''job_completed'', i) = count_list (sse s) (''job_completed'', i)"
  shows "sys_inv s' = sys_inv s"
proof -
  have "j_id ` set (jobs s') = j_id ` set (jobs s)" using assms(1) by (metis list.set_map)
  with assms show ?thesis by (simp add: sys_inv_def)
qed

lemma calm_inv:
  assumes "calm s s'" and "sys_inv s"
  shows "sys_inv s'"
proof -
  from assms(1) obtain es where es: "bull s' = bull s @ es" "distinct (map b_id es)"
    "\<forall>b \<in> set es. b_state b = B_Waiting \<and> b_id b = bull_key (b_data b) \<and> b_id b \<notin> b_id ` set (bull s)"
    and s': "map j_id (jobs s') = map j_id (jobs s)" "\<And>i. completed i s' = completed i s" "sse s' = sse s"
    unfolding calm_def by blast
  have "b_id ` set (bull s) \<inter> b_id ` set es = {}"
  proof (rule ccontr)
    assume "b_id ` set (bull s) \<inter> b_id ` set es \<noteq> {}"
    then obtain k where k: "k \<in> b_id ` set (bull s)" "k \<in> b_id ` set es" by (metis IntE ex_in_conv)
    from k(2) obtain x where x: "k = b_id x" "x \<in> set es" by (rule imageE)
    have "b_id x \<notin> b_id ` set (bull s)" using bspec [OF es(3) x(2)] by (elim conjE)
    with k(1) x(1) show False by metis
  qed
  then have "distinct (map b_id (bull s'))" using es(1,2) sys_invD(2) [OF assms(2)] by simp
  moreover have "\<forall>b \<in> set (bull s'). b_id b = bull_key (b_data b)" using es(1,3) sys_invD(3) [OF assms(2)] by auto
  moreover have "j_id ` set (jobs s') = j_id ` set (jobs s)" using s'(1) by (metis list.set_map)
  then have "\<forall>b \<in> set (bull s'). \<forall>j. b_state b = B_Active j \<longrightarrow>
      j_id j = b_data b \<and> b_data b \<in> j_id ` set (jobs s') \<and> \<not> completed (b_data b) s'"
    using es(1,3) sys_invD(4) [OF assms(2)] s'(2) by auto
  ultimately show ?thesis using sys_invD(1,5) [OF assms(2)] s' by (simp add: sys_inv_def)
qed

lemma completed_insert: "j_status j \<noteq> J_Completed \<Longrightarrow> completed i (s\<lparr>jobs := jobs s @ [j]\<rparr>) = completed i s"
  by (auto simp: completed_def)

lemma completed_insert_job: "insert_job j s = Some s' \<Longrightarrow> j_status j \<noteq> J_Completed \<Longrightarrow> completed i s' = completed i s"
  by (auto simp: insert_job_def completed_insert split: if_splits)

lemma insert_inv:
  assumes "insert_job j s = Some s'" and "j_status j \<noteq> J_Completed" and "sys_inv s"
  shows "sys_inv s'"
proof -
  from assms(1) have s': "s' = s\<lparr>jobs := jobs s @ [j]\<rparr>" and "j_id j \<notin> j_id ` set (jobs s)"
    by (auto simp: insert_job_def split: if_splits)
  with assms(3) show ?thesis by (auto simp: sys_inv_def completed_insert [OF assms(2)])
qed

lemma createJob_inv: "sys_inv s \<Longrightarrow> sys_inv (snd (createJob i dto s))"
  using insert_inv [of "new_job i (j_now s) dto" s]
  by (auto simp: createJob_def new_job_def Let_def split: option.splits intro: calm_inv [OF calm_enqueue])

lemma find_jobD: "find_job i s = Some j \<Longrightarrow> j \<in> set (jobs s) \<and> j_id j = i"
  unfolding find_job_def by (drule find_Some_set) simp

lemma find_entryD: "find_entry k s = Some b \<Longrightarrow> b \<in> set (bull s) \<and> b_id b = k"
  unfolding find_entry_def by (drule find_Some_set) simp

lemma cancelJob_calm:
  assumes "sys_inv s"
  shows "calm s (snd (cancelJob i s))"
proof (cases "find_job i s")
  case (Some j)
  then have "j \<in> set (jobs s)" "j_id j = i" using find_jobD by auto
  then have "calm s (update_job i (\<lambda>j. j\<lparr>j_status := J_Cancelled\<rparr>) s)" if "j_status j \<noteq> J_Completed"
    using pending_open [OF sys_invD(1) [OF assms] _ that] by (intro calm_update) auto
  with Some show ?thesis by (simp add: cancelJob_def getJob_def)
qed (simp add: cancelJob_def getJob_def)

lemma start_job_cases:
  assumes "start_job e i s = (r, s')"
  shows "r = None \<and> s' = s \<or> (\<exists>j. r = Some j \<and> find_job i s = Some j \<and> j_status j \<noteq> J_Completed \<and>
    (\<exists>t. s' = s\<lparr>jobs := update_where (\<lambda>j. j_id j = i \<and> j_status j = J_Pending)
         (\<lambda>j. j\<lparr>j_status := J_Processing, j_started_at := Some (j_now s), j_lease_expires_at := Some t\<rparr>) (jobs s),
       sse := sse s @ [(''job_started'', i)], handled := handled s @ [i]\<rparr>))"
  using assms
  by (auto simp: start_job_def claimJob_def Let_def update_where_none split: option.splits if_splits)

lemma update_entry_fields [simp]:
  "jobs (update_entry k f s) = jobs s" "sse (update_entry k f s) = sse s" "handled (update_entry k f s) = handled s"
  "dlq (update_entry k f s) = dlq s" "j_now (update_entry k f s) = j_now s" "completed i (update_entry k f s) = completed i s"
  "bull (update_entry k f s) = update_where (\<lambda>b. b_id b = k) f (bull s)"
  by (simp_all add: update_entry_def completed_def)

lemma entry_inv:
  assumes "sys_inv s" and "\<And>b. b_id (f b) = b_id b" and "\<And>b. b_data (f b) = b_data b"
    and "\<And>b j. b \<in> set (bull s) \<Longrightarrow> b_id b = k \<Longrightarrow> b_state (f b) = B_Active j \<Longrightarrow>
      j_id j = b_data b \<and> b_data b \<in> j_id ` set (jobs s) \<and> \<not> completed (b_data b) s"
  shows "sys_inv (update_entry k f s)"
proof -
  have "map b_id (update_where (\<lambda>b. b_id b = k) f (bull s)) = map b_id (bull s)" using assms(2) by (simp add: map_update_where)
  moreover have "b_id b = bull_key (b_data b)" if "b \<in> set (update_where (\<lambda>b. b_id b = k) f (bull s))" for b
    using that sys_invD(3) [OF assms(1)] assms(2,3) by (auto simp: set_update_where)
  moreover have "j_id j = b_data b \<and> b_data b \<in> j_id ` set (jobs s) \<and> \<not> completed (b_data b) s"
    if "b \<in> set (update_where (\<lambda>b. b_id b = k) f (bull s))" "b_state b = B_Active j" for b j
  proof -
    from that(1) obtain x where x: "x \<in> set (bull s)" "b = (if b_id x = k then f x else x)" by (auto simp: set_update_where)
    show ?thesis
    proof (cases "b_id x = k")
      case True
      with x that(2) assms(4) [of x j] assms(3) show ?thesis by simp
    next
      case False
      with x that(2) sys_invD(4) [OF assms(1), of x j] show ?thesis by simp
    qed
  qed
  ultimately show ?thesis using sys_invD(1,2,5) [OF assms(1)] by (simp add: sys_inv_def)
qed

lemma started_inv:
  assumes "start_job e i s = (r, s')" and "sys_inv s"
  shows "sys_inv s' \<and> map j_id (jobs s') = map j_id (jobs s) \<and> (\<forall>k. completed k s' = completed k s) \<and> bull s' = bull s"
proof -
  from start_job_cases [OF assms(1)] consider "s' = s" | t where
    "s' = s\<lparr>jobs := update_where (\<lambda>j. j_id j = i \<and> j_status j = J_Pending)
         (\<lambda>j. j\<lparr>j_status := J_Processing, j_started_at := Some (j_now s), j_lease_expires_at := Some t\<rparr>) (jobs s),
       sse := sse s @ [(''job_started'', i)], handled := handled s @ [i]\<rparr>" by blast
  then show ?thesis
  proof cases
    case 2
    then have "map j_id (jobs s') = map j_id (jobs s)" by (simp add: map_update_where)
    moreover have "completed k s' = completed k s" for k unfolding 2 by (auto simp: completed_def set_update_where)
    moreover have "bull s' = bull s" "count_list (sse s') (''job_completed'', k) = count_list (sse s) (''job_completed'', k)" for k
      by (simp_all add: 2)
    ultimately show ?thesis using sys_inv_cong [of s' s] assms(2) by simp
  qed (simp add: assms(2))
qed

lemma completed_finished:
  assumes "j_id j \<in> j_id ` set (jobs s)"
  shows "completed k (finish_job n j s) \<longleftrightarrow> k = j_id j \<or> completed k s"
proof -
  let ?s = "update_job (j_id j) (\<lambda>x. x\<lparr>j_status := J_Completed, j_completed_at := Some (j_now s), j_lease_expires_at := None\<rparr>) s"
  have "completed k ?s \<longleftrightarrow> k = j_id j \<or> completed k s"
    using assms by (subst completed_update) (auto simp: completed_def image_iff, metis)
  then have "completed k (?s\<lparr>sse := t\<rparr>) \<longleftrightarrow> k = j_id j \<or> completed k s" for t by (simp add: completed_def)
  moreover have "completed k (case insert_job (next_recurrence n t j r) u of None \<Rightarrow> u | Some s \<Rightarrow> s) = completed k u" for u t r
    by (cases "insert_job (next_recurrence n t j r) u") (simp_all add: completed_insert_job next_recurrence_def)
  ultimately show ?thesis by (cases "j_recurring_interval j") (simp_all add: finish_job_def Let_def cong: option.case_cong)
qed

lemma finish_job_jobs:
  "\<exists>js. map j_id (jobs (finish_job n j s)) = map j_id (jobs s) @ js \<and> distinct js \<and> set js \<inter> j_id ` set (jobs s) = {}"
proof -
  let ?s = "update_job (j_id j) (\<lambda>x. x\<lparr>j_status := J_Completed, j_completed_at := Some (j_now s), j_lease_expires_at := None\<rparr>) s"
  have m: "map j_id (jobs ?s) = map j_id (jobs s)" by (simp add: map_update_where)
  then have "j_id ` set (jobs ?s) = j_id ` set (jobs s)" by (metis list.set_map)
  then show ?thesis
    using m by (cases "j_recurring_interval j") (auto simp: finish_job_def insert_job_def next_recurrence_def Let_def split: option.splits)
qed

lemma finish_job_rest [simp]:
  "bull (finish_job n j s) = bull s" "handled (finish_job n j s) = handled s" "dlq (finish_job n j s) = dlq s"
  "sse (finish_job n j s) = sse s @ [(''job_completed'', j_id j)]"
  by (simp_all add: finish_job_def insert_job_def Let_def split: option.splits)

lemma finish_inv:
  assumes "sys_inv s" and "j_id j \<in> j_id ` set (jobs s)" and "\<not> completed (j_id j) s"
    and "\<And>b x. b \<in> set (bull s) \<Longrightarrow> b_state b = B_Active x \<Longrightarrow> b_data b \<noteq> j_id j"
  shows "sys_inv (finish_job n j s)"
proof -
  from finish_job_jobs [of n j s] obtain js where js: "map j_id (jobs (finish_job n j s)) = map j_id (jobs s) @ js"
    "distinct js" "set js \<inter> j_id ` set (jobs s) = {}" by blast
  have d: "distinct (map j_id (jobs (finish_job n j s)))" unfolding js(1) using js(2,3) sys_invD(1) [OF assms(1)] by auto
  have sub: "j_id ` set (jobs s) \<subseteq> j_id ` set (jobs (finish_job n j s))" using js(1)
    by (metis Un_upper1 list.set_map set_append)
  have "\<forall>b \<in> set (bull s). \<forall>x. b_state b = B_Active x \<longrightarrow>
      j_id x = b_data b \<and> b_data b \<in> j_id ` set (jobs (finish_job n j s)) \<and> \<not> completed (b_data b) (finish_job n j s)"
    using sys_invD(4) [OF assms(1)] assms(4) sub unfolding completed_finished [OF assms(2)] by blast
  then show ?thesis using d sys_invD(2,3,5) [OF assms(1)] assms(3)
    by (simp add: sys_inv_def completed_finished [OF assms(2)])
qed

lemma onFailed_inv:
  assumes "sys_inv s" and "\<not> completed i s"
  shows "sys_inv (onFailed e ok d msg n i s) \<and> (\<forall>k. completed k (onFailed e ok d msg n i s) = completed k s) \<and>
    bull (onFailed e ok d msg n i s) = bull s \<and> handled (onFailed e ok d msg n i s) = handled s"
proof -
  let ?s = "update_job i (\<lambda>x. x\<lparr>j_status := J_Failed, j_error_message := Some msg, j_lease_expires_at := None\<rparr>) s"
  have c: "calm s ?s" using assms(2) by (intro calm_update) simp_all
  have inv: "sys_inv ?s" by (rule calm_inv [OF c assms(1)])
  have same: "completed k ?s = completed k s" for k using c by (simp add: calm_def)
  have ext: "sys_inv (?s\<lparr>dlq := ds, sse := sse s @ es\<rparr>) \<and> (\<forall>k. completed k (?s\<lparr>dlq := ds, sse := sse s @ es\<rparr>) = completed k s)"
    if "set (map fst es) \<subseteq> {''dlq_added'', ''job_failed''}" for ds es
  proof -
    have "count_list es (''job_completed'', i) = 0" for i using that by (auto simp: count_list_0_iff)
    then have "sys_inv (?s\<lparr>dlq := ds, sse := sse s @ es\<rparr>) = sys_inv ?s" by (intro sys_inv_cong) (simp_all add: completed_def)
    moreover have "completed k (?s\<lparr>dlq := ds, sse := sse s @ es\<rparr>) = completed k ?s" for k by (simp add: completed_def)
    ultimately show ?thesis using inv same by simp
  qed
  show ?thesis
  proof (cases "n < QUEUE_MAX_ATTEMPTS e \<or> find_job i s = None")
    case True
    with assms(1) show ?thesis by (auto simp: onFailed_def)
  next
    case False
    then obtain j where j: "find_job i s = Some j" by auto
    then have "j_id j = i" using find_jobD by auto
    with False j obtain ds es where "onFailed e ok d msg n i s = ?s\<lparr>dlq := ds, sse := sse s @ es\<rparr>"
      "set (map fst es) \<subseteq> {''dlq_added'', ''job_failed''}"
    proof (cases "threshold_reached (DLQ_ALERT_THRESHOLD e) (moveToDlq d msg n j ?s) \<and> \<not> ok")
      case True
      with False j that [of "[(''dlq_added'', j_id j)]" "dlq ?s @ [_]"] show ?thesis by (simp add: onFailed_def moveToDlq_def)
    next
      case F: False
      with False j that [of "[(''dlq_added'', j_id j), (''job_failed'', i)]" "dlq ?s @ [_]"] show ?thesis
        by (auto simp: onFailed_def moveToDlq_def Let_def)
    qed
    with ext [of es ds] show ?thesis by simp
  qed
qed

section \<open>What one action keeps\<close>

definition is_dead :: "uuid \<Rightarrow> job_sys \<Rightarrow> bool" where
  "is_dead i s \<longleftrightarrow> i \<in> dlq_original_job_id ` set (dlq s)"

text \<open>
  Completed jobs stay completed; and as long as the queue keeps an ended entry of a job, nothing happens to the job:
  no handler call, no completion, no move to the dead letter queue.
\<close>

definition keeps :: "job_sys \<Rightarrow> job_sys \<Rightarrow> bool" where
  "keeps s s' \<longleftrightarrow> sys_inv s' \<and> (\<forall>i. completed i s \<longrightarrow> completed i s') \<and>
     (\<forall>i. entry_state (bull_key i) s = Some B_Done \<longrightarrow> entry_state (bull_key i) s' = Some B_Done \<and>
        (completed i s' \<longrightarrow> completed i s) \<and> count_list (handled s') i = count_list (handled s) i \<and> (is_dead i s' \<longrightarrow> is_dead i s))"

lemma keeps_trans:
  assumes "keeps s t" and "keeps t u"
  shows "keeps s u"
proof -
  have "entry_state (bull_key i) u = Some B_Done \<and> (completed i u \<longrightarrow> completed i s) \<and>
      count_list (handled u) i = count_list (handled s) i \<and> (is_dead i u \<longrightarrow> is_dead i s)"
    if "entry_state (bull_key i) s = Some B_Done" for i
  proof -
    from assms(1) that have t: "entry_state (bull_key i) t = Some B_Done" "completed i t \<longrightarrow> completed i s"
      "count_list (handled t) i = count_list (handled s) i" "is_dead i t \<longrightarrow> is_dead i s" unfolding keeps_def by blast+
    from assms(2) t(1) have "entry_state (bull_key i) u = Some B_Done" "completed i u \<longrightarrow> completed i t"
      "count_list (handled u) i = count_list (handled t) i" "is_dead i u \<longrightarrow> is_dead i t" unfolding keeps_def by blast+
    with t show ?thesis by simp
  qed
  moreover have "sys_inv u" "\<forall>i. completed i s \<longrightarrow> completed i u" using assms unfolding keeps_def by blast+
  ultimately show ?thesis unfolding keeps_def by blast
qed

lemma keeps_cong:
  assumes "jobs s' = jobs s" and "bull s' = bull s" and "sse s' = sse s" and "handled s' = handled s"
    and "set (dlq s') \<subseteq> set (dlq s)" and "sys_inv s"
  shows "keeps s s'"
proof -
  have "completed i s' = completed i s" for i using assms(1) by (simp add: completed_def)
  moreover from this have "sys_inv s'" using assms(1,2,3,6) by (subst sys_inv_cong [of s' s]) simp_all
  ultimately show ?thesis using assms(2,4,5) by (auto simp: keeps_def entry_state_def find_entry_def is_dead_def)
qed

lemma find_append_Some: "find P xs = Some x \<Longrightarrow> find P (xs @ ys) = Some x"
  by (induction xs) (auto split: if_splits)

lemma calm_keeps:
  assumes "calm s s'" and "sys_inv s"
  shows "keeps s s'"
proof -
  from assms(1) obtain es where "bull s' = bull s @ es" by (auto simp: calm_def)
  then have "find_entry k s' = Some b" if "find_entry k s = Some b" for k b
    using that by (simp add: find_entry_def find_append_Some)
  then have "entry_state k s' = Some B_Done" if "entry_state k s = Some B_Done" for k
    using that by (auto simp: entry_state_def)
  with assms show ?thesis by (simp add: keeps_def calm_inv [OF assms] calm_def is_dead_def)
qed

lemma insert_keeps:
  assumes "insert_job j s = Some s'" and "j_status j \<noteq> J_Completed" and "sys_inv s"
  shows "keeps s s'"
proof -
  have "bull s' = bull s" "handled s' = handled s" "dlq s' = dlq s" using assms(1) by (auto simp: insert_job_def split: if_splits)
  then show ?thesis using insert_inv [OF assms] completed_insert_job [OF assms(1,2)]
    by (simp add: keeps_def entry_state_def find_entry_def is_dead_def)
qed

lemma createJob_keeps:
  assumes "sys_inv s"
  shows "keeps s (snd (createJob i dto s))"
proof (cases "insert_job (new_job i (j_now s) dto) s")
  case (Some t)
  have k: "keeps s t" by (rule insert_keeps [OF Some _ assms]) (simp add: new_job_def Let_def)
  then have inv: "sys_inv t" by (simp add: keeps_def)
  have "keeps s u" if "enqueue_job j t = Some u" for j u
    using calm_enqueue [OF that] by (intro keeps_trans [OF k] calm_keeps inv)
  with k Some show ?thesis by (auto simp: createJob_def Let_def split: option.splits)
qed (use assms in \<open>simp add: createJob_def Let_def keeps_cong\<close>)

lemma retryDlqJob_keeps:
  assumes "sys_inv s"
  shows "keeps s (snd (retryDlqJob k i s))"
proof (cases "find (\<lambda>x. dlq_id x = k) (dlq s)")
  case None
  with assms show ?thesis by (simp add: retryDlqJob_def keeps_cong)
next
  case (Some x)
  let ?dto = "\<lparr>cj_type = dlq_type x, cj_payload = dlq_payload x, cj_priority = Some (dlq_priority x),
    cj_scheduled_at = None, cj_recurring_interval = None, cj_depends_on = None, cj_max_retries = None\<rparr>"
  obtain r t where c: "createJob i ?dto s = (r, t)" by (rule prod.exhaust)
  from createJob_keeps [OF assms, of i ?dto] c have k: "keeps s t" by simp
  have "keeps t (t\<lparr>dlq := filter P (dlq t)\<rparr>)" for P using k by (intro keeps_cong) (auto simp: keeps_def)
  with k c Some show ?thesis by (auto simp: retryDlqJob_def split: option.splits intro: keeps_trans)
qed

lemma find_entry_update:
  assumes "\<And>b. b_id (f b) = b_id b"
  shows "find_entry k (update_entry k' f s) = (if k = k' then map_option f (find_entry k s) else find_entry k s)"
proof -
  have "find (\<lambda>b. b_id b = k) (update_where (\<lambda>b. b_id b = k') f bs) =
      (if k = k' then map_option f (find (\<lambda>b. b_id b = k) bs) else find (\<lambda>b. b_id b = k) bs)" for bs
    using assms by (induction bs) auto
  then show ?thesis by (simp add: find_entry_def)
qed

text \<open>An action on the entry of one job leaves the ended entries of all others alone.\<close>

lemma entry_keeps:
  assumes "sys_inv s" and "find_entry k s = Some b" and "b_state b \<noteq> B_Done" and "k = bull_key (b_data b)"
    and "sys_inv s'" and "\<And>i. completed i s \<Longrightarrow> completed i s'" and "\<And>i. i \<noteq> b_data b \<Longrightarrow> completed i s' = completed i s"
    and "\<And>i. i \<noteq> b_data b \<Longrightarrow> count_list (handled s') i = count_list (handled s) i"
    and "\<And>i. i \<noteq> b_data b \<Longrightarrow> is_dead i s' = is_dead i s"
    and "\<And>k'. k' \<noteq> k \<Longrightarrow> find_entry k' s' = find_entry k' s"
  shows "keeps s s'"
proof -
  have "i \<noteq> b_data b \<and> bull_key i \<noteq> k" if "entry_state (bull_key i) s = Some B_Done" for i
    using that assms(2-4) by (auto simp: entry_state_def)
  with assms show ?thesis by (auto simp: keeps_def entry_state_def)
qed

lemma deliver_keeps:
  assumes "sys_inv s"
  shows "keeps s (perform e (Deliver k) s)"
proof (cases "\<exists>b. find_entry k s = Some b \<and> b_state b = B_Waiting")
  case False
  with assms show ?thesis by (auto simp: keeps_cong split: option.splits)
next
  case True
  then obtain b where b: "find_entry k s = Some b" "b_state b = B_Waiting" by blast
  then have mem: "b \<in> set (bull s)" "b_id b = k" using find_entryD by auto
  with sys_invD(3) [OF assms] have k: "k = bull_key (b_data b)" by auto
  obtain r t where st: "start_job e (b_data b) s = (r, t)" by (rule prod.exhaust)
  from started_inv [OF st assms] have t: "sys_inv t" "map j_id (jobs t) = map j_id (jobs s)" "\<And>i. completed i t = completed i s"
    "bull t = bull s" by simp_all
  from start_job_cases [OF st] have rest: "dlq t = dlq s" "i \<noteq> b_data b \<Longrightarrow> count_list (handled t) i = count_list (handled s) i" for i
    by auto
  let ?f = "\<lambda>b. b\<lparr>b_state := (case r of None \<Rightarrow> B_Done | Some j \<Rightarrow> B_Active j)\<rparr>"
  have u: "perform e (Deliver k) s = update_entry k ?f t" using b st by (cases r) simp_all
  have ids: "j_id ` set (jobs t) = j_id ` set (jobs s)" using t(2) by (metis list.set_map)
  have "j_id j = b_data x \<and> b_data x \<in> j_id ` set (jobs t) \<and> \<not> completed (b_data x) t"
    if x: "x \<in> set (bull t)" "b_id x = k" and a: "b_state (?f x) = B_Active j" for x j
  proof -
    from a have "r = Some j" by (cases r) simp_all
    with start_job_cases [OF st] have j: "find_job (b_data b) s = Some j" "j_status j \<noteq> J_Completed" by auto
    from x t(4) sys_invD(3) [OF assms, of x] k have "b_data x = b_data b" by simp
    moreover have m: "j \<in> set (jobs s)" "j_id j = b_data b" using find_jobD [OF j(1)] by simp_all
    moreover from m have "b_data b \<in> j_id ` set (jobs s)" by (metis imageI)
    moreover from m have "\<not> completed (b_data b) s" using pending_open [OF sys_invD(1) [OF assms] _ j(2)] by auto
    ultimately show ?thesis using ids t(3) by auto
  qed
  then have inv: "sys_inv (update_entry k ?f t)" using t(1) by (intro entry_inv) simp_all
  show ?thesis unfolding u
  proof (rule entry_keeps [OF assms b(1) _ k inv])
    show "b_state b \<noteq> B_Done" by (simp add: b(2))
    show "find_entry k' (update_entry k ?f t) = find_entry k' s" if "k' \<noteq> k" for k'
      using that t(4) by (simp add: find_entry_update find_entry_def [of _ t] find_entry_def [of _ s])
  qed (use t rest in \<open>simp_all add: is_dead_def\<close>)
qed

lemma finish_keeps:
  assumes "sys_inv s"
  shows "keeps s (perform e (Finish k n) s)"
proof (cases "\<exists>b j. find_entry k s = Some b \<and> b_state b = B_Active j")
  case False
  with assms show ?thesis by (auto simp: entry_state_def keeps_cong split: option.splits bull_state.splits)
next
  case True
  then obtain b j where b: "find_entry k s = Some b" "b_state b = B_Active j" by blast
  then have mem: "b \<in> set (bull s)" "b_id b = k" using find_entryD by auto
  with sys_invD(3) [OF assms] have k: "k = bull_key (b_data b)" by auto
  from sys_invD(4) [OF assms mem(1) b(2)] have j: "j_id j = b_data b" "j_id j \<in> j_id ` set (jobs s)" "\<not> completed (j_id j) s"
    by auto
  let ?f = "\<lambda>b. b\<lparr>b_state := B_Done\<rparr>"
  let ?t = "update_entry k ?f s"
  have u: "perform e (Finish k n) s = finish_job n j ?t"
    using b by (simp add: entry_state_def finish_job_def update_entry_def update_job_def insert_job_def Let_def
      split: option.split)
  have "sys_inv ?t" using assms by (intro entry_inv) simp_all
  then have inv: "sys_inv (finish_job n j ?t)"
  proof (rule finish_inv)
    fix x y assume x: "x \<in> set (bull ?t)" "b_state x = B_Active y"
    show "b_data x \<noteq> j_id j"
    proof
      assume "b_data x = j_id j"
      moreover from x(1) obtain z where z: "z \<in> set (bull s)" "x = (if b_id z = k then ?f z else z)" by (auto simp: set_update_where)
      moreover have "b_id z = bull_key (b_data z)" using sys_invD(3) [OF assms z(1)] .
      ultimately show False using x(2) k j(1) by (auto split: if_splits)
    qed
  qed (use j in simp_all)
  have c: "completed i (finish_job n j ?t) \<longleftrightarrow> i = b_data b \<or> completed i s" for i
    using completed_finished [of j ?t i n] j by simp
  show ?thesis unfolding u
    by (rule entry_keeps [OF assms b(1) _ k inv]) (use b(2) c in \<open>auto simp: is_dead_def find_entry_def update_entry_def
      intro: find_entry_update [unfolded find_entry_def update_entry_def, simplified, THEN trans]\<close>)
qed

lemma fail_keeps:
  assumes "sys_inv s"
  shows "keeps s (perform e (Fail k msg d ok) s)"
proof (cases "\<exists>b j. find_entry k s = Some b \<and> b_state b = B_Active j")
  case False
  with assms show ?thesis by (auto simp: keeps_cong split: option.splits bull_state.splits)
next
  case True
  then obtain b j where b: "find_entry k s = Some b" "b_state b = B_Active j" by blast
  then have mem: "b \<in> set (bull s)" "b_id b = k" using find_entryD by auto
  with sys_invD(3) [OF assms] have k: "k = bull_key (b_data b)" by auto
  from sys_invD(4) [OF assms mem(1) b(2)] have open_job: "\<not> completed (b_data b) s" by simp
  let ?n = "b_attempts_made b + 1"
  let ?f = "\<lambda>b. b\<lparr>b_attempts_made := ?n, b_state := (if ?n < QUEUE_MAX_ATTEMPTS e then B_Waiting else B_Dead)\<rparr>"
  let ?t = "update_entry k ?f s"
  have "sys_inv ?t" using assms by (intro entry_inv) (simp_all split: if_splits)
  note r = onFailed_inv [OF this, of "b_data b" e ok d msg ?n, simplified, OF open_job]
  have u: "perform e (Fail k msg d ok) s = onFailed e ok d msg ?n (b_data b) ?t" using b by (simp add: Let_def)
  have dead: "is_dead i (onFailed e ok d msg ?n (b_data b) ?t) = is_dead i s" if "i \<noteq> b_data b" for i
    using that by (auto simp: onFailed_def moveToDlq_def is_dead_def Let_def split: option.splits dest!: find_jobD)
  show ?thesis unfolding u
  proof (rule entry_keeps [OF assms b(1) _ k])
    show "b_state b \<noteq> B_Done" by (simp add: b(2))
    show "find_entry k' (onFailed e ok d msg ?n (b_data b) ?t) = find_entry k' s" if "k' \<noteq> k" for k'
      using r that by (simp add: find_entry_def) (metis (no_types, lifting) find_entry_def find_entry_update bull_job.ext_inject
        bull_job.surjective bull_job.update_convs(4,5) update_entry_fields(7))
  qed (use r dead in simp_all)
qed

lemma forget_keeps:
  assumes "sys_inv s"
  shows "sys_inv (perform e (Forget k) s) \<and> completed i (perform e (Forget k) s) = completed i s \<and>
    handled (perform e (Forget k) s) = handled s \<and> dlq (perform e (Forget k) s) = dlq s \<and>
    (bull_key i \<noteq> k \<longrightarrow> entry_state (bull_key i) (perform e (Forget k) s) = entry_state (bull_key i) s)"
proof -
  let ?t = "s\<lparr>bull := filter (\<lambda>b. b_id b \<noteq> k) (bull s)\<rparr>"
  have c: "completed j ?t = completed j s" for j by (simp add: completed_def)
  have "sys_inv ?t" using assms unfolding sys_inv_def c by (auto simp: distinct_map_filter)
  moreover have "find (\<lambda>b. b_id b = k') (filter (\<lambda>b. b_id b \<noteq> k) bs) = find (\<lambda>b. b_id b = k') bs" if "k' \<noteq> k" for k' and bs :: "bull_job list"
    using that by (induction bs) auto
  ultimately show ?thesis using assms by (simp add: c entry_state_def find_entry_def)
qed

text \<open>Every action but the queue's forgetting of an ended entry.\<close>

lemma perform_keeps:
  assumes "sys_inv s" and "\<And>k. a \<noteq> Forget k"
  shows "keeps s (perform e a s)"
proof (cases a)
  case (Submit i dto) with assms(1) show ?thesis by (simp add: createJob_keeps)
next
  case (Cancel i) with assms(1) show ?thesis by (simp add: calm_keeps [OF cancelJob_calm])
next
  case (Retry_Dead k i) with assms(1) show ?thesis by (simp add: retryDlqJob_keeps)
next
  case Sweep with assms(1) show ?thesis by (simp add: calm_keeps [OF sweep_calm] sys_invD(1))
next
  case (Deliver k) with deliver_keeps [OF assms(1)] show ?thesis by simp
next
  case (Finish k n) with finish_keeps [OF assms(1)] show ?thesis by simp
next
  case (Fail k msg d ok) with fail_keeps [OF assms(1)] show ?thesis by simp
qed (use assms in \<open>simp_all add: keeps_cong\<close>)

lemma perform_inv: "sys_inv s \<Longrightarrow> sys_inv (perform e a s) \<and> (completed i s \<longrightarrow> completed i (perform e a s))"
  using perform_keeps [of s a e] forget_keeps [of s e] by (cases "\<exists>k. a = Forget k") (auto simp: keeps_def)

lemma reachable_inv: "reachable_sys e s \<Longrightarrow> sys_inv s"
proof (induction rule: reachable_sys.induct)
  case start
  show ?case by (simp add: sys_inv_def empty_sys_def completed_def)
qed (simp add: perform_inv)

section \<open>What the system guarantees, and what it does not\<close>

lemma quiet_run:
  assumes "sys_inv s" and "entry_state (bull_key i) s = Some B_Done" and "Forget (bull_key i) \<notin> set acts"
  shows "(completed i (fold (perform e) acts s) \<longrightarrow> completed i s) \<and>
    count_list (handled (fold (perform e) acts s)) i = count_list (handled s) i \<and>
    (is_dead i (fold (perform e) acts s) \<longrightarrow> is_dead i s)"
  using assms
proof (induction acts arbitrary: s)
  case (Cons a acts)
  let ?t = "perform e a s"
  have "sys_inv ?t \<and> entry_state (bull_key i) ?t = Some B_Done \<and> (completed i ?t \<longrightarrow> completed i s) \<and>
      count_list (handled ?t) i = count_list (handled s) i \<and> (is_dead i ?t \<longrightarrow> is_dead i s)"
  proof (cases "\<exists>k. a = Forget k")
    case True
    then obtain k where "a = Forget k" "bull_key i \<noteq> k" using Cons.prems(3) by auto
    with forget_keeps [OF Cons.prems(1), of e k i] Cons.prems(2) show ?thesis by (simp add: is_dead_def)
  next
    case False
    with perform_keeps [OF Cons.prems(1), of a e] Cons.prems(2) show ?thesis unfolding keeps_def by blast
  qed
  with Cons.IH [of ?t] Cons.prems(3) show ?case by simp
qed simp

lemma retry_returns:
  assumes "sys_inv s" and "find_job i s = Some x" and "j_status x = J_Processing"
  shows "start_job e i s = (None, s)"
proof -
  have x: "x \<in> set (jobs s)" "j_id x = i" using find_jobD [OF assms(2)] by simp_all
  have "y = x" if "y \<in> set (jobs s)" "j_id y = i" for y using that x sys_invD(1) [OF assms(1)] by (metis distinct_map inj_onD)
  with assms(3) have "affected (\<lambda>j. j_id j = i \<and> j_status j = J_Pending) (jobs s) = 0"
    by (auto simp: affected_def filter_empty_conv)
  with assms(2,3) show ?thesis by (simp add: start_job_def claimJob_def update_where_none Let_def)
qed


definition sample_worker :: worker_env where
  "sample_worker = \<lparr>LEASE_TTL_SECONDS = 60, QUEUE_MAX_ATTEMPTS = 3, DLQ_ALERT_THRESHOLD = 5\<rparr>"

definition sample_dto :: create_job where
  "sample_dto = \<lparr>cj_type = Send_Email, cj_payload = JNull, cj_priority = None, cj_scheduled_at = None,
     cj_recurring_interval = None, cj_depends_on = None, cj_max_retries = None\<rparr>"

definition busy_sys :: job_sys where
  "busy_sys = fold (perform sample_worker) [Submit ''a'' sample_dto, Deliver ''job:a''] empty_sys"

lemma busy_reachable: "reachable_sys sample_worker busy_sys"
  unfolding busy_sys_def by (intro reachable_run reachable_sys.start)

lemma busy_entry:
  "\<exists>b j. find_entry (bull_key ''a'') busy_sys = Some b \<and> b_state b = B_Active j \<and> b_attempts_made b = 0"
proof -
  have "(case find_entry (bull_key ''a'') busy_sys of None \<Rightarrow> False | Some b \<Rightarrow>
      b_attempts_made b = 0 \<and> (case b_state b of B_Active j \<Rightarrow> True | _ \<Rightarrow> False))" by code_simp
  then show ?thesis by (auto split: option.splits bull_state.splits)
qed

lemma busy_job: "\<exists>x. find_job ''a'' busy_sys = Some x \<and> j_status x = J_Processing"
proof -
  have "map_option j_status (find_job ''a'' busy_sys) = Some J_Processing" by code_simp
  then show ?thesis by auto
qed




text \<open>
  Cancelling a job that a worker runs is undone by the worker: the cancellation is accepted and stored, and when
  the handler returns the row is completed all the same and the completion announced.
\<close>

theorem cancel_is_overwritten:
  assumes "reachable_sys e s" and "entry_state (bull_key i) s = Some (B_Active j)" and "find_job i s = Some x"
    and "j_status x = J_Processing"
  shows "fst (cancelJob i s) = Inr (x\<lparr>j_status := J_Cancelled\<rparr>) \<and>
    completed i (fold (perform e) [Cancel i, Finish (bull_key i) n] s) \<and>
    (''job_completed'', i) \<in> set (sse (fold (perform e) [Cancel i, Finish (bull_key i) n] s))"
proof -
  have inv: "sys_inv s" using assms(1) by (rule reachable_inv)
  let ?c = "update_job i (\<lambda>j. j\<lparr>j_status := J_Cancelled\<rparr>) s"
  have c: "cancelJob i s = (Inr (x\<lparr>j_status := J_Cancelled\<rparr>), ?c)" using assms(3,4) by (simp add: cancelJob_def getJob_def)
  from assms(2) obtain b where b: "find_entry (bull_key i) s = Some b" "b_state b = B_Active j" by (auto simp: entry_state_def)
  then have mem: "b \<in> set (bull s)" "b_id b = bull_key i" using find_entryD by auto
  with sys_invD(3,4) [OF inv mem(1)] b(2) have j: "j_id j = i" by auto
  have "entry_state (bull_key i) ?c = Some (B_Active j)" using assms(2) by (simp add: entry_state_def find_entry_def)
  then have "fold (perform e) [Cancel i, Finish (bull_key i) n] s =
      update_entry (bull_key i) (\<lambda>b. b\<lparr>b_state := B_Done\<rparr>) (finish_job n j ?c)" using c by simp
  moreover have "i \<in> j_id ` set (jobs ?c)" using find_jobD [OF assms(3)]
    by (metis (no_types, lifting) calm_def cancelJob_calm c image_eqI inv list.set_map snd_conv)
  then have "completed i (finish_job n j ?c)" using completed_finished [of j ?c i n] j by simp
  ultimately show ?thesis using c j by simp
qed

theorem cancel_is_overwritten_witness:
  "completed ''a'' (fold (perform sample_worker) [Cancel ''a'', Finish (bull_key ''a'') ''b''] busy_sys)"
proof -
  obtain b j where b: "find_entry (bull_key ''a'') busy_sys = Some b" "b_state b = B_Active j" using busy_entry by blast
  obtain x where x: "find_job ''a'' busy_sys = Some x" "j_status x = J_Processing" using busy_job by blast
  from b have "entry_state (bull_key ''a'') busy_sys = Some (B_Active j)" by (simp add: entry_state_def)
  from cancel_is_overwritten [OF busy_reachable this x, of "''b''"] show ?thesis by blast
qed

end
