(* ===== verification/Entities.thy ===== *)
theory Entities
  imports Json
begin

text \<open>
  The persisted state: the enumerations of \<open>modules/requests/enums\<close> and its siblings, one record per
  TypeORM entity, and the database as the record of its tables. A table is the list of its rows in
  insertion order. Nullable columns are \<open>option\<close>s; \<open>int\<close>/\<open>smallint\<close> columns are integers,
  \<open>numeric(p, s)\<close> columns rationals rounded to \<open>s\<close> decimals when they are written.
\<close>

section \<open>Enumerations\<close>

datatype current_node = Parse | Extract | Classify | Match | Price | Policy | Score | Done | Failed

datatype request_status =
    St_Received | St_Parsing | St_Needs_Review | St_Priced | St_Ready | St_Sent | St_Declined
  | St_Needs_Clarification | St_Failed

datatype request_routing = Auto_Eligible | Needs_Review
datatype request_channel = Ch_Email | Ch_Upload | Ch_Form
datatype request_type = Catalog_Rfq | Service_Quote | Type_Unknown
datatype resume_reason = Crash_Recovery | Manual
datatype match_method = Exact | Fuzzy | Semantic | Fused
datatype quote_status = Q_Draft | Q_Approved | Q_Ready | Q_Sent
datatype vertical = Avac | Caixilharia
datatype extraction_status = Ex_Completed | Ex_Failed

datatype pricing_rule_type =
    Margin_Floor | Max_Discount | Qty_Break | Lead_Time | Catalog_Unit | Included_Allowance
  | Conditional_Surcharge | Fixed_Adder | Labor_Hours | Margin_Markup | Tax

datatype line_kind = Equipment | Material | Labor | Consumable | Margin_Line | Tax_Line

datatype reason_code =
    Low_Line_Confidence | Policy_Flags_Detected | Deal_Value_Exceeds_Cap | Incomplete_Deal_Value
  | No_Line_Items | Extraction_Failed | Extraction_Empty_Source | Rc_Auto_Eligible | Policy_Breach

datatype reason_source = From_Extraction | From_Confidence | From_Policy

text \<open>A routing reason without its message text, which is rendered from the code and figures.\<close>

type_synonym routing_reason = "reason_code \<times> reason_source"

section \<open>Line-item flags\<close>

definition CLOSE_TIE_FLAG :: string where "CLOSE_TIE_FLAG = ''close_tie''"
definition MANUAL_OVERRIDE_FLAG :: string where "MANUAL_OVERRIDE_FLAG = ''manual_override''"
definition PRICING_BLOCKED_FLAG :: string where "PRICING_BLOCKED_FLAG = ''pricing_blocked''"
definition MARGIN_FLOOR_BREACH_FLAG :: string where "MARGIN_FLOOR_BREACH_FLAG = ''margin_floor_breach''"
definition MAX_DISCOUNT_BREACH_FLAG :: string where "MAX_DISCOUNT_BREACH_FLAG = ''max_discount_breach''"
definition POLICY_BLOCKED_FLAG :: string where "POLICY_BLOCKED_FLAG = ''policy_blocked''"

lemmas flag_defs = CLOSE_TIE_FLAG_def MANUAL_OVERRIDE_FLAG_def PRICING_BLOCKED_FLAG_def
  MARGIN_FLOOR_BREACH_FLAG_def MAX_DISCOUNT_BREACH_FLAG_def POLICY_BLOCKED_FLAG_def

section \<open>Currency\<close>

definition STRATOS_CURRENCY :: string where
  "STRATOS_CURRENCY = ''EUR''"

definition js_space :: "char \<Rightarrow> bool" where
  "js_space c \<longleftrightarrow> of_char c \<in> {9 :: nat, 10, 11, 12, 13, 32, 160}"

definition trim :: "string \<Rightarrow> string" where
  "trim s = rev (dropWhile js_space (rev (dropWhile js_space s)))"

definition upper_char :: "char \<Rightarrow> char" where
  "upper_char c = (let n = of_char c :: nat in if 97 \<le> n \<and> n \<le> 122 then char_of (n - 32) else c)"

definition normalizeCurrency :: "string \<Rightarrow> string" where
  "normalizeCurrency v = map upper_char (trim v)"

definition isEuroCurrency :: "string \<Rightarrow> bool" where
  "isEuroCurrency v \<longleftrightarrow> normalizeCurrency v = STRATOS_CURRENCY"

lemma isEuro_EUR [simp]: "isEuroCurrency STRATOS_CURRENCY"
  by (simp add: isEuroCurrency_def normalizeCurrency_def STRATOS_CURRENCY_def trim_def js_space_def
      upper_char_def Let_def)

section \<open>Columns\<close>

text \<open>A value written to a \<open>numeric(_, s)\<close> column: rounded to \<open>s\<close> decimals, half away from zero.\<close>

definition to_numeric :: "nat \<Rightarrow> rat \<Rightarrow> rat" where
  "to_numeric s x = sgn x * of_int \<lfloor>\<bar>x\<bar> * 10 ^ s + 1 / 2\<rfloor> / 10 ^ s"

section \<open>Rows\<close>

datatype embedding_status = Emb_Ready | Emb_Pending | Emb_Unavailable

record sku =
  sku_id :: uuid
  sku_org_id :: uuid
  sku_code :: string
  sku_name :: string
  base_price_minor :: int
  cost_minor :: "int option"
  sku_currency :: string
  sku_lead_time_days :: "int option"
  sku_active :: bool
  sku_description :: "string option"
  sku_embedding :: "rat list option"
  embedding_status :: embedding_status
  sku_attributes :: json
  embedding_error :: "string option"
  sku_updated_at :: millis

record line_item =
  li_id :: uuid
  li_request_id :: uuid
  li_position :: int
  raw_text :: string
  li_quantity :: "rat option"
  li_unit :: "string option"
  matched_sku_id :: "uuid option"
  match_confidence :: "rat option"
  li_match_method :: "match_method option"
  li_unit_price_minor :: "int option"
  li_lead_time_days :: "int option"
  li_flags :: "string list option"
  match_routing_reason :: "(rat \<times> rat) option"

text \<open>
  \<open>flags\<close> is a \<open>jsonb\<close> column; \<open>None\<close> stands for a value that is not an array, which every reader
  replaces by the empty list (\<open>Array.isArray(li.flags) ? li.flags : []\<close>). \<open>match_routing_reason\<close>
  holds the two scores its message is rendered from.
\<close>

definition flags_of :: "line_item \<Rightarrow> string list" where
  "flags_of li = (case li_flags li of Some fs \<Rightarrow> fs | None \<Rightarrow> [])"

record pricing_rule =
  pr_org_id :: uuid
  rule_type :: pricing_rule_type
  pr_vertical :: "vertical option"
  rule_key :: "string option"
  sort_order :: int
  config :: json
  pr_active :: bool

record extraction_row =
  ex_request_id :: uuid
  schema_valid :: bool
  ex_status :: extraction_status
  raw_json :: json
  reextract_count :: int

record quote_line_item =
  ql_quote_id :: uuid
  ql_sku_id :: "uuid option"
  ql_description :: string
  ql_kind :: line_kind
  ql_quantity :: rat
  ql_unit_price_minor :: int
  ql_amount_minor :: int
  ql_position :: int

record quote =
  q_id :: uuid
  q_org_id :: uuid
  q_request_id :: uuid
  quote_number :: string
  q_status :: quote_status
  subtotal_minor :: int
  discount_minor :: int
  total_minor :: int
  q_currency :: string
  q_lead_time_days :: "int option"
  approved_by :: "uuid option"
  pdf_storage_url :: "string option"
  pdf_generated_at :: "millis option"
  email_draft_subject :: "string option"
  email_draft_body :: "string option"
  email_sent_at :: "millis option"
  email_recipient :: "string option"
  email_provider_message_id :: "string option"
  email_delivery_started_at :: "millis option"

record request =
  r_id :: uuid
  r_org_id :: uuid
  r_vertical :: "vertical option"
  channel :: request_channel
  source_subject :: "string option"
  source_body :: "string option"
  sender_company :: "string option"
  sender_contact :: "string option"
  sender_address :: "string option"
  sender_email :: "string option"
  r_request_type :: request_type
  status :: request_status
  current_node :: current_node
  processing_started_at :: "millis option"
  overall_confidence :: "rat option"
  classification_confidence :: "rat option"
  routing :: "request_routing option"
  routing_reasons :: "routing_reason list"
  delivery_date :: "string option"
  r_created_at :: millis

datatype parse_status = Unparsed | Parsed | Manual_Paste

datatype parse_failure = Pf_Corrupt | Pf_No_Text_Layer | Pf_Unsupported_Format | Pf_Size_Limit_Exceeded | Pf_Unknown

record attachment =
  at_id :: uuid
  at_request_id :: uuid
  filename :: string
  mime_type :: string
  size_bytes :: int
  storage_url :: string
  parsed_text :: "string option"
  parse_status :: parse_status
  parse_error_reason :: "parse_failure option"
  pasted_text :: "string option"

record clarification =
  cl_id :: uuid
  cl_request_id :: uuid
  gaps :: "string list"
  draft_subject :: "string option"
  draft_body :: "string option"
  cl_sent_at :: "millis option"
  cl_sent_by :: "uuid option"

datatype tool_call_status = Tc_Ok | Tc_Error | Tc_Timeout | Tc_Validation_Error

record tool_call =
  tc_tool_name :: string
  tc_status :: tool_call_status
  tc_request_id :: uuid

record candidate_match =
  cm_line_item_id :: uuid
  cm_sku_id :: uuid
  cm_score :: rat
  cm_rank :: int

section \<open>Audit events\<close>

text \<open>
  The payloads the program emits, one constructor per shape of \<open>constants/events.constants.ts\<close>.
  Timestamps, durations and message texts are not part of the model.
\<close>

datatype stage_error_reason =
    Corrupt | No_Text_Layer | Unsupported_Format | Size_Limit_Exceeded
  | Tool_Not_Found | Tool_Input_Invalid | Tool_Execution_Failed | Tool_Output_Invalid
  | Llm_Circuit_Open | Llm_Timeout | Llm_Error | Vector_Store_Unavailable
  | Pricing_Rule_Missing | Catalog_Currency_Must_Be_Eur | Unknown_Error

datatype tool_progress = Tool_Running | Tool_Success | Tool_Failed

datatype event_payload =
    Ev_Request_Resumed current_node resume_reason
  | Ev_Node_Entered current_node
  | Ev_Node_Exited current_node bool
  | Ev_Breaker_Exit current_node
  | Ev_Stage_Error current_node stage_error_reason
  | Ev_Processing_Complete bool
  | Ev_Request_Finalized request_status
  | Ev_Pricing_Completed rat bool
  | Ev_Policy_Completed bool bool nat
  | Ev_Score_Exited request_routing rat "routing_reason list"
  | Ev_Match_Exited nat nat bool
  | Ev_Extract_Exited bool int
  | Ev_Classify_Exited request_type rat
  | Ev_Tool_Invoked "current_node option" string tool_progress int
  | Ev_Request_Received request_channel nat
  | Ev_Quote_Approved
  | Ev_Quote_Ready
  | Ev_Request_Declined string

record audit_event =
  ev_org_id :: "uuid option"
  ev_request_id :: "uuid option"
  ev_quote_id :: "uuid option"
  ev_user_id :: "uuid option"
  payload :: event_payload
  ev_created_at :: millis

section \<open>What a node returns\<close>

text \<open>
  \<open>NodeResult\<close>, and what a run of a node amounts to: a result, or one of the three kinds of exception
  the engine tells apart.
\<close>

datatype node_result = Advance current_node | Clarify | Node_Failed
datatype node_error = Circuit_Breaker_Open | Pipeline_Infra_Error | Other_Error
datatype node_outcome = Returned node_result | Threw node_error

section \<open>The database\<close>

record db =
  requests :: "request list"
  line_items :: "line_item list"
  skus :: "sku list"
  pricing_rules :: "pricing_rule list"
  extractions :: "extraction_row list"
  quotes :: "quote list"
  quote_lines :: "quote_line_item list"
  candidates :: "candidate_match list"
  attachments :: "attachment list"
  tool_calls :: "tool_call list"
  clarifications :: "clarification list"
  iva_rates :: "(uuid \<times> rat) list"
  events :: "audit_event list"
  clock :: millis

definition empty_db :: db where
  "empty_db = \<lparr>requests = [], line_items = [], skus = [], pricing_rules = [], extractions = [],
     quotes = [], quote_lines = [], candidates = [], attachments = [], tool_calls = [], clarifications = [], iva_rates = [], events = [], clock = 0\<rparr>"

text \<open>An event without an organisation is published but leaves no audit row (\<open>if (params.orgId)\<close>).\<close>

definition emit :: "uuid option \<Rightarrow> uuid option \<Rightarrow> uuid option \<Rightarrow> uuid option \<Rightarrow> event_payload \<Rightarrow> db \<Rightarrow> db" where
  "emit orgId requestId quoteId userId p d =
     (if orgId = None then d
      else d\<lparr>events := events d @ [\<lparr>ev_org_id = orgId, ev_request_id = requestId, ev_quote_id = quoteId,
        ev_user_id = userId, payload = p, ev_created_at = clock d\<rparr>]\<rparr>)"

text \<open>
  A \<open>stage.error\<close> event is inserted once per request, stage, reason and UTC day (the unique index of the
  table), and a failure to insert it is only logged.
\<close>

definition day_of :: "millis \<Rightarrow> int" where
  "day_of t = t div 86400000"

definition stage_error_recorded :: "uuid \<Rightarrow> current_node \<Rightarrow> stage_error_reason \<Rightarrow> db \<Rightarrow> bool" where
  "stage_error_recorded requestId stage reason d \<longleftrightarrow>
     (\<exists>e \<in> set (events d). ev_request_id e = Some requestId \<and> payload e = Ev_Stage_Error stage reason \<and>
        day_of (ev_created_at e) = day_of (clock d))"

definition emitStageError :: "uuid \<Rightarrow> uuid \<Rightarrow> current_node \<Rightarrow> stage_error_reason \<Rightarrow> db \<Rightarrow> db" where
  "emitStageError orgId requestId stage reason d =
     (if stage_error_recorded requestId stage reason d then d else emit (Some orgId) (Some requestId) None None (Ev_Stage_Error stage reason) d)"

definition find_request :: "uuid \<Rightarrow> db \<Rightarrow> request option" where
  "find_request i d = find (\<lambda>r. r_id r = i) (requests d)"

definition find_sku :: "uuid option \<Rightarrow> db \<Rightarrow> sku option" where
  "find_sku i d = (case i of None \<Rightarrow> None | Some s \<Rightarrow> find (\<lambda>k. sku_id k = s) (skus d))"

definition matched_sku :: "db \<Rightarrow> line_item \<Rightarrow> sku option" where
  "matched_sku d li = find_sku (matched_sku_id li) d"

text \<open>The lines of a request ordered by position, as every node reads them.\<close>

definition lines_of_request :: "uuid \<Rightarrow> db \<Rightarrow> line_item list" where
  "lines_of_request i d = sort_key li_position (filter (\<lambda>l. li_request_id l = i) (line_items d))"

text \<open>The same read with the owning request joined in to scope it to an organisation.\<close>

definition request_in_org :: "uuid \<Rightarrow> uuid \<Rightarrow> db \<Rightarrow> bool" where
  "request_in_org i org d \<longleftrightarrow> (\<exists>r \<in> set (requests d). r_id r = i \<and> r_org_id r = org)"

definition lines_of_request_in_org :: "uuid \<Rightarrow> uuid \<Rightarrow> db \<Rightarrow> line_item list" where
  "lines_of_request_in_org i org d = (if request_in_org i org d then lines_of_request i d else [])"

definition update_line :: "uuid \<Rightarrow> (line_item \<Rightarrow> line_item) \<Rightarrow> db \<Rightarrow> db" where
  "update_line i f d = d\<lparr>line_items := update_where (\<lambda>l. li_id l = i) f (line_items d)\<rparr>"

lemma emit_simps [simp, row_simps]:
  "requests (emit a b c u p d) = requests d" "line_items (emit a b c u p d) = line_items d"
  "skus (emit a b c u p d) = skus d" "quotes (emit a b c u p d) = quotes d"
  "quote_lines (emit a b c u p d) = quote_lines d" "pricing_rules (emit a b c u p d) = pricing_rules d"
  "extractions (emit a b c u p d) = extractions d" "clock (emit a b c u p d) = clock d"
  "candidates (emit a b c u p d) = candidates d" "attachments (emit a b c u p d) = attachments d" "clarifications (emit a b c u p d) = clarifications d"
  "tool_calls (emit a b c u p d) = tool_calls d" "iva_rates (emit a b c u p d) = iva_rates d"
  "emit None b c u p d = d"
  "events (emit (Some i) b c u p d) = events d @ [\<lparr>ev_org_id = Some i, ev_request_id = b, ev_quote_id = c,
     ev_user_id = u, payload = p, ev_created_at = clock d\<rparr>]"
  by (simp_all add: emit_def)

lemma emitStageError_events:
  "map payload (events (emitStageError a b s e d)) =
     map payload (events d) @ (if stage_error_recorded b s e d then [] else [Ev_Stage_Error s e])"
  by (simp add: emitStageError_def)

lemma emitStageError_simps [simp, row_simps]:
  "requests (emitStageError a b s e d) = requests d" "line_items (emitStageError a b s e d) = line_items d"
  "skus (emitStageError a b s e d) = skus d" "quotes (emitStageError a b s e d) = quotes d"
  "quote_lines (emitStageError a b s e d) = quote_lines d" "pricing_rules (emitStageError a b s e d) = pricing_rules d"
  "extractions (emitStageError a b s e d) = extractions d" "clock (emitStageError a b s e d) = clock d"
  "candidates (emitStageError a b s e d) = candidates d" "attachments (emitStageError a b s e d) = attachments d" "clarifications (emitStageError a b s e d) = clarifications d"
  "tool_calls (emitStageError a b s e d) = tool_calls d" "iva_rates (emitStageError a b s e d) = iva_rates d"
  by (simp_all add: emitStageError_def)

lemma update_line_simps [simp, row_simps]:
  "requests (update_line i f d) = requests d" "skus (update_line i f d) = skus d"
  "quotes (update_line i f d) = quotes d" "quote_lines (update_line i f d) = quote_lines d"
  "pricing_rules (update_line i f d) = pricing_rules d" "events (update_line i f d) = events d"
  "extractions (update_line i f d) = extractions d" "clock (update_line i f d) = clock d"
  "candidates (update_line i f d) = candidates d" "attachments (update_line i f d) = attachments d" "clarifications (update_line i f d) = clarifications d"
  "tool_calls (update_line i f d) = tool_calls d" "iva_rates (update_line i f d) = iva_rates d"
  "line_items (update_line i f d) = update_where (\<lambda>l. li_id l = i) f (line_items d)"
  by (simp_all add: update_line_def)

lemma find_request_Some: "find_request i d = Some r \<Longrightarrow> r_id r = i \<and> r \<in> set (requests d)"
  by (auto simp: find_request_def dest: find_Some_set)

lemma find_request_cong: "requests d = requests e \<Longrightarrow> find_request i d = find_request i e"
  by (simp add: find_request_def)

lemma matched_sku_cong: "skus d = skus e \<Longrightarrow> matched_sku d li = matched_sku e li"
  by (simp add: matched_sku_def find_sku_def split: option.splits)

end
