(* ===== verification/Quote_Pricing.thy ===== *)
theory Quote_Pricing
  imports Entities
begin

text \<open>
  Catalog pricing: the projection of an organisation's \<open>pricing_rules\<close> rows into the rule set
  (\<open>pricing-rule.model-action.ts\<close>) and the pure pricing of matched lines
  (\<open>quote-pricing.service.ts\<close>), with the bounds the amounts satisfy.
\<close>

section \<open>Inputs and results\<close>

record pricing_line_input =
  pi_lineItemId :: uuid
  pi_skuId :: uuid
  pi_position :: int
  pi_description :: string
  pi_quantity :: rat
  basePriceMinor :: int
  pi_leadTimeDays :: "int option"

record quantity_break_rule =
  minQty :: int
  discountPct :: rat

record pricing_rule_set =
  quantityBreaks :: "quantity_break_rule list"
  hasAnyRules :: bool

record priced_line =
  lineItemId :: uuid
  skuId :: uuid
  position :: int
  description :: string
  quantity :: rat
  unitPriceMinor :: int
  amountMinor :: int
  baseAmountMinor :: int
  appliedDiscountPct :: rat
  leadTimeDays :: "int option"

record priced_quote =
  pq_lines :: "priced_line list"
  pq_subtotalMinor :: int
  pq_discountMinor :: int
  pq_totalMinor :: int
  pq_leadTimeDays :: "int option"
  pq_blocked :: bool

section \<open>The rule set of an organisation\<close>

text \<open>Active rows of one vertical, ordered by \<open>sort_order\<close>.\<close>

definition getActiveForOrg :: "uuid \<Rightarrow> vertical \<Rightarrow> db \<Rightarrow> pricing_rule list" where
  "getActiveForOrg orgId v d =
     sort_key sort_order
       (filter (\<lambda>r. pr_org_id r = orgId \<and> pr_active r \<and> pr_vertical r = Some v) (pricing_rules d))"

definition QtyBreakConfigSchema :: "quantity_break_rule schema" where
  "QtyBreakConfigSchema v = do {
     ob \<leftarrow> z_object v;
     q \<leftarrow> z_positive_int (field ''min_qty'' ob);
     p \<leftarrow> z_percentage (field ''discount_pct'' ob);
     Some \<lparr>minQty = q, discountPct = p\<rparr>
   }"

fun project_breaks :: "pricing_rule list \<Rightarrow> quantity_break_rule list" where
  "project_breaks [] = []"
| "project_breaks (r # rs) =
     (if rule_type r \<noteq> Qty_Break then project_breaks rs
      else (case QtyBreakConfigSchema (Some (config r)) of
              Some b \<Rightarrow> b # project_breaks rs
            | None \<Rightarrow> project_breaks rs))"

definition getRuleSetForOrg :: "uuid \<Rightarrow> db \<Rightarrow> pricing_rule_set" where
  "getRuleSetForOrg orgId d =
     (let breaks = project_breaks (filter (\<lambda>r. pr_org_id r = orgId \<and> pr_active r) (pricing_rules d))
      in \<lparr>quantityBreaks = breaks, hasAnyRules = 0 < length breaks\<rparr>)"

section \<open>Pricing\<close>

definition best_discount :: "rat \<Rightarrow> quantity_break_rule list \<Rightarrow> rat" where
  "best_discount qty breaks =
     foldl (\<lambda>m b. max m (discountPct b)) 0 (filter (\<lambda>b. of_int (minQty b) \<le> qty) breaks)"

definition priceLine :: "pricing_line_input \<Rightarrow> quantity_break_rule list \<Rightarrow> priced_line" where
  "priceLine l breaks =
     (let d = best_discount (pi_quantity l) breaks;
          base = js_round (of_int (basePriceMinor l) * pi_quantity l);
          unit = js_round (of_int (basePriceMinor l) * (100 - d) / 100);
          amount = js_round (of_int base * (100 - d) / 100)
      in \<lparr>lineItemId = pi_lineItemId l, skuId = pi_skuId l, position = pi_position l,
          description = pi_description l, quantity = pi_quantity l, unitPriceMinor = unit,
          amountMinor = amount, baseAmountMinor = base, appliedDiscountPct = d,
          leadTimeDays = pi_leadTimeDays l\<rparr>)"

definition known_lead_times :: "priced_line list \<Rightarrow> int list" where
  "known_lead_times ls = List.map_filter leadTimeDays ls"

definition maxLeadTime :: "priced_line list \<Rightarrow> int option" where
  "maxLeadTime ls = max_or_null (known_lead_times ls)"

definition priceQuote :: "pricing_line_input list \<Rightarrow> pricing_rule_set \<Rightarrow> priced_quote" where
  "priceQuote ls rules =
     (let breaks = sort_key minQty (quantityBreaks rules);
          priced = map (\<lambda>l. priceLine l breaks) ls;
          subtotal = (\<Sum>l\<leftarrow>priced. baseAmountMinor l);
          total = (\<Sum>l\<leftarrow>priced. amountMinor l)
      in \<lparr>pq_lines = priced, pq_subtotalMinor = subtotal, pq_discountMinor = subtotal - total,
          pq_totalMinor = total, pq_leadTimeDays = maxLeadTime priced,
          pq_blocked = (0 < length ls \<and> \<not> hasAnyRules rules)\<rparr>)"

section \<open>Facts\<close>

definition valid_breaks :: "quantity_break_rule list \<Rightarrow> bool" where
  "valid_breaks bs \<longleftrightarrow> (\<forall>b \<in> set bs. 1 \<le> minQty b \<and> 0 \<le> discountPct b \<and> discountPct b \<le> 100)"

lemma project_breaks_valid: "valid_breaks (project_breaks rs)"
  by (induction rs)
    (auto simp: valid_breaks_def QtyBreakConfigSchema_def schema_simps bind_eq_Some_conv
      split: option.splits if_splits)

lemma foldl_max_Max: "foldl (\<lambda>m b. max m (f b)) (a :: 'b :: linorder) bs = Max (insert a (f ` set bs))"
proof (induction bs arbitrary: a)
  case (Cons b bs)
  then show ?case by (cases "bs = []") (simp_all add: max.assoc insert_commute max.left_commute)
qed simp

lemma best_discount_Max:
  "best_discount q bs = Max (insert 0 (discountPct ` {b \<in> set bs. of_int (minQty b) \<le> q}))"
  by (simp add: best_discount_def foldl_max_Max)

lemma best_discount_nonneg: "0 \<le> best_discount q bs"
  by (simp add: best_discount_Max)

lemma best_discount_le_100: "valid_breaks bs \<Longrightarrow> best_discount q bs \<le> 100"
  by (auto simp: best_discount_Max valid_breaks_def)

lemma best_discount_mono: "q \<le> q' \<Longrightarrow> best_discount q bs \<le> best_discount q' bs"
  unfolding best_discount_Max by (intro Max_mono) auto

lemma best_discount_cong: "set bs = set bs' \<Longrightarrow> best_discount q bs = best_discount q bs'"
  by (simp add: best_discount_Max)

lemma valid_breaks_sort [simp]: "valid_breaks (sort_key f bs) = valid_breaks bs"
  by (simp add: valid_breaks_def)

lemma discounted_le: "0 \<le> d \<Longrightarrow> 0 \<le> (b :: int) \<Longrightarrow> of_int b * (100 - d) / 100 \<le> (of_int b :: rat)"
  by (simp add: field_simps)

lemma priceLine_bounds:
  assumes "valid_breaks bs" "0 \<le> basePriceMinor l" "0 \<le> pi_quantity l"
  shows "0 \<le> amountMinor (priceLine l bs)"
    and "amountMinor (priceLine l bs) \<le> baseAmountMinor (priceLine l bs)"
    and "0 \<le> unitPriceMinor (priceLine l bs)" "unitPriceMinor (priceLine l bs) \<le> basePriceMinor l"
proof -
  let ?d = "best_discount (pi_quantity l) bs"
  let ?b = "js_round (of_int (basePriceMinor l) * pi_quantity l)"
  have d: "0 \<le> ?d" "?d \<le> 100" using best_discount_nonneg best_discount_le_100 [OF assms(1)] by auto
  have b: "0 \<le> ?b" using assms by (intro js_round_nonneg) simp
  show "amountMinor (priceLine l bs) \<le> baseAmountMinor (priceLine l bs)"
    using discounted_le [OF d(1) b] by (simp add: priceLine_def Let_def js_round_le_of_int)
  show "0 \<le> amountMinor (priceLine l bs)" "0 \<le> unitPriceMinor (priceLine l bs)"
    using b d assms by (auto simp: priceLine_def Let_def intro!: js_round_nonneg)
  show "unitPriceMinor (priceLine l bs) \<le> basePriceMinor l"
    using discounted_le [OF d(1) assms(2)] by (simp add: priceLine_def Let_def js_round_le_of_int)
qed

lemma priceQuote_lines: "pq_lines (priceQuote ls rules) =
    map (\<lambda>l. priceLine l (sort_key minQty (quantityBreaks rules))) ls"
  by (simp add: priceQuote_def Let_def)

lemma priceQuote_lineItemIds [simp]: "map lineItemId (pq_lines (priceQuote ls rules)) = map pi_lineItemId ls"
  by (simp add: priceQuote_lines priceLine_def Let_def comp_def)

section \<open>Properties\<close>

text \<open>
  Totals of a catalog quote: with a rule set read from the database and non-negative prices and
  quantities, the total is the sum of the line amounts, the discount is what separates it from the
  sum of the undiscounted amounts, and \<open>0 \<le> total \<le> subtotal\<close>, so a quantity break never raises a
  price.
\<close>

theorem priceQuote_totals:
  assumes "rules = getRuleSetForOrg orgId d"
    and "\<forall>l \<in> set ls. 0 \<le> basePriceMinor l \<and> 0 \<le> pi_quantity l"
    and "q = priceQuote ls rules"
  shows "pq_totalMinor q = (\<Sum>l\<leftarrow>pq_lines q. amountMinor l) \<and>
    pq_subtotalMinor q = (\<Sum>l\<leftarrow>pq_lines q. baseAmountMinor l) \<and>
    pq_subtotalMinor q - pq_discountMinor q = pq_totalMinor q \<and>
    0 \<le> pq_totalMinor q \<and> pq_totalMinor q \<le> pq_subtotalMinor q \<and> 0 \<le> pq_discountMinor q"
proof -
  let ?bs = "sort_key minQty (quantityBreaks rules)"
  have v: "valid_breaks ?bs"
    using assms(1) by (simp add: getRuleSetForOrg_def Let_def project_breaks_valid)
  have l: "0 \<le> amountMinor (priceLine l ?bs) \<and> amountMinor (priceLine l ?bs) \<le> baseAmountMinor (priceLine l ?bs)"
    if "l \<in> set ls" for l
    using priceLine_bounds [OF v] assms(2) that by blast
  have "0 \<le> (\<Sum>l\<leftarrow>map (\<lambda>l. priceLine l ?bs) ls. amountMinor l)"
    by (intro sum_list_nonneg) (auto simp: l)
  moreover have "(\<Sum>l\<leftarrow>map (\<lambda>l. priceLine l ?bs) ls. amountMinor l) \<le>
      (\<Sum>l\<leftarrow>map (\<lambda>l. priceLine l ?bs) ls. baseAmountMinor l)"
    by (intro sum_list_mono) (auto simp: l)
  ultimately show ?thesis using assms(3) by (simp add: priceQuote_def Let_def)
qed

definition demo_qty_rule :: "int \<Rightarrow> rat \<Rightarrow> pricing_rule" where
  "demo_qty_rule q p = \<lparr>pr_org_id = ''org'', rule_type = Qty_Break, pr_vertical = None, rule_key = None,
     sort_order = 0, config = JObj [(''min_qty'', JNum (of_int q)), (''discount_pct'', JNum p)],
     pr_active = True\<rparr>"

definition demo_input :: "int \<Rightarrow> rat \<Rightarrow> pricing_line_input" where
  "demo_input p q = \<lparr>pi_lineItemId = ''l1'', pi_skuId = ''s1'', pi_position = 1,
     pi_description = ''widget'', pi_quantity = q, basePriceMinor = p, pi_leadTimeDays = Some 3\<rparr>"

theorem priceQuote_totals_witness:
  "let d = empty_db\<lparr>pricing_rules := [demo_qty_rule 10 5]\<rparr>;
       q = priceQuote [demo_input 199 12] (getRuleSetForOrg ''org'' d)
   in pq_totalMinor q = 2269 \<and> pq_subtotalMinor q - pq_discountMinor q = pq_totalMinor q"
proof -
  let ?d = "empty_db\<lparr>pricing_rules := [demo_qty_rule 10 5]\<rparr>"
  let ?q = "priceQuote [demo_input 199 12] (getRuleSetForOrg ''org'' ?d)"
  have "pq_totalMinor ?q = 2269"
    by (simp add: getRuleSetForOrg_def demo_qty_rule_def demo_input_def QtyBreakConfigSchema_def
        z_positive_int_def z_int_def z_refine_def z_percentage_def field_def is_integer_def
        priceQuote_def priceLine_def best_discount_def js_round_def Let_def)
  with priceQuote_totals [OF refl _ refl, of "[demo_input 199 12]" "''org''" ?d] show ?thesis
    by (simp add: demo_input_def Let_def)
qed

text \<open>
  The discount of a line is the largest percentage among the breaks whose (inclusive) minimum
  the quantity reaches, and zero when it reaches none; so it does not depend on the order of the
  rows, and buying more never lowers it.
\<close>

theorem priceLine_best_break:
  assumes "q = priceQuote ls rules" and "i < length ls"
  shows "appliedDiscountPct (pq_lines q ! i) =
      Max (insert 0 (discountPct ` {b \<in> set (quantityBreaks rules). of_int (minQty b) \<le> pi_quantity (ls ! i)})) \<and>
    (mset (quantityBreaks rules') = mset (quantityBreaks rules) \<longrightarrow>
      hasAnyRules rules' = hasAnyRules rules \<longrightarrow> priceQuote ls rules' = priceQuote ls rules) \<and>
    (pi_quantity l \<le> pi_quantity l' \<longrightarrow>
      appliedDiscountPct (priceLine l bs) \<le> appliedDiscountPct (priceLine l' bs))"
proof (intro conjI impI)
  show "appliedDiscountPct (pq_lines q ! i) =
      Max (insert 0 (discountPct ` {b \<in> set (quantityBreaks rules). of_int (minQty b) \<le> pi_quantity (ls ! i)}))"
    using assms by (simp add: priceQuote_lines priceLine_def Let_def best_discount_Max)
next
  assume m: "mset (quantityBreaks rules') = mset (quantityBreaks rules)"
    and "hasAnyRules rules' = hasAnyRules rules"
  moreover have "priceLine l (sort_key minQty (quantityBreaks rules')) =
      priceLine l (sort_key minQty (quantityBreaks rules))" for l
    using best_discount_cong [of "sort_key minQty (quantityBreaks rules')" "sort_key minQty (quantityBreaks rules)"]
      mset_eq_setD [OF m] by (simp add: priceLine_def Let_def)
  ultimately show "priceQuote ls rules' = priceQuote ls rules" by (simp add: priceQuote_def Let_def)
next
  assume "pi_quantity l \<le> pi_quantity l'"
  then show "appliedDiscountPct (priceLine l bs) \<le> appliedDiscountPct (priceLine l' bs)"
    by (simp add: priceLine_def Let_def best_discount_mono)
qed

theorem priceLine_best_break_witness:
  "let rules = \<lparr>quantityBreaks = [\<lparr>minQty = 10, discountPct = 5\<rparr>, \<lparr>minQty = 20, discountPct = 8\<rparr>], hasAnyRules = True\<rparr>;
       q = priceQuote [demo_input 199 15] rules
   in appliedDiscountPct (pq_lines q ! 0) = 5 \<and>
      priceQuote [demo_input 199 15] (rules\<lparr>quantityBreaks := rev (quantityBreaks rules)\<rparr>) = q \<and>
      appliedDiscountPct (priceLine (demo_input 199 15) (quantityBreaks rules)) \<le>
        appliedDiscountPct (priceLine (demo_input 199 25) (quantityBreaks rules))"
proof -
  let ?rules = "\<lparr>quantityBreaks = [\<lparr>minQty = 10, discountPct = 5\<rparr>, \<lparr>minQty = 20, discountPct = 8\<rparr>], hasAnyRules = True\<rparr>"
  have i: "0 < length [demo_input 199 15]" by simp
  have set: "{b \<in> set (quantityBreaks ?rules). of_int (minQty b) \<le> pi_quantity ([demo_input 199 15] ! 0)}
      = {\<lparr>minQty = 10, discountPct = 5\<rparr>}"
    by (auto simp: demo_input_def)
  show ?thesis
    using priceLine_best_break [OF refl i, where rules = ?rules
        and rules' = "?rules\<lparr>quantityBreaks := rev (quantityBreaks ?rules)\<rparr>"
        and l = "demo_input 199 15" and l' = "demo_input 199 25" and bs = "quantityBreaks ?rules"]
    unfolding set by (simp add: Let_def demo_input_def)
qed

text \<open>
  Rounding: the charged amount of a line differs from the exact discounted product by at most
  one minor unit, however large the quantity, because the extended total is discounted before it is
  rounded.
\<close>

theorem priceLine_rounding:
  assumes "valid_breaks bs"
  shows "\<bar>of_int (amountMinor (priceLine l bs)) -
      of_int (basePriceMinor l) * pi_quantity l * (100 - appliedDiscountPct (priceLine l bs)) / 100\<bar> \<le> 1"
proof -
  let ?d = "best_discount (pi_quantity l) bs"
  let ?x = "of_int (basePriceMinor l) * pi_quantity l"
  let ?b = "of_int (js_round ?x) :: rat"
  let ?k = "(100 - ?d) / 100"
  have k: "0 \<le> ?k" "?k \<le> 1" using best_discount_nonneg best_discount_le_100 [OF assms] by auto
  have 1: "\<bar>of_int (js_round (?b * ?k)) - ?b * ?k\<bar> \<le> 1 / 2" by (rule js_round_error)
  have "\<bar>?b * ?k - ?x * ?k\<bar> = \<bar>?b - ?x\<bar> * ?k" 
    by (simp only: left_diff_distrib [symmetric] abs_mult abs_of_nonneg [OF k(1)])
  also have "\<dots> \<le> 1 / 2 * 1" using js_round_error [of ?x] k by (intro mult_mono) auto
  finally have "\<bar>of_int (js_round (?b * ?k)) - ?x * ?k\<bar> \<le> 1" using 1 by linarith
  then show ?thesis by (simp add: priceLine_def Let_def)
qed

theorem priceLine_rounding_witness:
  "\<bar>of_int (amountMinor (priceLine (demo_input 333 (7 / 2)) [\<lparr>minQty = 1, discountPct = 15\<rparr>])) -
      333 * (7 / 2) * (100 - 15) / 100\<bar> \<le> (1 :: rat)"
proof -
  have "appliedDiscountPct (priceLine (demo_input 333 (7 / 2)) [\<lparr>minQty = 1, discountPct = 15\<rparr>]) = 15"
    by (simp add: priceLine_def Let_def best_discount_def demo_input_def)
  with priceLine_rounding [of "[\<lparr>minQty = 1, discountPct = 15\<rparr>]" "demo_input 333 (7 / 2)"]
  show ?thesis by (simp add: valid_breaks_def demo_input_def)
qed

end
