(* ===== verification/Extraction_Schema.thy ===== *)
theory Extraction_Schema
  imports Entities
begin

text \<open>
  The extraction schemas of \<open>extraction/schemas/extraction-v1.schema.ts\<close>: what the language model's
  structured output must look like before any node reads it. The syntax check of an e-mail address
  (\<open>z.string().email()\<close>) is library code and a parameter of the schemas.
\<close>

record customer =
  cu_name :: "string option"
  cu_email :: "string option"
  cu_phone :: "string option"
  cu_address :: "string option"

record avac_area =
  room :: string
  area_m2 :: "rat option"

record avac_facts =
  system_type :: "string option"
  brand_preference :: "string option"
  areas :: "avac_area list"
  indoor_units_requested :: "int option"
  pipe_length_m :: "rat option"
  install_height_m :: "rat option"
  wall_type :: "string option"
  outdoor_unit_distance_m :: "rat option"
  needs_electrical_panel :: "bool option"
  av_distance_km :: "rat option"
  install_type :: "string option"
  av_notes :: string

datatype opening_type = Fixo | Batente | Oscilo_Batente | Correr

record caix_opening =
  op_ref :: string
  location :: "string option"
  width_mm :: "int option"
  height_mm :: "int option"
  op_type :: "opening_type option"
  profile_preference :: "string option"
  glass_preference :: "string option"
  finish :: "string option"
  hardware :: "string option"
  blind :: "bool option"
  insect_screen :: "bool option"
  op_quantity :: int

record caixilharia_facts =
  openings :: "caix_opening list"
  remove_existing :: "bool option"
  floor_no :: "int option"
  cx_distance_km :: "rat option"
  cx_notes :: string

record 'facts vertical_extraction =
  customer :: customer
  facts :: 'facts
  missing_info :: "string list"
  confidence :: string

type_synonym avac_extraction = "avac_facts vertical_extraction"
type_synonym caixilharia_extraction = "caixilharia_facts vertical_extraction"

definition opening_type_options :: "(string \<times> opening_type) list" where
  "opening_type_options = [(''fixo'', Fixo), (''batente'', Batente),
     (''oscilo-batente'', Oscilo_Batente), (''correr'', Correr)]"

definition opening_type_text :: "opening_type \<Rightarrow> string" where
  "opening_type_text t = (case t of Fixo \<Rightarrow> ''fixo'' | Batente \<Rightarrow> ''batente''
     | Oscilo_Batente \<Rightarrow> ''oscilo-batente'' | Correr \<Rightarrow> ''correr'')"

definition OpeningTypeSchema :: "opening_type schema" where
  "OpeningTypeSchema = z_enum opening_type_options"

definition z_one_of :: "string list \<Rightarrow> string schema" where
  "z_one_of ss = z_enum (map (\<lambda>s. (s, s)) ss)"

definition CustomerSchema :: "(string \<Rightarrow> bool) \<Rightarrow> customer schema" where
  "CustomerSchema is_email v = do {
     ob \<leftarrow> z_object v;
     n \<leftarrow> z_nullable z_nonempty_string (field ''name'' ob);
     e \<leftarrow> z_nullable (z_refine z_string is_email) (field ''email'' ob);
     p \<leftarrow> z_nullable z_nonempty_string (field ''phone'' ob);
     a \<leftarrow> z_nullable z_nonempty_string (field ''address'' ob);
     Some \<lparr>cu_name = n, cu_email = e, cu_phone = p, cu_address = a\<rparr>
   }"

definition AvacAreaSchema :: "avac_area schema" where
  "AvacAreaSchema v = do {
     ob \<leftarrow> z_object v;
     r \<leftarrow> z_nonempty_string (field ''room'' ob);
     a \<leftarrow> z_nullable z_positive (field ''area_m2'' ob);
     Some \<lparr>room = r, area_m2 = a\<rparr>
   }"

definition AvacFactsSchema :: "avac_facts schema" where
  "AvacFactsSchema v = do {
     ob \<leftarrow> z_object v;
     st \<leftarrow> z_nullable (z_one_of [''mono-split'', ''multi-split'', ''vrv'']) (field ''system_type'' ob);
     bp \<leftarrow> z_nullable z_nonempty_string (field ''brand_preference'' ob);
     ar \<leftarrow> z_array AvacAreaSchema (field ''areas'' ob);
     iu \<leftarrow> z_nullable z_positive_int (field ''indoor_units_requested'' ob);
     pl \<leftarrow> z_nullable z_positive (field ''pipe_length_m'' ob);
     ih \<leftarrow> z_nullable z_positive (field ''install_height_m'' ob);
     wt \<leftarrow> z_nullable (z_one_of [''alvenaria'', ''betao'', ''pladur'']) (field ''wall_type'' ob);
     od \<leftarrow> z_nullable z_nonnegative (field ''outdoor_unit_distance_m'' ob);
     ep \<leftarrow> z_nullable z_boolean (field ''needs_electrical_panel'' ob);
     dk \<leftarrow> z_nullable z_nonnegative (field ''distance_km'' ob);
     it \<leftarrow> z_nullable (z_one_of [''standard'', ''complex'']) (field ''install_type'' ob);
     no \<leftarrow> z_string (field ''notes'' ob);
     Some \<lparr>system_type = st, brand_preference = bp, areas = ar, indoor_units_requested = iu,
       pipe_length_m = pl, install_height_m = ih, wall_type = wt, outdoor_unit_distance_m = od,
       needs_electrical_panel = ep, av_distance_km = dk, install_type = it, av_notes = no\<rparr>
   }"

definition confidence_schema :: "string schema" where
  "confidence_schema = z_one_of [''high'', ''medium'', ''low'']"

definition AvacExtractionV1Schema :: "(string \<Rightarrow> bool) \<Rightarrow> avac_extraction schema" where
  "AvacExtractionV1Schema is_email v = do {
     ob \<leftarrow> z_object v;
     z_literal ''avac'' (field ''vertical'' ob);
     cu \<leftarrow> CustomerSchema is_email (field ''customer'' ob);
     fs \<leftarrow> AvacFactsSchema (field ''avac'' ob);
     mi \<leftarrow> z_array z_string (field ''missing_info'' ob);
     co \<leftarrow> confidence_schema (field ''confidence'' ob);
     Some \<lparr>customer = cu, facts = fs, missing_info = mi, confidence = co\<rparr>
   }"

definition CaixilhariaOpeningSchema :: "caix_opening schema" where
  "CaixilhariaOpeningSchema v = do {
     ob \<leftarrow> z_object v;
     re \<leftarrow> z_nonempty_string (field ''ref'' ob);
     lo \<leftarrow> z_nullable z_nonempty_string (field ''location'' ob);
     wi \<leftarrow> z_nullable z_positive_int (field ''width_mm'' ob);
     he \<leftarrow> z_nullable z_positive_int (field ''height_mm'' ob);
     ot \<leftarrow> z_nullable OpeningTypeSchema (field ''opening_type'' ob);
     pp \<leftarrow> z_nullable z_nonempty_string (field ''profile_preference'' ob);
     gp \<leftarrow> z_nullable z_nonempty_string (field ''glass_preference'' ob);
     fi \<leftarrow> z_nullable z_nonempty_string (field ''finish'' ob);
     ha \<leftarrow> z_nullable z_nonempty_string (field ''hardware'' ob);
     bl \<leftarrow> z_nullable z_boolean (field ''blind'' ob);
     sc \<leftarrow> z_nullable z_boolean (field ''insect_screen'' ob);
     qu \<leftarrow> z_positive_int (field ''quantity'' ob);
     Some \<lparr>op_ref = re, location = lo, width_mm = wi, height_mm = he, op_type = ot,
       profile_preference = pp, glass_preference = gp, finish = fi, hardware = ha, blind = bl,
       insect_screen = sc, op_quantity = qu\<rparr>
   }"

definition CaixilhariaExtractionV1Schema :: "(string \<Rightarrow> bool) \<Rightarrow> caixilharia_extraction schema" where
  "CaixilhariaExtractionV1Schema is_email v = do {
     ob \<leftarrow> z_object v;
     z_literal ''caixilharia'' (field ''vertical'' ob);
     cu \<leftarrow> CustomerSchema is_email (field ''customer'' ob);
     cx \<leftarrow> z_object (field ''caixilharia'' ob);
     os \<leftarrow> z_refine (z_array CaixilhariaOpeningSchema) (\<lambda>xs. xs \<noteq> []) (field ''openings'' cx);
     rm \<leftarrow> z_nullable z_boolean (field ''remove_existing'' cx);
     fl \<leftarrow> z_nullable z_nonneg_int (field ''floor'' cx);
     dk \<leftarrow> z_nullable z_nonnegative (field ''distance_km'' cx);
     no \<leftarrow> z_string (field ''notes'' cx);
     mi \<leftarrow> z_array z_string (field ''missing_info'' ob);
     co \<leftarrow> confidence_schema (field ''confidence'' ob);
     Some \<lparr>customer = cu, facts = \<lparr>openings = os, remove_existing = rm, floor_no = fl,
       cx_distance_km = dk, cx_notes = no\<rparr>, missing_info = mi, confidence = co\<rparr>
   }"

section \<open>What an accepted extraction guarantees\<close>

definition valid_avac_facts :: "avac_facts \<Rightarrow> bool" where
  "valid_avac_facts f \<longleftrightarrow>
     (\<forall>n. indoor_units_requested f = Some n \<longrightarrow> 0 < n) \<and>
     (\<forall>x. pipe_length_m f = Some x \<longrightarrow> 0 < x) \<and>
     (\<forall>x. install_height_m f = Some x \<longrightarrow> 0 < x) \<and>
     (\<forall>x. outdoor_unit_distance_m f = Some x \<longrightarrow> 0 \<le> x) \<and>
     (\<forall>x. av_distance_km f = Some x \<longrightarrow> 0 \<le> x)"

definition valid_opening :: "caix_opening \<Rightarrow> bool" where
  "valid_opening p \<longleftrightarrow> 0 < op_quantity p \<and> op_ref p \<noteq> [] \<and>
     (\<forall>w. width_mm p = Some w \<longrightarrow> 0 < w) \<and> (\<forall>h. height_mm p = Some h \<longrightarrow> 0 < h)"

definition valid_caixilharia_facts :: "caixilharia_facts \<Rightarrow> bool" where
  "valid_caixilharia_facts f \<longleftrightarrow> openings f \<noteq> [] \<and> (\<forall>p \<in> set (openings f). valid_opening p) \<and>
     (\<forall>x. cx_distance_km f = Some x \<longrightarrow> 0 \<le> x)"

lemma z_nullable_Some: "z_nullable s v = Some (Some x) \<Longrightarrow> s v = Some x"
  by (auto simp: z_nullable_def split: if_splits)

lemma AvacFactsSchema_valid: "AvacFactsSchema v = Some f \<Longrightarrow> valid_avac_facts f"
  by (auto simp: AvacFactsSchema_def bind_eq_Some_conv valid_avac_facts_def schema_simps
      dest!: z_nullable_Some)

lemma AvacExtraction_valid: "AvacExtractionV1Schema is_email v = Some e \<Longrightarrow> valid_avac_facts (facts e)"
  by (auto simp: AvacExtractionV1Schema_def bind_eq_Some_conv dest: AvacFactsSchema_valid)

lemma CaixilhariaOpening_valid: "CaixilhariaOpeningSchema v = Some p \<Longrightarrow> valid_opening p"
  by (auto simp: CaixilhariaOpeningSchema_def bind_eq_Some_conv valid_opening_def schema_simps
      dest!: z_nullable_Some)

lemma z_array_Some: "z_array s v = Some xs \<Longrightarrow> x \<in> set xs \<Longrightarrow> \<exists>j. s (Some j) = Some x"
  by (cases "(s, v)" rule: z_array.cases) (auto dest: those_map_Some)

lemma CaixilhariaOpenings_valid:
  "z_array CaixilhariaOpeningSchema v = Some os \<Longrightarrow> \<forall>p \<in> set os. valid_opening p"
  by (metis z_array_Some CaixilhariaOpening_valid)

lemma CaixilhariaExtraction_valid:
  assumes "CaixilhariaExtractionV1Schema is_email v = Some e"
  shows "valid_caixilharia_facts (facts e)"
  using assms
  by (auto simp: CaixilhariaExtractionV1Schema_def bind_eq_Some_conv valid_caixilharia_facts_def
      z_refine_Some z_nonnegative_Some dest!: z_nullable_Some dest: CaixilhariaOpenings_valid)

end
