(* ===== verification/Vertical_Lines.thy ===== *)
theory Vertical_Lines
  imports Quote_Pricing Extraction_Schema
begin

text \<open>
  What the two vertical pricing engines (\<open>avac-pricing.engine.ts\<close>,
  \<open>caixilharia-pricing.engine.ts\<close>) share: quote lines, the accumulator of lines, missing rules and
  the running position, rule lookup and the catalog index. An amount is a rational: nothing in the
  engines forces an integer except where they call \<open>Math.round\<close>.
\<close>

section \<open>Lines and the accumulator\<close>

record vline =
  vl_skuId :: "uuid option"
  vl_description :: string
  vl_quantity :: rat
  vl_unitPriceMinor :: int
  vl_amountMinor :: rat
  vl_position :: int
  vl_kind :: line_kind

record pricing_acc =
  acc_lines :: "vline list"
  acc_missing :: "string list"
  acc_position :: int

record vertical_quote =
  vq_lines :: "vline list"
  vq_subtotalMinor :: rat
  vq_discountMinor :: int
  vq_taxMinor :: int
  vq_totalMinor :: rat
  vq_leadTimeDays :: "int option"
  vq_currency :: string
  vq_blocked :: bool
  vq_missingRules :: "string list"

definition start_acc :: pricing_acc where
  "start_acc = \<lparr>acc_lines = [], acc_missing = [], acc_position = 1\<rparr>"

text \<open>\<open>lines.push({\<dots>, position: position++, \<dots>})\<close> and \<open>missingRules.push(m)\<close>.\<close>

definition push_line :: "(int \<Rightarrow> vline) \<Rightarrow> pricing_acc \<Rightarrow> pricing_acc" where
  "push_line mk a = a\<lparr>acc_lines := acc_lines a @ [mk (acc_position a)], acc_position := acc_position a + 1\<rparr>"

definition miss :: "string \<Rightarrow> pricing_acc \<Rightarrow> pricing_acc" where
  "miss m a = a\<lparr>acc_missing := acc_missing a @ [m]\<rparr>"

definition miss_if :: "bool \<Rightarrow> string \<Rightarrow> pricing_acc \<Rightarrow> pricing_acc" where
  "miss_if b m a = (if b then miss m a else a)"

definition sum_amounts :: "vline list \<Rightarrow> rat" where
  "sum_amounts ls = (\<Sum>l\<leftarrow>ls. vl_amountMinor l)"

definition fixedLine :: "string \<Rightarrow> int \<Rightarrow> line_kind \<Rightarrow> int \<Rightarrow> vline" where
  "fixedLine desc amount kind pos =
     \<lparr>vl_skuId = None, vl_description = desc, vl_quantity = 1, vl_unitPriceMinor = amount,
      vl_amountMinor = of_int amount, vl_position = pos, vl_kind = kind\<rparr>"

definition catalogLine :: "sku \<Rightarrow> string \<Rightarrow> rat \<Rightarrow> line_kind \<Rightarrow> int \<Rightarrow> vline" where
  "catalogLine s desc qty kind pos =
     \<lparr>vl_skuId = Some (sku_id s), vl_description = desc, vl_quantity = qty,
      vl_unitPriceMinor = base_price_minor s, vl_amountMinor = of_int (base_price_minor s) * qty,
      vl_position = pos, vl_kind = kind\<rparr>"

text \<open>
  \<open>toLocaleString('pt-PT')\<close>, used for a fractional percentage only, is library code: \<open>fmt\<close>.
\<close>

definition formatPercentage :: "(rat \<Rightarrow> string) \<Rightarrow> rat \<Rightarrow> string" where
  "formatPercentage fmt v = (if is_integer v then int_text \<lfloor>v\<rfloor> else fmt v)"

section \<open>Rules and catalog\<close>

text \<open>The first rule row of a type (and, when given, of a role) whose config the schema accepts.\<close>

fun parsedRule :: "pricing_rule list \<Rightarrow> pricing_rule_type \<Rightarrow> 'a schema \<Rightarrow> string option \<Rightarrow> 'a option" where
  "parsedRule [] ty s role = None"
| "parsedRule (r # rs) ty s role =
     (if rule_type r \<noteq> ty then parsedRule rs ty s role
      else if role \<noteq> None \<and> field ''role'' (config r) \<noteq> map_option JStr role
      then parsedRule rs ty s role
      else (case s (Some (config r)) of Some x \<Rightarrow> Some x | None \<Rightarrow> parsedRule rs ty s role))"

definition rules_for :: "vertical \<Rightarrow> pricing_rule list \<Rightarrow> pricing_rule list" where
  "rules_for v all = sort_key sort_order (filter (\<lambda>r. pr_active r \<and> pr_vertical r = Some v) all)"

text \<open>\<open>new Map(\<dots>)\<close>: a later SKU with the same code replaces an earlier one.\<close>

definition sku_by_code :: "sku list \<Rightarrow> string \<Rightarrow> sku option" where
  "sku_by_code catalog code =
     find (\<lambda>s. sku_code s = code) (rev (filter sku_active catalog))"

definition relevant_skus :: "sku list \<Rightarrow> vline list \<Rightarrow> sku list" where
  "relevant_skus catalog ls =
     List.map_filter (\<lambda>l. case vl_skuId l of None \<Rightarrow> None | Some i \<Rightarrow> find (\<lambda>s. sku_id s = i) catalog) ls"

definition lead_times :: "sku list \<Rightarrow> int list" where
  "lead_times ss = List.map_filter sku_lead_time_days ss"

definition percentage_schema :: "rat schema" where
  "percentage_schema v = do { ob \<leftarrow> z_object v; z_percentage (field ''percentage'' ob) }"

definition component_kind_schema :: "line_kind schema" where
  "component_kind_schema = z_enum [(''material'', Material), (''labor'', Labor), (''consumable'', Consumable)]"

section \<open>Margin and tax\<close>

definition margin_stage :: "(rat \<Rightarrow> string) \<Rightarrow> rat \<Rightarrow> rat option \<Rightarrow> pricing_acc \<Rightarrow> pricing_acc" where
  "margin_stage fmt base margin a =
     (case margin of
        None \<Rightarrow> a
      | Some pct \<Rightarrow> push_line (fixedLine (''Margem comercial ('' @ formatPercentage fmt pct @ ''%)'')
          (js_round (base * pct / 100)) Margin_Line) a)"

definition tax_percentage :: "rat option \<Rightarrow> rat option \<Rightarrow> rat option" where
  "tax_percentage taxRate taxRule = (case taxRate of None \<Rightarrow> taxRule | Some r \<Rightarrow> Some (r * 100))"

definition tax_minor :: "rat \<Rightarrow> rat option \<Rightarrow> int" where
  "tax_minor taxable pct = (case pct of None \<Rightarrow> 0 | Some p \<Rightarrow> js_round (taxable * p / 100))"

definition tax_stage :: "(rat \<Rightarrow> string) \<Rightarrow> int \<Rightarrow> rat option \<Rightarrow> rat option \<Rightarrow> pricing_acc \<Rightarrow> pricing_acc" where
  "tax_stage fmt tax pct taxRule a =
     (case taxRule of
        None \<Rightarrow> a
      | Some _ \<Rightarrow> push_line (fixedLine
          (''IVA ('' @ formatPercentage fmt (case pct of Some p \<Rightarrow> p | None \<Rightarrow> 0) @ ''%)'') tax Tax_Line) a)"

section \<open>Facts\<close>

named_theorems acc_simps \<open>how the accumulator operations act on the fields\<close>

lemma push_line_fields [simp, acc_simps]:
  "acc_lines (push_line mk a) = acc_lines a @ [mk (acc_position a)]"
  "acc_missing (push_line mk a) = acc_missing a"
  "acc_position (push_line mk a) = acc_position a + 1"
  by (simp_all add: push_line_def)

lemma miss_fields [simp, acc_simps]:
  "acc_lines (miss m a) = acc_lines a" "acc_position (miss m a) = acc_position a"
  "acc_missing (miss m a) = acc_missing a @ [m]"
  by (simp_all add: miss_def)

lemma miss_if_fields [simp, acc_simps]:
  "acc_lines (miss_if b m a) = acc_lines a" "acc_position (miss_if b m a) = acc_position a"
  "acc_missing (miss_if b m a) = acc_missing a @ (if b then [m] else [])"
  by (simp_all add: miss_if_def)

lemma sum_amounts_append [simp]: "sum_amounts (xs @ ys) = sum_amounts xs + sum_amounts ys"
  by (simp add: sum_amounts_def)

lemma sum_amounts_single [simp]: "sum_amounts [l] = vl_amountMinor l" "sum_amounts [] = 0"
  by (simp_all add: sum_amounts_def)

lemma fixedLine_fields [simp]:
  "vl_amountMinor (fixedLine d a k p) = of_int a" "vl_position (fixedLine d a k p) = p"
  "vl_skuId (fixedLine d a k p) = None" "vl_kind (fixedLine d a k p) = k"
  "vl_quantity (fixedLine d a k p) = 1"
  by (simp_all add: fixedLine_def)

lemma catalogLine_fields [simp]:
  "vl_amountMinor (catalogLine s d q k p) = of_int (base_price_minor s) * q"
  "vl_position (catalogLine s d q k p) = p" "vl_skuId (catalogLine s d q k p) = Some (sku_id s)"
  "vl_kind (catalogLine s d q k p) = k" "vl_quantity (catalogLine s d q k p) = q"
  by (simp_all add: catalogLine_def)

text \<open>
  What every block of an engine does to the accumulator: it only appends; the appended lines are
  numbered consecutively from the current position and satisfy \<open>Q\<close>.
\<close>

definition extends :: "(vline \<Rightarrow> bool) \<Rightarrow> pricing_acc \<Rightarrow> pricing_acc \<Rightarrow> bool" where
  "extends Q a b \<longleftrightarrow> (\<exists>ls ms. acc_lines b = acc_lines a @ ls \<and> acc_missing b = acc_missing a @ ms \<and>
     (\<forall>l \<in> set ls. Q l) \<and> map vl_position ls = [acc_position a..acc_position a + int (length ls) - 1] \<and>
     acc_position b = acc_position a + int (length ls))"

lemma extends_refl [simp, intro]: "extends Q a a"
  by (simp add: extends_def)

lemma upto_split: "i \<le> j \<Longrightarrow> j \<le> k \<Longrightarrow> [i..j - 1] @ [j..k - 1] = [i..k - 1]"
  by (cases "j = k") (simp_all add: upto_split1 [symmetric])

lemma extends_trans [trans]: "extends Q a b \<Longrightarrow> extends Q b c \<Longrightarrow> extends Q a c"
  unfolding extends_def
  by (elim exE conjE, rename_tac ls ls' ms ms', rule_tac x = "ls @ ls'" in exI, rule_tac x = "ms @ ms'" in exI)
    (auto simp: upto_split add.assoc)

lemma extends_push [intro]:
  "(\<And>p. Q (mk p)) \<Longrightarrow> (\<And>p. vl_position (mk p) = p) \<Longrightarrow> extends Q a (push_line mk a)"
  by (simp add: extends_def)

lemma extends_miss [simp, intro]: "extends Q a (miss m a)"
  by (simp add: extends_def)

lemma extends_miss_if [simp, intro]: "extends Q a (miss_if b m a)"
  by (simp add: extends_def)

lemma extends_then_miss [intro]:
  "extends Q a b \<Longrightarrow> extends Q a (miss m b)" "extends Q a b \<Longrightarrow> extends Q a (miss_if c m b)"
  by (blast intro: extends_trans)+

lemma extends_mono: "extends Q a b \<Longrightarrow> (\<And>l. Q l \<Longrightarrow> R l) \<Longrightarrow> extends R a b"
  unfolding extends_def by blast

lemma extends_fold: "(\<And>x a. x \<in> set xs \<Longrightarrow> extends Q a (f x a)) \<Longrightarrow> extends Q a (fold f xs a)"
  by (induction xs arbitrary: a) (auto intro: extends_trans)

lemma extends_no_missing: "extends Q a b \<Longrightarrow> acc_missing b = [] \<Longrightarrow> acc_missing a = []"
  by (auto simp: extends_def)

lemma extends_startD:
  assumes "extends Q start_acc b"
  shows "map vl_position (acc_lines b) = [1..int (length (acc_lines b))]"
    and "acc_position b = 1 + int (length (acc_lines b))" and "l \<in> set (acc_lines b) \<Longrightarrow> Q l"
  using assms by (auto simp: extends_def start_acc_def)

text \<open>A sum over the lines of a kind is not changed by a block that adds no line of the kind.\<close>

definition kind_quantity :: "line_kind \<Rightarrow> vline list \<Rightarrow> rat" where
  "kind_quantity k ls = (\<Sum>l\<leftarrow>filter (\<lambda>l. vl_kind l = k) ls. vl_quantity l)"

lemma kind_quantity_simps [simp]:
  "kind_quantity k [] = 0"
  "kind_quantity k (l # ls) = (if vl_kind l = k then vl_quantity l else 0) + kind_quantity k ls"
  "kind_quantity k (ls @ ls') = kind_quantity k ls + kind_quantity k ls'"
  by (simp_all add: kind_quantity_def)

lemma extends_kind_quantity:
  assumes "extends (\<lambda>l. vl_kind l \<noteq> k) a b"
  shows "kind_quantity k (acc_lines b) = kind_quantity k (acc_lines a)"
proof -
  have "kind_quantity k ls = 0" if "\<forall>l \<in> set ls. vl_kind l \<noteq> k" for ls
    using that by (induction ls) auto
  with assms show ?thesis by (auto simp: extends_def)
qed

lemma margin_stage_extends:
  "(\<And>d n p. Q (fixedLine d n Margin_Line p)) \<Longrightarrow> extends Q a (margin_stage fmt base margin a)"
  by (auto simp: margin_stage_def split: option.splits)

lemma tax_stage_extends:
  "(\<And>d n p. Q (fixedLine d n Tax_Line p)) \<Longrightarrow> extends Q a (tax_stage fmt tax pct rule a)"
  by (auto simp: tax_stage_def split: option.splits)

lemma stage_missing [simp]:
  "acc_missing (margin_stage fmt base margin a) = acc_missing a"
  "acc_missing (tax_stage fmt tax pct rule a) = acc_missing a"
  by (simp_all add: margin_stage_def tax_stage_def split: option.splits)

lemma sum_amounts_tax_stage:
  "sum_amounts (acc_lines (tax_stage fmt tax pct rule a)) =
     sum_amounts (acc_lines a) + (if rule = None then 0 else of_int tax)"
  by (simp add: tax_stage_def split: option.splits)

lemma sum_amounts_margin_stage:
  "sum_amounts (acc_lines (margin_stage fmt base margin a)) =
     sum_amounts (acc_lines a) + (case margin of None \<Rightarrow> 0 | Some pct \<Rightarrow> of_int (js_round (base * pct / 100)))"
  by (simp add: margin_stage_def split: option.splits)

lemma parsedRule_Some:
  "parsedRule rs ty s role = Some x \<Longrightarrow>
   \<exists>r \<in> set rs. rule_type r = ty \<and> s (Some (config r)) = Some x \<and>
     (role \<noteq> None \<longrightarrow> field ''role'' (config r) = map_option JStr role)"
  by (induction rs) (auto split: if_splits option.splits)

lemma parsedRule_percentage:
  "parsedRule rs ty percentage_schema role = Some x \<Longrightarrow> 0 \<le> x \<and> x \<le> 100"
  by (auto dest!: parsedRule_Some simp: percentage_schema_def bind_eq_Some_conv schema_simps)

lemma sku_by_code_Some: "sku_by_code catalog c = Some s \<Longrightarrow> s \<in> set catalog \<and> sku_active s \<and> sku_code s = c"
  by (auto simp: sku_by_code_def dest: find_Some_set)

lemma relevant_skus_find:
  assumes "l \<in> set ls" and "vl_skuId l = Some i" and "\<exists>s \<in> set catalog. sku_id s = i"
  shows "\<exists>s \<in> set (relevant_skus catalog ls). find (\<lambda>s. sku_id s = i) catalog = Some s"
proof -
  obtain s where "find (\<lambda>s. sku_id s = i) catalog = Some s"
    using assms(3) by (cases "find (\<lambda>s. sku_id s = i) catalog") (auto simp: find_None_iff)
  with assms(1,2) show ?thesis
    by (auto simp: relevant_skus_def map_filter_def image_iff intro!: bexI [of _ l])
qed

lemma sort_key_unique:
  assumes "mset xs = mset ys" and "inj_on f (set xs)"
  shows "sort_key f xs = sort_key f ys"
  using sort_key_inj_key_eq [of xs "sort_key f ys" f] assms by simp

text \<open>Rows with pairwise different \<open>sort_order\<close> are used in that order however the database returns them.\<close>

lemma rules_for_perm:
  assumes "mset all' = mset all" and "inj_on sort_order (set all)"
  shows "rules_for v all' = rules_for v all"
proof -
  let ?P = "\<lambda>r. pr_active r \<and> pr_vertical r = Some v"
  have "mset (filter ?P all') = mset (filter ?P all)" using assms(1) by simp
  moreover have "inj_on sort_order (set (filter ?P all'))"
    using assms mset_eq_setD [OF assms(1)] by (auto intro: inj_on_subset)
  ultimately show ?thesis unfolding rules_for_def by (rule sort_key_unique)
qed

end
