(* ===== verification/Js_Text.thy ===== *)
theory Js_Text
  imports Prelude
begin

text \<open>
  The text functions of the language the program uses: \<open>Number(s)\<close> and \<open>String(x)\<close>, and regular
  expressions with the backtracking semantics of \<open>RegExp\<close> (leftmost match, greedy quantifiers, one capturing
  group), as far as the patterns of the program need them. Text is Latin-1: a character is a code point below 256.
\<close>

section \<open>Reading a number\<close>

text \<open>
  \<open>Number(s)\<close> on a trimmed, non-empty string: a signed decimal literal with an optional fraction and
  exponent, or an unsigned literal in base 2, 8 or 16. What is not a finite number is \<open>None\<close>.
\<close>

definition is_digit :: "char \<Rightarrow> bool" where
  "is_digit c \<longleftrightarrow> 48 \<le> (of_char c :: nat) \<and> (of_char c :: nat) \<le> 57"

definition digit_val :: "char \<Rightarrow> nat" where
  "digit_val c = (let n = of_char c :: nat in
     if 48 \<le> n \<and> n \<le> 57 then n - 48 else if 97 \<le> n \<and> n \<le> 102 then n - 87
     else if 65 \<le> n \<and> n \<le> 70 then n - 55 else 99)"

definition digits_val :: "int \<Rightarrow> string \<Rightarrow> int" where
  "digits_val base s = fold (\<lambda>c n. base * n + int (digit_val c)) s 0"

definition signed :: "string \<Rightarrow> int \<times> string" where
  "signed s = (case s of CHR ''-'' # r \<Rightarrow> (- 1, r) | CHR ''+'' # r \<Rightarrow> (1, r) | _ \<Rightarrow> (1, s))"

definition exponent :: "string \<Rightarrow> int option" where
  "exponent s =
     (case s of
        [] \<Rightarrow> Some 0
      | c # r \<Rightarrow> if c = CHR ''e'' \<or> c = CHR ''E'' then
                  (let (sg, ds) = signed r in
                   if ds \<noteq> [] \<and> list_all is_digit ds then Some (sg * digits_val 10 ds) else None)
                else None)"

definition pow10 :: "int \<Rightarrow> rat" where
  "pow10 e = (if 0 \<le> e then 10 ^ nat e else 1 / 10 ^ nat (- e))"

definition decimal :: "string \<Rightarrow> rat option" where
  "decimal s =
     (let (sg, r) = signed s;
          whole = takeWhile is_digit r; r = dropWhile is_digit r;
          (frac, r) = (case r of CHR ''.'' # t \<Rightarrow> (takeWhile is_digit t, dropWhile is_digit t) | _ \<Rightarrow> ([], r))
      in if whole = [] \<and> frac = [] then None
         else map_option (\<lambda>e. of_int sg * of_int (digits_val 10 (whole @ frac)) * pow10 (e - int (length frac)))
                (exponent r))"

definition radix :: "int \<Rightarrow> string \<Rightarrow> rat option" where
  "radix base ds =
     (if ds \<noteq> [] \<and> list_all (\<lambda>c. int (digit_val c) < base) ds then Some (of_int (digits_val base ds)) else None)"

definition js_number :: "string \<Rightarrow> rat option" where
  "js_number s =
     (case s of
        CHR ''0'' # c # ds \<Rightarrow>
          if c = CHR ''x'' \<or> c = CHR ''X'' then radix 16 ds
          else if c = CHR ''o'' \<or> c = CHR ''O'' then radix 8 ds
          else if c = CHR ''b'' \<or> c = CHR ''B'' then radix 2 ds
          else decimal s
      | _ \<Rightarrow> decimal s)"

section \<open>Writing a number\<close>

text \<open>
  \<open>String(x)\<close> for a number whose decimal expansion has at most 20 places, below the magnitudes that are
  written with an exponent.
\<close>

fun frac_digits :: "nat \<Rightarrow> rat \<Rightarrow> string" where
  "frac_digits 0 x = []"
| "frac_digits (Suc n) x =
     (if x = 0 then [] else let y = 10 * x in nat_digits (nat \<lfloor>y\<rfloor>) @ frac_digits n (y - of_int \<lfloor>y\<rfloor>))"

definition number_text :: "rat \<Rightarrow> string" where
  "number_text x =
     (let a = \<bar>x\<bar>; whole = nat_digits (nat \<lfloor>a\<rfloor>); frac = frac_digits 20 (a - of_int \<lfloor>a\<rfloor>)
      in (if x < 0 then ''-'' else []) @ whole @ (if frac = [] then [] else ''.'' @ frac))"

section \<open>Substrings and case\<close>

text \<open>\<open>toLocaleLowerCase\<close> of the Portuguese locale, which has no rules of its own.\<close>

definition lower_pt :: "string \<Rightarrow> string" where
  "lower_pt = map (\<lambda>c. let n = of_char c :: nat in
     if 65 \<le> n \<and> n \<le> 90 \<or> 192 \<le> n \<and> n \<le> 222 \<and> n \<noteq> 215 then char_of (n + 32) else c)"

fun str_includes :: "string \<Rightarrow> string \<Rightarrow> bool" where
  "str_includes [] n = (n = [])"
| "str_includes (c # h) n = (take (length n) (c # h) = n \<or> str_includes h n)"

lemma str_includes_iff: "str_includes h n \<longleftrightarrow> (\<exists>pre post. h = pre @ n @ post)"
proof (induction h)
  case (Cons c h)
  have "(\<exists>pre post. c # h = pre @ n @ post) \<longleftrightarrow> (\<exists>post. c # h = n @ post) \<or> (\<exists>pre post. h = pre @ n @ post)"
    by (metis Cons_eq_append_conv append_Cons append_Nil)
  moreover have "(\<exists>post. c # h = n @ post) \<longleftrightarrow> take (length n) (c # h) = n"
    by (metis append_eq_conv_conj append_take_drop_id)
  ultimately show ?case using Cons by simp
qed simp

section \<open>Regular expressions\<close>

datatype rx =
    Cls "char \<Rightarrow> bool"
  | Cat rx rx
  | Alt rx rx
  | Star rx
  | Opt rx
  | Cap rx
  | Look rx
  | Word_Boundary
  | Start_Of_Text
  | End_Of_Text
  | End_Of_Line

text \<open>A position: the character before it, the text after it, and the group captured so far.\<close>

type_synonym rx_state = "char option \<times> string \<times> string option"

definition word_char :: "char \<Rightarrow> bool" where
  "word_char c \<longleftrightarrow> (let n = of_char c :: nat in
     48 \<le> n \<and> n \<le> 57 \<or> 65 \<le> n \<and> n \<le> 90 \<or> 97 \<le> n \<and> n \<le> 122 \<or> n = 95)"

definition white_char :: "char \<Rightarrow> bool" where
  "white_char c \<longleftrightarrow> of_char c \<in> {9 :: nat, 10, 11, 12, 13, 32, 160}"

definition at_boundary :: "char option \<Rightarrow> string \<Rightarrow> bool" where
  "at_boundary before rest \<longleftrightarrow>
     (case before of Some c \<Rightarrow> word_char c | None \<Rightarrow> False) \<noteq> (case rest of c # _ \<Rightarrow> word_char c | [] \<Rightarrow> False)"

text \<open>A greedy loop over a matcher: the longer continuations first; a round must consume something.\<close>

primrec greedy :: "nat \<Rightarrow> (rx_state \<Rightarrow> rx_state list) \<Rightarrow> rx_state \<Rightarrow> rx_state list" where
  "greedy 0 m s = [s]"
| "greedy (Suc n) m s = concat (map (greedy n m) (filter (\<lambda>t. length (fst (snd t)) < length (fst (snd s))) (m s))) @ [s]"

text \<open>All ways to match at a position, in the order the engine tries them.\<close>

primrec rx_matches :: "rx \<Rightarrow> rx_state \<Rightarrow> rx_state list" where
  "rx_matches (Cls P) s = (case s of (b, c # cs, g) \<Rightarrow> if P c then [(Some c, cs, g)] else [] | _ \<Rightarrow> [])"
| "rx_matches (Cat r q) s = concat (map (rx_matches q) (rx_matches r s))"
| "rx_matches (Alt r q) s = rx_matches r s @ rx_matches q s"
| "rx_matches (Star r) s = greedy (length (fst (snd s))) (rx_matches r) s"
| "rx_matches (Opt r) s = rx_matches r s @ [s]"
| "rx_matches (Cap r) s =
     map (\<lambda>t. (fst t, fst (snd t), Some (take (length (fst (snd s)) - length (fst (snd t))) (fst (snd s))))) (rx_matches r s)"
| "rx_matches (Look r) s = (if rx_matches r s = [] then [] else [s])"
| "rx_matches Start_Of_Text s = (if fst s = None then [s] else [])"
| "rx_matches End_Of_Text s = (if fst (snd s) = [] then [s] else [])"
| "rx_matches Word_Boundary s = (if at_boundary (fst s) (fst (snd s)) then [s] else [])"
| "rx_matches End_Of_Line s = (case fst (snd s) of [] \<Rightarrow> [s] | c # _ \<Rightarrow> if of_char c \<in> {10 :: nat, 13} then [s] else [])"

text \<open>The leftmost match from a position on: what is captured, if anything matches.\<close>

fun rx_search :: "rx \<Rightarrow> char option \<Rightarrow> string \<Rightarrow> rx_state option" where
  "rx_search r before [] = (case rx_matches r (before, [], None) of t # _ \<Rightarrow> Some t | [] \<Rightarrow> None)"
| "rx_search r before (c # cs) =
     (case rx_matches r (before, c # cs, None) of t # _ \<Rightarrow> Some t | [] \<Rightarrow> rx_search r (Some c) cs)"

definition rx_test :: "rx \<Rightarrow> string \<Rightarrow> bool" where
  "rx_test r s \<longleftrightarrow> rx_search r None s \<noteq> None"

text \<open>The first group of the leftmost match.\<close>

definition rx_group :: "rx \<Rightarrow> string \<Rightarrow> string option" where
  "rx_group r s = (case rx_search r None s of Some (_, _, g) \<Rightarrow> g | None \<Rightarrow> None)"

definition same_letter :: "char \<Rightarrow> char \<Rightarrow> bool" where
  "same_letter c d \<longleftrightarrow> c = d \<or>
     (let m = of_char c :: nat; n = of_char d :: nat in
      (65 \<le> m \<and> m \<le> 90 \<and> n = m + 32) \<or> (65 \<le> n \<and> n \<le> 90 \<and> m = n + 32))"

text \<open>A literal, a literal under the flag \<open>i\<close>, and the repetition with at least one round.\<close>

fun lit :: "string \<Rightarrow> rx" where
  "lit [] = Star (Cls (\<lambda>_. False))"
| "lit [c] = Cls (\<lambda>d. d = c)"
| "lit (c # cs) = Cat (Cls (\<lambda>d. d = c)) (lit cs)"

fun lit_i :: "string \<Rightarrow> rx" where
  "lit_i [] = Star (Cls (\<lambda>_. False))"
| "lit_i [c] = Cls (same_letter c)"
| "lit_i (c # cs) = Cat (Cls (same_letter c)) (lit_i cs)"

definition plus :: "rx \<Rightarrow> rx" where
  "plus r = Cat r (Star r)"

definition spaces :: rx where
  "spaces = plus (Cls white_char)"

definition digits :: rx where
  "digits = plus (Cls is_digit)"

definition cats :: "rx list \<Rightarrow> rx" where
  "cats rs = foldr Cat (butlast rs) (last rs)"

definition alts :: "rx list \<Rightarrow> rx" where
  "alts rs = foldr Alt (butlast rs) (last rs)"

text \<open>\<open>replace(pattern, "")\<close> under the flag \<open>g\<close>: matches that consume nothing remove nothing.\<close>

fun rx_removing :: "nat \<Rightarrow> rx \<Rightarrow> char option \<Rightarrow> string \<Rightarrow> string" where
  "rx_removing (Suc n) r before (c # cs) =
     (case filter (\<lambda>t. length (fst (snd t)) < length (c # cs)) (take 1 (rx_matches r (before, c # cs, None))) of
        t # _ \<Rightarrow> rx_removing n r (fst t) (fst (snd t))
      | [] \<Rightarrow> c # rx_removing n r (Some c) cs)"
| "rx_removing _ r before s = s"

definition rx_remove :: "rx \<Rightarrow> string \<Rightarrow> string" where
  "rx_remove r s = rx_removing (length s) r None s"

text \<open>The fuel is enough: more of it removes nothing else.\<close>

lemma rx_removing_fuel: "length s \<le> n \<Longrightarrow> rx_removing n r before s = rx_removing (length s) r before s"
proof (induction "length s" arbitrary: s n before rule: less_induct)
  case less
  show ?case
  proof (cases s)
    case (Cons c cs)
    with less.prems obtain k where n: "n = Suc k" "length cs \<le> k" by (cases n) auto
    have eq: "rx_removing k r b' s' = rx_removing (length cs) r b' s'" if "length s' < length s" for s' b'
      using less.hyps [of s' k b'] less.hyps [of s' "length cs" b'] that n Cons by simp
    have "rx_removing k r (Some c) cs = rx_removing (length cs) r (Some c) cs" by (rule eq) (simp add: Cons)
    then show ?thesis using eq
      by (auto simp: Cons n split: list.splits dest!: filter_eq_ConsD)
  qed simp
qed

text \<open>What a match consumes is a prefix of the text, and the captured group lies in it.\<close>

lemma greedy_suffix:
  assumes "\<And>s t. t \<in> set (m s) \<Longrightarrow> \<exists>p. fst (snd s) = p @ fst (snd t)" and "t \<in> set (greedy n m s)"
  shows "\<exists>p. fst (snd s) = p @ fst (snd t)"
  using assms(2)
proof (induction n arbitrary: s)
  case (Suc n)
  then consider "t = s" | u where "u \<in> set (m s)" "t \<in> set (greedy n m u)" by auto
  then show ?case
  proof cases
    case (2 u)
    from assms(1) [OF 2(1)] Suc.IH [OF 2(2)] show ?thesis by (metis append_assoc)
  qed simp
qed simp

lemma rx_matches_suffix: "t \<in> set (rx_matches r s) \<Longrightarrow> \<exists>p. fst (snd s) = p @ fst (snd t)"
proof (induction r arbitrary: s t)
  case (Cat r q)
  then obtain u where "u \<in> set (rx_matches r s)" "t \<in> set (rx_matches q u)" by auto
  with Cat.IH(1) [OF this(1)] Cat.IH(2) [OF this(2)] show ?case by (metis append_assoc)
next
  case (Star r)
  then show ?case using greedy_suffix [of "rx_matches r"] by auto
qed (auto split: list.splits if_splits prod.splits)

text \<open>A pattern is found where some suffix of the text matches it.\<close>

lemma rx_search_iff:
  "rx_search r b s \<noteq> None \<longleftrightarrow>
     (\<exists>pre rest. s = pre @ rest \<and> rx_matches r (if pre = [] then b else Some (last pre), rest, None) \<noteq> [])"
proof (induction s arbitrary: b)
  case Nil
  show ?case by (auto split: list.splits)
next
  case (Cons c s)
  have "(\<exists>pre rest. c # s = pre @ rest \<and> rx_matches r (if pre = [] then b else Some (last pre), rest, None) \<noteq> []) \<longleftrightarrow>
      rx_matches r (b, c # s, None) \<noteq> [] \<or>
      (\<exists>pre rest. s = pre @ rest \<and> rx_matches r (if pre = [] then Some c else Some (last pre), rest, None) \<noteq> [])"
    (is "?L \<longleftrightarrow> ?A \<or> ?B")
  proof
    assume ?L
    then obtain pre rest where split: "c # s = pre @ rest"
      and m: "rx_matches r (if pre = [] then b else Some (last pre), rest, None) \<noteq> []" by blast
    show "?A \<or> ?B"
    proof (cases pre)
      case (Cons x pre')
      with split have "s = pre' @ rest" "x = c" by simp_all
      with m Cons have ?B by (intro exI [of _ pre'] exI [of _ rest]) auto
      then show ?thesis ..
    qed (use split m in simp)
  next
    assume "?A \<or> ?B"
    then show ?L
    proof
      assume ?A then show ?L by (intro exI [of _ "[]"] exI [of _ "c # s"]) simp
    next
      assume ?B
      then obtain pre rest where "s = pre @ rest" "rx_matches r (if pre = [] then Some c else Some (last pre), rest, None) \<noteq> []"
        by blast
      then show ?L by (intro exI [of _ "c # pre"] exI [of _ rest]) (auto split: if_splits)
    qed
  qed
  moreover have "rx_search r b (c # s) \<noteq> None \<longleftrightarrow> rx_matches r (b, c # s, None) \<noteq> [] \<or> rx_search r (Some c) s \<noteq> None"
    by (cases "rx_matches r (b, c # s, None)") auto
  ultimately show ?case by (simp only: Cons)
qed

lemma rx_test_iff:
  "rx_test r s \<longleftrightarrow> (\<exists>pre rest. s = pre @ rest \<and> rx_matches r (if pre = [] then None else Some (last pre), rest, None) \<noteq> [])"
  unfolding rx_test_def rx_search_iff ..

lemma rx_matches_lit:
  "w \<noteq> [] \<Longrightarrow> rx_matches (lit w) (b, s, g) =
     (if take (length w) s = w then [(Some (last w), drop (length w) s, g)] else [])"
proof (induction w arbitrary: b s rule: lit.induct)
  case (2 c)
  then show ?case by (cases s) auto
next
  case (3 c c' cs)
  then show ?case by (cases s) auto
qed simp

end
