(* ===== verification/Caixilharia_Pricing.thy ===== *)
theory Caixilharia_Pricing
  imports Vertical_Lines Js_Text
begin

text \<open>
  The window-frame pricing engine (\<open>pricing/caixilharia-pricing.engine.ts\<close>): areas, per-opening lines,
  site costs, margin, area discount and tax. \<open>normalize\<close> (Unicode decomposition, removal of
  diacritics, Portuguese lower case; here \<open>nfd_lower\<close>) and \<open>fmt\<close> (\<open>toLocaleString('pt-PT')\<close>) are library functions and
  parameters of the definitions.
\<close>

section \<open>Rule configurations\<close>

record keyword_selection =
  ks_keywords :: "string list"
  ks_sku_code :: string

record profile_rule =
  pf_selections :: "keyword_selection list"
  pf_default_sku_code :: string
  opening_type_multipliers :: "(opening_type \<times> rat) list"

record glass_rule =
  gl_selections :: "keyword_selection list"
  gl_default_sku_code :: string

record removal_rule =
  amount_minor_per_opening :: int
  rm_description :: string

record transport_rule =
  tr_sku_code :: string
  included_km :: rat

record area_threshold =
  over_area_m2 :: rat
  th_percentage :: rat

definition selections_schema :: "keyword_selection list schema" where
  "selections_schema = z_array (\<lambda>w. do {
     so \<leftarrow> z_object w;
     ks \<leftarrow> z_refine (z_array z_nonempty_string) (\<lambda>xs. xs \<noteq> []) (field ''keywords'' so);
     c \<leftarrow> z_nonempty_string (field ''sku_code'' so);
     Some \<lparr>ks_keywords = ks, ks_sku_code = c\<rparr>
   })"

definition OpeningTypeMultipliersSchema :: "(opening_type \<times> rat) list schema" where
  "OpeningTypeMultipliersSchema = z_record OpeningTypeSchema z_positive"

definition ProfileRuleSchema :: "profile_rule schema" where
  "ProfileRuleSchema v = do {
     ob \<leftarrow> z_object v;
     z_literal ''profile'' (field ''role'' ob);
     ss \<leftarrow> selections_schema (field ''selections'' ob);
     dc \<leftarrow> z_nonempty_string (field ''default_sku_code'' ob);
     ms \<leftarrow> OpeningTypeMultipliersSchema (field ''opening_type_multipliers'' ob);
     Some \<lparr>pf_selections = ss, pf_default_sku_code = dc, opening_type_multipliers = ms\<rparr>
   }"

definition GlassRuleSchema :: "glass_rule schema" where
  "GlassRuleSchema v = do {
     ob \<leftarrow> z_object v;
     z_literal ''glass'' (field ''role'' ob);
     ss \<leftarrow> selections_schema (field ''selections'' ob);
     dc \<leftarrow> z_nonempty_string (field ''default_sku_code'' ob);
     Some \<lparr>gl_selections = ss, gl_default_sku_code = dc\<rparr>
   }"

text \<open>The remaining rules with one payload are read into it: the code by type, the SKU code, the area.\<close>

definition HardwareRuleSchema :: "(opening_type \<times> string) list schema" where
  "HardwareRuleSchema v = do {
     ob \<leftarrow> z_object v;
     z_literal ''hardware'' (field ''role'' ob);
     z_record OpeningTypeSchema z_nonempty_string (field ''sku_by_opening_type'' ob)
   }"

definition FeatureRuleSchema :: "string schema" where
  "FeatureRuleSchema v = do {
     ob \<leftarrow> z_object v;
     z_one_of [''blind'', ''insect_screen''] (field ''role'' ob);
     z_nonempty_string (field ''sku_code'' ob)
   }"

definition MinimumAreaRuleSchema :: "rat schema" where
  "MinimumAreaRuleSchema v = do {
     ob \<leftarrow> z_object v;
     z_literal ''minimum_billable_area'' (field ''role'' ob);
     z_positive (field ''area_m2'' ob)
   }"

definition RemovalRuleSchema :: "removal_rule schema" where
  "RemovalRuleSchema v = do {
     ob \<leftarrow> z_object v;
     z_literal ''remove_existing'' (field ''role'' ob);
     am \<leftarrow> z_nonneg_int (field ''amount_minor_per_opening'' ob);
     de \<leftarrow> z_nonempty_string (field ''description'' ob);
     Some \<lparr>amount_minor_per_opening = am, rm_description = de\<rparr>
   }"

definition TransportRuleSchema :: "transport_rule schema" where
  "TransportRuleSchema v = do {
     ob \<leftarrow> z_object v;
     z_literal ''transport_per_km'' (field ''role'' ob);
     c \<leftarrow> z_nonempty_string (field ''sku_code'' ob);
     k \<leftarrow> z_default 0 z_nonnegative (field ''included_km'' ob);
     Some \<lparr>tr_sku_code = c, included_km = k\<rparr>
   }"

definition LaborRuleSchema :: "string schema" where
  "LaborRuleSchema v = do {
     ob \<leftarrow> z_object v;
     z_literal ''installation_per_opening'' (field ''role'' ob);
     z_nonempty_string (field ''sku_code'' ob)
   }"

definition AreaDiscountRuleSchema :: "area_threshold list schema" where
  "AreaDiscountRuleSchema v = do {
     ob \<leftarrow> z_object v;
     z_literal ''area_discount'' (field ''role'' ob);
     z_refine (z_array (\<lambda>w. do {
         th \<leftarrow> z_object w;
         oa \<leftarrow> z_nonnegative (field ''over_area_m2'' th);
         pc \<leftarrow> z_percentage (field ''percentage'' th);
         Some \<lparr>over_area_m2 = oa, th_percentage = pc\<rparr>
       })) (\<lambda>xs. xs \<noteq> []) (field ''thresholds'' ob)
   }"

section \<open>Helpers of the engine\<close>

definition parsedRoleRule :: "pricing_rule list \<Rightarrow> pricing_rule_type \<Rightarrow> string \<Rightarrow> 'a schema \<Rightarrow> 'a option" where
  "parsedRoleRule rules ty role s =
     parsedRule (filter (\<lambda>r. field ''role'' (config r) = Some (JStr role)) rules) ty s None"

definition selectSkuCode :: "(string \<Rightarrow> string) \<Rightarrow> string option \<Rightarrow> keyword_selection list \<Rightarrow> string \<Rightarrow> string" where
  "selectSkuCode nfd_lower preference sels fallback =
     (case preference of
        None \<Rightarrow> fallback
      | Some p \<Rightarrow>
          (case find (\<lambda>s. \<exists>k \<in> set (ks_keywords s). str_includes (nfd_lower p) (nfd_lower k)) sels of
             Some s \<Rightarrow> ks_sku_code s
           | None \<Rightarrow> fallback))"

definition requireSku :: "sku list \<Rightarrow> string \<Rightarrow> pricing_acc \<Rightarrow> sku option \<times> pricing_acc" where
  "requireSku catalog code a =
     (case sku_by_code catalog code of
        None \<Rightarrow> (None, miss (''catalog.'' @ code) a)
      | Some s \<Rightarrow> (Some s, a))"

definition areaLine :: "sku \<Rightarrow> string \<Rightarrow> rat \<Rightarrow> rat \<Rightarrow> line_kind \<Rightarrow> int \<Rightarrow> vline" where
  "areaLine s desc area multiplier kind pos =
     (let unitPrice = js_round (of_int (base_price_minor s) * multiplier) in
      \<lparr>vl_skuId = Some (sku_id s), vl_description = desc, vl_quantity = area, vl_unitPriceMinor = unitPrice,
       vl_amountMinor = of_int (js_round (area * of_int unitPrice)), vl_position = pos, vl_kind = kind\<rparr>)"

definition roundArea :: "rat \<Rightarrow> rat" where
  "roundArea v = of_int (js_round (v * 10000)) / 10000"

definition em_dash :: string where
  "em_dash = [CHR '' '', CHR 0xE2, CHR 0x80, CHR 0x94, CHR '' '']"

section \<open>The lines of one opening\<close>

record caix_rules =
  profileRule :: "profile_rule option"
  glassRule :: "glass_rule option"
  hardwareRule :: "(opening_type \<times> string) list option"
  blindRule :: "string option"
  screenRule :: "string option"
  minimumAreaRule :: "rat option"
  laborRule :: "string option"

definition caix_rules_of :: "pricing_rule list \<Rightarrow> caix_rules" where
  "caix_rules_of rules =
     \<lparr>profileRule = parsedRoleRule rules Catalog_Unit ''profile'' ProfileRuleSchema,
      glassRule = parsedRoleRule rules Catalog_Unit ''glass'' GlassRuleSchema,
      hardwareRule = parsedRoleRule rules Catalog_Unit ''hardware'' HardwareRuleSchema,
      blindRule = parsedRoleRule rules Catalog_Unit ''blind'' FeatureRuleSchema,
      screenRule = parsedRoleRule rules Catalog_Unit ''insect_screen'' FeatureRuleSchema,
      minimumAreaRule = parsedRoleRule rules Fixed_Adder ''minimum_billable_area'' MinimumAreaRuleSchema,
      laborRule = parsedRoleRule rules Labor_Hours ''installation_per_opening'' LaborRuleSchema\<rparr>"

definition caix_checks :: "caix_rules \<Rightarrow> pricing_acc \<Rightarrow> pricing_acc" where
  "caix_checks R a =
     (let a = miss_if (profileRule R = None) ''caixilharia.profile'' a;
          a = miss_if (glassRule R = None) ''caixilharia.glass'' a;
          a = miss_if (hardwareRule R = None) ''caixilharia.hardware'' a;
          a = miss_if (blindRule R = None) ''caixilharia.blind'' a;
          a = miss_if (screenRule R = None) ''caixilharia.insect_screen'' a;
          a = miss_if (minimumAreaRule R = None) ''caixilharia.minimum_billable_area'' a
      in miss_if (laborRule R = None) ''caixilharia.installation.labor'' a)"

definition line_text :: "caix_opening \<Rightarrow> sku \<Rightarrow> string" where
  "line_text p s = op_ref p @ em_dash @ sku_name s"

definition profile_line ::
  "(string \<Rightarrow> string) \<Rightarrow> sku list \<Rightarrow> profile_rule option \<Rightarrow> caix_opening \<Rightarrow> rat \<Rightarrow> pricing_acc \<Rightarrow> pricing_acc" where
  "profile_line nfd_lower catalog rule p billable a =
     (case rule of
        None \<Rightarrow> a
      | Some r \<Rightarrow>
          (case requireSku catalog
                  (selectSkuCode nfd_lower (profile_preference p) (pf_selections r) (pf_default_sku_code r)) a of
             (None, a) \<Rightarrow> a
           | (Some s, a) \<Rightarrow>
               (case op_type p of
                  None \<Rightarrow> push_line (areaLine s (line_text p s) billable 1 Material) a
                | Some t \<Rightarrow>
                    (case map_of (opening_type_multipliers r) t of
                       None \<Rightarrow> miss (''caixilharia.profile.multiplier.'' @ opening_type_text t) a
                     | Some m \<Rightarrow> push_line (areaLine s (line_text p s) billable m Material) a))))"

definition glass_line ::
  "(string \<Rightarrow> string) \<Rightarrow> sku list \<Rightarrow> glass_rule option \<Rightarrow> caix_opening \<Rightarrow> rat \<Rightarrow> pricing_acc \<Rightarrow> pricing_acc" where
  "glass_line nfd_lower catalog rule p billable a =
     (case rule of
        None \<Rightarrow> a
      | Some r \<Rightarrow>
          (case requireSku catalog
                  (selectSkuCode nfd_lower (glass_preference p) (gl_selections r) (gl_default_sku_code r)) a of
             (None, a) \<Rightarrow> a
           | (Some s, a) \<Rightarrow> push_line (areaLine s (line_text p s) billable 1 Material) a))"

definition hardware_line ::
  "sku list \<Rightarrow> (opening_type \<times> string) list option \<Rightarrow> caix_opening \<Rightarrow> pricing_acc \<Rightarrow> pricing_acc" where
  "hardware_line catalog rule p a =
     (case (rule, op_type p) of
        (Some codes, Some t) \<Rightarrow>
          if t = Fixo then a
          else (case map_of codes t of
                  None \<Rightarrow> miss (''caixilharia.hardware.'' @ opening_type_text t) a
                | Some code \<Rightarrow>
                    (case requireSku catalog code a of
                       (None, a) \<Rightarrow> a
                     | (Some s, a) \<Rightarrow>
                         push_line (catalogLine s (line_text p s) (of_int (op_quantity p)) Equipment) a))
      | _ \<Rightarrow> a)"

definition blind_line :: "sku list \<Rightarrow> string option \<Rightarrow> caix_opening \<Rightarrow> rat \<Rightarrow> pricing_acc \<Rightarrow> pricing_acc" where
  "blind_line catalog rule p billable a =
     (if blind p = Some True then
        (case rule of
           None \<Rightarrow> a
         | Some code \<Rightarrow>
             (case requireSku catalog code a of
                (None, a) \<Rightarrow> a
              | (Some s, a) \<Rightarrow> push_line (areaLine s (line_text p s) billable 1 Material) a))
      else a)"

definition screen_line :: "sku list \<Rightarrow> string option \<Rightarrow> caix_opening \<Rightarrow> pricing_acc \<Rightarrow> pricing_acc" where
  "screen_line catalog rule p a =
     (if insect_screen p = Some True then
        (case rule of
           None \<Rightarrow> a
         | Some code \<Rightarrow>
             (case requireSku catalog code a of
                (None, a) \<Rightarrow> a
              | (Some s, a) \<Rightarrow>
                  push_line (catalogLine s (line_text p s) (of_int (op_quantity p)) Equipment) a))
      else a)"

definition dimension_checks :: "caix_opening \<Rightarrow> pricing_acc \<Rightarrow> pricing_acc" where
  "dimension_checks p a =
     (let pre = ''critical_input.openings.'' @ op_ref p;
          a = miss_if (width_mm p = None) (pre @ ''.width_mm'') a;
          a = miss_if (height_mm p = None) (pre @ ''.height_mm'') a
      in miss_if (op_type p = None) (pre @ ''.opening_type'') a)"

definition actual_area :: "int \<Rightarrow> int \<Rightarrow> rat" where
  "actual_area w h = roundArea (of_int (w * h) / 1000000)"

definition billable_area :: "rat option \<Rightarrow> caix_opening \<Rightarrow> rat \<Rightarrow> rat" where
  "billable_area minimum p actual =
     (let per_opening = max actual (case minimum of Some m \<Rightarrow> m | None \<Rightarrow> actual)
      in roundArea (per_opening * of_int (op_quantity p)))"

text \<open>The loop over the openings carries the accumulator, \<open>totalAreaM2\<close> and \<open>totalOpeningCount\<close>.\<close>

definition opening_step ::
  "(string \<Rightarrow> string) \<Rightarrow> sku list \<Rightarrow> caix_rules \<Rightarrow> caix_opening \<Rightarrow> pricing_acc \<times> rat \<times> int \<Rightarrow> pricing_acc \<times> rat \<times> int" where
  "opening_step nfd_lower catalog R p = (\<lambda>(a, totalArea, openingCount).
     (let a = dimension_checks p a in
      case (width_mm p, height_mm p) of
        (Some w, Some h) \<Rightarrow>
          (let actual = actual_area w h;
               billable = billable_area (minimumAreaRule R) p actual;
               totalArea = roundArea (totalArea + actual * of_int (op_quantity p));
               openingCount = openingCount + op_quantity p;
               a = profile_line nfd_lower catalog (profileRule R) p billable a;
               a = glass_line nfd_lower catalog (glassRule R) p billable a;
               a = hardware_line catalog (hardwareRule R) p a;
               a = blind_line catalog (blindRule R) p billable a
           in (screen_line catalog (screenRule R) p a, totalArea, openingCount))
      | _ \<Rightarrow> (a, totalArea, openingCount)))"

section \<open>Site costs, discount and the quote\<close>

definition installation_line :: "sku list \<Rightarrow> string option \<Rightarrow> int \<Rightarrow> pricing_acc \<Rightarrow> pricing_acc" where
  "installation_line catalog rule openingCount a =
     (case rule of
        None \<Rightarrow> a
      | Some code \<Rightarrow>
          if 0 < openingCount then
            (case requireSku catalog code a of
               (None, a) \<Rightarrow> a
             | (Some s, a) \<Rightarrow> push_line (catalogLine s (sku_name s) (of_int openingCount) Labor) a)
          else a)"

definition removal_line :: "caixilharia_facts \<Rightarrow> removal_rule option \<Rightarrow> int \<Rightarrow> pricing_acc \<Rightarrow> pricing_acc" where
  "removal_line f rule openingCount a =
     (if remove_existing f = Some True then
        (case rule of
           None \<Rightarrow> miss ''caixilharia.remove_existing'' a
         | Some r \<Rightarrow> push_line (\<lambda>p. \<lparr>vl_skuId = None, vl_description = rm_description r, vl_quantity = of_int openingCount,
             vl_unitPriceMinor = amount_minor_per_opening r,
             vl_amountMinor = of_int (amount_minor_per_opening r * openingCount), vl_position = p, vl_kind = Labor\<rparr>) a)
      else a)"

definition chargeable_km :: "caixilharia_facts \<Rightarrow> transport_rule \<Rightarrow> rat" where
  "chargeable_km f r = max 0 ((case cx_distance_km f of Some k \<Rightarrow> k | None \<Rightarrow> 0) - included_km r)"

definition transport_line :: "sku list \<Rightarrow> caixilharia_facts \<Rightarrow> transport_rule option \<Rightarrow> pricing_acc \<Rightarrow> pricing_acc" where
  "transport_line catalog f rule a =
     (if cx_distance_km f = None then a
      else (case rule of
              None \<Rightarrow> miss ''caixilharia.transport'' a
            | Some r \<Rightarrow>
                if 0 < chargeable_km f r then
                  (case requireSku catalog (tr_sku_code r) a of
                     (None, a) \<Rightarrow> a
                   | (Some s, a) \<Rightarrow> push_line (catalogLine s (sku_name s) (chargeable_km f r) Labor) a)
                else a))"

definition discount_percentage :: "area_threshold list option \<Rightarrow> rat \<Rightarrow> rat" where
  "discount_percentage rule totalArea =
     (case rule of
        None \<Rightarrow> 0
      | Some ths \<Rightarrow>
          (case find (\<lambda>t. totalArea > over_area_m2 t) (sort_key (\<lambda>t. - over_area_m2 t) ths) of
             Some t \<Rightarrow> th_percentage t
           | None \<Rightarrow> 0))"

record caix_quote = vertical_quote +
  vq_totalAreaM2 :: rat

definition caix_openings ::
  "(string \<Rightarrow> string) \<Rightarrow> sku list \<Rightarrow> caix_rules \<Rightarrow> caixilharia_facts \<Rightarrow> pricing_acc \<times> rat \<times> int" where
  "caix_openings nfd_lower catalog R f =
     fold (opening_step nfd_lower catalog R) (openings f) (caix_checks R start_acc, 0, 0)"

definition caix_site ::
  "(string \<Rightarrow> string) \<Rightarrow> sku list \<Rightarrow> pricing_rule list \<Rightarrow> caixilharia_facts \<Rightarrow> pricing_acc" where
  "caix_site nfd_lower catalog rules f =
     (let R = caix_rules_of rules;
          (a, totalArea, openingCount) = caix_openings nfd_lower catalog R f;
          a = installation_line catalog (laborRule R) openingCount a;
          a = removal_line f (parsedRoleRule rules Fixed_Adder ''remove_existing'' RemovalRuleSchema) openingCount a
      in transport_line catalog f
           (parsedRoleRule rules Conditional_Surcharge ''transport_per_km'' TransportRuleSchema) a)"

definition priceCaixilhariaQuote ::
  "(string \<Rightarrow> string) \<Rightarrow> (rat \<Rightarrow> string) \<Rightarrow> caixilharia_extraction \<Rightarrow> pricing_rule list \<Rightarrow> sku list \<Rightarrow>
   rat option \<Rightarrow> caix_quote" where
  "priceCaixilhariaQuote nfd_lower fmt extraction allRules catalog taxRate =
     (let rules = rules_for Caixilharia allRules;
          totalArea = fst (snd (caix_openings nfd_lower catalog (caix_rules_of rules) (facts extraction)));
          a = caix_site nfd_lower catalog rules (facts extraction);
          base = sum_amounts (acc_lines a);
          margin = parsedRule rules Margin_Markup percentage_schema None;
          discountRule = parsedRoleRule rules Qty_Break ''area_discount'' AreaDiscountRuleSchema;
          taxRule = parsedRule rules Tax percentage_schema None;
          a = miss_if (margin = None) ''caixilharia.margin'' a;
          a = miss_if (discountRule = None) ''caixilharia.area_discount'' a;
          a = miss_if (taxRule = None) ''caixilharia.iva'' a;
          a = margin_stage fmt base margin a;
          subtotal = sum_amounts (acc_lines a);
          discount = js_round (subtotal * discount_percentage discountRule totalArea / 100);
          taxable = subtotal - of_int discount;
          pct = tax_percentage taxRate taxRule;
          tax = tax_minor taxable pct;
          a = tax_stage fmt tax pct taxRule a;
          relevant = relevant_skus catalog (acc_lines a);
          a = miss_if (length (uniq (map sku_currency relevant)) > 1) ''catalog.currency_mismatch'' a;
          a = miss_if (\<exists>s \<in> set relevant. sku_currency s \<noteq> STRATOS_CURRENCY) ''catalog.currency_must_be_eur'' a
      in \<lparr>vq_lines = acc_lines a, vq_subtotalMinor = subtotal, vq_discountMinor = discount, vq_taxMinor = tax,
          vq_totalMinor = taxable + of_int tax, vq_leadTimeDays = max_or_null (lead_times relevant),
          vq_currency = STRATOS_CURRENCY, vq_blocked = (uniq (acc_missing a) \<noteq> []),
          vq_missingRules = uniq (acc_missing a), vq_totalAreaM2 = totalArea\<rparr>)"

section \<open>A worked quote\<close>

text \<open>The request of the golden test CAIX-01, its catalog and its rules (accents omitted).\<close>

definition caix01_sku :: "string \<Rightarrow> string \<Rightarrow> int \<Rightarrow> sku" where
  "caix01_sku i code price = \<lparr>sku_id = i, sku_org_id = ''org-caix'', sku_code = code, sku_name = code,
     base_price_minor = price, cost_minor = None, sku_currency = ''EUR'', sku_lead_time_days = Some 12,
     sku_active = True, sku_description = None,
     sku_embedding = None, embedding_status = Emb_Pending, sku_attributes = JObj [], embedding_error = None, sku_updated_at = 0\<rparr>"

definition caix01_skus :: "sku list" where
  "caix01_skus = [caix01_sku ''pvc'' ''CAIX-PVC-70'' 18500, caix01_sku ''alu'' ''CAIX-ALU-RPT'' 26000,
     caix01_sku ''glass'' ''CAIX-VIDRO-LOWE'' 9500, caix01_sku ''oscilo'' ''CAIX-FERR-OSCILO'' 8500,
     caix01_sku ''correr'' ''CAIX-FERR-CORRER'' 12000, caix01_sku ''blind'' ''CAIX-PERSIANA'' 11000,
     caix01_sku ''screen'' ''CAIX-MOSQUITEIRO'' 7500, caix01_sku ''labor'' ''CAIX-MONTAGEM'' 9000,
     caix01_sku ''travel'' ''CAIX-TRANSPORTE'' 75]"

definition caix01_rule :: "int \<Rightarrow> pricing_rule_type \<Rightarrow> (string \<times> json) list \<Rightarrow> pricing_rule" where
  "caix01_rule i ty fs = \<lparr>pr_org_id = ''org-caix'', rule_type = ty, pr_vertical = Some Caixilharia,
     rule_key = None, sort_order = i, config = JObj fs, pr_active = True\<rparr>"

definition caix01_rules :: "pricing_rule list" where
  "caix01_rules =
    [caix01_rule 0 Catalog_Unit [(''role'', JStr ''profile''),
       (''selections'', JArr [
         JObj [(''keywords'', JArr [JStr ''pvc'', JStr ''70 mm'']), (''sku_code'', JStr ''CAIX-PVC-70'')],
         JObj [(''keywords'', JArr [JStr ''aluminio'', JStr ''rpt'']), (''sku_code'', JStr ''CAIX-ALU-RPT'')]]),
       (''default_sku_code'', JStr ''CAIX-PVC-70''),
       (''opening_type_multipliers'', JObj [(''fixo'', JNum (85 / 100)), (''batente'', JNum 1),
          (''oscilo-batente'', JNum (115 / 100)), (''correr'', JNum (11 / 10))])],
     caix01_rule 1 Catalog_Unit [(''role'', JStr ''glass''),
       (''selections'', JArr [JObj [(''keywords'', JArr [JStr ''low-e'']), (''sku_code'', JStr ''CAIX-VIDRO-LOWE'')]]),
       (''default_sku_code'', JStr ''CAIX-VIDRO-LOWE'')],
     caix01_rule 2 Catalog_Unit [(''role'', JStr ''hardware''),
       (''sku_by_opening_type'', JObj [(''oscilo-batente'', JStr ''CAIX-FERR-OSCILO''), (''correr'', JStr ''CAIX-FERR-CORRER'')])],
     caix01_rule 3 Catalog_Unit [(''role'', JStr ''blind''), (''sku_code'', JStr ''CAIX-PERSIANA'')],
     caix01_rule 4 Catalog_Unit [(''role'', JStr ''insect_screen''), (''sku_code'', JStr ''CAIX-MOSQUITEIRO'')],
     caix01_rule 5 Fixed_Adder [(''role'', JStr ''minimum_billable_area''), (''area_m2'', JNum (1 / 2))],
     caix01_rule 6 Fixed_Adder [(''role'', JStr ''remove_existing''), (''amount_minor_per_opening'', JNum 4000),
       (''description'', JStr ''Remocao'')],
     caix01_rule 7 Conditional_Surcharge [(''role'', JStr ''transport_per_km''), (''sku_code'', JStr ''CAIX-TRANSPORTE''),
       (''included_km'', JNum 0)],
     caix01_rule 8 Labor_Hours [(''role'', JStr ''installation_per_opening''), (''sku_code'', JStr ''CAIX-MONTAGEM'')],
     caix01_rule 9 Qty_Break [(''role'', JStr ''area_discount''), (''thresholds'', JArr [
       JObj [(''over_area_m2'', JNum 15), (''percentage'', JNum 4)],
       JObj [(''over_area_m2'', JNum 30), (''percentage'', JNum 7)]])],
     caix01_rule 10 Margin_Markup [(''percentage'', JNum 25)],
     caix01_rule 11 Tax [(''percentage'', JNum 23)]]"

definition caix01 :: "int \<Rightarrow> rat \<Rightarrow> caixilharia_extraction" where
  "caix01 qty km = \<lparr>customer = \<lparr>cu_name = Some ''Ana Sousa'', cu_email = None, cu_phone = None, cu_address = None\<rparr>,
     facts = \<lparr>openings =
        [\<lparr>op_ref = ''J1'', location = Some ''sala'', width_mm = Some 1200, height_mm = Some 1400,
          op_type = Some Oscilo_Batente, profile_preference = Some ''pvc 70 mm branco'',
          glass_preference = Some ''vidro duplo low-e'', finish = Some ''branco'', hardware = None,
          blind = Some True, insect_screen = Some True, op_quantity = qty\<rparr>,
         \<lparr>op_ref = ''P1'', location = None, width_mm = Some 1800, height_mm = Some 2100,
          op_type = Some Correr, profile_preference = Some ''aluminio rpt antracite'',
          glass_preference = Some ''vidro duplo low-e'', finish = Some ''antracite'', hardware = None,
          blind = Some False, insect_screen = Some False, op_quantity = 1\<rparr>],
        remove_existing = Some True, floor_no = Some 2, cx_distance_km = Some km, cx_notes = []\<rparr>,
     missing_info = [], confidence = ''high''\<rparr>"

definition caix01_quote :: "int \<Rightarrow> rat \<Rightarrow> caix_quote" where
  "caix01_quote qty km = priceCaixilhariaQuote (\<lambda>s. s) (\<lambda>_. []) (caix01 qty km) caix01_rules caix01_skus None"

lemma caix01_result:
  "map vl_amountMinor (vq_lines (caix01_quote 2 18)) =
     [71484, 31920, 17000, 36960, 15000, 108108, 35910, 12000, 27000, 12000, 1350, 92183, 106010]"
  "vq_totalAreaM2 (caix01_quote 2 18) = 714 / 100"
  "vq_totalMinor (caix01_quote 2 18) = 566925"
  "vq_missingRules (caix01_quote 2 18) = []"
  by code_simp+

section \<open>Facts about the stages\<close>

lemma requireSku_None: "requireSku catalog c a = (None, b) \<Longrightarrow> b = miss (''catalog.'' @ c) a"
  by (auto simp: requireSku_def split: option.splits)

lemma requireSku_Some:
  "requireSku catalog c a = (Some s, b) \<Longrightarrow> b = a \<and> s \<in> set catalog"
  by (auto simp: requireSku_def dest: sku_by_code_Some split: option.splits)

lemma areaLine_fields [simp]:
  "vl_skuId (areaLine s d x m k p) = Some (sku_id s)" "vl_kind (areaLine s d x m k p) = k"
  "vl_position (areaLine s d x m k p) = p" "vl_quantity (areaLine s d x m k p) = x"
  "is_integer (vl_amountMinor (areaLine s d x m k p))"
  by (simp_all add: areaLine_def Let_def)

text \<open>What every line of an opening satisfies; the site lines but the transport line do as well.\<close>

definition caix_line :: "sku list \<Rightarrow> vline \<Rightarrow> bool" where
  "caix_line catalog l \<longleftrightarrow> vl_kind l \<in> {Equipment, Material, Labor} \<and> is_integer (vl_amountMinor l) \<and>
     (\<forall>i. vl_skuId l = Some i \<longrightarrow> (\<exists>s \<in> set catalog. sku_id s = i))"

lemma caix_line_area: "s \<in> set catalog \<Longrightarrow> k \<in> {Equipment, Material, Labor} \<Longrightarrow> caix_line catalog (areaLine s d x m k p)"
  by (auto simp: caix_line_def)

lemma caix_line_catalog:
  "s \<in> set catalog \<Longrightarrow> k \<in> {Equipment, Material, Labor} \<Longrightarrow> caix_line catalog (catalogLine s d (of_int n) k p)"
  by (auto simp: caix_line_def intro!: is_integer_mult)

lemmas stage_splits = option.splits prod.splits if_splits

lemma profile_line_extends: "extends (caix_line catalog) a (profile_line g catalog r p x a)"
  by (auto simp: profile_line_def caix_line_area dest!: requireSku_None requireSku_Some split: stage_splits)

lemma glass_line_extends: "extends (caix_line catalog) a (glass_line g catalog r p x a)"
  by (auto simp: glass_line_def caix_line_area dest!: requireSku_None requireSku_Some split: stage_splits)

lemma hardware_line_extends: "extends (caix_line catalog) a (hardware_line catalog r p a)"
  by (auto simp: hardware_line_def caix_line_catalog dest!: requireSku_None requireSku_Some split: stage_splits)

lemma blind_line_extends: "extends (caix_line catalog) a (blind_line catalog r p x a)"
  by (auto simp: blind_line_def caix_line_area dest!: requireSku_None requireSku_Some split: stage_splits)

lemma screen_line_extends: "extends (caix_line catalog) a (screen_line catalog r p a)"
  by (auto simp: screen_line_def caix_line_catalog dest!: requireSku_None requireSku_Some split: stage_splits)

lemma dimension_checks_extends: "extends Q a (dimension_checks p a)"
  by (auto simp: dimension_checks_def Let_def)

lemma caix_checks_extends: "extends Q a (caix_checks R a)"
  unfolding caix_checks_def Let_def by (intro extends_then_miss(2) extends_refl)

lemma opening_step_extends: "extends (caix_line catalog) (fst st) (fst (opening_step g catalog R p st))"
proof -
  obtain a area n where st: "st = (a, area, n)" by (cases st)
  show ?thesis
  proof (cases "\<exists>w h. width_mm p = Some w \<and> height_mm p = Some h")
    case True
    then show ?thesis
      unfolding st opening_step_def Let_def
      by (auto intro!: extends_trans [OF _ screen_line_extends] extends_trans [OF _ blind_line_extends]
          extends_trans [OF _ hardware_line_extends] extends_trans [OF _ glass_line_extends]
          extends_trans [OF _ profile_line_extends] dimension_checks_extends)
  next
    case False
    then show ?thesis
      unfolding st opening_step_def Let_def
      by (auto simp: dimension_checks_extends split: option.splits)
  qed
qed

lemma installation_line_extends: "extends (caix_line catalog) a (installation_line catalog r n a)"
  by (auto simp: installation_line_def caix_line_catalog dest!: requireSku_None requireSku_Some split: stage_splits)

lemma removal_line_extends: "extends (caix_line catalog) a (removal_line f r n a)"
  by (auto simp: removal_line_def caix_line_def is_integer_mult split: stage_splits)

lemma transport_line_extends:
  assumes "\<And>r s p. rule = Some r \<Longrightarrow> cx_distance_km f \<noteq> None \<Longrightarrow> 0 < chargeable_km f r \<Longrightarrow> s \<in> set catalog \<Longrightarrow>
    sku_by_code catalog (tr_sku_code r) = Some s \<Longrightarrow>
    Q (catalogLine s (sku_name s) (chargeable_km f r) Labor p)"
  shows "extends Q a (transport_line catalog f rule a)"
  using assms sku_by_code_Some
  by (fastforce simp: transport_line_def requireSku_def split: stage_splits)

lemma caix_openings_extends:
  "extends (caix_line catalog) start_acc (fst (caix_openings g catalog R f))"
proof -
  have "extends (caix_line catalog) (fst st) (fst (fold (opening_step g catalog R) ps st))" for ps st
  proof (induction ps arbitrary: st)
    case (Cons p ps)
    show ?case using extends_trans [OF opening_step_extends Cons] by simp
  qed simp
  from this [of "(caix_checks R start_acc, 0, 0)"] show ?thesis
    unfolding caix_openings_def by (auto intro: extends_trans [OF caix_checks_extends])
qed

definition has_rules :: "caix_rules \<Rightarrow> bool" where
  "has_rules R \<longleftrightarrow> profileRule R \<noteq> None \<and> glassRule R \<noteq> None \<and> hardwareRule R \<noteq> None \<and> blindRule R \<noteq> None \<and>
     screenRule R \<noteq> None \<and> minimumAreaRule R \<noteq> None \<and> laborRule R \<noteq> None"

definition complete_opening :: "caix_opening \<Rightarrow> bool" where
  "complete_opening p \<longleftrightarrow> width_mm p \<noteq> None \<and> height_mm p \<noteq> None \<and> op_type p \<noteq> None"

text \<open>The pieces of hardware an opening needs: one set unless it is fixed, one screen if asked for.\<close>

definition opening_equipment :: "caix_opening \<Rightarrow> int" where
  "opening_equipment p = (if op_type p = Some Fixo then 0 else op_quantity p) +
     (if insect_screen p = Some True then op_quantity p else 0)"

lemma caix_checks_missing: "acc_missing (caix_checks R a) = [] \<longleftrightarrow> acc_missing a = [] \<and> has_rules R"
  by (auto simp: caix_checks_def Let_def has_rules_def)

lemma dimension_checks_missing:
  "acc_missing (dimension_checks p a) = [] \<longleftrightarrow> acc_missing a = [] \<and> complete_opening p"
  by (auto simp: dimension_checks_def Let_def complete_opening_def)

lemma dimension_checks_lines [simp]: "acc_lines (dimension_checks p a) = acc_lines a"
  by (simp add: dimension_checks_def Let_def)

lemma equipment_of_lines [simp]:
  "kind_quantity Equipment (acc_lines (profile_line g catalog pr p x a)) = kind_quantity Equipment (acc_lines a)"
  "kind_quantity Equipment (acc_lines (glass_line g catalog gr p x a)) = kind_quantity Equipment (acc_lines a)"
  "kind_quantity Equipment (acc_lines (blind_line catalog br p x a)) = kind_quantity Equipment (acc_lines a)"
  "kind_quantity Equipment (acc_lines (installation_line catalog br n a)) = kind_quantity Equipment (acc_lines a)"
  "kind_quantity Equipment (acc_lines (removal_line f rr n a)) = kind_quantity Equipment (acc_lines a)"
  "kind_quantity Equipment (acc_lines (transport_line catalog f tr a)) = kind_quantity Equipment (acc_lines a)"
  by (auto simp: profile_line_def glass_line_def blind_line_def installation_line_def removal_line_def
      transport_line_def requireSku_def split: stage_splits)

lemma hardware_line_equipment:
  "acc_missing (hardware_line catalog (Some r) p a) = [] \<Longrightarrow> op_type p \<noteq> None \<Longrightarrow>
   kind_quantity Equipment (acc_lines (hardware_line catalog (Some r) p a)) =
     kind_quantity Equipment (acc_lines a) + (if op_type p = Some Fixo then 0 else of_int (op_quantity p))"
  by (auto simp: hardware_line_def requireSku_def split: stage_splits)

lemma screen_line_equipment:
  "acc_missing (screen_line catalog (Some r) p a) = [] \<Longrightarrow>
   kind_quantity Equipment (acc_lines (screen_line catalog (Some r) p a)) =
     kind_quantity Equipment (acc_lines a) + (if insect_screen p = Some True then of_int (op_quantity p) else 0)"
  by (auto simp: screen_line_def requireSku_def split: stage_splits)

lemma opening_step_complete:
  assumes "has_rules R" and "acc_missing (fst (opening_step g catalog R p (a, area, n))) = []"
  shows "acc_missing a = [] \<and> complete_opening p \<and>
    kind_quantity Equipment (acc_lines (fst (opening_step g catalog R p (a, area, n)))) =
      kind_quantity Equipment (acc_lines a) + of_int (opening_equipment p)"
proof -
  have a: "acc_missing a = []"
    using extends_no_missing [OF opening_step_extends assms(2)] by simp
  obtain hr sr where R: "hardwareRule R = Some hr" "screenRule R = Some sr"
    using assms(1) by (auto simp: has_rules_def)
  show ?thesis
  proof (cases "width_mm p = None \<or> height_mm p = None")
    case True
    then have "acc_missing (dimension_checks p a) = []"
      using assms(2) by (auto simp: opening_step_def Let_def split: option.splits)
    with True show ?thesis by (auto simp: dimension_checks_missing complete_opening_def)
  next
    case False
    then obtain w h where wh: "width_mm p = Some w" "height_mm p = Some h" by auto
    define x where "x = billable_area (minimumAreaRule R) p (actual_area w h)"
    define b where "b = glass_line g catalog (glassRule R) p x
        (profile_line g catalog (profileRule R) p x (dimension_checks p a))"
    define c where "c = blind_line catalog (blindRule R) p x (hardware_line catalog (hardwareRule R) p b)"
    have step: "fst (opening_step g catalog R p (a, area, n)) = screen_line catalog (screenRule R) p c"
      by (simp add: opening_step_def Let_def wh b_def c_def x_def)
    note m = assms(2) [unfolded step]
    note mc = extends_no_missing [OF screen_line_extends m]
    note mh = extends_no_missing [OF blind_line_extends mc [unfolded c_def]]
    note mb = extends_no_missing [OF hardware_line_extends mh]
    have "acc_missing (dimension_checks p a) = []"
      using extends_no_missing [OF profile_line_extends extends_no_missing [OF glass_line_extends mb [unfolded b_def]]] .
    then have p: "complete_opening p" by (simp add: dimension_checks_missing)
    then have "kind_quantity Equipment (acc_lines (screen_line catalog (screenRule R) p c)) =
        kind_quantity Equipment (acc_lines a) + of_int (opening_equipment p)"
      using screen_line_equipment [OF m [unfolded R]] hardware_line_equipment [OF mh [unfolded R]]
      by (simp add: R c_def b_def opening_equipment_def complete_opening_def)
    with a p show ?thesis by (simp add: step)
  qed
qed

lemma openings_fold_complete:
  "has_rules R \<Longrightarrow> acc_missing (fst (fold (opening_step g catalog R) ps st)) = [] \<Longrightarrow>
   acc_missing (fst st) = [] \<and> (\<forall>p \<in> set ps. complete_opening p) \<and>
   kind_quantity Equipment (acc_lines (fst (fold (opening_step g catalog R) ps st))) =
     kind_quantity Equipment (acc_lines (fst st)) + of_int (\<Sum>p\<leftarrow>ps. opening_equipment p)"
proof (induction ps arbitrary: st)
  case (Cons p ps)
  note IH = Cons.IH [OF Cons.prems(1), of "opening_step g catalog R p st"]
  have "acc_missing (fst (opening_step g catalog R p st)) = []" using IH Cons.prems(2) by simp
  then show ?case
    using opening_step_complete [OF Cons.prems(1), of g catalog p "fst st" "fst (snd st)" "snd (snd st)"]
      IH Cons.prems(2) by simp
qed simp

lemma openings_fold_missing:
  "acc_missing (fst (fold (opening_step g catalog R) ps st)) = [] \<Longrightarrow> acc_missing (fst st) = []"
proof (induction ps arbitrary: st)
  case (Cons p ps)
  from Cons.IH [of "opening_step g catalog R p st"] Cons.prems
  have "acc_missing (fst (opening_step g catalog R p st)) = []" by simp
  then show ?case by (rule extends_no_missing [OF opening_step_extends])
qed simp

end
