(* ===== verification/Caixilharia_Quote.thy ===== *)
theory Caixilharia_Quote
  imports Caixilharia_Pricing
begin

text \<open>
  What a window-frame quote guarantees: consistent figures, completeness of an unblocked quote,
  areas and discount tiers, whole amounts. The definitions are those of \<^verbatim>\<open>Caixilharia_Pricing\<close>.
\<close>

section \<open>Completeness of the site\<close>

lemma caix_site_missing:
  assumes "acc_missing (caix_site g catalog rules f) = []"
  shows "has_rules (caix_rules_of rules) \<and> (\<forall>p \<in> set (openings f). complete_opening p) \<and>
    (remove_existing f = Some True \<longrightarrow>
      parsedRoleRule rules Fixed_Adder ''remove_existing'' RemovalRuleSchema \<noteq> None) \<and>
    (cx_distance_km f \<noteq> None \<longrightarrow>
      parsedRoleRule rules Conditional_Surcharge ''transport_per_km'' TransportRuleSchema \<noteq> None) \<and>
    kind_quantity Equipment (acc_lines (caix_site g catalog rules f)) =
      of_int (\<Sum>p\<leftarrow>openings f. opening_equipment p)"
proof -
  let ?R = "caix_rules_of rules"
  let ?rm = "parsedRoleRule rules Fixed_Adder ''remove_existing'' RemovalRuleSchema"
  let ?tr = "parsedRoleRule rules Conditional_Surcharge ''transport_per_km'' TransportRuleSchema"
  obtain a area n where os: "caix_openings g catalog ?R f = (a, area, n)" by (cases "caix_openings g catalog ?R f") auto
  define b where "b = removal_line f ?rm n (installation_line catalog (laborRule ?R) n a)"
  have site: "caix_site g catalog rules f = transport_line catalog f ?tr b"
    by (simp add: caix_site_def Let_def os b_def)
  note m = assms [unfolded site]
  have mb: "acc_missing b = []"
    using transport_line_extends [where Q = "\<lambda>_. True" and a = b and f = f and rule = "?tr"]
      extends_no_missing m by blast
  note mi = extends_no_missing [OF removal_line_extends mb [unfolded b_def]]
  note ma = extends_no_missing [OF installation_line_extends mi]
  have fold: "acc_missing (fst (fold (opening_step g catalog ?R) (openings f) (caix_checks ?R start_acc, 0, 0))) = []"
    using ma os by (simp add: caix_openings_def)
  have R: "has_rules ?R" using openings_fold_missing [OF fold] by (simp add: caix_checks_missing)
  have "kind_quantity Equipment (acc_lines (caix_checks ?R start_acc)) = 0"
    using extends_kind_quantity [OF caix_checks_extends, of Equipment ?R start_acc] by (simp add: start_acc_def)
  with openings_fold_complete [OF R fold] os
  have "kind_quantity Equipment (acc_lines (caix_site g catalog rules f)) =
      of_int (\<Sum>p\<leftarrow>openings f. opening_equipment p)" and "\<forall>p \<in> set (openings f). complete_opening p"
    by (simp_all add: site b_def caix_openings_def)
  moreover have "remove_existing f = Some True \<longrightarrow> ?rm \<noteq> None"
    using mb by (auto simp: b_def removal_line_def split: option.splits if_splits)
  moreover have "cx_distance_km f \<noteq> None \<longrightarrow> ?tr \<noteq> None"
    using m by (auto simp: transport_line_def split: option.splits if_splits)
  ultimately show ?thesis using R by blast
qed

section \<open>Areas and discount tiers\<close>

lemma roundArea_grid: "roundArea (of_int k / 10000) = of_int k / 10000"
  by (simp add: roundArea_def)

definition measured_area :: "caix_opening \<Rightarrow> rat" where
  "measured_area p = (case (width_mm p, height_mm p) of
     (Some w, Some h) \<Rightarrow> actual_area w h * of_int (op_quantity p) | _ \<Rightarrow> 0)"

lemma measured_area_grid: "\<exists>k. measured_area p = of_int k / 10000"
proof (cases "\<exists>w h. width_mm p = Some w \<and> height_mm p = Some h")
  case True
  then obtain w h where wh: "width_mm p = Some w" "height_mm p = Some h" by blast
  have "measured_area p = of_int (js_round (of_int (w * h) / 1000000 * 10000) * op_quantity p) / 10000"
    by (simp add: measured_area_def wh actual_area_def roundArea_def)
  then show ?thesis by blast
next
  case False
  then have "measured_area p = of_int 0 / 10000" by (auto simp: measured_area_def split: option.splits)
  then show ?thesis by blast
qed

lemma openings_fold_area:
  "fst (snd st) = of_int k / 10000 \<Longrightarrow>
   fst (snd (fold (opening_step g catalog R) ps st)) = fst (snd st) + (\<Sum>p\<leftarrow>ps. measured_area p)"
proof (induction ps arbitrary: st k)
  case (Cons p ps)
  obtain k' where k': "measured_area p = of_int k' / 10000" using measured_area_grid by blast
  have sum: "fst (snd st) + measured_area p = of_int (k + k') / 10000"
    by (simp add: k' Cons.prems add_divide_distrib)
  have "fst (snd (opening_step g catalog R p st)) = fst (snd st) + measured_area p"
  proof (cases "\<exists>w h. width_mm p = Some w \<and> height_mm p = Some h")
    case True
    then have "fst (snd (opening_step g catalog R p st)) = roundArea (fst (snd st) + measured_area p)"
      by (auto simp: opening_step_def Let_def measured_area_def split: prod.splits)
    then show ?thesis using sum roundArea_grid by metis
  next
    case False
    then show ?thesis
      by (auto simp: opening_step_def Let_def measured_area_def split: prod.splits option.splits)
  qed
  with Cons.IH [of "opening_step g catalog R p st" "k + k'"] sum show ?case by simp
qed simp

lemma find_sorted_desc:
  fixes ths :: "area_threshold list"
  assumes "find (\<lambda>t. over_area_m2 t < x) (sort_key (\<lambda>t. - over_area_m2 t) ths) = Some t"
  shows "t \<in> set ths \<and> over_area_m2 t < x \<and>
    (\<forall>t' \<in> set ths. over_area_m2 t' < x \<longrightarrow> over_area_m2 t' \<le> over_area_m2 t)"
proof -
  have "find P xs = Some t \<Longrightarrow> sorted (map f xs) \<Longrightarrow> t' \<in> set xs \<Longrightarrow> P t' \<Longrightarrow> f t \<le> f t'"
    for P xs and t t' :: area_threshold and f :: "area_threshold \<Rightarrow> rat"
    by (induction xs) (auto split: if_splits)
  from this [OF assms, of "\<lambda>t. - over_area_m2 t"]
  have "\<forall>t' \<in> set ths. over_area_m2 t' < x \<longrightarrow> over_area_m2 t' \<le> over_area_m2 t" by simp
  then show ?thesis using find_Some_set [OF assms] by simp
qed

lemma discount_percentage_tier:
  assumes "rule = Some ths"
  shows "(\<exists>t \<in> set ths. over_area_m2 t < x \<and> discount_percentage rule x = th_percentage t \<and>
      (\<forall>t' \<in> set ths. over_area_m2 t' < x \<longrightarrow> over_area_m2 t' \<le> over_area_m2 t)) \<or>
    (\<forall>t \<in> set ths. x \<le> over_area_m2 t) \<and> discount_percentage rule x = 0"
proof (cases "find (\<lambda>t. over_area_m2 t < x) (sort_key (\<lambda>t. - over_area_m2 t) ths)")
  case None
  then have "\<forall>t \<in> set ths. x \<le> over_area_m2 t" by (auto simp: find_None_iff not_less)
  moreover have "discount_percentage rule x = 0" using assms None by (simp add: discount_percentage_def)
  ultimately show ?thesis by blast
next
  case (Some t)
  then show ?thesis using assms find_sorted_desc [OF Some] by (auto simp: discount_percentage_def)
qed

section \<open>Properties of a caixilharia quote\<close>

lemma caix_parts:
  assumes "q = priceCaixilhariaQuote g fmt ex all catalog taxRate" and "rules = rules_for Caixilharia all"
    and "site = caix_site g catalog rules (facts ex)"
    and "margin = parsedRule rules Margin_Markup percentage_schema None"
    and "discountRule = parsedRoleRule rules Qty_Break ''area_discount'' AreaDiscountRuleSchema"
    and "taxRule = parsedRule rules Tax percentage_schema None"
    and "m = margin_stage fmt (sum_amounts (acc_lines site)) margin
      (miss_if (taxRule = None) ''caixilharia.iva'' (miss_if (discountRule = None) ''caixilharia.area_discount''
        (miss_if (margin = None) ''caixilharia.margin'' site)))"
  shows "vq_lines q = acc_lines (tax_stage fmt (vq_taxMinor q) (tax_percentage taxRate taxRule) taxRule m)"
    and "vq_subtotalMinor q = sum_amounts (acc_lines m)"
    and "vq_discountMinor q =
      js_round (vq_subtotalMinor q * discount_percentage discountRule (vq_totalAreaM2 q) / 100)"
    and "vq_totalMinor q = vq_subtotalMinor q - of_int (vq_discountMinor q) + of_int (vq_taxMinor q)"
    and "vq_blocked q \<longleftrightarrow> vq_missingRules q \<noteq> []" and "distinct (vq_missingRules q)"
    and "vq_missingRules q = [] \<Longrightarrow> acc_missing site = [] \<and> margin \<noteq> None \<and> discountRule \<noteq> None \<and>
      taxRule \<noteq> None \<and> (\<forall>s \<in> set (relevant_skus catalog (vq_lines q)). sku_currency s = STRATOS_CURRENCY)"
    and "vq_totalAreaM2 q = fst (snd (caix_openings g catalog (caix_rules_of rules) (facts ex)))"
    and "vq_taxMinor q = tax_minor (vq_subtotalMinor q - of_int (vq_discountMinor q)) (tax_percentage taxRate taxRule)"
  unfolding assms by (auto simp: priceCaixilhariaQuote_def Let_def split: if_splits)

lemma caix_site_pre:
  "\<exists>a. extends (caix_line catalog) start_acc a \<and> caix_site g catalog rules f =
     transport_line catalog f (parsedRoleRule rules Conditional_Surcharge ''transport_per_km'' TransportRuleSchema) a"
proof -
  let ?R = "caix_rules_of rules"
  obtain a area n where os: "caix_openings g catalog ?R f = (a, area, n)" by (cases "caix_openings g catalog ?R f") auto
  have a: "extends (caix_line catalog) start_acc a" using caix_openings_extends [of catalog g ?R f] os by simp
  show ?thesis
    unfolding caix_site_def Let_def os prod.case
    by (rule exI, rule conjI [OF _ refl],
        rule extends_trans [OF extends_trans [OF a installation_line_extends] removal_line_extends])
qed

lemma caix_site_extends:
  assumes "\<And>l. caix_line catalog l \<Longrightarrow> Q l"
    and "\<And>s d x p. s \<in> set catalog \<Longrightarrow> Q (catalogLine s d x Labor p)"
  shows "extends Q start_acc (caix_site g catalog rules f)"
proof -
  obtain a where a: "extends (caix_line catalog) start_acc a" "caix_site g catalog rules f =
     transport_line catalog f (parsedRoleRule rules Conditional_Surcharge ''transport_per_km'' TransportRuleSchema) a"
    using caix_site_pre by blast
  show ?thesis
    unfolding a(2) by (rule extends_trans [OF extends_mono [OF a(1) assms(1)] transport_line_extends]) (auto intro: assms(2))
qed

lemma caix_extends:
  assumes "q = priceCaixilhariaQuote g fmt ex all catalog taxRate"
    and "\<And>l. caix_line catalog l \<Longrightarrow> Q l" and "\<And>s d x p. s \<in> set catalog \<Longrightarrow> Q (catalogLine s d x Labor p)"
    and "\<And>d n p. Q (fixedLine d n Margin_Line p)" "\<And>d n p. Q (fixedLine d n Tax_Line p)"
  shows "\<exists>b. vq_lines q = acc_lines b \<and> extends Q start_acc b"
proof -
  note site = caix_site_extends [where Q = Q, OF assms(2,3), of catalog g "rules_for Caixilharia all" "facts ex"]
  show ?thesis
    unfolding caix_parts(1) [OF assms(1) refl refl refl refl refl refl]
    by (intro exI conjI, rule refl, rule extends_trans [OF _ tax_stage_extends],
        rule extends_trans [OF _ margin_stage_extends])
      (auto simp: assms(4,5) intro: site)
qed

lemma caix01_blocked: "\<not> vq_blocked (caix01_quote 2 18)"
  using caix01_result(4) caix_parts(5) [OF caix01_quote_def refl refl refl refl refl refl, of 2 18] by simp

text \<open>
  The figures of a quote are consistent: lines numbered from one without gaps, the subtotal the sum
  of every line but the tax line, the discount rounded from the tier's percentage of the subtotal, the
  total the subtotal less the discount plus the tax, no reason reported twice, and blocked exactly when
  one is reported.
\<close>

theorem caix_quote_arithmetic:
  assumes "q = priceCaixilhariaQuote g fmt ex all catalog taxRate"
  shows "map vl_position (vq_lines q) = [1..int (length (vq_lines q))] \<and>
    vq_subtotalMinor q = (\<Sum>l\<leftarrow>filter (\<lambda>l. vl_kind l \<noteq> Tax_Line) (vq_lines q). vl_amountMinor l) \<and>
    vq_totalMinor q = vq_subtotalMinor q - of_int (vq_discountMinor q) + of_int (vq_taxMinor q) \<and>
    distinct (vq_missingRules q) \<and> (vq_blocked q \<longleftrightarrow> vq_missingRules q \<noteq> []) \<and>
    (\<not> vq_blocked q \<longrightarrow>
      vq_totalMinor q = (\<Sum>l\<leftarrow>vq_lines q. vl_amountMinor l) - of_int (vq_discountMinor q))"
proof -
  let ?rules = "rules_for Caixilharia all"
  let ?site = "caix_site g catalog ?rules (facts ex)"
  let ?margin = "parsedRule ?rules Margin_Markup percentage_schema None"
  let ?disc = "parsedRoleRule ?rules Qty_Break ''area_discount'' AreaDiscountRuleSchema"
  let ?tax = "parsedRule ?rules Tax percentage_schema None"
  define m where "m = margin_stage fmt (sum_amounts (acc_lines ?site)) ?margin
      (miss_if (?tax = None) ''caixilharia.iva'' (miss_if (?disc = None) ''caixilharia.area_discount''
        (miss_if (?margin = None) ''caixilharia.margin'' ?site)))"
  note parts = caix_parts [OF assms refl refl refl refl refl m_def]
  have "extends (\<lambda>l. vl_kind l \<noteq> Tax_Line) start_acc m"
    unfolding m_def by (rule extends_trans [OF _ margin_stage_extends], (rule extends_then_miss(2) caix_site_extends)+)
      (auto simp: caix_line_def)
  then have "\<forall>l \<in> set (acc_lines m). vl_kind l \<noteq> Tax_Line" by (auto dest: extends_startD(3))
  then have "filter (\<lambda>l. vl_kind l \<noteq> Tax_Line) (vq_lines q) = acc_lines m"
    by (simp add: parts(1) tax_stage_def split: option.splits)
  moreover obtain b where "vq_lines q = acc_lines b" "extends (\<lambda>_. True) start_acc b"
    using caix_extends [OF assms, of "\<lambda>_. True"] by auto
  moreover have "vq_totalMinor q = sum_amounts (vq_lines q) - of_int (vq_discountMinor q)" if "\<not> vq_blocked q"
  proof -
    from that have "?tax \<noteq> None" using parts(7) unfolding parts(5) not_not by blast
    then show ?thesis unfolding parts(4) unfolding parts(1,2) sum_amounts_tax_stage by auto
  qed
  ultimately show ?thesis
    using extends_startD(1) parts(2,4,5,6) by (simp flip: sum_amounts_def)
qed

theorem caix_quote_arithmetic_witness:
  "vq_totalMinor (caix01_quote 2 18) =
     (\<Sum>l\<leftarrow>vq_lines (caix01_quote 2 18). vl_amountMinor l) - of_int (vq_discountMinor (caix01_quote 2 18)) \<and>
   vq_totalMinor (caix01_quote 2 18) = 566925"
  using caix_quote_arithmetic [OF caix01_quote_def, of 2 18] caix01_result(3) caix01_blocked by blast

text \<open>
  The engine fails closed: a quote that is not blocked has every rule it needs, including the removal
  and transport rules when the request asks for them, and knows width, height and type of every
  opening; it charges one set of hardware per operable unit (none for fixed panes) and one insect screen
  per requested unit; and every SKU it names is in the catalog and priced in euro.
\<close>

theorem caix_fail_closed:
  assumes "q = priceCaixilhariaQuote g fmt ex all catalog taxRate" and "\<not> vq_blocked q"
    and "rules = rules_for Caixilharia all" and "f = facts ex"
  shows "has_rules (caix_rules_of rules) \<and> (\<forall>p \<in> set (openings f). complete_opening p) \<and>
    (remove_existing f = Some True \<longrightarrow>
      parsedRoleRule rules Fixed_Adder ''remove_existing'' RemovalRuleSchema \<noteq> None) \<and>
    (cx_distance_km f \<noteq> None \<longrightarrow>
      parsedRoleRule rules Conditional_Surcharge ''transport_per_km'' TransportRuleSchema \<noteq> None) \<and>
    parsedRule rules Margin_Markup percentage_schema None \<noteq> None \<and>
    parsedRoleRule rules Qty_Break ''area_discount'' AreaDiscountRuleSchema \<noteq> None \<and>
    parsedRule rules Tax percentage_schema None \<noteq> None \<and>
    kind_quantity Equipment (vq_lines q) = of_int (\<Sum>p\<leftarrow>openings f. opening_equipment p) \<and>
    (\<forall>l \<in> set (vq_lines q). \<forall>i. vl_skuId l = Some i \<longrightarrow>
      (\<exists>s. find (\<lambda>s. sku_id s = i) catalog = Some s \<and> sku_currency s = STRATOS_CURRENCY))"
proof -
  note parts = caix_parts [OF assms(1,3) refl refl refl refl refl]
  have "vq_missingRules q = []" using assms(2) unfolding parts(5) by blast
  note none = parts(7) [OF this]
  have qty: "kind_quantity Equipment (vq_lines q) =
      kind_quantity Equipment (acc_lines (caix_site g catalog rules f))"
    unfolding parts(1) assms(4) by (simp add: tax_stage_def margin_stage_def split: option.splits)
  obtain b where b: "vq_lines q = acc_lines b"
      "extends (\<lambda>l. \<forall>i. vl_skuId l = Some i \<longrightarrow> (\<exists>s \<in> set catalog. sku_id s = i)) start_acc b"
    using caix_extends [OF assms(1), of "\<lambda>l. \<forall>i. vl_skuId l = Some i \<longrightarrow> (\<exists>s \<in> set catalog. sku_id s = i)"]
    by (auto simp: caix_line_def)
  have "\<forall>l \<in> set (vq_lines q). \<forall>i. vl_skuId l = Some i \<longrightarrow>
      (\<exists>s. find (\<lambda>s. sku_id s = i) catalog = Some s \<and> sku_currency s = STRATOS_CURRENCY)"
  proof (intro ballI allI impI)
    fix l i assume l: "l \<in> set (vq_lines q)" "vl_skuId l = Some i"
    then have "\<exists>s \<in> set catalog. sku_id s = i" using b by (auto dest: extends_startD(3))
    from relevant_skus_find [OF l this]
    show "\<exists>s. find (\<lambda>s. sku_id s = i) catalog = Some s \<and> sku_currency s = STRATOS_CURRENCY"
      using none by auto
  qed
  with caix_site_missing [OF conjunct1 [OF none]] none show ?thesis
    unfolding assms(4) qty [unfolded assms(4)] by (elim conjE, intro conjI) assumption+
qed

theorem caix_fail_closed_witness:
  "kind_quantity Equipment (vq_lines (caix01_quote 2 18)) = 5 \<and>
   list_all complete_opening (openings (facts (caix01 2 18)))"
proof -
  have "(\<Sum>p\<leftarrow>openings (facts (caix01 2 18)). opening_equipment p) = 5"
    by (simp add: caix01_def opening_equipment_def)
  then show ?thesis using caix_fail_closed [OF caix01_quote_def caix01_blocked refl refl] by (auto simp: list_all_iff)
qed

text \<open>
  The reported total area is the exact sum of the rounded areas of the measured openings times
  their quantities (the running rounding of the loop loses nothing), and the discount is the one of the
  highest threshold this area strictly exceeds, or none.
\<close>

theorem caix_area_discount:
  "let q = priceCaixilhariaQuote g fmt ex all catalog taxRate;
       rule = parsedRoleRule (rules_for Caixilharia all) Qty_Break ''area_discount'' AreaDiscountRuleSchema;
       ths = (case rule of Some ts \<Rightarrow> ts | None \<Rightarrow> []);
       area = (\<Sum>p\<leftarrow>openings (facts ex). measured_area p)
   in vq_totalAreaM2 q = area \<and>
     ((\<exists>t \<in> set ths. over_area_m2 t < area \<and>
         vq_discountMinor q = js_round (vq_subtotalMinor q * th_percentage t / 100) \<and>
         \<not> (\<exists>t' \<in> set ths. over_area_m2 t < over_area_m2 t' \<and> over_area_m2 t' < area)) \<or>
      (\<not> (\<exists>t \<in> set ths. over_area_m2 t < area)) \<and> vq_discountMinor q = 0)"
proof -
  define q where "q = priceCaixilhariaQuote g fmt ex all catalog taxRate"
  let ?rule = "parsedRoleRule (rules_for Caixilharia all) Qty_Break ''area_discount'' AreaDiscountRuleSchema"
  let ?area = "\<Sum>p\<leftarrow>openings (facts ex). measured_area p"
  note parts = caix_parts [OF q_def refl refl refl refl refl refl]
  have area: "vq_totalAreaM2 q = ?area"
    unfolding parts(8) caix_openings_def by (subst openings_fold_area [where k = 0]) simp_all
  show ?thesis
  proof (cases ?rule)
    case None
    then show ?thesis using area parts(3) by (simp add: q_def [symmetric] discount_percentage_def)
  next
    case (Some ths)
    from discount_percentage_tier [OF Some, of ?area] show ?thesis
      unfolding Let_def q_def [symmetric] parts(3) area Some option.case
      by (auto simp: not_less)
  qed
qed

theorem caix_area_discount_witness:
  "vq_totalAreaM2 (caix01_quote 10 18) = 2058 / 100 \<and>
   vq_discountMinor (caix01_quote 10 18) = js_round (vq_subtotalMinor (caix01_quote 10 18) * 4 / 100)"
proof -
  let ?rule = "parsedRoleRule (rules_for Caixilharia caix01_rules) Qty_Break ''area_discount'' AreaDiscountRuleSchema"
  have rule: "?rule = Some [\<lparr>over_area_m2 = 15, th_percentage = 4\<rparr>, \<lparr>over_area_m2 = 30, th_percentage = 7\<rparr>]"
    by code_simp
  have area: "(\<Sum>p\<leftarrow>openings (facts (caix01 10 18)). measured_area p) = 2058 / 100" by code_simp
  show ?thesis
    using caix_area_discount [of "\<lambda>s. s" "\<lambda>_. []" "caix01 10 18" caix01_rules caix01_skus None]
    unfolding Let_def rule area by (simp add: caix01_quote_def)
qed

text \<open>
  Every amount and the total of a quote are whole numbers of cents, except when a fractional
  chargeable distance is multiplied by a price per kilometre that does not make it whole: the transport
  line is the one amount the engine does not round.
\<close>

theorem caix_integral_amounts:
  "let q = priceCaixilhariaQuote g fmt ex all catalog taxRate;
       rule = parsedRoleRule (rules_for Caixilharia all) Conditional_Surcharge ''transport_per_km'' TransportRuleSchema;
       whole = (case (cx_distance_km (facts ex), rule) of
         (Some _, Some r) \<Rightarrow>
           (case sku_by_code catalog (tr_sku_code r) of
              Some s \<Rightarrow> is_integer (of_int (base_price_minor s) * chargeable_km (facts ex) r)
            | None \<Rightarrow> True)
       | _ \<Rightarrow> True)
   in ((\<forall>l \<in> set (vq_lines q). is_integer (vl_amountMinor l)) \<longleftrightarrow> whole) \<and>
      (is_integer (vq_totalMinor q) \<longleftrightarrow> whole)"
proof -
  define q where "q = priceCaixilhariaQuote g fmt ex all catalog taxRate"
  let ?rules = "rules_for Caixilharia all"
  let ?rule = "parsedRoleRule ?rules Conditional_Surcharge ''transport_per_km'' TransportRuleSchema"
  note parts = caix_parts [OF q_def refl refl refl refl refl refl]
  obtain pre where pre: "extends (caix_line catalog) start_acc pre"
    and site: "caix_site g catalog ?rules (facts ex) = transport_line catalog (facts ex) ?rule pre"
    using caix_site_pre by metis
  have ints: "\<forall>l \<in> set (acc_lines pre). is_integer (vl_amountMinor l)"
    using extends_startD(3) [OF pre] by (auto simp: caix_line_def)
  then have sum: "is_integer (sum_amounts (acc_lines pre))"
    unfolding sum_amounts_def by (intro is_integer_sum_list) blast
  have margin: "is_integer (sum_amounts (acc_lines (margin_stage fmt base margin a))) \<longleftrightarrow>
      is_integer (sum_amounts (acc_lines a))" for base margin a
    by (simp add: sum_amounts_margin_stage is_integer_add_of_int split: option.splits)
  have lines: "(\<forall>l \<in> set (vq_lines q). is_integer (vl_amountMinor l)) \<longleftrightarrow>
      (\<forall>l \<in> set (acc_lines (transport_line catalog (facts ex) ?rule pre)). is_integer (vl_amountMinor l))"
    unfolding parts(1) site by (auto simp: tax_stage_def margin_stage_def split: option.splits)
  have "is_integer (vq_totalMinor q) \<longleftrightarrow> is_integer (vq_subtotalMinor q)"
    using is_integer_add_of_int [of "vq_subtotalMinor q" "vq_taxMinor q - vq_discountMinor q"]
    unfolding parts(4) by (simp add: algebra_simps)
  then have total: "is_integer (vq_totalMinor q) \<longleftrightarrow>
      is_integer (sum_amounts (acc_lines (transport_line catalog (facts ex) ?rule pre)))"
    unfolding parts(2) margin site by simp
  show ?thesis
    using sum ints unfolding Let_def q_def [symmetric] lines total
    by (auto simp: transport_line_def requireSku_def is_integer_add_iff chargeable_km_def max_def
        split: option.splits if_splits)
qed

theorem caix_integral_amounts_witness:
  "\<not> is_integer (vq_totalMinor (caix01_quote 2 (37 / 2)))"
proof -
  let ?rule = "parsedRoleRule (rules_for Caixilharia caix01_rules) Conditional_Surcharge ''transport_per_km'' TransportRuleSchema"
  have "case (cx_distance_km (facts (caix01 2 (37 / 2))), ?rule) of
      (Some _, Some r) \<Rightarrow>
        (case sku_by_code caix01_skus (tr_sku_code r) of
           Some s \<Rightarrow> \<not> is_integer (of_int (base_price_minor s) * chargeable_km (facts (caix01 2 (37 / 2))) r)
         | None \<Rightarrow> False)
    | _ \<Rightarrow> False"
    by code_simp
  then show ?thesis
    using caix_integral_amounts [of "\<lambda>s. s" "\<lambda>_. []" "caix01 2 (37 / 2)" caix01_rules caix01_skus None]
    by (auto simp: Let_def caix01_quote_def split: option.splits)
qed

end
