(* ===== verification/Quote_Store.thy ===== *)
theory Quote_Store
  imports Entities Guarded_Update
begin

text \<open>
  The quote tables and their operations (\<open>quotes/quote.model-action.ts\<close>): replacing and deleting the
  quote of a request, and the conditional updates that move a quote from draft to sent. Identifiers
  generated by the database and the current time are arguments. A statement that the database rejects
  aborts its transaction, so an error carries no new state.
\<close>

section \<open>Columns with a width\<close>

text \<open>What PostgreSQL accepts in an \<open>int\<close>, a \<open>smallint\<close> and a \<open>numeric(p, s)\<close> column.\<close>

definition int_column :: "rat \<Rightarrow> int option" where
  "int_column x = (if is_integer x \<and> - 2147483648 \<le> x \<and> x \<le> 2147483647 then Some \<lfloor>x\<rfloor> else None)"

definition smallint_column :: "int \<Rightarrow> int option" where
  "smallint_column x = (if - 32768 \<le> x \<and> x \<le> 32767 then Some x else None)"

definition numeric_column :: "nat \<Rightarrow> nat \<Rightarrow> rat \<Rightarrow> rat option" where
  "numeric_column p s x = (let y = to_numeric s x in if \<bar>y\<bar> < 10 ^ (p - s) then Some y else None)"

section \<open>Replacing the quote of a request\<close>

datatype store_error = Currency_Must_Be_Eur | Column_Out_Of_Range

record quote_line_input =
  in_skuId :: "uuid option"
  in_description :: string
  in_quantity :: rat
  in_unitPriceMinor :: int
  in_amountMinor :: rat
  in_position :: int
  in_kind :: "line_kind option"

record replace_quote_input =
  rq_requestId :: uuid
  rq_orgId :: uuid
  rq_quoteNumber :: string
  rq_subtotalMinor :: rat
  rq_discountMinor :: int
  rq_totalMinor :: rat
  rq_leadTimeDays :: "int option"
  rq_currency :: string
  rq_lines :: "quote_line_input list"

definition quotes_of_request :: "uuid \<Rightarrow> db \<Rightarrow> quote list" where
  "quotes_of_request i d = filter (\<lambda>q. q_request_id q = i) (quotes d)"

text \<open>The deletion both operations start with: the lines of the request's quotes, then the quotes.\<close>

definition remove_quotes :: "uuid \<Rightarrow> db \<Rightarrow> db" where
  "remove_quotes i d =
     (let ids = map q_id (quotes_of_request i d) in
      if ids = [] then d
      else d\<lparr>quote_lines := filter (\<lambda>l. ql_quote_id l \<notin> set ids) (quote_lines d),
             quotes := filter (\<lambda>q. q_request_id q \<noteq> i) (quotes d)\<rparr>)"

definition new_quote_line :: "uuid \<Rightarrow> quote_line_input \<Rightarrow> quote_line_item option" where
  "new_quote_line quoteId l = do {
     qty \<leftarrow> numeric_column 12 2 (in_quantity l);
     unit \<leftarrow> int_column (of_int (in_unitPriceMinor l));
     amount \<leftarrow> int_column (in_amountMinor l);
     pos \<leftarrow> smallint_column (in_position l);
     Some \<lparr>ql_quote_id = quoteId, ql_sku_id = in_skuId l, ql_description = in_description l,
       ql_kind = (case in_kind l of Some k \<Rightarrow> k | None \<Rightarrow> Equipment), ql_quantity = qty,
       ql_unit_price_minor = unit, ql_amount_minor = amount, ql_position = pos\<rparr>
   }"

definition new_quote :: "uuid \<Rightarrow> replace_quote_input \<Rightarrow> quote option" where
  "new_quote newId inp = do {
     subtotal \<leftarrow> int_column (rq_subtotalMinor inp);
     discount \<leftarrow> int_column (of_int (rq_discountMinor inp));
     total \<leftarrow> int_column (rq_totalMinor inp);
     lead \<leftarrow> (case rq_leadTimeDays inp of None \<Rightarrow> Some None | Some n \<Rightarrow> map_option Some (smallint_column n));
     Some \<lparr>q_id = newId, q_org_id = rq_orgId inp, q_request_id = rq_requestId inp,
       quote_number = rq_quoteNumber inp, q_status = Q_Draft, subtotal_minor = subtotal,
       discount_minor = discount, total_minor = total, q_currency = STRATOS_CURRENCY,
       q_lead_time_days = lead, approved_by = None, pdf_storage_url = None, pdf_generated_at = None,
       email_draft_subject = None, email_draft_body = None, email_sent_at = None, email_recipient = None,
       email_provider_message_id = None, email_delivery_started_at = None\<rparr>
   }"

definition replaceForRequest :: "uuid \<Rightarrow> replace_quote_input \<Rightarrow> db \<Rightarrow> store_error + db" where
  "replaceForRequest newId inp d =
     (if \<not> isEuroCurrency (rq_currency inp) then Inl Currency_Must_Be_Eur
      else (let d = remove_quotes (rq_requestId inp) d in
        (case (new_quote newId inp, those (map (new_quote_line newId) (rq_lines inp))) of
           (Some q, Some ls) \<Rightarrow> Inr (d\<lparr>quotes := quotes d @ [q], quote_lines := quote_lines d @ ls\<rparr>)
         | _ \<Rightarrow> Inl Column_Out_Of_Range)))"

definition deleteForRequest :: "uuid \<Rightarrow> db \<Rightarrow> db" where
  "deleteForRequest i d = (if quotes_of_request i d = [] then d else remove_quotes i d)"

section \<open>Reads\<close>

definition lines_of_quote :: "uuid \<Rightarrow> db \<Rightarrow> quote_line_item list" where
  "lines_of_quote i d = sort_key ql_position (filter (\<lambda>l. ql_quote_id l = i) (quote_lines d))"

definition getForRequest :: "uuid \<Rightarrow> db \<Rightarrow> (quote \<times> quote_line_item list) option" where
  "getForRequest i d = map_option (\<lambda>q. (q, lines_of_quote (q_id q) d)) (find (\<lambda>q. q_request_id q = i) (quotes d))"

definition getByIdWithLines :: "uuid \<Rightarrow> db \<Rightarrow> (quote \<times> quote_line_item list) option" where
  "getByIdWithLines i d = map_option (\<lambda>q. (q, lines_of_quote (q_id q) d)) (find (\<lambda>q. q_id q = i) (quotes d))"

section \<open>Conditional transitions\<close>

definition tryClaimForApproval :: "uuid \<Rightarrow> uuid option \<Rightarrow> db \<Rightarrow> bool \<times> db" where
  "tryClaimForApproval quoteId approvedBy d =
     (let P = (\<lambda>q. q_id q = quoteId \<and> q_status q = Q_Draft) in
      (0 < affected P (quotes d),
       d\<lparr>quotes := update_where P (\<lambda>q. q\<lparr>q_status := Q_Approved, approved_by := approvedBy\<rparr>) (quotes d)\<rparr>))"

definition markReady :: "uuid \<Rightarrow> string \<Rightarrow> millis \<Rightarrow> db \<Rightarrow> bool \<times> db" where
  "markReady quoteId url now d =
     (let P = (\<lambda>q. q_id q = quoteId \<and> q_status q = Q_Approved) in
      (0 < affected P (quotes d),
       d\<lparr>quotes := update_where P
           (\<lambda>q. q\<lparr>q_status := Q_Ready, pdf_storage_url := Some url, pdf_generated_at := Some now\<rparr>) (quotes d)\<rparr>))"

definition tryStartDelivery :: "uuid \<Rightarrow> uuid \<Rightarrow> millis \<Rightarrow> db \<Rightarrow> bool \<times> db" where
  "tryStartDelivery quoteId orgId startedAt d =
     (let P = (\<lambda>q. q_id q = quoteId \<and> q_org_id q = orgId \<and> q_status q = Q_Ready \<and>
            email_delivery_started_at q = None) in
      (0 < affected P (quotes d),
       d\<lparr>quotes := update_where P (\<lambda>q. q\<lparr>email_delivery_started_at := Some startedAt\<rparr>) (quotes d)\<rparr>))"

definition markSent :: "uuid \<Rightarrow> uuid \<Rightarrow> string \<Rightarrow> string \<Rightarrow> millis \<Rightarrow> db \<Rightarrow> bool \<times> db" where
  "markSent quoteId orgId recipient messageId sentAt d =
     (let P = (\<lambda>q. q_id q = quoteId \<and> q_org_id q = orgId \<and> q_status q = Q_Ready) in
      (0 < affected P (quotes d),
       d\<lparr>quotes := update_where P
           (\<lambda>q. q\<lparr>q_status := Q_Sent, email_sent_at := Some sentAt, email_recipient := Some recipient,
              email_provider_message_id := Some messageId\<rparr>) (quotes d)\<rparr>))"

definition revertToDraft :: "uuid \<Rightarrow> db \<Rightarrow> db" where
  "revertToDraft quoteId d =
     d\<lparr>quotes := update_where (\<lambda>q. q_id q = quoteId \<and> q_status q = Q_Approved)
        (\<lambda>q. q\<lparr>q_status := Q_Draft, approved_by := None\<rparr>) (quotes d)\<rparr>"

definition saveEmailDraft :: "uuid \<Rightarrow> string \<Rightarrow> string \<Rightarrow> db \<Rightarrow> bool \<times> db" where
  "saveEmailDraft quoteId subject body d =
     (let P = (\<lambda>q. q_id q = quoteId) in
      (0 < affected P (quotes d),
       d\<lparr>quotes := update_where P
           (\<lambda>q. q\<lparr>email_draft_subject := Some subject, email_draft_body := Some body\<rparr>) (quotes d)\<rparr>))"

section \<open>The conditional transitions meet the contract\<close>

lemma guarded_update_quotes:
  assumes "\<And>p q. P q \<Longrightarrow> \<not> P (f p q)"
  shows "guarded_update (\<lambda>d. 0 < affected P (quotes d))
    (\<lambda>p d. (0 < affected P (quotes d), d\<lparr>quotes := update_where P (f p) (quotes d)\<rparr>))"
  by unfold_locales (use assms in \<open>auto simp: affected_pos update_where_none set_update_where
    affected_def filter_empty_conv split: if_splits\<close>)

definition claimable :: "uuid \<Rightarrow> quote \<Rightarrow> bool" where
  "claimable quoteId q \<longleftrightarrow> q_id q = quoteId \<and> q_status q = Q_Draft"

definition deliverable :: "uuid \<Rightarrow> uuid \<Rightarrow> quote \<Rightarrow> bool" where
  "deliverable quoteId orgId q \<longleftrightarrow> q_id q = quoteId \<and> q_org_id q = orgId \<and> q_status q = Q_Ready \<and>
     email_delivery_started_at q = None"

definition sendable :: "uuid \<Rightarrow> uuid \<Rightarrow> quote \<Rightarrow> bool" where
  "sendable quoteId orgId q \<longleftrightarrow> q_id q = quoteId \<and> q_org_id q = orgId \<and> q_status q = Q_Ready"

interpretation approval: guarded_update
  "\<lambda>d. 0 < affected (claimable quoteId) (quotes d)" "tryClaimForApproval quoteId"
  for quoteId
proof -
  have "tryClaimForApproval quoteId = (\<lambda>u d. (0 < affected (claimable quoteId) (quotes d),
      d\<lparr>quotes := update_where (claimable quoteId) (\<lambda>q. q\<lparr>q_status := Q_Approved, approved_by := u\<rparr>) (quotes d)\<rparr>))"
    by (intro ext) (simp add: tryClaimForApproval_def claimable_def [abs_def] Let_def)
  then show "guarded_update (\<lambda>d. 0 < affected (claimable quoteId) (quotes d)) (tryClaimForApproval quoteId)"
    by (simp only:) (rule guarded_update_quotes, simp add: claimable_def)
qed

interpretation delivery: guarded_update
  "\<lambda>d. 0 < affected (deliverable quoteId orgId) (quotes d)" "tryStartDelivery quoteId orgId"
  for quoteId orgId
proof -
  have "tryStartDelivery quoteId orgId = (\<lambda>t d. (0 < affected (deliverable quoteId orgId) (quotes d),
      d\<lparr>quotes := update_where (deliverable quoteId orgId) (\<lambda>q. q\<lparr>email_delivery_started_at := Some t\<rparr>) (quotes d)\<rparr>))"
    by (intro ext) (simp add: tryStartDelivery_def deliverable_def [abs_def] Let_def)
  then show "guarded_update (\<lambda>d. 0 < affected (deliverable quoteId orgId) (quotes d)) (tryStartDelivery quoteId orgId)"
    by (simp only:) (rule guarded_update_quotes, simp add: deliverable_def)
qed

text \<open>
  Exactly one approver wins: when any number of callers try to claim the same draft quote, exactly
  one of them is told that it holds the claim, the first to reach the database, and the quote records
  that caller; when the quote is not a draft, nobody is and nothing changes.
\<close>

theorem claim_exactly_once:
  assumes "0 < affected (claimable quoteId) (quotes d)"
  shows "fst (run_attempts (tryClaimForApproval quoteId) (u # us) d) = True # map (\<lambda>_. False) us \<and>
    quotes (snd (run_attempts (tryClaimForApproval quoteId) (u # us) d)) =
      update_where (claimable quoteId) (\<lambda>q. q\<lparr>q_status := Q_Approved, approved_by := u\<rparr>) (quotes d) \<and>
    run_attempts (tryClaimForApproval quoteId) us (snd (tryClaimForApproval quoteId u d)) =
      (map (\<lambda>_. False) us, snd (tryClaimForApproval quoteId u d))"
  using approval.first_wins [OF assms, of u us] approval.consumes [OF assms, of u]
  by (simp add: approval.disabled_attempts tryClaimForApproval_def claimable_def [abs_def] Let_def)

definition demo_quote :: "uuid \<Rightarrow> uuid \<Rightarrow> quote_status \<Rightarrow> quote" where
  "demo_quote i r st = \<lparr>q_id = i, q_org_id = ''org'', q_request_id = r, quote_number = ''Q-'' @ r, q_status = st,
     subtotal_minor = 100, discount_minor = 0, total_minor = 100, q_currency = STRATOS_CURRENCY,
     q_lead_time_days = None, approved_by = None, pdf_storage_url = None, pdf_generated_at = None,
     email_draft_subject = None, email_draft_body = None, email_sent_at = None, email_recipient = None,
     email_provider_message_id = None, email_delivery_started_at = None\<rparr>"

definition demo_db :: "quote_status \<Rightarrow> db" where
  "demo_db st = empty_db\<lparr>quotes := [demo_quote ''q1'' ''r1'' st, demo_quote ''q2'' ''r2'' st]\<rparr>"

theorem claim_exactly_once_witness:
  "fst (run_attempts (tryClaimForApproval ''q1'') [Some ''ana'', Some ''rui'', None] (demo_db Q_Draft)) =
     [True, False, False]"
proof -
  have "0 < affected (claimable ''q1'') (quotes (demo_db Q_Draft))"
    by (simp add: demo_db_def demo_quote_def claimable_def affected_def)
  from claim_exactly_once [OF this, of "Some ''ana''" "[Some ''rui'', None]"] show ?thesis by simp
qed

section \<open>What replacing does\<close>

lemma remove_quotes_fields [simp]:
  "quotes (remove_quotes i d) = filter (\<lambda>q. q_request_id q \<noteq> i) (quotes d)"
  "requests (remove_quotes i d) = requests d" "line_items (remove_quotes i d) = line_items d"
  "skus (remove_quotes i d) = skus d" "pricing_rules (remove_quotes i d) = pricing_rules d"
  "events (remove_quotes i d) = events d" "extractions (remove_quotes i d) = extractions d"
  "candidates (remove_quotes i d) = candidates d" "attachments (remove_quotes i d) = attachments d" "clarifications (remove_quotes i d) = clarifications d"
  "tool_calls (remove_quotes i d) = tool_calls d" "iva_rates (remove_quotes i d) = iva_rates d"
  "clock (remove_quotes i d) = clock d"
  by (auto simp: remove_quotes_def Let_def quotes_of_request_def filter_empty_conv intro!: filter_True [symmetric])

lemma remove_quotes_lines:
  "quote_lines (remove_quotes i d) =
     filter (\<lambda>l. ql_quote_id l \<notin> q_id ` set (quotes_of_request i d)) (quote_lines d)"
  by (auto simp: remove_quotes_def Let_def intro!: filter_True [symmetric])

lemma deleteForRequest_eq: "deleteForRequest i d = remove_quotes i d"
  by (simp add: deleteForRequest_def remove_quotes_def)

lemma those_Some_iff: "those xs = Some ys \<longleftrightarrow> xs = map Some ys"
  by (induction xs arbitrary: ys) (auto split: option.splits simp: Cons_eq_map_conv)

lemma those_map_Some_id [simp]: "those (map Some xs) = Some xs"
  by (simp add: those_Some_iff)

lemma int_column_Some: "int_column x = Some n \<Longrightarrow> of_int n = x"
  by (auto simp: int_column_def is_integer_def split: if_splits)

lemma new_quote_Some:
  "new_quote i inp = Some q \<Longrightarrow> q_id q = i \<and> q_request_id q = rq_requestId inp \<and> q_status q = Q_Draft \<and>
     q_org_id q = rq_orgId inp \<and> of_int (subtotal_minor q) = rq_subtotalMinor inp \<and>
     discount_minor q = rq_discountMinor inp \<and> of_int (total_minor q) = rq_totalMinor inp \<and> isEuroCurrency (q_currency q)"
  by (auto simp: new_quote_def bind_eq_Some_conv dest!: int_column_Some)

lemma new_quote_line_Some:
  "new_quote_line i l = Some r \<Longrightarrow> ql_quote_id r = i \<and> of_int (ql_amount_minor r) = in_amountMinor l \<and>
     ql_position r = in_position l"
  by (auto simp: new_quote_line_def bind_eq_Some_conv smallint_column_def dest!: int_column_Some split: if_splits)

lemma replaceForRequest_Inr:
  "replaceForRequest i inp d = Inr d' \<longleftrightarrow> isEuroCurrency (rq_currency inp) \<and>
     (\<exists>q ls. new_quote i inp = Some q \<and> map (new_quote_line i) (rq_lines inp) = map Some ls \<and>
       d' = (remove_quotes (rq_requestId inp) d)
         \<lparr>quotes := quotes (remove_quotes (rq_requestId inp) d) @ [q],
          quote_lines := quote_lines (remove_quotes (rq_requestId inp) d) @ ls\<rparr>)"
  by (auto simp: replaceForRequest_def Let_def those_Some_iff split: option.splits)

lemma replaceForRequest_fraction:
  assumes "\<not> is_integer (rq_totalMinor inp)"
  shows "\<exists>e. replaceForRequest i inp d = Inl e"
proof (cases "replaceForRequest i inp d")
  case (Inr d')
  then obtain q where "new_quote i inp = Some q" by (auto simp: replaceForRequest_Inr)
  from new_quote_Some [OF this] assms show ?thesis by (metis is_integer_of_int)
qed blast

lemma replaceForRequest_effect:
  assumes "replaceForRequest newId inp d = Inr d'"
    and "newId \<notin> ql_quote_id ` set (quote_lines d)"
  shows "(\<exists>q. quotes_of_request (rq_requestId inp) d' = [q] \<and> q_id q = newId \<and> q_status q = Q_Draft \<and>
      of_int (total_minor q) = rq_totalMinor inp \<and> of_int (subtotal_minor q) = rq_subtotalMinor inp \<and>
      discount_minor q = rq_discountMinor inp) \<and>
    map (\<lambda>l. (ql_position l, of_int (ql_amount_minor l))) (filter (\<lambda>l. ql_quote_id l = newId) (quote_lines d')) =
      map (\<lambda>l. (in_position l, in_amountMinor l)) (rq_lines inp) \<and>
    (\<forall>r. r \<noteq> rq_requestId inp \<longrightarrow> quotes_of_request r d' = quotes_of_request r d) \<and>
    (\<forall>i. i \<noteq> newId \<longrightarrow> i \<notin> q_id ` set (quotes_of_request (rq_requestId inp) d) \<longrightarrow>
      lines_of_quote i d' = lines_of_quote i d)"
proof -
  let ?r = "rq_requestId inp"
  obtain q ls where q: "new_quote newId inp = Some q" and ls: "map (new_quote_line newId) (rq_lines inp) = map Some ls"
    and d': "quotes d' = filter (\<lambda>q. q_request_id q \<noteq> ?r) (quotes d) @ [q]"
      "quote_lines d' = quote_lines (remove_quotes ?r d) @ ls"
    using assms(1) by (auto simp: replaceForRequest_Inr)
  have own: "ql_quote_id l = newId" if "l \<in> set ls" for l
  proof -
    have "Some l \<in> set (map (new_quote_line newId) (rq_lines inp))" unfolding ls using that by simp
    then show ?thesis by (auto dest!: new_quote_line_Some [OF sym])
  qed
  have none: "filter (\<lambda>l. ql_quote_id l = newId) (quote_lines (remove_quotes ?r d)) = []"
    using assms(2) by (auto simp: remove_quotes_lines filter_empty_conv)
  have "map (\<lambda>l. (ql_position l, of_int (ql_amount_minor l))) ls' =
      map (\<lambda>l. (in_position l, in_amountMinor l)) ins"
    if "map (new_quote_line newId) ins = map Some ls'" for ins ls'
    using that by (induction ins arbitrary: ls') (auto dest!: new_quote_line_Some)
  from this [OF ls] have "map (\<lambda>l. (ql_position l, of_int (ql_amount_minor l)))
      (filter (\<lambda>l. ql_quote_id l = newId) (quote_lines d')) = map (\<lambda>l. (in_position l, in_amountMinor l)) (rq_lines inp)"
    using own by (simp add: d' none filter_True)
  moreover have "lines_of_quote i d' = lines_of_quote i d"
    if "i \<noteq> newId" "i \<notin> q_id ` set (quotes_of_request ?r d)" for i
  proof -
    have "filter (\<lambda>l. ql_quote_id l = i) ls = []" using own that by (auto simp: filter_empty_conv)
    moreover have "filter (\<lambda>l. ql_quote_id l = i) (quote_lines (remove_quotes ?r d)) =
        filter (\<lambda>l. ql_quote_id l = i) (quote_lines d)"
      using that by (auto simp: remove_quotes_lines intro: filter_cong)
    ultimately show ?thesis by (simp add: lines_of_quote_def d')
  qed
  moreover have "quotes_of_request r d' = quotes_of_request r d" if "r \<noteq> ?r" for r
    using that new_quote_Some [OF q] by (auto simp: quotes_of_request_def d' intro: filter_cong)
  ultimately show ?thesis
    using new_quote_Some [OF q] by (auto simp: quotes_of_request_def d')
qed

text \<open>
  Replacing the quote of a request leaves exactly one quote for it, a draft with the given figures
  and exactly the given lines in their positions, however many there were before, and touches no quote
  of another request and none of their lines.
\<close>

theorem replaceForRequest_replaces:
  assumes "replaceForRequest newId inp d = Inr d'"
    and "newId \<notin> ql_quote_id ` set (quote_lines d)"
  shows "(\<exists>q. quotes_of_request (rq_requestId inp) d' = [q] \<and> q_id q = newId \<and> q_status q = Q_Draft \<and>
      of_int (total_minor q) = rq_totalMinor inp \<and> of_int (subtotal_minor q) = rq_subtotalMinor inp \<and>
      discount_minor q = rq_discountMinor inp) \<and>
    map (\<lambda>l. (ql_position l, of_int (ql_amount_minor l))) (filter (\<lambda>l. ql_quote_id l = newId) (quote_lines d')) =
      map (\<lambda>l. (in_position l, in_amountMinor l)) (rq_lines inp) \<and>
    (\<forall>r. r \<noteq> rq_requestId inp \<longrightarrow> quotes_of_request r d' = quotes_of_request r d) \<and>
    (\<forall>i. i \<noteq> newId \<longrightarrow> i \<notin> q_id ` set (quotes_of_request (rq_requestId inp) d) \<longrightarrow>
      lines_of_quote i d' = lines_of_quote i d)"
  using assms by (rule replaceForRequest_effect)

theorem replaceForRequest_replaces_witness:
  "\<exists>d'. replaceForRequest ''q3'' \<lparr>rq_requestId = ''r1'', rq_orgId = ''org'', rq_quoteNumber = ''Q-r1'',
      rq_subtotalMinor = 250, rq_discountMinor = 0, rq_totalMinor = 250, rq_leadTimeDays = Some 5,
      rq_currency = STRATOS_CURRENCY, rq_lines = [\<lparr>in_skuId = None, in_description = ''x'', in_quantity = 5 / 2,
        in_unitPriceMinor = 100, in_amountMinor = 250, in_position = 1, in_kind = None\<rparr>]\<rparr> (demo_db Q_Draft) = Inr d' \<and>
    (\<exists>q. quotes_of_request ''r1'' d' = [q] \<and> q_id q = ''q3'' \<and> total_minor q = 250)"
proof -
  let ?inp = "\<lparr>rq_requestId = ''r1'', rq_orgId = ''org'', rq_quoteNumber = ''Q-r1'',
      rq_subtotalMinor = 250, rq_discountMinor = 0, rq_totalMinor = 250, rq_leadTimeDays = Some 5,
      rq_currency = STRATOS_CURRENCY, rq_lines = [\<lparr>in_skuId = None, in_description = ''x'', in_quantity = 5 / 2,
        in_unitPriceMinor = 100, in_amountMinor = 250, in_position = 1, in_kind = None\<rparr>]\<rparr>"
  have "case replaceForRequest ''q3'' ?inp (demo_db Q_Draft) of Inr _ \<Rightarrow> True | Inl _ \<Rightarrow> False"
    by code_simp
  then obtain d' where d': "replaceForRequest ''q3'' ?inp (demo_db Q_Draft) = Inr d'"
    by (cases "replaceForRequest ''q3'' ?inp (demo_db Q_Draft)") auto
  have "''q3'' \<notin> ql_quote_id ` set (quote_lines (demo_db Q_Draft))" by (simp add: demo_db_def empty_db_def)
  from replaceForRequest_replaces [OF d' this] d' show ?thesis by auto
qed

end
