(* ===== verification/Request_Store.thy ===== *)
theory Request_Store
  imports Entities Guarded_Update
begin

text \<open>
  The \<open>requests\<close> table: the conditional status updates of \<open>requests/requests.model-action.ts\<close>, which keep
  the terminal statuses terminal, and the decline handler of \<open>requests/actions/request.actions.ts\<close>. The
  database clock is the \<open>clock\<close> of the state; whether an audit event can be written is an argument of the
  handler that depends on it.
\<close>

section \<open>Status updates\<close>

definition TERMINAL_STATUSES :: "request_status list" where
  "TERMINAL_STATUSES = [St_Declined, St_Sent]"

definition update_requests :: "(request \<Rightarrow> bool) \<Rightarrow> (request \<Rightarrow> request) \<Rightarrow> db \<Rightarrow> db" where
  "update_requests P f d = d\<lparr>requests := update_where P f (requests d)\<rparr>"

definition setCurrentNode :: "uuid \<Rightarrow> current_node \<Rightarrow> db \<Rightarrow> db" where
  "setCurrentNode i node = update_requests (\<lambda>r. r_id r = i) (\<lambda>r. r\<lparr>current_node := node\<rparr>)"

definition setStatus :: "uuid \<Rightarrow> request_status \<Rightarrow> db \<Rightarrow> db" where
  "setStatus i st =
     update_requests (\<lambda>r. r_id r = i \<and> status r \<notin> set TERMINAL_STATUSES) (\<lambda>r. r\<lparr>status := st\<rparr>)"

text \<open>An absent \<open>validSources\<close> is the empty list, as \<open>validSources?.length\<close> treats it.\<close>

definition trySetStatus :: "uuid \<Rightarrow> request_status \<Rightarrow> request_status list \<Rightarrow> db \<Rightarrow> bool \<times> db" where
  "trySetStatus i st validSources d =
     (let P = (\<lambda>r. r_id r = i \<and> (if validSources \<noteq> [] then status r \<in> set validSources else status r \<noteq> st)) in
      (0 < affected P (requests d), update_requests P (\<lambda>r. r\<lparr>status := st\<rparr>) d))"

definition markProcessing :: "uuid \<Rightarrow> db \<Rightarrow> db" where
  "markProcessing i d =
     update_requests (\<lambda>r. r_id r = i \<and> status r \<notin> set TERMINAL_STATUSES)
       (\<lambda>r. r\<lparr>status := St_Parsing, processing_started_at := Some (clock d)\<rparr>) d"

text \<open>The sweep's query; a window that is not positive is refused (\<open>None\<close>).\<close>

definition stale :: "int \<Rightarrow> db \<Rightarrow> request \<Rightarrow> bool" where
  "stale secs d r \<longleftrightarrow> status r = St_Parsing \<and>
     (case processing_started_at r of
        Some t \<Rightarrow> t < clock d - secs * 1000
      | None \<Rightarrow> r_created_at r < clock d - secs * 1000)"

definition findStaleParsing :: "int \<Rightarrow> db \<Rightarrow> request list option" where
  "findStaleParsing secs d = (if secs \<le> 0 then None else Some (filter (stale secs d) (requests d)))"

section \<open>Extractions\<close>

text \<open>The extraction row of a request of the organisation.\<close>

definition findByRequestId :: "uuid \<Rightarrow> uuid \<Rightarrow> db \<Rightarrow> extraction_row option" where
  "findByRequestId requestId orgId d =
     (if request_in_org requestId orgId d then find (\<lambda>e. ex_request_id e = requestId) (extractions d) else None)"

lemma findByRequestId_cong:
  "requests d = requests e \<Longrightarrow> extractions d = extractions e \<Longrightarrow> findByRequestId r orgId d = findByRequestId r orgId e"
  by (simp only: findByRequestId_def request_in_org_def)

section \<open>Declining a request\<close>

definition DECLINE_SOURCES :: "request_status list" where
  "DECLINE_SOURCES = [St_Needs_Review, St_Needs_Clarification, St_Priced, St_Ready, St_Failed]"

datatype decline_error = Not_Declinable | Audit_Failed

text \<open>\<open>emit_ok\<close>: whether the audit event could be written.\<close>

definition declineRequest ::
  "bool \<Rightarrow> request \<Rightarrow> string \<Rightarrow> uuid option \<Rightarrow> db \<Rightarrow> (decline_error + request_status) \<times> db" where
  "declineRequest emit_ok request reason userId d =
     (let originalStatus = status request;
          (didTransition, d1) = trySetStatus (r_id request) St_Declined DECLINE_SOURCES d
      in if \<not> didTransition then
           (case find_request (r_id request) d1 of
              Some current \<Rightarrow> (if status current = St_Declined then Inr St_Declined else Inl Not_Declinable, d1)
            | None \<Rightarrow> (Inl Not_Declinable, d1))
         else if emit_ok then
           (Inr St_Declined, emit (Some (r_org_id request)) (Some (r_id request)) None userId (Ev_Request_Declined reason) d1)
         else (Inl Audit_Failed, snd (trySetStatus (r_id request) originalStatus [] d1)))"

section \<open>Facts\<close>

lemma update_requests_fields [simp, row_simps]:
  "requests (update_requests P f d) = update_where P f (requests d)"
  "line_items (update_requests P f d) = line_items d" "skus (update_requests P f d) = skus d"
  "quotes (update_requests P f d) = quotes d" "quote_lines (update_requests P f d) = quote_lines d"
  "pricing_rules (update_requests P f d) = pricing_rules d" "events (update_requests P f d) = events d" "attachments (update_requests P f d) = attachments d" "clarifications (update_requests P f d) = clarifications d"
  "tool_calls (update_requests P f d) = tool_calls d"
  "extractions (update_requests P f d) = extractions d" "clock (update_requests P f d) = clock d"
  "candidates (update_requests P f d) = candidates d" "iva_rates (update_requests P f d) = iva_rates d"
  by (simp_all add: update_requests_def)

lemma set_status_events [simp, row_simps]:
  "events (setStatus i st d) = events d" "events (markProcessing i d) = events d"
  "events (setCurrentNode i n d) = events d" "events (snd (trySetStatus i st vs d)) = events d"
  "quotes (setStatus i st d) = quotes d" "quotes (markProcessing i d) = quotes d"
  "quotes (setCurrentNode i n d) = quotes d" "quotes (snd (trySetStatus i st vs d)) = quotes d"
  "clock (setStatus i st d) = clock d" "clock (markProcessing i d) = clock d"
  "clock (setCurrentNode i n d) = clock d"
  by (simp_all add: setStatus_def markProcessing_def setCurrentNode_def trySetStatus_def Let_def)

lemma find_request_update:
  "(\<And>r. r_id (f r) = r_id r) \<Longrightarrow>
   find_request i (update_requests P f d) = map_option (\<lambda>r. if P r then f r else r) (find_request i d)"
  by (simp add: find_request_def find_update_where)

lemma find_request_setStatus:
  "find_request j (setStatus i st d) = map_option (\<lambda>r. if r_id r = i \<and> status r \<notin> {St_Declined, St_Sent}
     then r\<lparr>status := st\<rparr> else r) (find_request j d)"
  by (simp add: setStatus_def find_request_update TERMINAL_STATUSES_def)

lemma find_request_setCurrentNode:
  "find_request j (setCurrentNode i n d) =
     map_option (\<lambda>r. if r_id r = i then r\<lparr>current_node := n\<rparr> else r) (find_request j d)"
  by (simp add: setCurrentNode_def find_request_update)

lemma find_request_markProcessing:
  "find_request j (markProcessing i d) = map_option (\<lambda>r. if r_id r = i \<and> status r \<notin> {St_Declined, St_Sent}
     then r\<lparr>status := St_Parsing, processing_started_at := Some (clock d)\<rparr> else r) (find_request j d)"
  by (simp add: markProcessing_def find_request_update TERMINAL_STATUSES_def)

lemma find_request_emit [simp]: "find_request i (emit a b c u p d) = find_request i d"
  by (simp add: find_request_def)

definition from_sources :: "uuid \<Rightarrow> request_status list \<Rightarrow> request \<Rightarrow> bool" where
  "from_sources i sources r \<longleftrightarrow> r_id r = i \<and> status r \<in> set sources"

text \<open>A transition into a status that is not one of its sources is won by the first caller only.\<close>

interpretation decline: guarded_update
  "\<lambda>d. 0 < affected (from_sources i DECLINE_SOURCES) (requests d)"
  "\<lambda>u :: uuid option. trySetStatus i St_Declined DECLINE_SOURCES"
  for i
  by unfold_locales
    (auto simp: trySetStatus_def Let_def from_sources_def [abs_def] affected_pos update_where_none update_requests_def
      affected_def filter_empty_conv DECLINE_SOURCES_def set_update_where split: if_splits)

lemma find_distinct:
  assumes "distinct (map r_id rows)" and "find (\<lambda>r. r_id r = i) rows = Some cur" and "r \<in> set rows" and "r_id r = i"
  shows "r = cur"
  using find_Some_set [OF assms(2)] assms(1,3,4) by (auto simp: distinct_map inj_on_def)

lemma trySetStatus_found:
  assumes "find_request i d = Some cur" and "distinct (map r_id (requests d))"
  shows "fst (trySetStatus i st vs d) \<longleftrightarrow> (if vs \<noteq> [] then status cur \<in> set vs else status cur \<noteq> st)"
    and "\<not> fst (trySetStatus i st vs d) \<Longrightarrow> snd (trySetStatus i st vs d) = d"
    and "find_request i (snd (trySetStatus i st vs d)) =
      Some (if fst (trySetStatus i st vs d) then cur\<lparr>status := st\<rparr> else cur)"
proof -
  let ?P = "\<lambda>r. r_id r = i \<and> (if vs \<noteq> [] then status r \<in> set vs else status r \<noteq> st)"
  have cur: "cur \<in> set (requests d)" "r_id cur = i" using find_request_Some [OF assms(1)] by auto
  have uniq: "r = cur" if "r \<in> set (requests d)" "r_id r = i" for r
    using find_distinct [OF assms(2) assms(1) [unfolded find_request_def] that] .
  have P: "0 < affected ?P (requests d) \<longleftrightarrow> ?P cur"
    unfolding affected_pos using cur uniq by blast
  then show won: "fst (trySetStatus i st vs d) \<longleftrightarrow> (if vs \<noteq> [] then status cur \<in> set vs else status cur \<noteq> st)"
    using cur(2) by (simp add: trySetStatus_def Let_def)
  show "snd (trySetStatus i st vs d) = d" if "\<not> fst (trySetStatus i st vs d)"
  proof -
    have "affected ?P (requests d) = 0" using that by (simp add: trySetStatus_def Let_def)
    then show ?thesis using update_where_none [of ?P "requests d"] by (simp add: trySetStatus_def Let_def update_requests_def)
  qed
  show "find_request i (snd (trySetStatus i st vs d)) =
      Some (if fst (trySetStatus i st vs d) then cur\<lparr>status := st\<rparr> else cur)"
    unfolding won using assms(1) cur(2) by (simp add: trySetStatus_def Let_def find_request_update)
qed

text \<open>
  C5. Declining: from a declinable status the request becomes declined and exactly one audit event records
  it; if that event cannot be written the handler reports the failure and puts back the status it was called
  with, recording nothing; on a declined request the call succeeds again without a second event; from any
  other status, sent included, it is refused and nothing changes.
\<close>

theorem declineRequest_outcome:
  assumes "find_request (r_id req) d = Some cur" and "distinct (map r_id (requests d))"
    and "declineRequest emit_ok req reason u d = (res, d')"
  shows "(status cur \<in> set DECLINE_SOURCES \<and> emit_ok \<longrightarrow> res = Inr St_Declined \<and>
      find_request (r_id req) d' = Some (cur\<lparr>status := St_Declined\<rparr>) \<and>
      map payload (events d') = map payload (events d) @ [Ev_Request_Declined reason]) \<and>
    (status cur \<in> set DECLINE_SOURCES \<and> \<not> emit_ok \<and> status req \<noteq> St_Declined \<longrightarrow> res = Inl Audit_Failed \<and>
      find_request (r_id req) d' = Some (cur\<lparr>status := status req\<rparr>) \<and> events d' = events d) \<and>
    (status cur = St_Declined \<longrightarrow> res = Inr St_Declined \<and> d' = d) \<and>
    (status cur \<notin> set DECLINE_SOURCES \<and> status cur \<noteq> St_Declined \<longrightarrow> res = Inl Not_Declinable \<and> d' = d)"
proof -
  let ?i = "r_id req"
  obtain won d1 where t: "trySetStatus ?i St_Declined DECLINE_SOURCES d = (won, d1)"
    by (cases "trySetStatus ?i St_Declined DECLINE_SOURCES d") auto
  note found = trySetStatus_found [OF assms(1,2), of St_Declined DECLINE_SOURCES, unfolded t fst_conv snd_conv]
  have won: "won \<longleftrightarrow> status cur \<in> set DECLINE_SOURCES" using found(1) by (simp add: DECLINE_SOURCES_def)
  have ev: "events d1 = events d" using set_status_events(4) [of ?i St_Declined DECLINE_SOURCES d] t by simp
  have dist: "distinct (map r_id (requests d1))"
    using t assms(2) by (auto simp: trySetStatus_def Let_def map_update_where)
  show ?thesis
  proof (cases won)
    case True
    with found(3) have f1: "find_request ?i d1 = Some (cur\<lparr>status := St_Declined\<rparr>)" by simp
    have cur: "status cur \<noteq> St_Declined" using True won by (auto simp: DECLINE_SOURCES_def)
    show ?thesis
    proof (cases emit_ok)
      case True
      then show ?thesis using assms(3) \<open>won\<close> won t f1 ev cur by (auto simp: declineRequest_def)
    next
      case False
      then have "res = Inl Audit_Failed" "d' = snd (trySetStatus ?i (status req) [] d1)"
        using assms(3) \<open>won\<close> t by (auto simp: declineRequest_def)
      then show ?thesis
        using trySetStatus_found [OF f1 dist, of "status req" "[]"] False \<open>won\<close> won ev cur by auto
    qed
  next
    case False
    with found(2) won have "d1 = d" "status cur \<notin> set DECLINE_SOURCES" by auto
    then show ?thesis using assms(1,3) False t by (auto simp: declineRequest_def split: if_splits)
  qed
qed

definition demo_request :: "uuid \<Rightarrow> current_node \<Rightarrow> request_status \<Rightarrow> request" where
  "demo_request org node st = \<lparr>r_id = ''r1'', r_org_id = org, r_vertical = None, channel = Ch_Email,
     source_subject = None, source_body = None, sender_company = None, sender_contact = None,
     sender_address = None, sender_email = Some ''ana@example.com'', r_request_type = Service_Quote,
     status = st, current_node = node, processing_started_at = Some 0, overall_confidence = None,
     classification_confidence = None, routing = None, routing_reasons = [], delivery_date = None,
     r_created_at = 0\<rparr>"

theorem declineRequest_outcome_witness:
  "let r = demo_request ''org'' Done St_Needs_Review; d = empty_db\<lparr>requests := [r]\<rparr>;
       d' = snd (declineRequest True r ''spam'' None d)
   in map payload (events d') = [Ev_Request_Declined ''spam''] \<and>
      declineRequest True r ''spam'' None d' = (Inr St_Declined, d')"
proof -
  let ?r = "demo_request ''org'' Done St_Needs_Review"
  let ?d = "empty_db\<lparr>requests := [?r]\<rparr>"
  let ?e = "snd (declineRequest True ?r ''spam'' None ?d)"
  have f: "find_request (r_id ?r) ?d = Some ?r" "distinct (map r_id (requests ?d))"
    by (simp_all add: find_request_def)
  have s: "status ?r \<in> set DECLINE_SOURCES" by (simp add: demo_request_def DECLINE_SOURCES_def)
  note one = declineRequest_outcome [OF f prod.collapse [symmetric], of True "''spam''" None]
  have "requests ?e = [?r\<lparr>status := St_Declined\<rparr>]" by code_simp
  then have dist: "distinct (map r_id (requests ?e))" by simp
  have g: "find_request (r_id ?r) ?e = Some (?r\<lparr>status := St_Declined\<rparr>)" using one s by simp
  note two = declineRequest_outcome [OF g dist prod.collapse [symmetric], of True "''spam''" None]
  show ?thesis using one two s by (simp add: Let_def prod_eq_iff empty_db_def)
qed

end
