(* ===== verification/Line_Updates.thy ===== *)
theory Line_Updates
  imports Quote_Store Quote_Pricing Request_Store
begin

text \<open>
  Writing prices and flags to the lines of a request: the sequence of \<open>UPDATE\<close>s by identifier that the
  price node, the recompute service and the policy node send, the inputs they read from matched lines,
  and the facts that a sequence of such updates is one pass over the table and that the pricing inputs
  do not depend on what it writes.
\<close>

definition update_lines :: "(uuid \<times> (line_item \<Rightarrow> line_item)) list \<Rightarrow> db \<Rightarrow> db" where
  "update_lines us d = fold (\<lambda>(i, f). update_line i f) us d"

text \<open>\<open>li.matched_sku !== null && li.quantity !== null && li.quantity > 0\<close>\<close>

definition priceable :: "db \<Rightarrow> line_item \<Rightarrow> bool" where
  "priceable d li \<longleftrightarrow> matched_sku d li \<noteq> None \<and> (case li_quantity li of Some q \<Rightarrow> 0 < q | None \<Rightarrow> False)"

definition pricing_input :: "db \<Rightarrow> line_item \<Rightarrow> pricing_line_input" where
  "pricing_input d li =
     (let s = the (matched_sku d li) in
      \<lparr>pi_lineItemId = li_id li, pi_skuId = the (matched_sku_id li), pi_position = li_position li,
       pi_description = sku_name s, pi_quantity = the (li_quantity li),
       basePriceMinor = base_price_minor s, pi_leadTimeDays = sku_lead_time_days s\<rparr>)"

definition non_euro :: "db \<Rightarrow> line_item \<Rightarrow> bool" where
  "non_euro d li \<longleftrightarrow> \<not> isEuroCurrency (sku_currency (the (matched_sku d li)))"

text \<open>\<open>new Map(priceable.map((li) => [li.id, [...flags]]))\<close>: a later entry replaces an earlier one.\<close>

definition flagsById :: "line_item list \<Rightarrow> uuid \<Rightarrow> string list" where
  "flagsById lis i = (case map_of (rev (map (\<lambda>li. (li_id li, flags_of li)) lis)) i of Some fs \<Rightarrow> fs | None \<Rightarrow> [])"

definition price_flags :: "bool \<Rightarrow> string list \<Rightarrow> string list" where
  "price_flags blocked fs =
     (if blocked then (if PRICING_BLOCKED_FLAG \<in> set fs then fs else fs @ [PRICING_BLOCKED_FLAG])
      else filter (\<lambda>f. f \<noteq> PRICING_BLOCKED_FLAG) fs)"

definition price_write :: "bool \<Rightarrow> (uuid \<Rightarrow> string list) \<Rightarrow> priced_line \<Rightarrow> uuid \<times> (line_item \<Rightarrow> line_item)" where
  "price_write blocked flags l =
     (lineItemId l, \<lambda>li. li\<lparr>li_unit_price_minor := Some (unitPriceMinor l), li_lead_time_days := leadTimeDays l,
        li_flags := Some (price_flags blocked (flags (lineItemId l)))\<rparr>)"

definition toQuoteLine :: "priced_line \<Rightarrow> quote_line_input" where
  "toQuoteLine l = \<lparr>in_skuId = Some (skuId l), in_description = description l, in_quantity = quantity l,
     in_unitPriceMinor = unitPriceMinor l, in_amountMinor = of_int (amountMinor l), in_position = position l,
     in_kind = None\<rparr>"

section \<open>A sequence of updates is one pass\<close>

lemma update_lines_fields [simp, row_simps]:
  "requests (update_lines us d) = requests d" "skus (update_lines us d) = skus d"
  "quotes (update_lines us d) = quotes d" "quote_lines (update_lines us d) = quote_lines d"
  "pricing_rules (update_lines us d) = pricing_rules d" "events (update_lines us d) = events d"
  "extractions (update_lines us d) = extractions d" "clock (update_lines us d) = clock d"
  "candidates (update_lines us d) = candidates d" "attachments (update_lines us d) = attachments d" "clarifications (update_lines us d) = clarifications d"
  "tool_calls (update_lines us d) = tool_calls d" "iva_rates (update_lines us d) = iva_rates d"
  unfolding update_lines_def by (induction us arbitrary: d) (auto split: prod.splits)

definition apply_updates :: "(uuid \<times> (line_item \<Rightarrow> line_item)) list \<Rightarrow> line_item \<Rightarrow> line_item" where
  "apply_updates us li = (case map_of us (li_id li) of Some f \<Rightarrow> f li | None \<Rightarrow> li)"

lemma update_lines_one_pass:
  assumes "distinct (map fst us)" and "\<forall>(i, f) \<in> set us. \<forall>li. li_id (f li) = li_id li"
  shows "line_items (update_lines us d) = map (apply_updates us) (line_items d)"
  using assms
proof (induction us arbitrary: d)
  case Nil
  then show ?case by (simp add: update_lines_def apply_updates_def [abs_def])
next
  case (Cons u us)
  obtain i f where u: "u = (i, f)" by (cases u)
  have "line_items (update_lines (u # us) d) = map (apply_updates us) (update_where (\<lambda>l. li_id l = i) f (line_items d))"
    using Cons by (simp add: update_lines_def u)
  also have "\<dots> = map (apply_updates (u # us)) (line_items d)"
    using Cons.prems u by (auto simp: update_where_def apply_updates_def map_of_eq_None_iff image_iff split: option.splits)
  finally show ?case .
qed

text \<open>The part of a line that pricing reads and never writes.\<close>

definition line_core :: "line_item \<Rightarrow> line_item" where
  "line_core li = li\<lparr>li_unit_price_minor := None, li_lead_time_days := None, li_flags := None\<rparr>"

lemma line_core_fields [simp]:
  "li_id (line_core li) = li_id li" "li_request_id (line_core li) = li_request_id li"
  "li_position (line_core li) = li_position li" "matched_sku_id (line_core li) = matched_sku_id li"
  "li_quantity (line_core li) = li_quantity li" "raw_text (line_core li) = raw_text li"
  by (simp_all add: line_core_def)

lemma core_eqD:
  assumes "line_core a = line_core b"
  shows "li_id a = li_id b" "li_request_id a = li_request_id b" "li_position a = li_position b"
    "matched_sku_id a = matched_sku_id b" "li_quantity a = li_quantity b"
  using assms line_core_fields by metis+

lemma map_core_lines_of_request:
  assumes "map line_core (line_items d) = map line_core (line_items e)"
  shows "map line_core (lines_of_request i d) = map line_core (lines_of_request i e)"
proof -
  have "map line_core (sort_key li_position (filter (\<lambda>l. li_request_id l = i) xs)) =
      sort_key li_position (filter (\<lambda>l. li_request_id l = i) (map line_core xs))" for xs
  proof -
    have "map line_core (sort_key li_position ys) = sort_key li_position (map line_core ys)" for ys
    proof (induction ys)
      case (Cons y ys)
      have "map line_core (insort_key li_position y zs) = insort_key li_position (line_core y) (map line_core zs)" for zs
        by (induction zs) auto
      with Cons show ?case by simp
    qed simp
    then show ?thesis by (simp add: filter_map comp_def)
  qed
  with assms show ?thesis by (simp add: lines_of_request_def)
qed

lemma map_core_congD:
  "map line_core xs = map line_core ys \<Longrightarrow> (\<And>a. P (line_core a) = P a) \<Longrightarrow> (\<And>a. g (line_core a) = g a) \<Longrightarrow>
   map g (filter P xs) = map g (filter P ys)"
proof -
  assume core: "map line_core xs = map line_core ys" and P: "\<And>a. P (line_core a) = P a" and g: "\<And>a. g (line_core a) = g a"
  have "map g (filter P zs) = map g (filter P (map line_core zs))" for zs
    by (induction zs) (auto simp: P g)
  with core show ?thesis by metis
qed

lemma matched_sku_core [simp]: "matched_sku d (line_core li) = matched_sku d li"
  by (simp add: matched_sku_def)

lemma priceable_core [simp]: "priceable d (line_core li) = priceable d li"
  by (simp add: priceable_def)

lemma pricing_input_core [simp]: "pricing_input d (line_core li) = pricing_input d li"
  by (simp add: pricing_input_def Let_def)

lemma non_euro_core [simp]: "non_euro d (line_core li) = non_euro d li"
  by (simp add: non_euro_def)

lemma skus_cong:
  assumes "skus d = skus e"
  shows "matched_sku d = matched_sku e" "priceable d = priceable e" "pricing_input d = pricing_input e" "non_euro d = non_euro e"
  using matched_sku_cong [OF assms]
  by (auto simp: fun_eq_iff priceable_def pricing_input_def non_euro_def)

lemma price_write_fst [simp]: "fst (price_write b fl l) = lineItemId l"
  by (simp add: price_write_def)

lemma price_writes_one_pass:
  assumes "distinct (map lineItemId ls)"
  shows "line_items (update_lines (map (\<lambda>l. price_write (b l) fl l) ls) d) =
    map (apply_updates (map (\<lambda>l. price_write (b l) fl l) ls)) (line_items d)"
  by (rule update_lines_one_pass) (use assms in \<open>auto simp: comp_def price_write_def\<close>)

lemma price_writes_core:
  assumes "distinct (map lineItemId ls)"
  shows "map line_core (line_items (update_lines (map (\<lambda>l. price_write (b l) fl l) ls) d)) =
    map line_core (line_items d)"
proof -
  have "line_core (apply_updates (map (\<lambda>l. price_write (b l) fl l) ls) li) = line_core li" for li
    by (auto simp: apply_updates_def price_write_def line_core_def dest!: map_of_SomeD split: option.splits)
  then show ?thesis by (simp add: price_writes_one_pass [OF assms])
qed

lemma price_flags_idem [simp]: "price_flags b (price_flags b fs) = price_flags b fs"
  by (auto simp: price_flags_def)

lemma flagsById_mem:
  assumes "distinct (map li_id ls)" and "li \<in> set ls"
  shows "flagsById ls (li_id li) = flags_of li"
proof -
  have "map_of (rev (map (\<lambda>li. (li_id li, flags_of li)) ls)) (li_id li) = Some (flags_of li)"
    by (rule map_of_is_SomeI) (use assms in \<open>auto simp: rev_map [symmetric] comp_def\<close>)
  then show ?thesis by (simp add: flagsById_def)
qed

lemma lines_in_org_mem: "li \<in> set (lines_of_request_in_org r orgId d) \<Longrightarrow> li \<in> set (line_items d)"
  by (simp add: lines_of_request_in_org_def lines_of_request_def split: if_splits)

lemma distinct_lines_in_org:
  "distinct (map li_id (line_items d)) \<Longrightarrow> distinct (map li_id (filter P (lines_of_request_in_org r orgId d)))"
  by (auto simp: lines_of_request_in_org_def lines_of_request_def distinct_map intro: inj_on_subset)

lemma row_unique:
  "distinct (map li_id rows) \<Longrightarrow> a \<in> set rows \<Longrightarrow> b \<in> set rows \<Longrightarrow> li_id a = li_id b \<Longrightarrow> a = b"
  by (auto simp: distinct_map inj_on_def)

section \<open>Sample rows\<close>

text \<open>A request with two matched lines and one unmatched line, used to instantiate the properties.\<close>

definition demo_sku :: "uuid \<Rightarrow> string \<Rightarrow> sku" where
  "demo_sku i cur = \<lparr>sku_id = i, sku_org_id = ''org'', sku_code = i, sku_name = i, base_price_minor = 199,
     cost_minor = Some 120, sku_currency = cur, sku_lead_time_days = Some 5, sku_active = True, sku_description = None,
     sku_embedding = None, embedding_status = Emb_Pending, sku_attributes = JObj [], embedding_error = None, sku_updated_at = 0\<rparr>"

definition demo_line :: "uuid \<Rightarrow> int \<Rightarrow> uuid option \<Rightarrow> rat option \<Rightarrow> line_item" where
  "demo_line i pos s q = \<lparr>li_id = i, li_request_id = ''r1'', li_position = pos, raw_text = i, li_quantity = q,
     li_unit = None, matched_sku_id = s, match_confidence = Some (19 / 20), li_match_method = Some Fused,
     li_unit_price_minor = None, li_lead_time_days = None, li_flags = Some [], match_routing_reason = None\<rparr>"

definition catalog_db :: "string \<Rightarrow> db" where
  "catalog_db cur = (demo_db Q_Draft)\<lparr>skus := [demo_sku ''s1'' ''EUR'', demo_sku ''s2'' cur],
     line_items := [demo_line ''l1'' 1 (Some ''s1'') (Some 15), demo_line ''l2'' 2 (Some ''s2'') (Some 2),
       demo_line ''l3'' 3 None (Some 1)],
     pricing_rules := [demo_qty_rule 10 5]\<rparr>"

end
