(* ===== verification/Avac_Pricing.thy ===== *)
theory Avac_Pricing
  imports Vertical_Lines "HOL-Library.AList"
begin

text \<open>
  The air-conditioning pricing engine (\<open>pricing/avac-pricing.engine.ts\<close>). \<open>priceAvacQuote\<close> is one
  long function in the source; here each of its blocks is a definition on the accumulator of
  \<^verbatim>\<open>Vertical_Lines\<close>, composed by \<open>priceAvacQuote\<close> in the order of the source. \<open>fmt\<close> stands for
  \<open>Number.prototype.toLocaleString('pt-PT')\<close>, whose output is part of two descriptions only.
\<close>

section \<open>Rule configurations\<close>

record indoor_selection =
  max_area_m2 :: "rat option"
  sel_sku_code :: string

record indoor_rule =
  selections :: "indoor_selection list"
  default_sku_code :: string

record outdoor_rule =
  out_sku_code :: string
  max_indoor_units :: int

datatype allowance_variable = Pipe_Length_M | Outdoor_Unit_Distance_M

record allowance =
  al_variable :: allowance_variable
  included :: rat
  al_unit_price_minor :: int
  al_description :: string
  al_kind :: line_kind

datatype conditional_variable = Install_Height_M | Wall_Type | Distance_Km | Install_Type
datatype operator = Op_Eq | Op_Gt
datatype config_value = Cv_String string | Cv_Number rat | Cv_Boolean bool

record conditional =
  co_variable :: conditional_variable
  co_operator :: operator
  co_value :: config_value
  co_amount_minor :: int
  co_description :: string
  co_kind :: line_kind

record fixed_adder =
  fa_when :: bool
  fa_amount_minor :: int
  fa_description :: string
  fa_kind :: line_kind

record labor_rule =
  rate_minor :: int
  hours_by_unit_count :: "(string \<times> rat) list"
  la_description :: string

definition IndoorSelectionSchema :: "indoor_rule schema" where
  "IndoorSelectionSchema v = do {
     ob \<leftarrow> z_object v;
     z_literal ''indoor_unit'' (field ''role'' ob);
     ss \<leftarrow> z_array (\<lambda>w. do {
         so \<leftarrow> z_object w;
         m \<leftarrow> z_nullable z_positive (field ''max_area_m2'' so);
         c \<leftarrow> z_nonempty_string (field ''sku_code'' so);
         Some \<lparr>max_area_m2 = m, sel_sku_code = c\<rparr>
       }) (field ''selections'' ob);
     dc \<leftarrow> z_nonempty_string (field ''default_sku_code'' ob);
     Some \<lparr>selections = ss, default_sku_code = dc\<rparr>
   }"

definition OutdoorSelectionSchema :: "outdoor_rule schema" where
  "OutdoorSelectionSchema v = do {
     ob \<leftarrow> z_object v;
     z_literal ''outdoor_unit'' (field ''role'' ob);
     c \<leftarrow> z_nonempty_string (field ''sku_code'' ob);
     m \<leftarrow> z_positive_int (field ''max_indoor_units'' ob);
     Some \<lparr>out_sku_code = c, max_indoor_units = m\<rparr>
   }"

definition AllowanceSchema :: "allowance schema" where
  "AllowanceSchema v = do {
     ob \<leftarrow> z_object v;
     x \<leftarrow> z_enum [(''pipe_length_m'', Pipe_Length_M),
            (''outdoor_unit_distance_m'', Outdoor_Unit_Distance_M)] (field ''variable'' ob);
     i \<leftarrow> z_nonnegative (field ''included'' ob);
     p \<leftarrow> z_nonneg_int (field ''unit_price_minor'' ob);
     de \<leftarrow> z_nonempty_string (field ''description'' ob);
     k \<leftarrow> component_kind_schema (field ''kind'' ob);
     Some \<lparr>al_variable = x, included = i, al_unit_price_minor = p, al_description = de, al_kind = k\<rparr>
   }"

text \<open>\<open>z.union([z.string(), z.number(), z.boolean()])\<close>\<close>

fun z_config_value :: "config_value schema" where
  "z_config_value (Some (JStr s)) = Some (Cv_String s)"
| "z_config_value (Some (JNum n)) = Some (Cv_Number n)"
| "z_config_value (Some (JBool b)) = Some (Cv_Boolean b)"
| "z_config_value _ = None"

definition ConditionalSchema :: "conditional schema" where
  "ConditionalSchema v = do {
     ob \<leftarrow> z_object v;
     x \<leftarrow> z_enum [(''install_height_m'', Install_Height_M), (''wall_type'', Wall_Type),
            (''distance_km'', Distance_Km), (''install_type'', Install_Type)] (field ''variable'' ob);
     opr \<leftarrow> z_enum [(''eq'', Op_Eq), (''gt'', Op_Gt)] (field ''operator'' ob);
     va \<leftarrow> z_config_value (field ''value'' ob);
     am \<leftarrow> z_nonneg_int (field ''amount_minor'' ob);
     de \<leftarrow> z_nonempty_string (field ''description'' ob);
     k \<leftarrow> component_kind_schema (field ''kind'' ob);
     Some \<lparr>co_variable = x, co_operator = opr, co_value = va, co_amount_minor = am,
       co_description = de, co_kind = k\<rparr>
   }"

definition FixedAdderSchema :: "fixed_adder schema" where
  "FixedAdderSchema v = do {
     ob \<leftarrow> z_object v;
     z_literal ''needs_electrical_panel'' (field ''variable'' ob);
     w \<leftarrow> z_boolean (field ''when'' ob);
     am \<leftarrow> z_nonneg_int (field ''amount_minor'' ob);
     de \<leftarrow> z_nonempty_string (field ''description'' ob);
     k \<leftarrow> component_kind_schema (field ''kind'' ob);
     Some \<lparr>fa_when = w, fa_amount_minor = am, fa_description = de, fa_kind = k\<rparr>
   }"

definition LaborSchema :: "labor_rule schema" where
  "LaborSchema v = do {
     ob \<leftarrow> z_object v;
     r \<leftarrow> z_nonneg_int (field ''rate_minor'' ob);
     h \<leftarrow> z_record z_string z_positive (field ''hours_by_unit_count'' ob);
     de \<leftarrow> z_nonempty_string (field ''description'' ob);
     Some \<lparr>rate_minor = r, hours_by_unit_count = h, la_description = de\<rparr>
   }"

section \<open>The stages\<close>

definition unit_count :: "avac_facts \<Rightarrow> int" where
  "unit_count f = (case indoor_units_requested f of Some n \<Rightarrow> n | None \<Rightarrow> int (length (areas f)))"

definition avac_checks :: "int \<Rightarrow> indoor_rule option \<Rightarrow> outdoor_rule option \<Rightarrow> pricing_acc \<Rightarrow> pricing_acc" where
  "avac_checks n indoor outdoor a =
     (let a = miss_if (n < 1) ''critical_input.indoor_units_or_areas'' a;
          a = miss_if (indoor = None) ''avac.indoor.selection'' a;
          a = miss_if (outdoor = None) ''avac.outdoor.selection'' a
      in case outdoor of
           Some o' \<Rightarrow> miss_if (n > max_indoor_units o') ''avac.outdoor.capacity'' a
         | None \<Rightarrow> a)"

definition selected_code :: "avac_facts \<Rightarrow> indoor_rule \<Rightarrow> nat \<Rightarrow> string" where
  "selected_code f rule index =
     (let area = (if index < length (areas f) then area_m2 (areas f ! index) else None);
          selection = (case area of None \<Rightarrow> None
            | Some x \<Rightarrow> find (\<lambda>c. case max_area_m2 c of None \<Rightarrow> True | Some m \<Rightarrow> x \<le> m) (selections rule))
      in case selection of Some s \<Rightarrow> sel_sku_code s | None \<Rightarrow> default_sku_code rule)"

text \<open>\<open>Map.prototype.set\<close> keeps the insertion order of the keys, as \<^const>\<open>AList.update\<close> does.\<close>

definition countValues :: "string list \<Rightarrow> (string \<times> nat) list" where
  "countValues vs = fold (\<lambda>v counts. AList.update v
     ((case map_of counts v of Some n \<Rightarrow> n | None \<Rightarrow> 0) + 1) counts) vs []"

definition indoor_line :: "sku list \<Rightarrow> string \<times> nat \<Rightarrow> pricing_acc \<Rightarrow> pricing_acc" where
  "indoor_line catalog = (\<lambda>(code, qty) a.
     (case sku_by_code catalog code of
        None \<Rightarrow> miss (''catalog.'' @ code) a
      | Some s \<Rightarrow> push_line (catalogLine s (sku_name s) (of_nat qty) Equipment) a))"

definition avac_indoor :: "avac_facts \<Rightarrow> sku list \<Rightarrow> indoor_rule option \<Rightarrow> pricing_acc \<Rightarrow> pricing_acc" where
  "avac_indoor f catalog indoor a =
     (case indoor of
        None \<Rightarrow> a
      | Some rule \<Rightarrow>
          fold (indoor_line catalog)
            (countValues (map (selected_code f rule) [0..<nat (unit_count f)])) a)"

definition avac_outdoor :: "int \<Rightarrow> sku list \<Rightarrow> outdoor_rule option \<Rightarrow> pricing_acc \<Rightarrow> pricing_acc" where
  "avac_outdoor n catalog outdoor a =
     (case outdoor of
        None \<Rightarrow> a
      | Some o' \<Rightarrow>
          if 0 < n \<and> n \<le> max_indoor_units o' then
            (case sku_by_code catalog (out_sku_code o') of
               None \<Rightarrow> miss (''catalog.'' @ out_sku_code o') a
             | Some s \<Rightarrow> push_line (catalogLine s (sku_name s) 1 Equipment) a)
          else a)"

definition allowance_fact :: "avac_facts \<Rightarrow> allowance_variable \<Rightarrow> rat option" where
  "allowance_fact f v = (case v of Pipe_Length_M \<Rightarrow> pipe_length_m f
     | Outdoor_Unit_Distance_M \<Rightarrow> outdoor_unit_distance_m f)"

definition allowance_line :: "avac_facts \<Rightarrow> pricing_rule \<Rightarrow> pricing_acc \<Rightarrow> pricing_acc" where
  "allowance_line f rule a =
     (case AllowanceSchema (Some (config rule)) of
        None \<Rightarrow> a
      | Some c \<Rightarrow>
          (case allowance_fact f (al_variable c) of
             None \<Rightarrow> a
           | Some actual \<Rightarrow>
               (let excess = max 0 (actual - included c) in
                if excess = 0 then a
                else push_line (\<lambda>p. \<lparr>vl_skuId = None, vl_description = al_description c,
                       vl_quantity = excess, vl_unitPriceMinor = al_unit_price_minor c,
                       vl_amountMinor = of_int (js_round (excess * of_int (al_unit_price_minor c))),
                       vl_position = p, vl_kind = al_kind c\<rparr>) a)))"

definition conditional_fact :: "avac_facts \<Rightarrow> conditional_variable \<Rightarrow> config_value option" where
  "conditional_fact f v = (case v of
       Install_Height_M \<Rightarrow> map_option Cv_Number (install_height_m f)
     | Wall_Type \<Rightarrow> map_option Cv_String (wall_type f)
     | Distance_Km \<Rightarrow> map_option Cv_Number (av_distance_km f)
     | Install_Type \<Rightarrow> map_option Cv_String (install_type f))"

definition conditionMatches :: "config_value \<Rightarrow> operator \<Rightarrow> config_value \<Rightarrow> bool" where
  "conditionMatches actual opr expected =
     (case opr of
        Op_Eq \<Rightarrow> actual = expected
      | Op_Gt \<Rightarrow> (case (actual, expected) of (Cv_Number x, Cv_Number y) \<Rightarrow> x > y | _ \<Rightarrow> False))"

definition conditional_line :: "avac_facts \<Rightarrow> pricing_rule \<Rightarrow> pricing_acc \<Rightarrow> pricing_acc" where
  "conditional_line f rule a =
     (case ConditionalSchema (Some (config rule)) of
        None \<Rightarrow> a
      | Some c \<Rightarrow>
          (case conditional_fact f (co_variable c) of
             None \<Rightarrow> a
           | Some actual \<Rightarrow>
               if conditionMatches actual (co_operator c) (co_value c)
               then push_line (fixedLine (co_description c) (co_amount_minor c) (co_kind c)) a
               else a))"

definition adder_line :: "avac_facts \<Rightarrow> pricing_rule \<Rightarrow> pricing_acc \<Rightarrow> pricing_acc" where
  "adder_line f rule a =
     (case FixedAdderSchema (Some (config rule)) of
        None \<Rightarrow> a
      | Some c \<Rightarrow>
          if needs_electrical_panel f \<noteq> Some (fa_when c) then a
          else push_line (fixedLine (fa_description c) (fa_amount_minor c) (fa_kind c)) a)"

definition each_rule ::
  "pricing_rule_type \<Rightarrow> (pricing_rule \<Rightarrow> pricing_acc \<Rightarrow> pricing_acc) \<Rightarrow> pricing_rule list \<Rightarrow> pricing_acc \<Rightarrow> pricing_acc" where
  "each_rule ty step rules a = fold step (filter (\<lambda>r. rule_type r = ty) rules) a"

definition labor_hours :: "labor_rule option \<Rightarrow> int \<Rightarrow> rat option" where
  "labor_hours labor n = (case labor of None \<Rightarrow> None | Some l \<Rightarrow> map_of (hours_by_unit_count l) (int_text n))"

definition avac_labor :: "int \<Rightarrow> labor_rule option \<Rightarrow> pricing_acc \<Rightarrow> pricing_acc" where
  "avac_labor n labor a =
     (case (labor, labor_hours labor n) of
        (Some l, Some h) \<Rightarrow>
          push_line (\<lambda>p. \<lparr>vl_skuId = None, vl_description = la_description l, vl_quantity = h,
            vl_unitPriceMinor = rate_minor l, vl_amountMinor = h * of_int (rate_minor l),
            vl_position = p, vl_kind = Labor\<rparr>) a
      | _ \<Rightarrow> miss ''avac.installation.labor'' a)"

definition avac_body ::
  "avac_facts \<Rightarrow> pricing_rule list \<Rightarrow> sku list \<Rightarrow> pricing_acc" where
  "avac_body f rules catalog =
     (let indoor = parsedRule rules Catalog_Unit IndoorSelectionSchema (Some ''indoor_unit'');
          outdoor = parsedRule rules Catalog_Unit OutdoorSelectionSchema (Some ''outdoor_unit'');
          n = unit_count f;
          a = avac_checks n indoor outdoor start_acc;
          a = avac_indoor f catalog indoor a;
          a = avac_outdoor n catalog outdoor a;
          a = each_rule Included_Allowance (allowance_line f) rules a;
          a = each_rule Conditional_Surcharge (conditional_line f) rules a;
          a = each_rule Fixed_Adder (adder_line f) rules a
      in avac_labor n (parsedRule rules Labor_Hours LaborSchema None) a)"

definition priceAvacQuote ::
  "(rat \<Rightarrow> string) \<Rightarrow> avac_extraction \<Rightarrow> pricing_rule list \<Rightarrow> sku list \<Rightarrow> rat option \<Rightarrow> vertical_quote" where
  "priceAvacQuote fmt extraction allRules catalog taxRate =
     (let rules = rules_for Avac allRules;
          a = avac_body (facts extraction) rules catalog;
          margin = parsedRule rules Margin_Markup percentage_schema None;
          taxRule = parsedRule rules Tax percentage_schema None;
          base = sum_amounts (acc_lines a);
          a = miss_if (margin = None) ''avac.margin'' a;
          a = miss_if (taxRule = None) ''avac.iva'' a;
          a = margin_stage fmt base margin a;
          subtotal = sum_amounts (acc_lines a);
          pct = tax_percentage taxRate taxRule;
          tax = tax_minor subtotal pct;
          a = tax_stage fmt tax pct taxRule a;
          relevant = relevant_skus catalog (acc_lines a);
          a = miss_if (\<exists>s \<in> set relevant. sku_currency s \<noteq> STRATOS_CURRENCY) ''catalog.currency_must_be_eur'' a
      in \<lparr>vq_lines = acc_lines a, vq_subtotalMinor = subtotal, vq_discountMinor = 0, vq_taxMinor = tax,
          vq_totalMinor = subtotal + of_int tax, vq_leadTimeDays = max_or_null (lead_times relevant),
          vq_currency = STRATOS_CURRENCY, vq_blocked = (acc_missing a \<noteq> []),
          vq_missingRules = acc_missing a\<rparr>)"

section \<open>Facts about the stages\<close>

lemma sum_counts_update:
  "(\<Sum>p\<leftarrow>AList.update k (Suc (case map_of al k of Some n \<Rightarrow> n | None \<Rightarrow> 0)) al. snd p) = Suc (\<Sum>p\<leftarrow>al. snd p)"
  by (induction al) auto

lemma sum_countValues: "(\<Sum>p\<leftarrow>countValues vs. snd p) = length vs"
proof -
  have "(\<Sum>p\<leftarrow>fold (\<lambda>v counts. AList.update v ((case map_of counts v of Some n \<Rightarrow> n | None \<Rightarrow> 0) + 1) counts) vs al. snd p)
      = length vs + (\<Sum>p\<leftarrow>al. snd p)" for al :: "(string \<times> nat) list"
    by (induction vs arbitrary: al) (simp_all add: sum_counts_update)
  from this [of "[]"] show ?thesis by (simp add: countValues_def)
qed

lemma component_kind_cases:
  "component_kind_schema v = Some k \<Longrightarrow> k \<in> {Material, Labor, Consumable}"
  by (auto simp: component_kind_schema_def z_enum_def bind_eq_Some_conv split: if_splits)

lemma component_kinds:
  "AllowanceSchema v = Some al \<Longrightarrow> al_kind al \<in> {Material, Labor, Consumable}"
  "ConditionalSchema v = Some c \<Longrightarrow> co_kind c \<in> {Material, Labor, Consumable}"
  "FixedAdderSchema v = Some fa \<Longrightarrow> fa_kind fa \<in> {Material, Labor, Consumable}"
  by (auto simp: AllowanceSchema_def ConditionalSchema_def FixedAdderSchema_def bind_eq_Some_conv
      dest!: component_kind_cases)

text \<open>A surcharge line: no SKU, a whole number of cents, a component kind.\<close>

definition surcharge :: "vline \<Rightarrow> bool" where
  "surcharge l \<longleftrightarrow> vl_skuId l = None \<and> is_integer (vl_amountMinor l) \<and>
     vl_kind l \<in> {Material, Labor, Consumable}"

definition unit_line :: "sku list \<Rightarrow> vline \<Rightarrow> bool" where
  "unit_line catalog l \<longleftrightarrow> vl_kind l = Equipment \<and> is_integer (vl_amountMinor l) \<and>
     (\<exists>s \<in> set catalog. sku_active s \<and> vl_skuId l = Some (sku_id s) \<and>
       vl_amountMinor l = of_int (base_price_minor s) * vl_quantity l)"

lemma avac_checks_extends: "extends Q a (avac_checks n i ou a)"
  by (auto simp: avac_checks_def Let_def split: option.splits)

lemma avac_checks_missing:
  "acc_missing (avac_checks n i ou a) = [] \<Longrightarrow>
     1 \<le> n \<and> i \<noteq> None \<and> (\<exists>r. ou = Some r \<and> n \<le> max_indoor_units r)"
  by (auto simp: avac_checks_def Let_def split: option.splits if_splits)

lemma unit_line_catalog:
  "sku_by_code catalog c = Some s \<Longrightarrow> unit_line catalog (catalogLine s (sku_name s) (of_nat m) Equipment p)"
  by (auto simp: unit_line_def dest!: sku_by_code_Some intro!: is_integer_mult bexI [of _ s])
    (metis is_integer_of_int of_int_of_nat_eq)

lemma indoor_line_extends: "extends (unit_line catalog) a (indoor_line catalog x a)"
  by (auto simp: indoor_line_def unit_line_catalog split: prod.splits option.splits)

lemma avac_indoor_extends: "extends (unit_line catalog) a (avac_indoor f catalog i a)"
  by (auto simp: avac_indoor_def indoor_line_extends intro: extends_fold split: option.splits)

lemma avac_outdoor_extends: "extends (unit_line catalog) a (avac_outdoor n catalog ou a)"
  using unit_line_catalog [where m = 1] by (auto simp: avac_outdoor_def split: option.splits)

lemma allowance_line_extends: "extends surcharge a (allowance_line f r a)"
  using component_kinds(1) [of "Some (config r)"]
  by (auto simp: allowance_line_def Let_def surcharge_def split: option.splits)

lemma conditional_line_extends: "extends surcharge a (conditional_line f r a)"
  using component_kinds(2) [of "Some (config r)"]
  by (auto simp: conditional_line_def Let_def surcharge_def split: option.splits)

lemma adder_line_extends: "extends surcharge a (adder_line f r a)"
  using component_kinds(3) [of "Some (config r)"]
  by (auto simp: adder_line_def Let_def surcharge_def split: option.splits)

lemma each_rule_extends: "(\<And>r a. extends Q a (step r a)) \<Longrightarrow> extends Q a (each_rule ty step rules a)"
  by (simp add: each_rule_def extends_fold)

lemmas surcharge_stages = each_rule_extends [OF allowance_line_extends]
  each_rule_extends [OF conditional_line_extends] each_rule_extends [OF adder_line_extends]

lemma avac_body_extends:
  assumes "\<And>l. unit_line catalog l \<Longrightarrow> Q l" and "\<And>l. surcharge l \<Longrightarrow> Q l"
    and "\<And>la h p. parsedRule rules Labor_Hours LaborSchema None = Some la \<Longrightarrow> labor_hours (Some la) (unit_count f) = Some h \<Longrightarrow>
      Q \<lparr>vl_skuId = None, vl_description = la_description la, vl_quantity = h,
         vl_unitPriceMinor = rate_minor la, vl_amountMinor = h * of_int (rate_minor la),
         vl_position = p, vl_kind = Labor\<rparr>"
  shows "extends Q start_acc (avac_body f rules catalog)"
proof -
  have labor: "extends Q a (avac_labor (unit_count f) (parsedRule rules Labor_Hours LaborSchema None) a)" for a
    using assms(3) by (auto simp: avac_labor_def split: option.splits)
  note unit = extends_mono [where R = Q, OF avac_indoor_extends assms(1)]
    extends_mono [where R = Q, OF avac_outdoor_extends assms(1)]
  note sur = surcharge_stages [THEN extends_mono [where R = Q], OF assms(2)]
  show ?thesis
    unfolding avac_body_def Let_def
    by (rule extends_trans [OF _ labor], rule extends_trans [OF _ sur(3)], rule extends_trans [OF _ sur(2)],
        rule extends_trans [OF _ sur(1)], rule extends_trans [OF _ unit(2)], rule extends_trans [OF _ unit(1)],
        rule avac_checks_extends)
qed

text \<open>Everything before the labour line is a whole number of cents.\<close>

lemma avac_body_pre:
  "\<exists>a. extends (\<lambda>l. is_integer (vl_amountMinor l)) start_acc a \<and>
     avac_body f rules catalog = avac_labor (unit_count f) (parsedRule rules Labor_Hours LaborSchema None) a"
proof -
  note unit = extends_mono [where R = "\<lambda>l. is_integer (vl_amountMinor l)", OF avac_indoor_extends]
    extends_mono [where R = "\<lambda>l. is_integer (vl_amountMinor l)", OF avac_outdoor_extends]
  note sur = surcharge_stages [THEN extends_mono [where R = "\<lambda>l. is_integer (vl_amountMinor l)"]]
  show ?thesis
    unfolding avac_body_def Let_def
    by (rule exI, rule conjI [OF _ refl], rule extends_trans [OF _ sur(3)], rule extends_trans [OF _ sur(2)],
        rule extends_trans [OF _ sur(1)], rule extends_trans [OF _ unit(2)], rule extends_trans [OF _ unit(1)],
        rule avac_checks_extends) (auto simp: unit_line_def surcharge_def)
qed

lemma indoor_fold_quantity:
  "acc_missing (fold (indoor_line catalog) ps a) = [] \<Longrightarrow>
   kind_quantity Equipment (acc_lines (fold (indoor_line catalog) ps a)) =
     kind_quantity Equipment (acc_lines a) + of_nat (\<Sum>p\<leftarrow>ps. snd p)"
proof (induction ps arbitrary: a)
  case (Cons p ps)
  have "acc_missing (indoor_line catalog p a) = []"
    using Cons.prems extends_no_missing [OF extends_fold [where f = "indoor_line catalog", OF indoor_line_extends]]
    by simp
  then have "kind_quantity Equipment (acc_lines (indoor_line catalog p a)) =
      kind_quantity Equipment (acc_lines a) + of_nat (snd p)"
    by (auto simp: indoor_line_def split: prod.splits option.splits)
  with Cons show ?case by simp
qed simp

lemma avac_body_fail_closed:
  assumes "acc_missing (avac_body f rules catalog) = []"
  shows "1 \<le> unit_count f"
    and "parsedRule rules Catalog_Unit IndoorSelectionSchema (Some ''indoor_unit'') \<noteq> None"
    and "\<exists>r. parsedRule rules Catalog_Unit OutdoorSelectionSchema (Some ''outdoor_unit'') = Some r \<and>
      unit_count f \<le> max_indoor_units r"
    and "labor_hours (parsedRule rules Labor_Hours LaborSchema None) (unit_count f) \<noteq> None"
    and "kind_quantity Equipment (acc_lines (avac_body f rules catalog)) = of_int (unit_count f) + 1"
proof -
  let ?n = "unit_count f"
  let ?i = "parsedRule rules Catalog_Unit IndoorSelectionSchema (Some ''indoor_unit'')"
  let ?ou = "parsedRule rules Catalog_Unit OutdoorSelectionSchema (Some ''outdoor_unit'')"
  let ?la = "parsedRule rules Labor_Hours LaborSchema None"
  define a0 where "a0 = avac_checks ?n ?i ?ou start_acc"
  define a1 where "a1 = avac_indoor f catalog ?i a0"
  define a2 where "a2 = avac_outdoor ?n catalog ?ou a1"
  define a3 where "a3 = each_rule Fixed_Adder (adder_line f) rules
    (each_rule Conditional_Surcharge (conditional_line f) rules
      (each_rule Included_Allowance (allowance_line f) rules a2))"
  have body: "avac_body f rules catalog = avac_labor ?n ?la a3"
    by (simp add: avac_body_def Let_def a0_def a1_def a2_def a3_def)
  have sur: "extends surcharge a2 a3"
    unfolding a3_def by (rule extends_trans [OF _ surcharge_stages(3)], rule extends_trans [OF _ surcharge_stages(2)],
        rule surcharge_stages(1))
  show h: "labor_hours ?la ?n \<noteq> None"
    using assms unfolding body by (auto simp: avac_labor_def split: option.splits)
  have m3: "acc_missing a3 = []"
    using assms unfolding body by (auto simp: avac_labor_def split: option.splits)
  note m2 = extends_no_missing [OF sur m3]
  note m1 = extends_no_missing [OF avac_outdoor_extends m2 [unfolded a2_def]]
  note m0 = extends_no_missing [OF avac_indoor_extends m1 [unfolded a1_def]]
  note checks = avac_checks_missing [OF m0 [unfolded a0_def]]
  show "1 \<le> ?n" and "?i \<noteq> None" and "\<exists>r. ?ou = Some r \<and> ?n \<le> max_indoor_units r"
    using checks by auto
  obtain i r where ir: "?i = Some i" "?ou = Some r" "?n \<le> max_indoor_units r" "1 \<le> ?n"
    using checks by auto
  have "kind_quantity Equipment (acc_lines a0) = 0"
    using extends_kind_quantity [OF avac_checks_extends, of Equipment ?n ?i ?ou start_acc]
    by (simp add: a0_def start_acc_def)
  then have "kind_quantity Equipment (acc_lines a1) = of_int ?n"
    using indoor_fold_quantity [of catalog _ a0] m1 ir by (simp add: a1_def avac_indoor_def sum_countValues)
  then have q2: "kind_quantity Equipment (acc_lines a2) = of_int ?n + 1"
    using m2 ir by (auto simp: a2_def avac_outdoor_def split: option.splits)
  have "kind_quantity Equipment (acc_lines a3) = kind_quantity Equipment (acc_lines a2)"
    by (rule extends_kind_quantity [OF extends_mono [OF sur]]) (auto simp: surcharge_def)
  with q2 h show "kind_quantity Equipment (acc_lines (avac_body f rules catalog)) = of_int ?n + 1"
    unfolding body by (auto simp: avac_labor_def labor_hours_def split: option.splits)
qed

text \<open>How the result is put together from the body.\<close>

lemma priceAvacQuote_parts:
  assumes "q = priceAvacQuote fmt ex all catalog taxRate" and "rules = rules_for Avac all"
    and "body = avac_body (facts ex) rules catalog"
    and "margin = parsedRule rules Margin_Markup percentage_schema None"
    and "taxRule = parsedRule rules Tax percentage_schema None"
    and "m = margin_stage fmt (sum_amounts (acc_lines body)) margin
      (miss_if (taxRule = None) ''avac.iva'' (miss_if (margin = None) ''avac.margin'' body))"
  shows "vq_lines q = acc_lines (tax_stage fmt (vq_taxMinor q) (tax_percentage taxRate taxRule) taxRule m)"
    and "vq_subtotalMinor q = sum_amounts (acc_lines m)"
    and "vq_taxMinor q = tax_minor (vq_subtotalMinor q) (tax_percentage taxRate taxRule)"
    and "vq_totalMinor q = vq_subtotalMinor q + of_int (vq_taxMinor q)"
    and "vq_blocked q \<longleftrightarrow> vq_missingRules q \<noteq> []"
    and "vq_missingRules q = [] \<longleftrightarrow> acc_missing body = [] \<and> margin \<noteq> None \<and> taxRule \<noteq> None \<and>
      (\<forall>s \<in> set (relevant_skus catalog (vq_lines q)). sku_currency s = STRATOS_CURRENCY)"
    and "vq_leadTimeDays q = max_or_null (lead_times (relevant_skus catalog (vq_lines q)))"
  unfolding assms by (auto simp: priceAvacQuote_def Let_def)

section \<open>A worked quote\<close>

text \<open>The request of the golden test AVAC-01, its catalog and its rules.\<close>

definition avac01_sku :: "string \<Rightarrow> string \<Rightarrow> int \<Rightarrow> sku" where
  "avac01_sku i code price = \<lparr>sku_id = i, sku_org_id = ''org-1'', sku_code = code, sku_name = code,
     base_price_minor = price, cost_minor = None, sku_currency = ''EUR'', sku_lead_time_days = Some 5,
     sku_active = True, sku_description = None,
     sku_embedding = None, embedding_status = Emb_Pending, sku_attributes = JObj [], embedding_error = None, sku_updated_at = 0\<rparr>"

definition avac01_skus :: "sku list" where
  "avac01_skus = [avac01_sku ''sku-25'' ''DAIKIN-FTXM25'' 90000, avac01_sku ''sku-35'' ''DAIKIN-FTXM35'' 110000,
     avac01_sku ''sku-out'' ''DAIKIN-OUTDOOR-4'' 180000]"

definition avac01_rule :: "int \<Rightarrow> pricing_rule_type \<Rightarrow> (string \<times> json) list \<Rightarrow> pricing_rule" where
  "avac01_rule i ty fs = \<lparr>pr_org_id = ''org-1'', rule_type = ty, pr_vertical = Some Avac, rule_key = None,
     sort_order = i, config = JObj fs, pr_active = True\<rparr>"

definition avac01_rules :: "(string \<times> json) list \<Rightarrow> pricing_rule list" where
  "avac01_rules labor =
    [avac01_rule 0 Catalog_Unit [(''role'', JStr ''indoor_unit''),
       (''selections'', JArr [
          JObj [(''max_area_m2'', JNum 25), (''sku_code'', JStr ''DAIKIN-FTXM25'')],
          JObj [(''max_area_m2'', JNull), (''sku_code'', JStr ''DAIKIN-FTXM35'')]]),
       (''default_sku_code'', JStr ''DAIKIN-FTXM25'')],
     avac01_rule 1 Catalog_Unit [(''role'', JStr ''outdoor_unit''),
       (''sku_code'', JStr ''DAIKIN-OUTDOOR-4''), (''max_indoor_units'', JNum 4)],
     avac01_rule 2 Included_Allowance [(''variable'', JStr ''pipe_length_m''), (''included'', JNum 3),
       (''unit_price_minor'', JNum 1450), (''description'', JStr ''Tubagem adicional''), (''kind'', JStr ''material'')],
     avac01_rule 3 Included_Allowance [(''variable'', JStr ''outdoor_unit_distance_m''), (''included'', JNum 5),
       (''unit_price_minor'', JNum 1800), (''description'', JStr ''Distancia adicional''), (''kind'', JStr ''material'')],
     avac01_rule 4 Labor_Hours labor,
     avac01_rule 5 Margin_Markup [(''percentage'', JNum 32)],
     avac01_rule 6 Tax [(''percentage'', JNum 23)]]"

definition avac01_labor :: "rat \<Rightarrow> rat \<Rightarrow> (string \<times> json) list" where
  "avac01_labor rate hours = [(''rate_minor'', JNum rate),
     (''hours_by_unit_count'', JObj [(''3'', JNum hours)]), (''description'', JStr ''Instalacao'')]"

definition avac01 :: avac_extraction where
  "avac01 = \<lparr>customer = \<lparr>cu_name = Some ''Joao Martins'', cu_email = None, cu_phone = None, cu_address = None\<rparr>,
     facts = \<lparr>system_type = Some ''multi-split'', brand_preference = Some ''Daikin'',
       areas = [\<lparr>room = ''sala'', area_m2 = Some 35\<rparr>, \<lparr>room = ''quarto'', area_m2 = Some 14\<rparr>,
         \<lparr>room = ''quarto'', area_m2 = Some 14\<rparr>],
       indoor_units_requested = None, pipe_length_m = Some 6, install_height_m = None, wall_type = None,
       outdoor_unit_distance_m = Some 6, needs_electrical_panel = None, av_distance_km = None,
       install_type = Some ''standard'', av_notes = []\<rparr>,
     missing_info = [], confidence = ''high''\<rparr>"

definition avac01_quote :: "rat \<Rightarrow> rat \<Rightarrow> vertical_quote" where
  "avac01_quote rate hours =
     priceAvacQuote (\<lambda>_. []) avac01 (avac01_rules (avac01_labor rate hours)) avac01_skus None"

lemma avac01_result:
  "map vl_amountMinor (vq_lines (avac01_quote 3000 12)) =
     [110000, 180000, 180000, 4350, 1800, 36000, 163888, 155489] \<and>
   vq_subtotalMinor (avac01_quote 3000 12) = 676038 \<and> vq_totalMinor (avac01_quote 3000 12) = 831527 \<and>
   vq_missingRules (avac01_quote 3000 12) = []"
  by code_simp

lemma avac01_blocked: "\<not> vq_blocked (avac01_quote 3000 12)"
  using avac01_result by (simp add: avac01_quote_def priceAvacQuote_parts(5) [OF refl refl refl refl refl refl])

section \<open>Properties of an AVAC quote\<close>

lemma avac_extends:
  assumes "q = priceAvacQuote fmt ex all catalog taxRate"
    and "\<And>l. unit_line catalog l \<Longrightarrow> Q l" and "\<And>l. surcharge l \<Longrightarrow> Q l"
    and "\<And>la h p. parsedRule (rules_for Avac all) Labor_Hours LaborSchema None = Some la \<Longrightarrow>
      labor_hours (Some la) (unit_count (facts ex)) = Some h \<Longrightarrow>
      Q \<lparr>vl_skuId = None, vl_description = la_description la, vl_quantity = h,
         vl_unitPriceMinor = rate_minor la, vl_amountMinor = h * of_int (rate_minor la),
         vl_position = p, vl_kind = Labor\<rparr>"
    and "\<And>d n p. Q (fixedLine d n Margin_Line p)" "\<And>d n p. Q (fixedLine d n Tax_Line p)"
  shows "\<exists>b. vq_lines q = acc_lines b \<and> extends Q start_acc b"
proof -
  note body = avac_body_extends [where Q = Q, OF assms(2,3,4), where rules = "rules_for Avac all" and f = "facts ex"]
  show ?thesis
    unfolding priceAvacQuote_parts(1) [OF assms(1) refl refl refl refl refl]
    by (intro exI conjI, rule refl, rule extends_trans [OF _ tax_stage_extends],
        rule extends_trans [OF _ margin_stage_extends])
      (auto simp: assms(5,6) intro: body)
qed

text \<open>
  C3. The figures of a quote are consistent: the lines are numbered from one without gaps, the total
  is the subtotal plus the tax, the subtotal is the sum of every line but the tax line, and once
  nothing is missing the total is the sum of all the lines the customer sees.
\<close>

theorem avac_quote_arithmetic:
  assumes "q = priceAvacQuote fmt ex all catalog taxRate"
  shows "map vl_position (vq_lines q) = [1..int (length (vq_lines q))] \<and>
    vq_totalMinor q = vq_subtotalMinor q + of_int (vq_taxMinor q) \<and> vq_discountMinor q = 0 \<and>
    vq_subtotalMinor q = (\<Sum>l\<leftarrow>filter (\<lambda>l. vl_kind l \<noteq> Tax_Line) (vq_lines q). vl_amountMinor l) \<and>
    (vq_blocked q \<longleftrightarrow> vq_missingRules q \<noteq> []) \<and>
    (\<not> vq_blocked q \<longrightarrow> vq_totalMinor q = (\<Sum>l\<leftarrow>vq_lines q. vl_amountMinor l))"
proof -
  let ?rules = "rules_for Avac all"
  let ?body = "avac_body (facts ex) ?rules catalog"
  let ?margin = "parsedRule ?rules Margin_Markup percentage_schema None"
  let ?tax = "parsedRule ?rules Tax percentage_schema None"
  define m where "m = margin_stage fmt (sum_amounts (acc_lines ?body)) ?margin
      (miss_if (?tax = None) ''avac.iva'' (miss_if (?margin = None) ''avac.margin'' ?body))"
  note parts = priceAvacQuote_parts [OF assms refl refl refl refl m_def]
  have "extends (\<lambda>l. vl_kind l \<noteq> Tax_Line) start_acc m"
    unfolding m_def by (rule extends_trans [OF _ margin_stage_extends], (rule extends_then_miss avac_body_extends)+)
      (auto simp: unit_line_def surcharge_def)
  then have "\<forall>l \<in> set (acc_lines m). vl_kind l \<noteq> Tax_Line" by (auto dest: extends_startD(3))
  then have "filter (\<lambda>l. vl_kind l \<noteq> Tax_Line) (vq_lines q) = acc_lines m"
    by (simp add: parts(1) tax_stage_def split: option.splits)
  moreover obtain b where "vq_lines q = acc_lines b" "extends (\<lambda>_. True) start_acc b"
    using avac_extends [OF assms, of "\<lambda>_. True"] by auto
  moreover have "vq_discountMinor q = 0" unfolding assms by (simp add: priceAvacQuote_def Let_def)
  moreover have "vq_totalMinor q = sum_amounts (vq_lines q)" if "\<not> vq_blocked q"
    using that unfolding parts(4,5) not_not parts(6) by (auto simp: parts(1,2) sum_amounts_tax_stage)
  ultimately show ?thesis
    using extends_startD(1) parts(2,4,5) by (simp flip: sum_amounts_def)
qed

theorem avac_quote_arithmetic_witness:
  "vq_totalMinor (avac01_quote 3000 12) = (\<Sum>l\<leftarrow>vq_lines (avac01_quote 3000 12). vl_amountMinor l) \<and>
   vq_totalMinor (avac01_quote 3000 12) = 831527"
  using avac_quote_arithmetic [OF avac01_quote_def, of 3000 12] avac01_result by simp

text \<open>
  C4. The engine fails closed: a quote that is not blocked was computed from a complete rule set (unit
  selection, outdoor unit, labour hours for the unit count, margin and tax), for at least one indoor
  unit and no more than the outdoor unit serves; it charges exactly one unit of equipment per indoor
  unit plus the outdoor unit, and every SKU it names is in the catalog and priced in euro.
\<close>

theorem avac_fail_closed:
  assumes "q = priceAvacQuote fmt ex all catalog taxRate" and "\<not> vq_blocked q"
    and "rules = rules_for Avac all" and "n = unit_count (facts ex)"
  shows "1 \<le> n \<and> parsedRule rules Catalog_Unit IndoorSelectionSchema (Some ''indoor_unit'') \<noteq> None \<and>
    (\<exists>r. parsedRule rules Catalog_Unit OutdoorSelectionSchema (Some ''outdoor_unit'') = Some r \<and>
      n \<le> max_indoor_units r) \<and>
    labor_hours (parsedRule rules Labor_Hours LaborSchema None) n \<noteq> None \<and>
    parsedRule rules Margin_Markup percentage_schema None \<noteq> None \<and>
    parsedRule rules Tax percentage_schema None \<noteq> None \<and>
    kind_quantity Equipment (vq_lines q) = of_int n + 1 \<and>
    (\<forall>l \<in> set (vq_lines q). \<forall>i. vl_skuId l = Some i \<longrightarrow>
      (\<exists>s. find (\<lambda>s. sku_id s = i) catalog = Some s \<and> sku_currency s = STRATOS_CURRENCY))"
proof -
  note parts = priceAvacQuote_parts [OF assms(1,3) refl refl refl refl]
  have none: "acc_missing (avac_body (facts ex) rules catalog) = []"
    and rules: "parsedRule rules Margin_Markup percentage_schema None \<noteq> None"
      "parsedRule rules Tax percentage_schema None \<noteq> None"
    and eur: "\<forall>s \<in> set (relevant_skus catalog (vq_lines q)). sku_currency s = STRATOS_CURRENCY"
    using assms(2) unfolding parts(5) not_not parts(6) by blast+
  have qty: "kind_quantity Equipment (vq_lines q) =
      kind_quantity Equipment (acc_lines (avac_body (facts ex) rules catalog))"
    unfolding parts(1) by (simp add: tax_stage_def margin_stage_def split: option.splits)
  obtain b where b: "vq_lines q = acc_lines b"
      "extends (\<lambda>l. \<forall>i. vl_skuId l = Some i \<longrightarrow> (\<exists>s \<in> set catalog. sku_id s = i)) start_acc b"
    using avac_extends [OF assms(1), of "\<lambda>l. \<forall>i. vl_skuId l = Some i \<longrightarrow> (\<exists>s \<in> set catalog. sku_id s = i)"]
    by (force simp: unit_line_def surcharge_def)
  then have "\<exists>s. find (\<lambda>s. sku_id s = i) catalog = Some s \<and> sku_currency s = STRATOS_CURRENCY"
    if "l \<in> set (vq_lines q)" "vl_skuId l = Some i" for l i
  proof -
    have "\<exists>s \<in> set catalog. sku_id s = i" using b that by (auto dest: extends_startD(3))
    from relevant_skus_find [OF that this] show ?thesis using eur by auto
  qed
  then show ?thesis
    using avac_body_fail_closed [OF none] rules qty by (simp add: assms(4))
qed

theorem avac_fail_closed_witness:
  "1 \<le> unit_count (facts avac01) \<and>
   kind_quantity Equipment (vq_lines (avac01_quote 3000 12)) = of_int (unit_count (facts avac01)) + 1"
  using avac_fail_closed [OF avac01_quote_def _ refl refl, of 3000 12]
    avac01_result by (simp add: avac01_blocked)

text \<open>
  The quote depends on which rules an organisation has, not on the order in which the database
  returns the rows, as long as the active rules have pairwise different \<open>sort_order\<close>.
\<close>

theorem avac_rule_order:
  assumes "mset all' = mset all" and "inj_on sort_order (set all)"
  shows "priceAvacQuote fmt ex all' catalog taxRate = priceAvacQuote fmt ex all catalog taxRate"
  by (simp only: priceAvacQuote_def rules_for_perm [OF assms])

theorem avac_rule_order_witness:
  "priceAvacQuote (\<lambda>_. []) avac01 (rev (avac01_rules (avac01_labor 3000 12))) avac01_skus None = avac01_quote 3000 12"
  unfolding avac01_quote_def by (rule avac_rule_order) (auto simp: avac01_rules_def avac01_rule_def)

text \<open>
  Every amount of a quote is a whole number of cents, and so are its subtotal and total, unless
  the labour hours of the unit count times the hourly rate is not whole; and in that case the labour
  line carries the fraction, because it is the one amount the engine does not round.
\<close>

theorem avac_integral_amounts:
  "let q = priceAvacQuote fmt ex all catalog taxRate;
       labor = parsedRule (rules_for Avac all) Labor_Hours LaborSchema None;
       whole = (case (labor, labor_hours labor (unit_count (facts ex))) of
         (Some la, Some h) \<Rightarrow> is_integer (h * of_int (rate_minor la)) | _ \<Rightarrow> True)
   in ((\<forall>l \<in> set (vq_lines q). is_integer (vl_amountMinor l)) \<longleftrightarrow> whole) \<and>
      (is_integer (vq_totalMinor q) \<longleftrightarrow> whole)"
proof -
  define q where "q = priceAvacQuote fmt ex all catalog taxRate"
  let ?rules = "rules_for Avac all"
  let ?labor = "parsedRule ?rules Labor_Hours LaborSchema None"
  let ?n = "unit_count (facts ex)"
  note parts = priceAvacQuote_parts [OF q_def refl refl refl refl refl]
  obtain pre where pre: "extends (\<lambda>l. is_integer (vl_amountMinor l)) start_acc pre"
    and body: "avac_body (facts ex) ?rules catalog = avac_labor ?n ?labor pre"
    using avac_body_pre by metis
  have sum: "is_integer (sum_amounts (acc_lines pre))"
    unfolding sum_amounts_def by (rule is_integer_sum_list) (rule extends_startD(3) [OF pre])
  have margin: "is_integer (sum_amounts (acc_lines (margin_stage fmt base margin a))) \<longleftrightarrow>
      is_integer (sum_amounts (acc_lines a))" for base margin a
    by (simp add: sum_amounts_margin_stage is_integer_add_of_int split: option.splits)
  have lines: "(\<forall>l \<in> set (vq_lines q). is_integer (vl_amountMinor l)) \<longleftrightarrow>
      (\<forall>l \<in> set (acc_lines (avac_labor ?n ?labor pre)). is_integer (vl_amountMinor l))"
    unfolding parts(1) body by (auto simp: tax_stage_def margin_stage_def split: option.splits)
  have total: "is_integer (vq_totalMinor q) \<longleftrightarrow> is_integer (sum_amounts (acc_lines (avac_labor ?n ?labor pre)))"
    unfolding parts(4) is_integer_add_of_int unfolding parts(2) margin body by simp
  show ?thesis
    using sum extends_startD(3) [OF pre]
    unfolding Let_def q_def [symmetric] lines total
    by (auto simp: avac_labor_def is_integer_add_iff split: option.splits)
qed

theorem avac_integral_amounts_witness:
  "\<not> is_integer (vq_totalMinor (avac01_quote 1501 (5 / 2))) \<and>
   (\<exists>l \<in> set (vq_lines (avac01_quote 1501 (5 / 2))). \<not> is_integer (vl_amountMinor l))"
proof -
  let ?labor = "parsedRule (rules_for Avac (avac01_rules (avac01_labor 1501 (5 / 2)))) Labor_Hours LaborSchema None"
  have "case (?labor, labor_hours ?labor (unit_count (facts avac01))) of
      (Some la, Some h) \<Rightarrow> \<not> is_integer (h * of_int (rate_minor la)) | _ \<Rightarrow> False"
    by code_simp
  then show ?thesis
    using avac_integral_amounts [of "\<lambda>_. []" avac01 "avac01_rules (avac01_labor 1501 (5 / 2))" avac01_skus None]
    by (auto simp: Let_def avac01_quote_def split: option.splits)
qed

end
