(* ===== verification/Price_Node.thy ===== *)
theory Price_Node
  imports Line_Updates Avac_Pricing Caixilharia_Pricing
begin

text \<open>
  The price node (\<open>pricing/price.node.ts\<close>): it prices a request from its extraction with one of the two
  vertical engines, or its matched lines from the catalog, and replaces the quote. Parameters: the new
  quote's identifier, the e-mail syntax check, \<open>toLocaleString\<close> and the Unicode normalisation of the
  engines. Emitting an audit event appends to the event table; the node ignores a failure to do so.
\<close>

record price_env =
  is_email :: "string \<Rightarrow> bool"
  fmt :: "rat \<Rightarrow> string"
  nfd_lower :: "string \<Rightarrow> string"

definition emitPricingRuleMissing :: "uuid \<Rightarrow> uuid \<Rightarrow> db \<Rightarrow> db" where
  "emitPricingRuleMissing orgId requestId =
     emitStageError orgId requestId Price Pricing_Rule_Missing"

definition emitCurrencyInvalid :: "uuid \<Rightarrow> uuid \<Rightarrow> db \<Rightarrow> db" where
  "emitCurrencyInvalid orgId requestId =
     emitStageError orgId requestId Price Catalog_Currency_Must_Be_Eur"

definition emitCompleted :: "uuid \<Rightarrow> uuid \<Rightarrow> uuid option \<Rightarrow> rat \<Rightarrow> bool \<Rightarrow> db \<Rightarrow> db" where
  "emitCompleted orgId requestId quoteId totalMinor blocked =
     emit (Some orgId) (Some requestId) quoteId None (Ev_Pricing_Completed totalMinor blocked)"

definition active_skus :: "uuid \<Rightarrow> db \<Rightarrow> sku list" where
  "active_skus orgId d = filter (\<lambda>s. sku_org_id s = orgId \<and> sku_active s) (skus d)"

definition toVerticalQuoteLine :: "vline \<Rightarrow> quote_line_input" where
  "toVerticalQuoteLine l = \<lparr>in_skuId = vl_skuId l, in_description = vl_description l,
     in_quantity = vl_quantity l, in_unitPriceMinor = vl_unitPriceMinor l, in_amountMinor = vl_amountMinor l,
     in_position = vl_position l, in_kind = Some (vl_kind l)\<rparr>"

definition quote_number_of :: "uuid \<Rightarrow> string" where
  "quote_number_of requestId = ''Q-'' @ requestId"

definition vertical_input :: "uuid \<Rightarrow> uuid \<Rightarrow> 'a vertical_quote_scheme \<Rightarrow> replace_quote_input" where
  "vertical_input requestId orgId p = \<lparr>rq_requestId = requestId, rq_orgId = orgId,
     rq_quoteNumber = quote_number_of requestId, rq_subtotalMinor = vq_subtotalMinor p,
     rq_discountMinor = vq_discountMinor p, rq_totalMinor = vq_totalMinor p,
     rq_leadTimeDays = vq_leadTimeDays p, rq_currency = vq_currency p,
     rq_lines = map toVerticalQuoteLine (vq_lines p)\<rparr>"

text \<open>The end of \<open>priceAvac\<close> and of \<open>priceCaixilharia\<close>, which differ in the engine only.\<close>

definition persist_vertical ::
  "uuid \<Rightarrow> uuid \<Rightarrow> uuid \<Rightarrow> 'a vertical_quote_scheme \<Rightarrow> db \<Rightarrow> node_outcome \<times> db" where
  "persist_vertical newId requestId orgId priced d =
     (if vq_blocked priced then
        (Returned (Advance Policy),
         emitCompleted orgId requestId None 0 True
           (emitPricingRuleMissing orgId requestId (deleteForRequest requestId d)))
      else (case replaceForRequest newId (vertical_input requestId orgId priced) d of
              Inl _ \<Rightarrow> (Threw Other_Error, d)
            | Inr d' \<Rightarrow> (Returned (Advance Policy),
                emitCompleted orgId requestId (Some newId) (vq_totalMinor priced) False d')))"

definition priceAvac ::
  "price_env \<Rightarrow> uuid \<Rightarrow> uuid \<Rightarrow> uuid \<Rightarrow> avac_extraction \<Rightarrow> db \<Rightarrow> node_outcome \<times> db" where
  "priceAvac env newId requestId orgId extraction d =
     persist_vertical newId requestId orgId
       (priceAvacQuote (fmt env) extraction (getActiveForOrg orgId Avac d) (active_skus orgId d)
          (map_of (iva_rates d) orgId)) d"

definition priceCaixilharia ::
  "price_env \<Rightarrow> uuid \<Rightarrow> uuid \<Rightarrow> uuid \<Rightarrow> caixilharia_extraction \<Rightarrow> db \<Rightarrow> node_outcome \<times> db" where
  "priceCaixilharia env newId requestId orgId extraction d =
     persist_vertical newId requestId orgId
       (priceCaixilhariaQuote (nfd_lower env) (fmt env) extraction (getActiveForOrg orgId Caixilharia d)
          (active_skus orgId d) (map_of (iva_rates d) orgId)) d"

definition persistLinePrices :: "priced_quote \<Rightarrow> (uuid \<Rightarrow> string list) \<Rightarrow> db \<Rightarrow> db" where
  "persistLinePrices priced flags d =
     update_lines (map (\<lambda>l. price_write (pq_blocked priced) flags l) (pq_lines priced)) d"

definition catalog_input :: "uuid \<Rightarrow> uuid \<Rightarrow> priced_quote \<Rightarrow> replace_quote_input" where
  "catalog_input requestId orgId p = \<lparr>rq_requestId = requestId, rq_orgId = orgId,
     rq_quoteNumber = quote_number_of requestId, rq_subtotalMinor = of_int (pq_subtotalMinor p),
     rq_discountMinor = pq_discountMinor p, rq_totalMinor = of_int (pq_totalMinor p),
     rq_leadTimeDays = pq_leadTimeDays p, rq_currency = STRATOS_CURRENCY,
     rq_lines = map toQuoteLine (pq_lines p)\<rparr>"

text \<open>The part of \<open>run\<close> after the two vertical branches. The transaction aborts as a whole.\<close>

definition price_catalog :: "uuid \<Rightarrow> uuid \<Rightarrow> uuid \<Rightarrow> db \<Rightarrow> node_outcome \<times> db" where
  "price_catalog newId requestId orgId d =
     (let ls = filter (priceable d) (lines_of_request requestId d) in
      if ls = [] then
        (Returned (Advance Policy), emitCompleted orgId requestId None 0 False (deleteForRequest requestId d))
      else if (\<exists>li \<in> set ls. non_euro d li) then
        (Returned (Advance Policy),
         emitCompleted orgId requestId None 0 True
           (emitCurrencyInvalid orgId requestId (deleteForRequest requestId d)))
      else
        (let priced = priceQuote (map (pricing_input d) ls) (getRuleSetForOrg orgId d) in
         (case replaceForRequest newId (catalog_input requestId orgId priced)
                 (persistLinePrices priced (flagsById ls) d) of
            Inl _ \<Rightarrow> (Threw Other_Error, d)
          | Inr d' \<Rightarrow>
              (let d' = (if pq_blocked priced then emitPricingRuleMissing orgId requestId d' else d') in
               (Returned (Advance Policy),
                emitCompleted orgId requestId (Some newId) (of_int (pq_totalMinor priced)) (pq_blocked priced) d')))))"

definition price_node :: "price_env \<Rightarrow> uuid \<Rightarrow> uuid \<Rightarrow> uuid \<Rightarrow> db \<Rightarrow> node_outcome \<times> db" where
  "price_node env newId requestId orgId d =
     (let raw = map_option raw_json (findByRequestId requestId orgId d) in
      case AvacExtractionV1Schema (is_email env) raw of
        Some ex \<Rightarrow> priceAvac env newId requestId orgId ex d
      | None \<Rightarrow>
          (case CaixilhariaExtractionV1Schema (is_email env) raw of
             Some ex \<Rightarrow> priceCaixilharia env newId requestId orgId ex d
           | None \<Rightarrow> price_catalog newId requestId orgId d))"

section \<open>Facts\<close>

lemma emit_price_simps [simp]:
  "quotes (emitCompleted o' r q t b d) = quotes d" "quote_lines (emitCompleted o' r q t b d) = quote_lines d"
  "line_items (emitCompleted o' r q t b d) = line_items d" "skus (emitCompleted o' r q t b d) = skus d"
  "pricing_rules (emitCompleted o' r q t b d) = pricing_rules d" "requests (emitCompleted o' r q t b d) = requests d"
  "extractions (emitCompleted o' r q t b d) = extractions d" "iva_rates (emitCompleted o' r q t b d) = iva_rates d"
  "quotes (emitPricingRuleMissing o' r d) = quotes d" "quote_lines (emitPricingRuleMissing o' r d) = quote_lines d"
  "line_items (emitPricingRuleMissing o' r d) = line_items d" "skus (emitPricingRuleMissing o' r d) = skus d"
  "pricing_rules (emitPricingRuleMissing o' r d) = pricing_rules d" "requests (emitPricingRuleMissing o' r d) = requests d"
  "extractions (emitPricingRuleMissing o' r d) = extractions d" "iva_rates (emitPricingRuleMissing o' r d) = iva_rates d"
  "quotes (emitCurrencyInvalid o' r d) = quotes d" "quote_lines (emitCurrencyInvalid o' r d) = quote_lines d"
  "line_items (emitCurrencyInvalid o' r d) = line_items d" "skus (emitCurrencyInvalid o' r d) = skus d"
  "pricing_rules (emitCurrencyInvalid o' r d) = pricing_rules d" "requests (emitCurrencyInvalid o' r d) = requests d"
  "extractions (emitCurrencyInvalid o' r d) = extractions d" "iva_rates (emitCurrencyInvalid o' r d) = iva_rates d"
  by (simp_all add: emitCompleted_def emitPricingRuleMissing_def emitCurrencyInvalid_def)

text \<open>What a pricing run leaves behind, up to the generated quote identifier and the audit events.\<close>

definition priced_state :: "uuid \<Rightarrow> db \<Rightarrow> (quote \<times> quote_line_item list) list \<times> line_item list" where
  "priced_state requestId d =
     (map (\<lambda>q. (q\<lparr>q_id := []\<rparr>, map (\<lambda>l. l\<lparr>ql_quote_id := []\<rparr>) (filter (\<lambda>l. ql_quote_id l = q_id q) (quote_lines d))))
        (quotes_of_request requestId d), line_items d)"

lemma priced_state_emit [simp]:
  "priced_state r (emitCompleted o' r' q t b d) = priced_state r d"
  "priced_state r (emitPricingRuleMissing o' r' d) = priced_state r d"
  "priced_state r (emitCurrencyInvalid o' r' d) = priced_state r d"
  by (simp_all add: priced_state_def quotes_of_request_def)

lemma new_quote_strip: "new_quote [] inp = map_option (\<lambda>q. q\<lparr>q_id := []\<rparr>) (new_quote i inp)"
  by (simp add: new_quote_def split: bind_split option.splits)

lemma new_quote_line_strip: "new_quote_line [] l = map_option (\<lambda>q. q\<lparr>ql_quote_id := []\<rparr>) (new_quote_line i l)"
  by (simp add: new_quote_line_def split: bind_split)

lemma those_strip:
  "map (new_quote_line i) ins = map Some ls \<Longrightarrow>
   map (new_quote_line []) ins = map Some (map (\<lambda>l. l\<lparr>ql_quote_id := []\<rparr>) ls)"
  by (induction ins arbitrary: ls) (auto simp: new_quote_line_strip [of _ i])

text \<open>Whether a replacement succeeds, and with what figures, depends on its input alone.\<close>

lemma replace_state:
  assumes "replaceForRequest i inp d = Inr d'" and "i \<notin> ql_quote_id ` set (quote_lines d)"
  shows "priced_state (rq_requestId inp) d' =
      ([(the (new_quote [] inp), the (those (map (new_quote_line []) (rq_lines inp))))], line_items d)"
proof -
  let ?r = "rq_requestId inp"
  obtain q ls where q: "new_quote i inp = Some q" and ls: "map (new_quote_line i) (rq_lines inp) = map Some ls"
    and d': "d' = (remove_quotes ?r d)\<lparr>quotes := quotes (remove_quotes ?r d) @ [q],
      quote_lines := quote_lines (remove_quotes ?r d) @ ls\<rparr>"
    using assms(1) by (auto simp: replaceForRequest_Inr)
  have own: "ql_quote_id l = i" if "l \<in> set ls" for l
  proof -
    have "Some l \<in> set (map (new_quote_line i) (rq_lines inp))" unfolding ls using that by simp
    then show ?thesis by (auto dest!: new_quote_line_Some [OF sym])
  qed
  have "filter (\<lambda>l. ql_quote_id l = i) (quote_lines (remove_quotes ?r d)) = []"
    using assms(2) by (auto simp: remove_quotes_lines filter_empty_conv)
  then have lines: "filter (\<lambda>l. ql_quote_id l = i) (quote_lines d') = ls"
    using own by (simp add: d' filter_True)
  have "quotes_of_request ?r d' = [q]" using new_quote_Some [OF q] by (simp add: quotes_of_request_def d')
  moreover have "line_items d' = line_items d" by (simp add: d')
  moreover have "those (map (new_quote_line []) (rq_lines inp)) = Some (map (\<lambda>l. l\<lparr>ql_quote_id := []\<rparr>) ls)"
    by (simp only: those_strip [OF ls] those_map_Some_id)
  ultimately show ?thesis
    using lines new_quote_Some [OF q] by (simp add: priced_state_def new_quote_strip [of inp i] q)
qed

lemma replace_indep:
  assumes "replaceForRequest i inp d = Inr d'"
  shows "\<exists>e'. replaceForRequest j inp e = Inr e'"
proof -
  obtain q ls where q: "new_quote i inp = Some q" and ls: "map (new_quote_line i) (rq_lines inp) = map Some ls"
    and eur: "isEuroCurrency (rq_currency inp)"
    using assms by (auto simp: replaceForRequest_Inr)
  have "new_quote j inp = Some (q\<lparr>q_id := j\<rparr>)"
    using q by (simp add: new_quote_def bind_eq_Some_conv) auto
  moreover have "map (new_quote_line j) ins = map Some (map (\<lambda>l. l\<lparr>ql_quote_id := j\<rparr>) ls')"
    if "map (new_quote_line i) ins = map Some ls'" for ins ls'
    using that by (induction ins arbitrary: ls') (auto simp: new_quote_line_def bind_eq_Some_conv)
  ultimately show ?thesis using eur ls by (simp add: replaceForRequest_Inr) (metis map_map)
qed

text \<open>What the price node reads and never changes.\<close>

definition same_inputs :: "db \<Rightarrow> db \<Rightarrow> bool" where
  "same_inputs d e \<longleftrightarrow> requests d = requests e \<and> extractions d = extractions e \<and> skus d = skus e \<and>
     pricing_rules d = pricing_rules e \<and> iva_rates d = iva_rates e \<and>
     map line_core (line_items d) = map line_core (line_items e)"

lemma same_inputs_catalog:
  assumes "same_inputs d e"
  shows "map line_core (filter (priceable d) (lines_of_request r d)) =
      map line_core (filter (priceable e) (lines_of_request r e))"
proof -
  have core: "map line_core (lines_of_request r d) = map line_core (lines_of_request r e)"
    using assms by (intro map_core_lines_of_request) (simp add: same_inputs_def)
  have "priceable d = priceable e" using assms by (intro skus_cong(2)) (simp add: same_inputs_def)
  moreover have "line_core (line_core a) = line_core a" for a by (simp add: line_core_def)
  ultimately show ?thesis using map_core_congD [OF core, of "priceable e" line_core] by simp
qed

lemma map_core_cong: "map line_core xs = map line_core ys \<Longrightarrow> (\<And>a. g (line_core a) = g a) \<Longrightarrow> map g xs = map g ys"
  using map_core_congD [of xs ys "\<lambda>_. True" g] by simp

lemma remove_quotes_same_inputs [simp]: "same_inputs d (remove_quotes i d)"
  by (simp add: same_inputs_def)

lemma distinct_lines_of_request:
  "distinct (map li_id (line_items d)) \<Longrightarrow> distinct (map li_id (filter P (lines_of_request r d)))"
  by (auto simp: lines_of_request_def distinct_map intro: inj_on_subset)

lemma lines_of_request_mem: "li \<in> set (lines_of_request r d) \<Longrightarrow> li \<in> set (line_items d)"
  by (simp add: lines_of_request_def)

section \<open>Running the node again\<close>

lemma persist_vertical_rerun:
  assumes "persist_vertical i r orgId p d = (Returned x, d')" and "i \<notin> ql_quote_id ` set (quote_lines d)"
    and "j \<notin> ql_quote_id ` set (quote_lines d')"
  shows "same_inputs d d' \<and> fst (persist_vertical j r orgId p d') = Returned x \<and>
    priced_state r (snd (persist_vertical j r orgId p d')) = priced_state r d'"
proof (cases "vq_blocked p")
  case True
  with assms(1) have "x = Advance Policy"
    "d' = emitCompleted orgId r None 0 True (emitPricingRuleMissing orgId r (deleteForRequest r d))"
    by (auto simp: persist_vertical_def)
  with True show ?thesis
    by (simp add: persist_vertical_def deleteForRequest_eq same_inputs_def priced_state_def quotes_of_request_def)
next
  case False
  let ?inp = "vertical_input r orgId p"
  obtain e where e: "replaceForRequest i ?inp d = Inr e"
    and d': "d' = emitCompleted orgId r (Some i) (vq_totalMinor p) False e" and x: "x = Advance Policy"
    using assms(1) False by (auto simp: persist_vertical_def split: sum.splits)
  obtain e' where e': "replaceForRequest j ?inp d' = Inr e'" using replace_indep [OF e] by blast
  have r: "rq_requestId ?inp = r" by (simp add: vertical_input_def)
  have "same_inputs d e" using e by (auto simp: replaceForRequest_Inr same_inputs_def)
  moreover have "priced_state r e' = priced_state r e"
    using replace_state [OF e assms(2)] replace_state [OF e' assms(3)]
    by (simp add: r d' priced_state_def)
  ultimately show ?thesis
    using False e' x by (simp add: persist_vertical_def d' same_inputs_def priced_state_def quotes_of_request_def)
qed

lemma price_writes_again:
  assumes "distinct (map li_id (line_items d))" and "ls = filter (priceable d) (lines_of_request r d)"
    and "priced = priceQuote (map (pricing_input d) ls) rules"
    and "e = persistLinePrices priced (flagsById ls) d" and "same_inputs d e'" and "line_items e' = line_items e"
    and "ls' = filter (priceable e') (lines_of_request r e')"
  shows "line_items (persistLinePrices priced (flagsById ls') e') = line_items e'"
proof -
  let ?b = "pq_blocked priced"
  let ?U = "\<lambda>fl. map (\<lambda>l. price_write ?b fl l) (pq_lines priced)"
  have ids: "map lineItemId (pq_lines priced) = map li_id ls"
    by (simp add: assms(3) priceQuote_lines priceLine_def Let_def pricing_input_def comp_def)
  have dist: "distinct (map lineItemId (pq_lines priced))"
    unfolding ids assms(2) by (rule distinct_lines_of_request) (rule assms(1))
  note pass = price_writes_one_pass [OF dist, of "\<lambda>_. ?b"]
  have items: "line_items e' = map (apply_updates (?U (flagsById ls))) (line_items d)"
    unfolding assms(6,4) persistLinePrices_def pass ..
  have dist': "distinct (map li_id (line_items e'))"
    using map_core_cong [of "line_items d" "line_items e'" li_id] assms(1,5) by (simp add: same_inputs_def)
  have ids': "map li_id ls' = map li_id ls"
    using map_core_cong [OF same_inputs_catalog [OF assms(5), of r], of li_id] assms(2,7) by simp
  have fl': "flagsById ls' j = price_flags ?b (flagsById ls j)" if "j \<in> set (map li_id ls)" for j
  proof -
    from that obtain li where li: "li \<in> set ls'" "li_id li = j" unfolding ids' [symmetric] by auto
    then have "li \<in> set (line_items e')" by (auto simp: assms(7) dest: lines_of_request_mem)
    then obtain li0 where "li = apply_updates (?U (flagsById ls)) li0" by (auto simp: items)
    moreover obtain f where "map_of (?U (flagsById ls)) (li_id li0) = Some f" if "li_id li0 = j"
    proof -
      have "map_of (?U (flagsById ls)) j \<noteq> None"
        using \<open>j \<in> set (map li_id ls)\<close> unfolding ids [symmetric] map_of_eq_None_iff by (auto simp: image_iff)
      then show ?thesis using that by auto
    qed
    ultimately have "li_flags li = Some (price_flags ?b (flagsById ls j))"
      using li(2) by (auto simp: apply_updates_def price_write_def dest!: map_of_SomeD split: option.splits)
    moreover have "flagsById ls' j = flags_of li"
      using flagsById_mem [OF _ li(1)] distinct_lines_of_request [OF dist'] li(2) by (simp add: assms(7))
    ultimately show ?thesis by (simp add: flags_of_def)
  qed
  have "apply_updates (?U (flagsById ls')) (apply_updates (?U (flagsById ls)) li) = apply_updates (?U (flagsById ls)) li" for li
  proof (cases "find (\<lambda>l. lineItemId l = li_id li) (pq_lines priced)")
    case None
    then have "map_of (?U fl) (li_id li) = None" for fl
      by (auto simp: find_None_iff map_of_eq_None_iff)
    then show ?thesis by (simp add: apply_updates_def)
  next
    case (Some l)
    then have l: "l \<in> set (pq_lines priced)" "lineItemId l = li_id li" by (auto dest: find_Some_set)
    have "map_of (?U fl) (li_id li) = Some (snd (price_write ?b fl l))" for fl
      by (rule map_of_is_SomeI) (use dist l in \<open>auto simp: comp_def image_iff price_write_def intro!: bexI [of _ l]\<close>)
    moreover have "li_id li \<in> set (map li_id ls)" using l unfolding ids [symmetric] by force
    ultimately show ?thesis using fl' l by (simp add: apply_updates_def price_write_def)
  qed
  then show ?thesis by (simp add: persistLinePrices_def pass items comp_def)
qed

lemma getRuleSet_cong: "pricing_rules d = pricing_rules e \<Longrightarrow> getRuleSetForOrg orgId d = getRuleSetForOrg orgId e"
  by (simp add: getRuleSetForOrg_def)

lemma price_catalog_rerun:
  assumes "price_catalog i r orgId d = (Returned x, d')" and "distinct (map li_id (line_items d))"
    and "i \<notin> ql_quote_id ` set (quote_lines d)" and "j \<notin> ql_quote_id ` set (quote_lines d')"
  shows "same_inputs d d' \<and> fst (price_catalog j r orgId d') = Returned x \<and>
    priced_state r (snd (price_catalog j r orgId d')) = priced_state r d'"
proof -
  define ls where "ls = filter (priceable d) (lines_of_request r d)"
  define ls' where "ls' = filter (priceable d') (lines_of_request r d')"
  have core: "map line_core ls = map line_core ls'" if "same_inputs d d'"
    unfolding ls_def ls'_def by (rule same_inputs_catalog [OF that])
  have euro_iff: "(\<exists>li \<in> set ls'. non_euro d' li) \<longleftrightarrow> (\<exists>li \<in> set ls. non_euro d li)" if "same_inputs d d'"
  proof -
    have "map (non_euro d') ls = map (non_euro d') ls'" by (rule map_core_cong [OF core [OF that]]) simp
    then have "True \<in> set (map (non_euro d') ls) \<longleftrightarrow> True \<in> set (map (non_euro d') ls')" by simp
    moreover have "non_euro d' = non_euro d" by (rule skus_cong(4)) (use that in \<open>simp add: same_inputs_def\<close>)
    ultimately show ?thesis by auto
  qed
  have same_delete: "priced_state r (deleteForRequest r d') = priced_state r d'" "same_inputs d d'"
    if "quotes d' = filter (\<lambda>q. q_request_id q \<noteq> r) (quotes d)" "line_items d' = line_items d"
      "requests d' = requests d" "extractions d' = extractions d" "skus d' = skus d"
      "pricing_rules d' = pricing_rules d" "iva_rates d' = iva_rates d"
    using that by (auto simp: deleteForRequest_eq priced_state_def quotes_of_request_def same_inputs_def)
  consider (none) "ls = []" | (euro) "ls \<noteq> []" "\<exists>li \<in> set ls. non_euro d li"
    | (price) "ls \<noteq> []" "\<not> (\<exists>li \<in> set ls. non_euro d li)" by blast
  then show ?thesis
  proof cases
    case none
    with assms(1) have d': "x = Advance Policy" "d' = emitCompleted orgId r None 0 False (deleteForRequest r d)"
      by (auto simp: price_catalog_def ls_def [symmetric])
    have same: "same_inputs d d'" by (rule same_delete(2)) (simp_all add: d' deleteForRequest_eq)
    have state: "priced_state r (deleteForRequest r d') = priced_state r d'"
      by (rule same_delete(1)) (simp_all add: d' deleteForRequest_eq)
    have "ls' = []" using core [OF same] none by simp
    then have "price_catalog j r orgId d' =
        (Returned (Advance Policy), emitCompleted orgId r None 0 False (deleteForRequest r d'))"
      by (simp add: price_catalog_def ls'_def [symmetric])
    with same state d'(1) show ?thesis by simp
  next
    case euro
    with assms(1) have d': "x = Advance Policy"
      "d' = emitCompleted orgId r None 0 True (emitCurrencyInvalid orgId r (deleteForRequest r d))"
      by (auto simp: price_catalog_def ls_def [symmetric])
    have same: "same_inputs d d'" by (rule same_delete(2)) (simp_all add: d' deleteForRequest_eq)
    have state: "priced_state r (deleteForRequest r d') = priced_state r d'"
      by (rule same_delete(1)) (simp_all add: d' deleteForRequest_eq)
    have "ls' \<noteq> []" using core [OF same] euro(1) by auto
    then have "price_catalog j r orgId d' = (Returned (Advance Policy),
        emitCompleted orgId r None 0 True (emitCurrencyInvalid orgId r (deleteForRequest r d')))"
      using euro(2) euro_iff [OF same] by (simp add: price_catalog_def ls'_def [symmetric])
    with same state d'(1) show ?thesis by simp
  next
    case price
    define priced where "priced = priceQuote (map (pricing_input d) ls) (getRuleSetForOrg orgId d)"
    define e where "e = persistLinePrices priced (flagsById ls) d"
    let ?inp = "catalog_input r orgId priced"
    obtain e1 where e1: "replaceForRequest i ?inp e = Inr e1" and x: "x = Advance Policy"
      and d': "d' = emitCompleted orgId r (Some i) (of_int (pq_totalMinor priced)) (pq_blocked priced)
        (if pq_blocked priced then emitPricingRuleMissing orgId r e1 else e1)"
      using assms(1) price
      by (auto simp: price_catalog_def ls_def [symmetric] priced_def [symmetric] e_def [symmetric] Let_def split: sum.splits)
    have ids: "map lineItemId (pq_lines priced) = map li_id ls"
      by (simp add: priced_def priceQuote_lines priceLine_def Let_def pricing_input_def comp_def)
    have dist: "distinct (map lineItemId (pq_lines priced))"
      unfolding ids ls_def by (rule distinct_lines_of_request) (rule assms(2))
    have "map line_core (line_items e) = map line_core (line_items d)"
      unfolding e_def persistLinePrices_def by (rule price_writes_core [OF dist])
    then have same: "same_inputs d d'" and items: "line_items d' = line_items e"
      using e1 by (auto simp: replaceForRequest_Inr same_inputs_def d' e_def persistLinePrices_def)
    have "map (pricing_input d) ls = map (pricing_input d') ls'"
      using map_core_cong [OF core [OF same], of "pricing_input d'"] skus_cong(3) [of d d'] same
      by (simp add: same_inputs_def)
    then have priced': "priceQuote (map (pricing_input d') ls') (getRuleSetForOrg orgId d') = priced"
      using getRuleSet_cong [of d d'] same by (simp add: priced_def same_inputs_def)
    define f where "f = persistLinePrices priced (flagsById ls') d'"
    have items': "line_items f = line_items d'"
      unfolding f_def by (rule price_writes_again [OF assms(2) ls_def priced_def e_def same items ls'_def])
    obtain f1 where f1: "replaceForRequest j ?inp f = Inr f1" using replace_indep [OF e1] by blast
    have lines: "quote_lines e = quote_lines d" "quote_lines f = quote_lines d'"
      by (simp_all add: e_def f_def persistLinePrices_def)
    have r: "rq_requestId ?inp = r" by (simp add: catalog_input_def)
    have state: "priced_state r f1 = priced_state r d'"
      using replace_state [OF e1] replace_state [OF f1] assms(3,4) items items'
      by (simp add: r lines priced_state_def d' quotes_of_request_def split: if_splits)
    have "ls' \<noteq> []" using core [OF same] price(1) by auto
    then have "price_catalog j r orgId d' = (Returned (Advance Policy),
        emitCompleted orgId r (Some j) (of_int (pq_totalMinor priced)) (pq_blocked priced)
          (if pq_blocked priced then emitPricingRuleMissing orgId r f1 else f1))"
      using price(2) euro_iff [OF same] f1 priced'
      by (simp add: price_catalog_def ls'_def [symmetric] f_def Let_def)
    with same state x show ?thesis by simp
  qed
qed

section \<open>Properties\<close>

text \<open>
  Crash recovery: running the price node a second time on the state its first run left, with whatever
  identifier the database generates then, returns the same result and leaves the same quote figures, quote
  lines and line items, on the AVAC, the caixilharia and the catalog path, blocked or not.
\<close>

theorem price_node_rerun:
  assumes "price_node env i r orgId d = (Returned x, d')" and "distinct (map li_id (line_items d))"
    and "i \<notin> ql_quote_id ` set (quote_lines d)" and "j \<notin> ql_quote_id ` set (quote_lines d')"
  shows "fst (price_node env j r orgId d') = Returned x \<and>
    priced_state r (snd (price_node env j r orgId d')) = priced_state r d'"
proof -
  let ?raw = "\<lambda>e. map_option raw_json (findByRequestId r orgId e)"
  have raw: "?raw d' = ?raw d" if "same_inputs d d'"
    using that findByRequestId_cong [of d' d] by (simp add: same_inputs_def)
  have cong: "getActiveForOrg orgId v d' = getActiveForOrg orgId v d" "active_skus orgId d' = active_skus orgId d"
    "map_of (iva_rates d') orgId = map_of (iva_rates d) orgId" if "same_inputs d d'" for v
    using that by (simp_all add: same_inputs_def getActiveForOrg_def active_skus_def)
  consider (avac) ex where "AvacExtractionV1Schema (is_email env) (?raw d) = Some ex"
    | (caix) ex where "AvacExtractionV1Schema (is_email env) (?raw d) = None"
        "CaixilhariaExtractionV1Schema (is_email env) (?raw d) = Some ex"
    | (catalog) "AvacExtractionV1Schema (is_email env) (?raw d) = None"
        "CaixilhariaExtractionV1Schema (is_email env) (?raw d) = None" by fastforce
  then show ?thesis
  proof cases
    case (avac ex)
    with assms(1) have run: "persist_vertical i r orgId (priceAvacQuote (fmt env) ex (getActiveForOrg orgId Avac d)
        (active_skus orgId d) (map_of (iva_rates d) orgId)) d = (Returned x, d')"
      by (simp add: price_node_def priceAvac_def)
    note again = persist_vertical_rerun [OF run assms(3,4)]
    with avac show ?thesis using raw cong by (simp add: price_node_def priceAvac_def)
  next
    case (caix ex)
    with assms(1) have run: "persist_vertical i r orgId (priceCaixilhariaQuote (nfd_lower env) (fmt env) ex
        (getActiveForOrg orgId Caixilharia d) (active_skus orgId d) (map_of (iva_rates d) orgId)) d = (Returned x, d')"
      by (simp add: price_node_def priceCaixilharia_def)
    note again = persist_vertical_rerun [OF run assms(3,4)]
    with caix show ?thesis using raw cong by (simp add: price_node_def priceCaixilharia_def)
  next
    case catalog
    with assms(1) have "price_catalog i r orgId d = (Returned x, d')" by (simp add: price_node_def)
    from price_catalog_rerun [OF this assms(2-4)] catalog show ?thesis using raw by (simp add: price_node_def)
  qed
qed

definition demo_env :: price_env where
  "demo_env = \<lparr>is_email = (\<lambda>_. True), fmt = (\<lambda>_. []), nfd_lower = (\<lambda>s. s)\<rparr>"

theorem price_node_rerun_witness:
  "let d = snd (price_node demo_env ''q9'' ''r1'' ''org'' (catalog_db ''EUR'')) in
   map total_minor (quotes_of_request ''r1'' d) = [3234] \<and>
   priced_state ''r1'' (snd (price_node demo_env ''q10'' ''r1'' ''org'' d)) = priced_state ''r1'' d"
proof -
  let ?run = "price_node demo_env ''q9'' ''r1'' ''org'' (catalog_db ''EUR'')"
  have run: "fst ?run = Returned (Advance Policy)" "map total_minor (quotes_of_request ''r1'' (snd ?run)) = [3234]"
    "''q10'' \<notin> ql_quote_id ` set (quote_lines (snd ?run))"
    by code_simp+
  have dist: "distinct (map li_id (line_items (catalog_db ''EUR'')))" "''q9'' \<notin> ql_quote_id ` set (quote_lines (catalog_db ''EUR''))"
    by (simp_all add: catalog_db_def demo_line_def demo_db_def empty_db_def)
  from run(1) have eq: "?run = (Returned (Advance Policy), snd ?run)" by (metis prod.collapse)
  show ?thesis using price_node_rerun [OF eq dist run(3)] run(2) by (simp add: Let_def)
qed

text \<open>
  One currency per quote: if any priceable line of a catalog request is matched to a product that is
  not priced in euro, the node adds nothing up; it removes the quote the request had, changes no line, records
  the error unless it was recorded that day and reports the pricing as blocked, and the request goes on to the policy node.
\<close>

theorem price_node_currency:
  assumes "findByRequestId r orgId d = None" and "li \<in> set (lines_of_request r d)"
    and "priceable d li" and "non_euro d li"
  shows "fst (price_node env i r orgId d) = Returned (Advance Policy) \<and>
    quotes_of_request r (snd (price_node env i r orgId d)) = [] \<and>
    line_items (snd (price_node env i r orgId d)) = line_items d \<and>
    map payload (events (snd (price_node env i r orgId d))) =
      map payload (events d) @ (if stage_error_recorded r Price Catalog_Currency_Must_Be_Eur d then []
        else [Ev_Stage_Error Price Catalog_Currency_Must_Be_Eur]) @ [Ev_Pricing_Completed 0 True]"
proof -
  have "price_node env i r orgId d = price_catalog i r orgId d"
    by (simp add: price_node_def assms(1) AvacExtractionV1Schema_def CaixilhariaExtractionV1Schema_def)
  moreover have "price_catalog i r orgId d = (Returned (Advance Policy), emitCompleted orgId r None 0 True
      (emitCurrencyInvalid orgId r (deleteForRequest r d)))"
  proof -
    have "filter (priceable d) (lines_of_request r d) \<noteq> []" using assms(2,3) by (auto simp: filter_empty_conv)
    moreover have "\<exists>li \<in> set (filter (priceable d) (lines_of_request r d)). non_euro d li"
      using assms(2-4) by auto
    ultimately show ?thesis by (simp only: price_catalog_def Let_def if_True if_False simp_thms)
  qed
  ultimately show ?thesis
    by (simp add: quotes_of_request_def deleteForRequest_eq emitCompleted_def emitCurrencyInvalid_def
        emitStageError_events stage_error_recorded_def)
qed

theorem price_node_currency_witness:
  "quotes_of_request ''r1'' (snd (price_node demo_env ''q9'' ''r1'' ''org'' (catalog_db ''USD''))) = [] \<and>
   quotes_of_request ''r1'' (catalog_db ''USD'') \<noteq> []"
proof -
  have "findByRequestId ''r1'' ''org'' (catalog_db ''USD'') = None"
    by (simp add: findByRequestId_def request_in_org_def catalog_db_def demo_db_def empty_db_def)
  moreover have "demo_line ''l2'' 2 (Some ''s2'') (Some 2) \<in> set (lines_of_request ''r1'' (catalog_db ''USD''))"
    by (simp add: lines_of_request_def catalog_db_def demo_line_def)
  moreover have "priceable (catalog_db ''USD'') (demo_line ''l2'' 2 (Some ''s2'') (Some 2))"
    "non_euro (catalog_db ''USD'') (demo_line ''l2'' 2 (Some ''s2'') (Some 2))"
    by code_simp+
  ultimately show ?thesis
    using price_node_currency [of "''r1''" "''org''" "catalog_db ''USD''" _ demo_env "''q9''"]
    by (simp add: quotes_of_request_def catalog_db_def demo_db_def demo_quote_def)
qed

text \<open>
  A quote whose total is not a whole number of cents cannot be stored: when the AVAC engine returns an
  unblocked quote with a fractional total, which it does exactly when the labour amount is fractional,
  the insert is rejected, the node throws and the database keeps whatever quote it held.
\<close>

theorem price_node_fraction:
  assumes "AvacExtractionV1Schema (is_email env) (map_option raw_json (findByRequestId r orgId d)) = Some ex"
    and "q = priceAvacQuote (fmt env) ex (getActiveForOrg orgId Avac d) (active_skus orgId d) (map_of (iva_rates d) orgId)"
    and "\<not> vq_blocked q" and "\<not> is_integer (vq_totalMinor q)"
  shows "price_node env i r orgId d = (Threw Other_Error, d)"
proof -
  obtain e where "replaceForRequest i (vertical_input r orgId q) d = Inl e"
    using replaceForRequest_fraction [of "vertical_input r orgId q"] assms(4) by (auto simp: vertical_input_def)
  then show ?thesis
    using assms by (simp add: price_node_def priceAvac_def persist_vertical_def)
qed

text \<open>The stored extraction of AVAC-01, and an organisation whose labour rule has a fractional amount.\<close>

definition avac01_json :: json where
  "avac01_json = JObj [(''vertical'', JStr ''avac''),
     (''customer'', JObj [(''name'', JStr ''Joao Martins''), (''email'', JNull), (''phone'', JNull), (''address'', JNull)]),
     (''avac'', JObj [(''system_type'', JStr ''multi-split''), (''brand_preference'', JStr ''Daikin''),
       (''areas'', JArr [JObj [(''room'', JStr ''sala''), (''area_m2'', JNum 35)],
         JObj [(''room'', JStr ''quarto''), (''area_m2'', JNum 14)],
         JObj [(''room'', JStr ''quarto''), (''area_m2'', JNum 14)]]),
       (''indoor_units_requested'', JNull), (''pipe_length_m'', JNum 6), (''install_height_m'', JNull),
       (''wall_type'', JNull), (''outdoor_unit_distance_m'', JNum 6), (''needs_electrical_panel'', JNull),
       (''distance_km'', JNull), (''install_type'', JStr ''standard''), (''notes'', JStr [])]),
     (''missing_info'', JArr []), (''confidence'', JStr ''high'')]"

definition avac01_extraction :: extraction_row where
  "avac01_extraction = \<lparr>ex_request_id = ''r1'', schema_valid = True, ex_status = Ex_Completed,
     raw_json = avac01_json, reextract_count = 0\<rparr>"

definition avac_db :: "rat \<Rightarrow> rat \<Rightarrow> db" where
  "avac_db rate hours = (demo_db Q_Draft)
     \<lparr>requests := [demo_request ''org-1'' Price St_Parsing], skus := avac01_skus,
      pricing_rules := avac01_rules (avac01_labor rate hours), extractions := [avac01_extraction]\<rparr>"

lemma avac_db_extraction:
  "AvacExtractionV1Schema (\<lambda>_. True) (map_option raw_json (findByRequestId ''r1'' ''org-1'' (avac_db rate hours))) = Some avac01"
proof -
  have "findByRequestId ''r1'' ''org-1'' (avac_db rate hours) = Some avac01_extraction"
    by (simp add: findByRequestId_def request_in_org_def avac_db_def demo_request_def avac01_extraction_def)
  moreover have "AvacExtractionV1Schema (\<lambda>_. True) (Some avac01_json) = Some avac01" by code_simp
  ultimately show ?thesis by (simp add: avac01_extraction_def)
qed

theorem price_node_fraction_witness:
  "price_node demo_env ''q9'' ''r1'' ''org-1'' (avac_db 1501 (5 / 2)) = (Threw Other_Error, avac_db 1501 (5 / 2))"
proof (rule price_node_fraction [OF _ refl])
  show "AvacExtractionV1Schema (is_email demo_env)
      (map_option raw_json (findByRequestId ''r1'' ''org-1'' (avac_db 1501 (5 / 2)))) = Some avac01"
    using avac_db_extraction by (simp add: demo_env_def)
  show "\<not> vq_blocked (priceAvacQuote (fmt demo_env) avac01 (getActiveForOrg ''org-1'' Avac (avac_db 1501 (5 / 2)))
      (active_skus ''org-1'' (avac_db 1501 (5 / 2))) (map_of (iva_rates (avac_db 1501 (5 / 2))) ''org-1''))"
    by code_simp
  show "\<not> is_integer (vq_totalMinor (priceAvacQuote (fmt demo_env) avac01 (getActiveForOrg ''org-1'' Avac (avac_db 1501 (5 / 2)))
      (active_skus ''org-1'' (avac_db 1501 (5 / 2))) (map_of (iva_rates (avac_db 1501 (5 / 2))) ''org-1'')))"
    by code_simp
qed

end
