(* ===== verification/Quote_Recompute.thy ===== *)
theory Quote_Recompute
  imports Line_Updates
begin

text \<open>
  Re-pricing a request inside the caller's transaction (\<open>pricing/quote-recompute.service.ts\<close>): overridden
  lines keep the estimator's price, the others are priced by rule, lines that can no longer be priced
  lose their price, and the quote is replaced. An exception aborts the transaction, so an error carries
  no state.
\<close>

section \<open>The service\<close>

record recompute_result =
  rc_quoteId :: "uuid option"
  rc_subtotalMinor :: int
  rc_discountMinor :: int
  rc_totalMinor :: int
  rc_leadTimeDays :: "int option"
  rc_blocked :: bool

datatype recompute_error = Recompute_Currency | Recompute_Store store_error

definition EMPTY_RECOMPUTE :: recompute_result where
  "EMPTY_RECOMPUTE = \<lparr>rc_quoteId = None, rc_subtotalMinor = 0, rc_discountMinor = 0, rc_totalMinor = 0,
     rc_leadTimeDays = None, rc_blocked = False\<rparr>"

definition isOverridden :: "line_item \<Rightarrow> bool" where
  "isOverridden li \<longleftrightarrow> li_unit_price_minor li \<noteq> None \<and>
     (case li_flags li of Some fs \<Rightarrow> MANUAL_OVERRIDE_FLAG \<in> set fs | None \<Rightarrow> False)"

definition override_line :: "db \<Rightarrow> line_item \<Rightarrow> priced_line" where
  "override_line d li =
     (let s = the (matched_sku d li); unit = the (li_unit_price_minor li); qty = the (li_quantity li) in
      \<lparr>lineItemId = li_id li, skuId = the (matched_sku_id li), position = li_position li,
       description = sku_name s, quantity = qty, unitPriceMinor = unit,
       amountMinor = js_round (of_int unit * qty),
       baseAmountMinor = js_round (of_int (base_price_minor s) * qty), appliedDiscountPct = 0,
       leadTimeDays = sku_lead_time_days s\<rparr>)"

definition has_pricing :: "line_item \<Rightarrow> bool" where
  "has_pricing li \<longleftrightarrow> li_unit_price_minor li \<noteq> None \<or> li_lead_time_days li \<noteq> None \<or>
     PRICING_BLOCKED_FLAG \<in> set (flags_of li)"

definition clear_write :: "line_item \<Rightarrow> uuid \<times> (line_item \<Rightarrow> line_item)" where
  "clear_write li = (li_id li, \<lambda>row. row\<lparr>li_unit_price_minor := None, li_lead_time_days := None,
     li_flags := Some (filter (\<lambda>f. f \<noteq> PRICING_BLOCKED_FLAG) (flags_of li))\<rparr>)"

definition clearLinePricing :: "line_item list \<Rightarrow> db \<Rightarrow> db" where
  "clearLinePricing lis d = update_lines (map clear_write (filter has_pricing lis)) d"

definition persistRecomputed :: "priced_line list \<Rightarrow> uuid set \<Rightarrow> (uuid \<Rightarrow> string list) \<Rightarrow> db \<Rightarrow> db" where
  "persistRecomputed ls blockedLineIds flags d =
     update_lines (map (\<lambda>l. price_write (lineItemId l \<in> blockedLineIds) flags l) ls) d"

text \<open>The deletion of a stale quote, scoped by request and organisation.\<close>

definition drop_stale_quote :: "uuid \<Rightarrow> uuid \<Rightarrow> db \<Rightarrow> db" where
  "drop_stale_quote r orgId d =
     (let existing = filter (\<lambda>q. q_request_id q = r \<and> q_org_id q = orgId) (quotes d) in
      if existing = [] then d
      else d\<lparr>quote_lines := filter (\<lambda>l. ql_quote_id l \<notin> q_id ` set existing) (quote_lines d),
             quotes := filter (\<lambda>q. \<not> (q_request_id q = r \<and> q_org_id q = orgId)) (quotes d)\<rparr>)"

definition auto_priced :: "uuid \<Rightarrow> db \<Rightarrow> line_item list \<Rightarrow> priced_quote" where
  "auto_priced orgId d priceables =
     priceQuote (map (pricing_input d) (filter (\<lambda>li. \<not> isOverridden li) priceables)) (getRuleSetForOrg orgId d)"

definition all_priced_lines :: "uuid \<Rightarrow> db \<Rightarrow> line_item list \<Rightarrow> priced_line list" where
  "all_priced_lines orgId d priceables =
     sort_key position (pq_lines (auto_priced orgId d priceables) @
       map (override_line d) (filter isOverridden priceables))"

definition recompute_input :: "uuid \<Rightarrow> uuid \<Rightarrow> priced_line list \<Rightarrow> replace_quote_input" where
  "recompute_input r orgId ls =
     (let subtotal = (\<Sum>l\<leftarrow>ls. baseAmountMinor l); total = (\<Sum>l\<leftarrow>ls. amountMinor l) in
      \<lparr>rq_requestId = r, rq_orgId = orgId, rq_quoteNumber = ''Q-'' @ r, rq_subtotalMinor = of_int subtotal,
       rq_discountMinor = subtotal - total, rq_totalMinor = of_int total,
       rq_leadTimeDays = max_or_null (known_lead_times ls), rq_currency = STRATOS_CURRENCY,
       rq_lines = map toQuoteLine ls\<rparr>)"

definition recompute :: "uuid \<Rightarrow> uuid \<Rightarrow> uuid \<Rightarrow> db \<Rightarrow> recompute_error + recompute_result \<times> db" where
  "recompute newId r orgId d =
     (let lines = lines_of_request_in_org r orgId d;
          priceables = filter (priceable d) lines;
          nonPriceables = filter (\<lambda>li. li_id li \<notin> li_id ` set priceables) lines
      in if priceables = [] then
           Inr (EMPTY_RECOMPUTE, drop_stale_quote r orgId (clearLinePricing nonPriceables d))
         else if (\<exists>li \<in> set priceables. non_euro d li) then Inl Recompute_Currency
         else
           (let ls = all_priced_lines orgId d priceables;
                auto = auto_priced orgId d priceables;
                subtotal = (\<Sum>l\<leftarrow>ls. baseAmountMinor l);
                total = (\<Sum>l\<leftarrow>ls. amountMinor l);
                blockedLineIds = (if pq_blocked auto then set (map lineItemId (pq_lines auto)) else {});
                d1 = clearLinePricing nonPriceables d;
                d2 = persistRecomputed ls blockedLineIds (flagsById priceables) d1
            in case replaceForRequest newId (recompute_input r orgId ls) d2 of
                 Inl e \<Rightarrow> Inl (Recompute_Store e)
               | Inr d3 \<Rightarrow> Inr (\<lparr>rc_quoteId = Some newId, rc_subtotalMinor = subtotal,
                   rc_discountMinor = subtotal - total, rc_totalMinor = total,
                   rc_leadTimeDays = max_or_null (known_lead_times ls), rc_blocked = pq_blocked auto\<rparr>, d3)))"

section \<open>Facts about the recompute\<close>

lemma known_lead_times_perm: "set (known_lead_times (sort_key f ls)) = set (known_lead_times ls)"
  by (auto simp: known_lead_times_def map_filter_def)

lemma all_priced_lines_sets:
  "set (all_priced_lines orgId d ps) = set (pq_lines (auto_priced orgId d ps)) \<union> override_line d ` {li \<in> set ps. isOverridden li}"
  by (simp add: all_priced_lines_def)

lemma auto_lines_ids:
  "map lineItemId (pq_lines (auto_priced orgId d ps)) = map li_id (filter (\<lambda>li. \<not> isOverridden li) ps)"
  by (simp add: auto_priced_def priceQuote_lines priceLine_def Let_def pricing_input_def comp_def)

lemma override_line_id [simp]: "lineItemId (override_line d li) = li_id li"
  by (simp add: override_line_def Let_def)

lemma all_priced_ids:
  "mset (map lineItemId (all_priced_lines orgId d ps)) = mset (map li_id ps)"
proof -
  have split: "image_mset li_id (mset (filter (\<lambda>li. \<not> P li) ps)) + image_mset li_id (mset (filter P ps)) =
      image_mset li_id (mset ps)" for P
    by (induction ps) auto
  have auto: "image_mset lineItemId (mset (pq_lines (auto_priced orgId d ps))) =
      image_mset li_id (mset (filter (\<lambda>li. \<not> isOverridden li) ps))"
    using arg_cong [OF auto_lines_ids [of orgId d ps], of mset] by simp
  show ?thesis
    using split [of isOverridden] auto
    by (simp add: all_priced_lines_def image_mset.compositionality comp_def)
qed

lemma distinct_all_priced:
  "distinct (map li_id ps) \<Longrightarrow> distinct (map lineItemId (all_priced_lines orgId d ps))"
  using all_priced_ids [of orgId d ps] mset_eq_imp_distinct_iff by blast

lemma recompute_success:
  assumes "recompute newId r orgId d = Inr (res, d')" and "ps \<noteq> []"
    and "ps = filter (priceable d) (lines_of_request_in_org r orgId d)"
    and "ls = all_priced_lines orgId d ps" and "auto = auto_priced orgId d ps"
    and "blocked = (if pq_blocked auto then set (map lineItemId (pq_lines auto)) else {})"
    and "nps = filter (\<lambda>li. li_id li \<notin> li_id ` set ps) (lines_of_request_in_org r orgId d)"
    and "d2 = persistRecomputed ls blocked (flagsById ps) (clearLinePricing nps d)"
  shows "replaceForRequest newId (recompute_input r orgId ls) d2 = Inr d'"
    and "rc_quoteId res = Some newId" and "rc_blocked res = pq_blocked auto"
    and "rc_subtotalMinor res = (\<Sum>l\<leftarrow>ls. baseAmountMinor l)" and "rc_totalMinor res = (\<Sum>l\<leftarrow>ls. amountMinor l)"
    and "rc_discountMinor res = rc_subtotalMinor res - rc_totalMinor res"
    and "\<forall>li \<in> set ps. \<not> non_euro d li"
  using assms(1,2)
  by (auto simp: recompute_def Let_def assms(3) [symmetric] assms(4) [symmetric] assms(5) [symmetric]
      assms(6) [symmetric] assms(7) [symmetric] assms(8) [symmetric] split: if_splits sum.splits)

text \<open>What the two passes write to a row, by the line's group.\<close>

lemma map_of_clear:
  assumes "distinct (map li_id lis)" and "li \<in> set lis"
  shows "map_of (map clear_write (filter has_pricing lis)) (li_id li) =
    (if has_pricing li then Some (snd (clear_write li)) else None)"
proof (cases "has_pricing li")
  case True
  then have "(li_id li, snd (clear_write li)) \<in> set (map clear_write (filter has_pricing lis))"
    using assms(2) by (auto simp: clear_write_def image_iff intro!: bexI [of _ li])
  moreover have "distinct (map fst (map clear_write (filter has_pricing lis)))"
    using assms(1) by (simp add: comp_def clear_write_def distinct_map_filter)
  ultimately show ?thesis using True map_of_is_SomeI by metis
next
  case False
  have "li_id li \<notin> li_id ` {x \<in> set lis. has_pricing x}"
    using assms False by (auto simp: distinct_map inj_on_def)
  then have "map_of (map clear_write (filter has_pricing lis)) (li_id li) = None"
    by (auto simp: map_of_eq_None_iff clear_write_def image_iff)
  with False show ?thesis by simp
qed

lemma map_of_price_writes:
  assumes "distinct (map lineItemId ls)" and "l \<in> set ls"
  shows "map_of (map (\<lambda>l. price_write (b l) fl l) ls) (lineItemId l) = Some (snd (price_write (b l) fl l))"
  by (rule map_of_is_SomeI) (use assms in \<open>auto simp: comp_def image_iff price_write_def intro!: bexI [of _ l]\<close>)

lemma clear_one_pass:
  assumes "distinct (map li_id lis)"
  shows "line_items (clearLinePricing lis d) = map (apply_updates (map clear_write (filter has_pricing lis))) (line_items d)"
  unfolding clearLinePricing_def
  by (rule update_lines_one_pass) (use assms in \<open>auto simp: comp_def clear_write_def distinct_map_filter\<close>)

lemma priceLine_sort: "priceLine l (sort_key f bs) = priceLine l bs"
  using best_discount_cong [of "sort_key f bs" bs] by (simp add: priceLine_def Let_def)

lemma apply_clear_id: "li_id (apply_updates (map clear_write lis) li) = li_id li"
  by (auto simp: apply_updates_def clear_write_def dest!: map_of_SomeD split: option.splits)

lemma apply_price_id: "li_id (apply_updates (map (\<lambda>l. price_write (b l) fl l) ls) li) = li_id li"
  by (auto simp: apply_updates_def price_write_def dest!: map_of_SomeD split: option.splits)

lemma cleared_row:
  assumes "distinct (map li_id lis)" and "li \<in> set lis"
    and "row = apply_updates (map clear_write (filter has_pricing lis)) li"
  shows "li_unit_price_minor row = None \<and> li_lead_time_days row = None \<and> PRICING_BLOCKED_FLAG \<notin> set (flags_of row)"
  unfolding assms(3) apply_updates_def map_of_clear [OF assms(1,2)]
  by (cases "has_pricing li") (auto simp: clear_write_def flags_of_def has_pricing_def)

lemma recomputed_row:
  assumes "distinct (map lineItemId ls)" and "l \<in> set ls" and "lineItemId l = li_id li"
    and "row = apply_updates (map (\<lambda>l. price_write (lineItemId l \<in> blocked) fl l) ls) li"
  shows "li_unit_price_minor row = Some (unitPriceMinor l) \<and>
    flags_of row = price_flags (li_id li \<in> blocked) (fl (li_id li))"
  using map_of_price_writes [OF assms(1,2), of "\<lambda>l. lineItemId l \<in> blocked" fl]
  by (simp add: assms(3,4) apply_updates_def price_write_def flags_of_def)

lemma pricing_blocked_not_manual [simp]: "PRICING_BLOCKED_FLAG \<noteq> MANUAL_OVERRIDE_FLAG" "MANUAL_OVERRIDE_FLAG \<noteq> PRICING_BLOCKED_FLAG"
  by (simp_all add: flag_defs)

lemma recompute_row:
  assumes "recompute newId r orgId d = Inr (res, d')" and "distinct (map li_id (line_items d))"
    and "li \<in> set (lines_of_request_in_org r orgId d)" and "row \<in> set (line_items d')" and "li_id row = li_id li"
    and "ps = filter (priceable d) (lines_of_request_in_org r orgId d)"
    and "nps = filter (\<lambda>li. li_id li \<notin> li_id ` set ps) (lines_of_request_in_org r orgId d)"
  shows "(\<not> priceable d li \<longrightarrow> row = apply_updates (map clear_write (filter has_pricing nps)) li) \<and>
    (priceable d li \<longrightarrow> row = apply_updates (map (\<lambda>l. price_write
      (lineItemId l \<in> (if rc_blocked res then set (map lineItemId (pq_lines (auto_priced orgId d ps))) else {}))
      (flagsById ps) l) (all_priced_lines orgId d ps)) li)"
proof -
  let ?ls = "all_priced_lines orgId d ps" and ?lines = "lines_of_request_in_org r orgId d"
  let ?C = "map clear_write (filter has_pricing nps)"
  have dl: "distinct (map li_id ?lines)" using distinct_lines_in_org [OF assms(2), of "\<lambda>_. True"] by simp
  have dn: "distinct (map li_id nps)" unfolding assms(7) by (rule distinct_lines_in_org [OF assms(2)])
  have dp: "distinct (map lineItemId ?ls)"
    unfolding assms(6) by (rule distinct_all_priced) (rule distinct_lines_in_org [OF assms(2)])
  have mem: "li \<in> set (line_items d)" by (rule lines_in_org_mem [OF assms(3)])
  have np: "\<not> priceable d li \<Longrightarrow> li_id li \<notin> li_id ` set ps"
    using row_unique [OF dl _ assms(3)] assms(6) by force
  show ?thesis
  proof (cases "ps = []")
    case True
    then have d': "line_items d' = line_items (clearLinePricing nps d)"
      using assms(1) by (auto simp: recompute_def Let_def assms(6,7) drop_stale_quote_def)
    from assms(4) obtain x where x: "x \<in> set (line_items d)" "row = apply_updates ?C x"
      unfolding d' clear_one_pass [OF dn] by auto
    then have "x = li" using row_unique [OF assms(2) x(1) mem] assms(5) by (simp add: apply_clear_id)
    with x True assms(3,6) show ?thesis by (auto simp: filter_empty_conv)
  next
    case False
    define blocked where "blocked = (if pq_blocked (auto_priced orgId d ps) then set (map lineItemId (pq_lines (auto_priced orgId d ps))) else {})"
    let ?W = "map (\<lambda>l. price_write (lineItemId l \<in> blocked) (flagsById ps) l) ?ls"
    note ok = recompute_success [OF assms(1) False assms(6) refl refl blocked_def assms(7) refl]
    have "line_items d' = map (apply_updates ?W) (map (apply_updates ?C) (line_items d))"
      using ok(1) by (auto simp: replaceForRequest_Inr persistRecomputed_def price_writes_one_pass [OF dp] clear_one_pass [OF dn])
    with assms(4) obtain x where x: "x \<in> set (line_items d)" "row = apply_updates ?W (apply_updates ?C x)" by auto
    then have "x = li"
      using row_unique [OF assms(2) x(1) mem] assms(5) by (simp add: apply_clear_id apply_price_id)
    moreover have "apply_updates ?C li = li" if "priceable d li"
    proof -
      have "li_id li \<in> li_id ` set ps" using that assms(3,6) by auto
      then have "map_of ?C (li_id li) = None" by (auto simp: map_of_eq_None_iff clear_write_def assms(7))
      then show ?thesis by (simp add: apply_updates_def)
    qed
    moreover have "apply_updates ?W (apply_updates ?C li) = apply_updates ?C li" if "\<not> priceable d li"
    proof -
      have "li_id li \<notin> set (map lineItemId ?ls)"
        using np [OF that] all_priced_ids [of orgId d ps] mset_eq_setD by (metis list.set_map)
      then have "map_of ?W (li_id li) = None" by (auto simp: map_of_eq_None_iff)
      then show ?thesis by (simp add: apply_updates_def [of ?W] apply_clear_id)
    qed
    ultimately show ?thesis using x ok(3) by (simp add: blocked_def)
  qed
qed

section \<open>Properties\<close>

lemma recompute_effect:
  assumes "recompute newId r orgId d = Inr (res, d')" and "distinct (map li_id (line_items d))"
    and "li \<in> set (lines_of_request_in_org r orgId d)" and "row \<in> set (line_items d')" and "li_id row = li_id li"
  shows "(\<not> priceable d li \<longrightarrow> li_unit_price_minor row = None \<and> PRICING_BLOCKED_FLAG \<notin> set (flags_of row)) \<and>
    (priceable d li \<and> isOverridden li \<longrightarrow> li_unit_price_minor row = li_unit_price_minor li \<and>
      MANUAL_OVERRIDE_FLAG \<in> set (flags_of row) \<and> PRICING_BLOCKED_FLAG \<notin> set (flags_of row)) \<and>
    (priceable d li \<and> \<not> isOverridden li \<longrightarrow>
      li_unit_price_minor row =
        Some (unitPriceMinor (priceLine (pricing_input d li) (quantityBreaks (getRuleSetForOrg orgId d)))) \<and>
      (PRICING_BLOCKED_FLAG \<in> set (flags_of row) \<longleftrightarrow> rc_blocked res))"
proof -
  define ps where "ps = filter (priceable d) (lines_of_request_in_org r orgId d)"
  define nps where "nps = filter (\<lambda>li. li_id li \<notin> li_id ` set ps) (lines_of_request_in_org r orgId d)"
  let ?auto = "auto_priced orgId d ps"
  have dps: "distinct (map li_id ps)" unfolding ps_def by (rule distinct_lines_in_org [OF assms(2)])
  note row = recompute_row [OF assms ps_def nps_def]
  note updated = recomputed_row [OF distinct_all_priced [OF dps, of orgId d]]
  consider (none) "\<not> priceable d li" | (over) "priceable d li" "isOverridden li"
    | (auto) "priceable d li" "\<not> isOverridden li" by blast
  then show ?thesis
  proof cases
    case none
    have dn: "distinct (map li_id nps)" unfolding nps_def by (rule distinct_lines_in_org [OF assms(2)])
    have "li \<in> set nps"
    proof -
      have dl: "distinct (map li_id (lines_of_request_in_org r orgId d))"
        using distinct_lines_in_org [OF assms(2), of "\<lambda>_. True"] by simp
      have "x = li" if "x \<in> set ps" "li_id li = li_id x" for x
        using row_unique [OF dl _ assms(3)] that by (simp add: ps_def)
      then have "li_id li \<notin> li_id ` set ps" using none by (auto simp: ps_def)
      then show ?thesis using assms(3) by (simp add: nps_def)
    qed
    from cleared_row [OF dn this row [THEN conjunct1, rule_format, OF none]] none show ?thesis by simp
  next
    case over
    then have li: "li \<in> set ps" using assms(3) by (simp add: ps_def)
    then have l: "override_line d li \<in> set (all_priced_lines orgId d ps)" using over(2) by (auto simp: all_priced_lines_sets)
    have "li_id li \<notin> set (map lineItemId (pq_lines ?auto))"
      unfolding auto_lines_ids using over(2) li dps by (auto simp: distinct_map inj_on_def)
    then have "li_unit_price_minor row = Some (unitPriceMinor (override_line d li))"
      "flags_of row = price_flags False (flagsById ps (li_id li))"
      using updated [OF l override_line_id row [THEN conjunct2, rule_format, OF over(1)]] by (auto split: if_splits)
    moreover have "Some (unitPriceMinor (override_line d li)) = li_unit_price_minor li"
      "MANUAL_OVERRIDE_FLAG \<in> set (flags_of li)"
      using over(2) by (auto simp: override_line_def Let_def isOverridden_def flags_of_def split: option.splits)
    ultimately show ?thesis
      using over flagsById_mem [OF dps li] by (simp add: price_flags_def)
  next
    case auto
    then have li: "li \<in> set ps" using assms(3) by (simp add: ps_def)
    let ?l = "priceLine (pricing_input d li) (quantityBreaks (getRuleSetForOrg orgId d))"
    have l: "?l \<in> set (pq_lines ?auto)"
      using auto li by (auto simp: auto_priced_def priceQuote_lines priceLine_sort)
    have id: "lineItemId ?l = li_id li" by (simp add: priceLine_def Let_def pricing_input_def)
    have ids: "li_id li \<in> set (map lineItemId (pq_lines ?auto))" using l id by force
    have "?l \<in> set (all_priced_lines orgId d ps)" using l by (simp add: all_priced_lines_sets)
    from updated [OF this id row [THEN conjunct2, rule_format, OF auto(1)]] ids auto show ?thesis
      by (auto simp: price_flags_def)
  qed
qed

text \<open>
  A recompute leaves every line of the request in the state of its group: a line that cannot be priced
  carries no price and no blocked flag; a line the estimator overrode keeps its price and its override mark
  and is never flagged as blocked; any other line gets the price of its best quantity break, and is
  flagged as blocked exactly when the recompute reports that the organisation has no pricing rules.
\<close>

theorem recompute_lines:
  assumes "recompute newId r orgId d = Inr (res, d')" and "distinct (map li_id (line_items d))"
    and "li \<in> set (lines_of_request_in_org r orgId d)" and "row \<in> set (line_items d')" and "li_id row = li_id li"
  shows "(\<not> priceable d li \<longrightarrow> li_unit_price_minor row = None \<and> PRICING_BLOCKED_FLAG \<notin> set (flags_of row)) \<and>
    (priceable d li \<and> isOverridden li \<longrightarrow> li_unit_price_minor row = li_unit_price_minor li \<and>
      MANUAL_OVERRIDE_FLAG \<in> set (flags_of row) \<and> PRICING_BLOCKED_FLAG \<notin> set (flags_of row)) \<and>
    (priceable d li \<and> \<not> isOverridden li \<longrightarrow>
      li_unit_price_minor row =
        Some (unitPriceMinor (priceLine (pricing_input d li) (quantityBreaks (getRuleSetForOrg orgId d)))) \<and>
      (PRICING_BLOCKED_FLAG \<in> set (flags_of row) \<longleftrightarrow> rc_blocked res))"
  using assms by (rule recompute_effect)

text \<open>
  The totals a recompute reports are the ones it stores: the request has exactly one quote afterwards,
  a draft whose subtotal, discount and total are the reported ones, the total is the sum of the line
  amounts, and the discount is the difference.
\<close>

theorem recompute_totals:
  assumes "recompute newId r orgId d = Inr (res, d')" and "rc_quoteId res = Some qid"
    and "newId \<notin> ql_quote_id ` set (quote_lines d)"
  shows "qid = newId \<and>
    (\<exists>q. quotes_of_request r d' = [q] \<and> q_id q = newId \<and> q_status q = Q_Draft \<and>
      total_minor q = rc_totalMinor res \<and> subtotal_minor q = rc_subtotalMinor res \<and>
      discount_minor q = rc_discountMinor res) \<and>
    rc_totalMinor res = (\<Sum>l\<leftarrow>filter (\<lambda>l. ql_quote_id l = newId) (quote_lines d'). ql_amount_minor l) \<and>
    rc_subtotalMinor res - rc_discountMinor res = rc_totalMinor res"
proof -
  let ?ps = "filter (priceable d) (lines_of_request_in_org r orgId d)"
  have ps: "?ps \<noteq> []" using assms(1,2) by (auto simp: recompute_def Let_def EMPTY_RECOMPUTE_def)
  define ls where "ls = all_priced_lines orgId d ?ps"
  note ok = recompute_success [OF assms(1) ps refl ls_def refl refl refl refl]
  note rep = replaceForRequest_effect [OF ok(1)]
  have fresh: "newId \<notin> ql_quote_id ` set (quote_lines (persistRecomputed ls b fl (clearLinePricing nps d)))" for b fl nps
    using assms(3) by (simp add: persistRecomputed_def clearLinePricing_def)
  have inp: "rq_requestId (recompute_input r orgId ls) = r"
    "rq_totalMinor (recompute_input r orgId ls) = of_int (rc_totalMinor res)"
    "rq_subtotalMinor (recompute_input r orgId ls) = of_int (rc_subtotalMinor res)"
    "rq_discountMinor (recompute_input r orgId ls) = rc_discountMinor res"
    "map in_amountMinor (rq_lines (recompute_input r orgId ls)) = map (\<lambda>l. of_int (amountMinor l)) ls"
    using ok(4-6) by (simp_all add: recompute_input_def Let_def toQuoteLine_def comp_def)
  from rep [OF fresh, unfolded inp(1)]
  have "map (\<lambda>l. (ql_position l, of_int (ql_amount_minor l) :: rat)) (filter (\<lambda>l. ql_quote_id l = newId) (quote_lines d')) =
      map (\<lambda>l. (in_position l, in_amountMinor l)) (rq_lines (recompute_input r orgId ls))" by blast
  then have "map snd (map (\<lambda>l. (ql_position l, of_int (ql_amount_minor l) :: rat)) (filter (\<lambda>l. ql_quote_id l = newId) (quote_lines d'))) =
      map snd (map (\<lambda>l. (in_position l, in_amountMinor l)) (rq_lines (recompute_input r orgId ls)))" by simp
  then have "map of_int (map ql_amount_minor (filter (\<lambda>l. ql_quote_id l = newId) (quote_lines d'))) =
      (map of_int (map amountMinor ls) :: rat list)"
    using inp(5) by (simp add: comp_def)
  then have "map ql_amount_minor (filter (\<lambda>l. ql_quote_id l = newId) (quote_lines d')) = map amountMinor ls"
    by (rule inj_map_eq_map [THEN iffD1, rotated]) (simp add: inj_def)
  then have "rc_totalMinor res = (\<Sum>l\<leftarrow>filter (\<lambda>l. ql_quote_id l = newId) (quote_lines d'). ql_amount_minor l)"
    using ok(5) by simp
  then show ?thesis
    using rep [OF fresh, unfolded inp] ok(2,6) assms(2) by (simp only: of_int_eq_iff) auto
qed

section \<open>A worked recompute\<close>

text \<open>The second line of the sample request carries the estimator's price of 50 cents.\<close>

definition override_db :: db where
  "override_db = (catalog_db ''EUR'')\<lparr>requests := [demo_request ''org'' Done St_Needs_Review],
     line_items := [demo_line ''l1'' 1 (Some ''s1'') (Some 15),
       (demo_line ''l2'' 2 (Some ''s2'') (Some 2))\<lparr>li_unit_price_minor := Some 50, li_flags := Some [MANUAL_OVERRIDE_FLAG]\<rparr>,
       demo_line ''l3'' 3 None (Some 1)]\<rparr>"

lemma override_db_result:
  "\<exists>d'. recompute ''q9'' ''r1'' ''org'' override_db =
     Inr (\<lparr>rc_quoteId = Some ''q9'', rc_subtotalMinor = 3383, rc_discountMinor = 447, rc_totalMinor = 2936,
        rc_leadTimeDays = Some 5, rc_blocked = False\<rparr>, d') \<and>
     map li_id (line_items d') = [''l1'', ''l2'', ''l3'']"
proof -
  let ?r = "recompute ''q9'' ''r1'' ''org'' override_db"
  have "(case ?r of Inr (res, d') \<Rightarrow> (res, map li_id (line_items d')) | Inl _ \<Rightarrow> (EMPTY_RECOMPUTE, [])) =
      (\<lparr>rc_quoteId = Some ''q9'', rc_subtotalMinor = 3383, rc_discountMinor = 447, rc_totalMinor = 2936,
        rc_leadTimeDays = Some 5, rc_blocked = False\<rparr>, [''l1'', ''l2'', ''l3''])"
    by code_simp
  then show ?thesis by (cases ?r) (auto simp: EMPTY_RECOMPUTE_def)
qed

theorem recompute_lines_witness:
  "\<exists>res d' row. recompute ''q9'' ''r1'' ''org'' override_db = Inr (res, d') \<and> row \<in> set (line_items d') \<and>
     li_id row = ''l2'' \<and> li_unit_price_minor row = Some 50"
proof -
  let ?li = "(demo_line ''l2'' 2 (Some ''s2'') (Some 2))\<lparr>li_unit_price_minor := Some 50, li_flags := Some [MANUAL_OVERRIDE_FLAG]\<rparr>"
  obtain res d' where run: "recompute ''q9'' ''r1'' ''org'' override_db = Inr (res, d')"
    and ids: "map li_id (line_items d') = [''l1'', ''l2'', ''l3'']"
    using override_db_result by metis
  from ids have "''l2'' \<in> set (map li_id (line_items d'))" by simp
  then obtain row where row: "row \<in> set (line_items d')" "li_id row = ''l2''" by auto
  have li: "?li \<in> set (lines_of_request_in_org ''r1'' ''org'' override_db)"
    by (simp add: lines_of_request_in_org_def request_in_org_def lines_of_request_def override_db_def
        demo_request_def demo_line_def)
  have "distinct (map li_id (line_items override_db))" by (simp add: override_db_def demo_line_def)
  from recompute_lines [OF run this li row(1)] row
  have "li_unit_price_minor row = Some 50 \<or> \<not> (priceable override_db ?li \<and> isOverridden ?li)"
    by (auto simp: demo_line_def)
  moreover have "priceable override_db ?li \<and> isOverridden ?li" by code_simp
  ultimately show ?thesis using run row by blast
qed

theorem recompute_totals_witness:
  "\<exists>res d'. recompute ''q9'' ''r1'' ''org'' override_db = Inr (res, d') \<and>
     map total_minor (quotes_of_request ''r1'' d') = [2936]"
proof -
  obtain res d' where run: "recompute ''q9'' ''r1'' ''org'' override_db = Inr (res, d')"
    and res: "rc_quoteId res = Some ''q9''" "rc_totalMinor res = 2936"
    using override_db_result by auto
  have "''q9'' \<notin> ql_quote_id ` set (quote_lines override_db)"
    by (simp add: override_db_def catalog_db_def demo_db_def empty_db_def)
  from recompute_totals [OF run res(1) this] res(2) run show ?thesis by auto
qed

end
