(* ===== verification/Quote_Approval.thy ===== *)
theory Quote_Approval
  imports Quote_Store Request_Store
begin

text \<open>
  Approving a quote (\<open>quotes/actions/quote-approval.actions.ts\<close>): the handler, run on its own, and the
  protocol that any number of concurrent approvers of one quote follow, as a step relation over the
  database operations the handler calls. What the two tools return and whether an event can be written
  are arguments; the payload returned to the client is the quote with its lines.
\<close>

section \<open>The handler\<close>

definition QUOTE_APPROVABLE_STATUSES :: "request_status list" where
  "QUOTE_APPROVABLE_STATUSES = [St_Priced, St_Needs_Review]"

datatype approve_error =
    Request_Not_Approvable | Quote_Not_Priced | Quote_Invalid_Transition | Quote_Not_Found
  | Pdf_Generation_Failed | Emit_Failed

text \<open>
  \<open>render\<close> is the storage address \<open>render_quote_pdf\<close> returned, \<open>None\<close> when it threw or did not
  answer OK; \<open>draft_email\<close> the subject and body of \<open>draft_quote_email\<close>, whose failure is only logged.
\<close>

record approve_env =
  emit_approved_ok :: bool
  render :: "string option"
  emit_ready_ok :: bool
  draft_email :: "(string \<times> string) option"
  ready_at :: millis

definition tryDraftEmail :: "approve_env \<Rightarrow> uuid \<Rightarrow> db \<Rightarrow> db" where
  "tryDraftEmail env quoteId d =
     (case draft_email env of Some (subject, body) \<Rightarrow> snd (saveEmailDraft quoteId subject body d) | None \<Rightarrow> d)"

definition final_payload :: "uuid \<Rightarrow> db \<Rightarrow> approve_error + quote \<times> quote_line_item list" where
  "final_payload quoteId d = (case getByIdWithLines quoteId d of Some p \<Rightarrow> Inr p | None \<Rightarrow> Inl Quote_Not_Found)"

text \<open>From the moment the caller holds the claim.\<close>

definition generate ::
  "approve_env \<Rightarrow> quote \<Rightarrow> uuid \<Rightarrow> uuid option \<Rightarrow> uuid option \<Rightarrow> db \<Rightarrow>
   (approve_error + quote \<times> quote_line_item list) \<times> db" where
  "generate env q requestId orgId userId d =
     (if \<not> emit_approved_ok env then (Inl Emit_Failed, revertToDraft (q_id q) d)
      else
        (let d = emit orgId (Some requestId) (Some (q_id q)) userId Ev_Quote_Approved d in
         case render env of
           None \<Rightarrow> (Inl Pdf_Generation_Failed, revertToDraft (q_id q) d)
         | Some url \<Rightarrow>
             (let (transitioned, d) = markReady (q_id q) url (ready_at env) d in
              if \<not> transitioned then (final_payload (q_id q) d, d)
              else if \<not> emit_ready_ok env then (Inl Emit_Failed, d)
              else
                (let d = emit orgId (Some requestId) (Some (q_id q)) None Ev_Quote_Ready d;
                     d = (if email_draft_subject q = None \<or> email_draft_subject q = Some []
                          then tryDraftEmail env (q_id q) d else d)
                 in (final_payload (q_id q) d, d)))))"

definition approveAndGenerate ::
  "approve_env \<Rightarrow> request \<Rightarrow> uuid option \<Rightarrow> uuid option \<Rightarrow> db \<Rightarrow>
   (approve_error + quote \<times> quote_line_item list) \<times> db" where
  "approveAndGenerate env request orgId userId d =
     (if status request \<notin> set QUOTE_APPROVABLE_STATUSES then (Inl Request_Not_Approvable, d)
      else
        (case getForRequest (r_id request) d of
           None \<Rightarrow> (Inl Quote_Not_Priced, d)
         | Some (q, ls) \<Rightarrow>
             if q_status q = Q_Ready then (Inr (q, ls), d)
             else if q_status q = Q_Approved then (Inr (q, ls), d)
             else if q_status q \<noteq> Q_Draft then (Inl Quote_Invalid_Transition, d)
             else
               (let (claimed, d) = tryClaimForApproval (q_id q) userId d in
                if \<not> claimed then
                  (case getByIdWithLines (q_id q) d of
                     None \<Rightarrow> (Inl Quote_Not_Found, d)
                   | Some (cur, cls) \<Rightarrow>
                       if q_status cur = Q_Ready \<or> q_status cur = Q_Approved then (Inr (cur, cls), d)
                       else (Inl Quote_Invalid_Transition, d))
                else generate env q (r_id request) orgId userId d)))"

section \<open>Concurrent approvers\<close>

text \<open>
  An approver is before its claim, holds it (before the tool answers), has the rendered document, or is
  through. Each step is one database statement of the handler; between two steps of one approver any
  other may take its own.
\<close>

datatype approver = Arriving | Holding | Rendered string | Through

type_synonym approval_state = "db \<times> (nat \<Rightarrow> approver)"

inductive approval_step :: "uuid \<Rightarrow> approval_state \<Rightarrow> approval_state \<Rightarrow> bool" for quoteId where
  claim: "ps i = Arriving \<Longrightarrow> tryClaimForApproval quoteId u d = (won, d') \<Longrightarrow>
    approval_step quoteId (d, ps) (d', ps(i := if won then Holding else Through))"
| render_ok: "ps i = Holding \<Longrightarrow> approval_step quoteId (d, ps) (d, ps(i := Rendered url))"
| render_failed: "ps i = Holding \<Longrightarrow> approval_step quoteId (d, ps) (revertToDraft quoteId d, ps(i := Through))"
| mark: "ps i = Rendered url \<Longrightarrow> markReady quoteId url t d = (won, d') \<Longrightarrow>
    approval_step quoteId (d, ps) (d', ps(i := Through))"

inductive approval_reachable :: "uuid \<Rightarrow> db \<Rightarrow> approval_state \<Rightarrow> bool" for quoteId d0 where
  start: "approval_reachable quoteId d0 (d0, \<lambda>_. Arriving)"
| step: "approval_reachable quoteId d0 s \<Longrightarrow> approval_step quoteId s s' \<Longrightarrow> approval_reachable quoteId d0 s'"

inductive_cases approval_stepE: "approval_step quoteId (d, ps) s'"

definition holds_claim :: "approver \<Rightarrow> bool" where
  "holds_claim a \<longleftrightarrow> a = Holding \<or> (\<exists>url. a = Rendered url)"

lemma holds_claim_simps [simp]:
  "holds_claim Holding" "holds_claim (Rendered url)" "\<not> holds_claim Arriving" "\<not> holds_claim Through"
  by (simp_all add: holds_claim_def)

text \<open>
  The invariant: the quote is one row, at most one approver holds the claim, and the row is approved
  while somebody does.
\<close>

definition approval_inv :: "uuid \<Rightarrow> approval_state \<Rightarrow> bool" where
  "approval_inv quoteId s \<longleftrightarrow> distinct (map q_id (quotes (fst s))) \<and>
     (\<forall>i j. holds_claim (snd s i) \<longrightarrow> holds_claim (snd s j) \<longrightarrow> i = j) \<and>
     (\<forall>i. holds_claim (snd s i) \<longrightarrow> (\<exists>q \<in> set (quotes (fst s)). q_id q = quoteId \<and> q_status q = Q_Approved))"

lemma quote_row_unique:
  "distinct (map q_id rows) \<Longrightarrow> a \<in> set rows \<Longrightarrow> b \<in> set rows \<Longrightarrow> q_id a = q_id b \<Longrightarrow> a = b"
  by (auto simp: distinct_map inj_on_def)

lemma find_quote_row: "distinct (map q_id rows) \<Longrightarrow> q \<in> set rows \<Longrightarrow> find (\<lambda>x. q_id x = q_id q) rows = Some q"
  by (induction rows) auto

lemma tryClaim_won:
  "tryClaimForApproval quoteId u d = (won, d') \<Longrightarrow> won \<longleftrightarrow> (\<exists>q \<in> set (quotes d). q_id q = quoteId \<and> q_status q = Q_Draft)"
  by (auto simp: tryClaimForApproval_def Let_def affected_pos)

lemma tryClaim_quotes:
  "tryClaimForApproval quoteId u d = (won, d') \<Longrightarrow> map q_id (quotes d') = map q_id (quotes d) \<and>
    (won \<longrightarrow> (\<exists>q \<in> set (quotes d'). q_id q = quoteId \<and> q_status q = Q_Approved)) \<and> (\<not> won \<longrightarrow> d' = d)"
proof -
  assume claim: "tryClaimForApproval quoteId u d = (won, d')"
  let ?P = "\<lambda>q. q_id q = quoteId \<and> q_status q = Q_Draft"
  have d': "quotes d' = update_where ?P (\<lambda>q. q\<lparr>q_status := Q_Approved, approved_by := u\<rparr>) (quotes d)"
    using claim by (auto simp: tryClaimForApproval_def Let_def)
  have "\<exists>q \<in> set (quotes d'). q_id q = quoteId \<and> q_status q = Q_Approved" if won
  proof -
    from that tryClaim_won [OF claim] obtain q where q: "q \<in> set (quotes d)" "?P q" by blast
    then have "q\<lparr>q_status := Q_Approved, approved_by := u\<rparr> \<in> set (quotes d')"
      unfolding d' set_update_where by (intro image_eqI [of _ _ q]) auto
    with q(2) show ?thesis by (intro bexI) auto
  qed
  moreover have "d' = d" if "\<not> won"
    using approval.refuses [of quoteId d u] approval.reports [of quoteId u d] claim that by simp
  ultimately show ?thesis by (simp add: d' map_update_where)
qed

lemma markReady_won:
  "markReady quoteId url t d = (won, d') \<Longrightarrow> won \<longleftrightarrow> (\<exists>q \<in> set (quotes d). q_id q = quoteId \<and> q_status q = Q_Approved)"
  by (auto simp: markReady_def Let_def affected_pos)

lemma approval_step_inv:
  assumes "approval_step quoteId s s'" and "approval_inv quoteId s"
  shows "approval_inv quoteId s'"
  using assms
proof (induction rule: approval_step.induct)
  case (claim ps i u d won d')
  note q = tryClaim_quotes [OF claim(2)]
  show ?case
  proof (cases won)
    case True
    then obtain q where q0: "q \<in> set (quotes d)" "q_id q = quoteId" "q_status q = Q_Draft"
      using tryClaim_won [OF claim(2)] by blast
    have none: "\<not> holds_claim (ps j)" for j
    proof
      assume "holds_claim (ps j)"
      then obtain q' where "q' \<in> set (quotes d)" "q_id q' = quoteId" "q_status q' = Q_Approved"
        using claim(3) unfolding approval_inv_def by fastforce
      with q0 quote_row_unique [of "quotes d" q q'] claim(3) show False by (simp add: approval_inv_def)
    qed
    show ?thesis
      using q True none claim(3) by (simp add: approval_inv_def)
  next
    case False
    have "holds_claim (ps j)" if "holds_claim ((ps(i := Through)) j)" for j
      using that by (simp split: if_splits)
    then have "approval_inv quoteId (d, ps(i := Through))"
      using claim(3) unfolding approval_inv_def fst_conv snd_conv by blast
    then show ?thesis using q False by simp
  qed
next
  case (render_ok ps i d url)
  then have "holds_claim ((ps(i := Rendered url)) j) = holds_claim (ps j)" for j by simp
  then show ?case using render_ok(2) unfolding approval_inv_def fst_conv snd_conv by blast
next
  case (render_failed ps i d)
  have "\<not> holds_claim ((ps(i := Through)) j)" for j
    using render_failed by (auto simp: approval_inv_def)
  moreover have "map q_id (quotes (revertToDraft quoteId d)) = map q_id (quotes d)"
    by (simp add: revertToDraft_def map_update_where)
  ultimately show ?case using render_failed(2) by (simp add: approval_inv_def)
next
  case (mark ps i url t d won d')
  have "\<not> holds_claim ((ps(i := Through)) j)" for j
    using mark(1,3) by (auto simp: approval_inv_def)
  moreover have "map q_id (quotes d') = map q_id (quotes d)"
    using mark(2) by (auto simp: markReady_def Let_def map_update_where)
  ultimately show ?case using mark(3) by (simp add: approval_inv_def)
qed

lemma approval_reachable_inv:
  "approval_reachable quoteId d0 s \<Longrightarrow> distinct (map q_id (quotes d0)) \<Longrightarrow> approval_inv quoteId s"
  by (induction rule: approval_reachable.induct) (auto simp: approval_inv_def [of _ "(d0, \<lambda>_. Arriving)"] intro: approval_step_inv)


text \<open>A run with two approvers: the first fails to render, the second succeeds.\<close>

lemma approval_demo:
  "approval_reachable ''q1'' (demo_db Q_Draft)
    (snd (tryClaimForApproval ''q1'' None (revertToDraft ''q1'' (snd (tryClaimForApproval ''q1'' None (demo_db Q_Draft))))),
     ((\<lambda>_. Arriving)(0 := Through, 1 := Rendered ''s3'')))"
proof -
  let ?d0 = "demo_db Q_Draft"
  let ?d1 = "snd (tryClaimForApproval ''q1'' None ?d0)"
  let ?d2 = "revertToDraft ''q1'' ?d1"
  let ?d3 = "snd (tryClaimForApproval ''q1'' None ?d2)"
  have won: "tryClaimForApproval ''q1'' None ?d0 = (True, ?d1)" "tryClaimForApproval ''q1'' None ?d2 = (True, ?d3)"
    by (simp_all add: prod_eq_iff) code_simp+
  have "approval_reachable ''q1'' ?d0 (?d1, (\<lambda>_. Arriving)(0 := Holding))"
    using approval_reachable.step [OF approval_reachable.start approval_step.claim [OF _ won(1), of "\<lambda>_. Arriving" 0]] by simp
  then have "approval_reachable ''q1'' ?d0 (?d2, (\<lambda>_. Arriving)(0 := Through))"
    using approval_reachable.step [OF _ approval_step.render_failed [of "(\<lambda>_. Arriving)(0 := Holding)" 0]] by fastforce
  then have "approval_reachable ''q1'' ?d0 (?d3, (\<lambda>_. Arriving)(0 := Through, 1 := Holding))"
    using approval_reachable.step [OF _ approval_step.claim [OF _ won(2), of "(\<lambda>_. Arriving)(0 := Through)" 1]] by simp
  then show ?thesis
    using approval_reachable.step [OF _ approval_step.render_ok [of "(\<lambda>_. Arriving)(0 := Through, 1 := Holding)" 1]] by fastforce
qed


text \<open>
  The handler leaves no claim behind when generation fails: if the draft quote of an approvable request
  cannot be rendered or its approval event cannot be written, the caller gets an error and the quote is a
  draft without an approver again, so a retry can approve it; and an approval that has already been
  claimed or finished is answered from the stored quote without rendering anything.
\<close>

theorem approve_failure_reverts:
  assumes "status req \<in> set QUOTE_APPROVABLE_STATUSES" and "getForRequest (r_id req) d = Some (q, ls)"
    and "distinct (map q_id (quotes d))"
  shows "(q_status q = Q_Draft \<and> (render env = None \<or> \<not> emit_approved_ok env) \<longrightarrow>
      (\<exists>e. fst (approveAndGenerate env req orgId u d) = Inl e) \<and>
      find (\<lambda>x. q_id x = q_id q) (quotes (snd (approveAndGenerate env req orgId u d))) = Some (q\<lparr>approved_by := None\<rparr>)) \<and>
    (q_status q \<in> {Q_Approved, Q_Ready} \<longrightarrow> approveAndGenerate env req orgId u d = (Inr (q, ls), d))"
proof -
  have q: "q \<in> set (quotes d)" using assms(2) by (auto simp: getForRequest_def dest: find_Some_set)
  have found: "find (\<lambda>x. q_id x = q_id q) (quotes d) = Some q"
    by (rule find_quote_row [OF assms(3) q])
  have reverted: "find (\<lambda>x. q_id x = q_id q) (quotes (revertToDraft (q_id q) (snd (tryClaimForApproval (q_id q) u d)))) =
      Some (q\<lparr>approved_by := None\<rparr>)" if "q_status q = Q_Draft"
    using found that by (simp add: revertToDraft_def tryClaimForApproval_def Let_def find_update_where)
  have "fst (approveAndGenerate env req orgId u d) = Inl Emit_Failed \<or> fst (approveAndGenerate env req orgId u d) = Inl Pdf_Generation_Failed"
    and "find (\<lambda>x. q_id x = q_id q) (quotes (snd (approveAndGenerate env req orgId u d))) = Some (q\<lparr>approved_by := None\<rparr>)"
    if "q_status q = Q_Draft" "render env = None \<or> \<not> emit_approved_ok env"
  proof -
    obtain won d1 where c0: "tryClaimForApproval (q_id q) u d = (won, d1)"
      by (cases "tryClaimForApproval (q_id q) u d") auto
    have won using tryClaim_won [OF c0] q that(1) by blast
    with c0 have c: "tryClaimForApproval (q_id q) u d = (True, d1)" by simp
    have eq: "approveAndGenerate env req orgId u d = generate env q (r_id req) orgId u d1"
      using assms(1,2) that(1) c by (simp add: approveAndGenerate_def)
    show "fst (approveAndGenerate env req orgId u d) = Inl Emit_Failed \<or> fst (approveAndGenerate env req orgId u d) = Inl Pdf_Generation_Failed"
      unfolding eq using that(2) by (auto simp: generate_def Let_def)
    have "quotes (snd (generate env q (r_id req) orgId u d1)) = quotes (revertToDraft (q_id q) d1)"
      using that(2) by (auto simp: generate_def Let_def revertToDraft_def)
    then show "find (\<lambda>x. q_id x = q_id q) (quotes (snd (approveAndGenerate env req orgId u d))) = Some (q\<lparr>approved_by := None\<rparr>)"
      unfolding eq using reverted [OF that(1)] c by simp
  qed
  then show ?thesis using assms(1,2) by (auto simp: approveAndGenerate_def)
qed

theorem approve_failure_reverts_witness:
  "\<exists>e. fst (approveAndGenerate \<lparr>emit_approved_ok = True, render = None, emit_ready_ok = True, draft_email = None,
      ready_at = 0\<rparr> (demo_request ''org'' Done St_Priced) None None (demo_db Q_Draft)) = Inl e"
proof -
  have "status (demo_request ''org'' Done St_Priced) \<in> set QUOTE_APPROVABLE_STATUSES"
    by (simp add: demo_request_def QUOTE_APPROVABLE_STATUSES_def)
  moreover have "getForRequest (r_id (demo_request ''org'' Done St_Priced)) (demo_db Q_Draft) = Some (demo_quote ''q1'' ''r1'' Q_Draft, [])"
    by (simp add: getForRequest_def demo_request_def demo_db_def demo_quote_def lines_of_quote_def empty_db_def)
  moreover have "distinct (map q_id (quotes (demo_db Q_Draft)))" by (simp add: demo_db_def demo_quote_def)
  ultimately show ?thesis
    using approve_failure_reverts [of "demo_request ''org'' Done St_Priced" "demo_db Q_Draft" "demo_quote ''q1'' ''r1'' Q_Draft" "[]"
      "\<lparr>emit_approved_ok = True, render = None, emit_ready_ok = True, draft_email = None, ready_at = 0\<rparr>" None None]
    by (simp add: demo_quote_def)
qed

end
