(* ===== verification/Policy.thy ===== *)
theory Policy
  imports Line_Updates
begin

text \<open>
  The policy gate: the thresholds of an organisation (\<open>policy/policy-rule.model-action.ts\<close>), the pure
  evaluation of priced lines against them (\<open>policy/quote-policy.service.ts\<close>) and the policy node, which
  reconciles the flags of every line of the request (\<open>policy/policy.node.ts\<close>).
\<close>

section \<open>Thresholds\<close>

record policy_rule_set =
  marginFloorPct :: "rat option"
  maxDiscountPct :: "rat option"
  anyPolicyRules :: bool

definition MarginFloorConfigSchema :: "rat schema" where
  "MarginFloorConfigSchema v = do { ob \<leftarrow> z_object v; z_percentage (field ''min_margin_pct'' ob) }"

definition MaxDiscountConfigSchema :: "rat schema" where
  "MaxDiscountConfigSchema v = do { ob \<leftarrow> z_object v; z_percentage (field ''max_discount_pct'' ob) }"

text \<open>The configurations of the rows of one type that the schema accepts.\<close>

fun accepted :: "pricing_rule_type \<Rightarrow> rat schema \<Rightarrow> pricing_rule list \<Rightarrow> rat list" where
  "accepted t s [] = []"
| "accepted t s (r # rs) =
     (if rule_type r = t then (case s (Some (config r)) of Some x \<Rightarrow> x # accepted t s rs | None \<Rightarrow> accepted t s rs)
      else accepted t s rs)"

text \<open>\<open>maxDiscounts.length > 0 ? Math.min(...maxDiscounts) : null\<close>\<close>

definition min_or_null :: "rat list \<Rightarrow> rat option" where
  "min_or_null xs = (case xs of [] \<Rightarrow> None | y # ys \<Rightarrow> Some (fold min ys y))"

definition policyRuleSet :: "uuid \<Rightarrow> db \<Rightarrow> policy_rule_set" where
  "policyRuleSet orgId d =
     (let rows = filter (\<lambda>r. pr_org_id r = orgId \<and> pr_active r) (pricing_rules d);
          floorPct = max_or_null (accepted Margin_Floor MarginFloorConfigSchema rows);
          capPct = min_or_null (accepted Max_Discount MaxDiscountConfigSchema rows)
      in \<lparr>marginFloorPct = floorPct, maxDiscountPct = capPct, anyPolicyRules = floorPct \<noteq> None \<or> capPct \<noteq> None\<rparr>)"

section \<open>Evaluation\<close>

record policy_line_input =
  pl_lineItemId :: uuid
  pl_basePriceMinor :: int
  pl_unitPriceMinor :: int
  pl_costMinor :: "int option"

datatype policy_breach_type = Breach_Margin_Floor | Breach_Max_Discount

record policy_breach =
  pb_lineItemId :: uuid
  pb_type :: policy_breach_type
  observedPct :: rat
  limitPct :: rat

record policy_evaluation =
  breached :: bool
  failClosed :: bool
  breaches :: "policy_breach list"
  flaggedLineItemIds :: "uuid list"

definition pct1 :: "rat \<Rightarrow> rat" where
  "pct1 v = of_int (js_round (v * 10)) / 10"

definition discount_breach :: "policy_rule_set \<Rightarrow> policy_line_input \<Rightarrow> policy_breach list" where
  "discount_breach rules l =
     (case maxDiscountPct rules of
        Some cap \<Rightarrow>
          if 0 < pl_basePriceMinor l then
            (let pct = of_int (pl_basePriceMinor l - pl_unitPriceMinor l) / of_int (pl_basePriceMinor l) * 100 in
             if cap < pct then [\<lparr>pb_lineItemId = pl_lineItemId l, pb_type = Breach_Max_Discount,
               observedPct = pct1 pct, limitPct = cap\<rparr>] else [])
          else []
      | None \<Rightarrow> [])"

definition margin_breach :: "policy_rule_set \<Rightarrow> policy_line_input \<Rightarrow> policy_breach list" where
  "margin_breach rules l =
     (case (marginFloorPct rules, pl_costMinor l) of
        (Some fl, Some cost) \<Rightarrow>
          if 0 < pl_unitPriceMinor l then
            (let pct = of_int (pl_unitPriceMinor l - cost) / of_int (pl_unitPriceMinor l) * 100 in
             if pct < fl then [\<lparr>pb_lineItemId = pl_lineItemId l, pb_type = Breach_Margin_Floor,
               observedPct = pct1 pct, limitPct = fl\<rparr>] else [])
          else if 0 < cost then [\<lparr>pb_lineItemId = pl_lineItemId l, pb_type = Breach_Margin_Floor,
               observedPct = pct1 (- 100), limitPct = fl\<rparr>] else []
      | _ \<Rightarrow> [])"

definition evaluatePolicy :: "policy_line_input list \<Rightarrow> policy_rule_set \<Rightarrow> policy_evaluation" where
  "evaluatePolicy ls rules =
     (if \<not> anyPolicyRules rules then
        \<lparr>breached = 0 < length ls, failClosed = True, breaches = [], flaggedLineItemIds = map pl_lineItemId ls\<rparr>
      else
        (let bs = concat (map (\<lambda>l. discount_breach rules l @ margin_breach rules l) ls) in
         \<lparr>breached = 0 < length bs, failClosed = False, breaches = bs,
          flaggedLineItemIds = uniq (map pb_lineItemId bs)\<rparr>))"

definition EMPTY_RESULT :: policy_evaluation where
  "EMPTY_RESULT = \<lparr>breached = False, failClosed = False, breaches = [], flaggedLineItemIds = []\<rparr>"

section \<open>Reconciling the flags\<close>

definition POLICY_MANAGED_FLAGS :: "string list" where
  "POLICY_MANAGED_FLAGS = [MARGIN_FLOOR_BREACH_FLAG, MAX_DISCOUNT_BREACH_FLAG, POLICY_BLOCKED_FLAG]"

definition sameFlags :: "string list \<Rightarrow> string list \<Rightarrow> bool" where
  "sameFlags before after \<longleftrightarrow> length before = length after \<and> (\<forall>f \<in> set after. f \<in> set before)"

text \<open>\<open>Map<string, Set<string>>\<close> keyed by line; a \<open>Set\<close> is the list of its members in insertion order.\<close>

type_synonym flag_map = "uuid \<Rightarrow> string list option"

definition add_flag :: "uuid \<Rightarrow> string \<Rightarrow> flag_map \<Rightarrow> flag_map" where
  "add_flag i f m = (case m i of None \<Rightarrow> m | Some fs \<Rightarrow> m(i := Some (if f \<in> set fs then fs else fs @ [f])))"

definition stripped_flags :: "line_item \<Rightarrow> string list" where
  "stripped_flags li = uniq (filter (\<lambda>f. f \<notin> set POLICY_MANAGED_FLAGS) (flags_of li))"

definition breach_flag :: "policy_breach \<Rightarrow> string" where
  "breach_flag b = (if pb_type b = Breach_Margin_Floor then MARGIN_FLOOR_BREACH_FLAG else MAX_DISCOUNT_BREACH_FLAG)"

definition flagsByLine :: "line_item list \<Rightarrow> policy_evaluation \<Rightarrow> flag_map" where
  "flagsByLine lis res =
     (let m = map_of (rev (map (\<lambda>li. (li_id li, stripped_flags li)) lis));
          m = (if failClosed res then fold (\<lambda>i. add_flag i POLICY_BLOCKED_FLAG) (flaggedLineItemIds res) m else m)
      in fold (\<lambda>b. add_flag (pb_lineItemId b) (breach_flag b)) (breaches res) m)"

definition flag_after :: "flag_map \<Rightarrow> line_item \<Rightarrow> string list" where
  "flag_after m li = (case m (li_id li) of Some fs \<Rightarrow> fs | None \<Rightarrow> [])"

definition flag_write :: "flag_map \<Rightarrow> line_item \<Rightarrow> uuid \<times> (line_item \<Rightarrow> line_item)" where
  "flag_write m li = (li_id li, \<lambda>row. row\<lparr>li_flags := Some (flag_after m li)\<rparr>)"

definition persistFlags :: "line_item list \<Rightarrow> policy_evaluation \<Rightarrow> db \<Rightarrow> db" where
  "persistFlags lis res d =
     (let m = flagsByLine lis res in
      update_lines (map (flag_write m) (filter (\<lambda>li. \<not> sameFlags (flags_of li) (flag_after m li)) lis)) d)"

section \<open>The node\<close>

definition policy_priced :: "db \<Rightarrow> line_item \<Rightarrow> bool" where
  "policy_priced d li \<longleftrightarrow> matched_sku d li \<noteq> None \<and> li_unit_price_minor li \<noteq> None"

definition policy_input :: "db \<Rightarrow> line_item \<Rightarrow> policy_line_input" where
  "policy_input d li = \<lparr>pl_lineItemId = li_id li, pl_basePriceMinor = base_price_minor (the (matched_sku d li)),
     pl_unitPriceMinor = the (li_unit_price_minor li), pl_costMinor = cost_minor (the (matched_sku d li))\<rparr>"

text \<open>\<open>emit_ok\<close>: whether the audit event could be written; a failure is only logged.\<close>

definition emitPolicyCompleted :: "bool \<Rightarrow> uuid \<Rightarrow> uuid \<Rightarrow> policy_evaluation \<Rightarrow> db \<Rightarrow> db" where
  "emitPolicyCompleted emit_ok orgId requestId res d =
     (if emit_ok then emit (Some orgId) (Some requestId) None None
        (Ev_Policy_Completed (breached res) (failClosed res) (length (breaches res))) d
      else d)"

definition policy_node :: "bool \<Rightarrow> uuid \<Rightarrow> uuid \<Rightarrow> db \<Rightarrow> node_outcome \<times> db" where
  "policy_node emit_ok requestId orgId d =
     (let lis = lines_of_request_in_org requestId orgId d;
          priced = filter (policy_priced d) lis;
          inputs = map (policy_input d) priced;
          rules = policyRuleSet orgId d;
          res = (if priced \<noteq> [] then evaluatePolicy inputs rules else EMPTY_RESULT)
      in (Returned (Advance Score), emitPolicyCompleted emit_ok orgId requestId res (persistFlags lis res d)))"

section \<open>Facts\<close>

lemma min_or_null_Some: "min_or_null xs = Some m \<longleftrightarrow> xs \<noteq> [] \<and> m = Min (set xs)"
  by (cases xs) (auto simp: min_or_null_def simp flip: Min.set_eq_fold)

lemma min_or_null_None [simp]: "min_or_null xs = None \<longleftrightarrow> xs = []"
  by (auto simp: min_or_null_def split: list.splits)

lemma managed_flags_distinct [simp]:
  "MARGIN_FLOOR_BREACH_FLAG \<noteq> MAX_DISCOUNT_BREACH_FLAG" "MAX_DISCOUNT_BREACH_FLAG \<noteq> MARGIN_FLOOR_BREACH_FLAG"
  "MARGIN_FLOOR_BREACH_FLAG \<noteq> POLICY_BLOCKED_FLAG" "POLICY_BLOCKED_FLAG \<noteq> MARGIN_FLOOR_BREACH_FLAG"
  "MAX_DISCOUNT_BREACH_FLAG \<noteq> POLICY_BLOCKED_FLAG" "POLICY_BLOCKED_FLAG \<noteq> MAX_DISCOUNT_BREACH_FLAG"
  by (simp_all add: flag_defs)

lemma sameFlags_set:
  assumes "distinct after"
  shows "sameFlags before after \<Longrightarrow> set before = set after"
proof -
  assume "sameFlags before after"
  then have "length before = length after" "set after \<subseteq> set before" by (auto simp: sameFlags_def)
  moreover have "card (set after) = length after" using assms by (rule distinct_card)
  moreover have "card (set before) \<le> length before" by (rule card_length)
  ultimately show ?thesis using card_seteq [of "set before" "set after"] by auto
qed

lemma add_flag_at: "add_flag i f m j = (if j = i then map_option (\<lambda>fs. if f \<in> set fs then fs else fs @ [f]) (m i) else m j)"
  by (auto simp: add_flag_def split: option.splits)

text \<open>The flags of one line after a sequence of additions.\<close>

lemma fold_add_flag:
  assumes "m j = Some fs" and "distinct fs"
  shows "\<exists>gs. fold (\<lambda>x. add_flag (k x) (g x)) xs m j = Some gs \<and> distinct gs \<and> set gs = set fs \<union> {g x | x. x \<in> set xs \<and> k x = j}"
  using assms
proof (induction xs arbitrary: m fs)
  case (Cons x xs)
  have "\<exists>hs. add_flag (k x) (g x) m j = Some hs \<and> distinct hs \<and> set hs = set fs \<union> (if k x = j then {g x} else {})"
    by (rule exI [of _ "if k x = j \<and> g x \<notin> set fs then fs @ [g x] else fs"]) (use Cons.prems in \<open>auto simp: add_flag_at\<close>)
  then obtain hs where hs: "add_flag (k x) (g x) m j = Some hs" "distinct hs" "set hs = set fs \<union> (if k x = j then {g x} else {})"
    by blast
  from Cons.IH [of "add_flag (k x) (g x) m" hs, OF hs(1,2)] hs(3) show ?case by fastforce
qed auto

text \<open>What the thresholds mean, without a division.\<close>

definition below_floor :: "rat \<Rightarrow> int \<Rightarrow> int \<Rightarrow> bool" where
  "below_floor fl cost unit \<longleftrightarrow> (if 0 < unit then 100 * of_int (unit - cost) < fl * of_int unit else 0 < cost)"

definition above_cap :: "rat \<Rightarrow> int \<Rightarrow> int \<Rightarrow> bool" where
  "above_cap cap base unit \<longleftrightarrow> 0 < base \<and> cap * of_int base < 100 * of_int (base - unit)"

lemma margin_breach_flags:
  "breach_flag ` set (margin_breach rules l) =
     (case (marginFloorPct rules, pl_costMinor l) of
        (Some fl, Some cost) \<Rightarrow> if below_floor fl cost (pl_unitPriceMinor l) then {MARGIN_FLOOR_BREACH_FLAG} else {}
      | _ \<Rightarrow> {})"
proof -
  have "of_int (u - c) / of_int u * 100 < (fl :: rat) \<longleftrightarrow> 100 * of_int (u - c) < fl * of_int u" if "0 < u" for u c :: int and fl
    using that by (simp add: divide_less_eq algebra_simps)
  then show ?thesis by (auto simp: margin_breach_def below_floor_def breach_flag_def Let_def split: option.splits)
qed

lemma discount_breach_flags:
  "breach_flag ` set (discount_breach rules l) =
     (case maxDiscountPct rules of
        Some cap \<Rightarrow> if above_cap cap (pl_basePriceMinor l) (pl_unitPriceMinor l) then {MAX_DISCOUNT_BREACH_FLAG} else {}
      | None \<Rightarrow> {})"
proof -
  have "(cap :: rat) < of_int (b - u) / of_int b * 100 \<longleftrightarrow> cap * of_int b < 100 * of_int (b - u)" if "0 < b" for u b :: int and cap
    using that by (simp add: less_divide_eq algebra_simps)
  then show ?thesis by (auto simp: discount_breach_def above_cap_def breach_flag_def Let_def split: option.splits)
qed

lemma breach_ids:
  "b \<in> set (discount_breach rules l @ margin_breach rules l) \<Longrightarrow> pb_lineItemId b = pl_lineItemId l"
  by (auto simp: discount_breach_def margin_breach_def Let_def split: option.splits if_splits)

text \<open>The policy flags a line must carry.\<close>

definition due_flags :: "policy_rule_set \<Rightarrow> db \<Rightarrow> line_item \<Rightarrow> string set" where
  "due_flags rules d li =
     (case (matched_sku d li, li_unit_price_minor li) of
        (Some s, Some unit) \<Rightarrow>
          if \<not> anyPolicyRules rules then {POLICY_BLOCKED_FLAG}
          else (case maxDiscountPct rules of
                  Some cap \<Rightarrow> if above_cap cap (base_price_minor s) unit then {MAX_DISCOUNT_BREACH_FLAG} else {}
                | None \<Rightarrow> {}) \<union>
               (case (marginFloorPct rules, cost_minor s) of
                  (Some fl, Some cost) \<Rightarrow> if below_floor fl cost unit then {MARGIN_FLOOR_BREACH_FLAG} else {}
                | _ \<Rightarrow> {})
      | _ \<Rightarrow> {})"

definition policy_result :: "policy_rule_set \<Rightarrow> db \<Rightarrow> line_item list \<Rightarrow> policy_evaluation" where
  "policy_result rules d lis =
     (let priced = filter (policy_priced d) lis
      in if priced \<noteq> [] then evaluatePolicy (map (policy_input d) priced) rules else EMPTY_RESULT)"

lemma policy_input_id [simp]: "pl_lineItemId (policy_input d li) = li_id li"
  by (simp add: policy_input_def)

lemma policy_result_flags:
  assumes "distinct (map li_id lis)" and "li \<in> set lis"
  shows "{POLICY_BLOCKED_FLAG | i. failClosed (policy_result rules d lis) \<and> i \<in> set (flaggedLineItemIds (policy_result rules d lis)) \<and> i = li_id li} \<union>
    {breach_flag b | b. b \<in> set (breaches (policy_result rules d lis)) \<and> pb_lineItemId b = li_id li} = due_flags rules d li"
proof -
  have uniq: "x = li" if "x \<in> set lis" "li_id x = li_id li" for x
    using that assms by (auto simp: distinct_map inj_on_def)
  show ?thesis
  proof (cases "anyPolicyRules rules")
    case False
    have none: "breaches (policy_result rules d lis) = []"
      using False by (simp add: policy_result_def evaluatePolicy_def EMPTY_RESULT_def Let_def)
    have "failClosed (policy_result rules d lis) \<and> i \<in> set (flaggedLineItemIds (policy_result rules d lis)) \<longleftrightarrow>
        i \<in> li_id ` {x \<in> set lis. policy_priced d x}" for i
      using False by (auto simp: policy_result_def evaluatePolicy_def EMPTY_RESULT_def Let_def filter_empty_conv)
    moreover have "li_id li \<in> li_id ` {x \<in> set lis. policy_priced d x} \<longleftrightarrow> policy_priced d li"
      using uniq assms(2) by (metis (no_types, lifting) imageE imageI mem_Collect_eq)
    ultimately have "{POLICY_BLOCKED_FLAG | i. failClosed (policy_result rules d lis) \<and>
        i \<in> set (flaggedLineItemIds (policy_result rules d lis)) \<and> i = li_id li} =
        (if policy_priced d li then {POLICY_BLOCKED_FLAG} else {})" by auto
    then show ?thesis using False none
      by (cases "matched_sku d li"; cases "li_unit_price_minor li") (simp_all add: due_flags_def policy_priced_def)
  next
    case True
    let ?bs = "\<lambda>x. discount_breach rules (policy_input d x) @ margin_breach rules (policy_input d x)"
    have "breaches (policy_result rules d lis) = concat (map ?bs (filter (policy_priced d) lis))"
      using True by (simp add: policy_result_def evaluatePolicy_def EMPTY_RESULT_def Let_def comp_def)
    then have bs: "b \<in> set (breaches (policy_result rules d lis)) \<longleftrightarrow> (\<exists>x \<in> set lis. policy_priced d x \<and> b \<in> set (?bs x))" for b
      by auto
    have mem: "b \<in> set (breaches (policy_result rules d lis)) \<and> pb_lineItemId b = li_id li \<longleftrightarrow>
        policy_priced d li \<and> b \<in> set (?bs li)" for b
      unfolding bs using assms(2) uniq breach_ids [of b rules] by (metis policy_input_id)
    have "{breach_flag b | b. b \<in> set (breaches (policy_result rules d lis)) \<and> pb_lineItemId b = li_id li} =
        (if policy_priced d li then breach_flag ` set (discount_breach rules (policy_input d li)) \<union>
           breach_flag ` set (margin_breach rules (policy_input d li)) else {})"
      unfolding mem by auto
    moreover have "\<not> failClosed (policy_result rules d lis)"
      using True by (simp add: policy_result_def evaluatePolicy_def EMPTY_RESULT_def Let_def)
    ultimately show ?thesis using True
      unfolding discount_breach_flags margin_breach_flags
      by (auto simp: due_flags_def policy_input_def policy_priced_def split: option.splits)
  qed
qed

lemma flagsByLine_mem:
  assumes "distinct (map li_id lis)" and "li \<in> set lis"
  shows "\<exists>fs. flagsByLine lis (policy_result rules d lis) (li_id li) = Some fs \<and> distinct fs \<and>
    set fs = (set (flags_of li) - set POLICY_MANAGED_FLAGS) \<union> due_flags rules d li"
proof -
  let ?res = "policy_result rules d lis"
  let ?m = "map_of (rev (map (\<lambda>li. (li_id li, stripped_flags li)) lis))"
  have m: "?m (li_id li) = Some (stripped_flags li)"
    by (rule map_of_is_SomeI) (use assms in \<open>auto simp: rev_map [symmetric] comp_def\<close>)
  have d: "distinct (stripped_flags li)" by (simp add: stripped_flags_def)
  let ?n = "if failClosed ?res then fold (\<lambda>i. add_flag i POLICY_BLOCKED_FLAG) (flaggedLineItemIds ?res) ?m else ?m"
  obtain hs where hs: "?n (li_id li) = Some hs" "distinct hs" "set hs = set (stripped_flags li) \<union>
      {POLICY_BLOCKED_FLAG | i. failClosed ?res \<and> i \<in> set (flaggedLineItemIds ?res) \<and> i = li_id li}"
    using fold_add_flag [of ?m "li_id li" "stripped_flags li" "\<lambda>i. i" "\<lambda>_. POLICY_BLOCKED_FLAG" "flaggedLineItemIds ?res", OF m d] m d
    by (cases "failClosed ?res") auto
  from fold_add_flag [of ?n "li_id li" hs pb_lineItemId breach_flag "breaches ?res", OF hs(1,2)]
  obtain gs where gs: "fold (\<lambda>b. add_flag (pb_lineItemId b) (breach_flag b)) (breaches ?res) ?n (li_id li) = Some gs" "distinct gs"
      "set gs = set hs \<union> {breach_flag b | b. b \<in> set (breaches ?res) \<and> pb_lineItemId b = li_id li}"
    by blast
  have "set gs = set (stripped_flags li) \<union> due_flags rules d li"
    unfolding gs(3) hs(3) policy_result_flags [OF assms, symmetric] by (rule Un_assoc)
  with gs(1,2) show ?thesis
    by (auto simp: flagsByLine_def Let_def stripped_flags_def)
qed

text \<open>The rows of the organisation that a priced line breaks.\<close>

definition breaks_floor :: "sku \<Rightarrow> int \<Rightarrow> pricing_rule \<Rightarrow> bool" where
  "breaks_floor s unit r \<longleftrightarrow> rule_type r = Margin_Floor \<and>
     (case (MarginFloorConfigSchema (Some (config r)), cost_minor s) of
        (Some fl, Some cost) \<Rightarrow> below_floor fl cost unit
      | _ \<Rightarrow> False)"

definition breaks_cap :: "sku \<Rightarrow> int \<Rightarrow> pricing_rule \<Rightarrow> bool" where
  "breaks_cap s unit r \<longleftrightarrow> rule_type r = Max_Discount \<and>
     (case MaxDiscountConfigSchema (Some (config r)) of
        Some cap \<Rightarrow> above_cap cap (base_price_minor s) unit
      | None \<Rightarrow> False)"

definition policy_row :: "pricing_rule \<Rightarrow> bool" where
  "policy_row r \<longleftrightarrow> rule_type r = Margin_Floor \<and> MarginFloorConfigSchema (Some (config r)) \<noteq> None \<or>
     rule_type r = Max_Discount \<and> MaxDiscountConfigSchema (Some (config r)) \<noteq> None"

definition org_rules :: "uuid \<Rightarrow> db \<Rightarrow> pricing_rule list" where
  "org_rules orgId d = filter (\<lambda>r. pr_org_id r = orgId \<and> pr_active r) (pricing_rules d)"

lemma set_accepted: "x \<in> set (accepted t s rs) \<longleftrightarrow> (\<exists>r \<in> set rs. rule_type r = t \<and> s (Some (config r)) = Some x)"
  by (induction rs) (auto split: option.splits)

lemma below_floor_mono: "below_floor x cost unit \<Longrightarrow> x \<le> y \<Longrightarrow> below_floor y cost unit"
  by (auto simp: below_floor_def split: if_splits)
    (meson less_le_trans mult_right_mono of_int_0_le_iff order_less_imp_le)

lemma above_cap_mono: "above_cap x base unit \<Longrightarrow> y \<le> x \<Longrightarrow> above_cap y base unit"
  by (auto simp: above_cap_def)
    (meson le_less_trans mult_right_mono of_int_0_le_iff order_less_imp_le)

lemma below_strictest_floor:
  "(case (marginFloorPct (policyRuleSet orgId d), cost_minor s) of (Some fl, Some cost) \<Rightarrow> below_floor fl cost unit | _ \<Rightarrow> False) \<longleftrightarrow>
     (\<exists>r \<in> set (org_rules orgId d). breaks_floor s unit r)"
proof (cases "marginFloorPct (policyRuleSet orgId d)")
  case None
  then have "accepted Margin_Floor MarginFloorConfigSchema (org_rules orgId d) = []"
    by (simp add: policyRuleSet_def Let_def org_rules_def)
  then show ?thesis using None set_accepted [of _ Margin_Floor MarginFloorConfigSchema "org_rules orgId d"]
    by (auto simp: breaks_floor_def split: option.splits)
next
  case (Some fl)
  let ?xs = "accepted Margin_Floor MarginFloorConfigSchema (org_rules orgId d)"
  have fl: "fl \<in> set ?xs" "\<And>x. x \<in> set ?xs \<Longrightarrow> x \<le> fl"
    using Some by (auto simp: policyRuleSet_def Let_def org_rules_def max_or_null_Some)
  have "below_floor fl c unit \<longleftrightarrow> (\<exists>x \<in> set ?xs. below_floor x c unit)" for c
    using fl below_floor_mono by blast
  moreover have "(\<exists>x \<in> set ?xs. below_floor x c unit) \<longleftrightarrow>
      (\<exists>r \<in> set (org_rules orgId d). rule_type r = Margin_Floor \<and>
        (\<exists>x. MarginFloorConfigSchema (Some (config r)) = Some x \<and> below_floor x c unit))" for c
    unfolding Bex_def set_accepted by blast
  ultimately show ?thesis using Some
    by (cases "cost_minor s") (auto simp: breaks_floor_def split: option.splits)
qed

lemma above_strictest_cap:
  "(case maxDiscountPct (policyRuleSet orgId d) of Some cap \<Rightarrow> above_cap cap (base_price_minor s) unit | None \<Rightarrow> False) \<longleftrightarrow>
     (\<exists>r \<in> set (org_rules orgId d). breaks_cap s unit r)"
proof (cases "maxDiscountPct (policyRuleSet orgId d)")
  case None
  then have "accepted Max_Discount MaxDiscountConfigSchema (org_rules orgId d) = []"
    by (simp add: policyRuleSet_def Let_def org_rules_def)
  then show ?thesis using None set_accepted [of _ Max_Discount MaxDiscountConfigSchema "org_rules orgId d"]
    by (auto simp: breaks_cap_def split: option.splits)
next
  case (Some cap)
  let ?xs = "accepted Max_Discount MaxDiscountConfigSchema (org_rules orgId d)"
  have cap: "cap \<in> set ?xs" "\<And>x. x \<in> set ?xs \<Longrightarrow> cap \<le> x"
    using Some by (auto simp: policyRuleSet_def Let_def org_rules_def min_or_null_Some)
  have "above_cap cap b unit \<longleftrightarrow> (\<exists>x \<in> set ?xs. above_cap x b unit)" for b
    using cap above_cap_mono by blast
  moreover have "(\<exists>x \<in> set ?xs. above_cap x b unit) \<longleftrightarrow>
      (\<exists>r \<in> set (org_rules orgId d). rule_type r = Max_Discount \<and>
        (\<exists>x. MaxDiscountConfigSchema (Some (config r)) = Some x \<and> above_cap x b unit))" for b
    unfolding Bex_def set_accepted by blast
  ultimately show ?thesis using Some by (auto simp: breaks_cap_def split: option.splits)
qed

lemma any_policy_rules: "anyPolicyRules (policyRuleSet orgId d) \<longleftrightarrow> (\<exists>r \<in> set (org_rules orgId d). policy_row r)"
proof -
  have "anyPolicyRules (policyRuleSet orgId d) \<longleftrightarrow>
      set (accepted Margin_Floor MarginFloorConfigSchema (org_rules orgId d)) \<noteq> {} \<or>
      set (accepted Max_Discount MaxDiscountConfigSchema (org_rules orgId d)) \<noteq> {}"
    by (auto simp: policyRuleSet_def Let_def org_rules_def max_or_null_def min_or_null_def split: list.splits)
  also have "\<dots> \<longleftrightarrow> (\<exists>r \<in> set (org_rules orgId d). policy_row r)"
    unfolding ex_in_conv [symmetric] set_accepted by (auto simp: policy_row_def)
  finally show ?thesis .
qed

lemma due_flags_rows:
  assumes "matched_sku d li = Some s" and "li_unit_price_minor li = Some unit"
  shows "due_flags (policyRuleSet orgId d) d li =
    (if \<exists>r \<in> set (org_rules orgId d). policy_row r then
       {MAX_DISCOUNT_BREACH_FLAG | r. r \<in> set (org_rules orgId d) \<and> breaks_cap s unit r} \<union>
       {MARGIN_FLOOR_BREACH_FLAG | r. r \<in> set (org_rules orgId d) \<and> breaks_floor s unit r}
     else {POLICY_BLOCKED_FLAG})"
proof -
  let ?R = "policyRuleSet orgId d"
  have cap: "(case maxDiscountPct ?R of
      Some cap \<Rightarrow> if above_cap cap (base_price_minor s) unit then {MAX_DISCOUNT_BREACH_FLAG} else {} | None \<Rightarrow> {}) =
      {MAX_DISCOUNT_BREACH_FLAG | r. r \<in> set (org_rules orgId d) \<and> breaks_cap s unit r}"
    using above_strictest_cap [where orgId = orgId and d = d and s = s and unit = unit] by (cases "maxDiscountPct ?R") auto
  have fl: "(case (marginFloorPct ?R, cost_minor s) of
      (Some fl, Some cost) \<Rightarrow> if below_floor fl cost unit then {MARGIN_FLOOR_BREACH_FLAG} else {} | _ \<Rightarrow> {}) =
      {MARGIN_FLOOR_BREACH_FLAG | r. r \<in> set (org_rules orgId d) \<and> breaks_floor s unit r}"
    using below_strictest_floor [where orgId = orgId and d = d and s = s and unit = unit] by (cases "marginFloorPct ?R"; cases "cost_minor s") auto
  show ?thesis
    unfolding due_flags_def assms prod.case option.case any_policy_rules cap
    using fl by (simp only: prod.case if_not_P if_P not_not split: if_splits) simp
qed

section \<open>The node reconciles\<close>

lemma fst_flag_write [simp]: "fst \<circ> flag_write m = li_id"
  by (simp add: fun_eq_iff flag_write_def)

lemma persistFlags_rows:
  assumes "distinct (map li_id (line_items d))" and "lis = lines_of_request_in_org r orgId d"
  shows "line_items (persistFlags lis res d) = map (apply_updates (map (flag_write (flagsByLine lis res))
      (filter (\<lambda>li. \<not> sameFlags (flags_of li) (flag_after (flagsByLine lis res) li)) lis))) (line_items d)"
proof -
  show ?thesis unfolding persistFlags_def Let_def
    by (intro update_lines_one_pass)
      (use assms distinct_lines_in_org [OF assms(1)] in \<open>auto simp: flag_write_def\<close>)
qed

lemma apply_flag_write:
  assumes "distinct (map li_id lis)" and "li \<in> set lis"
  shows "apply_updates (map (flag_write m) (filter P lis)) li = (if P li then snd (flag_write m li) li else li)"
proof -
  show ?thesis
  proof (cases "P li")
    case True
    have "map_of (map (flag_write m) (filter P lis)) (li_id li) = Some (snd (flag_write m li))"
      by (rule map_of_is_SomeI)
        (use assms True in \<open>auto simp: distinct_map_filter flag_write_def image_iff intro!: bexI [of _ li]\<close>)
    with True show ?thesis by (simp add: apply_updates_def)
  next
    case False
    have "map_of (map (flag_write m) (filter P lis)) (li_id li) = None"
      using row_unique [OF assms(1) assms(2)] False by (auto simp: map_of_eq_None_iff flag_write_def)
    with False show ?thesis by (simp add: apply_updates_def)
  qed
qed

lemma policy_node_rows:
  assumes "distinct (map li_id (line_items d))" and "policy_node emit_ok r orgId d = (out, d')"
  shows "out = Returned (Advance Score)"
    and "\<exists>fl. line_items d' = map (\<lambda>li. li\<lparr>li_flags := fl li\<rparr>) (line_items d) \<and>
      (\<forall>li \<in> set (line_items d).
        (li \<notin> set (lines_of_request_in_org r orgId d) \<longrightarrow> fl li = li_flags li) \<and>
        (li \<in> set (lines_of_request_in_org r orgId d) \<longrightarrow>
          set (flags_of (li\<lparr>li_flags := fl li\<rparr>)) =
            (set (flags_of li) - set POLICY_MANAGED_FLAGS) \<union> due_flags (policyRuleSet orgId d) d li))"
proof -
  let ?lis = "lines_of_request_in_org r orgId d"
  let ?rules = "policyRuleSet orgId d"
  let ?m = "flagsByLine ?lis (policy_result ?rules d ?lis)"
  let ?us = "map (flag_write ?m) (filter (\<lambda>li. \<not> sameFlags (flags_of li) (flag_after ?m li)) ?lis)"
  let ?fl = "\<lambda>li. li_flags (apply_updates ?us li)"
  have dist: "distinct (map li_id ?lis)" using distinct_lines_in_org [OF assms(1), of "\<lambda>_. True"] by simp
  have node: "out = Returned (Advance Score)" "line_items d' = map (apply_updates ?us) (line_items d)"
    using assms(2) persistFlags_rows [OF assms(1) refl, of r orgId "policy_result ?rules d ?lis"]
    by (auto simp: policy_node_def Let_def policy_result_def emitPolicyCompleted_def split: if_splits)
  have only_flags: "apply_updates ?us li = li\<lparr>li_flags := ?fl li\<rparr>" for li
    by (auto simp: apply_updates_def flag_write_def dest!: map_of_SomeD split: option.splits)
  have other: "?fl li = li_flags li" if "li \<in> set (line_items d)" "li \<notin> set ?lis" for li
  proof -
    have "map_of ?us (li_id li) = None"
      using row_unique [OF assms(1)] lines_in_org_mem that
      by (auto simp: map_of_eq_None_iff flag_write_def) blast
    then show ?thesis by (simp add: apply_updates_def)
  qed
  have own: "set (flags_of (li\<lparr>li_flags := ?fl li\<rparr>)) = (set (flags_of li) - set POLICY_MANAGED_FLAGS) \<union> due_flags ?rules d li"
    if li: "li \<in> set ?lis" for li
  proof -
    obtain fs where fs: "?m (li_id li) = Some fs" "distinct fs"
        "set fs = (set (flags_of li) - set POLICY_MANAGED_FLAGS) \<union> due_flags ?rules d li"
      using flagsByLine_mem [OF dist li, of ?rules d] by blast
    then have after: "distinct (flag_after ?m li)"
      "set (flag_after ?m li) = (set (flags_of li) - set POLICY_MANAGED_FLAGS) \<union> due_flags ?rules d li"
      by (simp_all only: flag_after_def option.case)
    have "set (flags_of (apply_updates ?us li)) = set (flag_after ?m li)"
    proof (cases "sameFlags (flags_of li) (flag_after ?m li)")
      case True
      then show ?thesis unfolding apply_flag_write [OF dist li] using sameFlags_set [OF after(1) True] by simp
    next
      case False
      then show ?thesis unfolding apply_flag_write [OF dist li] by (simp add: flag_write_def flags_of_def)
    qed
    from trans [OF arg_cong [where f = "\<lambda>l. set (flags_of l)", OF only_flags [of li, symmetric]] this [unfolded after(2)]]
    show ?thesis .
  qed
  have rows: "line_items d' = map (\<lambda>li. li\<lparr>li_flags := ?fl li\<rparr>) (line_items d)"
    unfolding node(2) by (rule map_cong [OF refl]) (rule only_flags)
  show "out = Returned (Advance Score)" by (rule node(1))
  show "\<exists>fl. line_items d' = map (\<lambda>li. li\<lparr>li_flags := fl li\<rparr>) (line_items d) \<and>
      (\<forall>li \<in> set (line_items d). (li \<notin> set ?lis \<longrightarrow> fl li = li_flags li) \<and>
        (li \<in> set ?lis \<longrightarrow> set (flags_of (li\<lparr>li_flags := fl li\<rparr>)) =
          (set (flags_of li) - set POLICY_MANAGED_FLAGS) \<union> due_flags ?rules d li))"
  proof (rule exI [of _ ?fl], rule conjI [OF rows], intro ballI conjI impI)
    fix li assume "li \<in> set (line_items d)" "li \<notin> set ?lis"
    then show "?fl li = li_flags li" by (rule other)
  qed (rule own)
qed

lemma managed_flags: "set POLICY_MANAGED_FLAGS = {MARGIN_FLOOR_BREACH_FLAG, MAX_DISCOUNT_BREACH_FLAG, POLICY_BLOCKED_FLAG}"
  by (simp add: POLICY_MANAGED_FLAGS_def)


definition policy_rule :: "pricing_rule_type \<Rightarrow> string \<Rightarrow> rat \<Rightarrow> pricing_rule" where
  "policy_rule t key pct = \<lparr>pr_org_id = ''org'', rule_type = t, pr_vertical = None, rule_key = None,
     sort_order = 0, config = JObj [(key, JNum pct)], pr_active = True\<rparr>"

text \<open>Two lines at 130 cents for a cost of 120, under a margin floor of 10 and a discount cap of 50 percent.\<close>

definition policy_db :: db where
  "policy_db = (catalog_db ''EUR'')\<lparr>requests := [demo_request ''org'' Policy St_Parsing],
     line_items := [(demo_line ''l1'' 1 (Some ''s1'') (Some 15))\<lparr>li_unit_price_minor := Some 130,
       li_flags := Some [CLOSE_TIE_FLAG, POLICY_BLOCKED_FLAG]\<rparr>, demo_line ''l2'' 2 None (Some 2)],
     pricing_rules := [policy_rule Margin_Floor ''min_margin_pct'' 10, policy_rule Margin_Floor ''min_margin_pct'' 5,
       policy_rule Max_Discount ''max_discount_pct'' 50]\<rparr>"


end
