(* ===== verification/Scoring.thy ===== *)
theory Scoring
  imports Policy Js_Text
begin

text \<open>
  Routing: the thresholds read from the environment at decision time
  (\<open>scoring/scoring-config.service.ts\<close>, \<open>config/scoring.config.ts\<close>), the score of a request
  (\<open>scoring/scorer.service.ts\<close>) and the score node with its deterministic gate
  (\<open>scoring/score.node.ts\<close>). The message texts of the reasons are not part of the model.
\<close>

section \<open>Thresholds\<close>

record scoring_config =
  autoThreshold :: rat
  unmatchedFloor :: rat
  policyFlagPenalty :: rat
  dealValueExceededPenalty :: rat
  autoSendCapMinor :: "int option"

text \<open>What \<open>scoring.config.ts\<close> lets through at start-up.\<close>

definition scoring_config_ok :: "scoring_config \<Rightarrow> bool" where
  "scoring_config_ok c \<longleftrightarrow> 0 \<le> autoThreshold c \<and> autoThreshold c \<le> 1 \<and>
     0 \<le> unmatchedFloor c \<and> unmatchedFloor c \<le> 1 \<and>
     0 \<le> policyFlagPenalty c \<and> policyFlagPenalty c \<le> 1 \<and>
     0 \<le> dealValueExceededPenalty c \<and> dealValueExceededPenalty c \<le> 1 \<and>
     (case autoSendCapMinor c of Some n \<Rightarrow> 0 \<le> n | None \<Rightarrow> True)"

text \<open>The last valid values the service remembers, and the two raw settings at the time of a read.\<close>

record threshold_state =
  lastValidAutoThreshold :: rat
  lastValidAutoSendCapMinor :: "int option"

record raw_settings =
  SCORE_AUTO_THRESHOLD :: "string option"
  SCORE_AUTO_SEND_CAP_MINOR :: "string option"

definition initial_thresholds :: "scoring_config \<Rightarrow> threshold_state" where
  "initial_thresholds c = \<lparr>lastValidAutoThreshold = autoThreshold c, lastValidAutoSendCapMinor = autoSendCapMinor c\<rparr>"

definition unset :: "string option \<Rightarrow> bool" where
  "unset raw \<longleftrightarrow> (case raw of None \<Rightarrow> True | Some s \<Rightarrow> trim s = [])"

definition autoThresholdSchema :: "string option \<Rightarrow> rat option" where
  "autoThresholdSchema raw =
     (case js_number (trim (the raw)) of Some x \<Rightarrow> if 0 \<le> x \<and> x \<le> 1 then Some x else None | None \<Rightarrow> None)"

definition autoSendCapSchema :: "string option \<Rightarrow> int option" where
  "autoSendCapSchema raw =
     (case js_number (trim (the raw)) of Some x \<Rightarrow> if is_integer x \<and> 0 \<le> x then Some \<lfloor>x\<rfloor> else None | None \<Rightarrow> None)"

definition getAutoThreshold :: "scoring_config \<Rightarrow> raw_settings \<Rightarrow> threshold_state \<Rightarrow> rat \<times> threshold_state" where
  "getAutoThreshold c raw st =
     (let r = SCORE_AUTO_THRESHOLD raw in
      if unset r then (autoThreshold c, st\<lparr>lastValidAutoThreshold := autoThreshold c\<rparr>)
      else (case autoThresholdSchema r of
              Some x \<Rightarrow> (x, st\<lparr>lastValidAutoThreshold := x\<rparr>)
            | None \<Rightarrow> (lastValidAutoThreshold st, st)))"

definition getAutoSendCapMinor :: "raw_settings \<Rightarrow> threshold_state \<Rightarrow> int option \<times> threshold_state" where
  "getAutoSendCapMinor raw st =
     (let r = SCORE_AUTO_SEND_CAP_MINOR raw in
      if unset r then (None, st\<lparr>lastValidAutoSendCapMinor := None\<rparr>)
      else (case autoSendCapSchema r of
              Some n \<Rightarrow> (Some n, st\<lparr>lastValidAutoSendCapMinor := Some n\<rparr>)
            | None \<Rightarrow> (lastValidAutoSendCapMinor st, st)))"

section \<open>The score\<close>

record scoring_line =
  sl_matchConfidence :: "rat option"
  sl_unitPriceMinor :: "int option"
  sl_quantity :: "rat option"
  sl_hasFlags :: bool

record scoring_result =
  sr_routing :: request_routing
  sr_overallConfidence :: rat
  sr_routingReasons :: "routing_reason list"

text \<open>\<open>Math.max(0, Math.min(1, Math.min(...xs)))\<close>; the minimum of no number is infinite.\<close>

definition computeLineConfidenceFactor :: "scoring_config \<Rightarrow> scoring_line list \<Rightarrow> rat" where
  "computeLineConfidenceFactor c ls =
     max 0 (fold min (map (\<lambda>l. case sl_matchConfidence l of Some x \<Rightarrow> x | None \<Rightarrow> unmatchedFloor c) ls) 1)"

definition computePolicyComplianceFactor :: "scoring_config \<Rightarrow> scoring_line list \<Rightarrow> rat" where
  "computePolicyComplianceFactor c ls = (if list_ex sl_hasFlags ls then policyFlagPenalty c else 1)"

definition line_incomplete :: "scoring_line \<Rightarrow> bool" where
  "line_incomplete l \<longleftrightarrow> sl_unitPriceMinor l = None \<or> sl_quantity l = None"

definition deal_total :: "scoring_line list \<Rightarrow> rat" where
  "deal_total ls = (\<Sum>l\<leftarrow>ls. of_int (the (sl_unitPriceMinor l)) * the (sl_quantity l))"

text \<open>The factor, and whether a line without a price or quantity is why it is lowered.\<close>

definition computeDealValueFactor :: "scoring_config \<Rightarrow> scoring_line list \<Rightarrow> int option \<Rightarrow> rat \<times> bool" where
  "computeDealValueFactor c ls cap =
     (case cap of
        None \<Rightarrow> (1, False)
      | Some n \<Rightarrow>
          if list_ex line_incomplete ls then (dealValueExceededPenalty c, True)
          else if of_int n < deal_total ls then (dealValueExceededPenalty c, False)
          else (1, False))"

definition buildReasons :: "rat \<Rightarrow> rat \<Rightarrow> rat \<Rightarrow> rat \<Rightarrow> bool \<Rightarrow> rat \<Rightarrow> routing_reason list" where
  "buildReasons lineF policyF dealF overall incomplete t =
     (let rs = (if lineF < t then [(Low_Line_Confidence, From_Confidence)] else []) @
               (if policyF < 1 then [(Policy_Flags_Detected, From_Confidence)] else []) @
               (if dealF < 1 then
                  [(if incomplete then Incomplete_Deal_Value else Deal_Value_Exceeds_Cap, From_Confidence)] else [])
      in if t \<le> overall \<and> rs = [] then rs @ [(Rc_Auto_Eligible, From_Confidence)] else rs)"

definition score :: "scoring_config \<Rightarrow> scoring_line list \<Rightarrow> rat \<Rightarrow> int option \<Rightarrow> scoring_result" where
  "score c ls t cap =
     (if ls = [] then
        \<lparr>sr_routing = Needs_Review, sr_overallConfidence = 0, sr_routingReasons = [(No_Line_Items, From_Confidence)]\<rparr>
      else
        (let lineF = computeLineConfidenceFactor c ls;
             policyF = computePolicyComplianceFactor c ls;
             (dealF, incomplete) = computeDealValueFactor c ls cap;
             overall = min (min lineF policyF) dealF
         in \<lparr>sr_routing = (if t \<le> overall then Auto_Eligible else Needs_Review), sr_overallConfidence = overall,
             sr_routingReasons = buildReasons lineF policyF dealF overall incomplete t\<rparr>))"

definition extractionFailureReason :: "extraction_row option \<Rightarrow> routing_reason" where
  "extractionFailureReason ex =
     (case ex of
        Some e \<Rightarrow> if field ''failure_code'' (raw_json e) = Some (JStr ''empty_source'')
                  then (Extraction_Empty_Source, From_Extraction) else (Extraction_Failed, From_Extraction)
      | None \<Rightarrow> (Extraction_Failed, From_Extraction))"

definition scoreExtractionFailure :: "extraction_row option \<Rightarrow> scoring_result" where
  "scoreExtractionFailure ex =
     \<lparr>sr_routing = Needs_Review, sr_overallConfidence = 0, sr_routingReasons = [extractionFailureReason ex]\<rparr>"

section \<open>The node\<close>

definition HARD_REVIEW_FLAGS :: "string list" where
  "HARD_REVIEW_FLAGS = [PRICING_BLOCKED_FLAG, MARGIN_FLOOR_BREACH_FLAG, MAX_DISCOUNT_BREACH_FLAG, POLICY_BLOCKED_FLAG]"

definition scoring_input :: "line_item \<Rightarrow> scoring_line" where
  "scoring_input li = \<lparr>sl_matchConfidence = match_confidence li, sl_unitPriceMinor = li_unit_price_minor li,
     sl_quantity = li_quantity li, sl_hasFlags = (\<exists>f \<in> set (flags_of li). f \<noteq> CLOSE_TIE_FLAG)\<rparr>"

definition has_hard_flag :: "line_item \<Rightarrow> bool" where
  "has_hard_flag li \<longleftrightarrow> (\<exists>f \<in> set (flags_of li). f \<in> set HARD_REVIEW_FLAGS)"

definition applyPolicyGate :: "scoring_result \<Rightarrow> line_item list \<Rightarrow> scoring_result" where
  "applyPolicyGate scored lis =
     (if \<not> list_ex has_hard_flag lis then scored
      else \<lparr>sr_routing = Needs_Review, sr_overallConfidence = sr_overallConfidence scored,
            sr_routingReasons = (if Policy_Breach \<in> fst ` set (sr_routingReasons scored) then sr_routingReasons scored
              else sr_routingReasons scored @ [(Policy_Breach, From_Policy)])\<rparr>)"

text \<open>
  The write of the routing columns, scoped by organisation; \<open>overall_confidence\<close> is a \<open>numeric(4,3)\<close>
  column. \<open>emit_ok\<close>: whether the audit event could be written, a failure is only logged.
\<close>

definition persistAndEmit :: "bool \<Rightarrow> scoring_result \<Rightarrow> uuid \<Rightarrow> uuid \<Rightarrow> db \<Rightarrow> node_outcome \<times> db" where
  "persistAndEmit emit_ok scored requestId orgId d =
     (let d = update_requests (\<lambda>r. r_id r = requestId \<and> r_org_id r = orgId)
            (\<lambda>r. r\<lparr>routing := Some (sr_routing scored),
               overall_confidence := Some (to_numeric 3 (sr_overallConfidence scored)),
               routing_reasons := sr_routingReasons scored, current_node := Done\<rparr>) d
      in if \<not> request_in_org requestId orgId d then (Returned Node_Failed, d)
         else (Returned (Advance Done),
           if emit_ok then emit (Some orgId) (Some requestId) None None
             (Ev_Score_Exited (sr_routing scored) (sr_overallConfidence scored) (sr_routingReasons scored)) d
           else d))"

text \<open>The unordered read of the lines of a request of the organisation.\<close>

definition score_lines :: "uuid \<Rightarrow> uuid \<Rightarrow> db \<Rightarrow> line_item list" where
  "score_lines requestId orgId d =
     (if request_in_org requestId orgId d then filter (\<lambda>l. li_request_id l = requestId) (line_items d) else [])"

definition score_node ::
  "bool \<Rightarrow> scoring_config \<Rightarrow> raw_settings \<Rightarrow> uuid \<Rightarrow> uuid \<Rightarrow> threshold_state \<times> db \<Rightarrow>
   node_outcome \<times> threshold_state \<times> db" where
  "score_node emit_ok c raw requestId orgId s =
     (let (st, d) = s in
      if \<not> request_in_org requestId orgId d then (Returned Node_Failed, st, d)
      else
        (let ex = findByRequestId requestId orgId d in
         if (case ex of Some e \<Rightarrow> \<not> schema_valid e | None \<Rightarrow> True) then
           (let (out, d) = persistAndEmit emit_ok (scoreExtractionFailure ex) requestId orgId d in (out, st, d))
         else
           (let lis = score_lines requestId orgId d;
                (t, st) = getAutoThreshold c raw st;
                (cap, st) = getAutoSendCapMinor raw st;
                scored = score c (map scoring_input lis) t cap;
                gated = applyPolicyGate scored lis;
                (out, d) = persistAndEmit emit_ok gated requestId orgId d
            in (out, st, d))))"

section \<open>Facts\<close>

definition thresholds_ok :: "threshold_state \<Rightarrow> bool" where
  "thresholds_ok st \<longleftrightarrow> 0 \<le> lastValidAutoThreshold st \<and> lastValidAutoThreshold st \<le> 1 \<and>
     (case lastValidAutoSendCapMinor st of Some n \<Rightarrow> 0 \<le> n | None \<Rightarrow> True)"

lemma getAutoThreshold_ok:
  assumes "scoring_config_ok c" and "thresholds_ok st" and "getAutoThreshold c raw st = (t, st')"
  shows "0 \<le> t \<and> t \<le> 1 \<and> thresholds_ok st'"
  using assms
  by (auto simp: getAutoThreshold_def thresholds_ok_def scoring_config_ok_def autoThresholdSchema_def Let_def
      split: if_splits option.splits)

lemma getAutoSendCapMinor_ok:
  assumes "thresholds_ok st" and "getAutoSendCapMinor raw st = (cap, st')"
  shows "thresholds_ok st' \<and> (case cap of Some n \<Rightarrow> 0 \<le> n | None \<Rightarrow> True)"
  using assms
  by (auto simp: getAutoSendCapMinor_def thresholds_ok_def autoSendCapSchema_def Let_def split: if_splits option.splits)

lemma le_fold_min: "(t :: rat) \<le> fold min xs x \<longleftrightarrow> t \<le> x \<and> (\<forall>y \<in> set xs. t \<le> y)"
  by (induction xs arbitrary: x) auto

definition confidence_of :: "scoring_config \<Rightarrow> line_item \<Rightarrow> rat" where
  "confidence_of c li = (case match_confidence li of Some x \<Rightarrow> x | None \<Rightarrow> unmatchedFloor c)"

lemma line_factor:
  assumes "t \<le> 1"
  shows "t \<le> computeLineConfidenceFactor c (map scoring_input lis) \<longleftrightarrow> t \<le> 0 \<or> (\<forall>li \<in> set lis. t \<le> confidence_of c li)"
  using assms
  by (auto simp: computeLineConfidenceFactor_def le_max_iff_disj le_fold_min scoring_input_def confidence_of_def)

definition soft_flag :: "line_item \<Rightarrow> bool" where
  "soft_flag li \<longleftrightarrow> (\<exists>f \<in> set (flags_of li). f \<noteq> CLOSE_TIE_FLAG)"

lemma policy_factor:
  assumes "t \<le> 1"
  shows "t \<le> computePolicyComplianceFactor c (map scoring_input lis) \<longleftrightarrow>
    (\<forall>li \<in> set lis. soft_flag li \<longrightarrow> t \<le> policyFlagPenalty c)"
  using assms
  by (auto simp: computePolicyComplianceFactor_def list_ex_iff scoring_input_def soft_flag_def)

text \<open>What a cap demands of the deal: every line has a price and a quantity, and the total is within the cap.\<close>

definition within_cap :: "int \<Rightarrow> line_item list \<Rightarrow> bool" where
  "within_cap n lis \<longleftrightarrow> (\<forall>li \<in> set lis. li_unit_price_minor li \<noteq> None \<and> li_quantity li \<noteq> None) \<and>
     (\<Sum>li\<leftarrow>lis. of_int (the (li_unit_price_minor li)) * the (li_quantity li)) \<le> of_int n"

lemma deal_factor:
  assumes "t \<le> 1"
  shows "t \<le> fst (computeDealValueFactor c (map scoring_input lis) cap) \<longleftrightarrow>
    (case cap of Some n \<Rightarrow> within_cap n lis \<or> t \<le> dealValueExceededPenalty c | None \<Rightarrow> True)"
proof -
  have inc: "list_ex line_incomplete (map scoring_input lis) \<longleftrightarrow>
      \<not> (\<forall>li \<in> set lis. li_unit_price_minor li \<noteq> None \<and> li_quantity li \<noteq> None)"
    by (auto simp: list_ex_iff line_incomplete_def scoring_input_def)
  have tot: "deal_total (map scoring_input lis) = (\<Sum>li\<leftarrow>lis. of_int (the (li_unit_price_minor li)) * the (li_quantity li))"
    by (simp add: deal_total_def scoring_input_def comp_def)
  show ?thesis
    using assms unfolding computeDealValueFactor_def inc tot within_cap_def
    by (auto simp: not_less split: option.splits)
qed

definition auto_score :: "scoring_config \<Rightarrow> rat \<Rightarrow> int option \<Rightarrow> line_item list \<Rightarrow> bool" where
  "auto_score c t cap lis \<longleftrightarrow> lis \<noteq> [] \<and> (t \<le> 0 \<or> (\<forall>li \<in> set lis. t \<le> confidence_of c li)) \<and>
     (\<forall>li \<in> set lis. soft_flag li \<longrightarrow> t \<le> policyFlagPenalty c) \<and>
     (case cap of Some n \<Rightarrow> within_cap n lis \<or> t \<le> dealValueExceededPenalty c | None \<Rightarrow> True)"

lemma score_routing_iff:
  assumes "t \<le> 1"
  shows "sr_routing (score c (map scoring_input lis) t cap) = Auto_Eligible \<longleftrightarrow> auto_score c t cap lis"
  using line_factor [OF assms, of c lis] policy_factor [OF assms, of c lis] deal_factor [OF assms, of c lis cap]
  by (auto simp: score_def Let_def auto_score_def split: prod.splits)

text \<open>A request held for review always carries a reason that says why.\<close>

lemma buildReasons_explains:
  assumes "t \<le> 1" and "\<not> t \<le> min (min a b) x"
  shows "\<exists>r \<in> set (buildReasons a b x (min (min a b) x) i t). fst r \<noteq> Rc_Auto_Eligible"
  using assms by (auto simp: buildReasons_def Let_def not_le min_def split: if_splits)

lemma score_explains:
  assumes "t \<le> 1" and "sr_routing (score c ls t cap) = Needs_Review"
  shows "\<exists>r \<in> set (sr_routingReasons (score c ls t cap)). fst r \<noteq> Rc_Auto_Eligible"
  using assms buildReasons_explains
  by (auto simp: score_def Let_def split: prod.splits if_splits)

lemma gate_routing:
  "sr_routing (applyPolicyGate s lis) = Auto_Eligible \<longleftrightarrow> sr_routing s = Auto_Eligible \<and> \<not> list_ex has_hard_flag lis"
  by (simp add: applyPolicyGate_def)

lemma gate_explains:
  assumes "sr_routing s = Needs_Review \<Longrightarrow> \<exists>r \<in> set (sr_routingReasons s). fst r \<noteq> Rc_Auto_Eligible"
    and "sr_routing (applyPolicyGate s lis) = Needs_Review"
  shows "\<exists>r \<in> set (sr_routingReasons (applyPolicyGate s lis)). fst r \<noteq> Rc_Auto_Eligible"
proof (cases "list_ex has_hard_flag lis")
  case True
  then have "\<exists>x. (Policy_Breach, x) \<in> set (sr_routingReasons (applyPolicyGate s lis))"
    by (force simp: applyPolicyGate_def)
  then show ?thesis by force
next
  case False
  then show ?thesis using assms by (simp add: applyPolicyGate_def)
qed

text \<open>The result the node persists.\<close>

definition node_score :: "scoring_config \<Rightarrow> raw_settings \<Rightarrow> threshold_state \<Rightarrow> uuid \<Rightarrow> uuid \<Rightarrow> db \<Rightarrow> scoring_result" where
  "node_score c raw st r orgId d =
     (case findByRequestId r orgId d of
        Some e \<Rightarrow>
          if schema_valid e then
            (let (t, st) = getAutoThreshold c raw st in
             applyPolicyGate (score c (map scoring_input (score_lines r orgId d)) t (fst (getAutoSendCapMinor raw st)))
               (score_lines r orgId d))
          else scoreExtractionFailure (Some e)
      | None \<Rightarrow> scoreExtractionFailure None)"

lemma score_node_result:
  assumes "request_in_org r orgId d" and "score_node emit_ok c raw r orgId (st, d) = (out, st', d')"
  shows "out = Returned (Advance Done)"
    and "requests d' = update_where (\<lambda>q. r_id q = r \<and> r_org_id q = orgId)
      (\<lambda>q. q\<lparr>routing := Some (sr_routing (node_score c raw st r orgId d)),
        overall_confidence := Some (to_numeric 3 (sr_overallConfidence (node_score c raw st r orgId d))),
        routing_reasons := sr_routingReasons (node_score c raw st r orgId d), current_node := Done\<rparr>) (requests d)"
    and "line_items d' = line_items d"
proof -
  have still: "request_in_org r orgId (update_requests P f d)" if "\<And>q. r_id (f q) = r_id q \<and> r_org_id (f q) = r_org_id q" for P f
  proof -
    obtain q where q: "q \<in> set (requests d)" "r_id q = r" "r_org_id q = orgId"
      using assms(1) by (auto simp: request_in_org_def)
    then have "(if P q then f q else q) \<in> set (requests (update_requests P f d))" by (simp add: set_update_where)
    then show ?thesis using q(2,3) that [of q] unfolding request_in_org_def
      by - (rule bexI [of _ "if P q then f q else q"], auto)
  qed
  have pe: "persistAndEmit emit_ok s r orgId d = (o2, d2) \<Longrightarrow> o2 = Returned (Advance Done) \<and>
      requests d2 = update_where (\<lambda>q. r_id q = r \<and> r_org_id q = orgId)
        (\<lambda>q. q\<lparr>routing := Some (sr_routing s), overall_confidence := Some (to_numeric 3 (sr_overallConfidence s)),
          routing_reasons := sr_routingReasons s, current_node := Done\<rparr>) (requests d) \<and> line_items d2 = line_items d" for s o2 d2
    unfolding persistAndEmit_def Let_def by (subst (asm) still) (auto split: if_splits)
  have "out = Returned (Advance Done) \<and> requests d' = update_where (\<lambda>q. r_id q = r \<and> r_org_id q = orgId)
      (\<lambda>q. q\<lparr>routing := Some (sr_routing (node_score c raw st r orgId d)),
        overall_confidence := Some (to_numeric 3 (sr_overallConfidence (node_score c raw st r orgId d))),
        routing_reasons := sr_routingReasons (node_score c raw st r orgId d), current_node := Done\<rparr>) (requests d) \<and>
      line_items d' = line_items d"
    using assms(2) assms(1)
    by (cases "findByRequestId r orgId d")
      (auto simp: score_node_def node_score_def Let_def split: prod.splits if_splits dest!: pe)
  then show "out = Returned (Advance Done)"
    and "requests d' = update_where (\<lambda>q. r_id q = r \<and> r_org_id q = orgId)
      (\<lambda>q. q\<lparr>routing := Some (sr_routing (node_score c raw st r orgId d)),
        overall_confidence := Some (to_numeric 3 (sr_overallConfidence (node_score c raw st r orgId d))),
        routing_reasons := sr_routingReasons (node_score c raw st r orgId d), current_node := Done\<rparr>) (requests d)"
    and "line_items d' = line_items d" by blast+
qed

lemma scored_row:
  assumes "rows' = update_where (\<lambda>q. r_id q = r \<and> r_org_id q = orgId)
      (\<lambda>q. q\<lparr>routing := Some rt, overall_confidence := conf, routing_reasons := rs, current_node := Done\<rparr>) rows"
    and "q \<in> set rows'" and "r_id q = r" and "r_org_id q = orgId"
  shows "routing q = Some rt \<and> current_node q = Done"
proof -
  let ?f = "\<lambda>q. q\<lparr>routing := Some rt, overall_confidence := conf, routing_reasons := rs, current_node := Done\<rparr>"
  obtain x where x: "q = (if r_id x = r \<and> r_org_id x = orgId then ?f x else x)"
    using assms(2) unfolding assms(1) set_update_where by blast
  then show ?thesis using assms(3,4) by (cases "r_id x = r \<and> r_org_id x = orgId") simp_all
qed

text \<open>
  C8. Routing: the score node marks a request of the organisation done and eligible for automatic sending if
  and only if its extraction is valid, it has lines, no line carries a hard review flag, every line is at
  least as confident as the threshold, the penalty for any other flag is tolerable and the deal is within the
  cap (or the penalty for exceeding it is tolerable); otherwise it is held for review with at least one reason
  that says why. The threshold in force always lies between 0 and 1, whatever the environment holds, and no
  other request is touched.
\<close>

theorem score_node_routing:
  assumes "request_in_org r orgId d" and "scoring_config_ok c" and "thresholds_ok st"
    and "score_node emit_ok c raw r orgId (st, d) = (out, st', d')"
    and "getAutoThreshold c raw st = (t, st1)" and "getAutoSendCapMinor raw st1 = (cap, st2)"
  shows "out = Returned (Advance Done) \<and> 0 \<le> t \<and> t \<le> 1 \<and>
    (\<exists>rt conf rs.
      requests d' = update_where (\<lambda>q. r_id q = r \<and> r_org_id q = orgId)
        (\<lambda>q. q\<lparr>routing := Some rt, overall_confidence := Some conf, routing_reasons := rs, current_node := Done\<rparr>) (requests d) \<and>
      (rt = Auto_Eligible \<longleftrightarrow>
        (case findByRequestId r orgId d of Some e \<Rightarrow> schema_valid e | None \<Rightarrow> False) \<and>
        auto_score c t cap (score_lines r orgId d) \<and> (\<forall>li \<in> set (score_lines r orgId d). \<not> has_hard_flag li)) \<and>
      (rt = Needs_Review \<longrightarrow> (\<exists>x \<in> set rs. fst x \<noteq> Rc_Auto_Eligible)))"
proof -
  let ?s = "node_score c raw st r orgId d"
  have t: "0 \<le> t" "t \<le> 1" using getAutoThreshold_ok [OF assms(2,3,5)] by auto
  have valid: "?s = applyPolicyGate (score c (map scoring_input (score_lines r orgId d)) t cap) (score_lines r orgId d)"
    if "findByRequestId r orgId d = Some e" "schema_valid e" for e
    using that assms(5,6) by (simp add: node_score_def)
  have invalid: "sr_routing ?s = Needs_Review \<and> (\<exists>x \<in> set (sr_routingReasons ?s). fst x \<noteq> Rc_Auto_Eligible)"
    if "\<not> (case findByRequestId r orgId d of Some e \<Rightarrow> schema_valid e | None \<Rightarrow> False)"
    using that by (auto simp: node_score_def scoreExtractionFailure_def extractionFailureReason_def split: option.splits)
  let ?ok = "case findByRequestId r orgId d of Some e \<Rightarrow> schema_valid e | None \<Rightarrow> False"
  have "(sr_routing ?s = Auto_Eligible \<longleftrightarrow>
      ?ok \<and> auto_score c t cap (score_lines r orgId d) \<and> (\<forall>li \<in> set (score_lines r orgId d). \<not> has_hard_flag li)) \<and>
      (sr_routing ?s = Needs_Review \<longrightarrow> (\<exists>x \<in> set (sr_routingReasons ?s). fst x \<noteq> Rc_Auto_Eligible))"
  proof (cases ?ok)
    case True
    then obtain e where "findByRequestId r orgId d = Some e" "schema_valid e" by (auto split: option.splits)
    note s = valid [OF this]
    show ?thesis
      unfolding s gate_routing score_routing_iff [OF t(2)] using True
        gate_explains [OF score_explains [OF t(2), of c "map scoring_input (score_lines r orgId d)" cap], of "score_lines r orgId d"]
      by (auto simp: list_ex_iff)
  next
    case False
    from invalid [OF False] show ?thesis using False by simp
  qed
  then have "\<exists>rt conf rs.
      requests d' = update_where (\<lambda>q. r_id q = r \<and> r_org_id q = orgId)
        (\<lambda>q. q\<lparr>routing := Some rt, overall_confidence := Some conf, routing_reasons := rs, current_node := Done\<rparr>) (requests d) \<and>
      (rt = Auto_Eligible \<longleftrightarrow> ?ok \<and> auto_score c t cap (score_lines r orgId d) \<and> (\<forall>li \<in> set (score_lines r orgId d). \<not> has_hard_flag li)) \<and>
      (rt = Needs_Review \<longrightarrow> (\<exists>x \<in> set rs. fst x \<noteq> Rc_Auto_Eligible))"
    using score_node_result(2) [OF assms(1,4)] by blast
  then show ?thesis using score_node_result(1) [OF assms(1,4)] t by blast
qed

definition sample_config :: scoring_config where
  "sample_config = \<lparr>autoThreshold = 19 / 20, unmatchedFloor = 0, policyFlagPenalty = 1 / 2,
     dealValueExceededPenalty = 4 / 5, autoSendCapMinor = None\<rparr>"

text \<open>One confident line of 30 euros.\<close>

definition score_db :: db where
  "score_db = empty_db\<lparr>requests := [demo_request ''org'' Score St_Parsing],
     extractions := [\<lparr>ex_request_id = ''r1'', schema_valid = True, ex_status = Ex_Completed, raw_json = JNull, reextract_count = 0\<rparr>],
     line_items := [(demo_line ''l1'' 1 (Some ''s1'') (Some 15))\<lparr>li_unit_price_minor := Some 200, match_confidence := Some (49 / 50)\<rparr>]\<rparr>"

theorem score_node_routing_witness:
  "\<exists>rt conf rs. rt = Auto_Eligible \<and>
     requests (snd (snd (score_node True sample_config \<lparr>SCORE_AUTO_THRESHOLD = Some ''0.97'', SCORE_AUTO_SEND_CAP_MINOR = Some ''5000''\<rparr>
       ''r1'' ''org'' (initial_thresholds sample_config, score_db)))) =
     update_where (\<lambda>q. r_id q = ''r1'' \<and> r_org_id q = ''org'')
        (\<lambda>q. q\<lparr>routing := Some rt, overall_confidence := Some conf, routing_reasons := rs, current_node := Done\<rparr>) (requests score_db)"
proof -
  let ?raw = "\<lparr>SCORE_AUTO_THRESHOLD = Some ''0.97'', SCORE_AUTO_SEND_CAP_MINOR = Some ''5000''\<rparr>"
  let ?st = "initial_thresholds sample_config"
  have org: "request_in_org ''r1'' ''org'' score_db" by code_simp
  have ok: "scoring_config_ok sample_config" "thresholds_ok ?st"
    by (simp_all add: scoring_config_ok_def thresholds_ok_def initial_thresholds_def sample_config_def)
  have t: "fst (getAutoThreshold sample_config ?raw ?st) = 97 / 100" by code_simp
  have cap: "fst (getAutoSendCapMinor ?raw (snd (getAutoThreshold sample_config ?raw ?st))) = Some 5000" by code_simp
  have auto: "auto_score sample_config (97 / 100) (Some 5000) (score_lines ''r1'' ''org'' score_db)" by code_simp
  have flags: "\<forall>li \<in> set (score_lines ''r1'' ''org'' score_db). \<not> has_hard_flag li" by code_simp
  have ex: "case findByRequestId ''r1'' ''org'' score_db of Some e \<Rightarrow> schema_valid e | None \<Rightarrow> False" by code_simp
  obtain out st' d' where run: "score_node True sample_config ?raw ''r1'' ''org'' (?st, score_db) = (out, st', d')"
    by (rule prod_cases3)
  obtain t1 st1 where t1: "getAutoThreshold sample_config ?raw ?st = (t1, st1)" by (rule prod.exhaust)
  obtain cap1 st2 where c1: "getAutoSendCapMinor ?raw st1 = (cap1, st2)" by (rule prod.exhaust)
  have "t1 = 97 / 100" "cap1 = Some 5000" using t cap t1 c1 by simp_all
  from score_node_routing [OF org ok run t1 c1] obtain rt conf rs where
    rows: "requests d' = update_where (\<lambda>q. r_id q = ''r1'' \<and> r_org_id q = ''org'')
        (\<lambda>q. q\<lparr>routing := Some rt, overall_confidence := Some conf, routing_reasons := rs, current_node := Done\<rparr>) (requests score_db)"
    and rt: "rt = Auto_Eligible \<longleftrightarrow> (case findByRequestId ''r1'' ''org'' score_db of Some e \<Rightarrow> schema_valid e | None \<Rightarrow> False) \<and>
      auto_score sample_config t1 cap1 (score_lines ''r1'' ''org'' score_db) \<and>
      (\<forall>li \<in> set (score_lines ''r1'' ''org'' score_db). \<not> has_hard_flag li)"
    by blast
  have "rt = Auto_Eligible" unfolding rt \<open>t1 = 97 / 100\<close> \<open>cap1 = Some 5000\<close> using auto flags ex by blast
  with rows show ?thesis unfolding run snd_conv by blast
qed

lemma policy_leaves_hard_flag:
  assumes "distinct (map li_id (line_items d))" and "li \<in> set (lines_of_request_in_org r orgId d)"
    and "matched_sku d li = Some s" and "li_unit_price_minor li = Some unit"
    and "(\<exists>x \<in> set (org_rules orgId d). breaks_floor s unit x \<or> breaks_cap s unit x) \<or>
      \<not> (\<exists>x \<in> set (org_rules orgId d). policy_row x)"
    and "policy_node e1 r orgId d = (out1, d1)"
  shows "\<exists>l \<in> set (line_items d1). li_request_id l = r \<and> has_hard_flag l"
proof -
  obtain fl where rows: "line_items d1 = map (\<lambda>x. x\<lparr>li_flags := fl x\<rparr>) (line_items d)"
    and own: "set (flags_of (li\<lparr>li_flags := fl li\<rparr>)) =
      (set (flags_of li) - set POLICY_MANAGED_FLAGS) \<union> due_flags (policyRuleSet orgId d) d li"
    using policy_node_rows(2) [OF assms(1,6)] lines_in_org_mem [OF assms(2)] assms(2) by blast
  have rows_break: "policy_row x" if "breaks_floor s unit x \<or> breaks_cap s unit x" for x
    using that by (auto simp: breaks_floor_def breaks_cap_def policy_row_def split: option.splits)
  have due: "\<exists>f \<in> due_flags (policyRuleSet orgId d) d li. f \<in> set HARD_REVIEW_FLAGS"
    unfolding due_flags_rows [OF assms(3,4)] using assms(5) rows_break by (auto simp: HARD_REVIEW_FLAGS_def)
  then have "has_hard_flag (li\<lparr>li_flags := fl li\<rparr>)" using own by (auto simp: has_hard_flag_def)
  moreover have "li \<in> set (line_items d)" "li_request_id li = r"
    using assms(2) by (auto simp: lines_of_request_in_org_def lines_of_request_def split: if_splits)
  ultimately show ?thesis unfolding rows by force
qed

lemma score_holds_hard_flag:
  assumes "request_in_org r orgId d" and "l \<in> set (line_items d)" and "li_request_id l = r" and "has_hard_flag l"
  shows "sr_routing (node_score c raw st r orgId d) = Needs_Review"
proof (cases "findByRequestId r orgId d")
  case None
  then show ?thesis by (simp add: node_score_def scoreExtractionFailure_def)
next
  case (Some e)
  have "list_ex has_hard_flag (score_lines r orgId d)" using assms by (auto simp: list_ex_iff score_lines_def)
  with Some show ?thesis
    by (simp add: node_score_def scoreExtractionFailure_def applyPolicyGate_def split: prod.splits)
qed

lemma policy_requests: "policy_node e r orgId d = (out, d1) \<Longrightarrow> requests d1 = requests d"
  by (auto simp: policy_node_def Let_def emitPolicyCompleted_def persistFlags_def split: if_splits)

text \<open>
  The policy gate wins: when the policy node has run on a request and a priced line of it breaks a margin
  floor or a discount cap of the organisation, or the organisation has no usable policy row, the score node
  that follows holds the request for review, whatever the confidence of the lines, the thresholds and the
  penalties configured and the audit writes that fail, and marks it done.
\<close>

theorem policy_gate_wins:
  assumes "distinct (map li_id (line_items d))" and "li \<in> set (lines_of_request_in_org r orgId d)"
    and "matched_sku d li = Some s" and "li_unit_price_minor li = Some unit"
    and "(\<exists>x \<in> set (org_rules orgId d). breaks_floor s unit x \<or> breaks_cap s unit x) \<or>
      \<not> (\<exists>x \<in> set (org_rules orgId d). policy_row x)"
    and "policy_node e1 r orgId d = (out1, d1)" and "score_node e2 c raw r orgId (st, d1) = (out2, st', d2)"
  shows "out1 = Returned (Advance Score) \<and> out2 = Returned (Advance Done) \<and>
    (\<forall>q \<in> set (requests d2). r_id q = r \<and> r_org_id q = orgId \<longrightarrow> routing q = Some Needs_Review \<and> current_node q = Done)"
proof -
  obtain l where l: "l \<in> set (line_items d1)" "li_request_id l = r" "has_hard_flag l"
    using policy_leaves_hard_flag [OF assms(1-6)] by blast
  have org1: "request_in_org r orgId d1"
    using assms(2) policy_requests [OF assms(6)] by (auto simp: lines_of_request_in_org_def request_in_org_def split: if_splits)
  have "routing q = Some Needs_Review \<and> current_node q = Done"
    if "q \<in> set (requests d2)" "r_id q = r" "r_org_id q = orgId" for q
    using scored_row [OF score_node_result(2) [OF org1 assms(7)] that] score_holds_hard_flag [OF org1 l] by simp
  with score_node_result(1) [OF org1 assms(7)] policy_node_rows(1) [OF assms(1,6)] show ?thesis by blast
qed

theorem policy_gate_wins_witness:
  "\<exists>out st d2. score_node False (sample_config\<lparr>policyFlagPenalty := 1, unmatchedFloor := 1\<rparr>)
     \<lparr>SCORE_AUTO_THRESHOLD = Some ''0'', SCORE_AUTO_SEND_CAP_MINOR = None\<rparr> ''r1'' ''org''
     (initial_thresholds sample_config, snd (policy_node True ''r1'' ''org'' policy_db)) = (out, st, d2) \<and>
     (\<forall>q \<in> set (requests d2). r_id q = ''r1'' \<and> r_org_id q = ''org'' \<longrightarrow> routing q = Some Needs_Review)"
proof -
  let ?l = "(demo_line ''l1'' 1 (Some ''s1'') (Some 15))\<lparr>li_unit_price_minor := Some 130,
    li_flags := Some [CLOSE_TIE_FLAG, POLICY_BLOCKED_FLAG]\<rparr>"
  have d: "distinct (map li_id (line_items policy_db))" by code_simp
  have l: "?l \<in> set (lines_of_request_in_org ''r1'' ''org'' policy_db)" by code_simp
  have s: "matched_sku policy_db ?l = Some (demo_sku ''s1'' ''EUR'')" by code_simp
  have u: "li_unit_price_minor ?l = Some 130" by simp
  have b: "\<exists>x \<in> set (org_rules ''org'' policy_db). breaks_floor (demo_sku ''s1'' ''EUR'') 130 x \<or> breaks_cap (demo_sku ''s1'' ''EUR'') 130 x"
    by code_simp
  obtain out st d2 where run: "score_node False (sample_config\<lparr>policyFlagPenalty := 1, unmatchedFloor := 1\<rparr>)
     \<lparr>SCORE_AUTO_THRESHOLD = Some ''0'', SCORE_AUTO_SEND_CAP_MINOR = None\<rparr> ''r1'' ''org''
     (initial_thresholds sample_config, snd (policy_node True ''r1'' ''org'' policy_db)) = (out, st, d2)"
    by (rule prod_cases3)
  from policy_gate_wins [OF d l s u disjI1 [OF b] prod.collapse [symmetric] run] run show ?thesis by blast
qed

end
