(* ===== verification/Scoring_Config.thy ===== *)
theory Scoring_Config
  imports Scoring
begin

text \<open>
  The scoring configuration read at start-up (\<open>config/scoring.config.ts\<close>) and what it means for the
  decisions of the score node.
\<close>

section \<open>Loading\<close>

record scoring_env = raw_settings +
  SCORE_UNMATCHED_FLOOR :: "string option"
  SCORE_POLICY_FLAG_PENALTY :: "string option"
  SCORE_DEAL_VALUE_EXCEEDED_PENALTY :: "string option"

text \<open>\<open>z.coerce.number()\<close>: \<open>Number(s)\<close>, which is 0 on a blank string.\<close>

definition coerce_number :: "string \<Rightarrow> rat option" where
  "coerce_number s = (if trim s = [] then Some 0 else js_number (trim s))"

definition unit_setting :: "rat \<Rightarrow> string option \<Rightarrow> rat option" where
  "unit_setting dflt raw =
     (case raw of
        None \<Rightarrow> Some dflt
      | Some s \<Rightarrow> (case coerce_number s of Some x \<Rightarrow> if 0 \<le> x \<and> x \<le> 1 then Some x else None | None \<Rightarrow> None))"

definition cap_setting :: "string option \<Rightarrow> int option option" where
  "cap_setting raw =
     (case raw of
        None \<Rightarrow> Some None
      | Some s \<Rightarrow>
          if s = [] then Some None
          else (case coerce_number s of
                  Some x \<Rightarrow> if is_integer x \<and> 0 \<le> x then Some (Some \<lfloor>x\<rfloor>) else None
                | None \<Rightarrow> None))"

text \<open>\<open>None\<close>: the process refuses to start.\<close>

definition loadScoringConfig :: "scoring_env \<Rightarrow> scoring_config option" where
  "loadScoringConfig env = do {
     t \<leftarrow> unit_setting (19 / 20) (SCORE_AUTO_THRESHOLD env);
     floor \<leftarrow> unit_setting 0 (SCORE_UNMATCHED_FLOOR env);
     flag \<leftarrow> unit_setting (1 / 2) (SCORE_POLICY_FLAG_PENALTY env);
     deal \<leftarrow> unit_setting (4 / 5) (SCORE_DEAL_VALUE_EXCEEDED_PENALTY env);
     cap \<leftarrow> cap_setting (SCORE_AUTO_SEND_CAP_MINOR env);
     Some \<lparr>autoThreshold = t, unmatchedFloor = floor, policyFlagPenalty = flag, dealValueExceededPenalty = deal,
       autoSendCapMinor = cap\<rparr>
   }"

lemma unit_setting_Some: "0 \<le> dflt \<Longrightarrow> dflt \<le> 1 \<Longrightarrow> unit_setting dflt raw = Some x \<Longrightarrow> 0 \<le> x \<and> x \<le> 1"
  by (auto simp: unit_setting_def split: option.splits if_splits)

lemma cap_setting_Some: "cap_setting raw = Some (Some n) \<Longrightarrow> 0 \<le> n"
  by (auto simp: cap_setting_def split: option.splits if_splits)

lemma loadScoringConfig_ok: "loadScoringConfig env = Some c \<Longrightarrow> scoring_config_ok c \<and> thresholds_ok (initial_thresholds c)"
  using unit_setting_Some [of "19 / 20" "SCORE_AUTO_THRESHOLD env"] unit_setting_Some [of 0 "SCORE_UNMATCHED_FLOOR env"]
    unit_setting_Some [of "1 / 2" "SCORE_POLICY_FLAG_PENALTY env"]
    unit_setting_Some [of "4 / 5" "SCORE_DEAL_VALUE_EXCEEDED_PENALTY env"]
    cap_setting_Some [of "SCORE_AUTO_SEND_CAP_MINOR env"]
  by (auto simp: loadScoringConfig_def bind_eq_Some_conv scoring_config_ok_def thresholds_ok_def initial_thresholds_def
      split: option.splits)

text \<open>A sequence of decision-time reads, each with its own settings.\<close>

fun reads :: "scoring_config \<Rightarrow> raw_settings list \<Rightarrow> threshold_state \<Rightarrow> (rat \<times> int option) list \<times> threshold_state" where
  "reads c [] st = ([], st)"
| "reads c (raw # raws) st =
     (let (t, st) = getAutoThreshold c raw st; (cap, st) = getAutoSendCapMinor raw st; (xs, st) = reads c raws st
      in ((t, cap) # xs, st))"

lemma reads_ok:
  "scoring_config_ok c \<Longrightarrow> thresholds_ok st \<Longrightarrow>
   thresholds_ok (snd (reads c raws st)) \<and>
   (\<forall>(t, cap) \<in> set (fst (reads c raws st)). 0 \<le> t \<and> t \<le> 1 \<and> (case cap of Some n \<Rightarrow> 0 \<le> n | None \<Rightarrow> True))"
proof (induction raws arbitrary: st)
  case (Cons raw raws)
  obtain t st1 where 1: "getAutoThreshold c raw st = (t, st1)" by (rule prod.exhaust)
  obtain cap st2 where 2: "getAutoSendCapMinor raw st1 = (cap, st2)" by (rule prod.exhaust)
  have t: "0 \<le> t \<and> t \<le> 1 \<and> thresholds_ok st1" by (rule getAutoThreshold_ok [OF Cons.prems 1])
  have cap: "thresholds_ok st2 \<and> (case cap of Some n \<Rightarrow> 0 \<le> n | None \<Rightarrow> True)"
    using getAutoSendCapMinor_ok [OF _ 2] t by blast
  show ?case using Cons.IH [OF Cons.prems(1), of st2] t cap by (auto simp: 1 2 split: prod.splits)
qed simp

text \<open>
  Whatever the environment holds at start-up and at each later decision, a process that starts decides
  with a threshold between 0 and 1 and a cap that is absent or not negative; a malformed setting never changes
  what the last valid one said.
\<close>

theorem thresholds_always_valid:
  assumes "loadScoringConfig env = Some c"
  shows "(\<forall>(t, cap) \<in> set (fst (reads c raws (initial_thresholds c))).
      0 \<le> t \<and> t \<le> 1 \<and> (case cap of Some n \<Rightarrow> 0 \<le> n | None \<Rightarrow> True)) \<and>
    (\<not> unset (SCORE_AUTO_THRESHOLD raw) \<and> autoThresholdSchema (SCORE_AUTO_THRESHOLD raw) = None \<longrightarrow>
      getAutoThreshold c raw (snd (reads c raws (initial_thresholds c))) =
        (lastValidAutoThreshold (snd (reads c raws (initial_thresholds c))), snd (reads c raws (initial_thresholds c))))"
  using reads_ok [of c "initial_thresholds c" raws] loadScoringConfig_ok [OF assms]
  by (auto simp: getAutoThreshold_def)

definition demo_raw :: "string option \<Rightarrow> raw_settings" where
  "demo_raw t = \<lparr>SCORE_AUTO_THRESHOLD = t, SCORE_AUTO_SEND_CAP_MINOR = Some ''250000''\<rparr>"

definition env_with :: "string option \<Rightarrow> scoring_env" where
  "env_with t = \<lparr>SCORE_AUTO_THRESHOLD = t, SCORE_AUTO_SEND_CAP_MINOR = None, SCORE_UNMATCHED_FLOOR = None,
     SCORE_POLICY_FLAG_PENALTY = None, SCORE_DEAL_VALUE_EXCEEDED_PENALTY = None\<rparr>"

lemma env_with_loads: "loadScoringConfig (env_with (Some ''0.9'')) = Some (sample_config\<lparr>autoThreshold := 9 / 10\<rparr>)"
  by code_simp

theorem thresholds_always_valid_witness:
  "\<exists>t. getAutoThreshold (sample_config\<lparr>autoThreshold := 9 / 10\<rparr>) (demo_raw (Some ''high''))
     (snd (reads (sample_config\<lparr>autoThreshold := 9 / 10\<rparr>) [demo_raw (Some ''0.97'')]
       (initial_thresholds (sample_config\<lparr>autoThreshold := 9 / 10\<rparr>)))) = t \<and> fst t = 97 / 100"
proof -
  let ?c = "sample_config\<lparr>autoThreshold := 9 / 10\<rparr>"
  have "\<not> unset (SCORE_AUTO_THRESHOLD (demo_raw (Some ''high''))) \<and>
      autoThresholdSchema (SCORE_AUTO_THRESHOLD (demo_raw (Some ''high''))) = None" by code_simp
  moreover have "lastValidAutoThreshold (snd (reads ?c [demo_raw (Some ''0.97'')] (initial_thresholds ?c))) = 97 / 100"
    by code_simp
  ultimately show ?thesis
    using thresholds_always_valid [OF env_with_loads, of "[demo_raw (Some ''0.97'')]" "demo_raw (Some ''high'')"] by simp
qed

text \<open>
  A threshold that is set but blank is not the default: the process starts with a threshold of 0, and
  from then on the score of every request with at least one line and no flags, within the cap, is eligible for
  automatic sending whatever the confidence of its lines.
\<close>

theorem blank_threshold_opens:
  assumes "loadScoringConfig env = Some c" and "SCORE_AUTO_THRESHOLD env = Some s" and "trim s = []"
    and "unset (SCORE_AUTO_THRESHOLD raw)" and "lis \<noteq> []" and "\<forall>li \<in> set lis. \<not> soft_flag li"
    and "case cap of Some n \<Rightarrow> within_cap n lis | None \<Rightarrow> True"
  shows "autoThreshold c = 0 \<and> fst (getAutoThreshold c raw st) = 0 \<and>
    sr_routing (score c (map scoring_input lis) (fst (getAutoThreshold c raw st)) cap) = Auto_Eligible"
proof -
  have c: "autoThreshold c = 0"
    using assms(1-3) by (auto simp: loadScoringConfig_def bind_eq_Some_conv unit_setting_def coerce_number_def)
  then have t: "fst (getAutoThreshold c raw st) = 0" using assms(4) by (simp add: getAutoThreshold_def)
  have "auto_score c 0 cap lis" using assms(5-7) by (auto simp: auto_score_def split: option.splits)
  then show ?thesis unfolding c t by (simp add: score_routing_iff)
qed

theorem blank_threshold_opens_witness:
  "sr_routing (score (sample_config\<lparr>autoThreshold := 0\<rparr>) (map scoring_input [(demo_line ''l1'' 1 None None)\<lparr>match_confidence := Some 0\<rparr>])
     (fst (getAutoThreshold (sample_config\<lparr>autoThreshold := 0\<rparr>) (demo_raw (Some []))
       (initial_thresholds sample_config))) None) = Auto_Eligible"
proof -
  have load: "loadScoringConfig (env_with (Some [])) = Some (sample_config\<lparr>autoThreshold := 0\<rparr>)" by code_simp
  have raw: "SCORE_AUTO_THRESHOLD (env_with (Some [])) = Some []" "trim [] = []" "unset (SCORE_AUTO_THRESHOLD (demo_raw (Some [])))"
    by code_simp+
  have "\<forall>li \<in> set [(demo_line ''l1'' 1 None None)\<lparr>match_confidence := Some 0\<rparr>]. \<not> soft_flag li" by code_simp
  note opens = blank_threshold_opens [OF load raw _ this, of None "initial_thresholds sample_config"]
  show ?thesis by (rule opens [THEN conjunct2, THEN conjunct2]) simp_all
qed

end
