(* ===== verification/Pipeline.thy ===== *)
theory Pipeline
  imports Request_Store
begin

text \<open>
  The graph engine (\<open>pipeline/graph.engine.ts\<close>) that drives a request through its nodes, with the node
  registry (\<open>pipeline/node-registry.ts\<close>) and the error taxonomy (\<open>pipeline/pipeline.errors.ts\<close>). A node
  is any function of the database; what the engine relies on of it is the locale \<open>pipeline_nodes\<close>. Whether
  the next audit event can be written is an argument: when it cannot, the engine's exception leaves the run
  where it stands, which is also what a crash between two events leaves behind.
\<close>

section \<open>The registry\<close>

type_synonym node_impl = "uuid \<Rightarrow> uuid \<Rightarrow> db \<Rightarrow> node_outcome \<times> db"
type_synonym node_registry = "current_node \<Rightarrow> node_impl option"

definition registry_register :: "current_node \<Rightarrow> node_impl \<Rightarrow> node_registry \<Rightarrow> node_registry" where
  "registry_register name impl nodes = nodes(name := Some impl)"

definition registry_has :: "node_registry \<Rightarrow> current_node \<Rightarrow> bool" where
  "registry_has nodes name \<longleftrightarrow> nodes name \<noteq> None"

section \<open>The engine\<close>

definition MAX_NODE_TRANSITIONS :: nat where
  "MAX_NODE_TRANSITIONS = 50"

text \<open>A run has returned, or has thrown.\<close>

datatype run_result = Finished db | Aborted db

fun then_run :: "run_result \<Rightarrow> (db \<Rightarrow> run_result) \<Rightarrow> run_result" where
  "then_run (Finished d) k = k d"
| "then_run (Aborted d) k = Aborted d"

fun db_of :: "run_result \<Rightarrow> db" where
  "db_of (Finished d) = d"
| "db_of (Aborted d) = d"

text \<open>The audit trail: whether an event can be written in a given state.\<close>

type_synonym audit = "db \<Rightarrow> bool"

definition emitStep :: "audit \<Rightarrow> uuid \<Rightarrow> uuid \<Rightarrow> event_payload \<Rightarrow> db \<Rightarrow> run_result" where
  "emitStep ok orgId requestId p d =
     (if ok d then Finished (emit (Some orgId) (Some requestId) None None p d) else Aborted d)"

definition finalize :: "audit \<Rightarrow> uuid \<Rightarrow> uuid \<Rightarrow> request_status \<Rightarrow> bool \<Rightarrow> db \<Rightarrow> run_result" where
  "finalize ok orgId requestId st success d =
     then_run (emitStep ok orgId requestId (Ev_Processing_Complete success) (setStatus requestId st d))
       (emitStep ok orgId requestId (Ev_Request_Finalized st))"

definition computeTerminalStatus :: "uuid \<Rightarrow> current_node \<Rightarrow> db \<Rightarrow> request_status" where
  "computeTerminalStatus requestId endNode d =
     (if endNode = Failed then St_Failed
      else (case find_request requestId d of
              Some req \<Rightarrow> if routing req = Some Auto_Eligible then St_Priced else St_Needs_Review
            | None \<Rightarrow> St_Needs_Review))"

text \<open>The three ways out of a node that has not advanced.\<close>

definition give_up :: "audit \<Rightarrow> uuid \<Rightarrow> uuid \<Rightarrow> current_node \<Rightarrow> db \<Rightarrow> run_result" where
  "give_up ok orgId requestId node d =
     then_run (emitStep ok orgId requestId (Ev_Node_Exited node False) d)
       (\<lambda>d. finalize ok orgId requestId St_Failed False (setCurrentNode requestId Failed d))"

definition hand_over :: "audit \<Rightarrow> uuid \<Rightarrow> uuid \<Rightarrow> current_node \<Rightarrow> request_status \<Rightarrow> db \<Rightarrow> run_result" where
  "hand_over ok orgId requestId node st d =
     then_run (emitStep ok orgId requestId (Ev_Node_Exited node False) d) (finalize ok orgId requestId st False)"

definition handle_error :: "audit \<Rightarrow> uuid \<Rightarrow> uuid \<Rightarrow> current_node \<Rightarrow> node_error \<Rightarrow> db \<Rightarrow> run_result" where
  "handle_error ok orgId requestId node err d =
     (case err of
        Circuit_Breaker_Open \<Rightarrow>
          then_run (emitStep ok orgId requestId (Ev_Breaker_Exit node) d) (finalize ok orgId requestId St_Needs_Review False)
      | Pipeline_Infra_Error \<Rightarrow> give_up ok orgId requestId node d
      | Other_Error \<Rightarrow>
          hand_over ok orgId requestId node St_Needs_Review (emitStageError orgId requestId node Unknown_Error d))"

text \<open>The loop, with the number of transitions still allowed.\<close>

fun walk :: "node_registry \<Rightarrow> audit \<Rightarrow> bool \<Rightarrow> uuid \<Rightarrow> uuid \<Rightarrow> nat \<Rightarrow> current_node \<Rightarrow> db \<Rightarrow> run_result" where
  "walk nodes ok skipExtract orgId requestId n node d =
     (if node = Done \<or> node = Failed then
        finalize ok orgId requestId (computeTerminalStatus requestId node d) True d
      else
        (case n of
           0 \<Rightarrow> finalize ok orgId requestId St_Failed False (setCurrentNode requestId Failed d)
         | Suc m \<Rightarrow>
             (case nodes node of
                None \<Rightarrow> finalize ok orgId requestId St_Failed False (setCurrentNode requestId Failed d)
              | Some impl \<Rightarrow>
                  then_run (emitStep ok orgId requestId (Ev_Node_Entered node) d)
                    (\<lambda>d. if skipExtract \<and> node = Extract then
                           then_run (emitStep ok orgId requestId (Ev_Node_Exited node True) d)
                             (\<lambda>d. walk nodes ok skipExtract orgId requestId m Classify (setCurrentNode requestId Classify d))
                         else
                           (case impl requestId orgId d of
                              (Threw err, d) \<Rightarrow> handle_error ok orgId requestId node err d
                            | (Returned Clarify, d) \<Rightarrow> hand_over ok orgId requestId node St_Needs_Clarification d
                            | (Returned Node_Failed, d) \<Rightarrow> give_up ok orgId requestId node d
                            | (Returned (Advance next), d) \<Rightarrow>
                                then_run (emitStep ok orgId requestId (Ev_Node_Exited node True) d)
                                  (\<lambda>d. walk nodes ok skipExtract orgId requestId m next (setCurrentNode requestId next d)))))))"

declare walk.simps [simp del]

definition pipeline_run :: "node_registry \<Rightarrow> audit \<Rightarrow> resume_reason option \<Rightarrow> bool \<Rightarrow> uuid \<Rightarrow> db \<Rightarrow> run_result" where
  "pipeline_run nodes ok reason skipExtract requestId d =
     (case find_request requestId d of
        None \<Rightarrow> Finished d
      | Some req \<Rightarrow>
          then_run
            (if current_node req \<noteq> Parse then
               emitStep ok (r_org_id req) requestId
                 (Ev_Request_Resumed (current_node req) (case reason of Some x \<Rightarrow> x | None \<Rightarrow> Crash_Recovery)) d
             else Finished d)
            (\<lambda>d. walk nodes ok skipExtract (r_org_id req) requestId MAX_NODE_TRANSITIONS (current_node req)
                   (markProcessing requestId d)))"

section \<open>What the engine relies on\<close>

text \<open>The events only the engine writes, in the order they are written.\<close>

definition engine_event :: "event_payload \<Rightarrow> bool" where
  "engine_event p \<longleftrightarrow> (case p of
     Ev_Request_Resumed _ _ \<Rightarrow> True | Ev_Node_Entered _ \<Rightarrow> True | Ev_Node_Exited _ _ \<Rightarrow> True | Ev_Breaker_Exit _ \<Rightarrow> True
   | Ev_Processing_Complete _ \<Rightarrow> True | Ev_Request_Finalized _ \<Rightarrow> True | _ \<Rightarrow> False)"

definition engine_trace :: "db \<Rightarrow> event_payload list" where
  "engine_trace d = filter engine_event (map payload (events d))"

definition terminal :: "request_status \<Rightarrow> bool" where
  "terminal st \<longleftrightarrow> st \<in> set TERMINAL_STATUSES"

lemma terminal_iff [simp]: "terminal st \<longleftrightarrow> st = St_Declined \<or> st = St_Sent"
  by (auto simp: terminal_def TERMINAL_STATUSES_def)

text \<open>
  While a node runs, a request keeps its row, and its status unless somebody declines or sends it meanwhile,
  which nothing undoes; the clock does not go back and nobody else writes the engine's events.
\<close>

definition request_kept :: "request \<Rightarrow> request \<Rightarrow> bool" where
  "request_kept q q' \<longleftrightarrow> processing_started_at q' = processing_started_at q \<and>
     (if terminal (status q) then status q' = status q else status q' = status q \<or> terminal (status q'))"

definition node_effect :: "db \<Rightarrow> db \<Rightarrow> bool" where
  "node_effect d d' \<longleftrightarrow> engine_trace d' = engine_trace d \<and> clock d \<le> clock d' \<and>
     (\<forall>i q. find_request i d = Some q \<longrightarrow> (\<exists>q'. find_request i d' = Some q' \<and> request_kept q q'))"

lemma request_kept_refl [simp]: "request_kept q q"
  by (simp add: request_kept_def)

lemma node_effect_refl [simp]: "node_effect d d"
  by (auto simp: node_effect_def)

lemma request_kept_trans: "request_kept a b \<Longrightarrow> request_kept b c \<Longrightarrow> request_kept a c"
  by (auto simp: request_kept_def split: if_splits)

lemma node_effect_trans: "node_effect a b \<Longrightarrow> node_effect b c \<Longrightarrow> node_effect a c"
  unfolding node_effect_def using request_kept_trans by (metis order_trans)

text \<open>An operation that touches no request and writes none of the engine's events is harmless.\<close>

lemma node_effectI:
  assumes "requests d' = requests d" and "clock d' = clock d" and "engine_trace d' = engine_trace d"
  shows "node_effect d d'"
  unfolding node_effect_def find_request_def assms by auto

lemma engine_trace_emit [simp]:
  "engine_trace (emit (Some a) b c u p d) = engine_trace d @ (if engine_event p then [p] else [])"
  by (simp add: engine_trace_def)

lemma engine_event_simps [simp]:
  "engine_event (Ev_Request_Resumed n x)" "engine_event (Ev_Node_Entered n)" "engine_event (Ev_Node_Exited n b)"
  "engine_event (Ev_Breaker_Exit n)" "engine_event (Ev_Processing_Complete b)" "engine_event (Ev_Request_Finalized st)"
  "\<not> engine_event (Ev_Stage_Error n e)" "\<not> engine_event (Ev_Pricing_Completed t b)" "\<not> engine_event (Ev_Policy_Completed b c k)"
  "\<not> engine_event (Ev_Score_Exited rt cf rs)" "\<not> engine_event (Ev_Match_Exited k l b)"
  "\<not> engine_event (Ev_Extract_Exited b i)" "\<not> engine_event (Ev_Classify_Exited ty cf)"
  "\<not> engine_event (Ev_Tool_Invoked nd nm tp i)" "\<not> engine_event (Ev_Request_Received ch k)"
  by (simp_all add: engine_event_def)

lemma engine_trace_stage_error [simp]: "engine_trace (emitStageError a b n e d) = engine_trace d"
  by (simp add: emitStageError_def)

locale pipeline_nodes =
  fixes nodes :: node_registry
  assumes lawful: "nodes node = Some impl \<Longrightarrow> impl requestId orgId d = (out, d') \<Longrightarrow> node_effect d d'"

section \<open>The stream a run produces\<close>

text \<open>
  The protocol of the event stream, as a client that follows a run sees it: an automaton over the engine's
  events. Nodes are entered and left in turn; a node that fails, or that the circuit breaker stops, is the
  last; then come exactly two closing events. Failure is reported unless the run went through to the end of
  the graph, and a run over the transition limit or at an unregistered node closes as failed.
\<close>

datatype stream_state =
    Between | Inside current_node | Left_Failed | Left_Breaker
  | Closing_Success | Closing_Limit | Closing_Failed | Closing_Breaker | Closed

definition may_close :: "stream_state \<Rightarrow> request_status \<Rightarrow> bool" where
  "may_close s st \<longleftrightarrow>
     (case s of
        Closing_Success \<Rightarrow> st \<in> {St_Failed, St_Needs_Review, St_Priced}
      | Closing_Limit \<Rightarrow> st = St_Failed
      | Closing_Failed \<Rightarrow> st \<in> {St_Failed, St_Needs_Review, St_Needs_Clarification}
      | Closing_Breaker \<Rightarrow> st = St_Needs_Review
      | _ \<Rightarrow> False)"

definition stream_next :: "stream_state \<Rightarrow> event_payload \<Rightarrow> stream_state option" where
  "stream_next s p =
     (case p of
        Ev_Node_Entered n \<Rightarrow> if s = Between then Some (Inside n) else None
      | Ev_Node_Exited n b \<Rightarrow> if s = Inside n then Some (if b then Between else Left_Failed) else None
      | Ev_Breaker_Exit n \<Rightarrow> if s = Inside n then Some Left_Breaker else None
      | Ev_Processing_Complete b \<Rightarrow>
          if s = Between then Some (if b then Closing_Success else Closing_Limit)
          else if s = Left_Failed \<and> \<not> b then Some Closing_Failed
          else if s = Left_Breaker \<and> \<not> b then Some Closing_Breaker else None
      | Ev_Request_Finalized st \<Rightarrow> if may_close s st then Some Closed else None
      | _ \<Rightarrow> None)"

fun stream_run :: "stream_state \<Rightarrow> event_payload list \<Rightarrow> stream_state option" where
  "stream_run s [] = Some s"
| "stream_run s (p # ps) = (case stream_next s p of Some t \<Rightarrow> stream_run t ps | None \<Rightarrow> None)"

lemma stream_run_append:
  "stream_run s (xs @ ys) = (case stream_run s xs of Some t \<Rightarrow> stream_run t ys | None \<Rightarrow> None)"
  by (induction xs arbitrary: s) (auto split: option.splits)

fun is_entered :: "event_payload \<Rightarrow> bool" where
  "is_entered (Ev_Node_Entered n) = True"
| "is_entered _ = False"

definition entered :: "event_payload list \<Rightarrow> nat" where
  "entered tr = length (filter is_entered tr)"

lemma entered_simps [simp]:
  "entered [] = 0" "entered (p # tr) = (if is_entered p then Suc (entered tr) else entered tr)"
  "entered (xs @ ys) = entered xs + entered ys"
  by (simp_all add: entered_def)

definition FINAL_STATUSES :: "request_status list" where
  "FINAL_STATUSES = [St_Failed, St_Needs_Review, St_Needs_Clarification, St_Priced]"

lemma trace_updates [simp]:
  "engine_trace (setCurrentNode i n d) = engine_trace d" "engine_trace (setStatus i st d) = engine_trace d"
  "engine_trace (markProcessing i d) = engine_trace d"
  by (simp_all add: engine_trace_def)

text \<open>A stretch of the run that does not end it.\<close>

definition moved :: "uuid \<Rightarrow> db \<Rightarrow> event_payload list \<Rightarrow> db \<Rightarrow> bool" where
  "moved r d pre d' \<longleftrightarrow> engine_trace d' = engine_trace d @ pre \<and> clock d \<le> clock d' \<and>
     (\<forall>q. find_request r d = Some q \<longrightarrow> (\<exists>q'. find_request r d' = Some q' \<and> request_kept q q'))"

text \<open>The whole run, ended by a return or an exception, with the part of the trace it wrote.\<close>

definition settles :: "request \<Rightarrow> request \<Rightarrow> run_result \<Rightarrow> event_payload list \<Rightarrow> bool" where
  "settles q q' res tr \<longleftrightarrow> processing_started_at q' = processing_started_at q \<and>
     (terminal (status q) \<longrightarrow> status q' = status q) \<and>
     (case res of
        Finished _ \<Rightarrow> \<exists>st tr'. tr = tr' @ [Ev_Request_Finalized st] \<and> st \<in> set FINAL_STATUSES \<and>
          (status q' = st \<or> terminal (status q')) \<and> (st = St_Priced \<longrightarrow> routing q' = Some Auto_Eligible)
      | Aborted _ \<Rightarrow> status q' = status q \<or> terminal (status q') \<or> status q' \<in> set FINAL_STATUSES)"

definition ended :: "uuid \<Rightarrow> db \<Rightarrow> run_result \<Rightarrow> event_payload list \<Rightarrow> bool" where
  "ended r d res tr \<longleftrightarrow> engine_trace (db_of res) = engine_trace d @ tr \<and> clock d \<le> clock (db_of res) \<and>
     (\<forall>q. find_request r d = Some q \<longrightarrow> (\<exists>q'. find_request r (db_of res) = Some q' \<and> settles q q' res tr))"

definition well_ended :: "run_result \<Rightarrow> event_payload list \<Rightarrow> bool" where
  "well_ended res tr \<longleftrightarrow> (case res of
     Finished _ \<Rightarrow> stream_run Between tr = Some Closed
   | Aborted _ \<Rightarrow> \<exists>s. stream_run Between tr = Some s \<and> s \<noteq> Closed)"

lemma moved_refl [simp]: "moved r d [] d"
  by (simp add: moved_def)

lemma moved_trans: "moved r d xs d1 \<Longrightarrow> moved r d1 ys d2 \<Longrightarrow> moved r d (xs @ ys) d2"
  unfolding moved_def using request_kept_trans by (metis append.assoc order_trans)

lemma moved_node: "node_effect d d' \<Longrightarrow> moved r d [] d'"
  by (simp add: node_effect_def moved_def)

lemma moved_checkpoint: "moved r d [] (setCurrentNode r n d)"
  by (auto simp: moved_def find_request_setCurrentNode request_kept_def)

lemma moved_stage_error: "moved r d [] (emitStageError a b n e d)"
  by (auto simp: moved_def find_request_def)

lemma moved_emitStep: "emitStep ok orgId r p d = Finished d' \<Longrightarrow> engine_event p \<Longrightarrow> moved r d [p] d'"
  by (auto simp: emitStep_def moved_def split: if_splits)

lemma settles_kept: "request_kept q q1 \<Longrightarrow> settles q1 q' res tr \<Longrightarrow> settles q q' res (pre @ tr)"
  by (cases res) (auto simp: settles_def request_kept_def FINAL_STATUSES_def split: if_splits)

lemma moved_ended:
  assumes "moved r d pre d1" and "ended r d1 res tr"
  shows "ended r d res (pre @ tr)"
  unfolding ended_def
proof (intro conjI allI impI)
  show "engine_trace (db_of res) = engine_trace d @ pre @ tr" "clock d \<le> clock (db_of res)"
    using assms by (simp_all add: moved_def ended_def)
  fix q assume "find_request r d = Some q"
  then obtain q1 where "find_request r d1 = Some q1" "request_kept q q1" using assms(1) by (auto simp: moved_def)
  moreover from this(1) obtain q' where "find_request r (db_of res) = Some q'" "settles q1 q' res tr"
    using assms(2) by (auto simp: ended_def)
  ultimately show "\<exists>q'. find_request r (db_of res) = Some q' \<and> settles q q' res (pre @ tr)"
    using settles_kept by blast
qed

lemma aborted_ended: "ended r d (Aborted d) []"
  by (simp add: ended_def settles_def)

lemma emitStep_cases:
  obtains d' where "emitStep ok orgId r p d = Finished d'" | "emitStep ok orgId r p d = Aborted d"
  by (cases "ok d") (auto simp: emitStep_def)

lemma finalize_ended:
  assumes "st \<in> set FINAL_STATUSES" and "\<And>q. find_request r d = Some q \<Longrightarrow> st = St_Priced \<Longrightarrow> routing q = Some Auto_Eligible"
  obtains tr where "ended r d (finalize ok orgId r st b d) tr"
    and "case finalize ok orgId r st b d of
        Finished _ \<Rightarrow> tr = [Ev_Processing_Complete b, Ev_Request_Finalized st]
      | Aborted _ \<Rightarrow> tr = [] \<or> tr = [Ev_Processing_Complete b]"
proof -
  let ?s = "setStatus r st d"
  let ?p = "emit (Some orgId) (Some r) None None (Ev_Processing_Complete b) ?s"
  let ?f = "emit (Some orgId) (Some r) None None (Ev_Request_Finalized st) ?p"
  have res: "finalize ok orgId r st b d = (if ok ?s then if ok ?p then Finished ?f else Aborted ?p else Aborted ?s)"
    by (simp add: finalize_def emitStep_def)
  have settle: "settles q (if r_id q = r \<and> status q \<notin> {St_Declined, St_Sent} then q\<lparr>status := st\<rparr> else q) res tr"
    if "find_request r d = Some q" "case res of Finished _ \<Rightarrow> \<exists>tr'. tr = tr' @ [Ev_Request_Finalized st] | Aborted _ \<Rightarrow> True" for q res tr
    using that assms find_request_Some [OF that(1)] by (cases res) (auto simp: settles_def)
  show ?thesis
    by (rule that [of "if ok ?s then if ok ?p then [Ev_Processing_Complete b, Ev_Request_Finalized st] else [Ev_Processing_Complete b] else []"])
      (use settle in \<open>auto simp: res ended_def find_request_setStatus\<close>)
qed

lemma finalize_well:
  assumes "st \<in> set FINAL_STATUSES" and "\<And>q. find_request r d = Some q \<Longrightarrow> st = St_Priced \<Longrightarrow> routing q = Some Auto_Eligible"
    and "moved r d0 pre d" and "stream_run Between pre = Some sb" and "sb \<noteq> Closed"
    and "stream_next sb (Ev_Processing_Complete b) = Some sc" and "sc \<noteq> Closed" and "may_close sc st"
  shows "\<exists>tr. ended r d0 (finalize ok orgId r st b d) tr \<and> well_ended (finalize ok orgId r st b d) tr \<and> entered tr = entered pre"
proof -
  obtain tr where tr: "ended r d (finalize ok orgId r st b d) tr"
    "case finalize ok orgId r st b d of Finished _ \<Rightarrow> tr = [Ev_Processing_Complete b, Ev_Request_Finalized st]
      | Aborted _ \<Rightarrow> tr = [] \<or> tr = [Ev_Processing_Complete b]"
    by (rule finalize_ended [OF assms(1,2)])
  have close: "stream_next sc (Ev_Request_Finalized st) = Some Closed" using assms(8) by (simp add: stream_next_def)
  have "well_ended (finalize ok orgId r st b d) (pre @ tr) \<and> entered (pre @ tr) = entered pre"
    using tr(2) assms(4-7) close
    by (cases "finalize ok orgId r st b d") (auto simp: well_ended_def stream_run_append)
  with moved_ended [OF assms(3) tr(1)] show ?thesis by blast
qed

lemma emit_aborts:
  assumes "moved r d0 pre d" and "stream_run Between pre = Some s" and "s \<noteq> Closed"
  shows "\<exists>tr. ended r d0 (Aborted d) tr \<and> well_ended (Aborted d) tr \<and> entered tr = entered pre"
  using moved_ended [OF assms(1) aborted_ended] assms(2,3) by (auto simp: well_ended_def)

lemma emit_then:
  assumes "moved r d0 pre d" and "stream_run Between pre = Some s" and "s \<noteq> Closed" and "engine_event p"
    and "\<And>d'. moved r d0 (pre @ [p]) d' \<Longrightarrow> \<exists>tr. ended r d0 (k d') tr \<and> well_ended (k d') tr \<and> entered tr \<le> n"
    and "entered pre \<le> n"
  shows "\<exists>tr. ended r d0 (then_run (emitStep ok orgId r p d) k) tr \<and>
    well_ended (then_run (emitStep ok orgId r p d) k) tr \<and> entered tr \<le> n"
proof (rule emitStep_cases [of ok orgId r p d])
  fix d' assume f: "emitStep ok orgId r p d = Finished d'"
  from assms(5) [OF moved_trans [OF assms(1) moved_emitStep [OF f assms(4)]]] show ?thesis by (simp add: f)
next
  assume "emitStep ok orgId r p d = Aborted d"
  with emit_aborts [OF assms(1-3)] assms(6) show ?thesis by auto
qed

lemma final_statuses [simp]:
  "St_Failed \<in> set FINAL_STATUSES" "St_Needs_Review \<in> set FINAL_STATUSES"
  "St_Needs_Clarification \<in> set FINAL_STATUSES" "St_Priced \<in> set FINAL_STATUSES"
  by (simp_all add: FINAL_STATUSES_def)

lemma finalize_le:
  assumes "st \<in> set FINAL_STATUSES" and "st \<noteq> St_Priced" and "moved r d0 pre d" and "stream_run Between pre = Some sb"
    and "sb \<noteq> Closed" and "stream_next sb (Ev_Processing_Complete b) = Some sc" and "sc \<noteq> Closed" and "may_close sc st"
    and "entered pre \<le> n"
  shows "\<exists>tr. ended r d0 (finalize ok orgId r st b d) tr \<and> well_ended (finalize ok orgId r st b d) tr \<and> entered tr \<le> n"
  using finalize_well [OF assms(1) _ assms(3-8), of ok orgId] assms(2,9) by auto

lemma hand_over_ended:
  assumes "st \<in> {St_Failed, St_Needs_Review, St_Needs_Clarification}" and "moved r d0 pre d"
    and "stream_run Between pre = Some (Inside node)" and "entered pre \<le> n"
  shows "\<exists>tr. ended r d0 (hand_over ok orgId r node st d) tr \<and> well_ended (hand_over ok orgId r node st d) tr \<and> entered tr \<le> n"
  unfolding hand_over_def
proof (rule emit_then [OF assms(2,3) _ _ _ assms(4)])
  fix d' assume "moved r d0 (pre @ [Ev_Node_Exited node False]) d'"
  then show "\<exists>tr. ended r d0 (finalize ok orgId r st False d') tr \<and> well_ended (finalize ok orgId r st False d') tr \<and> entered tr \<le> n"
    by (rule finalize_le [where sb = Left_Failed and sc = Closing_Failed, rotated 2])
      (use assms in \<open>auto simp: stream_run_append stream_next_def may_close_def\<close>)
qed simp_all

lemma give_up_ended:
  assumes "moved r d0 pre d" and "stream_run Between pre = Some (Inside node)" and "entered pre \<le> n"
  shows "\<exists>tr. ended r d0 (give_up ok orgId r node d) tr \<and> well_ended (give_up ok orgId r node d) tr \<and> entered tr \<le> n"
  unfolding give_up_def
proof (rule emit_then [OF assms(1,2) _ _ _ assms(3)])
  fix d' assume "moved r d0 (pre @ [Ev_Node_Exited node False]) d'"
  from moved_trans [OF this moved_checkpoint, of Failed]
  show "\<exists>tr. ended r d0 (finalize ok orgId r St_Failed False (setCurrentNode r Failed d')) tr \<and>
      well_ended (finalize ok orgId r St_Failed False (setCurrentNode r Failed d')) tr \<and> entered tr \<le> n"
    by (rule finalize_le [where sb = Left_Failed and sc = Closing_Failed, rotated 2])
      (use assms in \<open>auto simp: stream_run_append stream_next_def may_close_def\<close>)
qed simp_all

lemma handle_error_ended:
  assumes "moved r d0 pre d" and "stream_run Between pre = Some (Inside node)" and "entered pre \<le> n"
  shows "\<exists>tr. ended r d0 (handle_error ok orgId r node err d) tr \<and> well_ended (handle_error ok orgId r node err d) tr \<and> entered tr \<le> n"
proof (cases err)
  case Circuit_Breaker_Open
  have "\<exists>tr. ended r d0 (then_run (emitStep ok orgId r (Ev_Breaker_Exit node) d) (finalize ok orgId r St_Needs_Review False)) tr \<and>
      well_ended (then_run (emitStep ok orgId r (Ev_Breaker_Exit node) d) (finalize ok orgId r St_Needs_Review False)) tr \<and> entered tr \<le> n"
  proof (rule emit_then [OF assms(1,2) _ _ _ assms(3)])
    fix d' assume "moved r d0 (pre @ [Ev_Breaker_Exit node]) d'"
    then show "\<exists>tr. ended r d0 (finalize ok orgId r St_Needs_Review False d') tr \<and>
        well_ended (finalize ok orgId r St_Needs_Review False d') tr \<and> entered tr \<le> n"
      by (rule finalize_le [where sb = Left_Breaker and sc = Closing_Breaker, rotated 2])
        (use assms in \<open>auto simp: stream_run_append stream_next_def may_close_def\<close>)
  qed simp_all
  with Circuit_Breaker_Open show ?thesis by (simp add: handle_error_def)
next
  case Pipeline_Infra_Error
  with give_up_ended [OF assms] show ?thesis by (simp add: handle_error_def)
next
  case Other_Error
  have "moved r d0 pre (emitStageError orgId r node Unknown_Error d)"
    using moved_trans [OF assms(1) moved_stage_error] by simp
  from hand_over_ended [OF _ this assms(2,3), of St_Needs_Review] Other_Error show ?thesis by (simp add: handle_error_def)
qed

text \<open>A request as a run leaves it when it starts, and the event of a resumed run.\<close>

definition started :: "millis \<Rightarrow> request \<Rightarrow> request" where
  "started now q =
     (if terminal (status q) then q else q\<lparr>status := St_Parsing, processing_started_at := Some now\<rparr>)"

definition resume_event :: "resume_reason option \<Rightarrow> request \<Rightarrow> event_payload" where
  "resume_event reason q = Ev_Request_Resumed (current_node q) (case reason of Some x \<Rightarrow> x | None \<Rightarrow> Crash_Recovery)"

definition resume_events :: "resume_reason option \<Rightarrow> request \<Rightarrow> event_payload list" where
  "resume_events reason q = (if current_node q = Parse then [] else [resume_event reason q])"

context pipeline_nodes
begin

lemma walk_ended:
  assumes "moved r d0 pre d" and "stream_run Between pre = Some Between"
  shows "\<exists>tr. ended r d0 (walk nodes ok skip orgId r n node d) tr \<and>
    well_ended (walk nodes ok skip orgId r n node d) tr \<and> entered tr \<le> entered pre + n"
  using assms
proof (induction n arbitrary: pre node d)
  case 0
  show ?case
  proof (cases "node = Done \<or> node = Failed")
    case True
    have "\<exists>tr. ended r d0 (finalize ok orgId r (computeTerminalStatus r node d) True d) tr \<and>
        well_ended (finalize ok orgId r (computeTerminalStatus r node d) True d) tr \<and> entered tr = entered pre"
      by (rule finalize_well [OF _ _ "0.prems", where sc = Closing_Success]) (auto simp: computeTerminalStatus_def stream_next_def may_close_def split: option.splits if_splits)
    with True show ?thesis by (auto simp: walk.simps)
  next
    case False
    have "\<exists>tr. ended r d0 (finalize ok orgId r St_Failed False (setCurrentNode r Failed d)) tr \<and>
        well_ended (finalize ok orgId r St_Failed False (setCurrentNode r Failed d)) tr \<and> entered tr \<le> entered pre"
      by (rule finalize_le [OF _ _ _ "0.prems"(2), where sc = Closing_Limit]) (use moved_trans [OF "0.prems"(1) moved_checkpoint] in \<open>auto simp: stream_next_def may_close_def\<close>)
    with False show ?thesis by (simp add: walk.simps)
  qed
next
  case (Suc m)
  show ?case
  proof (cases "node = Done \<or> node = Failed")
    case True
    have "\<exists>tr. ended r d0 (finalize ok orgId r (computeTerminalStatus r node d) True d) tr \<and>
        well_ended (finalize ok orgId r (computeTerminalStatus r node d) True d) tr \<and> entered tr = entered pre"
      by (rule finalize_well [OF _ _ Suc.prems, where sc = Closing_Success])
        (auto simp: computeTerminalStatus_def stream_next_def may_close_def split: option.splits if_splits)
    with True show ?thesis by (auto simp: walk.simps)
  next
    case False
    show ?thesis
    proof (cases "nodes node")
      case None
      have "\<exists>tr. ended r d0 (finalize ok orgId r St_Failed False (setCurrentNode r Failed d)) tr \<and>
          well_ended (finalize ok orgId r St_Failed False (setCurrentNode r Failed d)) tr \<and> entered tr \<le> entered pre + Suc m"
        by (rule finalize_le [OF _ _ _ Suc.prems(2), where sc = Closing_Limit])
          (use moved_trans [OF Suc.prems(1) moved_checkpoint] in \<open>auto simp: stream_next_def may_close_def\<close>)
      with False None show ?thesis by (simp add: walk.simps)
    next
      case (Some impl)
      let ?in = "pre @ [Ev_Node_Entered node]"
      have inside: "stream_run Between ?in = Some (Inside node)"
        using Suc.prems(2) by (simp add: stream_run_append stream_next_def)
      have again: "\<exists>tr. ended r d0 (then_run (emitStep ok orgId r (Ev_Node_Exited node True) d2)
            (\<lambda>d. walk nodes ok skip orgId r m next (setCurrentNode r next d))) tr \<and>
          well_ended (then_run (emitStep ok orgId r (Ev_Node_Exited node True) d2)
            (\<lambda>d. walk nodes ok skip orgId r m next (setCurrentNode r next d))) tr \<and> entered tr \<le> entered pre + Suc m"
        if "moved r d0 ?in d2" for d2 "next"
      proof (rule emit_then [OF that inside])
        fix d3 assume "moved r d0 (?in @ [Ev_Node_Exited node True]) d3"
        from Suc.IH [OF moved_trans [OF this moved_checkpoint], of "next" "next"] Suc.prems(2)
        show "\<exists>tr. ended r d0 (walk nodes ok skip orgId r m next (setCurrentNode r next d3)) tr \<and>
            well_ended (walk nodes ok skip orgId r m next (setCurrentNode r next d3)) tr \<and> entered tr \<le> entered pre + Suc m"
          by (simp add: stream_run_append stream_next_def)
      qed simp_all
      have body: "\<exists>tr. ended r d0 (k d1) tr \<and> well_ended (k d1) tr \<and> entered tr \<le> entered pre + Suc m"
        if "moved r d0 ?in d1" and k: "k = (\<lambda>d. if skip \<and> node = Extract then
              then_run (emitStep ok orgId r (Ev_Node_Exited node True) d)
                (\<lambda>d. walk nodes ok skip orgId r m Classify (setCurrentNode r Classify d))
            else (case impl r orgId d of
                (Threw err, d) \<Rightarrow> handle_error ok orgId r node err d
              | (Returned Clarify, d) \<Rightarrow> hand_over ok orgId r node St_Needs_Clarification d
              | (Returned Node_Failed, d) \<Rightarrow> give_up ok orgId r node d
              | (Returned (Advance next), d) \<Rightarrow>
                  then_run (emitStep ok orgId r (Ev_Node_Exited node True) d)
                    (\<lambda>d. walk nodes ok skip orgId r m next (setCurrentNode r next d))))" for d1 k
      proof (cases "skip \<and> node = Extract")
        case True
        with again [OF that(1), of Classify] show ?thesis by (simp add: k)
      next
        case no_skip: False
        obtain out d2 where run: "impl r orgId d1 = (out, d2)" by (cases "impl r orgId d1")
        have m2: "moved r d0 ?in d2" using moved_trans [OF that(1) moved_node [OF lawful [OF Some run]]] by simp
        have le: "entered ?in \<le> entered pre + Suc m" by simp
        show ?thesis
          using again [OF m2] hand_over_ended [OF _ m2 inside le, of St_Needs_Clarification ok orgId]
            give_up_ended [OF m2 inside le, of ok orgId] handle_error_ended [OF m2 inside le, of ok orgId] no_skip
          by (auto simp: k run split: node_outcome.splits node_result.splits)
      qed
      have "\<exists>tr. ended r d0 (walk nodes ok skip orgId r (Suc m) node d) tr \<and>
          well_ended (walk nodes ok skip orgId r (Suc m) node d) tr \<and> entered tr \<le> entered pre + Suc m"
        using emit_then [where p = "Ev_Node_Entered node" and ok = ok and orgId = orgId, OF Suc.prems _ _ body [OF _ refl]] False Some
        by (simp add: walk.simps)
      then show ?thesis .
    qed
  qed
qed

lemma run_ended:
  assumes q: "find_request r d = Some q" and res: "pipeline_run nodes ok reason skip r d = res"
  shows "res = Aborted d \<or>
    (\<exists>tr q'. engine_trace (db_of res) = engine_trace d @ resume_events reason q @ tr \<and> well_ended res tr \<and>
      entered tr \<le> MAX_NODE_TRANSITIONS \<and> clock d \<le> clock (db_of res) \<and>
      find_request r (db_of res) = Some q' \<and> settles (started (clock d) q) q' res tr)"
proof -
  have walk: "\<exists>tr q'. engine_trace (db_of (w d1)) = engine_trace d1 @ tr \<and> well_ended (w d1) tr \<and>
      entered tr \<le> MAX_NODE_TRANSITIONS \<and> clock d1 \<le> clock (db_of (w d1)) \<and>
      find_request r (db_of (w d1)) = Some q' \<and> settles (started (clock d) q) q' (w d1) tr"
    if "requests d1 = requests d" "clock d1 = clock d"
      and w: "w = (\<lambda>d. walk nodes ok skip (r_org_id q) r MAX_NODE_TRANSITIONS (current_node q) (markProcessing r d))" for d1 w
  proof -
    have start: "find_request r (markProcessing r d1) = Some (started (clock d) q)"
      using q that(1,2) find_request_cong [OF that(1)] find_request_Some [OF q]
      by (simp add: find_request_markProcessing started_def)
    obtain tr where "ended r (markProcessing r d1) (w d1) tr" "well_ended (w d1) tr" "entered tr \<le> MAX_NODE_TRANSITIONS"
      using walk_ended [of r "markProcessing r d1" "[]" "markProcessing r d1" ok skip "r_org_id q" MAX_NODE_TRANSITIONS "current_node q"]
      by (auto simp: w)
    then show ?thesis using start by (auto simp: ended_def)
  qed
  show ?thesis
  proof (cases "current_node q = Parse")
    case True
    with walk [OF refl refl refl] q res show ?thesis by (auto simp: pipeline_run_def resume_events_def)
  next
    case False
    show ?thesis
    proof (rule emitStep_cases [of ok "r_org_id q" r "resume_event reason q" d])
      fix d1 assume e: "emitStep ok (r_org_id q) r (resume_event reason q) d = Finished d1"
      then have d1: "requests d1 = requests d" "clock d1 = clock d" "engine_trace d1 = engine_trace d @ [resume_event reason q]"
        by (auto simp: emitStep_def resume_event_def split: if_splits)
      have "res = walk nodes ok skip (r_org_id q) r MAX_NODE_TRANSITIONS (current_node q) (markProcessing r d1)"
        using res q False e by (simp add: pipeline_run_def resume_event_def)
      with walk [OF d1(1,2) refl] d1(2,3) False show ?thesis by (simp add: resume_events_def)
    next
      assume "emitStep ok (r_org_id q) r (resume_event reason q) d = Aborted d"
      then show ?thesis using res q False by (simp add: pipeline_run_def resume_event_def)
    qed
  qed
qed

end

section \<open>A run returns when the audit trail is available\<close>

lemma finalize_returns: "\<exists>d'. finalize (\<lambda>_. True) orgId r st b d = Finished d'"
  by (simp add: finalize_def emitStep_def)

lemma walk_returns: "\<exists>d'. walk nodes (\<lambda>_. True) skip orgId r n node d = Finished d'"
proof (induction n arbitrary: node d)
  case 0
  then show ?case using finalize_returns by (simp add: walk.simps)
next
  case (Suc n)
  have "\<exists>d'. give_up (\<lambda>_. True) orgId r node e = Finished d'" "\<exists>d'. hand_over (\<lambda>_. True) orgId r node st e = Finished d'"
    "\<exists>d'. handle_error (\<lambda>_. True) orgId r node err e = Finished d'" for e st err
    using finalize_returns by (cases err; simp add: give_up_def hand_over_def handle_error_def emitStep_def)+
  then show ?case using Suc finalize_returns
    by (subst walk.simps) (auto simp: emitStep_def split: option.splits prod.splits node_outcome.splits node_result.splits)
qed

lemma run_returns: "\<exists>d'. pipeline_run nodes (\<lambda>_. True) reason skip r d = Finished d'"
  using walk_returns by (cases "find_request r d") (auto simp: pipeline_run_def emitStep_def)

end
