(* ===== verification/Parse_Node.thy ===== *)
theory Parse_Node
  imports Request_Store
begin

text \<open>
  The parse node (\<open>parse/parse.node.ts\<close>, \<open>parse/text-extractor.ts\<close>), the attachment rows it maintains
  (\<open>requests/attachments.model-action.ts\<close>) and the pasting of an attachment's text
  (\<open>requests/services/attachments.service.ts\<close>). The object store and the PDF reader are parameters; the bytes
  of a text file are its text.
\<close>

section \<open>Attachment rows\<close>

definition update_attachments :: "(attachment \<Rightarrow> bool) \<Rightarrow> (attachment \<Rightarrow> attachment) \<Rightarrow> db \<Rightarrow> db" where
  "update_attachments P f d = d\<lparr>attachments := update_where P f (attachments d)\<rparr>"

definition findByIdForRequest :: "uuid \<Rightarrow> uuid \<Rightarrow> db \<Rightarrow> attachment option" where
  "findByIdForRequest attachmentId requestId d =
     find (\<lambda>a. at_id a = attachmentId \<and> at_request_id a = requestId) (attachments d)"

text \<open>The two guarded updates throw (\<open>None\<close>) when no row is affected.\<close>

definition markUnparsed :: "uuid \<Rightarrow> parse_failure \<Rightarrow> db \<Rightarrow> db option" where
  "markUnparsed i reason d =
     (let P = (\<lambda>a. at_id a = i) in
      if affected P (attachments d) = 0 then None
      else Some (update_attachments P (\<lambda>a. a\<lparr>parse_status := Unparsed, parse_error_reason := Some reason\<rparr>) d))"

definition markManualPaste :: "uuid \<Rightarrow> string \<Rightarrow> db \<Rightarrow> db option" where
  "markManualPaste i text d =
     (let P = (\<lambda>a. at_id a = i) in
      if affected P (attachments d) = 0 then None
      else Some (update_attachments P (\<lambda>a. a\<lparr>parse_status := Manual_Paste, pasted_text := Some text,
        parse_error_reason := None, parsed_text := None\<rparr>) d))"

section \<open>Text extraction\<close>

definition MAX_PARSED_TEXT_CHARS :: nat where
  "MAX_PARSED_TEXT_CHARS = 1000000"

text \<open>
  \<open>path.extname\<close>: from the last dot of the last path component, unless that is its first character (or
  there is none, or the component is \<open>..\<close>); slashes at the end are ignored.
\<close>

definition file_base :: "string \<Rightarrow> string" where
  "file_base name = rev (takeWhile (\<lambda>c. c \<noteq> CHR ''/'') (dropWhile (\<lambda>c. c = CHR ''/'') (rev name)))"

definition extname :: "string \<Rightarrow> string" where
  "extname name =
     (let b = file_base name; suffix = rev (takeWhile (\<lambda>c. c \<noteq> CHR ''.'') (rev b)) in
      if length b \<le> length suffix + 1 \<or> b = ''..'' then [] else CHR ''.'' # suffix)"

definition lower_case :: "string \<Rightarrow> string" where
  "lower_case = map (\<lambda>c. let n = of_char c :: nat in if 65 \<le> n \<and> n \<le> 90 then char_of (n + 32) else c)"

text \<open>\<open>pdf\<close>: the PDF reader, \<open>None\<close> when it throws. The two failures are told apart by the node.\<close>

definition extractText :: "(string \<Rightarrow> string option) \<Rightarrow> string \<Rightarrow> string \<Rightarrow> parse_failure + string" where
  "extractText pdf bytes name =
     (let ext = lower_case (extname name);
          text = (if ext = ''.txt'' \<or> ext = ''.csv'' then Inr bytes
                  else if ext = ''.pdf'' then (case pdf bytes of Some t \<Rightarrow> Inr t | None \<Rightarrow> Inl Pf_Unknown)
                  else Inl Pf_Unsupported_Format)
      in case text of Inl f \<Rightarrow> Inl f
         | Inr t \<Rightarrow> Inr (if MAX_PARSED_TEXT_CHARS < length t then take MAX_PARSED_TEXT_CHARS t else t))"

section \<open>The node\<close>

record parse_env =
  ps_store :: "string \<Rightarrow> string option"
  ps_pdf :: "string \<Rightarrow> string option"

fun stage_reason :: "parse_failure \<Rightarrow> stage_error_reason" where
  "stage_reason Pf_Corrupt = Corrupt" | "stage_reason Pf_No_Text_Layer = No_Text_Layer"
| "stage_reason Pf_Unsupported_Format = Unsupported_Format" | "stage_reason Pf_Size_Limit_Exceeded = Size_Limit_Exceeded"
| "stage_reason Pf_Unknown = Unknown_Error"

definition read_attachment :: "parse_env \<Rightarrow> attachment \<Rightarrow> parse_failure + string" where
  "read_attachment e a =
     (case ps_store e (storage_url a) of None \<Rightarrow> Inl Pf_Unknown | Some bytes \<Rightarrow> extractText (ps_pdf e) bytes (filename a))"

definition parsed_attachment :: "string \<Rightarrow> attachment \<Rightarrow> attachment" where
  "parsed_attachment t a = a\<lparr>parsed_text := Some t, parse_status := Parsed, parse_error_reason := None\<rparr>"

text \<open>The loop over the attachments; a failure ends it with the outcome of the node.\<close>

fun parse_attachments :: "parse_env \<Rightarrow> uuid \<Rightarrow> uuid \<Rightarrow> attachment list \<Rightarrow> db \<Rightarrow> node_outcome \<times> db" where
  "parse_attachments e requestId orgId [] d = (Returned (Advance Extract), d)"
| "parse_attachments e requestId orgId (a # as) d =
     (if parse_status a = Manual_Paste then parse_attachments e requestId orgId as d
      else
        (case read_attachment e a of
           Inl reason \<Rightarrow>
             (case markUnparsed (at_id a) reason d of
                None \<Rightarrow> (Threw Other_Error, d)
              | Some d \<Rightarrow> (Returned Clarify, emitStageError orgId requestId Parse (stage_reason reason) d))
         | Inr t \<Rightarrow> parse_attachments e requestId orgId as (update_attachments (\<lambda>x. at_id x = at_id a) (parsed_attachment t) d)))"

definition attachments_of :: "uuid \<Rightarrow> db \<Rightarrow> attachment list" where
  "attachments_of requestId d = filter (\<lambda>a. at_request_id a = requestId) (attachments d)"

definition parse_node :: "parse_env \<Rightarrow> uuid \<Rightarrow> uuid \<Rightarrow> db \<Rightarrow> node_outcome \<times> db" where
  "parse_node e requestId orgId d =
     (if \<not> request_in_org requestId orgId d then (Returned Node_Failed, d)
      else parse_attachments e requestId orgId (attachments_of requestId d) d)"

section \<open>Pasting\<close>

datatype paste_error = Paste_Request_Not_Found | Paste_Conflict | Paste_Attachment_Not_Found

text \<open>
  \<open>Inr d\<close>: the text is stored, the request continues at the extract node, and a run is enqueued.
  \<open>caller\<close>: the organisation of the authenticated user, absent without authentication.
\<close>

definition paste :: "uuid option \<Rightarrow> uuid \<Rightarrow> uuid \<Rightarrow> string \<Rightarrow> db \<Rightarrow> paste_error + db" where
  "paste caller requestId attachmentId content d =
     (case find_request requestId d of
        None \<Rightarrow> Inl Paste_Request_Not_Found
      | Some req \<Rightarrow>
          if (case caller of Some i \<Rightarrow> i \<noteq> [] \<and> r_org_id req \<noteq> i | None \<Rightarrow> False) then Inl Paste_Request_Not_Found
          else if status req = St_Parsing then Inl Paste_Conflict
          else if findByIdForRequest attachmentId requestId d = None then Inl Paste_Attachment_Not_Found
          else
            (case markManualPaste attachmentId content d of
               None \<Rightarrow> Inl Paste_Attachment_Not_Found
             | Some d \<Rightarrow> Inr (setCurrentNode requestId Extract d)))"

section \<open>Facts\<close>

lemma update_attachments_fields [simp]:
  "requests (update_attachments P f d) = requests d" "clock (update_attachments P f d) = clock d"
  "events (update_attachments P f d) = events d" "line_items (update_attachments P f d) = line_items d"
  "attachments (update_attachments P f d) = update_where P f (attachments d)"
  by (simp_all add: update_attachments_def)

lemma markUnparsed_fields:
  "markUnparsed i why d = Some d' \<Longrightarrow> requests d' = requests d \<and> clock d' = clock d \<and> events d' = events d"
  by (auto simp: markUnparsed_def Let_def split: if_splits)

lemma parse_attachments_requests:
  "parse_attachments e r orgId as d = (out, d') \<Longrightarrow> requests d' = requests d \<and> clock d' = clock d"
  by (induction as arbitrary: d) (auto dest!: markUnparsed_fields split: if_splits sum.splits option.splits)

lemma extractText_bound: "extractText pdf b name = Inr t \<Longrightarrow> length t \<le> MAX_PARSED_TEXT_CHARS"
  by (auto simp: extractText_def Let_def split: sum.splits if_splits option.splits)

text \<open>
  What the loop leaves: attachments whose text was pasted are untouched, the ones read before a failure are
  parsed, and a failure marks its attachment.
\<close>

definition parse_result :: "parse_env \<Rightarrow> attachment \<Rightarrow> attachment" where
  "parse_result e a =
     (if parse_status a = Manual_Paste then a
      else (case read_attachment e a of Inl why \<Rightarrow> a\<lparr>parse_status := Unparsed, parse_error_reason := Some why\<rparr> | Inr t \<Rightarrow> parsed_attachment t a))"

definition readable :: "parse_env \<Rightarrow> attachment \<Rightarrow> bool" where
  "readable e a \<longleftrightarrow> parse_status a = Manual_Paste \<or> (\<exists>t. read_attachment e a = Inr t)"

end
