(* ===== verification/Extraction_Json.thy ===== *)
theory Extraction_Json
  imports Extraction_Schema Js_Text
begin

text \<open>
  The rest of \<open>extraction/schemas/extraction-v1.schema.ts\<close>: the legacy catalogue extraction, the union of the
  three kinds, and the document that is stored of an accepted extraction, which the later nodes parse again.
\<close>

section \<open>The legacy extraction\<close>

record extraction_line_item =
  xl_position :: int
  xl_raw_text :: string
  xl_quantity :: rat
  xl_unit :: string

record legacy_extraction =
  lx_company :: "string option"
  lx_contact :: "string option"
  lx_sender_address :: "string option"
  lx_sender_email :: "string option"
  lx_delivery_date :: "string option"
  lx_line_items :: "extraction_line_item list"

definition UNKNOWN_FIELD :: string where
  "UNKNOWN_FIELD = ''UNKNOWN''"

text \<open>
  The calendar check goes through \<open>Date.UTC\<close>, which reads the years 0 to 99 as 1900 to 1999, so that a date
  in them does not read back.
\<close>

definition leap_year :: "int \<Rightarrow> bool" where
  "leap_year y \<longleftrightarrow> y mod 4 = 0 \<and> (y mod 100 \<noteq> 0 \<or> y mod 400 = 0)"

definition days_in_month :: "int \<Rightarrow> int \<Rightarrow> int" where
  "days_in_month y m = (if m = 2 then (if leap_year y then 29 else 28) else if m \<in> {4, 6, 9, 11} then 30 else 31)"

definition isValidIsoDate :: "string \<Rightarrow> bool" where
  "isValidIsoDate s \<longleftrightarrow>
     (let y = digits_val 10 (take 4 s); m = digits_val 10 (take 2 (drop 5 s)); d = digits_val 10 (take 2 (drop 8 s)) in
      100 \<le> y \<and> 1 \<le> m \<and> m \<le> 12 \<and> 1 \<le> d \<and> d \<le> days_in_month y m)"

text \<open>The pattern of four, two and two digits separated by dashes.\<close>

definition iso_shape :: "string \<Rightarrow> bool" where
  "iso_shape s \<longleftrightarrow> length s = 10 \<and> s ! 4 = CHR ''-'' \<and> s ! 7 = CHR ''-'' \<and>
     list_all is_digit (take 4 s) \<and> list_all is_digit (take 2 (drop 5 s)) \<and> list_all is_digit (drop 8 s)"

definition ExtractionLineItemSchema :: "extraction_line_item schema" where
  "ExtractionLineItemSchema v = do {
     ob \<leftarrow> z_object v;
     p \<leftarrow> z_positive_int (field ''position'' ob);
     r \<leftarrow> z_nonempty_string (field ''raw_text'' ob);
     q \<leftarrow> z_positive (field ''quantity'' ob);
     u \<leftarrow> z_nonempty_string (field ''unit'' ob);
     Some \<lparr>xl_position = p, xl_raw_text = r, xl_quantity = q, xl_unit = u\<rparr> }"

definition nullableExtractionField :: "string option schema" where
  "nullableExtractionField v =
     z_nullable z_nonempty_string (if v = Some (JStr UNKNOWN_FIELD) then Some JNull else v)"

definition optionalNullableExtractionField :: "string option schema" where
  "optionalNullableExtractionField v =
     z_nullable z_nonempty_string (if v = Some (JStr UNKNOWN_FIELD) \<or> v = None then Some JNull else v)"

definition LegacyExtractionV1Schema :: "(string \<Rightarrow> bool) \<Rightarrow> legacy_extraction schema" where
  "LegacyExtractionV1Schema is_email v = do {
     ob \<leftarrow> z_object v;
     co \<leftarrow> nullableExtractionField (field ''company'' ob);
     ct \<leftarrow> nullableExtractionField (field ''contact'' ob);
     ad \<leftarrow> optionalNullableExtractionField (field ''sender_address'' ob);
     em \<leftarrow> z_nullable (z_refine z_string is_email) (field ''sender_email'' ob);
     dd \<leftarrow> z_nullable (z_refine z_string (\<lambda>s. iso_shape s \<and> isValidIsoDate s)) (field ''delivery_date'' ob);
     ls \<leftarrow> z_refine (z_array ExtractionLineItemSchema) (\<lambda>xs. xs \<noteq> []) (field ''line_items'' ob);
     Some \<lparr>lx_company = co, lx_contact = ct, lx_sender_address = ad, lx_sender_email = em,
       lx_delivery_date = dd, lx_line_items = ls\<rparr> }"

datatype extraction =
    Ex_Avac avac_extraction
  | Ex_Caixilharia caixilharia_extraction
  | Ex_Legacy legacy_extraction

definition ExtractionV1Schema :: "(string \<Rightarrow> bool) \<Rightarrow> extraction schema" where
  "ExtractionV1Schema is_email v =
     (case AvacExtractionV1Schema is_email v of
        Some e \<Rightarrow> Some (Ex_Avac e)
      | None \<Rightarrow> (case CaixilhariaExtractionV1Schema is_email v of
          Some e \<Rightarrow> Some (Ex_Caixilharia e)
        | None \<Rightarrow> map_option Ex_Legacy (LegacyExtractionV1Schema is_email v)))"

section \<open>The stored document\<close>

text \<open>What \<open>raw_json: extracted\<close> stores: the parsed value, with the declared keys only.\<close>

definition nullable_json :: "('a \<Rightarrow> json) \<Rightarrow> 'a option \<Rightarrow> json" where
  "nullable_json enc v = (case v of Some x \<Rightarrow> enc x | None \<Rightarrow> JNull)"

definition int_json :: "int \<Rightarrow> json" where
  "int_json n = JNum (of_int n)"

definition array_json :: "('a \<Rightarrow> json) \<Rightarrow> 'a list \<Rightarrow> json" where
  "array_json enc xs = JArr (map enc xs)"

abbreviation "text_json \<equiv> nullable_json JStr"
abbreviation "number_json \<equiv> nullable_json JNum"
abbreviation "bool_json \<equiv> nullable_json JBool"

definition customer_json :: "customer \<Rightarrow> json" where
  "customer_json c = JObj [(''name'', text_json (cu_name c)), (''email'', text_json (cu_email c)),
     (''phone'', text_json (cu_phone c)), (''address'', text_json (cu_address c))]"

definition area_json :: "avac_area \<Rightarrow> json" where
  "area_json a = JObj [(''room'', JStr (room a)), (''area_m2'', number_json (area_m2 a))]"

definition avac_facts_json :: "avac_facts \<Rightarrow> json" where
  "avac_facts_json f = JObj [(''system_type'', text_json (system_type f)), (''brand_preference'', text_json (brand_preference f)),
     (''areas'', array_json area_json (areas f)), (''indoor_units_requested'', nullable_json int_json (indoor_units_requested f)),
     (''pipe_length_m'', number_json (pipe_length_m f)), (''install_height_m'', number_json (install_height_m f)),
     (''wall_type'', text_json (wall_type f)), (''outdoor_unit_distance_m'', number_json (outdoor_unit_distance_m f)),
     (''needs_electrical_panel'', bool_json (needs_electrical_panel f)), (''distance_km'', number_json (av_distance_km f)),
     (''install_type'', text_json (install_type f)), (''notes'', JStr (av_notes f))]"

definition opening_json :: "caix_opening \<Rightarrow> json" where
  "opening_json p = JObj [(''ref'', JStr (op_ref p)), (''location'', text_json (location p)),
     (''width_mm'', nullable_json int_json (width_mm p)), (''height_mm'', nullable_json int_json (height_mm p)),
     (''opening_type'', nullable_json (\<lambda>t. JStr (opening_type_text t)) (op_type p)),
     (''profile_preference'', text_json (profile_preference p)), (''glass_preference'', text_json (glass_preference p)),
     (''finish'', text_json (finish p)), (''hardware'', text_json (hardware p)), (''blind'', bool_json (blind p)),
     (''insect_screen'', bool_json (insect_screen p)), (''quantity'', int_json (op_quantity p))]"

definition caixilharia_facts_json :: "caixilharia_facts \<Rightarrow> json" where
  "caixilharia_facts_json f = JObj [(''openings'', array_json opening_json (openings f)),
     (''remove_existing'', bool_json (remove_existing f)), (''floor'', nullable_json int_json (floor_no f)),
     (''distance_km'', number_json (cx_distance_km f)), (''notes'', JStr (cx_notes f))]"

definition vertical_json :: "string \<Rightarrow> ('f \<Rightarrow> json) \<Rightarrow> 'f vertical_extraction \<Rightarrow> json" where
  "vertical_json v enc e = JObj [(''vertical'', JStr v), (''customer'', customer_json (customer e)), (v, enc (facts e)),
     (''missing_info'', array_json JStr (missing_info e)), (''confidence'', JStr (confidence e))]"

definition line_item_json :: "extraction_line_item \<Rightarrow> json" where
  "line_item_json l = JObj [(''position'', int_json (xl_position l)), (''raw_text'', JStr (xl_raw_text l)),
     (''quantity'', JNum (xl_quantity l)), (''unit'', JStr (xl_unit l))]"

definition legacy_json :: "legacy_extraction \<Rightarrow> json" where
  "legacy_json e = JObj [(''company'', text_json (lx_company e)), (''contact'', text_json (lx_contact e)),
     (''sender_address'', text_json (lx_sender_address e)), (''sender_email'', text_json (lx_sender_email e)),
     (''delivery_date'', text_json (lx_delivery_date e)), (''line_items'', array_json line_item_json (lx_line_items e))]"

fun extraction_json :: "extraction \<Rightarrow> json" where
  "extraction_json (Ex_Avac e) = vertical_json ''avac'' avac_facts_json e"
| "extraction_json (Ex_Caixilharia e) = vertical_json ''caixilharia'' caixilharia_facts_json e"
| "extraction_json (Ex_Legacy e) = legacy_json e"

section \<open>Reading it back\<close>

text \<open>A schema reads back what an encoder writes of the values it accepts.\<close>

definition reads_back :: "'a schema \<Rightarrow> ('a \<Rightarrow> json) \<Rightarrow> bool" where
  "reads_back s enc \<longleftrightarrow> (\<forall>v x. s v = Some x \<longrightarrow> s (Some (enc x)) = Some x \<and> enc x \<noteq> JNull)"

named_theorems read_back \<open>schemas and the encoders they read back\<close>

lemma reads_backD: "reads_back s enc \<Longrightarrow> s v = Some x \<Longrightarrow> s (Some (enc x)) = Some x"
  by (auto simp: reads_back_def)

lemma reads_back_nullable: "reads_back s enc \<Longrightarrow> z_nullable s v = Some y \<Longrightarrow> z_nullable s (Some (nullable_json enc y)) = Some y"
  by (cases y) (auto simp: z_nullable_def nullable_json_def reads_back_def split: if_splits)

lemma map_of_same: "map_of (map (\<lambda>s. (s, s)) ts) s = (if s \<in> set ts then Some s else None)"
  by (induction ts) auto

lemma reads_back_strings [read_back]:
  "reads_back z_string JStr" "reads_back z_nonempty_string JStr" "reads_back (z_refine z_string P) JStr"
  "reads_back (z_one_of ss) JStr" "reads_back confidence_schema JStr"
proof -
  have strg: "z_string v = Some x \<longleftrightarrow> v = Some (JStr x)" for v x by (cases v rule: z_string.cases) auto
  have one: "reads_back (z_one_of ts) JStr" for ts
    by (auto simp: reads_back_def z_one_of_def z_enum_def bind_eq_Some_conv map_of_same strg split: if_splits)
  show "reads_back z_string JStr" "reads_back z_nonempty_string JStr" "reads_back (z_refine z_string P) JStr"
    by (auto simp: reads_back_def schema_simps strg)
  show "reads_back (z_one_of ss) JStr" "reads_back confidence_schema JStr" by (simp_all add: one confidence_schema_def)
qed

lemma reads_back_numbers [read_back]:
  "reads_back z_positive JNum" "reads_back z_nonnegative JNum" "reads_back z_boolean JBool"
  "reads_back z_positive_int int_json" "reads_back z_nonneg_int int_json"
proof -
  have bool: "z_boolean v = Some x \<longleftrightarrow> v = Some (JBool x)" for v x by (cases v rule: z_boolean.cases) auto
  show "reads_back z_positive JNum" "reads_back z_nonnegative JNum" "reads_back z_boolean JBool"
    "reads_back z_positive_int int_json" "reads_back z_nonneg_int int_json"
    by (auto simp: reads_back_def schema_simps bool int_json_def)
qed

lemma reads_back_opening_type [read_back]: "reads_back OpeningTypeSchema (\<lambda>t. JStr (opening_type_text t))"
  unfolding reads_back_def
proof (intro allI impI conjI)
  fix v t
  show "OpeningTypeSchema (Some (JStr (opening_type_text t))) = Some t"
    by (cases t) (simp_all add: OpeningTypeSchema_def z_enum_def opening_type_options_def opening_type_text_def)
qed simp

lemma reads_back_array [read_back]:
  assumes "reads_back s enc"
  shows "reads_back (z_array s) (array_json enc)" "reads_back (z_refine (z_array s) P) (array_json enc)"
proof -
  have "those (map (\<lambda>v. s (Some v)) (map enc xs)) = Some xs" if "those (map (\<lambda>v. s (Some v)) vs) = Some xs" for vs xs
    using that
  proof (induction vs arbitrary: xs)
    case (Cons v vs)
    then show ?case using assms by (auto simp: reads_back_def split: option.splits)
  qed simp
  then have "z_array s (Some (array_json enc xs)) = Some xs" if "z_array s v = Some xs" for v xs
    using that by (cases "(s, v)" rule: z_array.cases) (auto simp: array_json_def simp del: map_map)
  then show "reads_back (z_array s) (array_json enc)" "reads_back (z_refine (z_array s) P) (array_json enc)"
    by (auto simp: reads_back_def z_refine_Some array_json_def)
qed


lemma field_JObj: "field k (JObj ((k', v) # fs)) = (if k = k' then Some v else field k (JObj fs))"
  by (simp add: field_def)

lemma reads_backI:
  "(\<And>v x. s v = Some x \<Longrightarrow> s (Some (enc x)) = Some x) \<Longrightarrow> (\<And>x. enc x \<noteq> JNull) \<Longrightarrow> reads_back s enc"
  by (auto simp: reads_back_def)

lemma reads_back_customer [read_back]: "reads_back (CustomerSchema is_email) customer_json"
  by (rule reads_backI)
    (auto simp: CustomerSchema_def customer_json_def bind_eq_Some_conv field_JObj read_back [THEN reads_back_nullable])

lemma reads_back_area [read_back]: "reads_back AvacAreaSchema area_json"
  by (rule reads_backI)
    (auto simp: AvacAreaSchema_def area_json_def bind_eq_Some_conv field_JObj read_back [THEN reads_back_nullable]
      read_back read_back [THEN reads_backD])

lemma reads_back_avac_facts [read_back]: "reads_back AvacFactsSchema avac_facts_json"
  by (rule reads_backI)
    (auto simp: AvacFactsSchema_def avac_facts_json_def bind_eq_Some_conv field_JObj read_back [THEN reads_back_nullable]
      read_back read_back [THEN reads_backD])

lemma reads_back_opening [read_back]: "reads_back CaixilhariaOpeningSchema opening_json"
  by (rule reads_backI)
    (auto simp: CaixilhariaOpeningSchema_def opening_json_def bind_eq_Some_conv field_JObj
      read_back [THEN reads_back_nullable] read_back read_back [THEN reads_backD])

lemma reads_back_literal: "z_literal l (Some (JStr l)) = Some ()"
  by (simp add: z_literal_def z_enum_def)

lemma reads_back_avac [read_back]: "reads_back (AvacExtractionV1Schema is_email) (vertical_json ''avac'' avac_facts_json)"
  by (rule reads_backI)
    (auto simp: AvacExtractionV1Schema_def vertical_json_def bind_eq_Some_conv field_JObj reads_back_literal
      read_back read_back [THEN reads_backD])

lemma reads_back_caixilharia [read_back]:
  "reads_back (CaixilhariaExtractionV1Schema is_email) (vertical_json ''caixilharia'' caixilharia_facts_json)"
  by (rule reads_backI)
    (auto simp: CaixilhariaExtractionV1Schema_def vertical_json_def caixilharia_facts_json_def bind_eq_Some_conv
      field_JObj reads_back_literal read_back read_back [THEN reads_backD] read_back [THEN reads_back_nullable])

lemma reads_back_line_item [read_back]: "reads_back ExtractionLineItemSchema line_item_json"
  by (rule reads_backI)
    (auto simp: ExtractionLineItemSchema_def line_item_json_def bind_eq_Some_conv field_JObj read_back read_back [THEN reads_backD])

lemma nullableExtractionField_back:
  "nullableExtractionField v = Some y \<Longrightarrow> nullableExtractionField (Some (text_json y)) = Some y"
  "optionalNullableExtractionField v = Some y \<Longrightarrow> optionalNullableExtractionField (Some (text_json y)) = Some y"
  by (cases y; auto simp: nullableExtractionField_def optionalNullableExtractionField_def z_nullable_def
      nullable_json_def schema_simps split: if_splits)+

lemma reads_back_legacy [read_back]: "reads_back (LegacyExtractionV1Schema is_email) legacy_json"
  by (rule reads_backI)
    (auto simp: LegacyExtractionV1Schema_def legacy_json_def bind_eq_Some_conv field_JObj nullableExtractionField_back
      read_back read_back [THEN reads_backD] read_back [THEN reads_back_nullable])

text \<open>The literal \<open>vertical\<close> keeps the three kinds apart.\<close>

lemma other_vertical:
  "v \<noteq> ''avac'' \<Longrightarrow> AvacExtractionV1Schema is_email (Some (vertical_json v enc e)) = None"
  "v \<noteq> ''caixilharia'' \<Longrightarrow> CaixilhariaExtractionV1Schema is_email (Some (vertical_json v enc e)) = None"
  "AvacExtractionV1Schema is_email (Some (legacy_json l)) = None"
  "CaixilhariaExtractionV1Schema is_email (Some (legacy_json l)) = None"
  by (simp_all add: AvacExtractionV1Schema_def CaixilhariaExtractionV1Schema_def vertical_json_def legacy_json_def
      field_JObj z_literal_def z_enum_def field_def)

lemma extraction_back:
  "ExtractionV1Schema is_email v = Some x \<Longrightarrow> ExtractionV1Schema is_email (Some (extraction_json x)) = Some x"
  by (cases x; auto simp: ExtractionV1Schema_def other_vertical read_back [THEN reads_backD] split: option.splits)

text \<open>
  C18. Every extraction the union of the schemas accepts is stored as a document that reads back to the same
  extraction, and the schema of each vertical, with which the pricing reads the stored document, accepts it
  exactly when it is of that vertical.
\<close>

theorem stored_extraction_reads_back:
  assumes "ExtractionV1Schema is_email v = Some x"
  shows "ExtractionV1Schema is_email (Some (extraction_json x)) = Some x \<and>
    AvacExtractionV1Schema is_email (Some (extraction_json x)) = (case x of Ex_Avac e \<Rightarrow> Some e | _ \<Rightarrow> None) \<and>
    CaixilhariaExtractionV1Schema is_email (Some (extraction_json x)) =
      (case x of Ex_Caixilharia e \<Rightarrow> Some e | _ \<Rightarrow> None)"
  using assms
  by (cases x; auto simp: ExtractionV1Schema_def other_vertical read_back [THEN reads_backD] split: option.splits)+

text \<open>A document with an unknown key and the legacy sentinel.\<close>

theorem stored_extraction_reads_back_witness:
  "\<exists>x. ExtractionV1Schema (\<lambda>_. False) (Some (JObj [(''company'', JStr ''UNKNOWN''), (''contact'', JStr ''Jane''),
     (''sender_email'', JNull), (''delivery_date'', JStr ''2024-02-29''), (''extra'', JBool True),
     (''line_items'', JArr [JObj [(''position'', JNum 1), (''raw_text'', JStr ''Widget''), (''quantity'', JNum 10),
       (''unit'', JStr ''pcs'')]])])) = Some x \<and>
     ExtractionV1Schema (\<lambda>_. False) (Some (extraction_json x)) = Some x \<and>
     AvacExtractionV1Schema (\<lambda>_. False) (Some (extraction_json x)) = None"
proof -
  let ?d = "Some (JObj [(''company'', JStr ''UNKNOWN''), (''contact'', JStr ''Jane''),
     (''sender_email'', JNull), (''delivery_date'', JStr ''2024-02-29''), (''extra'', JBool True),
     (''line_items'', JArr [JObj [(''position'', JNum 1), (''raw_text'', JStr ''Widget''), (''quantity'', JNum 10),
       (''unit'', JStr ''pcs'')]])])"
  let ?x = "Ex_Legacy \<lparr>lx_company = None, lx_contact = Some ''Jane'', lx_sender_address = None, lx_sender_email = None,
    lx_delivery_date = Some ''2024-02-29'', lx_line_items = [\<lparr>xl_position = 1, xl_raw_text = ''Widget'', xl_quantity = 10, xl_unit = ''pcs''\<rparr>]\<rparr>"
  have x: "ExtractionV1Schema (\<lambda>_. False) ?d = Some ?x" by code_simp
  from x stored_extraction_reads_back [OF x] show ?thesis by (intro exI [of _ ?x]) simp
qed

end
