(* ===== verification/Reconcile.thy ===== *)
theory Reconcile
  imports Extraction_Json
begin

text \<open>
  The reconciliation of an extraction with the text it was made of (\<open>extraction/reconcile.ts\<close>): stated counts
  and totals of a catalogue request, and for the verticals every number and every room of the extraction, which
  must occur in the text.
\<close>

section \<open>The checks\<close>

definition QUANTITY_TOLERANCE :: rat where
  "QUANTITY_TOLERANCE = 1 / 100"

datatype reconcile_result = Supported | Unsupported string

text \<open>The number with the decimal point and with a decimal comma, between characters that are not digits.\<close>

definition decimal_comma :: "string \<Rightarrow> string" where
  "decimal_comma t = takeWhile (\<lambda>c. c \<noteq> CHR ''.'') t @
     (case dropWhile (\<lambda>c. c \<noteq> CHR ''.'') t of [] \<Rightarrow> [] | _ # r \<Rightarrow> CHR '','' # r)"

definition non_digit :: rx where
  "non_digit = Cls (\<lambda>c. \<not> is_digit c)"

definition number_pattern :: "rat \<Rightarrow> rx" where
  "number_pattern n = (let t = number_text n in
     cats [Alt Start_Of_Text non_digit, Alt (lit t) (lit (decimal_comma t)), Look (Alt non_digit End_Of_Text)])"

definition sourceContainsNumber :: "string \<Rightarrow> rat \<Rightarrow> bool" where
  "sourceContainsNumber src n = rx_test (number_pattern n) src"

text \<open>The first pattern whose group reads as a positive number.\<close>

fun first_stated :: "(string \<Rightarrow> rat option) \<Rightarrow> rx list \<Rightarrow> string \<Rightarrow> rat option" where
  "first_stated val [] src = None"
| "first_stated val (p # ps) src =
     (case Option.bind (rx_group p src) (\<lambda>m. if m = [] then None else val m) of
        Some n \<Rightarrow> if 0 < n then Some n else first_stated val ps src
      | None \<Rightarrow> first_stated val ps src)"

definition items_word :: rx where
  "items_word = cats [lit_i ''item'', Opt (lit_i ''s''), Word_Boundary]"

definition item_count_patterns :: "rx list" where
  "item_count_patterns =
     [cats [Word_Boundary, Cap digits, spaces, lit_i ''line'', spaces, items_word],
      cats [Word_Boundary, lit_i ''total'', spaces, Opt (cats [lit_i ''of'', spaces]), Cap digits, spaces, items_word],
      cats [Word_Boundary, Cap digits, spaces, lit_i ''item'', Opt (lit_i ''s''), spaces, lit_i ''total'', Word_Boundary]]"

definition parseStatedItemCount :: "string \<Rightarrow> rat option" where
  "parseStatedItemCount = first_stated (\<lambda>m. Some (of_int (digits_val 10 m))) item_count_patterns"

definition colon_or_space :: rx where
  "colon_or_space = plus (Cls (\<lambda>c. c = CHR '':'' \<or> white_char c))"

definition stated_number :: rx where
  "stated_number = Cap (cats [digits, Opt (cats [lit ''.'', digits])])"

definition total_quantity_patterns :: "rx list" where
  "total_quantity_patterns =
     [cats [Word_Boundary, lit_i ''total'', spaces, alts [lit_i ''qty'', lit_i ''quantity''], colon_or_space, stated_number, Word_Boundary],
      cats [Word_Boundary, lit_i ''total'', spaces, alts [lit_i ''units'', lit_i ''pieces''], colon_or_space, stated_number, Word_Boundary],
      cats [Word_Boundary, lit_i ''grand'', spaces, lit_i ''total'', colon_or_space, stated_number, spaces,
        alts [lit_i ''units'', lit_i ''pcs'', lit_i ''pieces''], Word_Boundary]]"

definition parseStatedTotalQuantity :: "string \<Rightarrow> rat option" where
  "parseStatedTotalQuantity = first_stated decimal total_quantity_patterns"

text \<open>The reasons, in the Portuguese of the source.\<close>

definition unsupported_value :: "string \<times> rat option \<Rightarrow> string" where
  "unsupported_value f = (case f of (name, n) \<Rightarrow>
     ''Valor extra'' @ [CHR 0xED] @ ''do sem suporte no pedido: '' @ name @ ''='' @ number_text (the n))"

text \<open>The facts of a list that the text does not support.\<close>

definition missing_fact :: "string \<Rightarrow> (string \<times> rat option) list \<Rightarrow> (string \<times> rat option) option" where
  "missing_fact src fs = find (\<lambda>(_, n). case n of Some n \<Rightarrow> \<not> sourceContainsNumber src n | None \<Rightarrow> False) fs"

definition check_facts :: "string \<Rightarrow> (string \<times> rat option) list \<Rightarrow> reconcile_result" where
  "check_facts src fs = (case missing_fact src fs of Some f \<Rightarrow> Unsupported (unsupported_value f) | None \<Rightarrow> Supported)"

definition avac_numeric_facts :: "avac_facts \<Rightarrow> (string \<times> rat option) list" where
  "avac_numeric_facts f =
     [(''indoor_units_requested'', map_option of_int (indoor_units_requested f)), (''pipe_length_m'', pipe_length_m f),
      (''install_height_m'', install_height_m f), (''outdoor_unit_distance_m'', outdoor_unit_distance_m f),
      (''distance_km'', av_distance_km f)]"

fun check_areas :: "string \<Rightarrow> avac_area list \<Rightarrow> reconcile_result" where
  "check_areas src [] = Supported"
| "check_areas src (a # as) =
     (if \<not> str_includes src (lower_pt (room a)) then
        Unsupported (''Divis'' @ [CHR 0xE3] @ ''o extra'' @ [CHR 0xED] @ ''da sem suporte no pedido: '' @ room a)
      else case area_m2 a of
          Some n \<Rightarrow> if \<not> sourceContainsNumber src n then
            Unsupported ([CHR 0xC1] @ ''rea extra'' @ [CHR 0xED] @ ''da sem suporte no pedido: '' @ number_text n @ '' m'' @ [CHR 0xB2])
            else check_areas src as
        | None \<Rightarrow> check_areas src as)"

definition reconcileAvac :: "avac_extraction \<Rightarrow> string \<Rightarrow> reconcile_result" where
  "reconcileAvac data sourceText =
     (let normalized = lower_pt sourceText in
      case check_areas normalized (areas (facts data)) of
        Supported \<Rightarrow> check_facts normalized (avac_numeric_facts (facts data))
      | r \<Rightarrow> r)"

definition opening_facts :: "caix_opening \<Rightarrow> (string \<times> rat option) list" where
  "opening_facts p =
     [(op_ref p @ ''.width_mm'', map_option of_int (width_mm p)), (op_ref p @ ''.height_mm'', map_option of_int (height_mm p)),
      (op_ref p @ ''.quantity'', Some (of_int (op_quantity p)))]"

fun check_openings :: "string \<Rightarrow> caix_opening list \<Rightarrow> reconcile_result" where
  "check_openings src [] = Supported"
| "check_openings src (p # ps) =
     (case check_facts src (opening_facts p) of Supported \<Rightarrow> check_openings src ps | r \<Rightarrow> r)"

definition general_facts :: "caixilharia_facts \<Rightarrow> (string \<times> rat option) list" where
  "general_facts f = [(''floor'', map_option of_int (floor_no f)), (''distance_km'', cx_distance_km f)]"

definition reconcileCaixilharia :: "caixilharia_extraction \<Rightarrow> string \<Rightarrow> reconcile_result" where
  "reconcileCaixilharia data sourceText =
     (let normalized = lower_pt sourceText in
      case check_openings normalized (openings (facts data)) of
        Supported \<Rightarrow> check_facts normalized (general_facts (facts data))
      | r \<Rightarrow> r)"

definition check_total :: "string \<Rightarrow> rat \<Rightarrow> reconcile_result" where
  "check_total sourceText extractedTotal =
     (case parseStatedTotalQuantity sourceText of
        Some t \<Rightarrow>
          if QUANTITY_TOLERANCE < \<bar>extractedTotal - t\<bar> then
            Unsupported (''Source total quantity '' @ number_text t @ '' does not match extracted sum '' @ number_text extractedTotal)
          else Supported
      | None \<Rightarrow> Supported)"

definition reconcileLegacy :: "legacy_extraction \<Rightarrow> string \<Rightarrow> reconcile_result" where
  "reconcileLegacy data sourceText =
     (let items = lx_line_items data; n = length items; total_qty = sum_list (map xl_quantity items) in
      case find (\<lambda>l. trim (xl_unit l) = []) items of
        Some l \<Rightarrow> Unsupported (''Line item '' @ int_text (xl_position l) @ '' is missing a unit'')
      | None \<Rightarrow>
          (case parseStatedItemCount sourceText of
             Some c \<Rightarrow>
               if of_nat n \<noteq> c then
                 Unsupported (''Source states '' @ number_text c @ '' items but extraction has '' @ int_text (int n))
               else check_total sourceText total_qty
           | None \<Rightarrow> check_total sourceText total_qty))"

fun reconcile :: "extraction \<Rightarrow> string \<Rightarrow> reconcile_result" where
  "reconcile (Ex_Avac e) sourceText = reconcileAvac e sourceText"
| "reconcile (Ex_Caixilharia e) sourceText = reconcileCaixilharia e sourceText"
| "reconcile (Ex_Legacy e) sourceText = reconcileLegacy e sourceText"

section \<open>What a reconciled extraction is\<close>

text \<open>The text writes the number, with a point or a comma, between characters that are not digits.\<close>

definition states :: "string \<Rightarrow> rat \<Rightarrow> bool" where
  "states src n \<longleftrightarrow> (\<exists>pre w post. src = pre @ w @ post \<and> w \<in> {number_text n, decimal_comma (number_text n)} \<and>
     (pre = [] \<or> \<not> is_digit (last pre)) \<and> (post = [] \<or> \<not> is_digit (hd post)))"

lemma nat_digits_nonempty [simp]: "nat_digits n \<noteq> []"
  by (subst nat_digits.simps) simp

lemma number_text_nonempty [simp]: "number_text n \<noteq> []"
  by (simp add: number_text_def Let_def)

lemma decimal_comma_nonempty: "t \<noteq> [] \<Longrightarrow> decimal_comma t \<noteq> []"
  by (cases t) (auto simp: decimal_comma_def)

lemma after_number: "rx_matches (Look (Alt non_digit End_Of_Text)) (b, s, g) \<noteq> [] \<longleftrightarrow> s = [] \<or> \<not> is_digit (hd s)"
  by (cases s) (auto simp: non_digit_def)

lemma number_at:
  assumes "w \<noteq> []" and "v \<noteq> []"
  shows "rx_matches (Cat (Alt (lit w) (lit v)) (Look (Alt non_digit End_Of_Text))) (b, s, g) \<noteq> [] \<longleftrightarrow>
    (\<exists>u post. u \<in> {w, v} \<and> s = u @ post \<and> (post = [] \<or> \<not> is_digit (hd post)))"
proof -
  have at: "rx_matches (Cat (lit u) (Look (Alt non_digit End_Of_Text))) (b, s, g) \<noteq> [] \<longleftrightarrow>
      (\<exists>post. s = u @ post \<and> (post = [] \<or> \<not> is_digit (hd post)))" if "u \<noteq> []" for u
  proof -
    have "(\<exists>post. s = u @ post \<and> (post = [] \<or> \<not> is_digit (hd post))) \<longleftrightarrow>
        take (length u) s = u \<and> (drop (length u) s = [] \<or> \<not> is_digit (hd (drop (length u) s)))"
      by (metis append_eq_conv_conj append_take_drop_id)
    moreover have "rx_matches (Cat (lit u) q) (b, s, g) =
        (if take (length u) s = u then rx_matches q (Some (last u), drop (length u) s, g) else [])" for q
      by (simp add: rx_matches_lit [OF that])
    ultimately show ?thesis by (simp only: if_distrib [of "\<lambda>x. x \<noteq> []"] after_number) auto
  qed
  have "rx_matches (Cat (Alt (lit w) (lit v)) q) (b, s, g) =
      rx_matches (Cat (lit w) q) (b, s, g) @ rx_matches (Cat (lit v) q) (b, s, g)" for q
    by simp
  then show ?thesis using at [OF assms(1)] at [OF assms(2)] by (simp only: append_is_Nil_conv) blast
qed

lemma sourceContainsNumber_iff: "sourceContainsNumber src n \<longleftrightarrow> states src n"
proof -
  let ?t = "number_text n" and ?tail = "Look (Alt non_digit End_Of_Text)"
  let ?q = "Cat (Alt (lit ?t) (lit (decimal_comma ?t))) ?tail"
  have pattern: "number_pattern n = Cat (Alt Start_Of_Text non_digit) ?q"
    by (simp add: number_pattern_def Let_def cats_def)
  have lead: "rx_matches (Cat (Alt Start_Of_Text non_digit) q) (b, s, None) =
      (if b = None then rx_matches q (b, s, None) else []) @
      (case s of c # cs \<Rightarrow> if is_digit c then [] else rx_matches q (Some c, cs, None) | [] \<Rightarrow> [])" for q b s
    by (cases s; cases b) (simp_all add: non_digit_def)
  have q: "rx_matches ?q (b, s, None) \<noteq> [] \<longleftrightarrow> (\<exists>u post. u \<in> {?t, decimal_comma ?t} \<and> s = u @ post \<and> (post = [] \<or> \<not> is_digit (hd post)))" for b s
    by (rule number_at) (simp_all add: decimal_comma_nonempty)
  show ?thesis
  proof
    assume "sourceContainsNumber src n"
    then obtain pre rest where src: "src = pre @ rest"
      and m: "rx_matches (number_pattern n) (if pre = [] then None else Some (last pre), rest, None) \<noteq> []"
      unfolding sourceContainsNumber_def rx_test_iff by blast
    from m consider "pre = []" "rx_matches ?q (None, rest, None) \<noteq> []"
      | c cs where "rest = c # cs" "\<not> is_digit c" "rx_matches ?q (Some c, cs, None) \<noteq> []"
      unfolding pattern lead by (auto simp del: rx_matches.simps split: if_splits list.splits)
    then show "states src n"
    proof cases
      case 1
      with src show ?thesis unfolding q states_def by (metis append_Nil)
    next
      case (2 c cs)
      then obtain u post where u: "u \<in> {?t, decimal_comma ?t}" "cs = u @ post" "post = [] \<or> \<not> is_digit (hd post)"
        unfolding q by blast
      with src 2 show ?thesis unfolding states_def
        by (intro exI [of _ "pre @ [c]"] exI [of _ u] exI [of _ post]) simp
    qed
  next
    assume "states src n"
    then obtain pre w post where src: "src = pre @ w @ post" and w: "w \<in> {?t, decimal_comma ?t}"
      and pre: "pre = [] \<or> \<not> is_digit (last pre)" and post: "post = [] \<or> \<not> is_digit (hd post)"
      unfolding states_def by blast
    have here: "rx_matches ?q (b, w @ post, None) \<noteq> []" for b unfolding q using w post by blast
    show "sourceContainsNumber src n"
    proof (cases pre rule: rev_cases)
      case Nil
      with src here show ?thesis unfolding sourceContainsNumber_def rx_test_iff pattern lead
        by (intro exI [of _ "[]"] exI [of _ "w @ post"]) (simp del: rx_matches.simps)
    next
      case (snoc pre' c)
      with pre src here [of "Some c"] show ?thesis unfolding sourceContainsNumber_def rx_test_iff pattern lead
        by (intro exI [of _ pre'] exI [of _ "c # w @ post"]) (simp del: rx_matches.simps)
    qed
  qed
qed

lemma check_facts_iff:
  "check_facts src fs = Supported \<longleftrightarrow> (\<forall>x n. (x, Some n) \<in> set fs \<longrightarrow> states src n)"
proof -
  have "check_facts src fs = Supported \<longleftrightarrow> missing_fact src fs = None" by (simp add: check_facts_def split: option.splits)
  also have "\<dots> \<longleftrightarrow> (\<forall>x n. (x, Some n) \<in> set fs \<longrightarrow> states src n)"
    unfolding missing_fact_def find_None_iff sourceContainsNumber_iff by (auto split: option.splits prod.splits)
  finally show ?thesis .
qed

lemma check_areas_iff:
  "check_areas src as = Supported \<longleftrightarrow>
     (\<forall>a \<in> set as. (\<exists>pre post. src = pre @ lower_pt (room a) @ post) \<and> (\<forall>n. area_m2 a = Some n \<longrightarrow> states src n))"
  by (induction as) (auto simp: str_includes_iff sourceContainsNumber_iff split: option.splits)

lemma check_openings_iff:
  "check_openings src ps = Supported \<longleftrightarrow> (\<forall>p \<in> set ps. check_facts src (opening_facts p) = Supported)"
  by (induction ps) (auto split: reconcile_result.splits)

lemma first_stated_positive: "first_stated val ps src = Some n \<Longrightarrow> 0 < n"
  by (induction ps) (auto split: option.splits if_splits)

lemma reconcileLegacy_iff:
  "reconcileLegacy e text = Supported \<longleftrightarrow>
     (\<forall>l \<in> set (lx_line_items e). trim (xl_unit l) \<noteq> []) \<and>
     (\<forall>c. parseStatedItemCount text = Some c \<longrightarrow> c = of_nat (length (lx_line_items e))) \<and>
     (\<forall>t. parseStatedTotalQuantity text = Some t \<longrightarrow> \<bar>sum_list (map xl_quantity (lx_line_items e)) - t\<bar> \<le> 1 / 100)"
proof -
  have tot: "check_total text q = Supported \<longleftrightarrow> (\<forall>t. parseStatedTotalQuantity text = Some t \<longrightarrow> \<bar>q - t\<bar> \<le> 1 / 100)" for q
    by (auto simp: check_total_def QUANTITY_TOLERANCE_def split: option.splits)
  have unit: "find (\<lambda>l. trim (xl_unit l) = []) ls = None \<longleftrightarrow> (\<forall>l \<in> set ls. trim (xl_unit l) \<noteq> [])" for ls
    by (auto simp: find_None_iff)
  show ?thesis unfolding unit [symmetric] tot [symmetric]
    by (auto simp: reconcileLegacy_def Let_def split: option.splits)
qed


definition sample_area :: "string \<Rightarrow> rat \<Rightarrow> extraction" where
  "sample_area r a = Ex_Avac \<lparr>customer = \<lparr>cu_name = None, cu_email = None, cu_phone = None, cu_address = None\<rparr>,
     facts = \<lparr>system_type = None, brand_preference = None, areas = [\<lparr>room = r, area_m2 = Some a\<rparr>],
       indoor_units_requested = None, pipe_length_m = None, install_height_m = None, wall_type = None,
       outdoor_unit_distance_m = None, needs_electrical_panel = None, av_distance_km = None, install_type = None,
       av_notes = []\<rparr>, missing_info = [], confidence = ''low''\<rparr>"


text \<open>
  The digits on either side of the comma count as numbers of their own, so an area of 5 is accepted as well; the
  digits of a longer number do not.
\<close>

lemma decimal_fragment_is_supported:
  "reconcile (sample_area ''sala'' 5) ''Sala de 12,5 m2'' = Supported"
  "reconcile (sample_area ''sala'' 1) ''Sala de 12,5 m2'' \<noteq> Supported"
  by code_simp+

end
