(* ===== verification/Demo_Fixtures.thy ===== *)
theory Demo_Fixtures
  imports Extraction_Json
begin

text \<open>
  The keys-removed mode: the choice of a seed fixture for a text (\<open>common/demo/demo-fixtures.ts\<close>) and the
  extraction replayed from it (\<open>extractFromFixture\<close> of \<open>extraction/tools/extract-request.tool.ts\<close>). The fixtures
  loaded from the seed directory are a parameter.
\<close>

section \<open>Choosing a fixture\<close>

record demo_fixture =
  sampleId :: "string option"
  requestType :: "string option"
  extractedFields :: json
  lineItemTexts :: "string list"
  matchTerms :: "string list"

definition CLEAN_FIXTURE_ID :: string where
  "CLEAN_FIXTURE_ID = ''rfq_01_catalog_clean''"

definition fixture_score :: "string \<Rightarrow> demo_fixture \<Rightarrow> int" where
  "fixture_score haystack f =
     int (length (filter (\<lambda>raw. str_includes haystack (lower_pt raw)) (lineItemTexts f @ matchTerms f)))"

text \<open>The first fixture with the highest score.\<close>

definition best_fixture :: "string \<Rightarrow> demo_fixture list \<Rightarrow> demo_fixture \<times> int" where
  "best_fixture haystack fixtures =
     fold (\<lambda>f (best, s). if s < fixture_score haystack f then (f, fixture_score haystack f) else (best, s))
       fixtures (hd fixtures, - 1)"

definition matchDemoFixture :: "demo_fixture list \<Rightarrow> string \<Rightarrow> demo_fixture option" where
  "matchDemoFixture fixtures text =
     (if fixtures = [] then None
      else
        (let (best, s) = best_fixture (lower_pt text) fixtures in
         if s \<le> 0 then
           Some (case find (\<lambda>f. sampleId f = Some CLEAN_FIXTURE_ID) fixtures of Some f \<Rightarrow> f | None \<Rightarrow> hd fixtures)
         else Some best))"

lemma best_fixture_max:
  assumes "best_fixture h fs = (best, s)"
  shows "\<forall>f \<in> set fs. fixture_score h f \<le> s" and "fs \<noteq> [] \<Longrightarrow> best \<in> set fs \<and> s = fixture_score h best"
proof -
  let ?step = "\<lambda>f (best, s). if s < fixture_score h f then (f, fixture_score h f) else (best, s)"
  have run: "(\<forall>f \<in> set xs. fixture_score h f \<le> s') \<and> s0 \<le> s' \<and>
      (b' \<in> set xs \<and> s' = fixture_score h b' \<or> b' = b0 \<and> s' = s0 \<and> (\<forall>f \<in> set xs. fixture_score h f \<le> s0))"
    if "fold ?step xs (b0, s0) = (b', s')" for xs b0 s0 b' s'
    using that
  proof (induction xs arbitrary: b0 s0)
    case (Cons x xs)
    show ?case
    proof (cases "s0 < fixture_score h x")
      case True
      with Cons.prems have "fold ?step xs (x, fixture_score h x) = (b', s')" by simp
      from Cons.IH [OF this] True show ?thesis by auto
    next
      case False
      with Cons.prems have "fold ?step xs (b0, s0) = (b', s')" by simp
      from Cons.IH [OF this] False show ?thesis by auto
    qed
  qed simp
  have nonneg: "0 \<le> fixture_score h f" for f by (simp add: fixture_score_def)
  from run [OF assms [unfolded best_fixture_def]] show "\<forall>f \<in> set fs. fixture_score h f \<le> s" by blast
  show "best \<in> set fs \<and> s = fixture_score h best" if "fs \<noteq> []"
  proof -
    have "hd fs \<in> set fs" using that by simp
    with run [OF assms [unfolded best_fixture_def]] nonneg [of "hd fs"] show ?thesis by fastforce
  qed
qed

section \<open>Replaying it\<close>

text \<open>\<open>String(x)\<close> and \<open>Number(x)\<close> on a JSON value; \<open>None\<close> is \<open>NaN\<close>.\<close>

fun js_string :: "json \<Rightarrow> string" where
  "js_string JNull = ''null''"
| "js_string (JBool b) = (if b then ''true'' else ''false'')"
| "js_string (JNum x) = number_text x"
| "js_string (JStr s) = s"
| "js_string (JArr vs) =
     (case map (\<lambda>v. if v = JNull then [] else js_string v) vs of [] \<Rightarrow> [] | s # ss \<Rightarrow> concat (s # map (\<lambda>t. CHR '','' # t) ss))"
| "js_string (JObj fs) = ''[object Object]''"

definition text_number :: "string \<Rightarrow> rat option" where
  "text_number s = (if trim s = [] then Some 0 else js_number (trim s))"

definition js_to_number :: "json \<Rightarrow> rat option" where
  "js_to_number v =
     (case v of JNull \<Rightarrow> Some 0 | JBool b \<Rightarrow> Some (of_bool b) | JNum x \<Rightarrow> Some x | _ \<Rightarrow> text_number (js_string v))"

text \<open>\<open>value ?? default\<close>\<close>

definition or_else :: "json option \<Rightarrow> json \<Rightarrow> json" where
  "or_else v d = (case v of Some x \<Rightarrow> if x = JNull then d else x | None \<Rightarrow> d)"

definition text_of :: "json option \<Rightarrow> string" where
  "text_of v = (case v of Some (JStr s) \<Rightarrow> lower_pt s | _ \<Rightarrow> [])"

definition fixtureSenderMatchesText :: "json \<Rightarrow> string \<Rightarrow> bool" where
  "fixtureSenderMatchesText doc text \<longleftrightarrow>
     (let haystack = lower_pt text; email = text_of (field ''sender_email'' doc); company = text_of (field ''sender_company'' doc) in
      email \<noteq> [] \<and> str_includes haystack email \<or> company \<noteq> [] \<and> str_includes haystack company)"

definition supported_customer :: "json \<Rightarrow> string \<Rightarrow> json" where
  "supported_customer cu text =
     JObj (map (\<lambda>k. (k, case field k cu of
         Some (JStr s) \<Rightarrow> if str_includes (lower_pt text) (lower_pt s) then JStr s else JNull
       | _ \<Rightarrow> JNull)) [''name'', ''email'', ''phone'', ''address''])"

definition fixture_item :: "nat \<times> json \<Rightarrow> json" where
  "fixture_item p = (case p of (k, entry) \<Rightarrow>
     JObj [(''position'', case field ''position'' entry of Some (JNum x) \<Rightarrow> JNum x | _ \<Rightarrow> JNum (of_nat (k + 1))),
       (''raw_text'', JStr (js_string (or_else (field ''raw_text'' entry) (JStr [])))),
       (''quantity'', case js_to_number (or_else (field ''quantity'' entry) (JNum 0)) of Some x \<Rightarrow> JNum x | None \<Rightarrow> JNull),
       (''unit'', JStr (js_string (or_else (field ''unit'' entry) (JStr UNKNOWN_FIELD))))])"

definition fixture_document :: "json \<Rightarrow> string \<Rightarrow> json" where
  "fixture_document doc text =
     (if field ''vertical'' doc \<in> {Some (JStr ''avac''), Some (JStr ''caixilharia'')} then
        JObj ((''customer'', supported_customer (or_else (field ''customer'' doc) (JObj [])) text) #
          (case doc of JObj fs \<Rightarrow> fs | _ \<Rightarrow> []))
      else
        (let matches = fixtureSenderMatchesText doc text;
             sender = (\<lambda>k. if matches then or_else (field k doc) JNull else JNull) in
         JObj [(''company'', sender ''sender_company''), (''contact'', sender ''sender_contact''),
           (''sender_address'', sender ''sender_address''), (''sender_email'', sender ''sender_email''),
           (''delivery_date'', sender ''delivery_date''),
           (''line_items'', JArr (map fixture_item (enumerate 0
              (case field ''line_items'' doc of Some (JArr vs) \<Rightarrow> vs | _ \<Rightarrow> []))))]))"

definition extractFromFixture :: "(string \<Rightarrow> bool) \<Rightarrow> demo_fixture list \<Rightarrow> string \<Rightarrow> extraction option" where
  "extractFromFixture is_email fixtures text =
     Option.bind (matchDemoFixture fixtures text)
       (\<lambda>f. ExtractionV1Schema is_email (Some (fixture_document (extractedFields f) text)))"

text \<open>A sender is replayed only if its e-mail or its company occurs in the text.\<close>

lemma demo_sender:
  assumes "extractFromFixture is_email fixtures text = Some (Ex_Legacy e)" and "matchDemoFixture fixtures text = Some f"
    and "\<not> fixtureSenderMatchesText (extractedFields f) text"
    and "field ''vertical'' (extractedFields f) \<notin> {Some (JStr ''avac''), Some (JStr ''caixilharia'')}"
  shows "lx_company e = None \<and> lx_contact e = None \<and> lx_sender_address e = None \<and> lx_sender_email e = None \<and>
    lx_delivery_date e = None"
  using assms
  by (auto simp: extractFromFixture_def fixture_document_def Let_def ExtractionV1Schema_def LegacyExtractionV1Schema_def
      bind_eq_Some_conv field_def nullableExtractionField_def optionalNullableExtractionField_def z_nullable_def
      split: option.splits)

end
