(* ===== verification/Tools.thy ===== *)
theory Tools
  imports Entities
begin

text \<open>
  The tool registry (\<open>tools/registry.ts\<close>) through which the pipeline calls what is not deterministic:
  registration, and the invocation of a tool between its two schemas, with the call log and the events it
  leaves. A tool is given by its contract; whether an audit event or a log row can be written is a parameter.
\<close>

section \<open>Registration\<close>

definition RESERVED_NAMES :: "string list" where
  "RESERVED_NAMES = [''price'', ''policy'', ''score'']"

definition lower_char :: "char \<Rightarrow> char" where
  "lower_char c = (let n = of_char c :: nat in if 65 \<le> n \<and> n \<le> 90 then char_of (n + 32) else c)"

definition lower :: "string \<Rightarrow> string" where
  "lower = map lower_char"

text \<open>\<open>toToolName\<close>: \<open>None\<close> is the exception.\<close>

definition toToolName :: "string \<Rightarrow> string option" where
  "toToolName name = (if lower name \<in> set RESERVED_NAMES then None else Some name)"

record ('a, 'i, 'r, 'o) contract =
  inputSchema :: "'a \<Rightarrow> 'i option"
  execute :: "'i \<Rightarrow> 'r option"
  outputSchema :: "'r \<Rightarrow> 'o option"

text \<open>\<^const>\<open>execute\<close> is \<open>None\<close> when the tool throws.\<close>

type_synonym ('a, 'i, 'r, 'o) tool_registry = "string \<Rightarrow> ('a, 'i, 'r, 'o) contract option"

datatype register_error = Reserved_Tool_Name | Duplicate_Tool

definition register :: "string \<Rightarrow> ('a, 'i, 'r, 'o) contract \<Rightarrow> ('a, 'i, 'r, 'o) tool_registry \<Rightarrow>
    register_error + ('a, 'i, 'r, 'o) tool_registry" where
  "register toolName contract tools =
     (let name = lower toolName in
      if name \<in> set RESERVED_NAMES then Inl Reserved_Tool_Name
      else if tools name \<noteq> None then Inl Duplicate_Tool
      else Inr (tools(name \<mapsto> contract)))"

section \<open>Invocation\<close>

definition TOOL_NODE_MAP :: "(string \<times> current_node) list" where
  "TOOL_NODE_MAP = [(''extract_request'', Extract), (''search_catalog'', Match)]"

text \<open>What a call leaves: an answer, one of the two error results, or an exception of the audit trail.\<close>

datatype 'o tool_answer = Tool_Ok 'o | Tool_Error | Tool_Validation_Error | Tool_Aborted

definition NO_REQUEST :: uuid where
  "NO_REQUEST = ''00000000-0000-0000-0000-000000000000''"

definition insertLog :: "bool \<Rightarrow> string \<Rightarrow> tool_call_status \<Rightarrow> uuid \<Rightarrow> db \<Rightarrow> db" where
  "insertLog log_ok name st rid d =
     (if log_ok then d\<lparr>tool_calls := tool_calls d @ [\<lparr>tc_tool_name = name, tc_status = st, tc_request_id = rid\<rparr>]\<rparr> else d)"

record ('a, 'i, 'r, 'o) call =
  c_contract :: "('a, 'i, 'r, 'o) contract option"
  c_name :: string
  c_request :: uuid
  c_attempt :: int
  c_org :: "uuid option"

definition c_node :: "('a, 'i, 'r, 'o) call \<Rightarrow> current_node option" where
  "c_node c = map_of TOOL_NODE_MAP (c_name c)"

definition emitToolEvent :: "('a, 'i, 'r, 'o) call \<Rightarrow> tool_progress \<Rightarrow> db \<Rightarrow> db" where
  "emitToolEvent c st = emit (c_org c) (Some (c_request c)) None None (Ev_Tool_Invoked (c_node c) (c_name c) st (c_attempt c))"

definition emitToolStageError :: "('a, 'i, 'r, 'o) call \<Rightarrow> stage_error_reason \<Rightarrow> db \<Rightarrow> db" where
  "emitToolStageError c why d =
     (case (c_node c, c_org c) of
        (Some n, Some org) \<Rightarrow> emitStageError org (c_request c) n why d
      | _ \<Rightarrow> d)"

text \<open>How a failed call ends: the log row, the event, which may fail to be written, and the stage error.\<close>

definition fail_call ::
  "(db \<Rightarrow> bool) \<Rightarrow> bool \<Rightarrow> ('a, 'i, 'r, 'o) call \<Rightarrow> tool_call_status \<Rightarrow> stage_error_reason \<Rightarrow> 'o tool_answer \<Rightarrow> db \<Rightarrow> 'o tool_answer \<times> db" where
  "fail_call ok log_ok c st why answer d =
     (let d = insertLog log_ok (c_name c) st (c_request c) d in
      if \<not> ok d then (Tool_Aborted, d)
      else (answer, emitToolStageError c why (emitToolEvent c Tool_Failed d)))"

definition run_call ::
  "(db \<Rightarrow> bool) \<Rightarrow> bool \<Rightarrow> ('a, 'i, 'r, 'o) call \<Rightarrow> 'a \<Rightarrow> db \<Rightarrow> 'o tool_answer \<times> db" where
  "run_call ok log_ok c rawArgs d =
     (if \<not> ok d then (Tool_Aborted, d)
      else
        (let d = emitToolEvent c Tool_Running d in
         case c_contract c of
           None \<Rightarrow> fail_call ok log_ok c Tc_Error Tool_Not_Found Tool_Error d
         | Some contract \<Rightarrow>
             (case inputSchema contract rawArgs of
                None \<Rightarrow> fail_call ok log_ok c Tc_Validation_Error Tool_Input_Invalid Tool_Validation_Error d
              | Some input \<Rightarrow>
                  (case execute contract input of
                     None \<Rightarrow> fail_call ok log_ok c Tc_Error Tool_Execution_Failed Tool_Error d
                   | Some raw \<Rightarrow>
                       (case outputSchema contract raw of
                          None \<Rightarrow> fail_call ok log_ok c Tc_Validation_Error Tool_Output_Invalid Tool_Validation_Error d
                        | Some result \<Rightarrow>
                            (let d = insertLog log_ok (c_name c) Tc_Ok (c_request c) d in
                             if \<not> ok d then (Tool_Aborted, d)
                             else (Tool_Ok result, emitToolEvent c Tool_Success d)))))))"

definition invoke ::
  "(db \<Rightarrow> bool) \<Rightarrow> bool \<Rightarrow> ('a, 'i, 'r, 'o) tool_registry \<Rightarrow> string \<Rightarrow> 'a \<Rightarrow> uuid option \<Rightarrow> int \<Rightarrow> uuid option \<Rightarrow> db \<Rightarrow>
   'o tool_answer \<times> db" where
  "invoke ok log_ok tools toolName rawArgs requestId attempt orgId d =
     (let name = lower toolName in
      run_call ok log_ok
        \<lparr>c_contract = tools name, c_name = name,
         c_request = (case requestId of Some r \<Rightarrow> r | None \<Rightarrow> NO_REQUEST), c_attempt = attempt, c_org = orgId\<rparr> rawArgs d)"

section \<open>Facts\<close>

text \<open>What a call leaves alone: everything but the events and the call log.\<close>

definition tool_frame :: "db \<Rightarrow> db \<Rightarrow> bool" where
  "tool_frame d d' \<longleftrightarrow> (\<exists>cs es. d' = d\<lparr>tool_calls := cs, events := events d @ es\<rparr> \<and>
     (\<forall>e \<in> set es. (\<exists>n t st a. payload e = Ev_Tool_Invoked n t st a) \<or> (\<exists>n why. payload e = Ev_Stage_Error n why)))"

lemma tool_frame_refl [simp]: "tool_frame d d"
  unfolding tool_frame_def by (intro exI [of _ "tool_calls d"] exI [of _ "[]"]) simp

lemma tool_frame_trans:
  assumes "tool_frame d e" and "tool_frame e f"
  shows "tool_frame d f"
proof -
  obtain cs es where e: "e = d\<lparr>tool_calls := cs, events := events d @ es\<rparr>"
    and es: "\<forall>e \<in> set es. (\<exists>n t st a. payload e = Ev_Tool_Invoked n t st a) \<or> (\<exists>n why. payload e = Ev_Stage_Error n why)"
    using assms(1) unfolding tool_frame_def by blast
  obtain cs' fs where f: "f = e\<lparr>tool_calls := cs', events := events e @ fs\<rparr>"
    and fs: "\<forall>e \<in> set fs. (\<exists>n t st a. payload e = Ev_Tool_Invoked n t st a) \<or> (\<exists>n why. payload e = Ev_Stage_Error n why)"
    using assms(2) unfolding tool_frame_def by blast
  show ?thesis unfolding tool_frame_def
    by (intro exI [of _ cs'] exI [of _ "es @ fs"]) (use es fs in \<open>auto simp: e f\<close>)
qed

lemma tool_frame_fields:
  assumes "tool_frame d d'"
  shows "requests d' = requests d" "line_items d' = line_items d" "skus d' = skus d" "quotes d' = quotes d"
    "quote_lines d' = quote_lines d" "pricing_rules d' = pricing_rules d" "extractions d' = extractions d"
    "candidates d' = candidates d" "attachments d' = attachments d" "clarifications d' = clarifications d" "iva_rates d' = iva_rates d" "clock d' = clock d"
  using assms by (auto simp: tool_frame_def)

lemma tool_frameI:
  assumes "d' = d\<lparr>tool_calls := cs, events := events d @ es\<rparr>"
    and "\<And>e. e \<in> set es \<Longrightarrow> (\<exists>n t st a. payload e = Ev_Tool_Invoked n t st a) \<or> (\<exists>n why. payload e = Ev_Stage_Error n why)"
  shows "tool_frame d d'"
  unfolding tool_frame_def using assms by blast

lemma insertLog_frame: "tool_frame d (insertLog log_ok name st rid d)"
  by (rule tool_frameI [where es = "[]" and cs = "tool_calls (insertLog log_ok name st rid d)"]) (simp_all add: insertLog_def)

lemma emitToolEvent_frame: "tool_frame d (emitToolEvent c st d)"
proof (cases "c_org c")
  case None
  then show ?thesis by (simp add: emitToolEvent_def)
next
  case (Some o')
  show ?thesis unfolding tool_frame_def
    by (rule exI [of _ "tool_calls d"]) (auto simp: emitToolEvent_def emit_def Some)
qed

lemma emitToolStageError_frame: "tool_frame d (emitToolStageError c why d)"
proof -
  have "tool_frame d (emit (Some org) (Some r) None None (Ev_Stage_Error n why) d)" for org r n
    unfolding tool_frame_def by (rule exI [of _ "tool_calls d"]) (auto simp: emit_def)
  then show ?thesis by (simp add: emitToolStageError_def emitStageError_def split: option.splits)
qed

lemma fail_call_frame: "tool_frame d (snd (fail_call ok log_ok c st why answer d))"
  unfolding fail_call_def Let_def
  by (auto intro!: insertLog_frame tool_frame_trans [OF insertLog_frame tool_frame_trans [OF emitToolEvent_frame emitToolStageError_frame]])

lemma run_call_frame: "tool_frame d (snd (run_call ok log_ok c args d))"
  unfolding run_call_def Let_def
  by (auto intro!: tool_frame_trans [OF emitToolEvent_frame fail_call_frame]
      tool_frame_trans [OF emitToolEvent_frame tool_frame_trans [OF insertLog_frame emitToolEvent_frame]]
      tool_frame_trans [OF emitToolEvent_frame insertLog_frame] split: option.splits)

lemma invoke_frame: "tool_frame d (snd (invoke ok log_ok tools name args r attempt org d))"
  by (simp add: invoke_def Let_def run_call_frame)

text \<open>The boundary holds: an answer went through both schemas, and was produced by the registered tool.\<close>

lemma fail_call_answer: "fail_call ok log_ok c st why answer d = (a, d') \<Longrightarrow> a = answer \<or> a = Tool_Aborted"
  by (auto simp: fail_call_def Let_def split: if_splits)

lemma invoke_Ok:
  assumes "invoke ok log_ok tools name args r attempt org d = (Tool_Ok result, d')"
  obtains contract input raw where "tools (lower name) = Some contract" and "inputSchema contract args = Some input"
    and "execute contract input = Some raw" and "outputSchema contract raw = Some result"
  using assms
  by (auto simp: invoke_def run_call_def Let_def dest: fail_call_answer split: if_splits option.splits)

lemma invoke_answer:
  assumes "\<And>d. ok d" and "tools (lower name) = Some contract"
  shows "fst (invoke ok log_ok tools name args r attempt org d) =
    (case inputSchema contract args of None \<Rightarrow> Tool_Validation_Error
     | Some input \<Rightarrow> (case execute contract input of None \<Rightarrow> Tool_Error
       | Some raw \<Rightarrow> (case outputSchema contract raw of None \<Rightarrow> Tool_Validation_Error | Some result \<Rightarrow> Tool_Ok result)))"
  using assms by (auto simp: invoke_def run_call_def fail_call_def Let_def split: option.splits)

text \<open>The deterministic stages can never be tools.\<close>

lemma no_reserved_tool:
  assumes "register toolName contract tools = Inr tools'" and "\<forall>n \<in> set RESERVED_NAMES. tools n = None"
  shows "\<forall>n \<in> set RESERVED_NAMES. tools' n = None"
  using assms by (auto simp: register_def Let_def split: if_splits)

end
