(* ===== verification/Extract_Node.thy ===== *)
theory Extract_Node
  imports Reconcile Demo_Fixtures Tools Quote_Store Request_Store
begin

text \<open>
  The extraction stage: the \<open>extract_request\<close> tool (\<open>extraction/tools/extract-request.tool.ts\<close>), the stores it writes (\<open>extraction/extraction.model-action.ts\<close>, \<open>catalog/line-item.model-action.ts\<close>)
  and the node (\<open>extraction/extract.node.ts\<close>) with its loop of at most two attempts. The language model is a
  parameter: any function from the attempt and the prompt to an answer, or to no answer.
\<close>

section \<open>The tool\<close>

definition newline :: string where
  "newline = [CHR 0x0A]"

definition instructions :: string where
  "instructions =
     ''Interpreta este pedido de or'' @ [CHR 0xE7] @ ''amento AVAC ou caixilharia em portugu'' @ [CHR 0xEA] @ ''s de Portugal.'' @ newline @
     ''Transcreve apenas factos presentes no texto. Usa null quando a informa'' @ [CHR 0xE7] @ [CHR 0xE3] @ ''o n'' @ [CHR 0xE3] @ ''o existe e inclui'' @ newline @
     ''os campos em falta em missing_info. Nunca inventes dados.'' @ newline @
     newline @
     ''Escolhe vertical='' @ [CHR 0x22] @ ''avac'' @ [CHR 0x22] @ '' para climatiza'' @ [CHR 0xE7] @ [CHR 0xE3] @ ''o/ar condicionado e vertical='' @ [CHR 0x22] @ ''caixilharia'' @ [CHR 0x22] @ '' para janelas,'' @ newline @
     ''portas, v'' @ [CHR 0xE3] @ ''os, perfis ou vidros. Devolve apenas o objeto do vertical escolhido.'' @ newline @
     newline @
     ''Regra inviol'' @ [CHR 0xE1] @ ''vel: n'' @ [CHR 0xE3] @ ''o calcules pre'' @ [CHR 0xE7] @ ''os, descontos, impostos, margens, '' @ [CHR 0xE1] @ ''reas em m'' @ [CHR 0xB2] @ '', quantidades de'' @ newline @
     ''equipamento, horas ou materiais. Em AVAC, indoor_units_requested s'' @ [CHR 0xF3] @ '' pode conter um n'' @ [CHR 0xFA] @ ''mero'' @ newline @
     ''explicitamente pedido; cada '' @ [CHR 0xE1] @ ''rea deve corresponder a uma divis'' @ [CHR 0xE3] @ ''o e medida expressas. Em caixilharia,'' @ newline @
     ''width_mm, height_mm e quantity t'' @ [CHR 0xEA] @ ''m de ser medidas/contagens explicitamente indicadas no pedido.'' @ newline @
     ''O motor determin'' @ [CHR 0xED] @ ''stico far'' @ [CHR 0xE1] @ '' todos os c'' @ [CHR 0xE1] @ ''lculos depois desta etapa.'' @ newline @
     newline @
     ''Devolve apenas o objeto JSON exigido pelo schema, sem markdown ou prosa.'' @ newline @
     newline @
     ''Texto original:'' @ newline"

record extract_request_input =
  in_text :: string
  priorFailure :: "string option"

definition buildPrompt :: "extract_request_input \<Rightarrow> string" where
  "buildPrompt i =
     (case priorFailure i of
        Some why \<Rightarrow> newline @ ''Previous attempt failed validation: '' @ why @ newline @
          ''Correct the issues and return valid JSON only.'' @ newline
      | None \<Rightarrow> []) @ instructions @ in_text i"

text \<open>The answer without the code fence some models put around it.\<close>

definition fence :: rx where
  "fence = (let white = Star (Cls white_char) in
     cats [Start_Of_Text, white, lit ''```'', Opt (lit_i ''json''), white, Cap (Star (Cls (\<lambda>_. True))), white,
       lit ''```'', white, End_Of_Text])"

definition cleaned :: "string \<Rightarrow> string" where
  "cleaned answer = trim (case rx_group fence answer of Some g \<Rightarrow> g | None \<Rightarrow> answer)"

text \<open>
  The environment: the seed fixtures in the demo mode, the language model, the JSON reader of the language, the e-mail check and the error texts of the
  schema library, the text of a failed tool call, the identifiers of new lines, and whether the audit trail and
  the call log accept a row.
\<close>

record extract_env =
  xe_demo :: "demo_fixture list option"
  llm_answer :: "int \<Rightarrow> string \<Rightarrow> string option"
  json_parse :: "string \<Rightarrow> json option"
  xe_is_email :: "string \<Rightarrow> bool"
  formatSchemaError :: "json \<Rightarrow> string"
  tool_error :: "int \<Rightarrow> string"
  new_line_id :: "nat \<Rightarrow> uuid"
  xe_audit :: "db \<Rightarrow> bool"
  xe_log_ok :: bool

definition extract_execute :: "extract_env \<Rightarrow> int \<Rightarrow> extract_request_input \<Rightarrow> json option" where
  "extract_execute e attempt i =
     map_option extraction_json
       (case xe_demo e of
          Some fixtures \<Rightarrow> extractFromFixture (xe_is_email e) fixtures (in_text i)
        | None \<Rightarrow> do {
            answer \<leftarrow> llm_answer e attempt (buildPrompt i);
            parsed \<leftarrow> json_parse e (cleaned answer);
            ExtractionV1Schema (xe_is_email e) (Some parsed) })"

definition extract_contract :: "extract_env \<Rightarrow> int \<Rightarrow> (extract_request_input, extract_request_input, json, json) contract" where
  "extract_contract e attempt = \<lparr>inputSchema = Some, execute = extract_execute e attempt,
     outputSchema = (\<lambda>v. map_option extraction_json (ExtractionV1Schema (xe_is_email e) (Some v)))\<rparr>"

section \<open>The stores\<close>

text \<open>The insert-or-update keyed by the request.\<close>

definition upsertForRequest :: "extraction_row \<Rightarrow> db \<Rightarrow> db" where
  "upsertForRequest row d =
     (let i = ex_request_id row in
      d\<lparr>extractions := (if \<exists>x \<in> set (extractions d). ex_request_id x = i
         then update_where (\<lambda>x. ex_request_id x = i) (\<lambda>_. row) (extractions d) else extractions d @ [row])\<rparr>)"

definition new_line :: "uuid \<Rightarrow> uuid \<Rightarrow> extraction_line_item \<Rightarrow> line_item option" where
  "new_line i requestId x = do {
     pos \<leftarrow> smallint_column (xl_position x);
     qty \<leftarrow> numeric_column 12 2 (xl_quantity x);
     Some \<lparr>li_id = i, li_request_id = requestId, li_position = pos, raw_text = xl_raw_text x, li_quantity = Some qty,
       li_unit = Some (xl_unit x), matched_sku_id = None, match_confidence = None, li_match_method = None,
       li_unit_price_minor = None, li_lead_time_days = None, li_flags = Some [], match_routing_reason = None\<rparr> }"

definition new_lines :: "(nat \<Rightarrow> uuid) \<Rightarrow> uuid \<Rightarrow> extraction_line_item list \<Rightarrow> line_item list option" where
  "new_lines ids requestId xs = those (map (\<lambda>(k, x). new_line (ids k) requestId x) (enumerate 0 xs))"

definition replace_lines :: "(nat \<Rightarrow> uuid) \<Rightarrow> uuid \<Rightarrow> extraction_line_item list \<Rightarrow> db \<Rightarrow> db option" where
  "replace_lines ids requestId xs d =
     map_option (\<lambda>ls. d\<lparr>line_items := filter (\<lambda>l. li_request_id l \<noteq> requestId) (line_items d) @ ls\<rparr>)
       (new_lines ids requestId xs)"

section \<open>The node\<close>

definition EXTRACTION_FAILURE_EMPTY_SOURCE :: string where
  "EXTRACTION_FAILURE_EMPTY_SOURCE = ''empty_source''"

text \<open>A text column read with \<open>?.trim()\<close>: what is absent or blank adds nothing.\<close>

definition source_part :: "string option \<Rightarrow> string list" where
  "source_part t = (case t of Some s \<Rightarrow> if trim s = [] then [] else [trim s] | None \<Rightarrow> [])"

definition attachment_part :: "attachment \<Rightarrow> string list" where
  "attachment_part a = source_part (if parse_status a = Manual_Paste then pasted_text a else parsed_text a)"

definition aggregateSourceText :: "uuid \<Rightarrow> request \<Rightarrow> db \<Rightarrow> string" where
  "aggregateSourceText requestId req d =
     (let parts = source_part (source_subject req) @ source_part (source_body req) @
        concat (map attachment_part (filter (\<lambda>a. at_request_id a = requestId) (attachments d)))
      in concat (case parts of [] \<Rightarrow> [] | p # ps \<Rightarrow> p # map (\<lambda>q. newline @ newline @ q) ps))"

text \<open>The columns of the request that an extraction fills.\<close>

definition request_write :: "extraction \<Rightarrow> request \<Rightarrow> request" where
  "request_write x r =
     (case x of
        Ex_Avac e \<Rightarrow> r\<lparr>sender_company := None, sender_contact := cu_name (customer e), sender_email := cu_email (customer e),
          sender_address := cu_address (customer e), delivery_date := None, r_vertical := Some Avac\<rparr>
      | Ex_Caixilharia e \<Rightarrow> r\<lparr>sender_company := None, sender_contact := cu_name (customer e), sender_email := cu_email (customer e),
          sender_address := cu_address (customer e), delivery_date := None, r_vertical := Some Caixilharia\<rparr>
      | Ex_Legacy e \<Rightarrow> r\<lparr>sender_company := lx_company e, sender_contact := lx_contact e, sender_email := lx_sender_email e,
          sender_address := lx_sender_address e, delivery_date := lx_delivery_date e, r_vertical := None\<rparr>)"

definition extraction_lines :: "extraction \<Rightarrow> extraction_line_item list" where
  "extraction_lines x = (case x of Ex_Legacy e \<Rightarrow> lx_line_items e | _ \<Rightarrow> [])"

text \<open>One transaction: \<open>None\<close> when it fails and is rolled back.\<close>

definition persistSuccess :: "extract_env \<Rightarrow> uuid \<Rightarrow> uuid \<Rightarrow> extraction \<Rightarrow> int \<Rightarrow> db \<Rightarrow> db option" where
  "persistSuccess e requestId orgId x reextractCount d = do {
     let d = upsertForRequest \<lparr>ex_request_id = requestId, schema_valid = True, ex_status = Ex_Completed,
       raw_json = extraction_json x, reextract_count = reextractCount\<rparr> d;
     d \<leftarrow> replace_lines (new_line_id e) requestId (extraction_lines x) d;
     let d = update_requests (\<lambda>r. r_id r = requestId \<and> r_org_id r = orgId) (request_write x) d;
     if request_in_org requestId orgId d then Some d else None }"

definition persistFailure :: "uuid \<Rightarrow> json \<Rightarrow> int \<Rightarrow> db \<Rightarrow> db" where
  "persistFailure requestId raw reextractCount =
     upsertForRequest \<lparr>ex_request_id = requestId, schema_valid = False, ex_status = Ex_Failed, raw_json = raw,
       reextract_count = reextractCount\<rparr>"

definition emitExtractExited :: "extract_env \<Rightarrow> uuid \<Rightarrow> uuid \<Rightarrow> bool \<Rightarrow> int \<Rightarrow> db \<Rightarrow> db" where
  "emitExtractExited e requestId orgId valid n d =
     (if xe_audit e d then emit (Some orgId) (Some requestId) None None (Ev_Extract_Exited valid n) d else d)"

text \<open>The loop: accepted at an attempt, all attempts used up, or left by an exception of the audit trail.\<close>

datatype loop_result = Accepted extraction int | Exhausted json | Gave_Up

definition call_extract :: "extract_env \<Rightarrow> uuid \<Rightarrow> uuid \<Rightarrow> string \<Rightarrow> int \<Rightarrow> string option \<Rightarrow> db \<Rightarrow> json tool_answer \<times> db" where
  "call_extract e requestId orgId text attempt prior d =
     invoke (xe_audit e) (xe_log_ok e) [''extract_request'' \<mapsto> extract_contract e attempt] ''extract_request''
       \<lparr>in_text = text, priorFailure = prior\<rparr> (Some requestId) attempt (Some orgId) d"

fun attempts :: "extract_env \<Rightarrow> uuid \<Rightarrow> uuid \<Rightarrow> string \<Rightarrow> int list \<Rightarrow> string option \<times> json \<Rightarrow> db \<Rightarrow> loop_result \<times> db" where
  "attempts e requestId orgId text [] (prior, lastRaw) d = (Exhausted lastRaw, d)"
| "attempts e requestId orgId text (attempt # rest) (prior, lastRaw) d =
     (case call_extract e requestId orgId text attempt prior d of
        (Tool_Aborted, d) \<Rightarrow> (Gave_Up, d)
      | (Tool_Ok result, d) \<Rightarrow>
          (case ExtractionV1Schema (xe_is_email e) (Some result) of
             None \<Rightarrow> attempts e requestId orgId text rest (Some (formatSchemaError e result), result) d
           | Some x \<Rightarrow>
               (case reconcile x text of
                  Unsupported why \<Rightarrow> attempts e requestId orgId text rest (Some why, extraction_json x) d
                | Supported \<Rightarrow> (Accepted x attempt, d)))
      | (_, d) \<Rightarrow> attempts e requestId orgId text rest (Some (tool_error e attempt), lastRaw) d)"

definition maxAttempts :: int where
  "maxAttempts = 2"

definition already_extracted :: "uuid \<Rightarrow> db \<Rightarrow> bool" where
  "already_extracted requestId d \<longleftrightarrow>
     (case find (\<lambda>x. ex_request_id x = requestId) (extractions d) of Some x \<Rightarrow> schema_valid x | None \<Rightarrow> False)"

definition extract_node :: "extract_env \<Rightarrow> uuid \<Rightarrow> uuid \<Rightarrow> db \<Rightarrow> node_outcome \<times> db" where
  "extract_node e requestId orgId d =
     (if already_extracted requestId d then (Returned (Advance Classify), d)
      else
        (case find (\<lambda>r. r_id r = requestId \<and> r_org_id r = orgId) (requests d) of
           None \<Rightarrow> (Returned Node_Failed, d)
         | Some req \<Rightarrow>
             (let text = aggregateSourceText requestId req d in
              if trim text = [] then
                (Returned (Advance Classify),
                 emitExtractExited e requestId orgId False 0
                   (persistFailure requestId (JObj [(''failure_code'', JStr EXTRACTION_FAILURE_EMPTY_SOURCE)]) 0 d))
              else
                (case attempts e requestId orgId text [1..maxAttempts] (None, JObj []) d of
                   (Gave_Up, d) \<Rightarrow> (Threw Other_Error, d)
                 | (Accepted x attempt, d) \<Rightarrow>
                     (case persistSuccess e requestId orgId x (attempt - 1) d of
                        None \<Rightarrow> (Threw Other_Error, d)
                      | Some d \<Rightarrow> (Returned (Advance Classify), emitExtractExited e requestId orgId True (attempt - 1) d))
                 | (Exhausted raw, d) \<Rightarrow>
                     (Returned (Advance Classify),
                      emitExtractExited e requestId orgId False (maxAttempts - 1)
                        (persistFailure requestId raw (maxAttempts - 1) d))))))"

section \<open>Facts\<close>

text \<open>What the tool answers is a stored document of an extraction the schemas accept.\<close>

lemma call_extract_frame: "tool_frame d (snd (call_extract e r orgId text k prior d))"
  by (simp add: call_extract_def invoke_frame)

lemma lower_extract_request: "lower ''extract_request'' = ''extract_request''"
  by code_simp

lemma call_extract_Ok:
  assumes "call_extract e r orgId text k prior d = (Tool_Ok v, d')"
  obtains x where "v = extraction_json x" and "ExtractionV1Schema (xe_is_email e) (Some v) = Some x"
proof -
  from assms obtain c i raw where "[''extract_request'' \<mapsto> extract_contract e k] (lower ''extract_request'') = Some c"
    and out: "outputSchema c raw = Some v"
    unfolding call_extract_def by (elim invoke_Ok)
  then have "c = extract_contract e k" by (simp add: lower_extract_request)
  with out obtain x where "ExtractionV1Schema (xe_is_email e) (Some raw) = Some x" "v = extraction_json x"
    by (auto simp: extract_contract_def)
  with that [of x] extraction_back show thesis by blast
qed

lemma attempts_result:
  assumes "attempts e r orgId text ks (prior, raw) d = (res, d')"
  shows "tool_frame d d' \<and>
    (case res of
       Accepted x k \<Rightarrow> k \<in> set ks \<and> reconcile x text = Supported \<and>
         ExtractionV1Schema (xe_is_email e) (Some (extraction_json x)) = Some x
     | Exhausted raw' \<Rightarrow> raw' = raw \<or>
         (\<exists>x. ExtractionV1Schema (xe_is_email e) (Some raw') = Some x \<and> reconcile x text \<noteq> Supported)
     | Gave_Up \<Rightarrow> True)"
  using assms
proof (induction ks arbitrary: prior raw d)
  case (Cons k ks)
  obtain a d1 where call: "call_extract e r orgId text k prior d = (a, d1)" by (rule prod.exhaust)
  have fr: "tool_frame d d1" using call_extract_frame [of d e r orgId "text" k prior] call by simp
  have step: ?case if "attempts e r orgId text ks (p, w) d1 = (res, d')"
    and "w = raw \<or> (\<exists>x. ExtractionV1Schema (xe_is_email e) (Some w) = Some x \<and> reconcile x text \<noteq> Supported)" for p w
    using Cons.IH [OF that(1)] that(2) tool_frame_trans [OF fr] by (auto split: loop_result.splits)
  show ?case
  proof (cases a)
    case (Tool_Ok v)
    obtain x where x: "v = extraction_json x" "ExtractionV1Schema (xe_is_email e) (Some v) = Some x"
      by (rule call_extract_Ok [OF call [unfolded Tool_Ok]])
    show ?thesis
    proof (cases "reconcile x text")
      case Supported
      with Cons.prems call Tool_Ok x fr show ?thesis by auto
    next
      case (Unsupported why)
      with Cons.prems call Tool_Ok x have "attempts e r orgId text ks (Some why, v) d1 = (res, d')" by simp
      then show ?thesis by (rule step) (use x Unsupported in auto)
    qed
  next
    case Tool_Error
    with Cons.prems call have "attempts e r orgId text ks (Some (tool_error e k), raw) d1 = (res, d')" by simp
    then show ?thesis by (rule step) simp
  next
    case Tool_Validation_Error
    with Cons.prems call have "attempts e r orgId text ks (Some (tool_error e k), raw) d1 = (res, d')" by simp
    then show ?thesis by (rule step) simp
  next
    case Tool_Aborted
    with Cons.prems call fr show ?thesis by auto
  qed
qed auto

lemma upsertForRequest_fields [simp]:
  "requests (upsertForRequest row d) = requests d" "line_items (upsertForRequest row d) = line_items d"
  "skus (upsertForRequest row d) = skus d" "events (upsertForRequest row d) = events d" "clock (upsertForRequest row d) = clock d"
  by (simp_all add: upsertForRequest_def Let_def)

lemma find_replaced: "\<exists>x \<in> set xs. P x \<Longrightarrow> P y \<Longrightarrow> find P (update_where P (\<lambda>_. y) xs) = Some y"
  by (induction xs) auto

lemma find_appended: "\<not> (\<exists>x \<in> set xs. P x) \<Longrightarrow> P y \<Longrightarrow> find P (xs @ [y]) = Some y"
  by (induction xs) auto

lemma find_upsert:
  "find (\<lambda>x. ex_request_id x = ex_request_id row) (extractions (upsertForRequest row d)) = Some row"
  unfolding upsertForRequest_def Let_def by (auto intro: find_replaced find_appended)

lemma emitExtractExited_fields [simp]:
  "requests (emitExtractExited e r orgId b n d) = requests d" "line_items (emitExtractExited e r orgId b n d) = line_items d"
  "extractions (emitExtractExited e r orgId b n d) = extractions d" "clock (emitExtractExited e r orgId b n d) = clock d"
  by (simp_all add: emitExtractExited_def)

text \<open>The documents stored of a failed extraction that are no extraction at all.\<close>

lemma no_extraction:
  "ExtractionV1Schema is_email (Some (JObj [])) = None"
  "ExtractionV1Schema is_email (Some (JObj [(''failure_code'', JStr EXTRACTION_FAILURE_EMPTY_SOURCE)])) = None"
  by (simp_all add: ExtractionV1Schema_def AvacExtractionV1Schema_def CaixilhariaExtractionV1Schema_def
      LegacyExtractionV1Schema_def field_def z_literal_def z_enum_def nullableExtractionField_def z_nullable_def
      z_nonempty_string_def z_refine_def)

lemma persistSuccess_Some:
  assumes "persistSuccess e r orgId x n d = Some d'"
  obtains ls where "new_lines (new_line_id e) r (extraction_lines x) = Some ls"
    and "line_items d' = filter (\<lambda>l. li_request_id l \<noteq> r) (line_items d) @ ls"
    and "requests d' = update_where (\<lambda>q. r_id q = r \<and> r_org_id q = orgId) (request_write x) (requests d)"
    and "extractions d' = extractions (upsertForRequest \<lparr>ex_request_id = r, schema_valid = True, ex_status = Ex_Completed,
       raw_json = extraction_json x, reextract_count = n\<rparr> d)"
    and "clock d' = clock d" and "events d' = events d"
  using assms
  by (auto simp: persistSuccess_def Let_def replace_lines_def bind_eq_Some_conv update_requests_def split: if_splits)

text \<open>
  C20. What the extraction stage leaves of a request that has no accepted extraction yet, whatever the language
  model answers: one row for the request, after at most one repetition. If the row is accepted, its document
  reads back as an extraction that the aggregated source text supports, the lines of the request are exactly the
  lines of that extraction, and the request carries its sender, delivery date and vertical. Otherwise the
  requests and lines are untouched and the document stored, if it is an extraction at all, is one the source
  text does not support.
\<close>

theorem extract_node_grounded:
  assumes "find (\<lambda>q. r_id q = r \<and> r_org_id q = orgId) (requests d) = Some req"
    and "\<not> already_extracted r d"
    and "extract_node e r orgId d = (Returned (Advance Classify), d')"
  shows "\<exists>row. find (\<lambda>x. ex_request_id x = r) (extractions d') = Some row \<and> reextract_count row \<in> {0, 1} \<and>
    (if schema_valid row then
       \<exists>x ls. ExtractionV1Schema (xe_is_email e) (Some (raw_json row)) = Some x \<and>
         reconcile x (aggregateSourceText r req d) = Supported \<and>
         new_lines (new_line_id e) r (extraction_lines x) = Some ls \<and>
         line_items d' = filter (\<lambda>l. li_request_id l \<noteq> r) (line_items d) @ ls \<and>
         requests d' = update_where (\<lambda>q. r_id q = r \<and> r_org_id q = orgId) (request_write x) (requests d)
     else requests d' = requests d \<and> line_items d' = line_items d \<and>
       (\<forall>x. ExtractionV1Schema (xe_is_email e) (Some (raw_json row)) = Some x \<longrightarrow>
          reconcile x (aggregateSourceText r req d) \<noteq> Supported))"
proof -
  let ?t = "aggregateSourceText r req d"
  have failure: ?thesis if d': "d' = emitExtractExited e r orgId False n (persistFailure r raw n d1)" and n: "n \<in> {0, 1}"
    and same: "requests d1 = requests d" "line_items d1 = line_items d"
    and raw: "\<forall>x. ExtractionV1Schema (xe_is_email e) (Some raw) = Some x \<longrightarrow> reconcile x ?t \<noteq> Supported" for n raw d1
    using find_upsert [of "\<lparr>ex_request_id = r, schema_valid = False, ex_status = Ex_Failed, raw_json = raw, reextract_count = n\<rparr>" d1]
    by (intro exI [of _ "\<lparr>ex_request_id = r, schema_valid = False, ex_status = Ex_Failed, raw_json = raw, reextract_count = n\<rparr>"])
      (use n same raw in \<open>auto simp: d' persistFailure_def\<close>)
  have two: "[1..maxAttempts] = [1, 2]" by code_simp
  note node = assms(3) [unfolded extract_node_def assms(1) if_not_P [OF assms(2)] option.case Let_def]
  show ?thesis
  proof (cases "trim ?t = []")
    case True
    with node have "d' = emitExtractExited e r orgId False 0
        (persistFailure r (JObj [(''failure_code'', JStr EXTRACTION_FAILURE_EMPTY_SOURCE)]) 0 d)"
      by simp
    then show ?thesis by (rule failure) (simp_all add: no_extraction)
  next
    case False
    obtain res d1 where loop: "attempts e r orgId ?t [1..maxAttempts] (None, JObj []) d = (res, d1)" by (rule prod.exhaust)
    from attempts_result [OF loop] have fr: "tool_frame d d1" by simp
    note same = tool_frame_fields [OF fr]
    show ?thesis
    proof (cases res)
      case (Accepted x k)
      with attempts_result [OF loop] have k: "k \<in> {1, 2}" and x: "reconcile x ?t = Supported"
          "ExtractionV1Schema (xe_is_email e) (Some (extraction_json x)) = Some x"
        by (auto simp: two)
      from node False loop Accepted obtain d2 where ok: "persistSuccess e r orgId x (k - 1) d1 = Some d2"
        and d': "d' = emitExtractExited e r orgId True (k - 1) d2"
        by (auto split: option.splits)
      show ?thesis
      proof (rule persistSuccess_Some [OF ok], goal_cases)
        case (1 ls)
        then show ?thesis
          using find_upsert [of "\<lparr>ex_request_id = r, schema_valid = True, ex_status = Ex_Completed, raw_json = extraction_json x,
            reextract_count = k - 1\<rparr>" d1]
          by (intro exI [of _ "\<lparr>ex_request_id = r, schema_valid = True, ex_status = Ex_Completed, raw_json = extraction_json x,
            reextract_count = k - 1\<rparr>"]) (use k x in \<open>auto simp: d' same\<close>)
      qed
    next
      case (Exhausted raw)
      with node False loop have d': "d' = emitExtractExited e r orgId False 1 (persistFailure r raw 1 d1)"
        by (auto simp: maxAttempts_def)
      have raw: "\<forall>x. ExtractionV1Schema (xe_is_email e) (Some raw) = Some x \<longrightarrow> reconcile x ?t \<noteq> Supported"
        using attempts_result [OF loop] Exhausted no_extraction(1) by auto
      show ?thesis by (rule failure [OF d']) (use raw in \<open>simp_all add: same\<close>)
    next
      case Gave_Up
      with node False loop show ?thesis by auto
    qed
  qed
qed

text \<open>The text asks for one line; the model first answers two, is told so, and then answers one.\<close>

definition widget_doc :: "nat \<Rightarrow> json" where
  "widget_doc n = JObj [(''company'', JStr ''Acme''), (''contact'', JNull), (''sender_email'', JNull), (''delivery_date'', JNull),
     (''line_items'', JArr (replicate n (JObj [(''position'', JNum 1), (''raw_text'', JStr ''Widget''), (''quantity'', JNum 10),
       (''unit'', JStr ''pcs'')])))]"

definition widget_env :: extract_env where
  "widget_env = \<lparr>xe_demo = None, llm_answer = (\<lambda>k _. Some (if k = 1 then ''a'' else ''b'')), json_parse = (\<lambda>s. Some (widget_doc (if s = ''a'' then 2 else 1))),
     xe_is_email = (\<lambda>_. True), formatSchemaError = (\<lambda>_. []), tool_error = (\<lambda>_. []), new_line_id = (\<lambda>_. ''l1''),
     xe_audit = (\<lambda>_. True), xe_log_ok = True\<rparr>"

definition widget_db :: db where
  "widget_db = empty_db\<lparr>requests := [(demo_request ''org'' Extract St_Parsing)\<lparr>source_body := Some ''1 line item: 10 Widget''\<rparr>]\<rparr>"

theorem extract_node_grounded_witness:
  "\<exists>row. find (\<lambda>x. ex_request_id x = ''r1'') (extractions (snd (extract_node widget_env ''r1'' ''org'' widget_db))) = Some row \<and>
     schema_valid row \<and> reextract_count row = 1 \<and>
     (\<exists>x ls. ExtractionV1Schema (\<lambda>_. True) (Some (raw_json row)) = Some x \<and>
       reconcile x ''1 line item: 10 Widget'' = Supported \<and>
       line_items (snd (extract_node widget_env ''r1'' ''org'' widget_db)) = filter (\<lambda>l. li_request_id l \<noteq> ''r1'') [] @ ls)"
proof -
  let ?run = "extract_node widget_env ''r1'' ''org'' widget_db"
  let ?req = "(demo_request ''org'' Extract St_Parsing)\<lparr>source_body := Some ''1 line item: 10 Widget''\<rparr>"
  have req: "find (\<lambda>q. r_id q = ''r1'' \<and> r_org_id q = ''org'') (requests widget_db) = Some ?req"
    by (simp add: widget_db_def demo_request_def)
  have new: "\<not> already_extracted ''r1'' widget_db"
    by (simp add: already_extracted_def widget_db_def empty_db_def)
  have "fst ?run = Returned (Advance Classify)" by code_simp
  then have run: "?run = (Returned (Advance Classify), snd ?run)" by (metis prod.collapse)
  have row: "map (\<lambda>x. (schema_valid x, reextract_count x)) (extractions (snd ?run)) = [(True, 1)]" by code_simp
  have src: "aggregateSourceText ''r1'' ?req widget_db = ''1 line item: 10 Widget''" by code_simp
  have none: "line_items widget_db = []" "xe_is_email widget_env = (\<lambda>_. True)" by (simp_all add: widget_db_def empty_db_def widget_env_def)
  from extract_node_grounded [OF req new run] obtain y where y: "find (\<lambda>x. ex_request_id x = ''r1'') (extractions (snd ?run)) = Some y"
    and post: "if schema_valid y then
       \<exists>x ls. ExtractionV1Schema (xe_is_email widget_env) (Some (raw_json y)) = Some x \<and>
         reconcile x (aggregateSourceText ''r1'' ?req widget_db) = Supported \<and>
         new_lines (new_line_id widget_env) ''r1'' (extraction_lines x) = Some ls \<and>
         line_items (snd ?run) = filter (\<lambda>l. li_request_id l \<noteq> ''r1'') (line_items widget_db) @ ls \<and>
         requests (snd ?run) = update_where (\<lambda>q. r_id q = ''r1'' \<and> r_org_id q = ''org'') (request_write x) (requests widget_db)
     else requests (snd ?run) = requests widget_db \<and> line_items (snd ?run) = line_items widget_db \<and>
       (\<forall>x. ExtractionV1Schema (xe_is_email widget_env) (Some (raw_json y)) = Some x \<longrightarrow>
          reconcile x (aggregateSourceText ''r1'' ?req widget_db) \<noteq> Supported)" by blast
  from y row have valid: "schema_valid y \<and> reextract_count y = 1" by (auto dest: find_Some_set)
  with post have "\<exists>x ls. ExtractionV1Schema (\<lambda>_. True) (Some (raw_json y)) = Some x \<and>
       reconcile x ''1 line item: 10 Widget'' = Supported \<and>
       line_items (snd ?run) = filter (\<lambda>l. li_request_id l \<noteq> ''r1'') [] @ ls"
    unfolding src none by (simp only: if_True) blast
  with y valid show ?thesis by blast
qed

end
