(* ===== verification/Classify_Node.thy ===== *)
theory Classify_Node
  imports Demo_Fixtures Request_Store
begin

text \<open>
  The classification stage: \<open>classify/services/classify.service.ts\<close>, which asks the language model at most twice
  and falls back to a service quote, and the node \<open>classify/classify.node.ts\<close>, which records the answer. The
  language model is a parameter, as in the extraction stage.
\<close>

section \<open>The service\<close>

definition DEMO_CLASSIFY_CONFIDENCE :: rat where
  "DEMO_CLASSIFY_CONFIDENCE = 95 / 100"

record classify_env =
  ce_demo :: "demo_fixture list option"
  ce_answer :: "nat \<Rightarrow> string \<Rightarrow> string option"
  ce_json_parse :: "string \<Rightarrow> json option"
  CLASSIFY_THRESHOLD :: rat
  ce_audit :: "db \<Rightarrow> bool"

record parsed_request =
  pq_company :: string
  pq_contact :: string
  pq_description :: string
  pq_items :: "string list"

text \<open>\<open>z.number().min(0).max(1)\<close> beside the two kinds the model may answer.\<close>

definition llmResponseSchema :: "(request_type \<times> rat) schema" where
  "llmResponseSchema v = do {
     ob \<leftarrow> z_object v;
     t \<leftarrow> z_enum [(''catalog_rfq'', Catalog_Rfq), (''service_quote'', Service_Quote)] (field ''type'' ob);
     c \<leftarrow> z_refine z_number (\<lambda>x. 0 \<le> x \<and> x \<le> 1) (field ''confidence'' ob);
     Some (t, c) }"

definition line_break :: string where
  "line_break = [CHR 0x0A]"

definition joined :: "string \<Rightarrow> string list \<Rightarrow> string" where
  "joined sep ss = (case ss of [] \<Rightarrow> [] | s # ts \<Rightarrow> s @ concat (map (\<lambda>t. sep @ t) ts))"

definition classifyPrompt :: "parsed_request \<Rightarrow> string" where
  "classifyPrompt q =
     (let newline = line_break; company = pq_company q; description = pq_description q;
          items = (if joined newline (pq_items q) = [] then ''none'' else joined newline (pq_items q)) in
     ''Classify this request as either '' @ [CHR 0x22] @ ''catalog_rfq'' @ [CHR 0x22] @ '' (discrete parts, products, components) or '' @ [CHR 0x22] @ ''service_quote'' @ [CHR 0x22] @ '' (scoped job, consulting, labor).'' @ newline @
     ''Company: '' @ company @ newline @
     ''Description: '' @ description @ newline @
     ''Line Items: '' @ items @ newline @
     ''Return ONLY valid JSON with no markdown formatting or prose. Example: {'' @ [CHR 0x22] @ ''type'' @ [CHR 0x22] @ '': '' @ [CHR 0x22] @ ''catalog_rfq'' @ [CHR 0x22] @ '', '' @ [CHR 0x22] @ ''confidence'' @ [CHR 0x22] @ '': 0.95}'')"

text \<open>The answer without code fences.\<close>

definition without_fences :: "string \<Rightarrow> string" where
  "without_fences answer =
     (let white = Star (Cls white_char) in
      trim (rx_remove (cats [lit ''```'', white, End_Of_Line])
        (rx_remove (cats [lit ''```'', Opt (lit_i ''json''), white]) answer)))"

definition classify_attempt :: "classify_env \<Rightarrow> nat \<Rightarrow> string \<Rightarrow> (request_type \<times> rat) option" where
  "classify_attempt e attempt prompt = do {
     answer \<leftarrow> ce_answer e attempt prompt;
     parsed \<leftarrow> ce_json_parse e (without_fences answer);
     (t, c) \<leftarrow> llmResponseSchema (Some parsed);
     Some (if c < CLASSIFY_THRESHOLD e then Service_Quote else t, c) }"

definition invokeWithRetry :: "classify_env \<Rightarrow> string \<Rightarrow> (request_type \<times> rat) option" where
  "invokeWithRetry e prompt =
     (case classify_attempt e 1 prompt of Some r \<Rightarrow> Some r | None \<Rightarrow> classify_attempt e 2 prompt)"

definition classifyFromFixture :: "demo_fixture list \<Rightarrow> string \<Rightarrow> string list \<Rightarrow> (request_type \<times> rat) option" where
  "classifyFromFixture fixtures description items =
     map_option (\<lambda>f. (if requestType f = Some ''service_quote'' then Service_Quote else Catalog_Rfq, DEMO_CLASSIFY_CONFIDENCE))
       (matchDemoFixture fixtures (joined line_break (description # items)))"

text \<open>\<open>None\<close>: no fixture is loaded in the demo mode, and the exception leaves the node.\<close>

definition classify :: "classify_env \<Rightarrow> parsed_request \<Rightarrow> (request_type \<times> rat) option" where
  "classify e q =
     (let description = trim (pq_description q); items = filter (\<lambda>t. trim t \<noteq> []) (pq_items q) in
      if description = [] \<and> items = [] then Some (Service_Quote, 0)
      else
        (case ce_demo e of
           Some fixtures \<Rightarrow> classifyFromFixture fixtures description items
         | None \<Rightarrow>
             (case invokeWithRetry e (classifyPrompt (q\<lparr>pq_description := description, pq_items := items\<rparr>)) of
                Some r \<Rightarrow> Some r
              | None \<Rightarrow> Some (Service_Quote, 0))))"

section \<open>The node\<close>

definition parsed_of :: "request \<Rightarrow> line_item list \<Rightarrow> parsed_request" where
  "parsed_of r ls = \<lparr>pq_company = (case sender_company r of Some s \<Rightarrow> s | None \<Rightarrow> []),
     pq_contact = (case sender_contact r of Some s \<Rightarrow> s | None \<Rightarrow> []),
     pq_description = (case source_body r of Some s \<Rightarrow> s | None \<Rightarrow> (case source_subject r of Some s \<Rightarrow> s | None \<Rightarrow> [])),
     pq_items = map raw_text ls\<rparr>"

definition classify_write :: "request_type \<times> rat \<Rightarrow> request \<Rightarrow> request" where
  "classify_write a r = (case a of (t, c) \<Rightarrow>
     r\<lparr>r_request_type := t, classification_confidence := Some (to_numeric 2 c), current_node := Match\<rparr>)"

definition classify_node :: "classify_env \<Rightarrow> uuid \<Rightarrow> uuid \<Rightarrow> db \<Rightarrow> node_outcome \<times> db" where
  "classify_node e requestId orgId d =
     (case find (\<lambda>r. r_id r = requestId \<and> r_org_id r = orgId) (requests d) of
        None \<Rightarrow> (Returned Node_Failed, d)
      | Some req \<Rightarrow>
          (case classify e (parsed_of req (lines_of_request requestId d)) of
             None \<Rightarrow> (Threw Other_Error, d)
           | Some a \<Rightarrow>
               (let d = update_requests (\<lambda>r. r_id r = requestId \<and> r_org_id r = orgId) (classify_write a) d in
                (Returned (Advance Match),
                 if ce_audit e d then emit (Some orgId) (Some requestId) None None (Ev_Classify_Exited (fst a) (snd a)) d else d))))"

section \<open>Facts\<close>

lemma classify_attempt_bounds:
  "classify_attempt e k p = Some (t, c) \<Longrightarrow> 0 \<le> c \<and> c \<le> 1 \<and> (t = Catalog_Rfq \<longrightarrow> CLASSIFY_THRESHOLD e \<le> c)"
  by (auto simp: classify_attempt_def bind_eq_Some_conv llmResponseSchema_def schema_simps split: if_splits)

lemma classify_bounds:
  assumes "classify e q = Some (t, c)"
  shows "0 \<le> c \<and> c \<le> 1 \<and> (t = Catalog_Rfq \<longrightarrow> (if ce_demo e = None then CLASSIFY_THRESHOLD e \<le> c else c = DEMO_CLASSIFY_CONFIDENCE))"
  using assms
  by (auto simp: classify_def Let_def invokeWithRetry_def classifyFromFixture_def DEMO_CLASSIFY_CONFIDENCE_def
      dest: classify_attempt_bounds split: if_splits option.splits)

lemma classify_total: "ce_demo e = None \<or> (\<exists>fs. ce_demo e = Some fs \<and> fs \<noteq> []) \<Longrightarrow> \<exists>a. classify e q = Some a"
  by (auto simp: classify_def Let_def classifyFromFixture_def matchDemoFixture_def split: option.splits prod.splits)

end
