(* ===== verification/Catalog_Search.thy ===== *)
theory Catalog_Search
  imports Tools
begin

text \<open>
  Searching the catalogue: reciprocal rank fusion of a lexical and a semantic ranking (\<open>catalog/rrf.ts\<close>),
  the two retrieval queries (\<open>catalog/actions/sku-search.actions.ts\<close>) and the \<open>search_catalog\<close> tool that
  combines them (\<open>catalog/tools/search-catalog.tool.ts\<close>). The similarity functions of the database
  extensions and the embedding service are parameters.
\<close>

section \<open>Reciprocal rank fusion\<close>

record search_hit =
  hit_sku_id :: uuid
  hit_sku_code :: string
  hit_name :: string
  hit_description :: "string option"
  sim_score :: rat

record fused_candidate =
  fc_sku_id :: uuid
  fc_sku_code :: string
  fc_name :: string
  fc_description :: "string option"
  fc_score :: rat
  fc_match_method :: match_method

text \<open>An entry of the \<open>Map\<close>, which iterates in insertion order.\<close>

record rrf_entry =
  en_sku_id :: uuid
  en_sku_code :: string
  en_name :: string
  en_description :: "string option"
  rrfScore :: rat
  lexicalSim :: "rat option"
  semanticSim :: "rat option"

definition DEFAULT_K :: rat where "DEFAULT_K = 60"

definition contribution :: "rat \<Rightarrow> nat \<Rightarrow> rat" where
  "contribution k i = 1 / (k + of_nat i + 1)"

definition upsert_entry :: "rrf_entry \<Rightarrow> (rrf_entry \<Rightarrow> rrf_entry) \<Rightarrow> rrf_entry list \<Rightarrow> rrf_entry list" where
  "upsert_entry new f es =
     (if \<exists>e \<in> set es. en_sku_id e = en_sku_id new then update_where (\<lambda>e. en_sku_id e = en_sku_id new) f es else es @ [new])"

definition new_entry :: "search_hit \<Rightarrow> rat \<Rightarrow> rrf_entry" where
  "new_entry hit c = \<lparr>en_sku_id = hit_sku_id hit, en_sku_code = hit_sku_code hit, en_name = hit_name hit,
     en_description = hit_description hit, rrfScore = c, lexicalSim = None, semanticSim = None\<rparr>"

definition add_lexical :: "rat \<Rightarrow> nat \<times> search_hit \<Rightarrow> rrf_entry list \<Rightarrow> rrf_entry list" where
  "add_lexical k ih = (case ih of (i, hit) \<Rightarrow>
     upsert_entry (new_entry hit (contribution k i)\<lparr>lexicalSim := Some (sim_score hit)\<rparr>)
       (\<lambda>e. e\<lparr>rrfScore := rrfScore e + contribution k i, lexicalSim := Some (sim_score hit)\<rparr>))"

definition add_semantic :: "rat \<Rightarrow> nat \<times> search_hit \<Rightarrow> rrf_entry list \<Rightarrow> rrf_entry list" where
  "add_semantic k ih = (case ih of (i, hit) \<Rightarrow>
     upsert_entry (new_entry hit (contribution k i)\<lparr>semanticSim := Some (sim_score hit)\<rparr>)
       (\<lambda>e. e\<lparr>rrfScore := rrfScore e + contribution k i, semanticSim := Some (sim_score hit)\<rparr>))"

definition to_candidate :: "rrf_entry \<Rightarrow> fused_candidate" where
  "to_candidate e =
     (let (m, s) = (case (lexicalSim e, semanticSim e) of
         (Some l, Some t) \<Rightarrow> (Fused, max l t)
       | (Some l, None) \<Rightarrow> (Fuzzy, l)
       | (None, t) \<Rightarrow> (Semantic, the t))
      in \<lparr>fc_sku_id = en_sku_id e, fc_sku_code = en_sku_code e, fc_name = en_name e,
          fc_description = en_description e, fc_score = s, fc_match_method = m\<rparr>)"

text \<open>\<open>None\<close>: the parameter \<open>k\<close> is refused.\<close>

definition fuseRrf :: "search_hit list \<Rightarrow> search_hit list \<Rightarrow> rat \<Rightarrow> fused_candidate list option" where
  "fuseRrf lexical semantic k =
     (if k < 0 then None
      else
        (let scores = fold (add_lexical k) (enumerate 0 lexical) [];
             scores = fold (add_semantic k) (enumerate 0 semantic) scores
         in Some (map to_candidate (sort_key (\<lambda>e. - rrfScore e) scores))))"

section \<open>What the fusion computes\<close>

text \<open>The reference: the sum of the reciprocal ranks of a product in the two rankings.\<close>

definition rank_sum :: "rat \<Rightarrow> search_hit list \<Rightarrow> uuid \<Rightarrow> rat" where
  "rank_sum k hits i = (\<Sum>(j, h)\<leftarrow>enumerate 0 hits. if hit_sku_id h = i then contribution k j else 0)"

definition last_sim :: "search_hit list \<Rightarrow> uuid \<Rightarrow> rat option" where
  "last_sim hits i = map_option sim_score (find (\<lambda>h. hit_sku_id h = i) (rev hits))"

definition entry_for :: "rat \<Rightarrow> search_hit list \<Rightarrow> search_hit list \<Rightarrow> uuid \<Rightarrow> rrf_entry" where
  "entry_for k lexi sema i =
     (let h = the (find (\<lambda>h. hit_sku_id h = i) (lexi @ sema)) in
      \<lparr>en_sku_id = i, en_sku_code = hit_sku_code h, en_name = hit_name h, en_description = hit_description h,
       rrfScore = rank_sum k lexi i + rank_sum k sema i, lexicalSim = last_sim lexi i, semanticSim = last_sim sema i\<rparr>)"

lemma uniq_snoc: "uniq (xs @ [x]) = (if x \<in> set xs then uniq xs else uniq xs @ [x])"
  by (induction xs rule: uniq.induct) (auto simp: filter_id_conv)

lemma rank_sum_snoc:
  "rank_sum k (hits @ [h]) i = rank_sum k hits i + (if hit_sku_id h = i then contribution k (length hits) else 0)"
  by (simp add: rank_sum_def enumerate_append_eq)

lemma last_sim_snoc: "last_sim (hits @ [h]) i = (if hit_sku_id h = i then Some (sim_score h) else last_sim hits i)"
  by (simp add: last_sim_def)

lemma rank_sum_absent: "i \<notin> hit_sku_id ` set hits \<Longrightarrow> rank_sum k hits i = 0"
  by (induction hits rule: rev_induct) (auto simp: rank_sum_snoc, simp add: rank_sum_def)

lemma last_sim_None: "last_sim hits i = None \<longleftrightarrow> i \<notin> hit_sku_id ` set hits"
  by (auto simp: last_sim_def find_None_iff)

lemma find_hit_None: "find (\<lambda>h. hit_sku_id h = i) hits = None \<longleftrightarrow> i \<notin> hit_sku_id ` set hits"
  by (auto simp: find_None_iff)

lemma find_append: "find P (xs @ ys) = (case find P xs of Some x \<Rightarrow> Some x | None \<Rightarrow> find P ys)"
  by (induction xs) auto

text \<open>One step of either loop on the entries of the products seen so far.\<close>

lemma upsert_entries:
  assumes ids: "\<And>i. en_sku_id (E i) = i" "\<And>i. en_sku_id (E' i) = i"
    and seen: "x \<in> set xs \<Longrightarrow> f (E x) = E' x" and fresh: "x \<notin> set xs \<Longrightarrow> new = E' x"
    and new: "en_sku_id new = x" and same: "\<And>i. i \<noteq> x \<Longrightarrow> E i = E' i"
  shows "upsert_entry new f (map E (uniq xs)) = map E' (uniq (xs @ [x]))"
proof (cases "x \<in> set xs")
  case True
  then show ?thesis using assms by (auto simp: upsert_entry_def uniq_snoc update_where_def)
next
  case False
  then have "map E (uniq xs) = map E' (uniq xs)" by (auto intro!: same)
  with False show ?thesis using ids new fresh by (auto simp: upsert_entry_def uniq_snoc)
qed

lemma lexical_entries:
  "fold (add_lexical k) (enumerate 0 lexi) [] = map (entry_for k lexi []) (uniq (map hit_sku_id lexi))"
proof (induction lexi rule: rev_induct)
  case (snoc h lexi)
  have "add_lexical k (length lexi, h) (map (entry_for k lexi []) (uniq (map hit_sku_id lexi))) =
      map (entry_for k (lexi @ [h]) []) (uniq (map hit_sku_id lexi @ [hit_sku_id h]))"
    unfolding add_lexical_def prod.case
  proof (rule upsert_entries)
    assume "hit_sku_id h \<in> set (map hit_sku_id lexi)"
    then have "find (\<lambda>x. hit_sku_id x = hit_sku_id h) lexi \<noteq> None" by (auto simp: find_None_iff)
    then show "entry_for k lexi [] (hit_sku_id h)\<lparr>rrfScore := rrfScore (entry_for k lexi [] (hit_sku_id h)) + contribution k (length lexi),
        lexicalSim := Some (sim_score h)\<rparr> = entry_for k (lexi @ [h]) [] (hit_sku_id h)"
      by (auto simp: entry_for_def Let_def rank_sum_snoc last_sim_snoc find_append)
  next
    assume absent: "hit_sku_id h \<notin> set (map hit_sku_id lexi)"
    then have "find (\<lambda>x. hit_sku_id x = hit_sku_id h) lexi = None" by (simp add: find_hit_None)
    with absent show "new_entry h (contribution k (length lexi))\<lparr>lexicalSim := Some (sim_score h)\<rparr> = entry_for k (lexi @ [h]) [] (hit_sku_id h)"
      by (simp add: entry_for_def Let_def rank_sum_snoc last_sim_snoc find_append new_entry_def rank_sum_absent)
        (simp add: rank_sum_def last_sim_def)
  qed (auto simp: entry_for_def Let_def new_entry_def rank_sum_snoc last_sim_snoc find_append split: option.splits)
  then show ?case by (simp add: enumerate_append_eq snoc.IH)
qed simp

lemma all_entries:
  "fold (add_semantic k) (enumerate 0 sema) (map (entry_for k lexi []) (uniq (map hit_sku_id lexi))) =
     map (entry_for k lexi sema) (uniq (map hit_sku_id lexi @ map hit_sku_id sema))"
proof (induction sema rule: rev_induct)
  case (snoc h sema)
  let ?x = "hit_sku_id h" and ?seen = "map hit_sku_id lexi @ map hit_sku_id sema"
  have "add_semantic k (length sema, h) (map (entry_for k lexi sema) (uniq ?seen)) =
      map (entry_for k lexi (sema @ [h])) (uniq (?seen @ [?x]))"
    unfolding add_semantic_def prod.case
  proof (rule upsert_entries)
    assume "?x \<in> set ?seen"
    then have "find (\<lambda>x. hit_sku_id x = ?x) (lexi @ sema) \<noteq> None" by (auto simp: find_None_iff)
    then show "entry_for k lexi sema ?x\<lparr>rrfScore := rrfScore (entry_for k lexi sema ?x) + contribution k (length sema),
        semanticSim := Some (sim_score h)\<rparr> = entry_for k lexi (sema @ [h]) ?x"
      by (auto simp: entry_for_def Let_def rank_sum_snoc last_sim_snoc find_append split: option.splits)
  next
    assume absent: "?x \<notin> set ?seen"
    then have "find (\<lambda>x. hit_sku_id x = ?x) (lexi @ sema) = None" and "last_sim lexi ?x = None"
      by (simp_all add: find_hit_None last_sim_None image_Un)
    with absent show "new_entry h (contribution k (length sema))\<lparr>semanticSim := Some (sim_score h)\<rparr> = entry_for k lexi (sema @ [h]) ?x"
      by (auto simp: entry_for_def Let_def rank_sum_snoc last_sim_snoc find_append new_entry_def rank_sum_absent split: option.splits)
  qed (auto simp: entry_for_def Let_def new_entry_def rank_sum_snoc last_sim_snoc find_append split: option.splits)
  then show ?case by (simp add: enumerate_append_eq snoc.IH)
qed simp

definition reference_candidate :: "search_hit list \<Rightarrow> search_hit list \<Rightarrow> uuid \<Rightarrow> fused_candidate" where
  "reference_candidate lexi sema i =
     (let h = the (find (\<lambda>h. hit_sku_id h = i) (lexi @ sema)) in
      \<lparr>fc_sku_id = i, fc_sku_code = hit_sku_code h, fc_name = hit_name h, fc_description = hit_description h,
       fc_score = (case (last_sim lexi i, last_sim sema i) of
           (Some l, Some t) \<Rightarrow> max l t | (Some l, None) \<Rightarrow> l | (None, t) \<Rightarrow> the t),
       fc_match_method = (if last_sim lexi i \<noteq> None \<and> last_sim sema i \<noteq> None then Fused
         else if last_sim lexi i \<noteq> None then Fuzzy else Semantic)\<rparr>)"

lemma sort_key_map: "sort_key f (map g xs) = map g (sort_key (f \<circ> g) xs)"
proof (induction xs)
  case (Cons x xs)
  have "insort_key f (g x) (map g ys) = map g (insort_key (f \<circ> g) x ys)" for ys
    by (induction ys) simp_all
  with Cons show ?case by (simp add: comp_def)
qed simp

lemma to_candidate_entry: "to_candidate (entry_for k lexi sema i) = reference_candidate lexi sema i"
  by (auto simp: to_candidate_def entry_for_def reference_candidate_def Let_def split: option.splits)

text \<open>
  C16. Reciprocal rank fusion is what its name says: for any two rankings (products may occur in both, or
  twice in one) the result lists every product that occurs exactly once, ordered by the decreasing sum of
  the reciprocals of its ranks in the two lists (a tie keeps the order of first appearance), with the
  similarity and method of the lists it was found in; a negative smoothing constant is refused.
\<close>

theorem fuseRrf_reference:
  "fuseRrf lexi sema k =
     (if k < 0 then None
      else Some (map (reference_candidate lexi sema)
        (sort_key (\<lambda>i. - (rank_sum k lexi i + rank_sum k sema i)) (uniq (map hit_sku_id (lexi @ sema))))))"
proof -
  have key: "(\<lambda>e. - rrfScore e) \<circ> entry_for k lexi sema = (\<lambda>i. - (rank_sum k lexi i + rank_sum k sema i))"
    by (auto simp: entry_for_def Let_def)
  have "sort_key (\<lambda>e. - rrfScore e) (fold (add_semantic k) (enumerate 0 sema) (fold (add_lexical k) (enumerate 0 lexi) [])) =
      map (entry_for k lexi sema) (sort_key (\<lambda>i. - (rank_sum k lexi i + rank_sum k sema i)) (uniq (map hit_sku_id (lexi @ sema))))"
    by (simp add: lexical_entries all_entries sort_key_map key)
  then show ?thesis by (simp add: fuseRrf_def Let_def to_candidate_entry comp_def del: map_append)
qed

section \<open>Retrieval\<close>

text \<open>
  The trigram similarity and its match operator, the vector distance, the embedding service (\<open>None\<close>: not
  available), and whether the database answers. UUID recognition belongs to the schema library.
\<close>

record retrieval =
  word_similarity :: "string \<Rightarrow> string \<Rightarrow> rat"
  word_matches :: "string \<Rightarrow> string \<Rightarrow> bool"
  cosine_distance :: "rat list \<Rightarrow> rat list \<Rightarrow> rat"
  embed :: "string \<Rightarrow> rat list option"
  queries_ok :: bool
  uuid_ok :: "string \<Rightarrow> bool"

definition haystack :: "sku \<Rightarrow> string" where
  "haystack s = sku_code s @ '' '' @ sku_name s @ '' '' @ (case sku_description s of Some t \<Rightarrow> t | None \<Rightarrow> [])"

definition hit_of :: "sku \<Rightarrow> rat \<Rightarrow> search_hit" where
  "hit_of s x = \<lparr>hit_sku_id = sku_id s, hit_sku_code = sku_code s, hit_name = sku_name s,
     hit_description = sku_description s, sim_score = x\<rparr>"

definition lexicalSearch :: "retrieval \<Rightarrow> sku list \<Rightarrow> string \<Rightarrow> uuid \<Rightarrow> nat \<Rightarrow> search_hit list option" where
  "lexicalSearch rt rows query orgId limit =
     (if \<not> queries_ok rt then None
      else Some (take limit (sort_key (\<lambda>h. - sim_score h)
        (map (\<lambda>s. hit_of s (word_similarity rt query (haystack s)))
          (filter (\<lambda>s. sku_org_id s = orgId \<and> sku_active s \<and> word_matches rt query (haystack s)) rows)))))"

definition semanticSearch :: "retrieval \<Rightarrow> sku list \<Rightarrow> rat list \<Rightarrow> uuid \<Rightarrow> nat \<Rightarrow> search_hit list option" where
  "semanticSearch rt rows vector orgId limit =
     (if \<not> queries_ok rt then None
      else Some (take limit (map (\<lambda>s. hit_of s (1 - cosine_distance rt (the (sku_embedding s)) vector))
        (sort_key (\<lambda>s. cosine_distance rt (the (sku_embedding s)) vector)
          (filter (\<lambda>s. sku_org_id s = orgId \<and> sku_active s \<and> sku_embedding s \<noteq> None) rows)))))"

section \<open>The search tool\<close>

record search_input =
  si_query :: string
  si_orgId :: uuid
  si_limit :: nat

record search_candidate =
  sc_hit :: fused_candidate
  sc_rank :: nat

record search_result =
  sr_candidates :: "search_candidate list"
  degraded :: bool

definition SearchCatalogInputSchema :: "retrieval \<Rightarrow> search_input \<Rightarrow> search_input option" where
  "SearchCatalogInputSchema rt i =
     (if si_query i \<noteq> [] \<and> uuid_ok rt (si_orgId i) \<and> 1 \<le> si_limit i \<and> si_limit i \<le> 20 then Some i else None)"

definition SearchCatalogOutputSchema :: "retrieval \<Rightarrow> search_result \<Rightarrow> search_result option" where
  "SearchCatalogOutputSchema rt r =
     (if \<forall>c \<in> set (sr_candidates r). uuid_ok rt (fc_sku_id (sc_hit c)) \<and> 0 \<le> fc_score (sc_hit c) \<and>
         fc_score (sc_hit c) \<le> 1 \<and> 1 \<le> sc_rank c
      then Some r else None)"

definition semantic_rows :: "retrieval \<Rightarrow> sku list \<Rightarrow> search_input \<Rightarrow> search_hit list option option" where
  "semantic_rows rt rows i =
     (case embed rt (si_query i) of
        None \<Rightarrow> Some None
      | Some v \<Rightarrow> (case semanticSearch rt rows v (si_orgId i) (si_limit i) of None \<Rightarrow> None | Some hs \<Rightarrow> Some (Some hs)))"

definition search_catalog :: "retrieval \<Rightarrow> rat \<Rightarrow> sku list \<Rightarrow> search_input \<Rightarrow> search_result option" where
  "search_catalog rt MATCH_THRESHOLD rows i =
     (case (lexicalSearch rt rows (si_query i) (si_orgId i) (si_limit i), semantic_rows rt rows i) of
        (Some lexi, Some found) \<Rightarrow>
          (case fuseRrf lexi (case found of Some hs \<Rightarrow> hs | None \<Rightarrow> []) DEFAULT_K of
             Some cs \<Rightarrow>
               (let cs = take (si_limit i) (filter (\<lambda>c. MATCH_THRESHOLD \<le> fc_score c) cs) in
                Some \<lparr>sr_candidates = map (\<lambda>(n, c). \<lparr>sc_hit = c, sc_rank = n\<rparr>) (enumerate 1 cs), degraded = (found = None)\<rparr>)
           | None \<Rightarrow> None)
      | _ \<Rightarrow> None)"

definition search_contract :: "retrieval \<Rightarrow> rat \<Rightarrow> sku list \<Rightarrow> (search_input, search_input, search_result, search_result) contract" where
  "search_contract rt threshold rows = \<lparr>inputSchema = SearchCatalogInputSchema rt,
     execute = search_catalog rt threshold rows, outputSchema = SearchCatalogOutputSchema rt\<rparr>"

section \<open>What a search returns\<close>

definition in_catalog :: "sku list \<Rightarrow> uuid \<Rightarrow> uuid \<Rightarrow> bool" where
  "in_catalog rows orgId i \<longleftrightarrow> (\<exists>s \<in> set rows. sku_id s = i \<and> sku_org_id s = orgId \<and> sku_active s)"

lemma lexicalSearch_in_catalog:
  "lexicalSearch rt rows q orgId n = Some hs \<Longrightarrow> h \<in> set hs \<Longrightarrow> in_catalog rows orgId (hit_sku_id h)"
  by (fastforce simp: lexicalSearch_def in_catalog_def hit_of_def split: if_splits dest!: in_set_takeD)

lemma semanticSearch_in_catalog:
  "semanticSearch rt rows v orgId n = Some hs \<Longrightarrow> h \<in> set hs \<Longrightarrow> in_catalog rows orgId (hit_sku_id h)"
  by (fastforce simp: semanticSearch_def in_catalog_def hit_of_def split: if_splits dest!: in_set_takeD)

lemma semantic_rows_in_catalog:
  "semantic_rows rt rows i = Some (Some hs) \<Longrightarrow> h \<in> set hs \<Longrightarrow> in_catalog rows (si_orgId i) (hit_sku_id h)"
  by (auto simp: semantic_rows_def intro: semanticSearch_in_catalog split: option.splits)

lemma search_catalog_Some:
  assumes "search_catalog rt th rows i = Some r"
  obtains cs where "map sc_hit (sr_candidates r) = cs" and "map sc_rank (sr_candidates r) = [1..<Suc (length cs)]"
    and "length cs \<le> si_limit i" and "distinct (map fc_sku_id cs)"
    and "\<And>c. c \<in> set cs \<Longrightarrow> th \<le> fc_score c \<and> in_catalog rows (si_orgId i) (fc_sku_id c) \<and> fc_match_method c \<noteq> Exact"
proof -
  from assms obtain lexi found cs where lexi: "lexicalSearch rt rows (si_query i) (si_orgId i) (si_limit i) = Some lexi"
    and found: "semantic_rows rt rows i = Some found"
    and cs: "fuseRrf lexi (case found of Some hs \<Rightarrow> hs | None \<Rightarrow> []) DEFAULT_K = Some cs"
    and r: "r = \<lparr>sr_candidates = map (\<lambda>(n, c). \<lparr>sc_hit = c, sc_rank = n\<rparr>)
      (enumerate 1 (take (si_limit i) (filter (\<lambda>c. th \<le> fc_score c) cs))), degraded = (found = None)\<rparr>"
    by (auto simp: search_catalog_def Let_def split: option.splits)
  let ?sema = "case found of Some hs \<Rightarrow> hs | None \<Rightarrow> []" and ?cs = "take (si_limit i) (filter (\<lambda>c. th \<le> fc_score c) cs)"
  have hits: "in_catalog rows (si_orgId i) (hit_sku_id h)" if "h \<in> set (lexi @ ?sema)" for h
    using that lexicalSearch_in_catalog [OF lexi] semantic_rows_in_catalog [of rt rows i] found by (auto split: option.splits)
  have eq: "cs = map to_candidate (sort_key (\<lambda>e. - rrfScore e) (map (entry_for DEFAULT_K lexi ?sema) (uniq (map hit_sku_id (lexi @ ?sema)))))"
    using cs by (simp add: fuseRrf_def lexical_entries all_entries Let_def split: if_splits)
  have ids: "fc_sku_id \<circ> (to_candidate \<circ> entry_for DEFAULT_K lexi ?sema) = (\<lambda>i. i)"
    by (auto simp: to_candidate_entry reference_candidate_def Let_def)
  have "distinct (map fc_sku_id cs)" and sub: "set (map fc_sku_id cs) \<subseteq> hit_sku_id ` set (lexi @ ?sema)"
    unfolding eq sort_key_map map_map ids by (simp_all add: image_Un)
  then have d: "distinct (map fc_sku_id ?cs)" by (simp add: distinct_map_filter take_map [symmetric])
  have never: "fc_match_method (to_candidate x) \<noteq> Exact" for x
    by (simp add: to_candidate_def Let_def split: option.splits)
  have "th \<le> fc_score c \<and> in_catalog rows (si_orgId i) (fc_sku_id c) \<and> fc_match_method c \<noteq> Exact" if "c \<in> set ?cs" for c
  proof -
    from in_set_takeD [OF that] have "c \<in> set cs" and th: "th \<le> fc_score c" by auto
    then have "fc_sku_id c \<in> hit_sku_id ` set (lexi @ ?sema)" using sub by (auto simp del: set_append)
    then obtain h where "h \<in> set (lexi @ ?sema)" "fc_sku_id c = hit_sku_id h" by (auto simp del: set_append)
    moreover have "fc_match_method c \<noteq> Exact" using \<open>c \<in> set cs\<close> never unfolding eq by auto
    ultimately show ?thesis using th hits by auto
  qed
  moreover have "sc_hit \<circ> (\<lambda>(n, c). \<lparr>sc_hit = c, sc_rank = n\<rparr>) = snd" "sc_rank \<circ> (\<lambda>(n, c). \<lparr>sc_hit = c, sc_rank = n\<rparr>) = fst"
    by auto
  then have "map sc_hit (sr_candidates r) = ?cs" "map sc_rank (sr_candidates r) = [1..<Suc (length ?cs)]"
    unfolding r by (simp_all del: upt_Suc)
  moreover have "length ?cs \<le> si_limit i" by simp
  ultimately show ?thesis using d that [of ?cs] by blast
qed

end
