(* ===== verification/Match_Node.thy ===== *)
theory Match_Node
  imports Catalog_Search Line_Updates
begin

text \<open>
  The match node (\<open>catalog/match.node.ts\<close>): for every line without a product it searches the catalogue
  through the tool registry, stores the candidates (\<open>catalog/candidate-match.model-action.ts\<close>) and assigns
  the first, with the close-tie flag when the runner-up is within the margin.
\<close>

section \<open>The node\<close>

text \<open>The retrieval, the thresholds of the environment, and whether the audit trail and the call log accept a row.\<close>

record match_env =
  me_retrieval :: retrieval
  MATCH_THRESHOLD :: rat
  AUTO_THRESHOLD :: rat
  CLOSE_TIE_MARGIN :: rat
  me_audit :: "db \<Rightarrow> bool"
  me_log_ok :: bool

definition candidate_row :: "uuid \<Rightarrow> search_candidate \<Rightarrow> candidate_match" where
  "candidate_row i c = \<lparr>cm_line_item_id = i, cm_sku_id = fc_sku_id (sc_hit c),
     cm_score = to_numeric 3 (fc_score (sc_hit c)), cm_rank = int (sc_rank c)\<rparr>"

definition replaceForLineItem :: "uuid \<Rightarrow> search_candidate list \<Rightarrow> db \<Rightarrow> db" where
  "replaceForLineItem i cs d =
     d\<lparr>candidates := filter (\<lambda>c. cm_line_item_id c \<noteq> i) (candidates d) @ map (candidate_row i) cs\<rparr>"

definition skipped :: "line_item \<Rightarrow> bool" where
  "skipped item \<longleftrightarrow> (let trimmed = trim (raw_text item) in trimmed = [] \<or> map upper_char trimmed = ''UNKNOWN'')"

definition assigned_method :: "match_env \<Rightarrow> fused_candidate \<Rightarrow> match_method" where
  "assigned_method e best =
     (if AUTO_THRESHOLD e \<le> fc_score best \<and> (fc_match_method best = Fuzzy \<or> fc_match_method best = Fused) then Exact
      else fc_match_method best)"

fun runner_up :: "match_env \<Rightarrow> search_candidate list \<Rightarrow> (rat \<times> rat) option" where
  "runner_up e (best # second # cs) =
     (if fc_score (sc_hit best) - CLOSE_TIE_MARGIN e \<le> fc_score (sc_hit second)
      then Some (fc_score (sc_hit best), fc_score (sc_hit second)) else None)"
| "runner_up e _ = None"

definition match_write :: "match_env \<Rightarrow> line_item \<Rightarrow> search_candidate list \<Rightarrow> line_item \<Rightarrow> line_item" where
  "match_write e item cs row =
     (let best = sc_hit (hd cs) in
      row\<lparr>matched_sku_id := Some (fc_sku_id best), match_confidence := Some (to_numeric 3 (fc_score best)),
        li_match_method := Some (assigned_method e best),
        li_flags := Some (if runner_up e cs \<noteq> None then flags_of item @ [CLOSE_TIE_FLAG] else flags_of item),
        match_routing_reason := runner_up e cs\<rparr>)"

definition search_line :: "match_env \<Rightarrow> uuid \<Rightarrow> uuid \<Rightarrow> line_item \<Rightarrow> db \<Rightarrow> search_result tool_answer \<times> db" where
  "search_line e requestId orgId item d =
     invoke (me_audit e) (me_log_ok e) [''search_catalog'' \<mapsto> search_contract (me_retrieval e) (MATCH_THRESHOLD e) (skus d)]
       ''search_catalog'' \<lparr>si_query = trim (raw_text item), si_orgId = orgId, si_limit = 5\<rparr> (Some requestId) 1 (Some orgId) d"

text \<open>The body of the loop; \<open>Inl\<close>: an audit event could not be written and the exception leaves the node.\<close>

type_synonym match_state = "nat \<times> bool \<times> db"

definition match_item :: "match_env \<Rightarrow> uuid \<Rightarrow> uuid \<Rightarrow> line_item \<Rightarrow> match_state \<Rightarrow> db + match_state" where
  "match_item e requestId orgId item st =
     (case st of (n, dg, d) \<Rightarrow>
        if matched_sku_id item \<noteq> None then Inr (Suc n, dg, d)
        else if skipped item then Inr (n, dg, d)
        else
          (case search_line e requestId orgId item d of
             (Tool_Aborted, d) \<Rightarrow> Inl d
           | (Tool_Ok r, d) \<Rightarrow>
               (let dg = dg \<or> degraded r; cs = sr_candidates r; d = replaceForLineItem (li_id item) cs d in
                if cs = [] then Inr (n, dg, d)
                else Inr (Suc n, dg, update_line (li_id item) (match_write e item cs) d))
           | (_, d) \<Rightarrow> Inr (n, dg, d)))"

fun match_items :: "match_env \<Rightarrow> uuid \<Rightarrow> uuid \<Rightarrow> line_item list \<Rightarrow> match_state \<Rightarrow> db + match_state" where
  "match_items e requestId orgId [] st = Inr st"
| "match_items e requestId orgId (item # items) st =
     (case match_item e requestId orgId item st of Inl d \<Rightarrow> Inl d | Inr st \<Rightarrow> match_items e requestId orgId items st)"

definition emitMatchExited :: "match_env \<Rightarrow> uuid \<Rightarrow> uuid \<Rightarrow> nat \<Rightarrow> nat \<Rightarrow> bool \<Rightarrow> db \<Rightarrow> db" where
  "emitMatchExited e orgId requestId n tot dg d =
     (if me_audit e d then emit (Some orgId) (Some requestId) None None (Ev_Match_Exited n tot dg) d else d)"

definition match_node :: "match_env \<Rightarrow> uuid \<Rightarrow> uuid \<Rightarrow> db \<Rightarrow> node_outcome \<times> db" where
  "match_node e requestId orgId d =
     (let items = lines_of_request requestId d; tot = length items in
      if items = [] then (Returned (Advance Price), emitMatchExited e orgId requestId 0 0 False d)
      else if \<forall>item \<in> set items. matched_sku_id item \<noteq> None then
        (Returned (Advance Price), emitMatchExited e orgId requestId tot tot False d)
      else
        (case match_items e requestId orgId items (0, False, d) of
           Inl d \<Rightarrow> (Threw Other_Error, d)
         | Inr (n, dg, d) \<Rightarrow> (Returned (Advance Price), emitMatchExited e orgId requestId n tot dg d)))"

section \<open>What it does to a line\<close>

text \<open>The candidates a search of the catalogue finds for a line the node works on.\<close>

definition found_candidates :: "match_env \<Rightarrow> uuid \<Rightarrow> sku list \<Rightarrow> line_item \<Rightarrow> search_candidate list" where
  "found_candidates e orgId rows item =
     (let i = \<lparr>si_query = trim (raw_text item), si_orgId = orgId, si_limit = 5\<rparr>; rt = me_retrieval e in
      if matched_sku_id item \<noteq> None \<or> skipped item then []
      else (case SearchCatalogInputSchema rt i of
              None \<Rightarrow> []
            | Some i \<Rightarrow> (case search_catalog rt (MATCH_THRESHOLD e) rows i of
                None \<Rightarrow> []
              | Some raw \<Rightarrow> (case SearchCatalogOutputSchema rt raw of None \<Rightarrow> [] | Some r \<Rightarrow> sr_candidates r))))"

definition matched_line :: "match_env \<Rightarrow> uuid \<Rightarrow> sku list \<Rightarrow> line_item \<Rightarrow> line_item" where
  "matched_line e orgId rows item =
     (let cs = found_candidates e orgId rows item in if cs = [] then item else match_write e item cs item)"

definition match_writes :: "match_env \<Rightarrow> uuid \<Rightarrow> sku list \<Rightarrow> line_item \<Rightarrow> (uuid \<times> (line_item \<Rightarrow> line_item)) list" where
  "match_writes e orgId rows item =
     (let cs = found_candidates e orgId rows item in if cs = [] then [] else [(li_id item, match_write e item cs)])"

lemma replaceForLineItem_fields [simp]:
  "requests (replaceForLineItem i cs d) = requests d" "line_items (replaceForLineItem i cs d) = line_items d"
  "skus (replaceForLineItem i cs d) = skus d" "events (replaceForLineItem i cs d) = events d"
  "clock (replaceForLineItem i cs d) = clock d"
  by (simp_all add: replaceForLineItem_def)

lemma match_write_id [simp]: "li_id (match_write e item cs row) = li_id row"
  by (simp add: match_write_def Let_def)

lemma search_line_frame: "tool_frame d (snd (search_line e r orgId item d))"
  by (simp add: search_line_def invoke_frame)

text \<open>The answer of the tool is the search, unless an event could not be written.\<close>

lemma run_call_answer:
  assumes "run_call ok log_ok c args d = (a, d')" and "a \<noteq> Tool_Aborted" and "c_contract c = Some contract"
  shows "a = (case inputSchema contract args of None \<Rightarrow> Tool_Validation_Error
     | Some input \<Rightarrow> (case execute contract input of None \<Rightarrow> Tool_Error
       | Some raw \<Rightarrow> (case outputSchema contract raw of None \<Rightarrow> Tool_Validation_Error | Some result \<Rightarrow> Tool_Ok result)))"
  using assms by (auto simp: run_call_def fail_call_def Let_def split: if_splits option.splits)

lemma search_line_candidates:
  assumes "search_line e r orgId item d = (a, d')" and "a \<noteq> Tool_Aborted" and "matched_sku_id item = None" and "\<not> skipped item"
  shows "found_candidates e orgId (skus d) item = (case a of Tool_Ok res \<Rightarrow> sr_candidates res | _ \<Rightarrow> [])"
proof -
  have low: "lower ''search_catalog'' = ''search_catalog''" by (simp add: lower_def lower_char_def Let_def)
  from assms(1) have run: "run_call (me_audit e) (me_log_ok e)
      \<lparr>c_contract = Some (search_contract (me_retrieval e) (MATCH_THRESHOLD e) (skus d)), c_name = ''search_catalog'',
       c_request = r, c_attempt = 1, c_org = Some orgId\<rparr> \<lparr>si_query = trim (raw_text item), si_orgId = orgId, si_limit = 5\<rparr> d = (a, d')"
    by (simp add: search_line_def invoke_def low Let_def)
  show ?thesis
    by (subst run_call_answer [OF run assms(2)])
      (use assms(3,4) in \<open>auto simp: found_candidates_def search_contract_def Let_def split: option.splits\<close>)
qed

lemma match_item_effect:
  assumes "match_item e r orgId item (n, dg, d) = Inr (n', dg', d')"
  shows "line_items d' = line_items (update_lines (match_writes e orgId (skus d) item) d) \<and> skus d' = skus d"
proof (cases "matched_sku_id item \<noteq> None \<or> skipped item")
  case True
  then have "found_candidates e orgId (skus d) item = []" by (simp add: found_candidates_def Let_def)
  with True assms show ?thesis by (auto simp: match_item_def match_writes_def update_lines_def split: if_splits)
next
  case False
  obtain a d1 where s: "search_line e r orgId item d = (a, d1)" by (cases "search_line e r orgId item d") auto
  from search_line_frame [of d e r orgId item] s have kept: "line_items d1 = line_items d" "skus d1 = skus d"
    by (auto dest: tool_frame_fields)
  have a: "a \<noteq> Tool_Aborted" using assms False s by (auto simp: match_item_def)
  note c = search_line_candidates [OF s a]
  show ?thesis using assms False s kept c
    by (cases a) (auto simp: match_item_def match_writes_def update_lines_def Let_def split: if_splits)
qed

lemma update_lines_append: "update_lines (us @ vs) d = update_lines vs (update_lines us d)"
  by (simp add: update_lines_def)

lemma update_lines_cong:
  "line_items d = line_items e \<Longrightarrow> line_items (update_lines us d) = line_items (update_lines us e)"
proof (induction us arbitrary: d e)
  case (Cons u us)
  then have "line_items (update_line (fst u) (snd u) d) = line_items (update_line (fst u) (snd u) e)" by simp
  from Cons.IH [OF this] show ?case by (simp add: update_lines_def case_prod_beta)
qed (simp add: update_lines_def)

lemma match_items_effect:
  assumes "match_items e r orgId items (n, dg, d) = Inr (n', dg', d')"
  shows "line_items d' = line_items (update_lines (concat (map (match_writes e orgId (skus d)) items)) d) \<and> skus d' = skus d"
  using assms
proof (induction items arbitrary: n dg d)
  case (Cons item items)
  from Cons.prems obtain n1 dg1 d1 where m: "match_item e r orgId item (n, dg, d) = Inr (n1, dg1, d1)"
    and rest: "match_items e r orgId items (n1, dg1, d1) = Inr (n', dg', d')"
    by (auto split: sum.splits)
  let ?ws = "match_writes e orgId (skus d) item" and ?rest = "concat (map (match_writes e orgId (skus d)) items)"
  from match_item_effect [OF m] have d1: "line_items d1 = line_items (update_lines ?ws d)" and k1: "skus d1 = skus d" by auto
  from Cons.IH [OF rest] k1 have d': "line_items d' = line_items (update_lines ?rest d1)" and k': "skus d' = skus d" by auto
  have "line_items d' = line_items (update_lines ?rest (update_lines ?ws d))"
    unfolding d' by (rule update_lines_cong [OF d1])
  then show ?case using k' by (simp add: update_lines_append)
qed (simp add: update_lines_def)

lemma match_writes_fst: "set (map fst (match_writes e orgId rows item)) \<subseteq> {li_id item}"
  by (auto simp: match_writes_def Let_def)

lemma match_writes_ids: "fst ` set (concat (map (match_writes e orgId rows) items)) \<subseteq> li_id ` set items"
proof (induction items)
  case (Cons x xs)
  then show ?case using match_writes_fst [of e orgId rows x] by (auto simp: image_Un)
qed simp

lemma no_match_write: "i \<notin> li_id ` set items \<Longrightarrow> map_of (concat (map (match_writes e orgId rows) items)) i = None"
  using match_writes_ids [of e orgId rows items] by (auto simp only: map_of_eq_None_iff)

lemma map_of_match_writes:
  assumes "distinct (map li_id items)" and "item \<in> set items"
  shows "map_of (concat (map (match_writes e orgId rows) items)) (li_id item) = map_of (match_writes e orgId rows item) (li_id item)"
  using assms
proof (induction items)
  case (Cons x xs)
  have other: "map_of (match_writes e orgId rows x) (li_id item) = None" if "li_id x \<noteq> li_id item" for x
    using that match_writes_fst [of e orgId rows x] by (auto simp: map_of_eq_None_iff)
  show ?case
  proof (cases "x = item")
    case True
    have "map_of (concat (map (match_writes e orgId rows) xs)) (li_id item) = None"
      using Cons.prems True by (intro no_match_write) auto
    then show ?thesis using True by (simp add: map_add_def split: option.splits)
  next
    case False
    then have "li_id x \<noteq> li_id item" and "item \<in> set xs" using Cons.prems by (auto simp: image_iff)
    then show ?thesis using Cons other by (simp add: map_add_def split: option.splits)
  qed
qed simp

lemma disjoint_singleton: "A \<subseteq> {x} \<Longrightarrow> x \<notin> B \<Longrightarrow> A \<inter> B = {}"
  by blast

lemma distinct_map_appendI:
  "distinct (map f xs) \<Longrightarrow> distinct (map f ys) \<Longrightarrow> f ` set xs \<inter> f ` set ys = {} \<Longrightarrow> distinct (map f (xs @ ys))"
  by simp

lemma distinct_match_writes:
  "distinct (map li_id items) \<Longrightarrow> distinct (map fst (concat (map (match_writes e orgId rows) items)))"
proof (induction items)
  case (Cons x xs)
  have "li_id x \<notin> fst ` set (concat (map (match_writes e orgId rows) xs))"
    using Cons.prems match_writes_ids [of e orgId rows xs] by auto
  with match_writes_fst [of e orgId rows x]
  have "fst ` set (match_writes e orgId rows x) \<inter> fst ` set (concat (map (match_writes e orgId rows) xs)) = {}"
    by (intro disjoint_singleton) (simp_all only: set_map)
  moreover have "distinct (map fst (match_writes e orgId rows x))" by (simp add: match_writes_def Let_def)
  moreover have "distinct (map fst (concat (map (match_writes e orgId rows) xs)))" using Cons by simp
  ultimately show ?case unfolding list.map concat.simps by (rule distinct_map_appendI [rotated 2])
qed simp

lemma emitMatchExited_fields [simp]:
  "line_items (emitMatchExited e o' r n t g d) = line_items d" "requests (emitMatchExited e o' r n t g d) = requests d"
  "skus (emitMatchExited e o' r n t g d) = skus d" "clock (emitMatchExited e o' r n t g d) = clock d"
  by (simp_all add: emitMatchExited_def)

lemma matched_line_matched: "matched_sku_id item \<noteq> None \<Longrightarrow> matched_line e orgId rows item = item"
  by (simp add: matched_line_def found_candidates_def Let_def)

lemma match_node_lines:
  assumes "match_node e r orgId d = (Returned out, d')" and "distinct (map li_id (line_items d))"
  shows "out = Advance Price"
    and "line_items d' = map (\<lambda>l. if li_request_id l = r then matched_line e orgId (skus d) l else l) (line_items d)"
proof -
  let ?items = "lines_of_request r d"
  have mem: "l \<in> set ?items \<longleftrightarrow> l \<in> set (line_items d) \<and> li_request_id l = r" for l by (auto simp: lines_of_request_def)
  show "out = Advance Price" using assms(1) by (auto simp: match_node_def Let_def split: if_splits sum.splits)
  show "line_items d' = map (\<lambda>l. if li_request_id l = r then matched_line e orgId (skus d) l else l) (line_items d)"
  proof (cases "?items = [] \<or> (\<forall>item \<in> set ?items. matched_sku_id item \<noteq> None)")
    case True
    have same: "(if li_request_id l = r then matched_line e orgId (skus d) l else l) = l" if "l \<in> set (line_items d)" for l
      using True that mem [of l] by (auto simp: matched_line_matched)
    have "line_items d' = line_items d" using assms(1) True by (auto simp: match_node_def Let_def split: if_splits)
    then show ?thesis by (simp add: map_idI same)
  next
    case False
    then obtain n dg d1 where m: "match_items e r orgId ?items (0, False, d) = Inr (n, dg, d1)" and d': "line_items d' = line_items d1"
      using assms(1) by (auto simp: match_node_def Let_def split: if_splits sum.splits)
    let ?us = "concat (map (match_writes e orgId (skus d)) ?items)"
    have ids: "distinct (map li_id ?items)"
      using assms(2) by (auto simp: lines_of_request_def distinct_map intro: inj_on_subset)
    have pass: "line_items d1 = map (apply_updates ?us) (line_items d)"
      using match_items_effect [OF m]
      by (simp add: update_lines_one_pass [OF distinct_match_writes [OF ids]] match_writes_def Let_def)
    have row: "apply_updates ?us l = (if li_request_id l = r then matched_line e orgId (skus d) l else l)"
      if l: "l \<in> set (line_items d)" for l
    proof (cases "li_request_id l = r")
      case True
      then show ?thesis using l mem [of l]
        by (simp add: apply_updates_def map_of_match_writes [OF ids] match_writes_def matched_line_def Let_def)
    next
      case other: False
      have "li_id l \<notin> li_id ` set ?items"
        using assms(2) l other mem by (auto simp: distinct_map inj_on_def)
      then have "map_of ?us (li_id l) = None" by (rule no_match_write)
      then show ?thesis using other by (simp add: apply_updates_def)
    qed
    show ?thesis unfolding d' pass by (rule map_cong [OF refl row])
  qed
qed

lemma found_candidates_sound:
  assumes "found_candidates e orgId rows item = c # cs"
  shows "matched_sku_id item = None" and "\<not> skipped item" and "in_catalog rows orgId (fc_sku_id (sc_hit c))"
    and "MATCH_THRESHOLD e \<le> fc_score (sc_hit c)" and "fc_score (sc_hit c) \<le> 1" and "length (c # cs) \<le> 5"
    and "fc_match_method (sc_hit c) \<noteq> Exact"
proof -
  let ?i = "\<lparr>si_query = trim (raw_text item), si_orgId = orgId, si_limit = 5\<rparr>"
  show open_line: "matched_sku_id item = None" "\<not> skipped item" using assms by (auto simp: found_candidates_def Let_def split: if_splits)
  from assms obtain raw where raw: "search_catalog (me_retrieval e) (MATCH_THRESHOLD e) rows ?i = Some raw"
    and out: "SearchCatalogOutputSchema (me_retrieval e) raw = Some raw" and cs: "sr_candidates raw = c # cs"
    by (auto simp: found_candidates_def SearchCatalogInputSchema_def SearchCatalogOutputSchema_def Let_def split: if_splits option.splits)
  from search_catalog_Some [OF raw] obtain hits where hits: "map sc_hit (sr_candidates raw) = hits" "length hits \<le> 5"
    and each: "\<And>h. h \<in> set hits \<Longrightarrow> MATCH_THRESHOLD e \<le> fc_score h \<and> in_catalog rows orgId (fc_sku_id h) \<and> fc_match_method h \<noteq> Exact"
    by auto
  have c: "sc_hit c \<in> set hits" using hits(1) cs by auto
  show "in_catalog rows orgId (fc_sku_id (sc_hit c))" "MATCH_THRESHOLD e \<le> fc_score (sc_hit c)" "fc_match_method (sc_hit c) \<noteq> Exact" using each [OF c] by auto
  show "length (c # cs) \<le> 5" using hits cs by auto
  show "fc_score (sc_hit c) \<le> 1" using out cs by (auto simp: SearchCatalogOutputSchema_def split: if_splits)
qed


lemma run_call_not_aborted:
  assumes "\<And>d. ok d"
  shows "fst (run_call ok log_ok c args d) \<noteq> Tool_Aborted"
  using assms by (auto simp: run_call_def fail_call_def Let_def split: option.splits)

lemma match_node_returns:
  assumes "\<And>d. me_audit e d"
  shows "fst (match_node e r orgId d) = Returned (Advance Price)"
proof -
  have call: "fst (search_line e r orgId item d) \<noteq> Tool_Aborted" for item d
    unfolding search_line_def invoke_def Let_def by (rule run_call_not_aborted) (rule assms)
  have step: "\<exists>st'. match_item e r orgId item st = Inr st'" for item st
  proof (cases st)
    case (fields n dg d)
    obtain a d1 where s: "search_line e r orgId item d = (a, d1)" by (cases "search_line e r orgId item d") auto
    then show ?thesis using call [of item d] by (cases a) (auto simp: match_item_def fields Let_def)
  qed
  have "\<exists>st'. match_items e r orgId items st = Inr st'" for items st
  proof (induction items arbitrary: st)
    case (Cons item items)
    then show ?case using step [of item st] by auto
  next
    case Nil
    show ?case by (rule exI [of _ st]) simp
  qed
  then obtain n dg d1 where "match_items e r orgId (lines_of_request r d) (0, False, d) = Inr (n, dg, d1)"
    by (metis prod_cases3)
  then show ?thesis by (simp add: match_node_def Let_def)
qed

definition sample_retrieval :: retrieval where
  "sample_retrieval = \<lparr>word_similarity = (\<lambda>_ _. 9 / 10), word_matches = (\<lambda>_ _. True), cosine_distance = (\<lambda>_ _. 0),
     embed = (\<lambda>_. None), queries_ok = True, uuid_ok = (\<lambda>_. True)\<rparr>"

definition sample_match :: match_env where
  "sample_match = \<lparr>me_retrieval = sample_retrieval, MATCH_THRESHOLD = 7 / 10, AUTO_THRESHOLD = 95 / 100,
     CLOSE_TIE_MARGIN = 5 / 100, me_audit = (\<lambda>_. True), me_log_ok = True\<rparr>"

lemma sample_match_row:
  "matched_line sample_match ''org'' (skus (catalog_db ''EUR'')) (demo_line ''l3'' 3 None (Some 1)) =
     (demo_line ''l3'' 3 None (Some 1))\<lparr>matched_sku_id := Some ''s1'', match_confidence := Some (9 / 10), li_match_method := Some Fuzzy,
       li_flags := Some [CLOSE_TIE_FLAG], match_routing_reason := Some (9 / 10, 9 / 10)\<rparr>"
  by code_simp


end
