(* ===== verification/Pipeline_Runs.thy ===== *)
theory Pipeline_Runs
  imports Pipeline Parse_Node Extract_Node Classify_Node Match_Node Price_Node Scoring
begin

text \<open>
  Runs of the pipeline: the seven nodes as the engine registers them, which meet what the engine relies on, and
  what a run leaves behind: the stream it writes, the status it settles, what a
  crash leaves for the recovery sweep, and the transition limit.
\<close>

section \<open>The nodes\<close>

record pipeline_env =
  pe_parse :: parse_env
  pe_extract :: extract_env
  pe_classify :: classify_env
  pe_match :: match_env
  pe_price :: price_env
  pe_newId :: uuid
  pe_emit_ok :: bool
  pe_scoring :: scoring_config
  pe_raw :: raw_settings
  pe_thresholds :: threshold_state

definition price_impl :: "pipeline_env \<Rightarrow> node_impl" where
  "price_impl e r orgId d = price_node (pe_price e) (pe_newId e) r orgId d"

definition policy_impl :: "pipeline_env \<Rightarrow> node_impl" where
  "policy_impl e r orgId d = policy_node (pe_emit_ok e) r orgId d"

definition score_impl :: "pipeline_env \<Rightarrow> node_impl" where
  "score_impl e r orgId d =
     (case score_node (pe_emit_ok e) (pe_scoring e) (pe_raw e) r orgId (pe_thresholds e, d) of (out, st, d') \<Rightarrow> (out, d'))"

text \<open>Each node registers itself under its name.\<close>

definition all_nodes :: "pipeline_env \<Rightarrow> node_registry" where
  "all_nodes e =
     registry_register Parse (parse_node (pe_parse e)) (registry_register Extract (extract_node (pe_extract e))
       (registry_register Classify (classify_node (pe_classify e)) (registry_register Match (match_node (pe_match e))
         (registry_register Price (price_impl e) (registry_register Policy (policy_impl e)
           (registry_register Score (score_impl e) (\<lambda>_. None)))))))"

lemma all_nodes_cases:
  "all_nodes e n = (case n of
     Parse \<Rightarrow> Some (parse_node (pe_parse e)) | Extract \<Rightarrow> Some (extract_node (pe_extract e))
   | Classify \<Rightarrow> Some (classify_node (pe_classify e)) | Match \<Rightarrow> Some (match_node (pe_match e))
   | Price \<Rightarrow> Some (price_impl e) | Policy \<Rightarrow> Some (policy_impl e) | Score \<Rightarrow> Some (score_impl e) | _ \<Rightarrow> None)"
  by (cases n) (simp_all add: all_nodes_def registry_register_def)

lemma engine_trace_simps [simp]:
  "engine_trace (remove_quotes i d) = engine_trace d" "engine_trace (update_lines us d) = engine_trace d"
  "engine_trace (update_requests P f d) = engine_trace d"
  by (simp_all add: engine_trace_def)

lemma engine_trace_cong: "events d' = events d \<Longrightarrow> engine_trace d' = engine_trace d"
  by (simp add: engine_trace_def)

lemma replaceForRequest_kept:
  assumes "replaceForRequest i inp d = Inr d'"
  shows "requests d' = requests d \<and> clock d' = clock d \<and> events d' = events d"
  using assms by (auto simp: replaceForRequest_Inr)

lemma emit_price_kept [simp]:
  "clock (emitCompleted o' r q t b d) = clock d" "clock (emitPricingRuleMissing o' r d) = clock d"
  "clock (emitCurrencyInvalid o' r d) = clock d"
  "engine_trace (emitCompleted o' r q t b d) = engine_trace d"
  "engine_trace (emitPricingRuleMissing o' r d) = engine_trace d"
  "engine_trace (emitCurrencyInvalid o' r d) = engine_trace d"
  by (simp_all add: emitCompleted_def emitPricingRuleMissing_def emitCurrencyInvalid_def)

definition untouched :: "db \<Rightarrow> db \<Rightarrow> bool" where
  "untouched d d' \<longleftrightarrow> requests d' = requests d \<and> clock d' = clock d \<and> engine_trace d' = engine_trace d"

lemma persist_vertical_untouched: "untouched d (snd (persist_vertical i r orgId p d))"
proof (cases "vq_blocked p")
  case True
  then show ?thesis by (simp add: persist_vertical_def untouched_def deleteForRequest_eq)
next
  case unblocked: False
  show ?thesis
  proof (cases "replaceForRequest i (vertical_input r orgId p) d")
    case (Inl e)
    with unblocked show ?thesis by (simp add: persist_vertical_def untouched_def)
  next
    case (Inr d')
    from replaceForRequest_kept [OF Inr] have "requests d' = requests d" "clock d' = clock d" "engine_trace d' = engine_trace d"
      by (simp_all add: engine_trace_def)
    with unblocked Inr show ?thesis by (simp add: persist_vertical_def untouched_def)
  qed
qed

lemma price_catalog_untouched: "untouched d (snd (price_catalog i r orgId d))"
proof -
  let ?ls = "filter (priceable d) (lines_of_request r d)"
  let ?p = "priceQuote (map (pricing_input d) ?ls) (getRuleSetForOrg orgId d)"
  let ?w = "persistLinePrices ?p (flagsById ?ls) d"
  have w: "requests ?w = requests d" "clock ?w = clock d" "events ?w = events d"
    by (simp_all add: persistLinePrices_def)
  show ?thesis
  proof (cases "replaceForRequest i (catalog_input r orgId ?p) ?w")
    case (Inl e)
    then show ?thesis
      by (simp add: price_catalog_def Let_def untouched_def deleteForRequest_eq)
  next
    case (Inr d')
    from replaceForRequest_kept [OF Inr] w have "requests d' = requests d" "clock d' = clock d" "engine_trace d' = engine_trace d"
      by (simp_all add: engine_trace_def)
    with Inr show ?thesis
      by (simp add: price_catalog_def Let_def untouched_def deleteForRequest_eq)
  qed
qed

lemma price_impl_untouched: "untouched d (snd (price_impl e r orgId d))"
  unfolding price_impl_def price_node_def Let_def
  by (auto simp: priceAvac_def priceCaixilharia_def persist_vertical_untouched price_catalog_untouched split: option.splits)

lemma policy_impl_untouched: "untouched d (snd (policy_impl e r orgId d))"
  by (simp add: policy_impl_def policy_node_def Let_def emitPolicyCompleted_def persistFlags_def untouched_def)

lemma untouched_effect: "untouched d d' \<Longrightarrow> node_effect d d'"
  by (auto simp: untouched_def intro: node_effectI)

lemma persistAndEmit_effect: "persistAndEmit emit_ok s r orgId d = (out, d') \<Longrightarrow> node_effect d d'"
  unfolding node_effect_def persistAndEmit_def Let_def
  by (auto simp: find_request_update request_kept_def split: if_splits)

lemma score_impl_effect: "node_effect d (snd (score_impl e r orgId d))"
proof -
  obtain out st d' where run: "score_node (pe_emit_ok e) (pe_scoring e) (pe_raw e) r orgId (pe_thresholds e, d) = (out, st, d')"
    by (rule prod_cases3)
  then have "node_effect d d'"
    by (auto simp: score_node_def Let_def split: if_splits prod.splits dest: persistAndEmit_effect)
  with run show ?thesis by (simp add: score_impl_def)
qed

text \<open>The stages before pricing.\<close>

lemma tool_frame_untouched:
  assumes "tool_frame d d'"
  shows "untouched d d'"
proof -
  obtain cs es where d': "d' = d\<lparr>tool_calls := cs, events := events d @ es\<rparr>"
    and es: "\<forall>e \<in> set es. (\<exists>n t st a. payload e = Ev_Tool_Invoked n t st a) \<or> (\<exists>n why. payload e = Ev_Stage_Error n why)"
    using assms unfolding tool_frame_def by blast
  have "\<not> engine_event (payload e)" if "e \<in> set es" for e
    using es that by (metis engine_event_simps(7,14))
  then show ?thesis by (auto simp: untouched_def engine_trace_def d' filter_empty_conv)
qed

lemma untouched_refl [simp]: "untouched d d"
  by (simp add: untouched_def)

lemma untouched_trans: "untouched d e \<Longrightarrow> untouched e f \<Longrightarrow> untouched d f"
  by (simp add: untouched_def)

lemma parse_attachments_untouched: "untouched d (snd (parse_attachments e r orgId as d))"
proof (induction as arbitrary: d)
  case (Cons a as)
  show ?case
  proof (cases "parse_status a = Manual_Paste")
    case True
    then show ?thesis by (simp add: Cons.IH)
  next
    case unpasted: False
    show ?thesis
    proof (cases "read_attachment e a")
      case (Inl why)
      show ?thesis
      proof (cases "markUnparsed (at_id a) why d")
        case (Some d1)
        have "engine_trace d1 = engine_trace d" by (rule engine_trace_cong) (use markUnparsed_fields [OF Some] in simp)
        with markUnparsed_fields [OF Some] unpasted Inl Some show ?thesis by (simp add: untouched_def)
      qed (simp add: unpasted Inl)
    next
      case (Inr t)
      let ?d = "update_attachments (\<lambda>x. at_id x = at_id a) (parsed_attachment t) d"
      have "untouched d ?d" unfolding untouched_def by (simp add: engine_trace_def)
      from untouched_trans [OF this Cons.IH [of ?d]] unpasted Inr show ?thesis by simp
    qed
  qed
qed simp

lemma parse_node_untouched: "untouched d (snd (parse_node e r orgId d))"
  by (simp add: parse_node_def parse_attachments_untouched)

lemma match_item_untouched:
  "case match_item e r orgId i (n, dg, d) of Inl d' \<Rightarrow> untouched d d' | Inr (_, _, d') \<Rightarrow> untouched d d'"
proof -
  have fr: "untouched d (snd (search_line e r orgId i d))" by (rule tool_frame_untouched [OF search_line_frame])
  then show ?thesis
    by (auto simp: match_item_def Let_def untouched_def engine_trace_def split: prod.splits tool_answer.splits)
qed

lemma match_items_untouched:
  "case match_items e r orgId items (n, dg, d) of Inl d' \<Rightarrow> untouched d d' | Inr (_, _, d') \<Rightarrow> untouched d d'"
proof (induction items arbitrary: n dg d)
  case (Cons i items)
  show ?case
  proof (cases "match_item e r orgId i (n, dg, d)")
    case (Inl d1)
    with match_item_untouched [where e = e and r = r and orgId = orgId and i = i and n = n and dg = dg and d = d] show ?thesis by simp
  next
    case (Inr st)
    obtain n1 dg1 d1 where st: "st = (n1, dg1, d1)" by (rule prod_cases3)
    from match_item_untouched [where e = e and r = r and orgId = orgId and i = i and n = n and dg = dg and d = d] Inr st have "untouched d d1" by simp
    with Cons.IH [where n = n1 and dg = dg1 and d = d1] Inr st show ?thesis
      by (auto split: sum.splits prod.splits intro: untouched_trans)
  qed
qed simp

lemma emitMatchExited_untouched: "untouched d (emitMatchExited e orgId r n k b d)"
  by (simp add: emitMatchExited_def untouched_def)

lemma match_node_untouched: "untouched d (snd (match_node e r orgId d))"
  using match_items_untouched [where e = e and r = r and orgId = orgId and items = "lines_of_request r d" and n = 0 and dg = False and d = d]
  by (auto simp: match_node_def Let_def emitMatchExited_untouched split: sum.splits prod.splits
      intro: untouched_trans [OF _ emitMatchExited_untouched])

lemma request_update_effect:
  assumes "\<And>q. request_kept q (f q) \<and> r_id (f q) = r_id q"
    and "requests d' = update_where P f (requests d)" and "clock d' = clock d" and "engine_trace d' = engine_trace d"
  shows "node_effect d d'"
proof -
  have "\<exists>q'. find_request i d' = Some q' \<and> request_kept q q'" if "find_request i d = Some q" for i q
  proof -
    have "find (\<lambda>r. r_id r = i) (update_where P f (requests d)) =
        map_option (\<lambda>r. if P r then f r else r) (find (\<lambda>r. r_id r = i) (requests d))"
      by (rule find_update_where) (simp add: assms(1))
    with that assms(1,2) show ?thesis by (auto simp: find_request_def)
  qed
  with assms(3,4) show ?thesis by (simp add: node_effect_def)
qed

lemma classify_node_effect: "node_effect d (snd (classify_node e r orgId d))"
proof -
  have w: "request_kept q (classify_write a q) \<and> r_id (classify_write a q) = r_id q" for a q
    by (simp add: classify_write_def request_kept_def split: prod.split)
  show ?thesis
  proof (cases "find (\<lambda>q. r_id q = r \<and> r_org_id q = orgId) (requests d)")
    case (Some req)
    show ?thesis
    proof (cases "classify e (parsed_of req (lines_of_request r d))")
      case (Some a)
      with \<open>find _ _ = Some req\<close> show ?thesis
        by (intro request_update_effect [where f = "classify_write a" and P = "\<lambda>q. r_id q = r \<and> r_org_id q = orgId"])
          (simp_all add: w classify_node_def Let_def update_requests_def engine_trace_def)
    qed (simp add: classify_node_def Some)
  qed (simp add: classify_node_def)
qed

lemma extract_node_effect: "node_effect d (snd (extract_node e r orgId d))"
proof -
  have w: "request_kept q (request_write x q) \<and> r_id (request_write x q) = r_id q" for x q
    by (cases x) (simp_all add: request_write_def request_kept_def)
  have failed: "untouched d1 (emitExtractExited e r orgId b n (persistFailure r raw n d1))" for b n raw d1
    by (simp add: untouched_def emitExtractExited_def persistFailure_def engine_trace_def)
  have ok: "node_effect d1 (emitExtractExited e r orgId True n d2)" if "persistSuccess e r orgId x n d1 = Some d2" for x n d1 d2
    using that
  proof (rule persistSuccess_Some, goal_cases)
    case (1 ls)
    then show ?case
      by (intro request_update_effect [where f = "request_write x" and P = "\<lambda>q. r_id q = r \<and> r_org_id q = orgId"])
        (simp_all add: w emitExtractExited_def engine_trace_def)
  qed
  show ?thesis
  proof (cases "already_extracted r d")
    case False
    show ?thesis
    proof (cases "find (\<lambda>q. r_id q = r \<and> r_org_id q = orgId) (requests d)")
      case (Some req)
      let ?t = "aggregateSourceText r req d"
      obtain res d1 where loop: "attempts e r orgId ?t [1..maxAttempts] (None, JObj []) d = (res, d1)" by (rule prod.exhaust)
      from attempts_result [OF loop] have fr: "untouched d d1" by (auto intro: tool_frame_untouched)
      have via: "node_effect d1 d2 \<Longrightarrow> node_effect d d2" for d2
        by (rule node_effect_trans [OF untouched_effect [OF fr]])
      show ?thesis
      proof (cases "trim ?t = []")
        case True
        with False Some show ?thesis by (simp add: extract_node_def Let_def untouched_effect [OF failed])
      next
        case src: False
        show ?thesis
        proof (cases res)
          case (Accepted x k)
          with False Some src loop ok [THEN via] show ?thesis
            by (auto simp: extract_node_def Let_def intro: untouched_effect [OF fr] split: option.splits)
        next
          case (Exhausted raw)
          with False Some src loop via [OF untouched_effect [OF failed]] show ?thesis by (simp add: extract_node_def Let_def)
        next
          case Gave_Up
          with False Some src loop untouched_effect [OF fr] show ?thesis by (simp add: extract_node_def Let_def)
        qed
      qed
    qed (simp add: extract_node_def False)
  qed (simp add: extract_node_def)
qed

lemma all_effect:
  assumes "all_nodes e n = Some impl" and "impl r orgId d = (out, d')"
  shows "node_effect d d'"
  using assms untouched_effect [OF price_impl_untouched, of d e r orgId] untouched_effect [OF policy_impl_untouched, of d e r orgId]
    score_impl_effect [of d e r orgId] untouched_effect [OF parse_node_untouched, of d "pe_parse e" r orgId]
    extract_node_effect [of d "pe_extract e" r orgId] classify_node_effect [of d "pe_classify e" r orgId]
    untouched_effect [OF match_node_untouched, of d "pe_match e" r orgId]
  by (auto simp: all_nodes_cases split: current_node.splits)

interpretation all: pipeline_nodes "all_nodes e" for e
  by unfold_locales (rule all_effect)

section \<open>Sample runs\<close>

definition sample_pipeline :: pipeline_env where
  "sample_pipeline = \<lparr>pe_parse = \<lparr>ps_store = (\<lambda>_. None), ps_pdf = (\<lambda>_. None)\<rparr>, pe_extract = widget_env,
     pe_classify = \<lparr>ce_demo = None, ce_answer = (\<lambda>_ _. None), ce_json_parse = (\<lambda>_. None), CLASSIFY_THRESHOLD = 7 / 10, ce_audit = (\<lambda>_. True)\<rparr>,
     pe_match = sample_match, pe_price = demo_env, pe_newId = ''q9'', pe_emit_ok = True, pe_scoring = sample_config,
     pe_raw = \<lparr>SCORE_AUTO_THRESHOLD = None, SCORE_AUTO_SEND_CAP_MINOR = None\<rparr>, pe_thresholds = initial_thresholds sample_config\<rparr>"

text \<open>A request checkpointed at a node, with the lines of \<open>policy_db\<close> or of \<open>score_db\<close>.\<close>

definition at_node :: "current_node \<Rightarrow> request_status \<Rightarrow> db \<Rightarrow> db" where
  "at_node n st d = d\<lparr>requests := [demo_request ''org'' n st]\<rparr>"

lemma at_node_request [simp]: "find_request ''r1'' (at_node n st d) = Some (demo_request ''org'' n st)"
  by (simp add: at_node_def find_request_def demo_request_def)

lemma demo_request_fields [simp]:
  "current_node (demo_request org n st) = n" "status (demo_request org n st) = st" "r_id (demo_request org n st) = ''r1''"
  "r_org_id (demo_request org n st) = org"
  by (simp_all add: demo_request_def)

section \<open>What a run does\<close>

text \<open>
  C9. The event stream of a run: a run that returns has written, after the resume event of a resumed request,
  a stream the protocol automaton accepts, with at most as many nodes entered as the transition limit and
  exactly two closing events at its end; the status it announces is the status of the request, unless it was
  declined or sent meanwhile, and it announces a price only for a request routed to automatic sending.
\<close>

theorem pipeline_stream:
  assumes "pipeline_nodes nodes" and "find_request r d = Some q"
    and "pipeline_run nodes ok reason skip r d = Finished d'"
  shows "\<exists>tr st q'. engine_trace d' = engine_trace d @ resume_events reason q @ tr @ [Ev_Request_Finalized st] \<and>
    stream_run Between (tr @ [Ev_Request_Finalized st]) = Some Closed \<and> entered tr \<le> MAX_NODE_TRANSITIONS \<and>
    find_request r d' = Some q' \<and> (status q' = st \<or> status q' = St_Declined \<or> status q' = St_Sent) \<and>
    st \<in> set FINAL_STATUSES \<and> (st = St_Priced \<longrightarrow> routing q' = Some Auto_Eligible)"
  using pipeline_nodes.run_ended [OF assms] by (auto simp: well_ended_def settles_def)

definition policy_start :: db where
  "policy_start = at_node Policy St_Parsing policy_db"

lemma policy_start_events [simp]: "events policy_start = []"
  by (simp add: policy_start_def at_node_def policy_db_def catalog_db_def demo_db_def empty_db_def)

theorem pipeline_stream_witness:
  "\<exists>d' tr st. pipeline_run (all_nodes sample_pipeline) (\<lambda>_. True) None False ''r1'' policy_start = Finished d' \<and>
     engine_trace d' = Ev_Request_Resumed Policy Crash_Recovery # tr @ [Ev_Request_Finalized st] \<and>
     stream_run Between (tr @ [Ev_Request_Finalized st]) = Some Closed"
proof -
  obtain d' where run: "pipeline_run (all_nodes sample_pipeline) (\<lambda>_. True) None False ''r1'' policy_start = Finished d'"
    using run_returns by blast
  have q: "find_request ''r1'' policy_start = Some (demo_request ''org'' Policy St_Parsing)" by (simp add: policy_start_def)
  have "engine_trace policy_start = []" by (simp add: engine_trace_def)
  with pipeline_stream [OF all.pipeline_nodes_axioms q run] run show ?thesis
    by (auto simp: resume_events_def resume_event_def)
qed

text \<open>
  C10. Terminal statuses are terminal: a request that is declined or sent when a run starts has the same status
  when the run ends, whether it returns or throws, whatever the nodes return and wherever it was checkpointed.
\<close>

theorem terminal_status_kept:
  assumes "pipeline_nodes nodes" and "find_request r d = Some q" and "status q = St_Declined \<or> status q = St_Sent"
  shows "\<exists>q'. find_request r (db_of (pipeline_run nodes ok reason skip r d)) = Some q' \<and> status q' = status q"
proof -
  from pipeline_nodes.run_ended [OF assms(1,2) refl, of ok reason skip] show ?thesis
  proof
    assume "pipeline_run nodes ok reason skip r d = Aborted d"
    then show ?thesis using assms(2) by simp
  qed (use assms(3) in \<open>auto simp: settles_def started_def\<close>)
qed

theorem terminal_status_kept_witness:
  "\<exists>q'. find_request ''r1'' (db_of (pipeline_run (all_nodes sample_pipeline) (\<lambda>_. True) (Some Manual) False ''r1''
     (at_node Policy St_Declined policy_db))) = Some q' \<and> status q' = St_Declined"
  using terminal_status_kept [OF all.pipeline_nodes_axioms at_node_request [of Policy St_Declined policy_db],
    where ok = "\<lambda>_. True" and reason = "Some Manual" and skip = False]
  by simp

text \<open>
  C11. No request is stranded: whatever a run of an open request meets (a node that fails, an event that cannot
  be written), it either never started, or leaves the request with a final status, or leaves it parsing with
  the moment the run began; and then every sweep after the stale window finds it.
\<close>

theorem no_request_stranded:
  assumes "pipeline_nodes nodes" and "find_request r d = Some q" and "0 < secs" and "clock d + secs * 1000 < now"
    and "d' = db_of (pipeline_run nodes ok reason skip r d)"
  shows "\<exists>q'. find_request r d' = Some q' \<and>
    (d' = d \<or> status q' \<in> set FINAL_STATUSES \<or> status q' = St_Declined \<or> status q' = St_Sent \<or>
     status q' = St_Parsing \<and>
       (case findStaleParsing secs (d'\<lparr>clock := now\<rparr>) of Some rows \<Rightarrow> q' \<in> set rows | None \<Rightarrow> False))"
proof -
  from pipeline_nodes.run_ended [OF assms(1,2) refl, of ok reason skip] show ?thesis
  proof
    assume "pipeline_run nodes ok reason skip r d = Aborted d"
    then show ?thesis using assms(2) by (simp add: assms(5))
  next
    assume "\<exists>tr q'. engine_trace (db_of (pipeline_run nodes ok reason skip r d)) = engine_trace d @ resume_events reason q @ tr \<and>
      well_ended (pipeline_run nodes ok reason skip r d) tr \<and> entered tr \<le> MAX_NODE_TRANSITIONS \<and>
      clock d \<le> clock (db_of (pipeline_run nodes ok reason skip r d)) \<and>
      find_request r (db_of (pipeline_run nodes ok reason skip r d)) = Some q' \<and>
      settles (started (clock d) q) q' (pipeline_run nodes ok reason skip r d) tr"
    then obtain tr q' where q': "find_request r d' = Some q'"
      and s: "settles (started (clock d) q) q' (pipeline_run nodes ok reason skip r d) tr"
      by (auto simp: assms(5))
    have "status q' \<in> set FINAL_STATUSES \<or> terminal (status q') \<or>
        status q' = St_Parsing \<and> processing_started_at q' = Some (clock d)"
      using s by (cases "pipeline_run nodes ok reason skip r d") (auto simp: settles_def started_def split: if_splits)
    moreover have "case findStaleParsing secs (d'\<lparr>clock := now\<rparr>) of Some rows \<Rightarrow> q' \<in> set rows | None \<Rightarrow> False"
      if "status q' = St_Parsing" "processing_started_at q' = Some (clock d)"
      using that find_request_Some [OF q'] assms(3,4) by (auto simp: findStaleParsing_def stale_def)
    ultimately show ?thesis using q' by auto
  qed
qed

theorem no_request_stranded_witness:
  "\<exists>q'. find_request ''r1'' (db_of (pipeline_run (all_nodes sample_pipeline) (\<lambda>d. events d = []) None False ''r1'' policy_start)) = Some q' \<and>
     status q' = St_Parsing \<and>
     (case findStaleParsing 300 (db_of (pipeline_run (all_nodes sample_pipeline) (\<lambda>d. events d = []) None False ''r1'' policy_start)
         \<lparr>clock := 300001\<rparr>) of Some rows \<Rightarrow> q' \<in> set rows | None \<Rightarrow> False)"
proof -
  let ?d = "db_of (pipeline_run (all_nodes sample_pipeline) (\<lambda>d. events d = []) None False ''r1'' policy_start)"
  have q: "find_request ''r1'' policy_start = Some (demo_request ''org'' Policy St_Parsing)" by (simp add: policy_start_def)
  have d: "?d = markProcessing ''r1'' (emit (Some ''org'') (Some ''r1'') None None (Ev_Request_Resumed Policy Crash_Recovery) policy_start)"
    using q by (simp add: pipeline_run_def emitStep_def MAX_NODE_TRANSITIONS_def walk.simps all_nodes_cases numeral_eq_Suc)
  have st: "status x = St_Parsing" if "find_request ''r1'' ?d = Some x" for x
    using that q by (auto simp: d find_request_markProcessing)
  have "length (events ?d) = 1" by (simp add: d)
  then have moved: "?d \<noteq> policy_start" by auto
  have "clock policy_start + 300 * 1000 < 300001" by (simp add: policy_start_def at_node_def policy_db_def catalog_db_def demo_db_def empty_db_def)
  note stranded = no_request_stranded [OF all.pipeline_nodes_axioms [of sample_pipeline] q _ this refl, where ok = "\<lambda>d. events d = []" and reason = None and skip = False]
  have "(0 :: int) < 300" by simp
  from stranded [OF this] obtain x where
    x: "find_request ''r1'' ?d = Some x" and alt: "?d = policy_start \<or> status x \<in> set FINAL_STATUSES \<or> status x = St_Declined \<or>
      status x = St_Sent \<or> status x = St_Parsing \<and>
        (case findStaleParsing 300 (?d\<lparr>clock := 300001\<rparr>) of Some rows \<Rightarrow> x \<in> set rows | None \<Rightarrow> False)"
    by blast
  show ?thesis using x alt moved st [OF x] by (auto simp: FINAL_STATUSES_def)
qed

text \<open>
  The checkpoint of a failed request is a dead end that is announced as a success: a run of a request
  checkpointed at the failed node, which is what resuming a failed request amounts to, runs no node, leaves it
  failed at the same checkpoint, and closes the stream with a successful completion.
\<close>

theorem failed_checkpoint_reports_success:
  assumes "find_request r d = Some q" and "current_node q = Failed" and "\<not> terminal (status q)"
  shows "\<exists>d' q'. pipeline_run nodes (\<lambda>_. True) reason skip r d = Finished d' \<and>
    engine_trace d' = engine_trace d @ [resume_event reason q, Ev_Processing_Complete True, Ev_Request_Finalized St_Failed] \<and>
    find_request r d' = Some q' \<and> status q' = St_Failed \<and> current_node q' = Failed"
  using assms find_request_Some [OF assms(1)]
  by (simp add: pipeline_run_def emitStep_def walk.simps finalize_def computeTerminalStatus_def resume_event_def
      find_request_setStatus find_request_markProcessing)

theorem failed_checkpoint_reports_success_witness:
  "\<exists>d' q'. pipeline_run (all_nodes sample_pipeline) (\<lambda>_. True) (Some Manual) False ''r1'' (at_node Failed St_Failed policy_db) = Finished d' \<and>
     Ev_Processing_Complete True \<in> set (engine_trace d') \<and> find_request ''r1'' d' = Some q' \<and> status q' = St_Failed"
  using failed_checkpoint_reports_success [OF at_node_request [of Failed St_Failed policy_db], where
    nodes = "all_nodes sample_pipeline" and reason = "Some Manual" and skip = False]
  by auto

section \<open>A graph that never ends\<close>

lemma engine_event_resume [simp]: "engine_event (resume_event reason q)"
  by (simp add: resume_event_def)

definition goes_on :: "node_registry \<Rightarrow> uuid \<Rightarrow> uuid \<Rightarrow> bool" where
  "goes_on nodes r orgId \<longleftrightarrow> (\<forall>node. node \<noteq> Done \<and> node \<noteq> Failed \<longrightarrow>
     (\<exists>impl. nodes node = Some impl \<and>
        (\<forall>d. \<exists>next d'. impl r orgId d = (Returned (Advance next), d') \<and> next \<noteq> Done \<and> next \<noteq> Failed)))"

lemma find_request_finalized:
  assumes "find_request r d = Some q"
  shows "\<exists>d' q'. finalize (\<lambda>_. True) orgId r St_Failed False (setCurrentNode r Failed d) = Finished d' \<and>
    engine_trace d' = engine_trace d @ [Ev_Processing_Complete False, Ev_Request_Finalized St_Failed] \<and>
    find_request r d' = Some q' \<and> current_node q' = Failed"
  using assms find_request_Some [OF assms]
  by (simp add: finalize_def emitStep_def find_request_setStatus find_request_setCurrentNode)

context pipeline_nodes
begin

lemma walk_to_limit:
  assumes "goes_on nodes r orgId" and "find_request r d = Some q" and "node \<noteq> Done" and "node \<noteq> Failed"
  shows "\<exists>d' tr q'. walk nodes (\<lambda>_. True) False orgId r n node d = Finished d' \<and>
    engine_trace d' = engine_trace d @ tr @ [Ev_Processing_Complete False, Ev_Request_Finalized St_Failed] \<and>
    entered tr = n \<and> find_request r d' = Some q' \<and> current_node q' = Failed"
  using assms(2-4)
proof (induction n arbitrary: node d q)
  case 0
  from find_request_finalized [OF 0(1), of orgId] 0(2,3) show ?case
    by (subst walk.simps) (auto intro!: exI [of _ "[]"])
next
  case (Suc n)
  obtain impl where impl: "nodes node = Some impl"
    and runs: "\<And>d. \<exists>next d'. impl r orgId d = (Returned (Advance next), d') \<and> next \<noteq> Done \<and> next \<noteq> Failed"
    using assms(1) Suc.prems(2,3) by (auto simp: goes_on_def)
  let ?d1 = "emit (Some orgId) (Some r) None None (Ev_Node_Entered node) d"
  obtain "next" d2 where run: "impl r orgId ?d1 = (Returned (Advance next), d2)" "next \<noteq> Done" "next \<noteq> Failed"
    using runs by blast
  have eff: "node_effect ?d1 d2" by (rule lawful [OF impl run(1)])
  then obtain q2 where q2: "find_request r d2 = Some q2" and tr2: "engine_trace d2 = engine_trace d @ [Ev_Node_Entered node]"
    using Suc.prems(1) by (auto simp: node_effect_def)
  let ?d3 = "setCurrentNode r next (emit (Some orgId) (Some r) None None (Ev_Node_Exited node True) d2)"
  have "\<exists>q3. find_request r ?d3 = Some q3" using q2 by (simp add: find_request_setCurrentNode)
  then obtain q3 where q3: "find_request r ?d3 = Some q3" by blast
  obtain d' tr q' where rest: "walk nodes (\<lambda>_. True) False orgId r n next ?d3 = Finished d'"
      "engine_trace d' = engine_trace ?d3 @ tr @ [Ev_Processing_Complete False, Ev_Request_Finalized St_Failed]"
      "entered tr = n" "find_request r d' = Some q'" "current_node q' = Failed"
    using Suc.IH [OF q3 run(2,3)] by blast
  have "walk nodes (\<lambda>_. True) False orgId r (Suc n) node d = Finished d'"
    using Suc.prems(2,3) impl run(1) rest(1) by (subst walk.simps) (simp add: emitStep_def)
  moreover have "engine_trace d' = engine_trace d @ ([Ev_Node_Entered node, Ev_Node_Exited node True] @ tr) @
      [Ev_Processing_Complete False, Ev_Request_Finalized St_Failed]"
    using rest(2) tr2 by simp
  moreover have "entered ([Ev_Node_Entered node, Ev_Node_Exited node True] @ tr) = Suc n" using rest(3) by simp
  ultimately show ?case using rest(4,5) by blast
qed

end

text \<open>
  C12. Every run ends: with the audit trail available a run returns whatever the nodes do, and even when every
  node always hands over to another one it stops after exactly fifty of them, with the request checkpointed as
  failed and the failure announced.
\<close>

theorem run_always_ends:
  assumes "pipeline_nodes nodes" and "find_request r d = Some q" and "goes_on nodes r (r_org_id q)"
    and "current_node q \<noteq> Done" and "current_node q \<noteq> Failed"
  shows "(\<forall>other skip'. \<exists>d'. pipeline_run other (\<lambda>_. True) reason skip' r d = Finished d') \<and>
    (\<exists>d' tr q'. pipeline_run nodes (\<lambda>_. True) reason False r d = Finished d' \<and>
      engine_trace d' = engine_trace d @ resume_events reason q @ tr @ [Ev_Processing_Complete False, Ev_Request_Finalized St_Failed] \<and>
      entered tr = 50 \<and> find_request r d' = Some q' \<and> current_node q' = Failed)"
proof -
  let ?e = "if current_node q = Parse then d else emit (Some (r_org_id q)) (Some r) None None (resume_event reason q) d"
  have start: "pipeline_run nodes (\<lambda>_. True) reason False r d =
      walk nodes (\<lambda>_. True) False (r_org_id q) r 50 (current_node q) (markProcessing r ?e)"
    using assms(2) by (simp add: pipeline_run_def emitStep_def resume_event_def MAX_NODE_TRANSITIONS_def)
  have "find_request r ?e = Some q" using assms(2) by simp
  then obtain p where p: "find_request r (markProcessing r ?e) = Some p" by (auto simp: find_request_markProcessing)
  have "engine_trace (markProcessing r ?e) = engine_trace d @ resume_events reason q"
    by (simp add: resume_events_def resume_event_def)
  with pipeline_nodes.walk_to_limit [OF assms(1,3) p assms(4,5), of 50] start run_returns show ?thesis by auto
qed

definition endless :: node_registry where
  "endless = (\<lambda>_. Some (\<lambda>r orgId d. (Returned (Advance Parse), d)))"

theorem run_always_ends_witness:
  "\<exists>d' q'. pipeline_run endless (\<lambda>_. True) None False ''r1'' (at_node Match St_Parsing policy_db) = Finished d' \<and>
     find_request ''r1'' d' = Some q' \<and> current_node q' = Failed"
proof -
  have "pipeline_nodes endless" by unfold_locales (auto simp: endless_def)
  moreover have "goes_on endless ''r1'' (r_org_id (demo_request ''org'' Match St_Parsing))" by (auto simp: goes_on_def endless_def)
  ultimately show ?thesis
    using run_always_ends [OF _ at_node_request [of Match St_Parsing policy_db], of endless None] by auto
qed

section \<open>From the policy node to the end\<close>

text \<open>
  C13. End to end: a run that goes on from the policy node, with the nodes of the program and the audit trail
  available, enters the policy and the score node, and when a priced line breaks a margin floor or a discount
  cap, or there is no usable policy row, it ends with the request held for review, routed to review and
  checkpointed as done, whatever the configuration of the scores.
\<close>

theorem breach_is_reviewed:
  assumes "find_request r d = Some q" and "current_node q = Policy" and "\<not> terminal (status q)"
    and "distinct (map li_id (line_items d))" and "li \<in> set (lines_of_request r d)"
    and "matched_sku d li = Some s" and "li_unit_price_minor li = Some unit"
    and "(\<exists>x \<in> set (org_rules (r_org_id q) d). breaks_floor s unit x \<or> breaks_cap s unit x) \<or>
      \<not> (\<exists>x \<in> set (org_rules (r_org_id q) d). policy_row x)"
  shows "\<exists>d' q'. pipeline_run (all_nodes e) (\<lambda>_. True) reason skip r d = Finished d' \<and>
    find_request r d' = Some q' \<and> status q' = St_Needs_Review \<and> routing q' = Some Needs_Review \<and> current_node q' = Done \<and>
    engine_trace d' = engine_trace d @ [resume_event reason q, Ev_Node_Entered Policy, Ev_Node_Exited Policy True,
      Ev_Node_Entered Score, Ev_Node_Exited Score True, Ev_Processing_Complete True, Ev_Request_Finalized St_Needs_Review]"
proof -
  let ?org = "r_org_id q"
  let ?emit = "emit (Some ?org) (Some r) None None"
  let ?d0 = "?emit (Ev_Node_Entered Policy) (markProcessing r (?emit (resume_event reason q) d))"
  note id = find_request_Some [OF assms(1)]
  have f0: "find_request r ?d0 = Some (started (clock d) q)"
    using assms(1,3) id by (simp add: find_request_markProcessing started_def)
  obtain out1 d1 where p: "policy_impl e r ?org ?d0 = (out1, d1)" by (cases "policy_impl e r ?org ?d0")
  then have p': "policy_node (pe_emit_ok e) r ?org ?d0 = (out1, d1)" by (simp add: policy_impl_def)
  have org0: "request_in_org r ?org ?d0"
    using find_request_Some [OF f0] assms(3) by (auto simp: request_in_org_def started_def intro!: bexI [rotated])
  have li: "li \<in> set (lines_of_request_in_org r ?org ?d0)"
    using assms(5) org0 by (simp add: lines_of_request_in_org_def lines_of_request_def markProcessing_def)
  have same: "line_items ?d0 = line_items d" "skus ?d0 = skus d" "pricing_rules ?d0 = pricing_rules d"
    by (simp_all add: markProcessing_def)
  have "matched_sku ?d0 li = Some s" using matched_sku_cong [OF same(2)] assms(6) by simp
  moreover have "(\<exists>x \<in> set (org_rules ?org ?d0). breaks_floor s unit x \<or> breaks_cap s unit x) \<or>
      \<not> (\<exists>x \<in> set (org_rules ?org ?d0). policy_row x)"
    using assms(8) same(3) by (simp add: org_rules_def)
  ultimately obtain l where l: "l \<in> set (line_items d1)" "li_request_id l = r" "has_hard_flag l"
    using policy_leaves_hard_flag [OF _ li _ assms(7) _ p'] assms(4) same(1) by auto
  have out1: "out1 = Returned (Advance Score)" using policy_node_rows(1) [OF _ p'] assms(4) same(1) by simp
  have req1: "requests d1 = requests ?d0" by (rule policy_requests [OF p'])
  have tr1: "engine_trace d1 = engine_trace ?d0" "clock d1 = clock ?d0"
    using policy_impl_untouched [of ?d0 e r ?org] p by (simp_all add: untouched_def)
  let ?d2 = "?emit (Ev_Node_Entered Score) (setCurrentNode r Score (?emit (Ev_Node_Exited Policy True) d1))"
  have f2: "find_request r ?d2 = Some ((started (clock d) q)\<lparr>current_node := Score\<rparr>)"
    using f0 id req1 assms(3) by (simp add: find_request_setCurrentNode find_request_cong [OF req1] started_def)
  have org2: "request_in_org r ?org ?d2"
    using find_request_Some [OF f2] assms(3) by (auto simp: request_in_org_def started_def intro!: bexI [rotated])
  obtain out2 st d3 where sc: "score_node (pe_emit_ok e) (pe_scoring e) (pe_raw e) r ?org (pe_thresholds e, ?d2) = (out2, st, d3)"
    by (rule prod_cases3)
  then have s': "score_impl e r ?org ?d2 = (out2, d3)" by (simp add: score_impl_def)
  have l2: "l \<in> set (line_items ?d2)" using l(1) by (simp add: setCurrentNode_def)
  note res = score_node_result [OF org2 sc] and held = score_holds_hard_flag [OF org2 l2 l(2,3)]
  have f3: "\<exists>q3. find_request r d3 = Some q3 \<and> routing q3 = Some Needs_Review \<and> current_node q3 = Done \<and>
      status q3 = St_Parsing \<and> r_id q3 = r"
    using f2 id assms(3) unfolding find_request_def res(2) held
    by (subst find_update_where) (auto simp: started_def)
  then obtain q3 where q3: "find_request r d3 = Some q3" "routing q3 = Some Needs_Review" "current_node q3 = Done"
      "status q3 = St_Parsing" "r_id q3 = r" by blast
  have tr3: "engine_trace d3 = engine_trace ?d2"
    using score_impl_effect [of ?d2 e r ?org] s' by (simp add: node_effect_def)
  have run: "pipeline_run (all_nodes e) (\<lambda>_. True) reason skip r d =
      finalize (\<lambda>_. True) ?org r (computeTerminalStatus r Done (setCurrentNode r Done (?emit (Ev_Node_Exited Score True) d3))) True
        (setCurrentNode r Done (?emit (Ev_Node_Exited Score True) d3))"
    using assms(1,2) p out1 s' res(1)
    by (simp add: pipeline_run_def emitStep_def resume_event_def MAX_NODE_TRANSITIONS_def walk.simps all_nodes_cases
        numeral_eq_Suc)
  show ?thesis
    unfolding run using q3 tr3 tr1 assms(3)
    by (simp add: finalize_def emitStep_def computeTerminalStatus_def find_request_setStatus find_request_setCurrentNode)
qed

theorem breach_is_reviewed_witness:
  "\<exists>d' q'. pipeline_run (all_nodes sample_pipeline) (\<lambda>_. True) (Some Manual) False ''r1'' policy_start = Finished d' \<and>
     find_request ''r1'' d' = Some q' \<and> status q' = St_Needs_Review"
proof -
  let ?l = "(demo_line ''l1'' 1 (Some ''s1'') (Some 15))\<lparr>li_unit_price_minor := Some 130,
    li_flags := Some [CLOSE_TIE_FLAG, POLICY_BLOCKED_FLAG]\<rparr>"
  have q: "find_request ''r1'' policy_start = Some (demo_request ''org'' Policy St_Parsing)" by (simp add: policy_start_def)
  have d: "distinct (map li_id (line_items policy_start))" by code_simp
  have l: "?l \<in> set (lines_of_request ''r1'' policy_start)" by code_simp
  have s: "matched_sku policy_start ?l = Some (demo_sku ''s1'' ''EUR'')" by code_simp
  have b: "(\<exists>x \<in> set (org_rules (r_org_id (demo_request ''org'' Policy St_Parsing)) policy_start).
      breaks_floor (demo_sku ''s1'' ''EUR'') 130 x \<or> breaks_cap (demo_sku ''s1'' ''EUR'') 130 x)"
    by code_simp
  from breach_is_reviewed [OF q _ _ d l s _ disjI1 [OF b], of sample_pipeline "Some Manual" False] show ?thesis by auto
qed

end
