(* ===== verification/Quote_Delivery.thy ===== *)
theory Quote_Delivery
  imports Quote_Store Request_Store
begin

text \<open>
  Sending an approved quote by e-mail (\<open>quotes/services/quote-delivery.service.ts\<close>): the handler, with what
  the object store and the e-mail provider answer and the clock readings as arguments, and the log of the
  contacts it makes with the provider.
\<close>

section \<open>The handler\<close>

definition SAFE_RETRY_WINDOW_MS :: int where
  "SAFE_RETRY_WINDOW_MS = 23 * 60 * 60 * 1000"

definition REQUEST_SENDABLE_STATUSES :: "request_status list" where
  "REQUEST_SENDABLE_STATUSES = [St_Ready, St_Priced, St_Needs_Review]"

datatype send_error =
    No_Quote_Yet | Pdf_Not_Ready | No_Recipient | Attachment_Unavailable | Manual_Reconciliation
  | Provider_Failed | State_Changed

text \<open>\<open>provider\<close>: the message identifier the provider returned, \<open>None\<close> when the call threw.\<close>

record send_env =
  attachment_ok :: bool
  started_at :: millis
  provider :: "string option"
  sent_at :: millis

text \<open>A contact with the provider: the idempotency key and the start of the attempt.\<close>

type_synonym contact = "string \<times> millis"

definition idempotencyKey :: "uuid \<Rightarrow> string" where
  "idempotencyKey quoteId = ''quote/send/'' @ quoteId"

definition repair :: "uuid \<Rightarrow> db \<Rightarrow> db" where
  "repair requestId d = snd (trySetStatus requestId St_Sent REQUEST_SENDABLE_STATUSES d)"

definition safelyRetryable :: "millis \<Rightarrow> (quote \<times> quote_line_item list) option \<Rightarrow> bool" where
  "safelyRetryable startedAt current \<longleftrightarrow>
     (case current of
        Some (q, _) \<Rightarrow> q_status q = Q_Ready \<and>
          (case email_delivery_started_at q of Some t \<Rightarrow> startedAt - t < SAFE_RETRY_WINDOW_MS | None \<Rightarrow> False)
      | None \<Rightarrow> False)"

text \<open>From the moment the provider is contacted.\<close>

definition deliver ::
  "send_env \<Rightarrow> request \<Rightarrow> quote \<Rightarrow> quote_line_item list \<Rightarrow> string \<Rightarrow> db \<Rightarrow>
   (send_error + quote \<times> quote_line_item list) \<times> contact list \<times> db" where
  "deliver env req q ls recipient d =
     (let cs = [(idempotencyKey (q_id q), started_at env)] in
      case provider env of
        None \<Rightarrow> (Inl Provider_Failed, cs, d)
      | Some messageId \<Rightarrow>
          (let (transitioned, d) = markSent (q_id q) (r_org_id req) recipient messageId (sent_at env) d in
           if \<not> transitioned then
             (case getByIdWithLines (q_id q) d of
                Some (cur, cls) \<Rightarrow>
                  if q_status cur = Q_Sent then (Inr (cur, cls), cs, repair (r_id req) d) else (Inl State_Changed, cs, d)
              | None \<Rightarrow> (Inl State_Changed, cs, d))
           else
             (Inr (q\<lparr>q_status := Q_Sent, email_sent_at := Some (sent_at env), email_recipient := Some recipient,
                email_provider_message_id := Some messageId\<rparr>, ls), cs, repair (r_id req) d)))"

definition send ::
  "send_env \<Rightarrow> request \<Rightarrow> db \<Rightarrow> (send_error + quote \<times> quote_line_item list) \<times> contact list \<times> db" where
  "send env req d =
     (case getForRequest (r_id req) d of
        None \<Rightarrow> (Inl No_Quote_Yet, [], d)
      | Some (q, ls) \<Rightarrow>
          if q_status q = Q_Sent then (Inr (q, ls), [], repair (r_id req) d)
          else if q_status q \<noteq> Q_Ready \<or> pdf_storage_url q = None \<or> pdf_storage_url q = Some [] then (Inl Pdf_Not_Ready, [], d)
          else (case sender_email req of
                  None \<Rightarrow> (Inl No_Recipient, [], d)
                | Some recipient \<Rightarrow>
                    if recipient = [] then (Inl No_Recipient, [], d)
                    else if \<not> attachment_ok env then (Inl Attachment_Unavailable, [], d)
                    else
                      (let (claimed, d) = tryStartDelivery (q_id q) (r_org_id req) (started_at env) d in
                       if claimed then deliver env req q ls recipient d
                       else
                         (case getByIdWithLines (q_id q) d of
                            Some (cur, cls) \<Rightarrow>
                              if q_status cur = Q_Sent then (Inr (cur, cls), [], repair (r_id req) d)
                              else if safelyRetryable (started_at env) (Some (cur, cls)) then deliver env req q ls recipient d
                              else (Inl Manual_Reconciliation, [], d)
                          | None \<Rightarrow> (Inl Manual_Reconciliation, [], d)))))"

text \<open>Any number of attempts on one request, by the button or by retries, with the contacts they make.\<close>

fun send_all :: "send_env list \<Rightarrow> request \<Rightarrow> db \<Rightarrow> contact list \<times> db" where
  "send_all [] req d = ([], d)"
| "send_all (e # es) req d = (case send e req d of (_, cs, d) \<Rightarrow>
     (case send_all es req d of (rest, d) \<Rightarrow> (cs @ rest, d)))"

section \<open>Facts\<close>

lemma repair_quotes [simp]: "quotes (repair r d) = quotes d"
  by (simp add: repair_def)

lemma find_by_id:
  "distinct (map q_id rows) \<Longrightarrow> find P rows = Some q \<Longrightarrow> find (\<lambda>x. q_id x = q_id q) rows = Some q"
  by (induction rows) (auto simp: image_iff dest: find_Some_set split: if_splits)

lemma affected_row:
  assumes "distinct (map q_id rows)" and "q \<in> set rows"
  shows "0 < affected (\<lambda>x. q_id x = q_id q \<and> P x) rows \<longleftrightarrow> P q"
  using assms by (auto simp: affected_pos distinct_map inj_on_def)

lemma find_request_quote_update:
  assumes "distinct (map q_id rows)" and "find (\<lambda>x. q_request_id x = r) rows = Some q"
    and "\<And>x. q_request_id (f x) = q_request_id x"
  shows "find (\<lambda>x. q_request_id x = r) (update_where (\<lambda>x. q_id x = q_id q \<and> P x) f rows) = Some (if P q then f q else q)"
  using assms(2,3) by (simp add: find_update_where)

text \<open>The quote of the request, as a send leaves it.\<close>

definition the_quote :: "uuid \<Rightarrow> db \<Rightarrow> quote option" where
  "the_quote r d = find (\<lambda>q. q_request_id q = r) (quotes d)"

lemma getForRequest_quote: "getForRequest r d = map_option (\<lambda>q. (q, lines_of_quote (q_id q) d)) (the_quote r d)"
  by (simp add: getForRequest_def the_quote_def)

lemma tryStartDelivery_row:
  assumes "distinct (map q_id (quotes d))" and "the_quote r d = Some q" and "tryStartDelivery (q_id q) org t d = (won, d')"
  shows "won \<longleftrightarrow> q_org_id q = org \<and> q_status q = Q_Ready \<and> email_delivery_started_at q = None"
    and "the_quote r d' = Some (if won then q\<lparr>email_delivery_started_at := Some t\<rparr> else q)"
    and "map q_id (quotes d') = map q_id (quotes d)"
proof -
  let ?P = "\<lambda>x. q_org_id x = org \<and> q_status x = Q_Ready \<and> email_delivery_started_at x = None"
  have q: "q \<in> set (quotes d)" using assms(2) by (auto simp: the_quote_def dest: find_Some_set)
  show won: "won \<longleftrightarrow> q_org_id q = org \<and> q_status q = Q_Ready \<and> email_delivery_started_at q = None"
    using affected_row [OF assms(1) q, of ?P] assms(3) by (auto simp: tryStartDelivery_def Let_def)
  show "the_quote r d' = Some (if won then q\<lparr>email_delivery_started_at := Some t\<rparr> else q)"
  proof -
    have e: "quotes d' = update_where (\<lambda>x. q_id x = q_id q \<and> ?P x) (\<lambda>x. x\<lparr>email_delivery_started_at := Some t\<rparr>) (quotes d)"
      using assms(3) by (auto simp: tryStartDelivery_def Let_def)
    show ?thesis unfolding the_quote_def e won
      by (rule find_request_quote_update [OF assms(1) assms(2) [unfolded the_quote_def]]) simp
  qed
  show "map q_id (quotes d') = map q_id (quotes d)"
    using assms(3) by (auto simp: tryStartDelivery_def Let_def map_update_where)
qed

lemma markSent_row:
  assumes "distinct (map q_id (quotes d))" and "the_quote r d = Some q" and "markSent (q_id q) org rec mid t d = (won, d')"
  shows "won \<longleftrightarrow> q_org_id q = org \<and> q_status q = Q_Ready"
    and "the_quote r d' = Some (if won then q\<lparr>q_status := Q_Sent, email_sent_at := Some t, email_recipient := Some rec,
      email_provider_message_id := Some mid\<rparr> else q)"
    and "map q_id (quotes d') = map q_id (quotes d)"
proof -
  let ?P = "\<lambda>x. q_org_id x = org \<and> q_status x = Q_Ready"
  have q: "q \<in> set (quotes d)" using assms(2) by (auto simp: the_quote_def dest: find_Some_set)
  show won: "won \<longleftrightarrow> q_org_id q = org \<and> q_status q = Q_Ready"
    using affected_row [OF assms(1) q, of ?P] assms(3) by (auto simp: markSent_def Let_def)
  show "the_quote r d' = Some (if won then q\<lparr>q_status := Q_Sent, email_sent_at := Some t, email_recipient := Some rec,
      email_provider_message_id := Some mid\<rparr> else q)"
  proof -
    have e: "quotes d' = update_where (\<lambda>x. q_id x = q_id q \<and> ?P x) (\<lambda>x. x\<lparr>q_status := Q_Sent, email_sent_at := Some t,
        email_recipient := Some rec, email_provider_message_id := Some mid\<rparr>) (quotes d)"
      using assms(3) by (auto simp: markSent_def Let_def)
    show ?thesis unfolding the_quote_def e won
      by (rule find_request_quote_update [OF assms(1) assms(2) [unfolded the_quote_def]]) simp
  qed
  show "map q_id (quotes d') = map q_id (quotes d)"
    using assms(3) by (auto simp: markSent_def Let_def map_update_where)
qed

lemma getById_row:
  assumes "distinct (map q_id (quotes d))" and "the_quote r d = Some q"
  shows "getByIdWithLines (q_id q) d = Some (q, lines_of_quote (q_id q) d)"
  using find_by_id [OF assms(1) assms(2) [unfolded the_quote_def]] by (simp add: getByIdWithLines_def)

text \<open>What one attempt does to the quote, and whom it contacts.\<close>

definition same_attempt :: "quote \<Rightarrow> quote \<Rightarrow> bool" where
  "same_attempt q q' \<longleftrightarrow> q_id q' = q_id q \<and> q_org_id q' = q_org_id q \<and> q_request_id q' = q_request_id q \<and>
     email_delivery_started_at q' = email_delivery_started_at q"

lemma deliver_row:
  assumes "distinct (map q_id (quotes d))" and "the_quote (r_id req) d = Some q1" and "q_id q1 = q_id q"
    and "deliver env req q ls rec d = (res, cs, d')"
  shows "cs = [(idempotencyKey (q_id q), started_at env)] \<and> distinct (map q_id (quotes d')) \<and>
    (\<exists>q'. the_quote (r_id req) d' = Some q' \<and> same_attempt q1 q' \<and> (q_status q1 = Q_Sent \<longrightarrow> q_status q' = Q_Sent) \<and>
      (\<forall>x. res = Inr x \<longrightarrow> q_status q' = Q_Sent))"
proof -
  obtain won d1 where m: "markSent (q_id q) (r_org_id req) rec (the (provider env)) (sent_at env) d = (won, d1)"
    by (cases "markSent (q_id q) (r_org_id req) rec (the (provider env)) (sent_at env) d")
  note m1 = markSent_row [OF assms(1,2), unfolded assms(3), OF m]
  have d1: "distinct (map q_id (quotes d1))" using m1(3) assms(1) by simp
  obtain q1' where q1': "the_quote (r_id req) d1 = Some q1'" "same_attempt q1 q1'"
      "q_status q1' = (if won then Q_Sent else q_status q1)" "q_status q1 = Q_Sent \<longrightarrow> \<not> won"
    using m1(1,2) by (cases won) (auto simp: same_attempt_def)
  have g: "getByIdWithLines (q_id q) d1 = Some (q1', lines_of_quote (q_id q1') d1)"
    using getById_row [OF d1 q1'(1)] q1'(2) assms(3) by (simp add: same_attempt_def)
  have rep: "the_quote r (repair r' e) = the_quote r e" for r r' e by (simp add: the_quote_def)
  show ?thesis
  proof (cases "provider env")
    case None
    then show ?thesis using assms(1,2,4) by (auto simp: deliver_def same_attempt_def)
  next
    case (Some mid)
    then show ?thesis using assms(4) m g q1' d1
      by (auto simp: deliver_def Let_def rep split: if_splits)
  qed
qed

lemma send_row:
  assumes "distinct (map q_id (quotes d))" and "the_quote (r_id req) d = Some q" and "send env req d = (res, cs, d')"
  shows "distinct (map q_id (quotes d')) \<and>
    (\<exists>q'. the_quote (r_id req) d' = Some q' \<and> q_id q' = q_id q \<and>
      (q_status q = Q_Sent \<longrightarrow> cs = [] \<and> q_status q' = Q_Sent) \<and> (\<forall>x. res = Inr x \<longrightarrow> q_status q' = Q_Sent) \<and>
      (cs = [] \<and> email_delivery_started_at q' = email_delivery_started_at q \<or>
       cs = [(idempotencyKey (q_id q), started_at env)] \<and>
         (case email_delivery_started_at q of
            None \<Rightarrow> email_delivery_started_at q' = Some (started_at env)
          | Some t \<Rightarrow> email_delivery_started_at q' = Some t \<and> started_at env - t < SAFE_RETRY_WINDOW_MS)))"
proof -
  have get: "getForRequest (r_id req) d = Some (q, lines_of_quote (q_id q) d)" using assms(2) by (simp add: getForRequest_quote)
  have rep: "the_quote r (repair r' e) = the_quote r e" for r r' e by (simp add: the_quote_def)
  obtain won d1 where c: "tryStartDelivery (q_id q) (r_org_id req) (started_at env) d = (won, d1)"
    by (cases "tryStartDelivery (q_id q) (r_org_id req) (started_at env) d")
  note c1 = tryStartDelivery_row [OF assms(1,2) c]
  have d1: "distinct (map q_id (quotes d1))" using c1(3) assms(1) by simp
  let ?q1 = "if won then q\<lparr>email_delivery_started_at := Some (started_at env)\<rparr> else q"
  have g: "getByIdWithLines (q_id q) d1 = Some (?q1, lines_of_quote (q_id q) d1)"
    using getById_row [OF d1 c1(2)] by (cases won) auto
  show ?thesis
  proof (cases "q_status q = Q_Ready \<and> pdf_storage_url q \<noteq> None \<and> pdf_storage_url q \<noteq> Some [] \<and>
      sender_email req \<noteq> None \<and> sender_email req \<noteq> Some [] \<and> attachment_ok env")
    case False
    then show ?thesis using assms get by (auto simp: send_def rep split: option.splits if_splits)
  next
    case True
    then obtain rec where rec: "sender_email req = Some rec" "rec \<noteq> []" by auto
    have s: "send env req d = (if won then deliver env req q (lines_of_quote (q_id q) d) rec d1
        else if safelyRetryable (started_at env) (Some (q, lines_of_quote (q_id q) d1)) then deliver env req q (lines_of_quote (q_id q) d) rec d1
        else (Inl Manual_Reconciliation, [], d1))"
      using True rec get c g by (auto simp: send_def)
    show ?thesis
    proof (cases "won \<or> safelyRetryable (started_at env) (Some (q, lines_of_quote (q_id q) d1))")
      case False
      then show ?thesis using s assms(3) c1(2) d1 True by auto
    next
      case contact: True
      then have run: "deliver env req q (lines_of_quote (q_id q) d) rec d1 = (res, cs, d')" using s assms(3) by (auto split: if_splits)
      have same: "q_id ?q1 = q_id q" by simp
      note row = deliver_row [OF d1 c1(2) same run]
      obtain q' where
        cs: "cs = [(idempotencyKey (q_id q), started_at env)]" "distinct (map q_id (quotes d'))"
        and q': "the_quote (r_id req) d' = Some q'" "same_attempt ?q1 q'" "\<forall>x. res = Inr x \<longrightarrow> q_status q' = Q_Sent"
        using row [THEN conjunct1] row [THEN conjunct2, THEN conjunct1] row [THEN conjunct2, THEN conjunct2] by (elim exE conjE) metis
      have "case email_delivery_started_at q of
            None \<Rightarrow> email_delivery_started_at q' = Some (started_at env)
          | Some t \<Rightarrow> email_delivery_started_at q' = Some t \<and> started_at env - t < SAFE_RETRY_WINDOW_MS"
        using q'(2) contact c1(1) by (cases won) (auto simp: same_attempt_def safelyRetryable_def split: option.splits)
      then show ?thesis using cs q' True by (auto simp: same_attempt_def split: if_splits)
    qed
  qed
qed

lemma send_all_window:
  assumes "distinct (map q_id (quotes d))" and "the_quote (r_id req) d = Some q" and "send_all envs req d = (cs, d')"
    and "(k, t) \<in> set cs"
  shows "k = idempotencyKey (q_id q) \<and> q_status q \<noteq> Q_Sent \<and>
    t < (case email_delivery_started_at q of Some t0 \<Rightarrow> t0 | None \<Rightarrow> snd (hd cs)) + SAFE_RETRY_WINDOW_MS"
  using assms
proof (induction envs arbitrary: d q cs d' k t)
  case (Cons e es)
  obtain res c1 d1 where s: "send e req d = (res, c1, d1)" by (rule prod_cases3)
  obtain rest d2 where r: "send_all es req d1 = (rest, d2)" by (cases "send_all es req d1")
  from send_row [OF Cons.prems(1,2) s] obtain q' where
    d1: "distinct (map q_id (quotes d1))" and q': "the_quote (r_id req) d1 = Some q'" "q_id q' = q_id q"
      "q_status q = Q_Sent \<longrightarrow> c1 = [] \<and> q_status q' = Q_Sent"
    and one: "c1 = [] \<and> email_delivery_started_at q' = email_delivery_started_at q \<or>
       c1 = [(idempotencyKey (q_id q), started_at e)] \<and>
         (case email_delivery_started_at q of
            None \<Rightarrow> email_delivery_started_at q' = Some (started_at e)
          | Some t \<Rightarrow> email_delivery_started_at q' = Some t \<and> started_at e - t < SAFE_RETRY_WINDOW_MS)"
    by blast
  have cs: "cs = c1 @ rest" using Cons.prems(3) s r by simp
  note later = Cons.IH [OF d1 q'(1) r]
  have pos: "0 < SAFE_RETRY_WINDOW_MS" by (simp add: SAFE_RETRY_WINDOW_MS_def)
  from one show ?case
  proof
    assume none: "c1 = [] \<and> email_delivery_started_at q' = email_delivery_started_at q"
    then show ?thesis using later [of k t] Cons.prems(4) cs q'(2,3) by auto
  next
    assume c: "c1 = [(idempotencyKey (q_id q), started_at e)] \<and>
         (case email_delivery_started_at q of
            None \<Rightarrow> email_delivery_started_at q' = Some (started_at e)
          | Some t \<Rightarrow> email_delivery_started_at q' = Some t \<and> started_at e - t < SAFE_RETRY_WINDOW_MS)"
    then show ?thesis using later [of k t] Cons.prems(4) cs q'(2,3) pos by (auto split: option.splits)
  qed
qed simp

lemma send_all_sent:
  assumes "distinct (map q_id (quotes d))" and "the_quote (r_id req) d = Some q" and "q_status q = Q_Sent"
  shows "fst (send_all envs req d) = []"
proof (rule ccontr)
  assume "fst (send_all envs req d) \<noteq> []"
  then obtain k t where "(k, t) \<in> set (fst (send_all envs req d))" by (metis last_in_set prod.collapse)
  from send_all_window [OF assms(1,2) prod.collapse [symmetric] this] assms(3) show False by simp
qed

text \<open>
  C14. Delivery is bounded in time: in any number of attempts to send the quote of a request, every contact with
  the provider uses the one idempotency key of the quote and starts less than 23 hours after the first contact
  (well within the 24 hours for which the provider recognises the key), and after an attempt that succeeds the
  provider is never contacted again.
\<close>

theorem delivery_window:
  assumes "distinct (map q_id (quotes d))" and "the_quote (r_id req) d = Some q" and "email_delivery_started_at q = None"
  shows "(\<forall>(k, t) \<in> set (fst (send_all envs req d)).
      k = ''quote/send/'' @ q_id q \<and> t < snd (hd (fst (send_all envs req d))) + 23 * 60 * 60 * 1000) \<and>
    (\<forall>env x later. fst (send env req d) = Inr x \<longrightarrow> fst (send_all later req (snd (snd (send env req d)))) = [])"
proof -
  have "k = ''quote/send/'' @ q_id q \<and> t < snd (hd (fst (send_all envs req d))) + 23 * 60 * 60 * 1000"
    if "(k, t) \<in> set (fst (send_all envs req d))" for k t
    using send_all_window [OF assms(1,2) prod.collapse [symmetric] that] assms(3)
    by (simp add: idempotencyKey_def SAFE_RETRY_WINDOW_MS_def)
  moreover have "fst (send_all later req (snd (snd (send env req d)))) = []" if "fst (send env req d) = Inr x" for env x later
  proof -
    obtain res cs d' where s: "send env req d = (res, cs, d')" by (rule prod_cases3)
    from send_row [OF assms(1,2) s] obtain q' where "distinct (map q_id (quotes d'))" "the_quote (r_id req) d' = Some q'"
        "\<forall>x. res = Inr x \<longrightarrow> q_status q' = Q_Sent" by blast
    with send_all_sent [of d' req q' later] that s show ?thesis by simp
  qed
  ultimately show ?thesis by auto
qed

definition ready_db :: db where
  "ready_db = empty_db\<lparr>requests := [demo_request ''org'' Done St_Priced],
     quotes := [(demo_quote ''q1'' ''r1'' Q_Ready)\<lparr>pdf_storage_url := Some ''pdf/q1''\<rparr>]\<rparr>"

definition attempt :: "int \<Rightarrow> string option \<Rightarrow> send_env" where
  "attempt h answer = \<lparr>attachment_ok = True, started_at = h * 3600000, provider = answer, sent_at = h * 3600000 + 5\<rparr>"

text \<open>Two failed attempts, one too late, one too late by the clock of another worker, one that would have answered.\<close>

theorem delivery_window_witness:
  "fst (send_all [attempt 1 None, attempt 20 None, attempt 24 None, attempt 25 (Some ''m'')] (demo_request ''org'' Done St_Priced) ready_db) =
     [(''quote/send/q1'', 3600000), (''quote/send/q1'', 72000000)] \<and>
   fst (send_all [attempt 2 (Some ''m2'')] (demo_request ''org'' Done St_Priced)
     (snd (snd (send (attempt 1 (Some ''m1'')) (demo_request ''org'' Done St_Priced) ready_db)))) = []"
proof -
  let ?r = "demo_request ''org'' Done St_Priced"
  have d: "distinct (map q_id (quotes ready_db))" by (simp add: ready_db_def)
  have q: "the_quote (r_id ?r) ready_db = Some ((demo_quote ''q1'' ''r1'' Q_Ready)\<lparr>pdf_storage_url := Some ''pdf/q1''\<rparr>)"
    by (simp add: the_quote_def ready_db_def demo_quote_def demo_request_def)
  have n: "email_delivery_started_at ((demo_quote ''q1'' ''r1'' Q_Ready)\<lparr>pdf_storage_url := Some ''pdf/q1''\<rparr>) = None"
    by (simp add: demo_quote_def)
  have "fst (send_all [attempt 1 None, attempt 20 None, attempt 24 None, attempt 25 (Some ''m'')] ?r ready_db) =
      [(''quote/send/q1'', 3600000), (''quote/send/q1'', 72000000)]" by code_simp
  moreover have "case fst (send (attempt 1 (Some ''m1'')) ?r ready_db) of Inr _ \<Rightarrow> True | Inl _ \<Rightarrow> False" by code_simp
  then obtain x where "fst (send (attempt 1 (Some ''m1'')) ?r ready_db) = Inr x" by (auto split: sum.splits)
  ultimately show ?thesis using delivery_window [OF d q n] by blast
qed

end
