(* ===== verification/Line_Remap.thy ===== *)
theory Line_Remap
  imports Quote_Recompute
begin

text \<open>
  An estimator's re-map of one line (\<open>requests/actions/line-item-remap.actions.ts\<close>): the checks, the line
  update and the recompute, which commit or roll back together. The invalidation of the explanation cache,
  whose failure is only logged, is not part of the model.
\<close>

section \<open>The handler\<close>

record patch_line_item =
  dto_sku_id :: "uuid option"
  dto_quantity :: "rat option"
  dto_unit_price_minor :: "int option"
  dto_override :: "bool option"

datatype remap_error =
    Nothing_To_Update | Line_Not_Found | Sku_Not_Found | Override_Price_Required | Override_Conflict
  | Remap_Recompute recompute_error

definition nothing_to_update :: "patch_line_item \<Rightarrow> bool" where
  "nothing_to_update dto \<longleftrightarrow> dto_sku_id dto = None \<and> dto_quantity dto = None \<and>
     dto_unit_price_minor dto = None \<and> dto_override dto = None"

text \<open>The flags: a \<open>Set\<close> of the current ones, with the two flags the estimator controls updated.\<close>

definition remap_flags :: "line_item \<Rightarrow> patch_line_item \<Rightarrow> string list" where
  "remap_flags line dto =
     (let fs = uniq (flags_of line);
          fs = (if dto_sku_id dto \<noteq> None then filter (\<lambda>f. f \<noteq> CLOSE_TIE_FLAG) fs else fs)
      in if dto_override dto = Some False then filter (\<lambda>f. f \<noteq> MANUAL_OVERRIDE_FLAG) fs
         else if dto_override dto = Some True \<or> dto_unit_price_minor dto \<noteq> None then
           (if MANUAL_OVERRIDE_FLAG \<in> set fs then fs else fs @ [MANUAL_OVERRIDE_FLAG])
         else fs)"

definition buildUpdate :: "line_item \<Rightarrow> patch_line_item \<Rightarrow> line_item \<Rightarrow> line_item" where
  "buildUpdate line dto row =
     row\<lparr>matched_sku_id := (if dto_sku_id dto \<noteq> None then dto_sku_id dto else matched_sku_id row),
       match_confidence := (if dto_sku_id dto \<noteq> None then Some 1 else match_confidence row),
       li_quantity := (if dto_quantity dto \<noteq> None then dto_quantity dto else li_quantity row),
       li_unit_price_minor := (if dto_unit_price_minor dto \<noteq> None then dto_unit_price_minor dto else li_unit_price_minor row),
       li_flags := Some (remap_flags line dto)\<rparr>"

text \<open>The checks before anything is written.\<close>

definition remap_check :: "request \<Rightarrow> uuid \<Rightarrow> patch_line_item \<Rightarrow> db \<Rightarrow> remap_error + line_item" where
  "remap_check request lineId dto d =
     (if nothing_to_update dto then Inl Nothing_To_Update
      else
        (case find (\<lambda>l. li_id l = lineId) (line_items d) of
           None \<Rightarrow> Inl Line_Not_Found
         | Some line \<Rightarrow>
             if li_request_id line \<noteq> r_id request then Inl Line_Not_Found
             else if (case dto_sku_id dto of
                        Some s \<Rightarrow> find (\<lambda>k. sku_id k = s \<and> sku_org_id k = r_org_id request) (skus d) = None
                      | None \<Rightarrow> False) then Inl Sku_Not_Found
             else if dto_override dto = Some True \<and> dto_unit_price_minor dto = None \<and> li_unit_price_minor line = None
               then Inl Override_Price_Required
             else if dto_override dto = Some False \<and> dto_unit_price_minor dto \<noteq> None then Inl Override_Conflict
             else Inr line))"

definition hold_for_review :: "uuid \<Rightarrow> db \<Rightarrow> db" where
  "hold_for_review requestId = update_requests (\<lambda>r. r_id r = requestId) (\<lambda>r. r\<lparr>status := St_Needs_Review\<rparr>)"

definition remap ::
  "uuid \<Rightarrow> request \<Rightarrow> uuid \<Rightarrow> patch_line_item \<Rightarrow> db \<Rightarrow> (remap_error + recompute_result) \<times> db" where
  "remap newId request lineId dto d =
     (case remap_check request lineId dto d of
        Inl e \<Rightarrow> (Inl e, d)
      | Inr line \<Rightarrow>
          (case recompute newId (r_id request) (r_org_id request) (update_line lineId (buildUpdate line dto) d) of
             Inl e \<Rightarrow> (Inl (Remap_Recompute e), d)
           | Inr (totals, d') \<Rightarrow>
               (Inr totals, if rc_blocked totals then hold_for_review (r_id request) d' else d')))"

section \<open>Facts\<close>

lemma buildUpdate_id [simp]: "li_id (buildUpdate line dto row) = li_id row" "li_request_id (buildUpdate line dto row) = li_request_id row"
  by (simp_all add: buildUpdate_def)

lemma remap_flags_mem:
  "f \<in> set (remap_flags line dto) \<longleftrightarrow>
     (if f = MANUAL_OVERRIDE_FLAG then
        dto_override dto \<noteq> Some False \<and> (dto_override dto = Some True \<or> dto_unit_price_minor dto \<noteq> None \<or> f \<in> set (flags_of line))
      else if f = CLOSE_TIE_FLAG then f \<in> set (flags_of line) \<and> dto_sku_id dto = None
      else f \<in> set (flags_of line))"
proof -
  have "CLOSE_TIE_FLAG \<noteq> MANUAL_OVERRIDE_FLAG" by (simp add: flag_defs)
  then show ?thesis by (auto simp: remap_flags_def Let_def)
qed

lemma recompute_requests:
  assumes "recompute newId r orgId d = Inr (res, d')"
  shows "requests d' = requests d"
proof -
  let ?ps = "filter (priceable d) (lines_of_request_in_org r orgId d)"
  show ?thesis
  proof (cases "?ps = []")
    case True
    then show ?thesis using assms
      by (auto simp: recompute_def Let_def drop_stale_quote_def clearLinePricing_def split: if_splits)
  next
    case False
    from recompute_success [OF assms False refl refl refl refl refl refl] show ?thesis
      by (auto simp: replaceForRequest_Inr persistRecomputed_def clearLinePricing_def)
  qed
qed

lemma recompute_ids:
  assumes "recompute newId r orgId d = Inr (res, d')" and "distinct (map li_id (line_items d))"
  shows "map li_id (line_items d') = map li_id (line_items d)"
proof -
  let ?ps = "filter (priceable d) (lines_of_request_in_org r orgId d)"
  let ?nps = "filter (\<lambda>li. li_id li \<notin> li_id ` set ?ps) (lines_of_request_in_org r orgId d)"
  have dn: "distinct (map li_id ?nps)" by (rule distinct_lines_in_org [OF assms(2)])
  have dp: "distinct (map lineItemId (all_priced_lines orgId d ?ps))"
    by (rule distinct_all_priced) (rule distinct_lines_in_org [OF assms(2)])
  show ?thesis
  proof (cases "?ps = []")
    case True
    then have d': "line_items d' = line_items (clearLinePricing ?nps d)"
      using assms(1) by (auto simp: recompute_def Let_def drop_stale_quote_def)
    show ?thesis unfolding d' clear_one_pass [OF dn] by (simp add: apply_clear_id comp_def)
  next
    case False
    have kept: "replaceForRequest i inp e = Inr d' \<Longrightarrow> line_items d' = line_items e" for i inp e
      by (auto simp: replaceForRequest_Inr)
    note d' = kept [OF recompute_success(1) [OF assms(1) False refl refl refl refl refl refl]]
    show ?thesis unfolding d' persistRecomputed_def price_writes_one_pass [OF dp] clear_one_pass [OF dn]
      by (simp add: apply_clear_id apply_price_id comp_def)
  qed
qed

lemma remap_check_Inr:
  assumes "remap_check request lineId dto d = Inr line"
  shows "find (\<lambda>l. li_id l = lineId) (line_items d) = Some line" and "li_request_id line = r_id request"
    and "\<forall>s. dto_sku_id dto = Some s \<longrightarrow> (\<exists>k \<in> set (skus d). sku_id k = s \<and> sku_org_id k = r_org_id request)"
    and "dto_override dto = Some True \<longrightarrow> dto_unit_price_minor dto \<noteq> None \<or> li_unit_price_minor line \<noteq> None"
    and "dto_override dto = Some False \<longrightarrow> dto_unit_price_minor dto = None"
  using assms by (auto simp: remap_check_def find_None_iff split: if_splits option.splits dest: find_Some_set)

lemma remap_Inr:
  assumes "remap newId request lineId dto d = (Inr totals, d')"
  obtains line d1 where "remap_check request lineId dto d = Inr line"
    and "recompute newId (r_id request) (r_org_id request) (update_line lineId (buildUpdate line dto) d) = Inr (totals, d1)"
    and "d' = (if rc_blocked totals then hold_for_review (r_id request) d1 else d1)"
  using assms by (auto simp: remap_def split: sum.splits)

text \<open>
  What a re-map does to the line: a refused request (nothing to change, a line of another request, a
  product of another organisation, an override without a price or a contradictory one, a recompute that fails)
  changes nothing at all; an accepted one leaves the line with the product and quantity the estimator chose,
  overridden exactly when a price was given or the override was set (or was already set and not cleared), and
  then, when it can be priced, with the price the estimator gave or had given, which the recompute
  keeps; without an override it gets the price of the rules.
\<close>

theorem remap_line:
  assumes "remap newId request lineId dto d = (out, d')" and "distinct (map li_id (line_items d))"
    and "request_in_org (r_id request) (r_org_id request) d"
  shows "case out of
      Inl e \<Rightarrow> d' = d
    | Inr totals \<Rightarrow> \<exists>line upd row.
        line \<in> set (line_items d) \<and> li_id line = lineId \<and> li_request_id line = r_id request \<and>
        upd = buildUpdate line dto line \<and> row \<in> set (line_items d') \<and> li_id row = lineId \<and>
        matched_sku_id upd = (case dto_sku_id dto of Some s \<Rightarrow> Some s | None \<Rightarrow> matched_sku_id line) \<and>
        li_quantity upd = (case dto_quantity dto of Some n \<Rightarrow> Some n | None \<Rightarrow> li_quantity line) \<and>
        (MANUAL_OVERRIDE_FLAG \<in> set (flags_of upd) \<longleftrightarrow> dto_override dto \<noteq> Some False \<and>
          (dto_override dto = Some True \<or> dto_unit_price_minor dto \<noteq> None \<or> MANUAL_OVERRIDE_FLAG \<in> set (flags_of line))) \<and>
        (\<not> priceable d upd \<longrightarrow> li_unit_price_minor row = None) \<and>
        (priceable d upd \<and> isOverridden upd \<longrightarrow> li_unit_price_minor row =
          (case dto_unit_price_minor dto of Some p \<Rightarrow> Some p | None \<Rightarrow> li_unit_price_minor line)) \<and>
        (priceable d upd \<and> \<not> isOverridden upd \<longrightarrow> li_unit_price_minor row =
          Some (unitPriceMinor (priceLine (pricing_input d upd) (quantityBreaks (getRuleSetForOrg (r_org_id request) d)))))"
proof (cases out)
  case (Inl e)
  then show ?thesis using assms(1) by (auto simp: remap_def split: sum.splits)
next
  case (Inr totals)
  from assms(1)[unfolded Inr] obtain line d1 where ok: "remap_check request lineId dto d = Inr line"
    and rec: "recompute newId (r_id request) (r_org_id request) (update_line lineId (buildUpdate line dto) d) = Inr (totals, d1)"
    and d': "d' = (if rc_blocked totals then hold_for_review (r_id request) d1 else d1)"
    by (rule remap_Inr)
  let ?u = "update_line lineId (buildUpdate line dto) d"
  let ?upd = "buildUpdate line dto line"
  note line = find_Some_set [OF remap_check_Inr(1) [OF ok]]
  have rows: "line_items d' = line_items d1" by (simp add: d' hold_for_review_def)
  have dist: "distinct (map li_id (line_items ?u))" using assms(2) by (simp add: map_update_where)
  have mem: "?upd \<in> set (line_items ?u)" using line by (auto simp: set_update_where)
  have in_org: "?upd \<in> set (lines_of_request_in_org (r_id request) (r_org_id request) ?u)"
    using mem assms(3) remap_check_Inr(2) [OF ok]
    by (simp add: lines_of_request_in_org_def lines_of_request_def request_in_org_def)
  have same: "priceable ?u = priceable d" "pricing_input ?u = pricing_input d" "getRuleSetForOrg (r_org_id request) ?u = getRuleSetForOrg (r_org_id request) d"
    using skus_cong [of ?u d] by (simp_all add: getRuleSetForOrg_def)
  obtain row where row: "row \<in> set (line_items d1)" "li_id row = li_id ?upd"
  proof -
    have "map li_id (line_items d1) = map li_id (line_items ?u)" by (rule recompute_ids [OF rec dist])
    then have "li_id ?upd \<in> set (map li_id (line_items d1))" using mem by (metis image_eqI list.set_map)
    then show ?thesis using that by auto
  qed
  note eff = recompute_effect [OF rec dist in_org row, unfolded same]
  have flags: "MANUAL_OVERRIDE_FLAG \<in> set (flags_of ?upd) \<longleftrightarrow> dto_override dto \<noteq> Some False \<and>
      (dto_override dto = Some True \<or> dto_unit_price_minor dto \<noteq> None \<or> MANUAL_OVERRIDE_FLAG \<in> set (flags_of line))"
    using remap_flags_mem [of MANUAL_OVERRIDE_FLAG line dto] by (simp add: buildUpdate_def flags_of_def [of "_ \<lparr>li_flags := _\<rparr>"])
  have fields: "matched_sku_id ?upd = (case dto_sku_id dto of Some s \<Rightarrow> Some s | None \<Rightarrow> matched_sku_id line)"
    "li_quantity ?upd = (case dto_quantity dto of Some n \<Rightarrow> Some n | None \<Rightarrow> li_quantity line)"
    "li_unit_price_minor ?upd = (case dto_unit_price_minor dto of Some p \<Rightarrow> Some p | None \<Rightarrow> li_unit_price_minor line)"
    by (auto simp: buildUpdate_def split: option.splits)
  show ?thesis unfolding Inr sum.case rows
    by (rule exI [of _ line], rule exI [of _ ?upd], rule exI [of _ row])
      (use line row eff flags fields remap_check_Inr(2) [OF ok] in auto)
qed

section \<open>A re-map of a finished request\<close>

text \<open>
  A re-map reopens what is finished: whatever the status of the request, declined and sent included, and
  whatever the status of its quote, a re-map after which a line can be priced replaces the quote by a new
  draft under a new identifier, and if the organisation has no pricing rules it also sets the request back to
  needing review.
\<close>

theorem remap_reopens:
  assumes "remap newId request lineId dto d = (Inr totals, d')" and "find_request (r_id request) d = Some cur"
    and "newId \<notin> ql_quote_id ` set (quote_lines d)"
  shows "(rc_blocked totals \<longrightarrow> map_option status (find_request (r_id request) d') = Some St_Needs_Review) \<and>
    (rc_quoteId totals \<noteq> None \<longrightarrow>
      (\<exists>q. quotes_of_request (r_id request) d' = [q] \<and> q_id q = newId \<and> q_status q = Q_Draft))"
proof -
  from assms(1) obtain line d1 where
    rec: "recompute newId (r_id request) (r_org_id request) (update_line lineId (buildUpdate line dto) d) = Inr (totals, d1)"
    and d': "d' = (if rc_blocked totals then hold_for_review (r_id request) d1 else d1)"
    by (rule remap_Inr)
  let ?u = "update_line lineId (buildUpdate line dto) d"
  have req: "requests d1 = requests d" using recompute_requests [OF rec] by simp
  have status: "map_option status (find_request (r_id request) (hold_for_review (r_id request) d1)) = Some St_Needs_Review"
    using assms(2) find_request_Some [OF assms(2)]
    by (simp add: hold_for_review_def find_request_update find_request_cong [OF req])
  have quotes: "quotes_of_request (r_id request) d' = quotes_of_request (r_id request) d1"
    by (simp add: d' hold_for_review_def quotes_of_request_def)
  have "\<exists>q. quotes_of_request (r_id request) d1 = [q] \<and> q_id q = newId \<and> q_status q = Q_Draft" if "rc_quoteId totals \<noteq> None"
  proof -
    have ps: "filter (priceable ?u) (lines_of_request_in_org (r_id request) (r_org_id request) ?u) \<noteq> []"
      using rec that by (auto simp: recompute_def Let_def EMPTY_RECOMPUTE_def)
    have fresh: "newId \<notin> ql_quote_id ` set (quote_lines (persistRecomputed ls b fl (clearLinePricing nps ?u)))" for ls b fl nps
      using assms(3) by (simp add: persistRecomputed_def clearLinePricing_def)
    from replaceForRequest_effect [OF recompute_success(1) [OF rec ps refl refl refl refl refl refl] fresh]
    show ?thesis by (auto simp: recompute_input_def Let_def)
  qed
  with status quotes show ?thesis by (simp add: d')
qed

definition remap_db :: "request_status \<Rightarrow> quote_status \<Rightarrow> pricing_rule list \<Rightarrow> db" where
  "remap_db st qst rules = empty_db\<lparr>requests := [demo_request ''org'' Done st], quotes := [demo_quote ''q1'' ''r1'' qst],
     line_items := [demo_line ''l1'' 1 (Some ''s1'') (Some 15)], skus := [demo_sku ''s1'' ''EUR''], pricing_rules := rules\<rparr>"

definition set_price :: "int \<Rightarrow> patch_line_item" where
  "set_price p = \<lparr>dto_sku_id = None, dto_quantity = None, dto_unit_price_minor = Some p, dto_override = None\<rparr>"

definition set_quantity :: "rat \<Rightarrow> patch_line_item" where
  "set_quantity n = \<lparr>dto_sku_id = None, dto_quantity = Some n, dto_unit_price_minor = None, dto_override = None\<rparr>"

definition sent_remap :: "(remap_error + recompute_result) \<times> db" where
  "sent_remap = remap ''q9'' (demo_request ''org'' Done St_Sent) ''l1'' (set_quantity 3) (remap_db St_Sent Q_Sent [])"

definition price_remap :: "(remap_error + recompute_result) \<times> db" where
  "price_remap = remap ''q9'' (demo_request ''org'' Done St_Needs_Review) ''l1'' (set_price 75)
     (remap_db St_Needs_Review Q_Draft [demo_qty_rule 10 5])"

lemma sent_remap_result:
  "case fst sent_remap of Inr t \<Rightarrow> rc_blocked t \<and> rc_quoteId t \<noteq> None | Inl _ \<Rightarrow> False"
  by code_simp

lemma price_remap_result: "case fst price_remap of Inr t \<Rightarrow> True | Inl _ \<Rightarrow> False"
  by code_simp

theorem remap_reopens_witness:
  "map_option status (find_request ''r1'' (snd sent_remap)) = Some St_Needs_Review \<and>
   map_option status (find_request ''r1'' (remap_db St_Sent Q_Sent [])) = Some St_Sent \<and>
   (\<exists>q. quotes_of_request ''r1'' (snd sent_remap) = [q] \<and> q_status q = Q_Draft)"
proof -
  obtain t where t: "fst sent_remap = Inr t" "rc_blocked t" "rc_quoteId t \<noteq> None"
    using sent_remap_result by (auto split: sum.splits)
  then have run: "remap ''q9'' (demo_request ''org'' Done St_Sent) ''l1'' (set_quantity 3) (remap_db St_Sent Q_Sent []) = (Inr t, snd sent_remap)"
    by (simp add: sent_remap_def prod_eq_iff)
  have id: "r_id (demo_request ''org'' Done St_Sent) = ''r1''" by (simp add: demo_request_def)
  have f: "find_request (r_id (demo_request ''org'' Done St_Sent)) (remap_db St_Sent Q_Sent []) = Some (demo_request ''org'' Done St_Sent)"
    by (simp add: find_request_def remap_db_def)
  have "''q9'' \<notin> ql_quote_id ` set (quote_lines (remap_db St_Sent Q_Sent []))" by (simp add: remap_db_def empty_db_def)
  from remap_reopens [OF run f this] t f show ?thesis unfolding id by (auto simp: demo_request_def)
qed

theorem remap_line_witness:
  "\<exists>row \<in> set (line_items (snd price_remap)). li_id row = ''l1'' \<and> li_unit_price_minor row = Some 75"
proof -
  let ?d = "remap_db St_Needs_Review Q_Draft [demo_qty_rule 10 5]"
  let ?l = "demo_line ''l1'' 1 (Some ''s1'') (Some 15)"
  obtain t where t: "fst price_remap = Inr t" using price_remap_result by (auto split: sum.splits)
  then have run: "remap ''q9'' (demo_request ''org'' Done St_Needs_Review) ''l1'' (set_price 75) ?d = (Inr t, snd price_remap)"
    by (simp add: price_remap_def prod_eq_iff)
  have d: "distinct (map li_id (line_items ?d))" by (simp add: remap_db_def)
  have o: "request_in_org (r_id (demo_request ''org'' Done St_Needs_Review)) (r_org_id (demo_request ''org'' Done St_Needs_Review)) ?d"
    by (simp add: request_in_org_def remap_db_def demo_request_def)
  have p: "priceable ?d (buildUpdate ?l (set_price 75) ?l)" by code_simp
  have v: "isOverridden (buildUpdate ?l (set_price 75) ?l)" by code_simp
  have s: "dto_unit_price_minor (set_price 75) = Some 75" by (simp add: set_price_def)
  from remap_line [OF run d o] obtain line upd row where
    l: "line \<in> set (line_items ?d)" "upd = buildUpdate line (set_price 75) line" "row \<in> set (line_items (snd price_remap))"
      "li_id row = ''l1''" and price: "priceable ?d upd \<and> isOverridden upd \<longrightarrow> li_unit_price_minor row =
          (case dto_unit_price_minor (set_price 75) of Some p \<Rightarrow> Some p | None \<Rightarrow> li_unit_price_minor line)"
    unfolding sum.case by blast
  have "line = ?l" using l(1) by (simp add: remap_db_def)
  with price l(2) p v s have "li_unit_price_minor row = Some 75" by simp
  with l(3,4) show ?thesis by blast
qed

end
