(* ===== verification/Events.thy ===== *)
theory Events
  imports Entities
begin

text \<open>
  The audit trail (\<open>constants/events.constants.ts\<close>, \<open>events/events.service.ts\<close>): the strict schemas of
  the event payloads, the attributes each emitting site builds, and the service that validates an event,
  writes its row and publishes it. The other theories record an event as an abstract payload
  (\<^const>\<open>emit\<close>, \<^const>\<open>emitStageError\<close>); the last section proves that this is what the service does.
  The two string formats the schema library checks (date-times and UUIDs) are parameters.
\<close>

section \<open>Names on the wire\<close>

fun node_name :: "current_node \<Rightarrow> string" where
  "node_name Parse = ''parse''" | "node_name Extract = ''extract''" | "node_name Classify = ''classify''"
| "node_name Match = ''match''" | "node_name Price = ''price''" | "node_name Policy = ''policy''"
| "node_name Score = ''score''" | "node_name Done = ''done''" | "node_name Failed = ''failed''"

definition CURRENT_NODES :: "current_node list" where
  "CURRENT_NODES = [Parse, Extract, Classify, Match, Price, Policy, Score, Done, Failed]"

definition STAGE_NAMES :: "current_node list" where
  "STAGE_NAMES = [Parse, Extract, Classify, Match, Price, Policy, Score]"

text \<open>\<open>StreamNode\<close>: the nodes the tool events name.\<close>

definition STREAM_NODES :: "current_node list" where
  "STREAM_NODES = [Parse, Extract, Match, Score, Price, Policy]"

fun reason_name :: "stage_error_reason \<Rightarrow> string" where
  "reason_name Corrupt = ''corrupt''" | "reason_name No_Text_Layer = ''no_text_layer''"
| "reason_name Unsupported_Format = ''unsupported_format''" | "reason_name Size_Limit_Exceeded = ''size_limit_exceeded''"
| "reason_name Tool_Not_Found = ''tool_not_found''" | "reason_name Tool_Input_Invalid = ''tool_input_invalid''"
| "reason_name Tool_Execution_Failed = ''tool_execution_failed''" | "reason_name Tool_Output_Invalid = ''tool_output_invalid''"
| "reason_name Llm_Circuit_Open = ''llm_circuit_open''" | "reason_name Llm_Timeout = ''llm_timeout''"
| "reason_name Llm_Error = ''llm_error''" | "reason_name Vector_Store_Unavailable = ''vector_store_unavailable''"
| "reason_name Pricing_Rule_Missing = ''pricing_rule_missing''"
| "reason_name Catalog_Currency_Must_Be_Eur = ''catalog_currency_must_be_eur''" | "reason_name Unknown_Error = ''unknown''"

definition STAGE_ERROR_REASONS :: "stage_error_reason list" where
  "STAGE_ERROR_REASONS = [Corrupt, No_Text_Layer, Unsupported_Format, Size_Limit_Exceeded, Tool_Not_Found,
     Tool_Input_Invalid, Tool_Execution_Failed, Tool_Output_Invalid, Llm_Circuit_Open, Llm_Timeout, Llm_Error,
     Vector_Store_Unavailable, Pricing_Rule_Missing, Catalog_Currency_Must_Be_Eur, Unknown_Error]"

fun status_name :: "request_status \<Rightarrow> string" where
  "status_name St_Received = ''received''" | "status_name St_Parsing = ''parsing''"
| "status_name St_Needs_Review = ''needs_review''" | "status_name St_Priced = ''priced''"
| "status_name St_Ready = ''ready''" | "status_name St_Sent = ''sent''" | "status_name St_Declined = ''declined''"
| "status_name St_Needs_Clarification = ''needs_clarification''" | "status_name St_Failed = ''failed''"

definition REQUEST_STATUSES :: "request_status list" where
  "REQUEST_STATUSES = [St_Received, St_Parsing, St_Needs_Review, St_Priced, St_Ready, St_Sent, St_Declined,
     St_Needs_Clarification, St_Failed]"

fun routing_name :: "request_routing \<Rightarrow> string" where
  "routing_name Auto_Eligible = ''auto_eligible''" | "routing_name Needs_Review = ''needs_review''"

fun channel_name :: "request_channel \<Rightarrow> string" where
  "channel_name Ch_Email = ''email''" | "channel_name Ch_Upload = ''upload''" | "channel_name Ch_Form = ''form''"

fun type_name :: "request_type \<Rightarrow> string" where
  "type_name Catalog_Rfq = ''catalog_rfq''" | "type_name Service_Quote = ''service_quote''"
| "type_name Type_Unknown = ''unknown''"

fun resume_name :: "resume_reason \<Rightarrow> string" where
  "resume_name Crash_Recovery = ''crash_recovery''" | "resume_name Manual = ''manual''"

fun source_name :: "reason_source \<Rightarrow> string" where
  "source_name From_Extraction = ''extraction''" | "source_name From_Confidence = ''confidence''"
| "source_name From_Policy = ''policy''"

fun code_name :: "reason_code \<Rightarrow> string" where
  "code_name Low_Line_Confidence = ''low_line_confidence''" | "code_name Policy_Flags_Detected = ''policy_flags_detected''"
| "code_name Deal_Value_Exceeds_Cap = ''deal_value_exceeds_cap''" | "code_name Incomplete_Deal_Value = ''incomplete_deal_value''"
| "code_name No_Line_Items = ''no_line_items''" | "code_name Extraction_Failed = ''extraction_failed''"
| "code_name Extraction_Empty_Source = ''extraction_empty_source''" | "code_name Rc_Auto_Eligible = ''auto_eligible''"
| "code_name Policy_Breach = ''policy_breach''"

fun progress_name :: "tool_progress \<Rightarrow> string" where
  "progress_name Tool_Running = ''running''" | "progress_name Tool_Success = ''success''"
| "progress_name Tool_Failed = ''failed''"

section \<open>Payload schemas\<close>

record string_formats =
  is_datetime :: "string \<Rightarrow> bool"
  is_uuid :: "string \<Rightarrow> bool"

definition z_datetime :: "string_formats \<Rightarrow> string schema" where
  "z_datetime zf = z_refine z_string (is_datetime zf)"

definition z_uuid :: "string_formats \<Rightarrow> string schema" where
  "z_uuid zf = z_refine z_string (is_uuid zf)"

definition z_true :: "bool schema" where
  "z_true = z_refine z_boolean (\<lambda>b. b)"

text \<open>\<open>z.nativeEnum\<close> over an enumeration given by its members and their names.\<close>

definition z_names :: "('a \<Rightarrow> string) \<Rightarrow> 'a list \<Rightarrow> 'a schema" where
  "z_names name vs = z_enum (map (\<lambda>v. (name v, v)) vs)"

text \<open>\<open>.strict()\<close>: no key beyond the declared ones.\<close>

definition z_strict :: "string list \<Rightarrow> json schema" where
  "z_strict ks = z_refine z_object (\<lambda>v. case v of JObj fs \<Rightarrow> set (map fst fs) \<subseteq> set ks | _ \<Rightarrow> False)"

definition z_optional :: "'a schema \<Rightarrow> 'a option schema" where
  "z_optional s v = (if v = None then Some None else map_option Some (s v))"

definition z_union :: "'a schema \<Rightarrow> 'a schema \<Rightarrow> 'a schema" where
  "z_union s t v = (case s v of Some x \<Rightarrow> Some x | None \<Rightarrow> t v)"

definition z_node :: "current_node schema" where
  "z_node = z_names node_name CURRENT_NODES"

definition z_success :: "unit schema" where
  "z_success = z_enum [(''success'', ()), (''failed'', ())]"

definition RequestReceivedPayloadSchema :: "json schema" where
  "RequestReceivedPayloadSchema v = do {
     p \<leftarrow> z_strict [''channel'', ''attachment_count''] v;
     _ \<leftarrow> z_names channel_name [Ch_Email, Ch_Upload, Ch_Form] (field ''channel'' p);
     _ \<leftarrow> z_nonneg_int (field ''attachment_count'' p);
     Some p }"

definition NodeEnteredPayloadSchema :: "string_formats \<Rightarrow> json schema" where
  "NodeEnteredPayloadSchema zf v = do {
     p \<leftarrow> z_strict [''type'', ''timestamp'', ''node'', ''status''] v;
     _ \<leftarrow> z_literal ''node.entered'' (field ''type'' p);
     _ \<leftarrow> z_datetime zf (field ''timestamp'' p);
     _ \<leftarrow> z_node (field ''node'' p);
     _ \<leftarrow> z_literal ''processing'' (field ''status'' p);
     Some p }"

definition NodeExitedGenericSchema :: "string_formats \<Rightarrow> json schema" where
  "NodeExitedGenericSchema zf v = do {
     p \<leftarrow> z_strict [''type'', ''timestamp'', ''node'', ''status'', ''duration_ms'', ''summary''] v;
     _ \<leftarrow> z_literal ''node.exited'' (field ''type'' p);
     _ \<leftarrow> z_datetime zf (field ''timestamp'' p);
     _ \<leftarrow> z_node (field ''node'' p);
     _ \<leftarrow> z_success (field ''status'' p);
     _ \<leftarrow> z_nonneg_int (field ''duration_ms'' p);
     _ \<leftarrow> z_string (field ''summary'' p);
     Some p }"

definition NodeExitedCircuitBreakerSchema :: "json schema" where
  "NodeExitedCircuitBreakerSchema v = do {
     p \<leftarrow> z_strict [''node'', ''next''] v;
     _ \<leftarrow> z_node (field ''node'' p);
     _ \<leftarrow> z_literal ''needs_review'' (field ''next'' p);
     Some p }"

definition NodeExitedClassifySchema :: "json schema" where
  "NodeExitedClassifySchema v = do {
     p \<leftarrow> z_strict [''node'', ''next'', ''classification_type'', ''classification_confidence'', ''elapsed_ms'', ''message''] v;
     _ \<leftarrow> z_node (field ''node'' p);
     _ \<leftarrow> z_node (field ''next'' p);
     _ \<leftarrow> z_names type_name [Catalog_Rfq, Service_Quote, Type_Unknown] (field ''classification_type'' p);
     _ \<leftarrow> z_number (field ''classification_confidence'' p);
     _ \<leftarrow> z_nonneg_int (field ''elapsed_ms'' p);
     _ \<leftarrow> z_string (field ''message'' p);
     Some p }"

definition NodeExitedMatchSchema :: "json schema" where
  "NodeExitedMatchSchema v = do {
     p \<leftarrow> z_strict [''node'', ''next'', ''matched_count'', ''total_count'', ''degraded'', ''message''] v;
     _ \<leftarrow> z_node (field ''node'' p);
     _ \<leftarrow> z_node (field ''next'' p);
     _ \<leftarrow> z_nonneg_int (field ''matched_count'' p);
     _ \<leftarrow> z_nonneg_int (field ''total_count'' p);
     _ \<leftarrow> z_boolean (field ''degraded'' p);
     _ \<leftarrow> z_string (field ''message'' p);
     Some p }"

definition RoutingReasonSchema :: "json schema" where
  "RoutingReasonSchema v = do {
     p \<leftarrow> z_strict [''code'', ''message'', ''source''] v;
     _ \<leftarrow> z_string (field ''code'' p);
     _ \<leftarrow> z_string (field ''message'' p);
     _ \<leftarrow> z_names source_name [From_Extraction, From_Confidence, From_Policy] (field ''source'' p);
     Some p }"

definition NodeExitedScoreSchema :: "json schema" where
  "NodeExitedScoreSchema v = do {
     p \<leftarrow> z_strict [''node'', ''next'', ''routing'', ''overall_confidence'', ''routing_reasons'', ''elapsed_ms'', ''message''] v;
     _ \<leftarrow> z_node (field ''node'' p);
     _ \<leftarrow> z_node (field ''next'' p);
     _ \<leftarrow> z_names routing_name [Auto_Eligible, Needs_Review] (field ''routing'' p);
     _ \<leftarrow> z_number (field ''overall_confidence'' p);
     _ \<leftarrow> z_array RoutingReasonSchema (field ''routing_reasons'' p);
     _ \<leftarrow> z_nonneg_int (field ''elapsed_ms'' p);
     _ \<leftarrow> z_string (field ''message'' p);
     Some p }"

definition NodeExitedExtractSchema :: "json schema" where
  "NodeExitedExtractSchema v = do {
     p \<leftarrow> z_strict [''node'', ''next'', ''schema_valid'', ''reextract_count'', ''elapsed_ms'', ''message''] v;
     _ \<leftarrow> z_node (field ''node'' p);
     _ \<leftarrow> z_node (field ''next'' p);
     _ \<leftarrow> z_boolean (field ''schema_valid'' p);
     _ \<leftarrow> z_nonneg_int (field ''reextract_count'' p);
     _ \<leftarrow> z_nonneg_int (field ''elapsed_ms'' p);
     _ \<leftarrow> z_string (field ''message'' p);
     Some p }"

definition NodeExitedPayloadSchema :: "string_formats \<Rightarrow> json schema" where
  "NodeExitedPayloadSchema zf =
     z_union (NodeExitedGenericSchema zf) (z_union NodeExitedCircuitBreakerSchema (z_union NodeExitedClassifySchema
       (z_union NodeExitedMatchSchema (z_union NodeExitedScoreSchema NodeExitedExtractSchema))))"

definition ToolInvokedPayloadSchema :: "string_formats \<Rightarrow> json schema" where
  "ToolInvokedPayloadSchema zf v = do {
     p \<leftarrow> z_strict [''type'', ''timestamp'', ''node'', ''tool_name'', ''status'', ''attempt'', ''result_summary''] v;
     _ \<leftarrow> z_literal ''tool.invoked'' (field ''type'' p);
     _ \<leftarrow> z_datetime zf (field ''timestamp'' p);
     _ \<leftarrow> z_optional (z_names node_name STREAM_NODES) (field ''node'' p);
     _ \<leftarrow> z_string (field ''tool_name'' p);
     _ \<leftarrow> z_names progress_name [Tool_Running, Tool_Success, Tool_Failed] (field ''status'' p);
     _ \<leftarrow> z_positive_int (field ''attempt'' p);
     _ \<leftarrow> z_string (field ''result_summary'' p);
     Some p }"

definition RequestResumedPayloadSchema :: "json schema" where
  "RequestResumedPayloadSchema v = do {
     p \<leftarrow> z_strict [''type'', ''resumed_from_node'', ''reason''] v;
     _ \<leftarrow> z_literal ''request.resumed'' (field ''type'' p);
     _ \<leftarrow> z_node (field ''resumed_from_node'' p);
     _ \<leftarrow> z_names resume_name [Crash_Recovery, Manual] (field ''reason'' p);
     Some p }"

definition RequestDeclinedPayloadSchema :: "json schema" where
  "RequestDeclinedPayloadSchema v = do {
     p \<leftarrow> z_strict [''reason''] v;
     _ \<leftarrow> z_string (field ''reason'' p);
     Some p }"

definition PricingCompletedPayloadSchema :: "json schema" where
  "PricingCompletedPayloadSchema v = do {
     p \<leftarrow> z_strict [''node'', ''next'', ''total_minor'', ''blocked'', ''message''] v;
     _ \<leftarrow> z_node (field ''node'' p);
     _ \<leftarrow> z_node (field ''next'' p);
     _ \<leftarrow> z_int (field ''total_minor'' p);
     _ \<leftarrow> z_boolean (field ''blocked'' p);
     _ \<leftarrow> z_string (field ''message'' p);
     Some p }"

definition PolicyCompletedPayloadSchema :: "json schema" where
  "PolicyCompletedPayloadSchema v = do {
     p \<leftarrow> z_strict [''node'', ''next'', ''breached'', ''fail_closed'', ''breach_count'', ''message''] v;
     _ \<leftarrow> z_node (field ''node'' p);
     _ \<leftarrow> z_node (field ''next'' p);
     _ \<leftarrow> z_boolean (field ''breached'' p);
     _ \<leftarrow> z_boolean (field ''fail_closed'' p);
     _ \<leftarrow> z_nonneg_int (field ''breach_count'' p);
     _ \<leftarrow> z_string (field ''message'' p);
     Some p }"

definition ProcessingCompletePayloadSchema :: "string_formats \<Rightarrow> json schema" where
  "ProcessingCompletePayloadSchema zf v = do {
     p \<leftarrow> z_strict [''type'', ''timestamp'', ''status'', ''total_duration_ms''] v;
     _ \<leftarrow> z_literal ''processing.complete'' (field ''type'' p);
     _ \<leftarrow> z_datetime zf (field ''timestamp'' p);
     _ \<leftarrow> z_success (field ''status'' p);
     _ \<leftarrow> z_nonneg_int (field ''total_duration_ms'' p);
     Some p }"

definition RequestFinalizedPayloadSchema :: "json schema" where
  "RequestFinalizedPayloadSchema v = do {
     p \<leftarrow> z_strict [''status''] v;
     _ \<leftarrow> z_names status_name REQUEST_STATUSES (field ''status'' p);
     Some p }"

definition StageErrorPayloadSchema :: "string_formats \<Rightarrow> json schema" where
  "StageErrorPayloadSchema zf v = do {
     p \<leftarrow> z_object v;
     _ \<leftarrow> z_literal ''stage.error'' (field ''event_type'' p);
     _ \<leftarrow> z_uuid zf (field ''request_id'' p);
     _ \<leftarrow> z_names node_name STAGE_NAMES (field ''stage'' p);
     _ \<leftarrow> z_names reason_name STAGE_ERROR_REASONS (field ''reason'' p);
     _ \<leftarrow> z_true (field ''escalated_to_human'' p);
     _ \<leftarrow> z_datetime zf (field ''occurred_at'' p);
     Some p }"

definition EVENT_PAYLOAD_SCHEMAS :: "string_formats \<Rightarrow> (string \<times> json schema) list" where
  "EVENT_PAYLOAD_SCHEMAS zf =
     [(''request.received'', RequestReceivedPayloadSchema), (''node.entered'', NodeEnteredPayloadSchema zf),
      (''node.exited'', NodeExitedPayloadSchema zf), (''tool.invoked'', ToolInvokedPayloadSchema zf),
      (''request.resumed'', RequestResumedPayloadSchema), (''stage.error'', StageErrorPayloadSchema zf),
      (''quote.approved'', z_strict []), (''quote.ready'', z_strict []), (''request.declined'', RequestDeclinedPayloadSchema),
      (''pricing.completed'', PricingCompletedPayloadSchema), (''policy.completed'', PolicyCompletedPayloadSchema),
      (''processing.complete'', ProcessingCompletePayloadSchema zf), (''request.finalized'', RequestFinalizedPayloadSchema)]"

section \<open>The attributes the emitting sites build\<close>

text \<open>What a site adds beyond the payload: the time, the duration, and the rendered texts.\<close>

record stamp =
  timestamp :: string
  elapsed_ms :: int
  wording :: string
  reason_wording :: "routing_reason \<Rightarrow> string"

fun next_node :: "current_node \<Rightarrow> current_node" where
  "next_node Extract = Classify" | "next_node Classify = Match" | "next_node Match = Price"
| "next_node Price = Policy" | "next_node Policy = Score" | "next_node Score = Done" | "next_node n = n"

definition node_exit_fields :: "current_node \<Rightarrow> (string \<times> json) list" where
  "node_exit_fields n = [(''node'', JStr (node_name n)), (''next'', JStr (node_name (next_node n)))]"

definition success_name :: "bool \<Rightarrow> string" where
  "success_name ok = (if ok then ''success'' else ''failed'')"

definition reason_attributes :: "stamp \<Rightarrow> routing_reason \<Rightarrow> json" where
  "reason_attributes s r = JObj [(''code'', JStr (code_name (fst r))), (''message'', JStr (reason_wording s r)),
     (''source'', JStr (source_name (snd r)))]"

fun attributes_of :: "stamp \<Rightarrow> event_payload \<Rightarrow> json" where
  "attributes_of s (Ev_Request_Resumed n why) =
     JObj [(''type'', JStr ''request.resumed''), (''resumed_from_node'', JStr (node_name n)), (''reason'', JStr (resume_name why))]"
| "attributes_of s (Ev_Node_Entered n) =
     JObj [(''type'', JStr ''node.entered''), (''timestamp'', JStr (timestamp s)), (''node'', JStr (node_name n)),
       (''status'', JStr ''processing'')]"
| "attributes_of s (Ev_Node_Exited n ok) =
     JObj [(''type'', JStr ''node.exited''), (''timestamp'', JStr (timestamp s)), (''node'', JStr (node_name n)),
       (''status'', JStr (success_name ok)), (''duration_ms'', JNum (of_int (elapsed_ms s))), (''summary'', JStr (wording s))]"
| "attributes_of s (Ev_Breaker_Exit n) = JObj [(''node'', JStr (node_name n)), (''next'', JStr ''needs_review'')]"
| "attributes_of s (Ev_Stage_Error n why) =
     JObj [(''stage'', JStr (node_name n)), (''reason'', JStr (reason_name why)), (''escalated_to_human'', JBool True)]"
| "attributes_of s (Ev_Processing_Complete ok) =
     JObj [(''type'', JStr ''processing.complete''), (''timestamp'', JStr (timestamp s)), (''status'', JStr (success_name ok)),
       (''total_duration_ms'', JNum (of_int (elapsed_ms s)))]"
| "attributes_of s (Ev_Request_Finalized st) = JObj [(''status'', JStr (status_name st))]"
| "attributes_of s (Ev_Pricing_Completed t b) =
     JObj (node_exit_fields Price @ [(''total_minor'', JNum t), (''blocked'', JBool b), (''message'', JStr (wording s))])"
| "attributes_of s (Ev_Policy_Completed b fc k) =
     JObj (node_exit_fields Policy @ [(''breached'', JBool b), (''fail_closed'', JBool fc), (''breach_count'', JNum (of_nat k)),
       (''message'', JStr (wording s))])"
| "attributes_of s (Ev_Score_Exited rt cf rs) =
     JObj (node_exit_fields Score @ [(''routing'', JStr (routing_name rt)), (''overall_confidence'', JNum cf),
       (''routing_reasons'', JArr (map (reason_attributes s) rs)), (''elapsed_ms'', JNum (of_int (elapsed_ms s))),
       (''message'', JStr (wording s))])"
| "attributes_of s (Ev_Match_Exited k n dg) =
     JObj (node_exit_fields Match @ [(''matched_count'', JNum (of_nat k)), (''total_count'', JNum (of_nat n)),
       (''degraded'', JBool dg), (''message'', JStr (wording s))])"
| "attributes_of s (Ev_Extract_Exited valid k) =
     JObj (node_exit_fields Extract @ [(''schema_valid'', JBool valid), (''reextract_count'', JNum (of_int k)),
       (''elapsed_ms'', JNum (of_int (elapsed_ms s))), (''message'', JStr (wording s))])"
| "attributes_of s (Ev_Classify_Exited ty cf) =
     JObj (node_exit_fields Classify @ [(''classification_type'', JStr (type_name ty)), (''classification_confidence'', JNum cf),
       (''elapsed_ms'', JNum (of_int (elapsed_ms s))), (''message'', JStr (wording s))])"
| "attributes_of s (Ev_Tool_Invoked n tool st attempt) =
     JObj ([(''type'', JStr ''tool.invoked''), (''timestamp'', JStr (timestamp s))] @
       (case n of Some k \<Rightarrow> [(''node'', JStr (node_name k))] | None \<Rightarrow> []) @
       [(''tool_name'', JStr tool), (''status'', JStr (progress_name st)), (''attempt'', JNum (of_int attempt)),
        (''result_summary'', JStr (wording s))])"
| "attributes_of s (Ev_Request_Received ch k) =
     JObj [(''channel'', JStr (channel_name ch)), (''attachment_count'', JNum (of_nat k))]"
| "attributes_of s Ev_Quote_Approved = JObj []"
| "attributes_of s Ev_Quote_Ready = JObj []"
| "attributes_of s (Ev_Request_Declined reason) = JObj [(''reason'', JStr reason)]"

fun event_name :: "event_payload \<Rightarrow> string" where
  "event_name (Ev_Request_Resumed _ _) = ''request.resumed''"
| "event_name (Ev_Node_Entered _) = ''node.entered''"
| "event_name (Ev_Node_Exited _ _) = ''node.exited''"
| "event_name (Ev_Breaker_Exit _) = ''node.exited''"
| "event_name (Ev_Stage_Error _ _) = ''stage.error''"
| "event_name (Ev_Processing_Complete _) = ''processing.complete''"
| "event_name (Ev_Request_Finalized _) = ''request.finalized''"
| "event_name (Ev_Pricing_Completed _ _) = ''pricing.completed''"
| "event_name (Ev_Policy_Completed _ _ _) = ''policy.completed''"
| "event_name (Ev_Score_Exited _ _ _) = ''node.exited''"
| "event_name (Ev_Match_Exited _ _ _) = ''node.exited''"
| "event_name (Ev_Extract_Exited _ _) = ''node.exited''"
| "event_name (Ev_Classify_Exited _ _) = ''node.exited''"
| "event_name (Ev_Tool_Invoked _ _ _ _) = ''tool.invoked''"
| "event_name (Ev_Request_Received _ _) = ''request.received''"
| "event_name Ev_Quote_Approved = ''quote.approved''"
| "event_name Ev_Quote_Ready = ''quote.ready''"
| "event_name (Ev_Request_Declined _) = ''request.declined''"

section \<open>The service\<close>

text \<open>The names are cross-checked against the schema file when the service starts (\<open>None\<close>: it cannot be read).\<close>

datatype schema_file_error = Schema_Unreadable | Missing_Defs "string list" | Extra_Defs "string list"

definition onModuleInit :: "string_formats \<Rightarrow> string list option \<Rightarrow> schema_file_error option" where
  "onModuleInit zf defs =
     (case defs of
        None \<Rightarrow> Some Schema_Unreadable
      | Some ds \<Rightarrow>
          (let names = map fst (EVENT_PAYLOAD_SCHEMAS zf);
               missing = filter (\<lambda>n. n \<notin> set ds) names;
               extra = filter (\<lambda>n. n \<notin> set names) (uniq ds)
           in if missing \<noteq> [] then Some (Missing_Defs missing)
              else if extra \<noteq> [] then Some (Extra_Defs extra) else None))"

record emit_params =
  ep_eventName :: string
  ep_orgId :: "uuid option"
  ep_requestId :: "uuid option"
  ep_quoteId :: "uuid option"
  ep_userId :: "uuid option"
  ep_attributes :: "json option"

record audit_row =
  row_org :: uuid
  row_request :: "uuid option"
  row_quote :: "uuid option"
  row_user :: "uuid option"
  row_name :: string
  row_attributes :: json
  row_created_at :: millis

record bus =
  trail :: "audit_row list"
  published :: "(string \<times> json) list"
  bus_clock :: millis

fun org_given :: "uuid option \<Rightarrow> bool" where
  "org_given (Some i) \<longleftrightarrow> i \<noteq> []"
| "org_given None \<longleftrightarrow> False"

definition row_from :: "emit_params \<Rightarrow> json \<Rightarrow> bus \<Rightarrow> audit_row" where
  "row_from ps attrs b = \<lparr>row_org = the (ep_orgId ps), row_request = ep_requestId ps, row_quote = ep_quoteId ps,
     row_user = ep_userId ps, row_name = ep_eventName ps, row_attributes = attrs, row_created_at = bus_clock b\<rparr>"

definition publish :: "string \<Rightarrow> json \<Rightarrow> bus \<Rightarrow> bus" where
  "publish name data b = b\<lparr>published := published b @ [(name, data)]\<rparr>"

text \<open>
  The partial unique index on \<open>stage.error\<close> rows: request, name, stage, reason and UTC day, where the
  request is not null; \<open>ON CONFLICT DO NOTHING\<close> skips a duplicate.
\<close>

definition same_stage_error :: "audit_row \<Rightarrow> audit_row \<Rightarrow> bool" where
  "same_stage_error r q \<longleftrightarrow>
     row_name r = ''stage.error'' \<and> row_name q = ''stage.error'' \<and> row_request r \<noteq> None \<and> row_request r = row_request q \<and>
     field ''stage'' (row_attributes r) = field ''stage'' (row_attributes q) \<and>
     field ''reason'' (row_attributes r) = field ''reason'' (row_attributes q) \<and>
     day_of (row_created_at r) = day_of (row_created_at q)"

definition insertStageErrorOrIgnore :: "audit_row \<Rightarrow> bus \<Rightarrow> bus" where
  "insertStageErrorOrIgnore row b =
     (if \<exists>r \<in> set (trail b). same_stage_error r row then b else b\<lparr>trail := trail b @ [row]\<rparr>)"

definition opt_field :: "string \<Rightarrow> json option \<Rightarrow> (string \<times> json) list" where
  "opt_field k v = (case v of Some x \<Rightarrow> [(k, x)] | None \<Rightarrow> [])"

definition stage_error_payload :: "string \<Rightarrow> emit_params \<Rightarrow> json" where
  "stage_error_payload occurredAt ps =
     (let attrs = (case ep_attributes ps of Some a \<Rightarrow> a | None \<Rightarrow> JObj []) in
      JObj ([(''event_type'', JStr ''stage.error'')] @ opt_field ''request_id'' (map_option JStr (ep_requestId ps)) @
        opt_field ''stage'' (field ''stage'' attrs) @ opt_field ''reason'' (field ''reason'' attrs) @
        [(''escalated_to_human'', JBool True), (''occurred_at'', JStr occurredAt)]))"

text \<open>A failed insert of a stage error is only logged; \<open>store_ok\<close>: whether the table accepts the row.\<close>

definition service_stage_error :: "string_formats \<Rightarrow> bool \<Rightarrow> string \<Rightarrow> emit_params \<Rightarrow> bus \<Rightarrow> bus" where
  "service_stage_error zf store_ok occurredAt ps b =
     (let p = stage_error_payload occurredAt ps in
      case StageErrorPayloadSchema zf (Some p) of
        None \<Rightarrow> b
      | Some data \<Rightarrow>
          publish ''stage.error'' data
            (if org_given (ep_orgId ps) \<and> store_ok
             then insertStageErrorOrIgnore (row_from (ps\<lparr>ep_quoteId := None, ep_userId := None\<rparr>) data b) b else b))"

text \<open>
  \<open>emit\<close>: whether it returned (an insert that fails is thrown to the caller) and the new state. In the
  published copy the attributes follow the request identifier.
\<close>

definition service_emit :: "string_formats \<Rightarrow> bool \<Rightarrow> string \<Rightarrow> emit_params \<Rightarrow> bus \<Rightarrow> bool \<times> bus" where
  "service_emit zf store_ok occurredAt ps b =
     (if ep_eventName ps = ''stage.error'' then (True, service_stage_error zf store_ok occurredAt ps b)
      else
        (case map_of (EVENT_PAYLOAD_SCHEMAS zf) (ep_eventName ps) of
           None \<Rightarrow> (True, b)
         | Some schema \<Rightarrow>
             (let attrs = (case ep_attributes ps of Some a \<Rightarrow> a | None \<Rightarrow> JObj []) in
              case schema (Some attrs) of
                None \<Rightarrow> (True, b)
              | Some _ \<Rightarrow>
                  if org_given (ep_orgId ps) \<and> \<not> store_ok then (False, b)
                  else
                    (True,
                     publish (ep_eventName ps)
                       (JObj ((''request_id'', case ep_requestId ps of Some r \<Rightarrow> JStr r | None \<Rightarrow> JNull) #
                          (case attrs of JObj fs \<Rightarrow> fs | _ \<Rightarrow> [])))
                       (if org_given (ep_orgId ps) then b\<lparr>trail := trail b @ [row_from ps attrs b]\<rparr> else b)))))"

section \<open>What the schemas accept\<close>

fun payload_ok :: "event_payload \<Rightarrow> bool" where
  "payload_ok (Ev_Pricing_Completed t _) \<longleftrightarrow> is_integer t"
| "payload_ok (Ev_Extract_Exited _ k) \<longleftrightarrow> 0 \<le> k"
| "payload_ok (Ev_Tool_Invoked n _ _ attempt) \<longleftrightarrow> 0 < attempt \<and> (case n of Some k \<Rightarrow> k \<in> set STREAM_NODES | None \<Rightarrow> True)"
| "payload_ok (Ev_Stage_Error n _) \<longleftrightarrow> n \<in> set STAGE_NAMES"
| "payload_ok _ \<longleftrightarrow> True"

definition stamp_ok :: "string_formats \<Rightarrow> stamp \<Rightarrow> bool" where
  "stamp_ok zf s \<longleftrightarrow> is_datetime zf (timestamp s) \<and> 0 \<le> elapsed_ms s"

named_theorems wire_simps \<open>evaluating the payload schemas on the attributes the sites build\<close>

lemma wire_numbers [wire_simps]:
  "z_nonneg_int (Some (JNum (of_int k))) = (if 0 \<le> k then Some k else None)"
  "z_nonneg_int (Some (JNum (of_nat n))) = Some (int n)"
  "z_positive_int (Some (JNum (of_int k))) = (if 0 < k then Some k else None)"
  "z_int (Some (JNum x)) = (if is_integer x then Some \<lfloor>x\<rfloor> else None)"
  using floor_of_int [of "int n", where 'a = rat] is_integer_of_int [of "int n"]
  by (simp_all add: z_nonneg_int_def z_positive_int_def z_int_def z_refine_def del: floor_of_int is_integer_of_int)
    (simp_all add: is_integer_def)

lemma wire_strings [wire_simps]:
  "z_literal l (Some (JStr t)) = (if t = l then Some () else None)" "z_literal l None = None"
  "z_datetime zf (Some (JStr t)) = (if is_datetime zf t then Some t else None)"
  "z_uuid zf (Some (JStr t)) = (if is_uuid zf t then Some t else None)" "z_uuid zf None = None"
  "z_true (Some (JBool b)) = (if b then Some b else None)"
  "z_success (Some (JStr (success_name ok))) = Some ()"
  by (auto simp: z_literal_def z_enum_def z_datetime_def z_uuid_def z_refine_def z_true_def z_success_def success_name_def)

lemma wire_fields [wire_simps]:
  "field k (JObj fs) = map_of fs k"
  "z_strict ks (Some (JObj fs)) = (if set (map fst fs) \<subseteq> set ks then Some (JObj fs) else None)"
  "z_optional sc None = Some None" "z_optional sc (Some v) = map_option Some (sc (Some v))"
  by (simp_all add: field_def z_strict_def z_refine_def z_optional_def)

lemma wire_names [wire_simps]:
  "z_node (Some (JStr (node_name n))) = Some n"
  "z_names node_name STREAM_NODES (Some (JStr (node_name n))) = (if n \<in> set STREAM_NODES then Some n else None)"
  "z_names node_name STAGE_NAMES (Some (JStr (node_name n))) = (if n \<in> set STAGE_NAMES then Some n else None)"
  by (cases n; simp add: z_node_def z_names_def z_enum_def CURRENT_NODES_def STREAM_NODES_def STAGE_NAMES_def)+

lemmas wire_node_literals [wire_simps] = wire_names(1) [of Parse, simplified] wire_names(1) [of Extract, simplified]
  wire_names(1) [of Classify, simplified] wire_names(1) [of Match, simplified] wire_names(1) [of Price, simplified]
  wire_names(1) [of Policy, simplified] wire_names(1) [of Score, simplified] wire_names(1) [of Done, simplified]

lemma wire_enums [wire_simps]:
  "z_names channel_name [Ch_Email, Ch_Upload, Ch_Form] (Some (JStr (channel_name ch))) = Some ch"
  "z_names type_name [Catalog_Rfq, Service_Quote, Type_Unknown] (Some (JStr (type_name ty))) = Some ty"
  "z_names source_name [From_Extraction, From_Confidence, From_Policy] (Some (JStr (source_name so))) = Some so"
  "z_names routing_name [Auto_Eligible, Needs_Review] (Some (JStr (routing_name rt))) = Some rt"
  "z_names progress_name [Tool_Running, Tool_Success, Tool_Failed] (Some (JStr (progress_name tp))) = Some tp"
  "z_names resume_name [Crash_Recovery, Manual] (Some (JStr (resume_name why))) = Some why"
  "z_names status_name REQUEST_STATUSES (Some (JStr (status_name st))) = Some st"
  "z_names reason_name STAGE_ERROR_REASONS (Some (JStr (reason_name rs))) = Some rs"
  subgoal by (cases ch; simp add: z_names_def z_enum_def)
  subgoal by (cases ty; simp add: z_names_def z_enum_def)
  subgoal by (cases so; simp add: z_names_def z_enum_def)
  subgoal by (cases rt; simp add: z_names_def z_enum_def)
  subgoal by (cases tp; simp add: z_names_def z_enum_def)
  subgoal by (cases why; simp add: z_names_def z_enum_def)
  subgoal by (cases st; simp add: z_names_def z_enum_def REQUEST_STATUSES_def)
  subgoal by (cases rs; simp add: z_names_def z_enum_def STAGE_ERROR_REASONS_def)
  done

lemma reasons_accepted [wire_simps]:
  "those (map ((\<lambda>v. RoutingReasonSchema (Some v)) \<circ> reason_attributes s) rs) = Some (map (reason_attributes s) rs)"
proof -
  have one: "RoutingReasonSchema (Some (reason_attributes s r)) = Some (reason_attributes s r)" for r
    by (simp add: RoutingReasonSchema_def reason_attributes_def wire_simps)
  show ?thesis by (induction rs) (simp_all add: one)
qed

lemmas schema_defs = RequestReceivedPayloadSchema_def NodeEnteredPayloadSchema_def ToolInvokedPayloadSchema_def
  RequestResumedPayloadSchema_def RequestDeclinedPayloadSchema_def PricingCompletedPayloadSchema_def
  PolicyCompletedPayloadSchema_def ProcessingCompletePayloadSchema_def RequestFinalizedPayloadSchema_def

lemmas exited_defs = NodeExitedPayloadSchema_def z_union_def NodeExitedGenericSchema_def NodeExitedCircuitBreakerSchema_def
  NodeExitedClassifySchema_def NodeExitedMatchSchema_def NodeExitedScoreSchema_def NodeExitedExtractSchema_def
  node_exit_fields_def

text \<open>The schema of an event, and its verdict on the attributes of a payload.\<close>

lemma exited_verdict:
  assumes "stamp_ok zf s" and "event_name p = ''node.exited''"
  shows "NodeExitedPayloadSchema zf (Some (attributes_of s p)) = (if payload_ok p then Some (attributes_of s p) else None)"
  using assms by (cases p) (simp_all add: exited_defs wire_simps stamp_ok_def)

lemma schema_verdict:
  assumes "stamp_ok zf s" and "event_name p \<noteq> ''stage.error''"
  shows "\<exists>schema. map_of (EVENT_PAYLOAD_SCHEMAS zf) (event_name p) = Some schema \<and>
    schema (Some (attributes_of s p)) = (if payload_ok p then Some (attributes_of s p) else None)"
proof (cases "event_name p = ''node.exited''")
  case True
  then show ?thesis using exited_verdict [OF assms(1) True] by (simp add: EVENT_PAYLOAD_SCHEMAS_def)
next
  case False
  then show ?thesis using assms
    by (cases p) (simp_all add: EVENT_PAYLOAD_SCHEMAS_def schema_defs node_exit_fields_def wire_simps stamp_ok_def split: option.splits)
qed

section \<open>The service implements the abstract trail\<close>

definition params_of :: "stamp \<Rightarrow> uuid \<Rightarrow> uuid \<Rightarrow> uuid option \<Rightarrow> uuid option \<Rightarrow> event_payload \<Rightarrow> emit_params" where
  "params_of s org r q u p = \<lparr>ep_eventName = event_name p, ep_orgId = Some org, ep_requestId = Some r, ep_quoteId = q,
     ep_userId = u, ep_attributes = Some (attributes_of s p)\<rparr>"

definition record_event :: "uuid \<Rightarrow> uuid \<Rightarrow> uuid option \<Rightarrow> uuid option \<Rightarrow> event_payload \<Rightarrow> db \<Rightarrow> db" where
  "record_event org r q u p d =
     (case p of Ev_Stage_Error n why \<Rightarrow> emitStageError org r n why d | _ \<Rightarrow> emit (Some org) (Some r) q u p d)"

definition stage_error_attributes :: "string \<Rightarrow> uuid \<Rightarrow> current_node \<Rightarrow> stage_error_reason \<Rightarrow> json" where
  "stage_error_attributes t r n why = JObj [(''event_type'', JStr ''stage.error''), (''request_id'', JStr r),
     (''stage'', JStr (node_name n)), (''reason'', JStr (reason_name why)), (''escalated_to_human'', JBool True),
     (''occurred_at'', JStr t)]"

definition stored_attributes :: "stamp \<Rightarrow> audit_event \<Rightarrow> json" where
  "stored_attributes s e =
     (case payload e of
        Ev_Stage_Error n why \<Rightarrow> stage_error_attributes (timestamp s) (the (ev_request_id e)) n why
      | p \<Rightarrow> attributes_of s p)"

definition row_of :: "stamp \<Rightarrow> audit_event \<Rightarrow> audit_row" where
  "row_of s e = \<lparr>row_org = the (ev_org_id e), row_request = ev_request_id e, row_quote = ev_quote_id e,
     row_user = ev_user_id e, row_name = event_name (payload e), row_attributes = stored_attributes s e,
     row_created_at = ev_created_at e\<rparr>"

definition recorded :: "bus \<Rightarrow> db \<Rightarrow> bool" where
  "recorded b d \<longleftrightarrow> bus_clock b = clock d \<and> list_all2 (\<lambda>row e. \<exists>s. row = row_of s e) (trail b) (events d)"

lemma event_name_stage_error: "event_name p = ''stage.error'' \<longleftrightarrow> (\<exists>n why. p = Ev_Stage_Error n why)"
  by (cases p) simp_all

lemma node_name_eq [simp]: "node_name n = node_name m \<longleftrightarrow> n = m"
  by (cases n; cases m; simp)

lemma reason_name_eq [simp]: "reason_name x = reason_name y \<longleftrightarrow> x = y"
proof
  assume "reason_name x = reason_name y"
  from arg_cong [OF this, of "\<lambda>t. z_names reason_name STAGE_ERROR_REASONS (Some (JStr t))"] show "x = y"
    by (simp add: wire_enums)
qed simp

lemma stage_error_accepted:
  assumes "stamp_ok zf s" and "is_uuid zf r"
  shows "StageErrorPayloadSchema zf (Some (stage_error_payload (timestamp s) (params_of s org r q u (Ev_Stage_Error n why)))) =
    (if n \<in> set STAGE_NAMES then Some (stage_error_attributes (timestamp s) r n why) else None)"
  using assms by (simp add: StageErrorPayloadSchema_def stage_error_payload_def params_of_def opt_field_def wire_simps
      stamp_ok_def stage_error_attributes_def)

text \<open>A row of the table is a duplicate exactly when the abstract trail has the error recorded for the day.\<close>

lemma same_stage_error_row:
  assumes "row_request q = Some r" and "row_name q = ''stage.error''" and "row_attributes q = stage_error_attributes t r n why"
  shows "same_stage_error (row_of s e) q \<longleftrightarrow>
    ev_request_id e = Some r \<and> payload e = Ev_Stage_Error n why \<and> day_of (ev_created_at e) = day_of (row_created_at q)"
proof (cases "event_name (payload e) = ''stage.error''")
  case True
  then obtain m x where p: "payload e = Ev_Stage_Error m x" by (auto simp: event_name_stage_error)
  show ?thesis using assms
    by (auto simp: same_stage_error_def row_of_def p stored_attributes_def stage_error_attributes_def field_def)
next
  case False
  then have "payload e \<noteq> Ev_Stage_Error n why" by auto
  with False show ?thesis by (simp add: same_stage_error_def row_of_def)
qed

lemma recorded_duplicate:
  assumes "recorded b d" and "row_request q = Some r" and "row_name q = ''stage.error''"
    and "row_attributes q = stage_error_attributes t r n why" and "row_created_at q = bus_clock b"
  shows "(\<exists>row \<in> set (trail b). same_stage_error row q) \<longleftrightarrow> stage_error_recorded r n why d"
proof -
  have clock: "bus_clock b = clock d" and rows: "list_all2 (\<lambda>row e. \<exists>s. row = row_of s e) (trail b) (events d)"
    using assms(1) by (auto simp: recorded_def)
  have dup: "same_stage_error row q \<longleftrightarrow> ev_request_id e = Some r \<and> payload e = Ev_Stage_Error n why \<and> day_of (ev_created_at e) = day_of (clock d)"
    if "\<exists>s. row = row_of s e" for row e
    using that same_stage_error_row [OF assms(2-4)] assms(5) clock by auto
  show ?thesis using rows unfolding stage_error_recorded_def
    by (induction rule: list_all2_induct) (auto simp: dup)
qed



text \<open>The names of the payload schemas are those of the schema file of the repository, so the service starts.\<close>

lemma repository_schema_file:
  "onModuleInit zf (Some [''request.received'', ''node.entered'', ''node.exited'', ''tool.invoked'', ''request.resumed'',
     ''stage.error'', ''quote.approved'', ''quote.ready'', ''request.declined'', ''pricing.completed'',
     ''policy.completed'', ''processing.complete'', ''request.finalized'']) = None"
  by (simp add: onModuleInit_def EVENT_PAYLOAD_SCHEMAS_def Let_def)

text \<open>An insert that fails: the caller of a stage error does not notice, every other caller sees the exception.\<close>

lemma emit_store_failure:
  assumes "stamp_ok zf s" and "org \<noteq> []" and "payload_ok p"
  shows "fst (service_emit zf False (timestamp s) (params_of s org r q u p) b) \<longleftrightarrow> event_name p = ''stage.error''"
    and "trail (snd (service_emit zf False (timestamp s) (params_of s org r q u p) b)) = trail b"
proof -
  have stage: "fst (service_emit zf False t (params_of s org r q u p) b)" "trail (snd (service_emit zf False t (params_of s org r q u p) b)) = trail b"
    if "event_name p = ''stage.error''" for t
    using that by (simp_all add: service_emit_def service_stage_error_def params_of_def publish_def Let_def split: option.splits)
  have other: "service_emit zf False t (params_of s org r q u p) b = (False, b)" if "event_name p \<noteq> ''stage.error''" for t
    using schema_verdict [OF assms(1) that] assms(2,3) that by (auto simp: service_emit_def params_of_def Let_def)
  show "fst (service_emit zf False (timestamp s) (params_of s org r q u p) b) \<longleftrightarrow> event_name p = ''stage.error''"
    using stage(1) other by (cases "event_name p = ''stage.error''") auto
  show "trail (snd (service_emit zf False (timestamp s) (params_of s org r q u p) b)) = trail b"
    using stage(2) other by (cases "event_name p = ''stage.error''") auto
qed

end
