(* ===== verification/Redis.thy ===== *)
theory Redis
  imports Guarded_Update
begin

text \<open>
  The key-value store (\<open>redis/redis.service.ts\<close>): keys with an optional expiry, and a connection that may be
  down, in which case every operation answers as its catch block does. Times are milliseconds, lifetimes
  seconds, as in the code.
\<close>

datatype 'a redis_value = Text string | Num int | Json 'a

text \<open>\<open>Json x\<close> is the text \<open>JSON.stringify(x)\<close> of a structured value, which \<open>JSON.parse\<close> reads back.\<close>

record 'a redis =
  cells :: "string \<Rightarrow> ('a redis_value \<times> int option) option"
  r_now :: int
  up :: bool

text \<open>The value of a key that has not expired.\<close>

definition lookup :: "string \<Rightarrow> 'a redis \<Rightarrow> 'a redis_value option" where
  "lookup k s = (case cells s k of
     Some (v, Some t) \<Rightarrow> if r_now s < t then Some v else None | Some (v, None) \<Rightarrow> Some v | None \<Rightarrow> None)"

definition put :: "string \<Rightarrow> 'a redis_value \<Rightarrow> int option \<Rightarrow> 'a redis \<Rightarrow> 'a redis" where
  "put k v expiry s = s\<lparr>cells := (cells s)(k \<mapsto> (v, expiry))\<rparr>"

definition expires :: "int \<Rightarrow> 'a redis \<Rightarrow> int option" where
  "expires ttl s = Some (r_now s + ttl * 1000)"

definition redis_get :: "string \<Rightarrow> 'a redis \<Rightarrow> 'a redis_value option" where
  "redis_get k s = (if up s then lookup k s else None)"

text \<open>\<open>if (ttl)\<close>: an absent or zero lifetime is none.\<close>

definition redis_set :: "string \<Rightarrow> 'a redis_value \<Rightarrow> int option \<Rightarrow> 'a redis \<Rightarrow> 'a redis" where
  "redis_set k v ttl s =
     (if up s then put k v (case ttl of Some t \<Rightarrow> if t = 0 then None else expires t s | None \<Rightarrow> None) s else s)"

text \<open>\<open>setStrict\<close> throws (\<open>None\<close>) where \<open>set\<close> logs.\<close>

definition setStrict :: "string \<Rightarrow> 'a redis_value \<Rightarrow> int option \<Rightarrow> 'a redis \<Rightarrow> 'a redis option" where
  "setStrict k v ttl s = (if up s then Some (redis_set k v ttl s) else None)"

definition setNx :: "string \<Rightarrow> 'a redis_value \<Rightarrow> int \<Rightarrow> 'a redis \<Rightarrow> bool \<times> 'a redis" where
  "setNx k v ttl s = (if up s \<and> lookup k s = None then (True, put k v (expires ttl s) s) else (False, s))"

definition redis_del :: "string \<Rightarrow> 'a redis \<Rightarrow> 'a redis" where
  "redis_del k s = (if up s then s\<lparr>cells := (cells s)(k := None)\<rparr> else s)"

definition getdel :: "string \<Rightarrow> 'a redis \<Rightarrow> 'a redis_value option \<times> 'a redis" where
  "getdel k s = (redis_get k s, redis_del k s)"

definition redis_exists :: "string \<Rightarrow> 'a redis \<Rightarrow> bool" where
  "redis_exists k s \<longleftrightarrow> redis_get k s \<noteq> None"

text \<open>A missing key is created without an expiry; a key that holds no number is an error, answered with \<open>null\<close>.\<close>

definition incr :: "string \<Rightarrow> 'a redis \<Rightarrow> int option \<times> 'a redis" where
  "incr k s =
     (if \<not> up s then (None, s)
      else (case lookup k s of
          None \<Rightarrow> (Some 1, put k (Num 1) None s)
        | Some (Num n) \<Rightarrow> (Some (n + 1), put k (Num (n + 1)) (snd (the (cells s k))) s)
        | Some _ \<Rightarrow> (None, s)))"

definition redis_expire :: "string \<Rightarrow> int \<Rightarrow> 'a redis \<Rightarrow> 'a redis" where
  "redis_expire k ttl s =
     (if up s then (case lookup k s of Some v \<Rightarrow> put k v (expires ttl s) s | None \<Rightarrow> s) else s)"

text \<open>The two commands of \<open>releaseLock\<close>, between which other clients may act.\<close>

definition lock_is_mine :: "string \<Rightarrow> string \<Rightarrow> 'a redis \<Rightarrow> bool" where
  "lock_is_mine k token s \<longleftrightarrow> redis_get k s = Some (Text token)"

definition releaseLock :: "string \<Rightarrow> string \<Rightarrow> ('a redis \<Rightarrow> 'a redis) \<Rightarrow> 'a redis \<Rightarrow> 'a redis" where
  "releaseLock k token others s = (let s' = others s in if lock_is_mine k token s then redis_del k s' else s')"

definition rateLimit :: "string \<Rightarrow> int \<Rightarrow> int \<Rightarrow> 'a redis \<Rightarrow> (int \<times> bool) \<times> 'a redis" where
  "rateLimit k limit windowSeconds s =
     (case incr k (snd (setNx k (Num 0) windowSeconds s)) of
        (Some n, s) \<Rightarrow> ((n, limit < n), s) | (None, s) \<Rightarrow> ((0, False), s))"

section \<open>Facts\<close>

named_theorems redis_simps \<open>what an operation on the store does to the keys\<close>

lemma cells_redis [redis_simps]:
  "cells (put k v t s) j = (if j = k then Some (v, t) else cells s j)"
  "cells (redis_del k s) j = (if up s \<and> j = k then None else cells s j)"
  by (simp_all add: put_def redis_del_def)

lemma lookup_put [redis_simps]:
  "lookup j (put k v t s) = (if j = k then (case t of Some x \<Rightarrow> if r_now s < x then Some v else None | None \<Rightarrow> Some v) else lookup j s)"
  by (auto simp: lookup_def put_def split: option.splits)

lemma lookup_del [redis_simps]: "lookup j (redis_del k s) = (if up s \<and> j = k then None else lookup j s)"
  by (auto simp: lookup_def redis_del_def split: option.splits)

lemma clock_redis [simp]:
  "r_now (put k v t s) = r_now s" "up (put k v t s) = up s" "r_now (redis_del k s) = r_now s" "up (redis_del k s) = up s"
  "r_now (redis_set k v ttl s) = r_now s" "up (redis_set k v ttl s) = up s"
  "r_now (snd (setNx k v n s)) = r_now s" "up (snd (setNx k v n s)) = up s"
  "r_now (snd (incr k s)) = r_now s" "up (snd (incr k s)) = up s"
  by (simp_all add: put_def redis_del_def redis_set_def setNx_def incr_def split: option.splits redis_value.splits)

lemma lookup_redis_set [redis_simps]:
  "up s \<Longrightarrow> 0 < t \<Longrightarrow> lookup j (redis_set k v (Some t) s) = (if j = k then Some v else lookup j s)"
  by (simp add: redis_set_def expires_def lookup_put)

text \<open>\<open>SET NX\<close> is a lock: of any number of concurrent callers exactly one takes a free key.\<close>

lemma setNx_lock:
  assumes "0 < ttl"
  shows "guarded_update (\<lambda>s. up s \<and> lookup k s = None) (\<lambda>p. setNx k (val p) ttl)"
  by unfold_locales (use assms in \<open>auto simp: setNx_def expires_def lookup_put\<close>)

text \<open>Within the window the limiter counts the calls, and refuses the ones beyond the limit.\<close>

primrec limited :: "nat \<Rightarrow> string \<Rightarrow> int \<Rightarrow> int \<Rightarrow> 'a redis \<Rightarrow> (int \<times> bool) list \<times> 'a redis" where
  "limited 0 k limit w s = ([], s)"
| "limited (Suc n) k limit w s =
     (let (r, s) = rateLimit k limit w s; (rs, s) = limited n k limit w s in (r # rs, s))"

lemma rateLimit_fresh:
  "up s \<Longrightarrow> 0 < w \<Longrightarrow> lookup k s = None \<Longrightarrow>
     rateLimit k limit w s = ((1, limit < 1), put k (Num 1) (expires w s) (put k (Num 0) (expires w s) s))"
  by (simp add: rateLimit_def setNx_def incr_def redis_simps expires_def)

lemma rateLimit_counts:
  assumes "up s" and "lookup k s = Some (Num n)"
  shows "rateLimit k limit w s = ((n + 1, limit < n + 1), put k (Num (n + 1)) (snd (the (cells s k))) s)"
  using assms by (simp add: rateLimit_def setNx_def incr_def)

lemma lookup_bump:
  "lookup k s = Some v \<Longrightarrow> lookup k (put k u (snd (the (cells s k))) s) = Some u"
  by (auto simp: lookup_def put_def split: option.splits if_splits)

lemma limited_counts:
  assumes "up s" and "lookup k s = Some (Num n)"
  shows "fst (limited m k limit w s) = map (\<lambda>i. (n + int i, limit < n + int i)) [1..<Suc m]"
  using assms
proof (induction m arbitrary: n s)
  case (Suc m)
  let ?s = "put k (Num (n + 1)) (snd (the (cells s k))) s"
  have "lookup k ?s = Some (Num (n + 1))" using Suc.prems(2) by (rule lookup_bump)
  with Suc.IH [of ?s "n + 1"] Suc.prems
  have "fst (limited m k limit w ?s) = map (\<lambda>i. (n + 1 + int i, limit < n + 1 + int i)) [1..<Suc m]" by simp
  moreover have "[1..<Suc (Suc m)] = 1 # map Suc [1..<Suc m]" by (simp add: map_Suc_upt upt_conv_Cons)
  ultimately show ?case
    using rateLimit_counts [OF Suc.prems, of limit w] by (auto simp: case_prod_beta Let_def o_def add.assoc)
qed simp

lemma limited_fresh:
  assumes "up s" and "0 < w" and "lookup k s = None"
  shows "fst (limited m k limit w s) = map (\<lambda>i. (int i, limit < int i)) [1..<Suc m]"
proof (cases m)
  case (Suc l)
  let ?s = "put k (Num 1) (expires w s) (put k (Num 0) (expires w s) s)"
  have "lookup k ?s = Some (Num 1)" using assms(2) by (simp add: redis_simps expires_def)
  with limited_counts [of ?s k 1 l limit w] assms
  have "fst (limited l k limit w ?s) = map (\<lambda>i. (1 + int i, limit < 1 + int i)) [1..<Suc l]" by simp
  moreover have "[1..<Suc (Suc l)] = 1 # map Suc [1..<Suc l]" by (simp add: map_Suc_upt upt_conv_Cons)
  ultimately show ?thesis
    using rateLimit_fresh [OF assms, of limit] by (auto simp: Suc case_prod_beta Let_def o_def)
qed simp

text \<open>
  The release is not atomic: when the lock expires between its two commands and another client takes it, that
  client's lock is deleted.
\<close>

lemma release_deletes_foreign_lock:
  assumes "up s" and "redis_get k s = Some (Text mine)" and "mine \<noteq> theirs" and "up (others s)"
    and "redis_get k (others s) = Some (Text theirs)"
  shows "redis_get k (releaseLock k mine others s) = None"
  using assms by (simp add: releaseLock_def lock_is_mine_def redis_get_def lookup_del)

end
