(* ===== verification/Circuit_Breaker.thy ===== *)
theory Circuit_Breaker
  imports Redis
begin

text \<open>
  The circuit breaker in front of the language model (\<open>llm/circuit-breaker.service.ts\<close>), which all processes
  share through the key-value store, the retry schedule (\<open>worker/backoff.service.ts\<close>) and the client that obeys
  the breaker (\<open>llm/llm-client.service.ts\<close>).
\<close>

section \<open>The breaker\<close>

datatype breaker_state = Br_Closed | Br_Open | Br_Half_Open

type_synonym breaker = "(breaker_state \<times> int option) redis"

record breaker_env =
  WINDOW_S :: int
  COOLDOWN_S :: int
  FAILURE_THRESHOLD :: int
  LLM_MAX_RETRIES :: nat

definition CB_KEY :: string where "CB_KEY = ''cb:llm:state''"
definition CB_TTL_S :: int where "CB_TTL_S = 3600"
definition CB_FAILURES_KEY :: string where "CB_FAILURES_KEY = ''cb:llm:failures''"
definition PROBE_LOCK_KEY :: string where "PROBE_LOCK_KEY = ''cb:llm:probe''"
definition PROBE_LOCK_TTL_S :: int where "PROBE_LOCK_TTL_S = 120"

definition load :: "breaker \<Rightarrow> breaker_state \<times> int option" where
  "load s = (case redis_get CB_KEY s of Some (Json b) \<Rightarrow> b | _ \<Rightarrow> (Br_Closed, None))"

definition save :: "breaker_state \<times> int option \<Rightarrow> breaker \<Rightarrow> breaker" where
  "save b = redis_set CB_KEY (Json b) (Some CB_TTL_S)"

definition reset :: "breaker \<Rightarrow> breaker" where
  "reset s = save (Br_Closed, None) (redis_del CB_FAILURES_KEY (redis_del PROBE_LOCK_KEY s))"

definition cooled_down :: "breaker_env \<Rightarrow> int option \<Rightarrow> breaker \<Rightarrow> bool" where
  "cooled_down e openedAt s \<longleftrightarrow> (case openedAt of Some t \<Rightarrow> t \<noteq> 0 \<and> COOLDOWN_S e * 1000 \<le> r_now s - t | None \<Rightarrow> False)"

definition getState :: "breaker_env \<Rightarrow> breaker \<Rightarrow> breaker_state \<times> breaker" where
  "getState e s =
     (case load s of (st, openedAt) \<Rightarrow>
        if st = Br_Open \<and> cooled_down e openedAt s then (Br_Half_Open, save (Br_Half_Open, openedAt) s) else (st, s))"

definition isOpen :: "breaker_env \<Rightarrow> breaker \<Rightarrow> bool \<times> breaker" where
  "isOpen e s =
     (case getState e s of
        (Br_Open, s) \<Rightarrow> (True, s)
      | (Br_Half_Open, s) \<Rightarrow> (let (acquired, s) = setNx PROBE_LOCK_KEY (Text ''1'') PROBE_LOCK_TTL_S s in (\<not> acquired, s))
      | (Br_Closed, s) \<Rightarrow> (False, s))"

definition recordSuccess :: "breaker \<Rightarrow> breaker" where
  "recordSuccess s = (if fst (load s) = Br_Half_Open \<or> fst (load s) = Br_Closed then reset s else s)"

text \<open>Time passes between two commands of one client, here \<open>w\<close> milliseconds.\<close>

definition passes :: "int \<Rightarrow> breaker \<Rightarrow> breaker" where
  "passes w s = s\<lparr>r_now := r_now s + w\<rparr>"

definition recordFailure :: "breaker_env \<Rightarrow> int \<Rightarrow> breaker \<Rightarrow> breaker" where
  "recordFailure e w s =
     (let now = r_now s in
      case fst (load s) of
        Br_Half_Open \<Rightarrow> save (Br_Open, Some now) (redis_del PROBE_LOCK_KEY s)
      | Br_Closed \<Rightarrow>
          (let s = passes w (snd (setNx CB_FAILURES_KEY (Num 0) (WINDOW_S e) s)) in
           case incr CB_FAILURES_KEY s of
             (None, s) \<Rightarrow> save (Br_Open, Some now) s
           | (Some n, s) \<Rightarrow> if FAILURE_THRESHOLD e \<le> n then save (Br_Open, Some now) s else s)
      | Br_Open \<Rightarrow> s)"

section \<open>The retry schedule\<close>

definition BASE_MS :: int where "BASE_MS = 1000"
definition MULTIPLIER :: int where "MULTIPLIER = 2"

definition calculateWaitMs :: "nat \<Rightarrow> int" where
  "calculateWaitMs attempt = BASE_MS * MULTIPLIER ^ attempt"

text \<open>\<open>Math.random()\<close> is an argument, a number in the unit interval.\<close>

definition applyJitter :: "rat \<Rightarrow> int \<Rightarrow> int" where
  "applyJitter random waitMs = js_round (of_int waitMs * (random * (4 / 10) + 8 / 10))"

section \<open>The client\<close>

datatype call_error = Api_Connection_Error | Api_Timeout_Error | Api_Error "int option" | Foreign_Error

definition isTransientError :: "call_error \<Rightarrow> bool" where
  "isTransientError err =
     (case err of
        Api_Connection_Error \<Rightarrow> True | Api_Timeout_Error \<Rightarrow> True
      | Api_Error (Some st) \<Rightarrow> st = 429 \<or> 500 \<le> st | Api_Error None \<Rightarrow> False
      | Foreign_Error \<Rightarrow> False)"

text \<open>
  The retry loop from an attempt on, with the retries still allowed; \<open>net k\<close> is what the \<open>k\<close>-th call of the
  provider answers. The second component counts the calls made.
\<close>

fun retry_from :: "nat \<Rightarrow> nat \<Rightarrow> (nat \<Rightarrow> call_error + 'r) \<Rightarrow> (call_error + 'r) \<times> nat" where
  "retry_from left attempt net =
     (case net attempt of
        Inr r \<Rightarrow> (Inr r, 1)
      | Inl err \<Rightarrow>
          (case left of
             0 \<Rightarrow> (Inl err, 1)
           | Suc n \<Rightarrow>
               if \<not> isTransientError err then (Inl err, 1)
               else (let (res, calls) = retry_from n (Suc attempt) net in (res, Suc calls))))"

definition executeWithRetry :: "breaker_env \<Rightarrow> (nat \<Rightarrow> call_error + 'r) \<Rightarrow> (call_error + 'r) \<times> nat" where
  "executeWithRetry e = retry_from (LLM_MAX_RETRIES e) 0"

datatype admission = Blocked | Admitted bool

text \<open>Admission: \<open>Admitted True\<close> is the probe.\<close>

definition admit :: "breaker_env \<Rightarrow> breaker \<Rightarrow> admission \<times> breaker" where
  "admit e s =
     (let (stateAtAdmission, s) = getState e s; (blocked, s) = isOpen e s in
      (if blocked then Blocked else Admitted (stateAtAdmission = Br_Half_Open), s))"

datatype 'r completion = Completed 'r | Call_Failed call_error | Breaker_Open

text \<open>After the calls: \<open>w\<close> is the time between the two commands of \<open>recordFailure\<close>.\<close>

definition conclude :: "breaker_env \<Rightarrow> int \<Rightarrow> bool \<Rightarrow> call_error + 'r \<Rightarrow> breaker \<Rightarrow> 'r completion \<times> breaker" where
  "conclude e w isProbe res s =
     (case res of
        Inr r \<Rightarrow> (Completed r, recordSuccess s)
      | Inl err \<Rightarrow>
          (let s = (if isTransientError err \<or> isProbe then recordFailure e w s else s) in
           if \<not> isTransientError err then (Call_Failed err, s)
           else (let (open_now, s) = isOpen e s in (if open_now then Breaker_Open else Call_Failed err, s))))"

text \<open>Outside the demo mode; \<open>dur\<close> is the time the calls take. The last component counts the calls made.\<close>

definition createChatCompletion ::
  "breaker_env \<Rightarrow> int \<Rightarrow> int \<Rightarrow> (nat \<Rightarrow> call_error + 'r) \<Rightarrow> breaker \<Rightarrow> 'r completion \<times> breaker \<times> nat" where
  "createChatCompletion e dur w net s =
     (case admit e s of
        (Blocked, s) \<Rightarrow> (Breaker_Open, s, 0)
      | (Admitted isProbe, s) \<Rightarrow>
          (let (res, calls) = executeWithRetry e net; (out, s) = conclude e w isProbe res (passes dur s) in (out, s, calls)))"

section \<open>Facts\<close>

declare retry_from.simps [simp del]

lemma keys [simp]:
  "CB_KEY \<noteq> PROBE_LOCK_KEY" "CB_KEY \<noteq> CB_FAILURES_KEY" "PROBE_LOCK_KEY \<noteq> CB_FAILURES_KEY"
  "PROBE_LOCK_KEY \<noteq> CB_KEY" "CB_FAILURES_KEY \<noteq> CB_KEY" "CB_FAILURES_KEY \<noteq> PROBE_LOCK_KEY"
  by (simp_all add: CB_KEY_def PROBE_LOCK_KEY_def CB_FAILURES_KEY_def)

lemma retry_bounds:
  "retry_from n k net = (res, calls) \<Longrightarrow> 1 \<le> calls \<and> calls \<le> Suc n \<and> res = net (k + calls - 1) \<and>
     (\<forall>i. i + 1 < calls \<longrightarrow> (\<exists>err. net (k + i) = Inl err \<and> isTransientError err))"
proof (induction n arbitrary: k res calls)
  case 0
  then show ?case by (subst (asm) retry_from.simps) (auto split: sum.splits)
next
  case (Suc n)
  show ?case
  proof (cases "\<exists>err. net k = Inl err \<and> isTransientError err")
    case True
    then obtain err where err: "net k = Inl err" "isTransientError err" by blast
    obtain res' c where rest: "retry_from n (Suc k) net = (res', c)" by (rule prod.exhaust)
    with Suc.prems err have "res = res'" "calls = Suc c" by (simp_all add: retry_from.simps [of "Suc n" k])
    moreover have "\<exists>err. net (k + i) = Inl err \<and> isTransientError err" if "i + 1 < Suc c" for i
      using that Suc.IH [OF rest] err by (cases i) auto
    ultimately show ?thesis using Suc.IH [OF rest] by auto
  next
    case False
    then have "retry_from (Suc n) k net = (net k, 1)"
      by (subst retry_from.simps) (auto split: sum.splits)
    with Suc.prems show ?thesis by simp
  qed
qed

lemma jitter_bounds:
  assumes "0 \<le> x" and "x < 1"
  shows "800 * 2 ^ k \<le> applyJitter x (calculateWaitMs k)" and "applyJitter x (calculateWaitMs k) \<le> 1200 * 2 ^ k"
proof -
  let ?w = "of_int (1000 * 2 ^ k) :: rat"
  have j: "8 / 10 \<le> x * (4 / 10) + 8 / 10" "x * (4 / 10) + 8 / 10 \<le> 12 / 10" using assms by simp_all
  have "of_int (800 * 2 ^ k) \<le> ?w * (x * (4 / 10) + 8 / 10)" using mult_left_mono [OF j(1), of ?w] by simp
  then have "js_round (of_int (800 * 2 ^ k)) \<le> js_round (?w * (x * (4 / 10) + 8 / 10))" by (rule js_round_mono)
  then show "800 * 2 ^ k \<le> applyJitter x (calculateWaitMs k)"
    by (simp only: applyJitter_def calculateWaitMs_def BASE_MS_def MULTIPLIER_def js_round_of_int)
  have "?w * (x * (4 / 10) + 8 / 10) \<le> of_int (1200 * 2 ^ k)" using mult_left_mono [OF j(2), of ?w] by simp
  then show "applyJitter x (calculateWaitMs k) \<le> 1200 * 2 ^ k"
    by (simp only: applyJitter_def calculateWaitMs_def BASE_MS_def MULTIPLIER_def js_round_le_of_int)
qed

lemma load_simps [redis_simps]:
  "up s \<Longrightarrow> load (save b s) = b" "load (snd (setNx PROBE_LOCK_KEY v n s)) = load s" "load (redis_del PROBE_LOCK_KEY s) = load s"
  "load (snd (setNx CB_FAILURES_KEY v n s)) = load s" "load (redis_del CB_FAILURES_KEY s) = load s"
  by (simp_all add: load_def save_def redis_get_def CB_TTL_S_def redis_simps setNx_def)

lemma save_simps [redis_simps]:
  "j \<noteq> CB_KEY \<Longrightarrow> lookup j (save b s) = lookup j s" "j \<noteq> CB_KEY \<Longrightarrow> cells (save b s) j = cells s j"
  "up (save b s) = up s" "r_now (save b s) = r_now s"
  by (simp_all add: save_def redis_set_def redis_simps)

lemma passes_simps [simp]: "r_now (passes w s) = r_now s + w" "up (passes w s) = up s" "cells (passes w s) = cells s"
  by (simp_all add: passes_def)

lemma load_up: "load s \<noteq> (Br_Closed, None) \<Longrightarrow> up s"
  by (auto simp: load_def redis_get_def split: if_splits)

text \<open>A closed breaker stays closed, or its entry expires, which is the same.\<close>

lemma passes_closed: "0 \<le> w \<Longrightarrow> fst (load s) = Br_Closed \<Longrightarrow> fst (load (passes w s)) = Br_Closed"
  by (auto simp: load_def redis_get_def lookup_def split: option.splits redis_value.splits if_splits)

lemma getState_cases:
  assumes "getState e s = (st, s1)"
  shows "st = fst (load s) \<and> s1 = s \<or>
    st = Br_Half_Open \<and> fst (load s) = Br_Open \<and> s1 = save (Br_Half_Open, snd (load s)) s \<and> up s"
proof (cases "fst (load s) = Br_Open \<and> cooled_down e (snd (load s)) s")
  case True
  then have "up s" by (intro load_up) auto
  with True assms show ?thesis by (auto simp: getState_def split: prod.splits)
next
  case False
  with assms show ?thesis by (auto simp: getState_def split: prod.splits)
qed

lemma getState_half:
  assumes "getState e s = (Br_Half_Open, s1)"
  shows "fst (load s1) = Br_Half_Open \<and> lookup PROBE_LOCK_KEY s1 = lookup PROBE_LOCK_KEY s \<and> up s1 \<and> r_now s1 = r_now s"
  using getState_cases [OF assms] load_up [of s] by (cases "load s") (auto simp: redis_simps)

lemma getState_idem: "fst (load s) = Br_Half_Open \<Longrightarrow> getState e s = (Br_Half_Open, s)"
  by (auto simp: getState_def split: prod.splits)

section \<open>The probe\<close>

text \<open>What a caller asks the breaker: may it call?\<close>

definition may_call :: "breaker_env \<Rightarrow> 'p \<Rightarrow> breaker \<Rightarrow> bool \<times> breaker" where
  "may_call e p s = (let (blocked, s) = isOpen e s in (\<not> blocked, s))"

definition take_probe :: "'p \<Rightarrow> breaker \<Rightarrow> bool \<times> breaker" where
  "take_probe p = setNx PROBE_LOCK_KEY (Text ''1'') PROBE_LOCK_TTL_S"

interpretation probe: guarded_update "\<lambda>s. up s \<and> lookup PROBE_LOCK_KEY s = None" take_probe
  unfolding take_probe_def by (rule setNx_lock) (simp add: PROBE_LOCK_TTL_S_def)

lemma may_call_half: "getState e s = (Br_Half_Open, s1) \<Longrightarrow> may_call e p s = take_probe p s1"
  by (simp add: may_call_def isOpen_def take_probe_def case_prod_beta Let_def)

lemma half_open_attempts:
  "fst (load s) = Br_Half_Open \<Longrightarrow> run_attempts (may_call e) ps s = run_attempts take_probe ps s"
proof (induction ps arbitrary: s)
  case (Cons p ps)
  have "fst (load (snd (take_probe p s))) = Br_Half_Open" using Cons.prems by (simp add: take_probe_def redis_simps)
  with Cons.IH [OF this] may_call_half [OF getState_idem [OF Cons.prems], where p = p] show ?case by (simp add: case_prod_beta Let_def)
qed simp

lemma probe_conclude:
  assumes "fst (load s) = Br_Half_Open" and "0 < COOLDOWN_S e" and "conclude e w True res s = (out, s')"
  shows "lookup PROBE_LOCK_KEY s' = None \<and> fst (load s') = (case res of Inr _ \<Rightarrow> Br_Closed | Inl _ \<Rightarrow> Br_Open) \<and>
    (case res of Inr r \<Rightarrow> out = Completed r | Inl err \<Rightarrow> out = (if isTransientError err then Breaker_Open else Call_Failed err))"
proof -
  have up: "up s" by (rule load_up) (use assms(1) in auto)
  let ?f = "save (Br_Open, Some (r_now s)) (redis_del PROBE_LOCK_KEY s)"
  have fail: "recordFailure e w s = ?f" using assms(1) by (simp add: recordFailure_def Let_def)
  have f: "lookup PROBE_LOCK_KEY ?f = None" "load ?f = (Br_Open, Some (r_now s))" "r_now ?f = r_now s"
    using up by (simp_all add: redis_simps)
  then have "isOpen e ?f = (True, ?f)" using assms(2) by (simp add: isOpen_def getState_def cooled_down_def)
  moreover have "lookup PROBE_LOCK_KEY (reset s) = None" "load (reset s) = (Br_Closed, None)"
    using up by (simp_all add: reset_def redis_simps)
  ultimately show ?thesis using assms f
    by (auto simp: conclude_def fail recordSuccess_def Let_def split: sum.splits if_splits)
qed

text \<open>
  C21. The half-open breaker lets one probe through: of any number of callers that ask while it is half open
  (or open with its cooldown over) exactly one may call if nobody holds the probe lock, and none otherwise;
  and however the call of the probe ends, the lock is free again and the breaker is closed after a success and
  open after any failure.
\<close>

theorem one_probe:
  assumes "getState e s = (Br_Half_Open, s1)" and "0 < COOLDOWN_S e"
  shows "length (filter (\<lambda>won. won) (fst (run_attempts (may_call e) callers s))) =
      (if lookup PROBE_LOCK_KEY s = None \<and> callers \<noteq> [] then 1 else 0) \<and>
    (\<forall>w res out s2 s3. fst (load s2) = Br_Half_Open \<longrightarrow> conclude e w True res s2 = (out, s3) \<longrightarrow>
      lookup PROBE_LOCK_KEY s3 = None \<and> fst (load s3) = (case res of Inr _ \<Rightarrow> Br_Closed | Inl _ \<Rightarrow> Br_Open))"
proof
  note half = getState_half [OF assms(1)]
  have "run_attempts (may_call e) callers s = (if callers = [] then ([], s) else run_attempts take_probe callers s1)"
  proof (cases callers)
    case (Cons p ps)
    have "fst (load (snd (take_probe p s1))) = Br_Half_Open" using half by (simp add: take_probe_def redis_simps)
    from half_open_attempts [OF this, where e = e and ps = ps] may_call_half [OF assms(1), where p = p] Cons show ?thesis
      by (simp add: case_prod_beta Let_def)
  qed simp
  then show "length (filter (\<lambda>won. won) (fst (run_attempts (may_call e) callers s))) =
      (if lookup PROBE_LOCK_KEY s = None \<and> callers \<noteq> [] then 1 else 0)"
    using probe.one_winner [of callers s1] half by (auto split: if_splits)
  show "\<forall>w res out s2 s3. fst (load s2) = Br_Half_Open \<longrightarrow> conclude e w True res s2 = (out, s3) \<longrightarrow>
      lookup PROBE_LOCK_KEY s3 = None \<and> fst (load s3) = (case res of Inr _ \<Rightarrow> Br_Closed | Inl _ \<Rightarrow> Br_Open)"
    using probe_conclude [OF _ assms(2)] by blast
qed

definition sample_breaker_env :: breaker_env where
  "sample_breaker_env = \<lparr>WINDOW_S = 60, COOLDOWN_S = 30, FAILURE_THRESHOLD = 2, LLM_MAX_RETRIES = 1\<rparr>"

definition fresh_store :: breaker where
  "fresh_store = \<lparr>cells = (\<lambda>_. None), r_now = 1000, up = True\<rparr>"

text \<open>Two failures trip the breaker; thirty seconds later three callers ask.\<close>

definition tripped :: breaker where
  "tripped = recordFailure sample_breaker_env 0 (recordFailure sample_breaker_env 0 fresh_store)"

lemmas breaker_eval = tripped_def recordFailure_def Let_def load_def save_def redis_get_def redis_set_def setNx_def incr_def
  expires_def lookup_def put_def passes_def fresh_store_def sample_breaker_env_def CB_TTL_S_def getState_def cooled_down_def
  PROBE_LOCK_TTL_S_def

lemma tripped_half: "\<exists>s1. getState sample_breaker_env (passes 30000 tripped) = (Br_Half_Open, s1)"
  by (simp add: breaker_eval)

lemma tripped_free: "lookup PROBE_LOCK_KEY (passes 30000 tripped) = None"
  by (simp add: breaker_eval)

theorem one_probe_witness:
  "length (filter (\<lambda>won. won) (fst (run_attempts (may_call sample_breaker_env) [1, 2, 3 :: nat] (passes 30000 tripped)))) = 1"
proof -
  obtain s1 where "getState sample_breaker_env (passes 30000 tripped) = (Br_Half_Open, s1)" using tripped_half by blast
  from one_probe [where callers = "[1, 2, 3 :: nat]", OF this, THEN conjunct1] tripped_free show ?thesis
    by (simp add: sample_breaker_env_def del: run_attempts.simps)
qed

section \<open>Tripping\<close>

text \<open>Failures, each a number of milliseconds after the one before.\<close>

primrec failures :: "breaker_env \<Rightarrow> int list \<Rightarrow> breaker \<Rightarrow> breaker" where
  "failures e [] s = s"
| "failures e (g # gs) s = failures e gs (recordFailure e 0 (passes g s))"

definition counted :: "int \<Rightarrow> int \<Rightarrow> breaker \<Rightarrow> bool" where
  "counted k expiry s \<longleftrightarrow> up s \<and> fst (load s) = Br_Closed \<and> cells s CB_FAILURES_KEY = Some (Num k, Some expiry)"

lemma passes_0 [simp]: "passes 0 s = s"
  by (simp add: passes_def)

lemma load_cells: "cells s CB_KEY = cells s' CB_KEY \<Longrightarrow> r_now s = r_now s' \<Longrightarrow> up s = up s' \<Longrightarrow> load s = load s'"
  unfolding load_def redis_get_def lookup_def by presburger

text \<open>A failure of a closed breaker whose counter is alive counts one more, and trips at the threshold.\<close>

lemma failure_counts:
  assumes "counted k x s" and "r_now s < x"
  shows "if FAILURE_THRESHOLD e \<le> k + 1 then load (recordFailure e 0 s) = (Br_Open, Some (r_now s)) \<and> r_now (recordFailure e 0 s) = r_now s
    else counted (k + 1) x (recordFailure e 0 s) \<and> r_now (recordFailure e 0 s) = r_now s"
proof -
  let ?s = "put CB_FAILURES_KEY (Num (k + 1)) (Some x) s"
  have alive: "lookup CB_FAILURES_KEY s = Some (Num k)" using assms by (simp add: counted_def lookup_def)
  then have "recordFailure e 0 s = (if FAILURE_THRESHOLD e \<le> k + 1 then save (Br_Open, Some (r_now s)) ?s else ?s)"
    using assms(1) by (simp add: recordFailure_def counted_def setNx_def incr_def Let_def)
  moreover have "load ?s = load s" by (rule load_cells) (simp_all add: redis_simps)
  ultimately show ?thesis using assms(1) by (simp add: counted_def redis_simps)
qed

lemma passes_counted: "0 \<le> g \<Longrightarrow> counted k x s \<Longrightarrow> counted k x (passes g s)"
  by (simp add: counted_def passes_closed)

lemma failures_count:
  assumes "counted k x s" and "\<forall>g \<in> set gs. 0 \<le> g" and "r_now s + sum_list gs < x" and "k + int (length gs) < FAILURE_THRESHOLD e"
  shows "counted (k + int (length gs)) x (failures e gs s) \<and> r_now (failures e gs s) = r_now s + sum_list gs"
  using assms
proof (induction gs arbitrary: k s)
  case (Cons g gs)
  have nonneg: "0 \<le> sum_list gs" using Cons.prems(2) by (simp add: sum_list_nonneg)
  have c: "counted k x (passes g s)" using Cons.prems by (simp add: passes_counted)
  have "\<not> FAILURE_THRESHOLD e \<le> k + 1" "r_now (passes g s) < x" using Cons.prems(3,4) nonneg by simp_all
  with failure_counts [OF c, of e] have "counted (k + 1) x (recordFailure e 0 (passes g s))"
      "r_now (recordFailure e 0 (passes g s)) = r_now s + g" by simp_all
  from Cons.IH [OF this(1)] this(2) Cons.prems show ?case by (simp add: algebra_simps)
qed simp

lemma first_failure:
  assumes "up s" and "fst (load s) = Br_Closed" and "lookup CB_FAILURES_KEY s = None" and "0 < WINDOW_S e" and "1 < FAILURE_THRESHOLD e"
  shows "counted 1 (r_now s + WINDOW_S e * 1000) (recordFailure e 0 s) \<and> r_now (recordFailure e 0 s) = r_now s"
proof -
  let ?x = "Some (r_now s + WINDOW_S e * 1000)"
  let ?s = "put CB_FAILURES_KEY (Num 1) ?x (put CB_FAILURES_KEY (Num 0) ?x s)"
  have "recordFailure e 0 s = ?s"
    using assms by (simp add: recordFailure_def setNx_def incr_def expires_def redis_simps Let_def)
  moreover have "load ?s = load s" by (rule load_cells) (simp_all add: redis_simps)
  ultimately show ?thesis using assms(1,2) by (simp add: counted_def redis_simps)
qed

text \<open>An open breaker refuses until the cooldown is over.\<close>

lemma open_refuses:
  assumes "load s = (Br_Open, Some t)" and "cells s CB_KEY = Some (Json (Br_Open, Some t), Some x)"
    and "0 \<le> w" and "r_now s + w < x" and "r_now s + w < t + COOLDOWN_S e * 1000"
  shows "isOpen e (passes w s) = (True, passes w s) \<and> getState e (passes w s) = (Br_Open, passes w s)"
proof -
  have "up s" using load_up [of s] assms(1) by simp
  then have "load (passes w s) = (Br_Open, Some t)" using assms(2,4) by (simp add: load_def redis_get_def lookup_def)
  then show ?thesis using assms(5) by (simp add: isOpen_def getState_def cooled_down_def)
qed

text \<open>
  When the breaker trips: from a closed breaker with no failure counted, failures that all fall within the
  window of the first leave it closed as long as they are fewer than the threshold; the one that reaches the
  threshold opens it, and from then until the cooldown is over every caller is refused and no call is made.
\<close>

theorem breaker_trips:
  assumes "up s" and "fst (load s) = Br_Closed" and "lookup CB_FAILURES_KEY s = None" and "0 < WINDOW_S e"
    and "1 < FAILURE_THRESHOLD e" and "\<forall>g \<in> set gs. 0 \<le> g" and "sum_list gs < WINDOW_S e * 1000"
    and "int (length gs) + 1 \<le> FAILURE_THRESHOLD e" and "0 \<le> w" and "w < COOLDOWN_S e * 1000" and "w < CB_TTL_S * 1000"
  shows "if int (length gs) + 1 < FAILURE_THRESHOLD e then fst (load (failures e (0 # gs) s)) = Br_Closed
    else load (failures e (0 # gs) s) = (Br_Open, Some (r_now s + sum_list gs)) \<and>
      createChatCompletion e dur v net (passes w (failures e (0 # gs) s)) =
        (Breaker_Open, passes w (failures e (0 # gs) s), 0)"
proof -
  let ?x = "r_now s + WINDOW_S e * 1000" and ?s1 = "recordFailure e 0 s"
  note first = first_failure [OF assms(1-5)]
  show ?thesis
  proof (cases "int (length gs) + 1 < FAILURE_THRESHOLD e")
    case True
    with failures_count [of 1 ?x ?s1 gs e] first assms(6,7) show ?thesis by (simp add: counted_def)
  next
    case False
    with assms(5,8) obtain hs g where gs: "gs = hs @ [g]" and th: "FAILURE_THRESHOLD e = int (length hs) + 2"
      by (cases gs rule: rev_cases) auto
    let ?s2 = "failures e hs ?s1"
    have run: "failures e (0 # gs) s = recordFailure e 0 (passes g ?s2)"
    proof -
      have "failures e (xs @ [g]) t = recordFailure e 0 (passes g (failures e xs t))" for xs t
        by (induction xs arbitrary: t) simp_all
      then show ?thesis by (simp add: gs)
    qed
    have nonneg: "0 \<le> g" "\<forall>h \<in> set hs. 0 \<le> h" "sum_list hs + g < WINDOW_S e * 1000"
      using assms(6,7) by (auto simp: gs)
    have c: "counted (1 + int (length hs)) ?x ?s2 \<and> r_now ?s2 = r_now s + sum_list hs"
      using failures_count [of 1 ?x ?s1 hs e] first nonneg th by simp
    then have c': "counted (1 + int (length hs)) ?x (passes g ?s2)" using nonneg(1) by (simp add: passes_counted)
    let ?now = "r_now s + sum_list gs"
    have now: "r_now (passes g ?s2) = ?now" using c by (simp add: gs)
    have alive: "lookup CB_FAILURES_KEY (passes g ?s2) = Some (Num (1 + int (length hs)))"
      using c' now assms(7) by (simp add: counted_def lookup_def)
    let ?p = "put CB_FAILURES_KEY (Num (2 + int (length hs))) (Some ?x) (passes g ?s2)"
    have f: "failures e (0 # gs) s = save (Br_Open, Some ?now) ?p"
      using c' alive now th unfolding run by (simp add: recordFailure_def counted_def setNx_def incr_def Let_def)
    have up: "up ?p" using c' by (simp add: counted_def)
    have l: "load (save (Br_Open, Some ?now) ?p) = (Br_Open, Some ?now)" using up by (simp add: redis_simps)
    have "isOpen e (passes w (save (Br_Open, Some ?now) ?p)) = (True, passes w (save (Br_Open, Some ?now) ?p)) \<and>
        getState e (passes w (save (Br_Open, Some ?now) ?p)) = (Br_Open, passes w (save (Br_Open, Some ?now) ?p))"
      by (rule open_refuses [OF l, where x = "?now + CB_TTL_S * 1000"])
        (use up now assms(9-11) in \<open>simp_all add: save_def redis_set_def CB_TTL_S_def put_def expires_def\<close>)
    then have "createChatCompletion e dur v net (passes w (failures e (0 # gs) s)) =
        (Breaker_Open, passes w (failures e (0 # gs) s), 0)"
      unfolding f by (simp add: createChatCompletion_def admit_def)
    with False l show ?thesis unfolding f by simp
  qed
qed

text \<open>Two failures a second apart; ten seconds later a caller is refused.\<close>

theorem breaker_trips_witness:
  "createChatCompletion sample_breaker_env 5 0 (\<lambda>_. Inr ''ok'') (passes 10000 (failures sample_breaker_env [0, 1000] fresh_store)) =
     (Breaker_Open, passes 10000 (failures sample_breaker_env [0, 1000] fresh_store), 0)"
proof -
  have "up fresh_store" "fst (load fresh_store) = Br_Closed" "lookup CB_FAILURES_KEY fresh_store = None"
    by (simp_all add: breaker_eval)
  from breaker_trips [OF this, of sample_breaker_env "[1000]" 10000 5 0 "\<lambda>_. Inr ''ok''"] show ?thesis
    by (simp add: sample_breaker_env_def CB_TTL_S_def)
qed

section \<open>Where it goes wrong\<close>

text \<open>
  A straggler takes the probe lock and makes no call: when a call that was admitted before the breaker
  opened fails for a transient reason after the cooldown is over, nothing is recorded, the question whether the
  breaker is open moves it to half open and takes the free probe lock, and the error is rethrown; every caller
  is refused for as long as the lock lives, although no probe is on its way.
\<close>

theorem straggler_leaks_probe_lock:
  assumes "load s = (Br_Open, Some t)" and "cooled_down e (Some t) s" and "lookup PROBE_LOCK_KEY s = None"
    and "isTransientError err" and "conclude e w False (Inl err :: call_error + 'r) s = (out, s')" and "0 \<le> v" and "v < PROBE_LOCK_TTL_S * 1000"
  shows "out = Call_Failed err \<and> fst (isOpen e (passes v s'))"
proof -
  have up: "up s" by (rule load_up) (simp add: assms(1))
  let ?h = "save (Br_Half_Open, Some t) s"
  let ?l = "put PROBE_LOCK_KEY (Text ''1'') (expires PROBE_LOCK_TTL_S ?h) ?h"
  have "getState e s = (Br_Half_Open, ?h)" using assms(1,2) by (simp add: getState_def)
  moreover have "recordFailure e w s = s" by (simp add: recordFailure_def assms(1) Let_def)
  moreover have "setNx PROBE_LOCK_KEY (Text ''1'') PROBE_LOCK_TTL_S ?h = (True, ?l)"
    using assms(3) up by (simp add: setNx_def redis_simps)
  ultimately have c: "conclude e w False (Inl err :: call_error + 'r) s = (Call_Failed err, ?l)"
    using assms(4) by (simp add: conclude_def isOpen_def)
  have cell: "cells ?l CB_KEY = Some (Json (Br_Half_Open, Some t), Some (r_now s + CB_TTL_S * 1000))"
    using up by (simp add: put_def save_def redis_set_def expires_def CB_TTL_S_def PROBE_LOCK_KEY_def CB_KEY_def)
  have now: "r_now ?h = r_now s" "r_now ?l = r_now s" "up ?l" "up ?h" using up by (simp_all add: redis_simps)
  have "load (passes v ?l) = (Br_Half_Open, Some t)"
    using cell now assms(6,7) by (simp add: load_def redis_get_def lookup_def CB_TTL_S_def PROBE_LOCK_TTL_S_def)
  moreover have "lookup PROBE_LOCK_KEY (passes v ?l) = Some (Text ''1'')"
    using now assms(7) by (simp add: lookup_def put_def expires_def)
  ultimately have "isOpen e (passes v ?l) = (True, passes v ?l)"
    by (simp add: isOpen_def getState_def setNx_def)
  then have "out = Call_Failed err \<and> fst (isOpen e (passes v ?l))" using c assms(5) by simp
  moreover have "s' = ?l" using c assms(5) by simp
  ultimately show ?thesis by metis
qed

text \<open>A call admitted at first fails half a minute after two others tripped the breaker; a minute later a caller is still refused.\<close>

theorem straggler_leaks_probe_lock_witness:
  "fst (admit sample_breaker_env fresh_store) = Admitted False \<and>
   fst (isOpen sample_breaker_env (passes 60000
     (snd (conclude sample_breaker_env 0 False (Inl Api_Timeout_Error :: call_error + string) (passes 30000 tripped)))))"
proof
  show "fst (admit sample_breaker_env fresh_store) = Admitted False" by (simp add: admit_def isOpen_def breaker_eval)
  obtain out s' where c: "conclude sample_breaker_env 0 False (Inl Api_Timeout_Error :: call_error + string) (passes 30000 tripped) = (out, s')"
    by (rule prod.exhaust)
  have "load (passes 30000 tripped) = (Br_Open, Some 1000)" "cooled_down sample_breaker_env (Some 1000) (passes 30000 tripped)"
    by (simp_all add: breaker_eval)
  from straggler_leaks_probe_lock [OF this tripped_free _ c, of 60000] c
  show "fst (isOpen sample_breaker_env (passes 60000
     (snd (conclude sample_breaker_env 0 False (Inl Api_Timeout_Error :: call_error + string) (passes 30000 tripped)))))"
    by (simp add: isTransientError_def PROBE_LOCK_TTL_S_def)
qed

text \<open>
  The failure counter can outlive its window: when it expires between the two commands of \<open>recordFailure\<close>, the
  increment creates it anew without an expiry, and it still counts a failure recorded any time later.
\<close>

lemma counter_outlives_window:
  assumes "counted k x s" and "r_now s < x" and "x \<le> r_now s + w" and "1 < FAILURE_THRESHOLD e"
  shows "lookup CB_FAILURES_KEY (passes v (recordFailure e w s)) = Some (Num 1)"
proof -
  let ?s = "passes w s"
  have "lookup CB_FAILURES_KEY s = Some (Num k)" "lookup CB_FAILURES_KEY ?s = None"
    using assms by (simp_all add: counted_def lookup_def)
  then have "recordFailure e w s = put CB_FAILURES_KEY (Num 1) None ?s"
    using assms by (simp add: recordFailure_def counted_def setNx_def incr_def Let_def)
  then show ?thesis by (simp add: lookup_def put_def)
qed

section \<open>The client\<close>

text \<open>What one completion costs and means.\<close>

lemma completion_calls:
  assumes "createChatCompletion e dur w net s = (out, s', calls)"
  shows "calls \<le> Suc (LLM_MAX_RETRIES e) \<and> (calls = 0 \<longrightarrow> out = Breaker_Open) \<and>
    (\<forall>r. out = Completed r \<longrightarrow> 0 < calls \<and> net (calls - 1) = Inr r)"
proof -
  obtain a s1 where a: "admit e s = (a, s1)" by (rule prod.exhaust)
  show ?thesis
  proof (cases a)
    case Blocked
    with assms a show ?thesis by (auto simp: createChatCompletion_def)
  next
    case (Admitted p)
    obtain res n where r: "executeWithRetry e net = (res, n)" by (rule prod.exhaust)
    obtain o2 s2 where c: "conclude e w p res (passes dur s1) = (o2, s2)" by (rule prod.exhaust)
    from assms a Admitted r c have out: "out = o2" "calls = n" by (simp_all add: createChatCompletion_def)
    note b = retry_bounds [OF r [unfolded executeWithRetry_def]]
    from c have "res = Inr y" if "o2 = Completed y" for y
      using that by (auto simp: conclude_def Let_def split: sum.splits if_splits prod.splits)
    with out b show ?thesis by auto
  qed
qed

end
