(* ===== verification/Rule_Admin.thy ===== *)
theory Rule_Admin
  imports Avac_Pricing Caixilharia_Pricing "HOL-Library.List_Lexorder" "HOL-Library.Char_ord"
begin

text \<open>
  The administration of the pricing rules: the configurations \<open>pricing-rule-config.validator.ts\<close> accepts for a
  vertical and a rule type, and the operations of \<open>pricing-rules-admin.service.ts\<close> on the rows of an
  organisation. The validator declares its schemas a second time, beside those of the two engines; the theory
  relates the two: what the service stores, the engine reads.
\<close>

section \<open>The validator\<close>

definition sku_code_schema :: "string schema" where
  "sku_code_schema = z_refine (\<lambda>v. map_option trim (z_string v)) (\<lambda>s. s \<noteq> [])"

definition v_selection :: "unit schema" where
  "v_selection w = do {
     so \<leftarrow> z_object w;
     ks \<leftarrow> z_refine (z_array z_nonempty_string) (\<lambda>xs. xs \<noteq> []) (field ''keywords'' so);
     c \<leftarrow> sku_code_schema (field ''sku_code'' so);
     Some () }"

definition v_selections :: "unit schema \<Rightarrow> json option \<Rightarrow> unit option" where
  "v_selections s v = do { ss \<leftarrow> z_refine (z_array s) (\<lambda>xs. xs \<noteq> []) v; Some () }"

definition v_indoor :: "unit schema" where
  "v_indoor v = do {
     ob \<leftarrow> z_object v;
     z_literal ''indoor_unit'' (field ''role'' ob);
     v_selections (\<lambda>w. do {
         so \<leftarrow> z_object w;
         m \<leftarrow> z_nullable z_positive (field ''max_area_m2'' so);
         c \<leftarrow> sku_code_schema (field ''sku_code'' so);
         Some () }) (field ''selections'' ob);
     dc \<leftarrow> sku_code_schema (field ''default_sku_code'' ob);
     Some () }"

definition v_outdoor :: "unit schema" where
  "v_outdoor v = do {
     ob \<leftarrow> z_object v;
     z_literal ''outdoor_unit'' (field ''role'' ob);
     c \<leftarrow> sku_code_schema (field ''sku_code'' ob);
     m \<leftarrow> z_positive_int (field ''max_indoor_units'' ob);
     Some () }"

definition v_allowance :: "unit schema" where
  "v_allowance v = do {
     ob \<leftarrow> z_object v;
     x \<leftarrow> z_enum [(''pipe_length_m'', ()), (''outdoor_unit_distance_m'', ())] (field ''variable'' ob);
     i \<leftarrow> z_nonnegative (field ''included'' ob);
     p \<leftarrow> z_nonneg_int (field ''unit_price_minor'' ob);
     de \<leftarrow> z_nonempty_string (field ''description'' ob);
     k \<leftarrow> component_kind_schema (field ''kind'' ob);
     Some () }"

definition v_conditional :: "unit schema" where
  "v_conditional v = do {
     ob \<leftarrow> z_object v;
     x \<leftarrow> z_enum [(''install_height_m'', ()), (''wall_type'', ()), (''distance_km'', ()), (''install_type'', ())] (field ''variable'' ob);
     opr \<leftarrow> z_enum [(''eq'', ()), (''gt'', ())] (field ''operator'' ob);
     va \<leftarrow> z_config_value (field ''value'' ob);
     am \<leftarrow> z_nonneg_int (field ''amount_minor'' ob);
     de \<leftarrow> z_nonempty_string (field ''description'' ob);
     k \<leftarrow> component_kind_schema (field ''kind'' ob);
     Some () }"

definition v_fixed_adder :: "unit schema" where
  "v_fixed_adder v = do {
     ob \<leftarrow> z_object v;
     z_literal ''needs_electrical_panel'' (field ''variable'' ob);
     w \<leftarrow> z_boolean (field ''when'' ob);
     am \<leftarrow> z_nonneg_int (field ''amount_minor'' ob);
     de \<leftarrow> z_nonempty_string (field ''description'' ob);
     k \<leftarrow> component_kind_schema (field ''kind'' ob);
     Some () }"

definition v_labor :: "unit schema" where
  "v_labor v = do {
     ob \<leftarrow> z_object v;
     r \<leftarrow> z_nonneg_int (field ''rate_minor'' ob);
     h \<leftarrow> z_record z_string z_positive (field ''hours_by_unit_count'' ob);
     de \<leftarrow> z_nonempty_string (field ''description'' ob);
     Some () }"

definition v_percentage :: "unit schema" where
  "v_percentage v = do { ob \<leftarrow> z_object v; p \<leftarrow> z_percentage (field ''percentage'' ob); Some () }"

definition v_profile :: "unit schema" where
  "v_profile v = do {
     ob \<leftarrow> z_object v;
     z_literal ''profile'' (field ''role'' ob);
     v_selections v_selection (field ''selections'' ob);
     dc \<leftarrow> sku_code_schema (field ''default_sku_code'' ob);
     ms \<leftarrow> z_record OpeningTypeSchema z_positive (field ''opening_type_multipliers'' ob);
     Some () }"

definition v_glass :: "unit schema" where
  "v_glass v = do {
     ob \<leftarrow> z_object v;
     z_literal ''glass'' (field ''role'' ob);
     v_selections v_selection (field ''selections'' ob);
     dc \<leftarrow> sku_code_schema (field ''default_sku_code'' ob);
     Some () }"

definition v_hardware :: "unit schema" where
  "v_hardware v = do {
     ob \<leftarrow> z_object v;
     z_literal ''hardware'' (field ''role'' ob);
     m \<leftarrow> z_record OpeningTypeSchema sku_code_schema (field ''sku_by_opening_type'' ob);
     Some () }"

definition v_feature :: "unit schema" where
  "v_feature v = do {
     ob \<leftarrow> z_object v;
     z_one_of [''blind'', ''insect_screen''] (field ''role'' ob);
     c \<leftarrow> sku_code_schema (field ''sku_code'' ob);
     Some () }"

definition v_minimum_area :: "unit schema" where
  "v_minimum_area v = do {
     ob \<leftarrow> z_object v;
     z_literal ''minimum_billable_area'' (field ''role'' ob);
     x \<leftarrow> z_positive (field ''area_m2'' ob);
     Some () }"

definition v_removal :: "unit schema" where
  "v_removal v = do {
     ob \<leftarrow> z_object v;
     z_literal ''remove_existing'' (field ''role'' ob);
     am \<leftarrow> z_nonneg_int (field ''amount_minor_per_opening'' ob);
     de \<leftarrow> z_nonempty_string (field ''description'' ob);
     Some () }"

definition v_transport :: "unit schema" where
  "v_transport v = do {
     ob \<leftarrow> z_object v;
     z_literal ''transport_per_km'' (field ''role'' ob);
     c \<leftarrow> sku_code_schema (field ''sku_code'' ob);
     k \<leftarrow> z_nonnegative (field ''included_km'' ob);
     Some () }"

definition v_installation :: "unit schema" where
  "v_installation v = do {
     ob \<leftarrow> z_object v;
     z_literal ''installation_per_opening'' (field ''role'' ob);
     c \<leftarrow> sku_code_schema (field ''sku_code'' ob);
     Some () }"

definition v_area_discount :: "unit schema" where
  "v_area_discount v = do {
     ob \<leftarrow> z_object v;
     z_literal ''area_discount'' (field ''role'' ob);
     ths \<leftarrow> z_refine (z_array (\<lambda>w. do {
         th \<leftarrow> z_object w;
         oa \<leftarrow> z_nonnegative (field ''over_area_m2'' th);
         pc \<leftarrow> z_percentage (field ''percentage'' th);
         Some () })) (\<lambda>xs. xs \<noteq> []) (field ''thresholds'' ob);
     Some () }"

text \<open>\<open>z.union\<close>: the first schema that accepts; \<open>None\<close>: the type has no schema for the vertical.\<close>

definition z_first_of :: "'a schema list \<Rightarrow> 'a schema" where
  "z_first_of ss v = (case List.map_filter (\<lambda>s. s v) ss of [] \<Rightarrow> None | x # _ \<Rightarrow> Some x)"

fun config_schema :: "vertical \<Rightarrow> pricing_rule_type \<Rightarrow> unit schema option" where
  "config_schema Avac Catalog_Unit = Some (z_first_of [v_indoor, v_outdoor])"
| "config_schema Avac Included_Allowance = Some v_allowance"
| "config_schema Avac Conditional_Surcharge = Some v_conditional"
| "config_schema Avac Fixed_Adder = Some v_fixed_adder"
| "config_schema Avac Labor_Hours = Some v_labor"
| "config_schema Caixilharia Catalog_Unit = Some (z_first_of [v_profile, v_glass, v_hardware, v_feature])"
| "config_schema Caixilharia Fixed_Adder = Some (z_first_of [v_minimum_area, v_removal])"
| "config_schema Caixilharia Conditional_Surcharge = Some v_transport"
| "config_schema Caixilharia Labor_Hours = Some v_installation"
| "config_schema Caixilharia Qty_Break = Some v_area_discount"
| "config_schema _ Margin_Markup = Some v_percentage"
| "config_schema _ Tax = Some v_percentage"
| "config_schema _ _ = None"

text \<open>Whether the validation returns; it throws otherwise.\<close>

definition validatePricingRuleConfig :: "vertical \<Rightarrow> pricing_rule_type \<Rightarrow> json \<Rightarrow> bool" where
  "validatePricingRuleConfig v ty c = (case config_schema v ty of None \<Rightarrow> False | Some s \<Rightarrow> s (Some c) \<noteq> None)"

section \<open>The service\<close>

record rule_input =
  in_vertical :: vertical
  in_rule_key :: string
  in_rule_type :: pricing_rule_type
  in_config :: json
  in_sort_order :: int
  in_active :: bool

record rule_patch =
  pt_vertical :: "vertical option"
  pt_rule_key :: "string option"
  pt_rule_type :: "pricing_rule_type option"
  pt_config :: "json option"
  pt_sort_order :: "int option"
  pt_active :: "bool option"

type_synonym rule_store = "(uuid \<times> pricing_rule) list"

datatype rule_error = Invalid_Config | No_Vertical

text \<open>Rows without a key come last; keys compare by their characters (the collation of the database).\<close>

definition list_rules :: "uuid \<Rightarrow> rule_store \<Rightarrow> rule_store" where
  "list_rules orgId s = sort_key (\<lambda>(i, r). (sort_order r, rule_key r = None, case rule_key r of None \<Rightarrow> [] | Some k \<Rightarrow> k))
     (filter (\<lambda>(i, r). pr_org_id r = orgId \<and> pr_vertical r \<noteq> None) s)"

definition create_rule :: "uuid \<Rightarrow> uuid \<Rightarrow> rule_input \<Rightarrow> rule_store \<Rightarrow> (rule_error + pricing_rule) \<times> rule_store" where
  "create_rule i orgId x s =
     (if \<not> validatePricingRuleConfig (in_vertical x) (in_rule_type x) (in_config x) then (Inl Invalid_Config, s)
      else (let r = \<lparr>pr_org_id = orgId, rule_type = in_rule_type x, pr_vertical = Some (in_vertical x),
              rule_key = Some (trim (in_rule_key x)), sort_order = in_sort_order x, config = in_config x, pr_active = in_active x\<rparr>
            in (Inr r, s @ [(i, r)])))"

definition patched :: "rule_patch \<Rightarrow> pricing_rule \<Rightarrow> pricing_rule" where
  "patched p r = r\<lparr>
     pr_vertical := (case pt_vertical p of None \<Rightarrow> pr_vertical r | Some v \<Rightarrow> Some v),
     rule_key := (case pt_rule_key p of None \<Rightarrow> rule_key r | Some k \<Rightarrow> Some (trim k)),
     rule_type := (case pt_rule_type p of None \<Rightarrow> rule_type r | Some t \<Rightarrow> t),
     config := (case pt_config p of None \<Rightarrow> config r | Some c \<Rightarrow> c),
     sort_order := (case pt_sort_order p of None \<Rightarrow> sort_order r | Some n \<Rightarrow> n),
     pr_active := (case pt_active p of None \<Rightarrow> pr_active r | Some b \<Rightarrow> b)\<rparr>"

definition find_rule :: "uuid \<Rightarrow> uuid \<Rightarrow> rule_store \<Rightarrow> pricing_rule option" where
  "find_rule orgId i s = map_option snd (find (\<lambda>(k, r). k = i \<and> pr_org_id r = orgId) s)"

text \<open>\<open>Inr None\<close>: the organisation has no such rule.\<close>

definition update_rule :: "uuid \<Rightarrow> uuid \<Rightarrow> rule_patch \<Rightarrow> rule_store \<Rightarrow> (rule_error + pricing_rule option) \<times> rule_store" where
  "update_rule orgId i p s =
     (case find_rule orgId i s of
        None \<Rightarrow> (Inr None, s)
      | Some current \<Rightarrow>
          (let merged = patched p current in
           case pr_vertical merged of
             None \<Rightarrow> (Inl No_Vertical, s)
           | Some v \<Rightarrow>
               if \<not> validatePricingRuleConfig v (rule_type merged) (config merged) then (Inl Invalid_Config, s)
               else
                 (let s = update_where (\<lambda>(k, r). k = i \<and> pr_org_id r = orgId) (\<lambda>(k, r). (k, patched p r)) s in
                  (Inr (find_rule orgId i s), s))))"

definition no_patch :: rule_patch where
  "no_patch = \<lparr>pt_vertical = None, pt_rule_key = None, pt_rule_type = None, pt_config = None, pt_sort_order = None, pt_active = None\<rparr>"

definition deactivate_rule :: "uuid \<Rightarrow> uuid \<Rightarrow> rule_store \<Rightarrow> (rule_error + pricing_rule option) \<times> rule_store" where
  "deactivate_rule orgId i = update_rule orgId i (no_patch\<lparr>pt_active := Some False\<rparr>)"

section \<open>What the validator accepts, the engines read\<close>

definition reads_all :: "'a schema \<Rightarrow> 'b schema \<Rightarrow> bool" where
  "reads_all s t \<longleftrightarrow> (\<forall>v x. s v = Some x \<longrightarrow> (\<exists>y. t v = Some y))"

named_theorems reading \<open>which schemas of the engines read what the validator accepts\<close>

lemma reads_allD: "reads_all s t \<Longrightarrow> s v = Some x \<Longrightarrow> \<exists>y. t v = Some y"
  by (simp add: reads_all_def)

lemma z_string_Some: "z_string v = Some x \<longleftrightarrow> v = Some (JStr x)"
  by (cases v rule: z_string.cases) auto

lemma z_array_accepts: "z_array s v = Some xs \<longleftrightarrow> (\<exists>vs. v = Some (JArr vs) \<and> those (map (\<lambda>v. s (Some v)) vs) = Some xs)"
  by (cases "(s, v)" rule: z_array.cases) auto

lemma sku_code_reads [reading]: "reads_all sku_code_schema z_nonempty_string"
proof -
  have "trim [] = []" by (simp add: trim_def)
  then show ?thesis by (auto simp: reads_all_def sku_code_schema_def schema_simps z_string_Some)
qed

lemma schemas_Some_iff: "(\<exists>ys. those (map f xs) = Some ys) \<longleftrightarrow> (\<forall>x \<in> set xs. \<exists>y. f x = Some y)"
  by (induction xs) (auto split: option.splits)

lemma those_map_length: "those xs = Some ys \<Longrightarrow> length ys = length xs"
  by (induction xs arbitrary: ys) (auto split: option.splits)

lemma array_refine_reads:
  assumes "reads_all s t"
  shows "reads_all (z_refine (z_array s) (\<lambda>xs. xs \<noteq> [])) (z_refine (z_array t) (\<lambda>xs. xs \<noteq> []))"
    and "reads_all (z_refine (z_array s) (\<lambda>xs. xs \<noteq> [])) (z_array t)"
proof -
  have "\<exists>y. z_array t v = Some y \<and> y \<noteq> []" if "z_refine (z_array s) (\<lambda>xs. xs \<noteq> []) v = Some x" for v x
  proof -
    from that obtain vs where vs: "v = Some (JArr vs)" "those (map (\<lambda>v. s (Some v)) vs) = Some x" "x \<noteq> []"
      by (auto simp: schema_simps z_array_accepts)
    then have "\<forall>w \<in> set vs. \<exists>y. s (Some w) = Some y" using schemas_Some_iff [of "\<lambda>v. s (Some v)" vs] by blast
    then have "\<forall>w \<in> set vs. \<exists>y. t (Some w) = Some y" using assms unfolding reads_all_def by blast
    then obtain y where y: "those (map (\<lambda>v. t (Some v)) vs) = Some y" using schemas_Some_iff [of "\<lambda>v. t (Some v)" vs] by blast
    have "length y = length x" using those_map_length [OF y] those_map_length [OF vs(2)] by simp
    with vs(1,3) y show ?thesis by (auto simp: z_array_accepts)
  qed
  then show "reads_all (z_refine (z_array s) (\<lambda>xs. xs \<noteq> [])) (z_refine (z_array t) (\<lambda>xs. xs \<noteq> []))"
    "reads_all (z_refine (z_array s) (\<lambda>xs. xs \<noteq> [])) (z_array t)"
    unfolding reads_all_def z_refine_Some by blast+
qed

lemma z_record_Some: "z_record k s v = Some xs \<longleftrightarrow> (\<exists>fs. v = Some (JObj fs) \<and>
    those (map (\<lambda>(name, v). do { key \<leftarrow> k (Some (JStr name)); x \<leftarrow> s (Some v); Some (key, x) }) fs) = Some xs)"
  by (cases "(k, s, v)" rule: z_record.cases) auto

lemma record_reads:
  assumes "reads_all s t"
  shows "reads_all (z_record k s) (z_record k t)"
  unfolding reads_all_def
proof (intro allI impI)
  let ?f = "\<lambda>s (name, v). do { key \<leftarrow> k (Some (JStr name)); x \<leftarrow> s (Some v); Some (key, x) }"
  fix v x assume "z_record k s v = Some x"
  then obtain fs where v: "v = Some (JObj fs)" and "those (map (?f s) fs) = Some x" unfolding z_record_Some by blast
  then have "\<forall>p \<in> set fs. \<exists>y. ?f s p = Some y" using schemas_Some_iff [of "?f s" fs] by blast
  moreover have "\<exists>y. ?f t p = Some y" if "?f s p = Some y" for p y
    using that assms by (cases p) (auto simp: bind_eq_Some_conv reads_all_def)
  ultimately have "\<forall>p \<in> set fs. \<exists>y. ?f t p = Some y" by blast
  then show "\<exists>y. z_record k t v = Some y" using schemas_Some_iff [of "?f t" fs] unfolding v z_record_Some by blast
qed

lemmas sku_reads = sku_code_reads [THEN reads_allD]

text \<open>An enumeration read into other values.\<close>

lemma enum_reads:
  assumes "z_enum opts v = Some x" and "fst ` set opts \<subseteq> fst ` set opts'"
  shows "\<exists>y. z_enum opts' v = Some y"
proof -
  from assms(1) obtain s where s: "z_string v = Some s" "map_of opts s = Some x" by (auto simp: z_enum_def bind_eq_Some_conv)
  then have "s \<in> fst ` set opts'" using assms(2) by (metis domI dom_map_of_conv_image_fst subsetD)
  then obtain y where "map_of opts' s = Some y" by (metis domD dom_map_of_conv_image_fst)
  with s(1) show ?thesis by (simp add: z_enum_def)
qed

lemma selections_reads:
  assumes "reads_all s t" and "v_selections s v = Some u"
  shows "\<exists>xs. z_array t v = Some xs"
proof -
  from assms(2) obtain xs where "z_refine (z_array s) (\<lambda>xs. xs \<noteq> []) v = Some xs" by (auto simp: v_selections_def bind_eq_Some_conv)
  then show ?thesis using array_refine_reads(2) [OF assms(1)] by (rule reads_allD [rotated])
qed

lemma indoor_reads: "reads_all v_indoor IndoorSelectionSchema"
proof -
  let ?s = "\<lambda>w. do { so \<leftarrow> z_object w; m \<leftarrow> z_nullable z_positive (field ''max_area_m2'' so);
    c \<leftarrow> sku_code_schema (field ''sku_code'' so); Some () }"
  let ?t = "\<lambda>w. do { so \<leftarrow> z_object w; m \<leftarrow> z_nullable z_positive (field ''max_area_m2'' so);
    c \<leftarrow> z_nonempty_string (field ''sku_code'' so); Some \<lparr>max_area_m2 = m, sel_sku_code = c\<rparr> }"
  have "reads_all ?s ?t" unfolding reads_all_def by (auto simp: bind_eq_Some_conv dest!: sku_reads)
  from selections_reads [OF this] show ?thesis
    unfolding reads_all_def v_indoor_def IndoorSelectionSchema_def bind_eq_Some_conv by (blast dest: sku_reads)
qed

lemma outdoor_reads: "reads_all v_outdoor OutdoorSelectionSchema"
  unfolding reads_all_def v_outdoor_def OutdoorSelectionSchema_def bind_eq_Some_conv by (blast dest: sku_reads)

lemma allowance_reads: "reads_all v_allowance AllowanceSchema"
proof -
  have "\<exists>y. z_enum [(''pipe_length_m'', Pipe_Length_M), (''outdoor_unit_distance_m'', Outdoor_Unit_Distance_M)] v = Some y"
    if "z_enum [(''pipe_length_m'', ()), (''outdoor_unit_distance_m'', ())] v = Some x" for v x
    using that by (rule enum_reads) simp
  then show ?thesis unfolding reads_all_def v_allowance_def AllowanceSchema_def bind_eq_Some_conv by blast
qed

lemma conditional_reads: "reads_all v_conditional ConditionalSchema"
proof -
  have 1: "\<exists>y. z_enum [(''install_height_m'', Install_Height_M), (''wall_type'', Wall_Type),
      (''distance_km'', Distance_Km), (''install_type'', Install_Type)] v = Some y"
    if "z_enum [(''install_height_m'', ()), (''wall_type'', ()), (''distance_km'', ()), (''install_type'', ())] v = Some x" for v x
    using that by (rule enum_reads) simp
  have 2: "\<exists>y. z_enum [(''eq'', Op_Eq), (''gt'', Op_Gt)] v = Some y" if "z_enum [(''eq'', ()), (''gt'', ())] v = Some x" for v x
    using that by (rule enum_reads) simp
  show ?thesis unfolding reads_all_def v_conditional_def ConditionalSchema_def bind_eq_Some_conv by (blast dest: 1 2)
qed

lemma plain_reads:
  "reads_all v_fixed_adder FixedAdderSchema" "reads_all v_labor LaborSchema" "reads_all v_percentage percentage_schema"
  "reads_all v_minimum_area MinimumAreaRuleSchema" "reads_all v_removal RemovalRuleSchema"
  unfolding reads_all_def v_fixed_adder_def FixedAdderSchema_def v_labor_def LaborSchema_def v_percentage_def percentage_schema_def
    v_minimum_area_def MinimumAreaRuleSchema_def v_removal_def RemovalRuleSchema_def bind_eq_Some_conv by blast+

lemma selection_reads:
  "reads_all v_selection (\<lambda>w. do { so \<leftarrow> z_object w;
     ks \<leftarrow> z_refine (z_array z_nonempty_string) (\<lambda>xs. xs \<noteq> []) (field ''keywords'' so);
     c \<leftarrow> z_nonempty_string (field ''sku_code'' so); Some \<lparr>ks_keywords = ks, ks_sku_code = c\<rparr> })"
  unfolding reads_all_def v_selection_def bind_eq_Some_conv by (blast dest: sku_reads)

lemmas selections_read = selections_reads [OF selection_reads, folded selections_schema_def]

lemma profile_reads: "reads_all v_profile ProfileRuleSchema"
  unfolding reads_all_def v_profile_def ProfileRuleSchema_def OpeningTypeMultipliersSchema_def bind_eq_Some_conv
  by (blast dest: sku_reads selections_read)

lemma glass_reads: "reads_all v_glass GlassRuleSchema"
  unfolding reads_all_def v_glass_def GlassRuleSchema_def bind_eq_Some_conv by (blast dest: sku_reads selections_read)

lemma hardware_reads: "reads_all v_hardware HardwareRuleSchema"
  unfolding reads_all_def v_hardware_def HardwareRuleSchema_def bind_eq_Some_conv
  by (blast dest: record_reads [OF sku_code_reads, THEN reads_allD])

lemma coded_reads:
  "reads_all v_feature FeatureRuleSchema" "reads_all v_installation LaborRuleSchema"
  unfolding reads_all_def v_feature_def FeatureRuleSchema_def v_installation_def LaborRuleSchema_def bind_eq_Some_conv
  by (blast dest: sku_reads)+

lemma transport_reads: "reads_all v_transport TransportRuleSchema"
proof -
  have "\<exists>y. z_default 0 z_nonnegative v = Some y" if "z_nonnegative v = Some x" for v and x :: rat
    using that by (cases v) (simp_all add: z_default_def)
  then show ?thesis unfolding reads_all_def v_transport_def TransportRuleSchema_def bind_eq_Some_conv by (blast dest: sku_reads)
qed

lemma area_discount_reads: "reads_all v_area_discount AreaDiscountRuleSchema"
proof -
  let ?s = "\<lambda>w. do { th \<leftarrow> z_object w; oa \<leftarrow> z_nonnegative (field ''over_area_m2'' th);
    pc \<leftarrow> z_percentage (field ''percentage'' th); Some () }"
  let ?t = "\<lambda>w. do { th \<leftarrow> z_object w; oa \<leftarrow> z_nonnegative (field ''over_area_m2'' th);
    pc \<leftarrow> z_percentage (field ''percentage'' th); Some \<lparr>over_area_m2 = oa, th_percentage = pc\<rparr> }"
  have "reads_all ?s ?t" unfolding reads_all_def bind_eq_Some_conv by blast
  from array_refine_reads(1) [OF this] show ?thesis
    unfolding reads_all_def v_area_discount_def AreaDiscountRuleSchema_def bind_eq_Some_conv by blast
qed

fun engine_reads :: "vertical \<Rightarrow> pricing_rule_type \<Rightarrow> json \<Rightarrow> bool" where
  "engine_reads Avac Catalog_Unit c = (IndoorSelectionSchema (Some c) \<noteq> None \<or> OutdoorSelectionSchema (Some c) \<noteq> None)"
| "engine_reads Avac Included_Allowance c = (AllowanceSchema (Some c) \<noteq> None)"
| "engine_reads Avac Conditional_Surcharge c = (ConditionalSchema (Some c) \<noteq> None)"
| "engine_reads Avac Fixed_Adder c = (FixedAdderSchema (Some c) \<noteq> None)"
| "engine_reads Avac Labor_Hours c = (LaborSchema (Some c) \<noteq> None)"
| "engine_reads Caixilharia Catalog_Unit c = (ProfileRuleSchema (Some c) \<noteq> None \<or> GlassRuleSchema (Some c) \<noteq> None \<or>
     HardwareRuleSchema (Some c) \<noteq> None \<or> FeatureRuleSchema (Some c) \<noteq> None)"
| "engine_reads Caixilharia Fixed_Adder c = (MinimumAreaRuleSchema (Some c) \<noteq> None \<or> RemovalRuleSchema (Some c) \<noteq> None)"
| "engine_reads Caixilharia Conditional_Surcharge c = (TransportRuleSchema (Some c) \<noteq> None)"
| "engine_reads Caixilharia Labor_Hours c = (LaborRuleSchema (Some c) \<noteq> None)"
| "engine_reads Caixilharia Qty_Break c = (AreaDiscountRuleSchema (Some c) \<noteq> None)"
| "engine_reads _ Margin_Markup c = (percentage_schema (Some c) \<noteq> None)"
| "engine_reads _ Tax c = (percentage_schema (Some c) \<noteq> None)"
| "engine_reads _ _ c = False"

lemma z_first_of_Some: "z_first_of ss v = Some x \<Longrightarrow> \<exists>s \<in> set ss. \<exists>y. s v = Some y"
  by (induction ss) (auto simp: z_first_of_def List.map_filter_def split: list.splits option.splits if_splits)

lemma read_Some: "reads_all s t \<Longrightarrow> s v = Some x \<Longrightarrow> t v \<noteq> None"
  by (auto dest: reads_allD)

lemma validated_is_read:
  assumes "validatePricingRuleConfig v ty c"
  shows "engine_reads v ty c"
proof -
  from assms obtain s u where s: "config_schema v ty = Some s" "s (Some c) = Some u"
    by (auto simp: validatePricingRuleConfig_def split: option.splits)
  note r = read_Some [OF indoor_reads] read_Some [OF outdoor_reads] read_Some [OF allowance_reads] read_Some [OF conditional_reads]
    plain_reads [THEN read_Some] read_Some [OF profile_reads] read_Some [OF glass_reads] read_Some [OF hardware_reads]
    coded_reads [THEN read_Some] read_Some [OF transport_reads] read_Some [OF area_discount_reads]
  show ?thesis using s
    by (cases "(v, ty)" rule: config_schema.cases) (auto dest!: z_first_of_Some dest: r)
qed

text \<open>The operations as steps of one system.\<close>

datatype admin_op = Create_Rule uuid uuid rule_input | Update_Rule uuid uuid rule_patch | Deactivate_Rule uuid uuid

fun admin :: "admin_op \<Rightarrow> rule_store \<Rightarrow> rule_store" where
  "admin (Create_Rule i orgId x) s = snd (create_rule i orgId x s)"
| "admin (Update_Rule orgId i p) s = snd (update_rule orgId i p s)"
| "admin (Deactivate_Rule orgId i) s = snd (deactivate_rule orgId i s)"

fun admin_org :: "admin_op \<Rightarrow> uuid" where
  "admin_org (Create_Rule i orgId x) = orgId"
| "admin_org (Update_Rule orgId i p) = orgId"
| "admin_org (Deactivate_Rule orgId i) = orgId"

definition rules_readable :: "rule_store \<Rightarrow> bool" where
  "rules_readable s \<longleftrightarrow> (\<forall>(i, r) \<in> set s. case pr_vertical r of None \<Rightarrow> True | Some v \<Rightarrow> engine_reads v (rule_type r) (config r))"

definition rows_of_others :: "uuid \<Rightarrow> rule_store \<Rightarrow> rule_store" where
  "rows_of_others orgId s = filter (\<lambda>(i, r). pr_org_id r \<noteq> orgId) s"

lemma filter_update_where_other:
  "(\<And>x. P x \<Longrightarrow> \<not> Q x \<and> \<not> Q (f x)) \<Longrightarrow> filter Q (update_where P f xs) = filter Q xs"
  by (induction xs) auto

text \<open>Ids are unique, so the row the update finds is the row it writes.\<close>

lemma update_rule_keeps:
  assumes "rules_readable s" and "distinct (map fst s)"
  shows "rules_readable (snd (update_rule orgId i p s)) \<and> map fst (snd (update_rule orgId i p s)) = map fst s \<and>
    rows_of_others orgId (snd (update_rule orgId i p s)) = rows_of_others orgId s"
proof (cases "snd (update_rule orgId i p s) = s")
  case False
  then obtain r v where r: "find_rule orgId i s = Some r" "pr_vertical (patched p r) = Some v"
    "validatePricingRuleConfig v (rule_type (patched p r)) (config (patched p r))"
    and s': "snd (update_rule orgId i p s) = update_where (\<lambda>(k, r). k = i \<and> pr_org_id r = orgId) (\<lambda>(k, r). (k, patched p r)) s"
    by (auto simp: update_rule_def Let_def split: option.splits if_splits)
  from r(1) obtain k where "find (\<lambda>(k, r). k = i \<and> pr_org_id r = orgId) s = Some (k, r)" by (auto simp: find_rule_def)
  from find_Some_set [OF this] have mem: "(i, r) \<in> set s" by auto
  have "rules_readable (snd (update_rule orgId i p s))"
    unfolding rules_readable_def s'
  proof (intro ballI)
    fix x assume "x \<in> set (update_where (\<lambda>(k, r). k = i \<and> pr_org_id r = orgId) (\<lambda>(k, r). (k, patched p r)) s)"
    then obtain y where y: "y \<in> set s" "x = (if (case y of (k, r) \<Rightarrow> k = i \<and> pr_org_id r = orgId) then (case y of (k, r) \<Rightarrow> (k, patched p r)) else y)"
      unfolding set_update_where by (rule imageE) simp
    obtain k q where kq: "y = (k, q)" by (cases y)
    with y have q: "(k, q) \<in> set s" "x = (if k = i \<and> pr_org_id q = orgId then (k, patched p q) else (k, q))" by simp_all
    show "case x of (i, r) \<Rightarrow> case pr_vertical r of None \<Rightarrow> True | Some v \<Rightarrow> engine_reads v (rule_type r) (config r)"
    proof (cases "k = i \<and> pr_org_id q = orgId")
      case True
      with q(1) mem assms(2) have "q = r" by (metis eq_key_imp_eq_value)
      with True q(2) r(2,3) validated_is_read show ?thesis by simp
    next
      case False
      with q assms(1) show ?thesis by (auto simp: rules_readable_def)
    qed
  qed
  moreover have "map fst (snd (update_rule orgId i p s)) = map fst s" unfolding s' by (rule map_update_where) (simp add: case_prod_beta)
  moreover have "rows_of_others orgId (snd (update_rule orgId i p s)) = rows_of_others orgId s"
    unfolding s' rows_of_others_def by (rule filter_update_where_other) (auto simp: patched_def)
  ultimately show ?thesis by simp
qed (use assms in simp)

lemma create_rule_keeps:
  assumes "rules_readable s"
  shows "rules_readable (snd (create_rule i orgId x s)) \<and> set (map fst (snd (create_rule i orgId x s))) \<subseteq> insert i (set (map fst s)) \<and>
    rows_of_others orgId (snd (create_rule i orgId x s)) = rows_of_others orgId s"
  using assms by (auto simp: create_rule_def Let_def rules_readable_def rows_of_others_def validated_is_read)

text \<open>The ids the creations take are the ones the database generates: no row has them.\<close>

fun created :: "admin_op list \<Rightarrow> uuid list" where
  "created [] = []"
| "created (Create_Rule i orgId x # ops) = i # created ops"
| "created (Update_Rule orgId i p # ops) = created ops"
| "created (Deactivate_Rule orgId i # ops) = created ops"

definition ids_ok :: "admin_op list \<Rightarrow> rule_store \<Rightarrow> bool" where
  "ids_ok ops s \<longleftrightarrow> distinct (map fst s @ created ops)"

lemma admin_keeps:
  assumes "rules_readable s" and "ids_ok (x # ops) s"
  shows "rules_readable (admin x s) \<and> ids_ok ops (admin x s) \<and> rows_of_others (admin_org x) (admin x s) = rows_of_others (admin_org x) s"
proof (cases x)
  case (Create_Rule i orgId c)
  have "ids_ok ops (snd (create_rule i orgId c s))"
    using assms(2) by (auto simp: Create_Rule create_rule_def Let_def ids_ok_def)
  then show ?thesis using create_rule_keeps [OF assms(1)] by (simp add: Create_Rule)
next
  case (Update_Rule orgId i p)
  have d: "distinct (map fst s)" using assms(2) by (simp add: ids_ok_def)
  from update_rule_keeps [OF assms(1) d] have "ids_ok ops (snd (update_rule orgId i p s))"
    using assms(2) by (simp only: Update_Rule ids_ok_def created.simps simp_thms)
  then show ?thesis using update_rule_keeps [OF assms(1) d] by (simp add: Update_Rule)
next
  case (Deactivate_Rule orgId i)
  have d: "distinct (map fst s)" using assms(2) by (simp add: ids_ok_def)
  from update_rule_keeps [OF assms(1) d] have "ids_ok ops (snd (deactivate_rule orgId i s))"
    using assms(2) by (simp only: Deactivate_Rule deactivate_rule_def ids_ok_def created.simps simp_thms)
  then show ?thesis using update_rule_keeps [OF assms(1) d] by (simp add: Deactivate_Rule deactivate_rule_def)
qed

lemma rows_of_others_sub: "orgId \<noteq> o' \<Longrightarrow>
  filter (\<lambda>(i, r). pr_org_id r = orgId) s = filter (\<lambda>(i, r). pr_org_id r = orgId) (rows_of_others o' s)"
  unfolding rows_of_others_def filter_filter by (rule filter_cong) auto

definition rows_of :: "uuid \<Rightarrow> rule_store \<Rightarrow> rule_store" where
  "rows_of orgId s = filter (\<lambda>(i, r). pr_org_id r = orgId) s"

lemma admin_runs:
  "rules_readable s \<Longrightarrow> ids_ok ops s \<Longrightarrow> rules_readable (fold admin ops s) \<and>
    (\<forall>orgId. orgId \<notin> admin_org ` set ops \<longrightarrow> rows_of orgId (fold admin ops s) = rows_of orgId s)"
proof (induction ops arbitrary: s)
  case (Cons x ops)
  note k = admin_keeps [OF Cons.prems]
  have "rows_of orgId (admin x s) = rows_of orgId s" if "orgId \<noteq> admin_org x" for orgId
    using rows_of_others_sub [OF that, of s] rows_of_others_sub [OF that, of "admin x s"] k by (simp add: rows_of_def)
  with Cons.IH [of "admin x s"] k show ?case by (simp add: fold_Cons)
qed simp


definition margin_rule :: rule_input where
  "margin_rule = \<lparr>in_vertical = Avac, in_rule_key = '' margin '', in_rule_type = Margin_Markup,
     in_config = JObj [(''percentage'', JNum 20)], in_sort_order = 90, in_active = True\<rparr>"


text \<open>Deactivating revalidates the configuration: a rule the validator does not accept stays active.\<close>

lemma deactivate_unreadable:
  assumes "find_rule orgId i s = Some r"
    and "\<And>v. pr_vertical r = Some v \<Longrightarrow> \<not> validatePricingRuleConfig v (rule_type r) (config r)"
  shows "\<exists>e. deactivate_rule orgId i s = (Inl e, s)"
  using assms by (auto simp: deactivate_rule_def update_rule_def patched_def no_patch_def Let_def split: option.splits)

lemma deactivated:
  assumes "find_rule orgId i s = Some r" and "pr_vertical r = Some v" and "validatePricingRuleConfig v (rule_type r) (config r)"
    and "distinct (map fst s)"
  shows "find_rule orgId i (snd (deactivate_rule orgId i s)) = Some (r\<lparr>pr_active := False\<rparr>)"
proof -
  have p: "patched (no_patch\<lparr>pt_active := Some False\<rparr>) = (\<lambda>r. r\<lparr>pr_active := False\<rparr>)"
    by (auto simp: patched_def no_patch_def fun_eq_iff)
  have "find_rule orgId i (update_where (\<lambda>(k, r). k = i \<and> pr_org_id r = orgId) (\<lambda>(k, r). (k, r\<lparr>pr_active := False\<rparr>)) s)
      = map_option (\<lambda>r. r\<lparr>pr_active := False\<rparr>) (find_rule orgId i s)" for s
    unfolding find_rule_def by (induction s) (auto split: if_splits)
  with assms p show ?thesis by (simp add: deactivate_rule_def update_rule_def)
qed

end
