(* ===== verification/Clarifications.thy ===== *)
theory Clarifications
  imports Extract_Node Request_Store Guarded_Update
begin

text \<open>
  The questions an estimator sends back to a customer: the tool that drafts them
  (\<open>clarification/tools/draft-clarification.tool.ts\<close>), the statements of
  \<open>clarification/actions/clarification.actions.ts\<close>, the handlers of \<open>clarification/clarification.service.ts\<close>,
  and the system in which any number of them run at the same time. A handler reads, decides and runs one
  conditional statement; \<open>clar_write\<close> is the decision, so that other handlers can commit between the two.
\<close>

section \<open>The drafting tool\<close>

definition draft_prompt :: "string list \<Rightarrow> string" where
  "draft_prompt gs =
     ''Generate a clarification email for a B2B quote request that has missing information.'' @ newline @ newline @
     ''The following information gaps were detected:'' @ newline @
     concat (map (\<lambda>(k, g). (if k = 0 then [] else newline) @ ''- '' @ g) (enumerate (0 :: nat) gs)) @ newline @ newline @
     ''Return ONLY valid JSON with no markdown or prose:'' @ newline @
     ''{'' @ newline @
     ''  \"draft_subject\": \"A concise subject line requesting clarification\",'' @ newline @
     ''  \"draft_body\": \"A professional email body listing each gap as a bullet point, requesting the customer to provide the missing details.\"'' @ newline @
     ''}'' @ newline @ newline @
     ''The email should be polite and professional. Address the customer directly and list each missing item clearly.''"

text \<open>
  The environment: the check of a uuid, the language model and the JSON reader, whether the audit trail and the
  call log accept a row, and the identifier the database gives a new row.
\<close>

record clar_env =
  ce_is_uuid :: "string \<Rightarrow> bool"
  ce_llm :: "string \<Rightarrow> string option"
  ce_json :: "string \<Rightarrow> json option"
  ce_audit :: "db \<Rightarrow> bool"
  ce_log_ok :: bool
  ce_new_id :: uuid

text \<open>The gaps reach the prompt trimmed, as the schema returns them.\<close>

definition DraftClarificationInputSchema :: "clar_env \<Rightarrow> string list \<times> uuid \<Rightarrow> (string list \<times> uuid) option" where
  "DraftClarificationInputSchema e = (\<lambda>(gs, r).
     if gs \<noteq> [] \<and> (\<forall>g \<in> set gs. trim g \<noteq> []) \<and> ce_is_uuid e r then Some (map trim gs, r) else None)"

definition DraftClarificationOutputSchema :: "(string \<times> string) schema" where
  "DraftClarificationOutputSchema v = do {
     ob \<leftarrow> z_object v;
     s \<leftarrow> z_nonempty_string (field ''draft_subject'' ob);
     b \<leftarrow> z_nonempty_string (field ''draft_body'' ob);
     Some (s, b) }"

definition draft_execute :: "clar_env \<Rightarrow> string list \<times> uuid \<Rightarrow> (string \<times> string) option" where
  "draft_execute e i = do {
     answer \<leftarrow> ce_llm e (draft_prompt (fst i));
     parsed \<leftarrow> ce_json e (cleaned (trim answer));
     DraftClarificationOutputSchema (Some parsed) }"

definition draft_contract :: "clar_env \<Rightarrow> (string list \<times> uuid, string list \<times> uuid, string \<times> string, string \<times> string) contract" where
  "draft_contract e = \<lparr>inputSchema = DraftClarificationInputSchema e, execute = draft_execute e,
     outputSchema = (\<lambda>(s, b). if s \<noteq> [] \<and> b \<noteq> [] then Some (s, b) else None)\<rparr>"

section \<open>The statements\<close>

definition in_scope :: "uuid option \<Rightarrow> uuid \<Rightarrow> db \<Rightarrow> bool" where
  "in_scope orgId r d = (case orgId of None \<Rightarrow> True | Some org \<Rightarrow> org = [] \<or> request_in_org r org d)"

definition clar_by_request :: "uuid \<Rightarrow> uuid option \<Rightarrow> db \<Rightarrow> clarification option" where
  "clar_by_request r orgId d = find (\<lambda>c. cl_request_id c = r \<and> in_scope orgId r d) (clarifications d)"

definition findByIdWithOrg :: "uuid \<Rightarrow> uuid option \<Rightarrow> db \<Rightarrow> clarification option" where
  "findByIdWithOrg i orgId d = find (\<lambda>c. cl_id c = i \<and> in_scope orgId (cl_request_id c) d) (clarifications d)"

definition findRequestOrgId :: "uuid \<Rightarrow> db \<Rightarrow> uuid option" where
  "findRequestOrgId r d = map_option r_org_id (find_request r d)"

definition unsent :: "uuid \<Rightarrow> clarification \<Rightarrow> bool" where
  "unsent i c \<longleftrightarrow> cl_id c = i \<and> cl_sent_at c = None"

text \<open>The conditional update of an unsent row, and the read that follows it.\<close>

definition update_unsent :: "uuid \<Rightarrow> (clarification \<Rightarrow> clarification) \<Rightarrow> db \<Rightarrow> clarification option \<times> db" where
  "update_unsent i f d =
     (if affected (unsent i) (clarifications d) = 0 then (None, d)
      else (let d = d\<lparr>clarifications := update_where (unsent i) f (clarifications d)\<rparr> in (findByIdWithOrg i None d, d)))"

definition updateDraft_row :: "uuid \<Rightarrow> string option \<Rightarrow> string option \<Rightarrow> string list option \<Rightarrow> db \<Rightarrow> clarification option \<times> db" where
  "updateDraft_row i s b gs = update_unsent i (\<lambda>c. c\<lparr>draft_subject := s, draft_body := b,
     gaps := (case gs of None \<Rightarrow> gaps c | Some gs \<Rightarrow> gs)\<rparr>)"

text \<open>An \<open>undefined\<close> sender leaves its column as it is.\<close>

definition mark_clarification_sent :: "uuid \<Rightarrow> uuid option \<Rightarrow> db \<Rightarrow> clarification option \<times> db" where
  "mark_clarification_sent i sentBy d = update_unsent i (\<lambda>c. c\<lparr>cl_sent_at := Some (clock d),
     cl_sent_by := (case sentBy of None \<Rightarrow> cl_sent_by c | Some u \<Rightarrow> Some u)\<rparr>) d"

text \<open>The insertion, refused by the unique index on the request and by the foreign key.\<close>

definition create_clarification :: "clarification \<Rightarrow> db \<Rightarrow> db option" where
  "create_clarification c d =
     (if cl_request_id c \<in> cl_request_id ` set (clarifications d) \<or> find_request (cl_request_id c) d = None then None
      else Some (d\<lparr>clarifications := clarifications d @ [c]\<rparr>))"

section \<open>The handlers\<close>

datatype clar_error =
    No_Gaps | Clar_Not_Found | Draft_Parse_Failed | Already_Sent | Send_Actor_Required | Draft_Empty | Database_Error

type_synonym clar_result = "clar_error + clarification"

datatype clar_write =
    Answer clar_result
  | Save_Draft uuid "string option" "string option" "string list option"
  | Insert_Draft uuid "string list" string string
  | Mark_Sent uuid "uuid option" "uuid option"

text \<open>
  The second half of a handler. A row that could not be marked is read again; sent rows never change, so it makes
  no difference whether another handler commits before that read.
\<close>

fun do_write :: "uuid \<Rightarrow> clar_write \<Rightarrow> db \<Rightarrow> clar_result \<times> db" where
  "do_write n (Answer x) d = (x, d)"
| "do_write n (Save_Draft i s b gs) d =
     (case updateDraft_row i s b gs d of (None, d) \<Rightarrow> (Inl Clar_Not_Found, d) | (Some c, d) \<Rightarrow> (Inr c, d))"
| "do_write n (Insert_Draft r gs s b) d =
     (let c = \<lparr>cl_id = n, cl_request_id = r, gaps = gs, draft_subject = Some s, draft_body = Some b, cl_sent_at = None, cl_sent_by = None\<rparr>
      in case create_clarification c d of None \<Rightarrow> (Inl Database_Error, d) | Some d \<Rightarrow> (Inr c, d))"
| "do_write n (Mark_Sent i sentBy orgId) d =
     (case mark_clarification_sent i sentBy d of
        (Some c, d) \<Rightarrow> (Inr c, d)
      | (None, d) \<Rightarrow>
          (case findByIdWithOrg i orgId d of
             Some c \<Rightarrow> if cl_sent_at c \<noteq> None then (Inr c, d) else (Inl Clar_Not_Found, d)
           | None \<Rightarrow> (Inl Clar_Not_Found, d)))"

definition generate_write :: "uuid \<Rightarrow> string list \<Rightarrow> (string \<times> string) option \<Rightarrow> db \<Rightarrow> clar_write" where
  "generate_write r gs drafted d =
     (case clar_by_request r None d of
        Some existing \<Rightarrow>
          (case drafted of
             None \<Rightarrow> Answer (Inr existing)
           | Some (s, b) \<Rightarrow>
               if cl_sent_at existing \<noteq> None then Answer (Inr existing)
               else Save_Draft (cl_id existing) (Some s) (Some b) (Some gs))
      | None \<Rightarrow>
          (case drafted of None \<Rightarrow> Answer (Inl Draft_Parse_Failed) | Some (s, b) \<Rightarrow> Insert_Draft r gs s b))"

definition drafted_by :: "clar_env \<Rightarrow> uuid \<Rightarrow> string list \<Rightarrow> db \<Rightarrow> (string \<times> string) option \<times> db" where
  "drafted_by e r gs d =
     (case toToolName ''draft_clarification'' of
        None \<Rightarrow> (None, d)
      | Some name \<Rightarrow>
          (case invoke (ce_audit e) (ce_log_ok e) [''draft_clarification'' \<mapsto> draft_contract e] name (gs, r) (Some r) 1 None d of
             (Tool_Ok x, d) \<Rightarrow> (Some x, d)
           | (_, d) \<Rightarrow> (None, d)))"

definition generateDraft :: "clar_env \<Rightarrow> uuid \<Rightarrow> string list \<Rightarrow> uuid option \<Rightarrow> db \<Rightarrow> clar_result \<times> db" where
  "generateDraft e r gs orgId d =
     (if gs = [] \<or> (\<exists>g \<in> set gs. trim g = []) then (Inl No_Gaps, d)
      else if orgId \<noteq> None \<and> (findRequestOrgId r d = None \<or> findRequestOrgId r d = Some [] \<or> findRequestOrgId r d \<noteq> orgId)
        then (Inl Clar_Not_Found, d)
      else
        (let (drafted, d) = drafted_by e r gs d in
         do_write (ce_new_id e) (generate_write r gs drafted d) d))"

definition getByRequestId :: "uuid \<Rightarrow> uuid option \<Rightarrow> db \<Rightarrow> clar_result" where
  "getByRequestId r orgId d = (case clar_by_request r orgId d of None \<Rightarrow> Inl Clar_Not_Found | Some c \<Rightarrow> Inr c)"

definition getById :: "uuid \<Rightarrow> uuid option \<Rightarrow> db \<Rightarrow> clar_result" where
  "getById i orgId d = (case findByIdWithOrg i orgId d of None \<Rightarrow> Inl Clar_Not_Found | Some c \<Rightarrow> Inr c)"

definition edit_write :: "uuid \<Rightarrow> string option \<Rightarrow> string option \<Rightarrow> uuid option \<Rightarrow> db \<Rightarrow> clar_write" where
  "edit_write i s b orgId d =
     (case getById i orgId d of
        Inl x \<Rightarrow> Answer (Inl x)
      | Inr existing \<Rightarrow>
          if cl_sent_at existing \<noteq> None then Answer (Inl Already_Sent)
          else Save_Draft i (case s of None \<Rightarrow> draft_subject existing | Some s \<Rightarrow> Some s)
                 (case b of None \<Rightarrow> draft_body existing | Some b \<Rightarrow> Some b) None)"

definition updateDraft :: "uuid \<Rightarrow> string option \<Rightarrow> string option \<Rightarrow> uuid option \<Rightarrow> db \<Rightarrow> clar_result \<times> db" where
  "updateDraft i s b orgId d = do_write [] (edit_write i s b orgId d) d"

definition blank :: "string option \<Rightarrow> bool" where
  "blank s = (case s of None \<Rightarrow> True | Some s \<Rightarrow> trim s = [])"

definition send_write :: "uuid \<Rightarrow> uuid option \<Rightarrow> uuid option \<Rightarrow> db \<Rightarrow> clar_write" where
  "send_write i sentBy orgId d =
     (if orgId \<noteq> None \<and> (sentBy = None \<or> sentBy = Some []) then Answer (Inl Send_Actor_Required)
      else
        (case getById i orgId d of
           Inl x \<Rightarrow> Answer (Inl x)
         | Inr c \<Rightarrow>
             if cl_sent_at c \<noteq> None then Answer (Inr c)
             else if blank (draft_subject c) \<or> blank (draft_body c) then Answer (Inl Draft_Empty)
             else Mark_Sent i sentBy orgId))"

definition send_clarification :: "uuid \<Rightarrow> uuid option \<Rightarrow> uuid option \<Rightarrow> db \<Rightarrow> clar_result \<times> db" where
  "send_clarification i sentBy orgId d = do_write [] (send_write i sentBy orgId d) d"

section \<open>The system\<close>

text \<open>
  The database and the handlers that have read and not yet written. The other components leave the clarifications
  alone; a new row has an identifier no row has.
\<close>

record clar_sys =
  cs_db :: db
  cs_open :: "clar_write list"

inductive clar_step :: "clar_sys \<Rightarrow> clar_sys \<Rightarrow> bool" where
  generate: "drafted = Some (s, b) \<longrightarrow> s \<noteq> [] \<and> b \<noteq> [] \<Longrightarrow>
    clar_step c (c\<lparr>cs_open := cs_open c @ [generate_write r gs drafted (cs_db c)]\<rparr>)"
| edit: "clar_step c (c\<lparr>cs_open := cs_open c @ [edit_write i sj bd orgId (cs_db c)]\<rparr>)"
| send_req: "clar_step c (c\<lparr>cs_open := cs_open c @ [send_write i sentBy orgId (cs_db c)]\<rparr>)"
| finish: "k < length (cs_open c) \<Longrightarrow> n \<notin> cl_id ` set (clarifications (cs_db c)) \<Longrightarrow>
    clar_step c \<lparr>cs_db = snd (do_write n (cs_open c ! k) (cs_db c)), cs_open = take k (cs_open c) @ drop (Suc k) (cs_open c)\<rparr>"
| elsewhere: "clarifications d = clarifications (cs_db c) \<Longrightarrow> clar_step c (c\<lparr>cs_db := d\<rparr>)"

text \<open>What a statement does to the rows: nothing, an update of the unsent row of an id, or a new unsent row.\<close>

lemma update_unsent_rows:
  "clarifications (snd (update_unsent i f d)) = update_where (unsent i) f (clarifications d)"
  by (simp add: update_unsent_def Let_def update_where_none)

lemma do_write_rows:
  obtains (Same) "clarifications (snd (do_write n w d)) = clarifications d"
  | (Update) i f where "clarifications (snd (do_write n w d)) = update_where (unsent i) f (clarifications d)"
      "\<And>c. cl_id (f c) = cl_id c" "\<And>c. cl_request_id (f c) = cl_request_id c"
  | (Insert) c where "clarifications (snd (do_write n w d)) = clarifications d @ [c]"
      "cl_id c = n" "cl_request_id c \<notin> cl_request_id ` set (clarifications d)" "cl_sent_at c = None"
proof (cases w)
  case (Answer x)
  then show ?thesis using Same by simp
next
  case (Save_Draft i s b gs)
  let ?f = "\<lambda>c. c\<lparr>draft_subject := s, draft_body := b, gaps := (case gs of None \<Rightarrow> gaps c | Some gs \<Rightarrow> gs)\<rparr>"
  have "clarifications (snd (do_write n w d)) = update_where (unsent i) ?f (clarifications d)"
    unfolding update_unsent_rows [symmetric] Save_Draft
    by (simp add: updateDraft_row_def split: prod.split option.split)
  then show ?thesis by (rule Update) simp_all
next
  case (Insert_Draft r gs s b)
  let ?c = "\<lparr>cl_id = n, cl_request_id = r, gaps = gs, draft_subject = Some s, draft_body = Some b, cl_sent_at = None, cl_sent_by = None\<rparr>"
  show ?thesis
  proof (cases "create_clarification ?c d")
    case None
    then show ?thesis using Same by (simp add: Insert_Draft Let_def)
  next
    case (Some d')
    then have new: "r \<notin> cl_request_id ` set (clarifications d)" "d' = d\<lparr>clarifications := clarifications d @ [?c]\<rparr>"
      by (auto simp: create_clarification_def split: if_splits)
    show ?thesis by (rule Insert [of ?c]) (use Some new in \<open>simp_all add: Insert_Draft Let_def\<close>)
  qed
next
  case (Mark_Sent i sentBy orgId)
  let ?f = "\<lambda>c. c\<lparr>cl_sent_at := Some (clock d), cl_sent_by := (case sentBy of None \<Rightarrow> cl_sent_by c | Some u \<Rightarrow> Some u)\<rparr>"
  have "clarifications (snd (do_write n w d)) = update_where (unsent i) ?f (clarifications d)"
    unfolding update_unsent_rows [symmetric] Mark_Sent
    by (simp add: mark_clarification_sent_def split: prod.split option.split)
  then show ?thesis by (rule Update) simp_all
qed

definition clar_ok :: "clar_sys \<Rightarrow> bool" where
  "clar_ok c \<longleftrightarrow> distinct (map cl_id (clarifications (cs_db c))) \<and> distinct (map cl_request_id (clarifications (cs_db c)))"

lemma clar_step_keeps:
  assumes "clar_step c c'"
  shows "(clar_ok c \<longrightarrow> clar_ok c') \<and>
    (\<forall>x \<in> set (clarifications (cs_db c)). cl_sent_at x \<noteq> None \<longrightarrow> x \<in> set (clarifications (cs_db c')))"
  using assms
proof cases
  case (finish k n)
  let ?w = "cs_open c ! k" and ?d = "cs_db c"
  have d': "cs_db c' = snd (do_write n ?w ?d)" using finish(1) by simp
  show ?thesis
  proof (cases rule: do_write_rows [of n ?w ?d])
    case Same
    then show ?thesis by (simp add: clar_ok_def d')
  next
    case (Update i f)
    have "map cl_id (clarifications (cs_db c')) = map cl_id (clarifications ?d)"
      "map cl_request_id (clarifications (cs_db c')) = map cl_request_id (clarifications ?d)"
      unfolding d' Update(1) by (rule map_update_where; rule Update)+
    moreover have "x \<in> set (clarifications (cs_db c'))" if "x \<in> set (clarifications ?d)" "cl_sent_at x \<noteq> None" for x
      unfolding d' Update(1) set_update_where using that by (intro image_eqI [of _ _ x]) (auto simp: unsent_def)
    ultimately show ?thesis by (simp add: clar_ok_def)
  next
    case (Insert x)
    with finish(3) show ?thesis by (auto simp: clar_ok_def d')
  qed
qed (auto simp: clar_ok_def)

lemma clar_runs_keep:
  assumes "rtranclp clar_step c c'"
  shows "(clar_ok c \<longrightarrow> clar_ok c') \<and>
    (\<forall>x \<in> set (clarifications (cs_db c)). cl_sent_at x \<noteq> None \<longrightarrow> x \<in> set (clarifications (cs_db c')))"
  using assms
proof induction
  case (step c' c'')
  from clar_step_keeps [OF step.hyps(2)] step.IH show ?case by blast
qed simp

lemma clar_by_request_unique:
  assumes "clar_ok c" and "x \<in> set (clarifications (cs_db c))"
  shows "clar_by_request (cl_request_id x) None (cs_db c) = Some x"
proof -
  have "find (\<lambda>c. cl_request_id c = cl_request_id x) xs = Some x"
    if "distinct (map cl_request_id xs)" "x \<in> set xs" for xs using that by (induction xs) auto
  with assms show ?thesis by (simp add: clar_ok_def clar_by_request_def in_scope_def)
qed

text \<open>
  C26. However the drafting, editing and sending of any number of users interleave, and whatever the rest of the
  program does, a clarification that was sent stays exactly as it was sent, and stays the one its request answers with.
\<close>

theorem sent_clarification_is_final:
  assumes "clar_ok c" and "rtranclp clar_step c c'" and "x \<in> set (clarifications (cs_db c))" and "cl_sent_at x \<noteq> None"
  shows "clar_ok c' \<and> x \<in> set (clarifications (cs_db c')) \<and> clar_by_request (cl_request_id x) None (cs_db c') = Some x"
  using clar_runs_keep [OF assms(2)] assms(1,3,4) clar_by_request_unique [of c' x] by blast

definition asked :: clarification where
  "asked = \<lparr>cl_id = ''c1'', cl_request_id = ''r1'', gaps = [''width''], draft_subject = Some ''Medidas'', draft_body = Some ''Qual?'',
     cl_sent_at = None, cl_sent_by = None\<rparr>"

definition asked_db :: "clarification list \<Rightarrow> db" where
  "asked_db cs = empty_db\<lparr>requests := [demo_request ''org'' Done St_Needs_Review], clarifications := cs, clock := 7\<rparr>"

definition sent_row :: clarification where
  "sent_row = asked\<lparr>cl_sent_at := Some 7, cl_sent_by := Some ''u1''\<rparr>"

theorem sent_clarification_is_final_witness:
  "\<exists>c'. rtranclp clar_step \<lparr>cs_db = asked_db [sent_row], cs_open = [Save_Draft ''c1'' None None None]\<rparr> c' \<and>
     cs_open c' = [] \<and> clar_by_request ''r1'' None (cs_db c') = Some sent_row"
proof -
  let ?c = "\<lparr>cs_db = asked_db [sent_row], cs_open = [Save_Draft ''c1'' None None None]\<rparr>"
  have ok: "clar_ok ?c" and mem: "sent_row \<in> set (clarifications (cs_db ?c))" "cl_sent_at sent_row \<noteq> None"
    by (simp_all add: clar_ok_def asked_db_def sent_row_def)
  have "clar_step ?c \<lparr>cs_db = snd (do_write ''n'' (cs_open ?c ! 0) (cs_db ?c)), cs_open = take 0 (cs_open ?c) @ drop (Suc 0) (cs_open ?c)\<rparr>"
    by (rule clar_step.finish) (simp_all add: asked_db_def sent_row_def asked_def)
  then have run: "rtranclp clar_step ?c \<lparr>cs_db = snd (do_write ''n'' (cs_open ?c ! 0) (cs_db ?c)), cs_open = []\<rparr>" by simp
  from sent_clarification_is_final [OF ok run mem] run show ?thesis
    by (intro exI [of _ "\<lparr>cs_db = snd (do_write ''n'' (cs_open ?c ! 0) (cs_db ?c)), cs_open = []\<rparr>"]) (simp add: sent_row_def asked_def)
qed

text \<open>Of the senders that find a clarification unsent, the first marks it and the others are answered with its row.\<close>

definition mark_rows :: "uuid \<Rightarrow> millis \<Rightarrow> uuid option \<Rightarrow> clarification list \<Rightarrow> bool \<times> clarification list" where
  "mark_rows i t sentBy rows = (0 < affected (unsent i) rows, update_where (unsent i)
     (\<lambda>c. c\<lparr>cl_sent_at := Some t, cl_sent_by := (case sentBy of None \<Rightarrow> cl_sent_by c | Some u \<Rightarrow> Some u)\<rparr>) rows)"

interpretation cs: guarded_update "\<lambda>rows. 0 < affected (unsent i) rows" "mark_rows i t" for i t
  unfolding mark_rows_def by (rule guarded_update_table) (simp add: unsent_def)

lemma mark_sent_rows:
  "mark_clarification_sent i sentBy d =
     (let (won, rows) = mark_rows i (clock d) sentBy (clarifications d); d' = d\<lparr>clarifications := rows\<rparr> in
      (if won then findByIdWithOrg i None d' else None, if won then d' else d))"
  by (simp add: mark_clarification_sent_def update_unsent_def mark_rows_def Let_def)

lemma one_sender: "length (filter (\<lambda>won. won) (fst (run_attempts (mark_rows i t) users rows))) =
    (if 0 < affected (unsent i) rows \<and> users \<noteq> [] then 1 else 0)"
  by (rule cs.one_winner)

text \<open>A send that runs on its own: it answers with a sent row, which had a text when this call marked it.\<close>

lemma getById_Inr: "getById i orgId d = Inr c \<Longrightarrow> c \<in> set (clarifications d) \<and> cl_id c = i"
  by (auto simp: getById_def findByIdWithOrg_def split: option.splits dest: find_Some_set)

lemma send_outcome:
  assumes "send_clarification i sentBy orgId d = (Inr c, d')" and "distinct (map cl_id (clarifications d))"
  shows "cl_id c = i \<and> cl_sent_at c \<noteq> None \<and> c \<in> set (clarifications d') \<and>
    (d' = d \<or> (\<exists>b \<in> set (clarifications d). cl_sent_at b = None \<and> \<not> blank (draft_subject b) \<and> \<not> blank (draft_body b) \<and>
       c = b\<lparr>cl_sent_at := Some (clock d), cl_sent_by := (case sentBy of None \<Rightarrow> cl_sent_by b | Some u \<Rightarrow> Some u)\<rparr>))"
proof (cases "getById i orgId d")
  case (Inl x)
  then show ?thesis using assms(1) by (auto simp: send_clarification_def send_write_def split: if_splits)
next
  case (Inr b)
  note b = getById_Inr [OF Inr]
  show ?thesis
  proof (cases "cl_sent_at b = None")
    case False
    then show ?thesis using assms(1) Inr b by (auto simp: send_clarification_def send_write_def split: if_splits)
  next
    case True
    let ?f = "\<lambda>c. c\<lparr>cl_sent_at := Some (clock d), cl_sent_by := (case sentBy of None \<Rightarrow> cl_sent_by c | Some u \<Rightarrow> Some u)\<rparr>"
    have words: "\<not> blank (draft_subject b)" "\<not> blank (draft_body b)"
      and w: "(Inr c, d') = do_write [] (Mark_Sent i sentBy orgId) d"
      using assms(1) Inr True by (auto simp: send_clarification_def send_write_def split: if_splits)
    have u: "unsent i b" using b True by (simp add: unsent_def)
    have found: "find (\<lambda>c. cl_id c = i) (update_where (unsent i) ?f (clarifications d)) = Some (?f b)"
    proof -
      have "find (\<lambda>c. cl_id c = i) (update_where (unsent i) ?f xs) = Some (?f b)"
        if "distinct (map cl_id xs)" "b \<in> set xs" for xs
        using that u b by (induction xs) (auto simp: unsent_def)
      with assms(2) b show ?thesis by blast
    qed
    have "affected (unsent i) (clarifications d) \<noteq> 0" using u b by (metis affected_pos not_gr_zero)
    then have "mark_clarification_sent i sentBy d = (Some (?f b), d\<lparr>clarifications := update_where (unsent i) ?f (clarifications d)\<rparr>)"
      using found by (simp add: mark_clarification_sent_def update_unsent_def findByIdWithOrg_def in_scope_def Let_def)
    with w have c: "c = ?f b" "d' = d\<lparr>clarifications := update_where (unsent i) ?f (clarifications d)\<rparr>" by simp_all
    have "c \<in> set (clarifications d')" unfolding c using find_Some_set [OF found] by simp
    moreover have "cl_id c = i" "cl_sent_at c \<noteq> None" unfolding c using b by simp_all
    ultimately show ?thesis using b True words c(1) by blast
  qed
qed

text \<open>Not so among others: the text is checked when the row is read, and an edit can blank it before the row is marked.\<close>

lemma blank_text_can_be_sent:
  "\<exists>c' x. rtranclp clar_step \<lparr>cs_db = asked_db [asked], cs_open = []\<rparr> c' \<and>
     x \<in> set (clarifications (cs_db c')) \<and> cl_sent_at x \<noteq> None \<and> draft_body x = Some []"
proof -
  let ?d0 = "asked_db [asked]"
  let ?send = "send_write ''c1'' (Some ''u1'') (Some ''org'') ?d0" and ?edit = "edit_write ''c1'' None (Some []) (Some ''org'') ?d0"
  let ?d1 = "snd (do_write ''n'' ?edit ?d0)" let ?d2 = "snd (do_write ''n'' ?send ?d1)"
  have s1: "clar_step \<lparr>cs_db = ?d0, cs_open = []\<rparr> \<lparr>cs_db = ?d0, cs_open = [?send]\<rparr>"
    using clar_step.send_req [of "\<lparr>cs_db = ?d0, cs_open = []\<rparr>"] by simp
  have s2: "clar_step \<lparr>cs_db = ?d0, cs_open = [?send]\<rparr> \<lparr>cs_db = ?d0, cs_open = [?send, ?edit]\<rparr>"
    using clar_step.edit [of "\<lparr>cs_db = ?d0, cs_open = [?send]\<rparr>"] by simp
  have s3: "clar_step \<lparr>cs_db = ?d0, cs_open = [?send, ?edit]\<rparr> \<lparr>cs_db = ?d1, cs_open = [?send]\<rparr>"
    using clar_step.finish [of 1 "\<lparr>cs_db = ?d0, cs_open = [?send, ?edit]\<rparr>" "''n''"] by (simp add: asked_db_def asked_def)
  have s4: "clar_step \<lparr>cs_db = ?d1, cs_open = [?send]\<rparr> \<lparr>cs_db = ?d2, cs_open = []\<rparr>"
    using clar_step.finish [of 0 "\<lparr>cs_db = ?d1, cs_open = [?send]\<rparr>" "''n''"]
    by (simp, auto simp: asked_db_def asked_def edit_write_def getById_def findByIdWithOrg_def in_scope_def request_in_org_def
        demo_request_def updateDraft_row_def update_unsent_def unsent_def affected_def Let_def)
  have "rtranclp clar_step \<lparr>cs_db = ?d0, cs_open = []\<rparr> \<lparr>cs_db = ?d2, cs_open = []\<rparr>"
    by (rule converse_rtranclp_into_rtranclp, rule s1, rule converse_rtranclp_into_rtranclp, rule s2,
        rule converse_rtranclp_into_rtranclp, rule s3, rule r_into_rtranclp, rule s4)
  moreover have "clarifications ?d2 = [sent_row\<lparr>draft_body := Some []\<rparr>]" by code_simp
  ultimately show ?thesis
    by (intro exI [of _ "\<lparr>cs_db = ?d2, cs_open = []\<rparr>"] exI [of _ "sent_row\<lparr>draft_body := Some []\<rparr>"]) (simp add: sent_row_def)
qed

text \<open>A draft that could not be generated changes no clarification, and a sent one is answered as it is.\<close>

lemma drafted_by_frame: "tool_frame d (snd (drafted_by e r gs d))"
proof -
  have "tool_frame d (snd (invoke (ce_audit e) (ce_log_ok e) [''draft_clarification'' \<mapsto> draft_contract e] name (gs, r) (Some r) 1 None d))" for name
    by (rule invoke_frame)
  then show ?thesis
    by (cases "toToolName ''draft_clarification''") (simp_all add: drafted_by_def case_prod_beta split: tool_answer.split)
qed

lemma draft_failure_changes_nothing:
  assumes "fst (drafted_by e r gs d) = None"
  shows "clarifications (snd (generateDraft e r gs orgId d)) = clarifications d"
proof -
  obtain d1 where d1: "drafted_by e r gs d = (None, d1)" using assms by (cases "drafted_by e r gs d") auto
  have "clarifications d1 = clarifications d" using tool_frame_fields(10) [OF drafted_by_frame [of d e r gs]] d1 by simp
  then show ?thesis by (simp add: generateDraft_def d1 generate_write_def split: option.split)
qed

end
