(* ===== verification/Object_Store.thy ===== *)
theory Object_Store
  imports Parse_Node
begin

text \<open>
  The object store on the local file system (\<open>common/object-store/filesystem-object-store.ts\<close>): the root it is
  given, the confinement of keys to the root, and reading back what was stored. Paths are those of a POSIX host:
  an absolute path is the list of its components, as \<open>path.resolve\<close> leaves them.
\<close>

section \<open>Paths\<close>

type_synonym path = "string list"

fun segments :: "string \<Rightarrow> string list" where
  "segments [] = [[]]"
| "segments (c # cs) =
     (if c = CHR ''/'' then [] # segments cs
      else (case segments cs of s # ss \<Rightarrow> (c # s) # ss | [] \<Rightarrow> [[c]]))"

text \<open>The components so far, and the ones still to be read.\<close>

fun normalize_path :: "path \<Rightarrow> string list \<Rightarrow> path" where
  "normalize_path p [] = p"
| "normalize_path p (s # ss) =
     normalize_path (if s = [] \<or> s = ''.'' then p else if s = ''..'' then butlast p else p @ [s]) ss"

definition resolve :: "path \<Rightarrow> string \<Rightarrow> path" where
  "resolve base s = normalize_path (if take 1 s = ''/'' then [] else base) (segments s)"

definition join :: "string list \<Rightarrow> string" where
  "join ss = (case ss of [] \<Rightarrow> [] | s # ss \<Rightarrow> s @ concat (map (\<lambda>s. CHR ''/'' # s) ss))"

fun common :: "path \<Rightarrow> path \<Rightarrow> nat" where
  "common (x # xs) (y # ys) = (if x = y then Suc (common xs ys) else 0)"
| "common _ _ = 0"

definition relative :: "path \<Rightarrow> path \<Rightarrow> string" where
  "relative from dest = (let k = common from dest in join (replicate (length from - k) ''..'' @ drop k dest))"

section \<open>The store\<close>

datatype object_error = Url_Required | Unsupported_Scheme string | Key_Blank | Key_Traversal | Object_Not_Found | Io_Error

definition letter :: "char \<Rightarrow> bool" where
  "letter c \<longleftrightarrow> (let n = of_char c :: nat in 97 \<le> n \<and> n \<le> 122 \<or> 65 \<le> n \<and> n \<le> 90)"

definition digit :: "char \<Rightarrow> bool" where
  "digit c \<longleftrightarrow> (let n = of_char c :: nat in 48 \<le> n \<and> n \<le> 57)"

text \<open>The scheme of an address: the part before \<open>://\<close>, when it is one.\<close>

definition url_scheme :: "string \<Rightarrow> string option" where
  "url_scheme s =
     (let name = takeWhile (\<lambda>c. letter c \<or> digit c \<or> c \<in> set ''+.-'') s in
      if name \<noteq> [] \<and> letter (hd name) \<and> take 3 (drop (length name) s) = ''://'' then Some name else None)"

definition resolveStoreRoot :: "path \<Rightarrow> string \<Rightarrow> object_error + path" where
  "resolveStoreRoot cwd objectStoreUrl =
     (let trimmed = trim objectStoreUrl in
      if trimmed = [] then Inl Url_Required
      else
        (case url_scheme trimmed of
           Some sch \<Rightarrow>
             if lower_case sch \<noteq> ''file'' then Inl (Unsupported_Scheme sch)
             else (let path = trim (drop (length sch + 3) trimmed) in
               if path = [] then Inl Url_Required else Inr (resolve cwd path))
         | None \<Rightarrow> Inr (resolve cwd trimmed)))"

text \<open>The files by their path. Whether the host can write a file is an argument.\<close>

type_synonym file_store = "path \<Rightarrow> string option"

definition resolveKey :: "path \<Rightarrow> string \<Rightarrow> object_error + path" where
  "resolveKey rootdir key =
     (if trim key = [] then Inl Key_Blank
      else
        (let path = resolve rootdir key; rel = relative rootdir path in
         if take 2 rel = ''..'' \<or> take 1 rel = ''/'' then Inl Key_Traversal else Inr path))"

definition put_object :: "path \<Rightarrow> (path \<Rightarrow> bool) \<Rightarrow> string \<Rightarrow> string \<Rightarrow> file_store \<Rightarrow> (object_error + string) \<times> file_store" where
  "put_object rootdir can_write key bytes fs =
     (case resolveKey rootdir key of
        Inl e \<Rightarrow> (Inl e, fs)
      | Inr path \<Rightarrow> if can_write path then (Inr key, fs(path \<mapsto> bytes)) else (Inl Io_Error, fs))"

definition get_object :: "path \<Rightarrow> string \<Rightarrow> file_store \<Rightarrow> object_error + string" where
  "get_object rootdir storageUrl fs =
     (case resolveKey rootdir storageUrl of
        Inl e \<Rightarrow> Inl e
      | Inr path \<Rightarrow> (case fs path of None \<Rightarrow> Inl Object_Not_Found | Some bytes \<Rightarrow> Inr bytes))"

section \<open>Facts about paths\<close>

definition plain :: "string \<Rightarrow> bool" where
  "plain s \<longleftrightarrow> s \<noteq> [] \<and> s \<noteq> ''.'' \<and> s \<noteq> ''..'' \<and> CHR ''/'' \<notin> set s"

lemma segments_not_Nil [simp]: "segments s \<noteq> []"
  by (cases s) (auto split: list.splits)

lemma segments_no_slash: "x \<in> set (segments s) \<Longrightarrow> CHR ''/'' \<notin> set x"
  by (induction s arbitrary: x) (fastforce split: list.splits if_splits)+

lemma segments_plain: "CHR ''/'' \<notin> set s \<Longrightarrow> segments s = [s]"
  by (induction s) auto

lemma segments_append: "CHR ''/'' \<notin> set a \<Longrightarrow> segments (a @ CHR ''/'' # b) = a # segments b"
  by (induction a) auto

lemma normalize_plain: "list_all plain ss \<Longrightarrow> normalize_path p ss = p @ ss"
  by (induction ss arbitrary: p) (auto simp: plain_def)

lemma normalize_clean:
  "list_all plain p \<Longrightarrow> \<forall>s \<in> set ss. CHR ''/'' \<notin> set s \<Longrightarrow> list_all plain (normalize_path p ss)"
proof (induction ss arbitrary: p)
  case (Cons s ss)
  have "list_all plain (butlast p)" using Cons.prems(1) by (auto simp: list_all_iff dest: in_set_butlastD)
  moreover have "list_all plain (p @ [s])" if "s \<noteq> []" "s \<noteq> ''.''" "s \<noteq> ''..''" using Cons.prems that by (simp add: plain_def [of s])
  ultimately show ?case using Cons by simp
qed simp

lemma resolve_clean: "list_all plain base \<Longrightarrow> list_all plain (resolve base s)"
  unfolding resolve_def by (rule normalize_clean) (auto dest: segments_no_slash)

lemma common_take: "common xs ys \<le> length xs \<and> take (common xs ys) xs = take (common xs ys) ys"
  by (induction xs ys rule: common.induct) auto

lemma common_append [simp]: "common xs (xs @ ys) = length xs"
  by (induction xs) (cases ys, auto)

lemma relative_inside: "relative rootdir (rootdir @ p) = join p"
  by (simp add: relative_def)

lemma outside_starts_up:
  assumes "common rootdir p < length rootdir"
  shows "take 2 (relative rootdir p) = ''..''"
proof -
  obtain n where "length rootdir - common rootdir p = Suc n" using assms by (metis Suc_diff_Suc)
  then show ?thesis by (simp add: relative_def join_def Let_def)
qed

section \<open>Confinement\<close>

text \<open>Where a key the store accepts leads: below the root, whatever the key is.\<close>

lemma resolveKey_inside:
  assumes "resolveKey rootdir key = Inr p"
  shows "\<exists>rest. p = rootdir @ rest"
proof -
  have "take 2 (relative rootdir p) \<noteq> ''..''" using assms by (auto simp: resolveKey_def Let_def split: if_splits)
  then have "\<not> common rootdir p < length rootdir" using outside_starts_up by blast
  with common_take [of rootdir p] have "rootdir = take (length rootdir) p" by (metis le_neq_implies_less take_all order_refl)
  then show ?thesis by (metis append_take_drop_id)
qed

lemma put_object_frame:
  assumes "put_object rootdir w key bytes fs = (a, fs')" and "\<nexists>rest. p = rootdir @ rest"
  shows "fs' p = fs p"
  using assms by (auto simp: put_object_def split: sum.splits if_splits dest: resolveKey_inside)

text \<open>The keys the intake makes, three plain components, name a file of their own.\<close>

lemma join_three: "join [a, b, c] = a @ ''/'' @ b @ ''/'' @ c"
  by (simp add: join_def)

lemma plain_no_up: "plain s \<Longrightarrow> take 2 s = ''..'' \<Longrightarrow> \<exists>t. s = ''..'' @ t \<and> t \<noteq> []"
  by (metis append_Nil2 append_take_drop_id plain_def)

lemma resolveKey_three:
  assumes "plain a" and "plain b" and "plain c" and "take 2 a \<noteq> ''..''" and "\<exists>x \<in> set a. \<not> js_space x"
  shows "resolveKey rootdir (a @ ''/'' @ b @ ''/'' @ c) = Inr (rootdir @ [a, b, c])"
proof -
  let ?key = "a @ ''/'' @ b @ ''/'' @ c"
  have no: "CHR ''/'' \<notin> set a" "CHR ''/'' \<notin> set b" "CHR ''/'' \<notin> set c" using assms by (simp_all add: plain_def)
  have seg: "segments ?key = [a, b, c]"
    using segments_append [OF no(1), of "b @ CHR ''/'' # c"] segments_append [OF no(2), of c] segments_plain [OF no(3)] by simp
  have first: "take 1 ?key \<noteq> ''/''" using assms(1) by (cases a) (auto simp: plain_def)
  have res: "resolve rootdir ?key = rootdir @ [a, b, c]"
    using first normalize_plain [of "[a, b, c]" rootdir] assms(1-3) unfolding resolve_def seg by simp
  have "dropWhile js_space ?key \<noteq> []" using assms(5) by (auto simp: dropWhile_eq_Nil_conv)
  then obtain x xs where x: "dropWhile js_space ?key = x # xs" by (cases "dropWhile js_space ?key") auto
  then have "\<not> js_space x" using hd_dropWhile [of js_space ?key] by simp
  then have "trim ?key \<noteq> []" unfolding trim_def x by (auto simp: dropWhile_eq_Nil_conv)
  moreover have "take 2 (join [a, b, c]) \<noteq> ''..''"
  proof
    assume up: "take 2 (join [a, b, c]) = ''..''"
    show False
    proof (cases a)
      case (Cons u us)
      then show False using up assms(1,4) by (cases us) (auto simp: join_three plain_def)
    qed (use assms(1) in \<open>simp add: plain_def\<close>)
  qed
  moreover have "take 1 (join [a, b, c]) \<noteq> ''/''" using first unfolding join_three by assumption
  ultimately show ?thesis unfolding resolveKey_def res relative_inside Let_def by simp
qed

lemma put_then_get:
  assumes "resolveKey rootdir key = Inr p" and "w p"
  shows "get_object rootdir key (snd (put_object rootdir w key bytes fs)) = Inr bytes"
  using assms by (simp add: put_object_def get_object_def)

lemma put_elsewhere:
  assumes "resolveKey rootdir key = Inr p" and "resolveKey rootdir key' = Inr p'" and "p \<noteq> p'"
  shows "get_object rootdir key (snd (put_object rootdir w key' bytes fs)) = get_object rootdir key fs"
  using assms by (simp add: put_object_def get_object_def)

end
