(* ===== verification/Pipeline_Queue.thy ===== *)
theory Pipeline_Queue
  imports Pipeline Parse_Node
begin

text \<open>
  The queue of pipeline runs between the API and the worker: the producer (\<open>pipeline/pipeline.runner.ts\<close>), the
  resumption of a request (\<open>requests/actions/node-recovery.actions.ts\<close>, \<open>requests/actions/request.actions.ts\<close>),
  the crash recovery (\<open>pipeline/recovery.sweep.ts\<close>), the paste of an attachment and the consumer
  (\<open>queue/processors/pipeline.processor.ts\<close>). Of Bull the model uses what its reference documents: a job added
  under an identifier the queue already holds, in whatever state, is not added; a finished job is kept for the
  configured time; a job whose worker died goes back to the queue once and then fails.
\<close>

section \<open>The queue\<close>

text \<open>The identifier of a job: \<open>pipeline:<request>\<close>, or the number Bull gives a job added without one.\<close>

datatype run_key = Pipeline_Key uuid | Numbered nat

datatype run_state = R_Waiting | R_Active | R_Completed | R_Failed

record run_job =
  rj_key :: run_key
  rj_request :: uuid
  rj_reason :: "resume_reason option"
  rj_skip :: bool
  rj_stalled :: nat
  rj_state :: run_state

record run_sys =
  rs_db :: db
  rs_jobs :: "run_job list"
  rs_up :: bool
  rs_next :: nat

definition find_run :: "run_key \<Rightarrow> run_sys \<Rightarrow> run_job option" where
  "find_run k s = find (\<lambda>j. rj_key j = k) (rs_jobs s)"

text \<open>\<open>queue.add\<close>: \<open>None\<close> when the server cannot be reached.\<close>

definition queue_add :: "run_key option \<Rightarrow> uuid \<Rightarrow> resume_reason option \<Rightarrow> bool \<Rightarrow> run_sys \<Rightarrow> run_sys option" where
  "queue_add key r reason skip s =
     (if \<not> rs_up s then None
      else
        (case key of
           Some k \<Rightarrow>
             if find_run k s \<noteq> None then Some s
             else Some (s\<lparr>rs_jobs := rs_jobs s @ [\<lparr>rj_key = k, rj_request = r, rj_reason = reason, rj_skip = skip, rj_stalled = 0, rj_state = R_Waiting\<rparr>]\<rparr>)
         | None \<Rightarrow>
             Some (s\<lparr>rs_jobs := rs_jobs s @ [\<lparr>rj_key = Numbered (rs_next s), rj_request = r, rj_reason = reason, rj_skip = skip, rj_stalled = 0, rj_state = R_Waiting\<rparr>],
                     rs_next := rs_next s + 1\<rparr>)))"

definition enqueueWithTrace :: "uuid \<Rightarrow> resume_reason option \<Rightarrow> bool \<Rightarrow> run_key \<Rightarrow> run_sys \<Rightarrow> run_sys option" where
  "enqueueWithTrace r reason skip k = queue_add (Some k) r reason skip"

section \<open>The producers\<close>

definition enqueue :: "uuid \<Rightarrow> resume_reason option \<Rightarrow> bool \<Rightarrow> run_sys \<Rightarrow> run_sys option" where
  "enqueue r reason skip = enqueueWithTrace r reason skip (Pipeline_Key r)"

definition resumeFromCurrentNode :: "uuid \<Rightarrow> resume_reason \<Rightarrow> bool \<Rightarrow> run_sys \<Rightarrow> run_sys option" where
  "resumeFromCurrentNode r reason skip = enqueueWithTrace r (Some reason) skip (Pipeline_Key r)"

text \<open>A failed enqueue stamps the request for the sweep, if the database accepts the update.\<close>

definition enqueueOrRecover :: "bool \<Rightarrow> uuid \<Rightarrow> run_sys \<Rightarrow> run_sys" where
  "enqueueOrRecover mark_ok r s =
     (case enqueue r None False s of
        Some s \<Rightarrow> s
      | None \<Rightarrow> if mark_ok then s\<lparr>rs_db := markProcessing r (rs_db s)\<rparr> else s)"

definition findValidExtraction :: "uuid \<Rightarrow> db \<Rightarrow> extraction_row option" where
  "findValidExtraction r d = find (\<lambda>x. ex_request_id x = r \<and> ex_status x = Ex_Completed \<and> schema_valid x) (extractions d)"

definition hasValidExtraction :: "uuid \<Rightarrow> db \<Rightarrow> bool" where
  "hasValidExtraction r d \<longleftrightarrow> findValidExtraction r d \<noteq> None"

record resume_response =
  rr_request_id :: uuid
  rr_resumed :: bool
  rr_reason :: resume_reason
  rr_current_node :: current_node

definition resumeRequest :: "request \<Rightarrow> resume_reason \<Rightarrow> run_sys \<Rightarrow> (resume_response \<times> run_sys) option" where
  "resumeRequest q reason s =
     map_option (\<lambda>s'. (\<lparr>rr_request_id = r_id q, rr_resumed = True, rr_reason = reason, rr_current_node = current_node q\<rparr>, s'))
       (resumeFromCurrentNode (r_id q) reason (hasValidExtraction (r_id q) (rs_db s)) s)"

text \<open>The endpoint: the request must exist and, with authentication, be of the organisation of the caller.\<close>

datatype endpoint_error = Request_Not_Found | Queue_Unavailable

definition resume_endpoint :: "bool \<Rightarrow> uuid option \<Rightarrow> uuid \<Rightarrow> run_sys \<Rightarrow> (endpoint_error + resume_response) \<times> run_sys" where
  "resume_endpoint auth caller r s =
     (case find_request r (rs_db s) of
        None \<Rightarrow> (Inl Request_Not_Found, s)
      | Some q \<Rightarrow>
          if auth \<and> caller = None \<or> caller \<noteq> None \<and> caller \<noteq> Some (r_org_id q) then (Inl Request_Not_Found, s)
          else (case resumeRequest q Manual s of None \<Rightarrow> (Inl Queue_Unavailable, s) | Some (a, s) \<Rightarrow> (Inr a, s)))"

text \<open>The sweep, with the number it counts as enqueued; \<open>None\<close>: the query refused the window.\<close>

definition sweep_one :: "request \<Rightarrow> nat \<times> run_sys \<Rightarrow> nat \<times> run_sys" where
  "sweep_one q = (\<lambda>(n, s). case resumeFromCurrentNode (r_id q) Crash_Recovery False s of None \<Rightarrow> (n, s) | Some s \<Rightarrow> (n + 1, s))"

definition recovery_sweep :: "int \<Rightarrow> run_sys \<Rightarrow> (nat \<times> run_sys) option" where
  "recovery_sweep secs s = map_option (\<lambda>rows. fold sweep_one rows (0, s)) (findStaleParsing secs (rs_db s))"

text \<open>A pasted text enqueues a run of its own; when that fails the checkpoint stays where the paste moved it.\<close>

definition paste_endpoint :: "uuid option \<Rightarrow> uuid \<Rightarrow> uuid \<Rightarrow> string \<Rightarrow> run_sys \<Rightarrow> bool \<times> run_sys" where
  "paste_endpoint caller r a content s =
     (case paste caller r a content (rs_db s) of
        Inl e \<Rightarrow> (False, s)
      | Inr d \<Rightarrow> (let s = s\<lparr>rs_db := d\<rparr> in case queue_add None r None False s of None \<Rightarrow> (False, s) | Some s \<Rightarrow> (True, s)))"

section \<open>The consumer\<close>

definition update_run :: "run_key \<Rightarrow> (run_job \<Rightarrow> run_job) \<Rightarrow> run_sys \<Rightarrow> run_sys" where
  "update_run k f s = s\<lparr>rs_jobs := update_where (\<lambda>j. rj_key j = k) f (rs_jobs s)\<rparr>"

text \<open>The handler runs the engine; a job has one attempt, and fails when the engine throws.\<close>

definition handle_run :: "node_registry \<Rightarrow> audit \<Rightarrow> run_job \<Rightarrow> run_sys \<Rightarrow> run_sys" where
  "handle_run nodes ok j s =
     (case pipeline_run nodes ok (rj_reason j) (rj_skip j) (rj_request j) (rs_db s) of
        Finished d \<Rightarrow> update_run (rj_key j) (\<lambda>j. j\<lparr>rj_state := R_Completed\<rparr>) (s\<lparr>rs_db := d\<rparr>)
      | Aborted d \<Rightarrow> update_run (rj_key j) (\<lambda>j. j\<lparr>rj_state := R_Failed\<rparr>) (s\<lparr>rs_db := d\<rparr>))"

definition MAX_STALLED_COUNT :: nat where
  "MAX_STALLED_COUNT = 1"

text \<open>
  What can happen: the producers; the worker taking a waiting job and running it; the worker dying in a run, its job
  then going back to the queue or failing; a finished job being removed after its time; the server going down and coming
  up; and anything else that changes the database.
\<close>

datatype run_action =
    Submit bool uuid | Sweep int | Resume bool "uuid option" uuid | Paste_Text "uuid option" uuid uuid string
  | Take run_key | Handle audit run_key | Die audit run_key | Stall run_key | Forget run_key | Server bool | Elsewhere db

fun run_act :: "node_registry \<Rightarrow> run_action \<Rightarrow> run_sys \<Rightarrow> run_sys" where
  "run_act nodes (Submit mark_ok r) s = enqueueOrRecover mark_ok r s"
| "run_act nodes (Sweep secs) s = (case recovery_sweep secs s of None \<Rightarrow> s | Some (n, s) \<Rightarrow> s)"
| "run_act nodes (Resume auth caller r) s = snd (resume_endpoint auth caller r s)"
| "run_act nodes (Paste_Text caller r a content) s = snd (paste_endpoint caller r a content s)"
| "run_act nodes (Take k) s =
     (case find_run k s of
        Some j \<Rightarrow> if rj_state j = R_Waiting then update_run k (\<lambda>j. j\<lparr>rj_state := R_Active\<rparr>) s else s
      | None \<Rightarrow> s)"
| "run_act nodes (Handle ok k) s =
     (case find_run k s of
        Some j \<Rightarrow> if rj_state j = R_Active then handle_run nodes ok j s else s
      | None \<Rightarrow> s)"
| "run_act nodes (Die ok k) s =
     (case find_run k s of
        Some j \<Rightarrow>
          if rj_state j = R_Active
          then s\<lparr>rs_db := db_of (pipeline_run nodes ok (rj_reason j) (rj_skip j) (rj_request j) (rs_db s))\<rparr> else s
      | None \<Rightarrow> s)"
| "run_act nodes (Stall k) s =
     (case find_run k s of
        Some j \<Rightarrow>
          if rj_state j \<noteq> R_Active then s
          else if rj_stalled j < MAX_STALLED_COUNT then update_run k (\<lambda>j. j\<lparr>rj_state := R_Waiting, rj_stalled := rj_stalled j + 1\<rparr>) s
          else update_run k (\<lambda>j. j\<lparr>rj_state := R_Failed\<rparr>) s
      | None \<Rightarrow> s)"
| "run_act nodes (Forget k) s =
     s\<lparr>rs_jobs := filter (\<lambda>j. \<not> (rj_key j = k \<and> (rj_state j = R_Completed \<or> rj_state j = R_Failed))) (rs_jobs s)\<rparr>"
| "run_act nodes (Server up) s = s\<lparr>rs_up := up\<rparr>"
| "run_act nodes (Elsewhere d) s = s\<lparr>rs_db := d\<rparr>"

section \<open>The jobs of a request\<close>

definition finished_run :: "run_job \<Rightarrow> bool" where
  "finished_run j \<longleftrightarrow> rj_state j = R_Completed \<or> rj_state j = R_Failed"

definition job_ok :: "nat \<Rightarrow> run_job \<Rightarrow> bool" where
  "job_ok n j \<longleftrightarrow> (case rj_key j of Pipeline_Key r \<Rightarrow> rj_request j = r | Numbered k \<Rightarrow> k < n)"

definition queue_ok :: "run_sys \<Rightarrow> bool" where
  "queue_ok s \<longleftrightarrow> distinct (map rj_key (rs_jobs s)) \<and> list_all (job_ok (rs_next s)) (rs_jobs s)"

text \<open>The queue still holds the finished job of a request, and no other job of it is live.\<close>

definition retained :: "uuid \<Rightarrow> run_job \<Rightarrow> run_sys \<Rightarrow> bool" where
  "retained r j s \<longleftrightarrow> find_run (Pipeline_Key r) s = Some j \<and> finished_run j \<and>
     (\<forall>x \<in> set (rs_jobs s). rj_request x = r \<longrightarrow> finished_run x)"

lemma find_run_None: "find_run k s = None \<longleftrightarrow> k \<notin> rj_key ` set (rs_jobs s)"
  by (auto simp: find_run_def find_None_iff)

lemma find_run_Some: "find_run k s = Some j \<Longrightarrow> j \<in> set (rs_jobs s) \<and> rj_key j = k"
  by (auto simp: find_run_def dest: find_Some_set)

lemma find_run_cong: "rs_jobs s' = rs_jobs s \<Longrightarrow> find_run k s' = find_run k s"
  by (simp add: find_run_def)

lemma keeps_simps [simp]:
  "queue_ok (s\<lparr>rs_db := d\<rparr>) = queue_ok s" "retained r j (s\<lparr>rs_db := d\<rparr>) = retained r j s"
  "queue_ok (s\<lparr>rs_up := b\<rparr>) = queue_ok s" "retained r j (s\<lparr>rs_up := b\<rparr>) = retained r j s"
  "find_run k (s\<lparr>rs_db := d\<rparr>) = find_run k s"
  by (simp_all add: queue_ok_def retained_def find_run_def)

lemma find_run_append: "find P xs = Some x \<Longrightarrow> find P (xs @ ys) = Some x"
  by (induction xs) auto

lemma job_ok_mono: "job_ok n j \<Longrightarrow> n \<le> m \<Longrightarrow> job_ok m j"
  by (auto simp: job_ok_def split: run_key.splits)

lemma queue_add_ok:
  assumes "queue_ok s" and "queue_add key r reason skip s = Some s'" and "\<And>k. key = Some k \<Longrightarrow> k = Pipeline_Key r"
  shows "queue_ok s'"
proof (cases key)
  case None
  have "Numbered (rs_next s) \<notin> rj_key ` set (rs_jobs s)"
  proof
    assume "Numbered (rs_next s) \<in> rj_key ` set (rs_jobs s)"
    then obtain j where "j \<in> set (rs_jobs s)" "rj_key j = Numbered (rs_next s)" by (metis imageE)
    with assms(1) show False by (auto simp: queue_ok_def list_all_iff job_ok_def)
  qed
  moreover have "list_all (job_ok (rs_next s + 1)) (rs_jobs s)"
    using assms(1) by (auto simp: queue_ok_def list_all_iff intro: job_ok_mono)
  ultimately show ?thesis using assms(1,2) by (auto simp: None queue_add_def queue_ok_def job_ok_def split: if_splits)
next
  case (Some k)
  then show ?thesis using assms
    by (auto simp: queue_add_def queue_ok_def job_ok_def find_run_None split: if_splits)
qed

lemma queue_add_retained:
  assumes "retained r j s" and "queue_add key r' reason skip s = Some s'"
    and "key = Some (Pipeline_Key r') \<or> key = None \<and> r' \<noteq> r"
  shows "retained r j s'"
proof (cases "s' = s")
  case False
  then have "r' \<noteq> r" using assms by (auto simp: queue_add_def retained_def split: if_splits)
  moreover obtain x where x: "rs_jobs s' = rs_jobs s @ [x]" "rj_request x = r'"
    using False assms(2) by (auto simp: queue_add_def split: if_splits option.splits)
  ultimately show ?thesis using assms(1) find_run_append
    by (auto simp: retained_def find_run_def)
qed (use assms(1) in simp)

lemma update_run_ok:
  assumes "queue_ok s" and "\<And>j. rj_key (f j) = rj_key j" and "\<And>j. rj_request (f j) = rj_request j"
  shows "queue_ok (update_run k f s)"
proof -
  have "job_ok n (f j) = job_ok n j" for n j
    using assms(2,3) by (simp add: job_ok_def split: run_key.split)
  then show ?thesis using assms(1) map_update_where [of rj_key f, OF assms(2)]
    by (auto simp: queue_ok_def update_run_def list_all_iff set_update_where)
qed

lemma update_run_retained:
  assumes "queue_ok s" and "retained r j s" and "find_run k s = Some x" and "\<not> finished_run x"
    and "\<And>j. rj_key (f j) = rj_key j" and "\<And>j. rj_request (f j) = rj_request j"
  shows "retained r j (update_run k f s)"
proof -
  have x: "x \<in> set (rs_jobs s)" "rj_key x = k" using find_run_Some [OF assms(3)] by simp_all
  have k: "k \<noteq> Pipeline_Key r" and xr: "rj_request x \<noteq> r" using assms(2-4) x by (auto simp: retained_def)
  have only: "y = x" if "y \<in> set (rs_jobs s)" "rj_key y = k" for y
    using assms(1) that x by (auto simp: queue_ok_def distinct_map dest: inj_onD)
  have "find_run (Pipeline_Key r) (update_run k f s) = find_run (Pipeline_Key r) s"
  proof -
    have "find (\<lambda>j. rj_key j = Pipeline_Key r) (update_where (\<lambda>j. rj_key j = k) f xs) = find (\<lambda>j. rj_key j = Pipeline_Key r) xs" for xs
      using k assms(5) by (induction xs) auto
    then show ?thesis by (simp add: find_run_def update_run_def)
  qed
  moreover have "finished_run y" if "y \<in> set (rs_jobs (update_run k f s))" "rj_request y = r" for y
  proof -
    from that(1) obtain z where z: "z \<in> set (rs_jobs s)" "y = (if rj_key z = k then f z else z)"
      by (auto simp: update_run_def set_update_where)
    show ?thesis
    proof (cases "rj_key z = k")
      case True
      with z only [OF z(1)] that(2) assms(6) xr show ?thesis by simp
    next
      case False
      with z that(2) assms(2) show ?thesis by (simp add: retained_def)
    qed
  qed
  ultimately show ?thesis using assms(2) by (simp add: retained_def)
qed

lemma resume_add: "resumeFromCurrentNode r reason skip s = queue_add (Some (Pipeline_Key r)) r (Some reason) skip s"
  by (simp add: resumeFromCurrentNode_def enqueueWithTrace_def)

lemma sweep_keeps:
  assumes "queue_ok (snd a)" and "retained r j (snd a)"
  shows "queue_ok (snd (fold sweep_one rows a)) \<and> retained r j (snd (fold sweep_one rows a))"
  using assms
proof (induction rows arbitrary: a)
  case (Cons q rows)
  have "queue_ok (snd (sweep_one q a)) \<and> retained r j (snd (sweep_one q a))"
  proof (cases "resumeFromCurrentNode (r_id q) Crash_Recovery False (snd a)")
    case None
    then show ?thesis using Cons.prems by (simp add: sweep_one_def case_prod_beta)
  next
    case (Some s')
    then have add: "queue_add (Some (Pipeline_Key (r_id q))) (r_id q) (Some Crash_Recovery) False (snd a) = Some s'"
      by (simp add: resume_add)
    have "queue_ok s'" by (rule queue_add_ok [OF Cons.prems(1) add]) simp
    moreover have "retained r j s'" by (rule queue_add_retained [OF Cons.prems(2) add]) simp
    ultimately show ?thesis by (simp add: sweep_one_def case_prod_beta Some)
  qed
  then show ?case using Cons.IH by simp
qed simp

text \<open>The actions other than the removal of that job and a paste into the request.\<close>

fun restarts :: "uuid \<Rightarrow> run_action \<Rightarrow> bool" where
  "restarts r (Forget k) \<longleftrightarrow> k = Pipeline_Key r"
| "restarts r (Paste_Text caller r' a content) \<longleftrightarrow> r' = r"
| "restarts r _ \<longleftrightarrow> False"

lemma run_act_keeps:
  assumes q: "queue_ok s" and t: "retained r j s" and "\<not> restarts r a"
  shows "queue_ok (run_act nodes a s) \<and> retained r j (run_act nodes a s)"
proof -
  show ?thesis
  proof (cases a)
    case (Submit mark_ok r')
    show ?thesis
    proof (cases "enqueue r' None False s")
      case None
      then show ?thesis using q t by (simp add: Submit enqueueOrRecover_def)
    next
      case (Some s')
      then have add: "queue_add (Some (Pipeline_Key r')) r' None False s = Some s'" by (simp add: enqueue_def enqueueWithTrace_def)
      have "queue_ok s'" by (rule queue_add_ok [OF q add]) simp
      moreover have "retained r j s'" by (rule queue_add_retained [OF t add]) simp
      ultimately show ?thesis by (simp add: Submit enqueueOrRecover_def Some)
    qed
  next
    case (Sweep secs)
    show ?thesis using sweep_keeps [of "(0, s)" r j] q t
      by (auto simp: Sweep recovery_sweep_def case_prod_beta split: option.splits)
  next
    case (Resume auth caller r')
    show ?thesis
    proof (cases "snd (resume_endpoint auth caller r' s) = s")
      case False
      then obtain u reason skip s' where add: "queue_add (Some (Pipeline_Key u)) u (Some reason) skip s = Some s'"
        and s': "snd (resume_endpoint auth caller r' s) = s'"
        by (auto simp: resume_endpoint_def resumeRequest_def resume_add split: option.splits if_splits)
      have "queue_ok s'" by (rule queue_add_ok [OF q add]) simp
      moreover have "retained r j s'" by (rule queue_add_retained [OF t add]) simp
      ultimately show ?thesis by (simp add: Resume s')
    qed (use q t in \<open>simp add: Resume\<close>)
  next
    case (Paste_Text caller r' x content)
    with assms(3) have "r' \<noteq> r" by simp
    show ?thesis
    proof (cases "paste caller r' x content (rs_db s)")
      case (Inl e)
      then show ?thesis using q t by (simp add: Paste_Text paste_endpoint_def)
    next
      case (Inr d)
      let ?s = "s\<lparr>rs_db := d\<rparr>"
      have q': "queue_ok ?s" and t': "retained r j ?s" using q t by simp_all
      show ?thesis
      proof (cases "queue_add None r' None False ?s")
        case None
        then show ?thesis using q' t' by (simp add: Paste_Text paste_endpoint_def Inr Let_def)
      next
        case (Some s')
        then show ?thesis using queue_add_ok [OF q' Some] queue_add_retained [OF t' Some] \<open>r' \<noteq> r\<close>
          by (simp add: Paste_Text paste_endpoint_def Inr Let_def)
      qed
    qed
  next
    case (Forget k)
    with assms(3) have k: "k \<noteq> Pipeline_Key r" by simp
    let ?P = "\<lambda>j. \<not> (rj_key j = k \<and> (rj_state j = R_Completed \<or> rj_state j = R_Failed))"
    have "find (\<lambda>j. rj_key j = Pipeline_Key r) (filter ?P xs) = find (\<lambda>j. rj_key j = Pipeline_Key r) xs" for xs :: "run_job list"
      using k by (induction xs) auto
    then show ?thesis using q t
      by (auto simp: Forget queue_ok_def retained_def find_run_def list_all_iff intro: distinct_map_filter)
  next
    case (Take k)
    show ?thesis using q t update_run_ok [OF q] update_run_retained [OF q t]
      by (auto simp: Take finished_run_def split: option.splits)
  next
    case (Stall k)
    show ?thesis using q t update_run_ok [OF q] update_run_retained [OF q t]
      by (auto simp: Stall finished_run_def split: option.splits)
  next
    case (Handle ok k)
    show ?thesis
    proof (cases "find_run k s")
      case (Some x)
      have k: "rj_key x = k" using find_run_Some [OF Some] by simp
      have "queue_ok (update_run k f (s\<lparr>rs_db := d\<rparr>)) \<and> retained r j (update_run k f (s\<lparr>rs_db := d\<rparr>))"
        if "rj_state x = R_Active" "\<And>j. rj_key (f j) = rj_key j" "\<And>j. rj_request (f j) = rj_request j" for d f
      proof -
        let ?s = "s\<lparr>rs_db := d\<rparr>"
        have "queue_ok ?s" "retained r j ?s" "find_run k ?s = Some x" using q t Some by (simp_all add: find_run_def)
        with that show ?thesis using update_run_ok [of ?s f k] update_run_retained [of ?s r j k x f] by (simp add: finished_run_def)
      qed
      then show ?thesis using q t by (auto simp: Handle Some handle_run_def k split: run_result.splits)
    qed (use q t in \<open>simp add: Handle\<close>)
  next
    case (Die ok k)
    show ?thesis using q t by (auto simp: Die split: option.splits)
  qed (use q t in simp_all)
qed

lemma run_acts_keep:
  assumes "queue_ok s" and "retained r j s" and "\<forall>a \<in> set as. \<not> restarts r a"
  shows "queue_ok (fold (run_act nodes) as s) \<and> retained r j (fold (run_act nodes) as s)"
  using assms
proof (induction as arbitrary: s)
  case (Cons a as)
  then show ?case using run_act_keeps [of s r j a nodes] by simp
qed simp

section \<open>The main properties\<close>

text \<open>
  C28. As long as Bull retains the finished or failed job of a request (up to a day, up to a week), nothing but a paste starts
  the request again, although every resumption is answered with success: not the sweep, not the user, not the
  submission, however they interleave with the worker, its crashes and the rest of the program.
\<close>

theorem finished_job_blocks_resume:
  assumes "queue_ok s" and "find_run (Pipeline_Key r) s = Some j" and "finished_run j"
    and "\<forall>x \<in> set (rs_jobs s). rj_request x = r \<longrightarrow> finished_run x"
    and "\<forall>a \<in> set as. \<not> restarts r a" and "s' = fold (run_act nodes) as s"
    and "rs_up s'" and "find_request r (rs_db s') = Some q"
  shows "find_run (Pipeline_Key r) s' = Some j \<and> (\<forall>x \<in> set (rs_jobs s'). rj_request x = r \<longrightarrow> finished_run x) \<and>
    resume_endpoint True (Some (r_org_id q)) r s' =
      (Inr \<lparr>rr_request_id = r, rr_resumed = True, rr_reason = Manual, rr_current_node = current_node q\<rparr>, s')"
proof -
  have "retained r j s" using assms(2-4) by (simp add: retained_def)
  with run_acts_keep [OF assms(1) this assms(5)] have t: "retained r j s'" by (simp add: assms(6))
  then have "queue_add (Some (Pipeline_Key r)) r (Some Manual) (hasValidExtraction r (rs_db s')) s' = Some s'"
    using assms(7) by (simp add: queue_add_def retained_def)
  with t assms(8) show ?thesis
    by (simp add: retained_def resume_endpoint_def resumeRequest_def resume_add find_request_Some)
qed

text \<open>A run whose audit event cannot be written: the request stays parsing, its job failed.\<close>

definition run_start :: "run_sys" where
  "run_start = \<lparr>rs_db = empty_db\<lparr>requests := [demo_request ''org'' Parse St_Parsing]\<rparr>, rs_jobs = [], rs_up = True, rs_next = 0\<rparr>"

definition asking_nodes :: node_registry where
  "asking_nodes = (\<lambda>_. Some (\<lambda>_ _ d. (Returned Clarify, d)))"

definition failed_start :: "run_sys" where
  "failed_start = fold (run_act asking_nodes) [Submit True ''r1'', Take (Pipeline_Key ''r1''), Handle (\<lambda>_. False) (Pipeline_Key ''r1'')] run_start"

definition later :: "run_action list" where
  "later = [Elsewhere (rs_db failed_start\<lparr>clock := 10000000\<rparr>), Sweep 300, Resume False None ''r1'', Sweep 300]"

lemma find_request_r1 [simp]: "find_request ''r1'' (empty_db\<lparr>requests := [demo_request ''org'' n st], clock := t\<rparr>) = Some (demo_request ''org'' n st)"
  by (simp add: find_request_def demo_request_def)

lemma failed_start_job:
  "rs_jobs failed_start = [\<lparr>rj_key = Pipeline_Key ''r1'', rj_request = ''r1'', rj_reason = None, rj_skip = False, rj_stalled = 0, rj_state = R_Failed\<rparr>]"
  by code_simp

theorem finished_job_blocks_resume_witness:
  "let s' = fold (run_act asking_nodes) later failed_start in
     map rj_state (rs_jobs s') = [R_Failed] \<and> map status (requests (rs_db s')) = [St_Parsing] \<and>
     map r_id (the (findStaleParsing 300 (rs_db s'))) = [''r1''] \<and> rs_up s' \<and>
     snd (resume_endpoint True (Some ''org'') ''r1'' s') = s'"
proof -
  let ?s = "fold (run_act asking_nodes) later failed_start"
  obtain j where j: "find_run (Pipeline_Key ''r1'') failed_start = Some j" "finished_run j"
    "\<forall>x \<in> set (rs_jobs failed_start). rj_request x = ''r1'' \<longrightarrow> finished_run x"
    by (simp add: find_run_def failed_start_job finished_run_def)
  have ok: "queue_ok failed_start" by (simp add: queue_ok_def failed_start_job job_ok_def)
  have acts: "\<forall>a \<in> set later. \<not> restarts ''r1'' a" by (simp add: later_def)
  have up: "rs_up ?s" by code_simp
  have "map_option r_org_id (find_request ''r1'' (rs_db ?s)) = Some ''org''" by code_simp
  then obtain q where q: "find_request ''r1'' (rs_db ?s) = Some q" "r_org_id q = ''org''" by (auto simp: map_option_eq_Some)
  have "map rj_state (rs_jobs ?s) = [R_Failed]" "map status (requests (rs_db ?s)) = [St_Parsing]"
    "map r_id (the (findStaleParsing 300 (rs_db ?s))) = [''r1'']" by code_simp+
  with finished_job_blocks_resume [OF ok j acts refl up q(1)] q(2) up show ?thesis by (simp add: Let_def)
qed

section \<open>The sweep\<close>

text \<open>What a sweep adds: one waiting job for every stale request the queue holds no job of, in the order found.\<close>

definition recovery_job :: "request \<Rightarrow> run_job" where
  "recovery_job q = \<lparr>rj_key = Pipeline_Key (r_id q), rj_request = r_id q, rj_reason = Some Crash_Recovery, rj_skip = False,
     rj_stalled = 0, rj_state = R_Waiting\<rparr>"

lemma sweep_one_up:
  assumes "rs_up s"
  shows "sweep_one q (n, s) = (n + 1, s\<lparr>rs_jobs := rs_jobs s @ (if find_run (Pipeline_Key (r_id q)) s = None then [recovery_job q] else [])\<rparr>)"
  using assms by (simp add: sweep_one_def resume_add queue_add_def recovery_job_def)

lemma sweep_up:
  assumes "rs_up s" and "distinct (map r_id rows)"
  shows "fold sweep_one rows (n, s) = (n + length rows,
    s\<lparr>rs_jobs := rs_jobs s @ map recovery_job (filter (\<lambda>q. find_run (Pipeline_Key (r_id q)) s = None) rows)\<rparr>)"
  using assms
proof (induction rows arbitrary: n s)
  case (Cons q rows)
  let ?s = "s\<lparr>rs_jobs := rs_jobs s @ (if find_run (Pipeline_Key (r_id q)) s = None then [recovery_job q] else [])\<rparr>"
  have "find_run (Pipeline_Key (r_id x)) ?s = None \<longleftrightarrow> find_run (Pipeline_Key (r_id x)) s = None" if "x \<in> set rows" for x
  proof -
    have "r_id x \<noteq> r_id q" using Cons.prems(2) imageI [OF that, of r_id] by auto
    then show ?thesis by (auto simp: find_run_None recovery_job_def)
  qed
  then have f: "filter (\<lambda>q. find_run (Pipeline_Key (r_id q)) ?s = None) rows = filter (\<lambda>q. find_run (Pipeline_Key (r_id q)) s = None) rows"
    by (intro filter_cong) simp_all
  have "fold sweep_one (q # rows) (n, s) = fold sweep_one rows (n + 1, ?s)"
    using sweep_one_up [OF Cons.prems(1)] by simp
  also have "\<dots> = (n + 1 + length rows, ?s\<lparr>rs_jobs := rs_jobs ?s @ map recovery_job (filter (\<lambda>q. find_run (Pipeline_Key (r_id q)) s = None) rows)\<rparr>)"
    using Cons.IH [of ?s "n + 1"] Cons.prems f by simp
  finally show ?case by simp
qed simp

lemma recovery_sweep_outcome:
  assumes "rs_up s" and "distinct (map r_id (requests (rs_db s)))" and "0 < secs"
  shows "recovery_sweep secs s = Some (length (filter (stale secs (rs_db s)) (requests (rs_db s))),
    s\<lparr>rs_jobs := rs_jobs s @ map recovery_job (filter (\<lambda>q. find_run (Pipeline_Key (r_id q)) s = None)
        (filter (stale secs (rs_db s)) (requests (rs_db s))))\<rparr>)"
proof -
  have "distinct (map r_id (filter (stale secs (rs_db s)) (requests (rs_db s))))" using assms(2) by (rule distinct_map_filter)
  with assms(1,3) show ?thesis by (simp add: recovery_sweep_def findStaleParsing_def sweep_up)
qed

end
