(* ===== verification/Intake.thy ===== *)
theory Intake
  imports Object_Store Pipeline_Queue
begin

text \<open>
  The intake of requests (\<open>ingestion/ingestion.service.ts\<close>): the checks of what was submitted, the rows and files
  it writes, and the transaction of the request around it (\<open>auth/middleware/rls-context.middleware.ts\<close>), which
  runs the deferred tasks, the audit event and the enqueueing of the pipeline, after its commit.
\<close>

section \<open>What is submitted\<close>

definition MAX_UPLOAD_BYTES :: int where
  "MAX_UPLOAD_BYTES = 10 * 1024 * 1024"

definition MAX_FILES_PER_REQUEST :: nat where
  "MAX_FILES_PER_REQUEST = 20"

record uploaded_file =
  originalname :: string
  mimetype :: string
  uf_size :: int
  buffer :: string

record create_request_dto =
  cr_channel :: "request_channel option"
  cr_source_subject :: "string option"
  cr_source_body :: "string option"
  cr_sender_company :: "string option"
  cr_sender_contact :: "string option"
  cr_sender_email :: "string option"

definition ALLOWED_TYPES :: "(string \<times> string list) list" where
  "ALLOWED_TYPES =
     [(''.pdf'', [''application/pdf'', ''application/octet-stream'']),
      (''.csv'', [''text/csv'', ''application/csv'', ''application/vnd.ms-excel'', ''text/plain'', ''application/octet-stream'']),
      (''.txt'', [''text/plain'', ''application/octet-stream''])]"

definition ALLOWED_EXTENSIONS :: "string list" where
  "ALLOWED_EXTENSIONS = map fst ALLOWED_TYPES"

datatype intake_error = Unsupported_File_Type | File_Too_Large | Request_Input_Required | Rls_Context_Missing | Not_Stored object_error

text \<open>\<open>None\<close>: every file passes; otherwise the first exception.\<close>

fun validateFiles :: "uploaded_file list \<Rightarrow> intake_error option" where
  "validateFiles [] = None"
| "validateFiles (f # fs) =
     (case map_of ALLOWED_TYPES (lower_case (extname (originalname f))) of
        None \<Rightarrow> Some Unsupported_File_Type
      | Some mimes \<Rightarrow>
          if mimetype f \<notin> set mimes then Some Unsupported_File_Type
          else if MAX_UPLOAD_BYTES < uf_size f then Some File_Too_Large
          else validateFiles fs)"

definition ensureHasInput :: "create_request_dto \<Rightarrow> uploaded_file list \<Rightarrow> intake_error option" where
  "ensureHasInput dto fs =
     (if fs = [] \<and> (case cr_source_body dto of None \<Rightarrow> True | Some b \<Rightarrow> trim b = []) then Some Request_Input_Required else None)"

definition resolveChannel :: "create_request_dto \<Rightarrow> uploaded_file list \<Rightarrow> request_channel" where
  "resolveChannel dto fs = (if fs \<noteq> [] then Ch_Upload else (case cr_channel dto of Some c \<Rightarrow> c | None \<Rightarrow> Ch_Email))"

text \<open>\<open>\w\<close> and the two characters beside it that a name may keep.\<close>

definition kept_char :: "char \<Rightarrow> bool" where
  "kept_char c \<longleftrightarrow> letter c \<or> digit c \<or> c \<in> set ''_.-''"

definition sanitizeFilename :: "string \<Rightarrow> string" where
  "sanitizeFilename name =
     take 120 (map (\<lambda>c. if kept_char c then c else CHR ''_'')
       (map (\<lambda>c. if c = CHR ''/'' \<or> c = CHR 0x5C then CHR ''_'' else c) name))"

section \<open>Persisting a request\<close>

text \<open>
  The environment: the manager of the request with the organisation its session is scoped to, absent outside of
  one; the identifiers the database and the runtime generate; the root of the object store and the files the host can write.
\<close>

record intake_env =
  ie_manager :: "string option option"
  ie_request_id :: uuid
  ie_uuid :: "nat \<Rightarrow> uuid"
  ie_attachment_id :: "nat \<Rightarrow> uuid"
  ie_root :: path
  ie_can_write :: "path \<Rightarrow> bool"

definition DEMO_ORG_ID :: uuid where
  "DEMO_ORG_ID = ''00000000-0000-0000-0000-000000000000''"

definition currentOrgId :: "string option option \<Rightarrow> intake_error + uuid" where
  "currentOrgId manager =
     (case manager of
        None \<Rightarrow> Inr DEMO_ORG_ID
      | Some None \<Rightarrow> Inl Rls_Context_Missing
      | Some (Some orgId) \<Rightarrow> if orgId = [] then Inl Rls_Context_Missing else Inr orgId)"

text \<open>The row of a new request, with the defaults of its columns.\<close>

definition new_request :: "uuid \<Rightarrow> uuid \<Rightarrow> create_request_dto \<Rightarrow> request_channel \<Rightarrow> millis \<Rightarrow> request" where
  "new_request i orgId dto ch t = \<lparr>r_id = i, r_org_id = orgId, r_vertical = None, channel = ch,
     source_subject = cr_source_subject dto, source_body = cr_source_body dto, sender_company = cr_sender_company dto,
     sender_contact = cr_sender_contact dto, sender_address = None, sender_email = cr_sender_email dto,
     r_request_type = Type_Unknown, status = St_Parsing, current_node = Parse, processing_started_at = None,
     overall_confidence = None, classification_confidence = None, routing = None, routing_reasons = [],
     delivery_date = None, r_created_at = t\<rparr>"

definition storage_key :: "uuid \<Rightarrow> uuid \<Rightarrow> string \<Rightarrow> string" where
  "storage_key requestId u name = ''attachments'' @ ''/'' @ requestId @ ''/'' @ (u @ ''-'' @ sanitizeFilename name)"

fun store_files :: "intake_env \<Rightarrow> nat \<Rightarrow> uploaded_file list \<Rightarrow> db \<Rightarrow> file_store \<Rightarrow> object_error option \<times> db \<times> file_store" where
  "store_files e k [] d fs = (None, d, fs)"
| "store_files e k (f # rest) d fs =
     (case put_object (ie_root e) (ie_can_write e) (storage_key (ie_request_id e) (ie_uuid e k) (originalname f)) (buffer f) fs of
        (Inl err, fs) \<Rightarrow> (Some err, d, fs)
      | (Inr storageUrl, fs) \<Rightarrow>
          store_files e (k + 1) rest
            (d\<lparr>attachments := attachments d @ [\<lparr>at_id = ie_attachment_id e k, at_request_id = ie_request_id e, filename = originalname f,
                mime_type = mimetype f, size_bytes = uf_size f, storage_url = storageUrl, parsed_text = None,
                parse_status = Unparsed, parse_error_reason = None, pasted_text = None\<rparr>]\<rparr>) fs)"

datatype after_commit_task = Emit_Received uuid uuid request_channel nat | Enqueue uuid

definition createRequest ::
  "intake_env \<Rightarrow> create_request_dto \<Rightarrow> uploaded_file list \<Rightarrow> db \<Rightarrow> file_store \<Rightarrow>
   (intake_error + request \<times> after_commit_task list) \<times> db \<times> file_store" where
  "createRequest e dto files d fs =
     (case validateFiles files of
        Some err \<Rightarrow> (Inl err, d, fs)
      | None \<Rightarrow>
          (case ensureHasInput dto files of
             Some err \<Rightarrow> (Inl err, d, fs)
           | None \<Rightarrow>
               (case currentOrgId (ie_manager e) of
                  Inl err \<Rightarrow> (Inl err, d, fs)
                | Inr orgId \<Rightarrow>
                    (let ch = resolveChannel dto files;
                         q = new_request (ie_request_id e) orgId dto ch (clock d)
                     in case store_files e 0 files (d\<lparr>requests := requests d @ [q]\<rparr>) fs of
                          (Some err, d, fs) \<Rightarrow> (Inl (Not_Stored err), d, fs)
                        | (None, d, fs) \<Rightarrow>
                            (Inr (q, [Emit_Received orgId (r_id q) ch (length files), Enqueue (r_id q)]), d, fs)))))"

section \<open>The transaction of the request\<close>

text \<open>A failed task is logged and does not skip the next.\<close>

fun run_task :: "bool \<Rightarrow> bool \<Rightarrow> after_commit_task \<Rightarrow> run_sys \<Rightarrow> run_sys" where
  "run_task event_ok mark_ok (Emit_Received orgId r ch n) s =
     (if event_ok then s\<lparr>rs_db := emit (Some orgId) (Some r) None None (Ev_Request_Received ch n) (rs_db s)\<rparr> else s)"
| "run_task event_ok mark_ok (Enqueue r) s = enqueueOrRecover mark_ok r s"

text \<open>
  The handler inside its transaction: rolled back when the handler fails or the commit does, while the files stay
  where they are; the tasks run after the commit.
\<close>

record intake_sys =
  is_run :: run_sys
  is_files :: file_store

definition handle_create ::
  "intake_env \<Rightarrow> bool \<Rightarrow> bool \<Rightarrow> bool \<Rightarrow> create_request_dto \<Rightarrow> uploaded_file list \<Rightarrow> intake_sys \<Rightarrow> (intake_error + request) \<times> intake_sys" where
  "handle_create e commit_ok event_ok mark_ok dto files s =
     (case createRequest e dto files (rs_db (is_run s)) (is_files s) of
        (Inl err, d, fs) \<Rightarrow> (Inl err, s\<lparr>is_files := fs\<rparr>)
      | (Inr (q, tasks), d, fs) \<Rightarrow>
          if \<not> commit_ok then (Inr q, s\<lparr>is_files := fs\<rparr>)
          else (Inr q, \<lparr>is_run = fold (run_task event_ok mark_ok) tasks ((is_run s)\<lparr>rs_db := d\<rparr>), is_files = fs\<rparr>))"

section \<open>The keys\<close>

lemma kept_underscore [simp]: "kept_char CHR ''_''"
  by (simp add: kept_char_def)

lemma kept_not_slash: "kept_char c \<Longrightarrow> c \<noteq> CHR ''/''"
  by (auto simp: kept_char_def letter_def digit_def Let_def)

lemma sanitized_chars: "c \<in> set (sanitizeFilename name) \<Longrightarrow> kept_char c"
  by (auto simp: sanitizeFilename_def dest!: in_set_takeD)

lemma sanitized_length: "length (sanitizeFilename name) \<le> 120"
  by (simp add: sanitizeFilename_def)

lemma plain_component:
  assumes "plain u"
  shows "plain (u @ ''-'' @ sanitizeFilename name)"
proof -
  have "CHR ''-'' \<in> set (u @ ''-'' @ sanitizeFilename name)" by simp
  moreover have "CHR ''-'' \<notin> set ''.''" "CHR ''-'' \<notin> set ''..''" by simp_all
  ultimately have "u @ ''-'' @ sanitizeFilename name \<noteq> ''.''" "u @ ''-'' @ sanitizeFilename name \<noteq> ''..''" by metis+
  then show ?thesis using assms kept_not_slash [OF sanitized_chars] by (auto simp: plain_def)
qed

lemma storage_key_path:
  assumes "plain requestId" and "plain u"
  shows "resolveKey rootdir (storage_key requestId u name) = Inr (rootdir @ [''attachments'', requestId, u @ ''-'' @ sanitizeFilename name])"
  unfolding storage_key_def by (rule resolveKey_three) (use assms plain_component in \<open>simp_all add: plain_def js_space_def\<close>)

section \<open>The files\<close>

definition ids_plain :: "intake_env \<Rightarrow> nat \<Rightarrow> bool" where
  "ids_plain e n \<longleftrightarrow> plain (ie_request_id e) \<and> (\<forall>k<n. plain (ie_uuid e k) \<and> length (ie_uuid e k) = 36) \<and>
     inj_on (ie_uuid e) {..<n}"

definition file_path :: "intake_env \<Rightarrow> nat \<Rightarrow> uploaded_file \<Rightarrow> path" where
  "file_path e k f = ie_root e @ [''attachments'', ie_request_id e, ie_uuid e k @ ''-'' @ sanitizeFilename (originalname f)]"

definition file_row :: "intake_env \<Rightarrow> nat \<Rightarrow> uploaded_file \<Rightarrow> attachment" where
  "file_row e k f = \<lparr>at_id = ie_attachment_id e k, at_request_id = ie_request_id e, filename = originalname f,
     mime_type = mimetype f, size_bytes = uf_size f,
     storage_url = storage_key (ie_request_id e) (ie_uuid e k) (originalname f), parsed_text = None,
     parse_status = Unparsed, parse_error_reason = None, pasted_text = None\<rparr>"

lemma file_key:
  assumes "ids_plain e n" and "k < n"
  shows "resolveKey (ie_root e) (storage_key (ie_request_id e) (ie_uuid e k) (originalname f)) = Inr (file_path e k f)"
  unfolding file_path_def by (rule storage_key_path) (use assms in \<open>simp_all add: ids_plain_def\<close>)

lemma file_path_inj:
  assumes "ids_plain e n" and "k < n" and "l < n" and "file_path e k f = file_path e l g"
  shows "k = l"
proof -
  have "ie_uuid e k = ie_uuid e l" using assms by (auto simp: file_path_def ids_plain_def append_eq_append_conv)
  then show ?thesis using assms(1-3) by (auto simp: ids_plain_def inj_on_def)
qed

lemma store_files_ok:
  assumes "ids_plain e n" and "k + length files \<le> n" and "store_files e k files d fs = (None, d', fs')"
  shows "d' = d\<lparr>attachments := attachments d @ map (\<lambda>(i, f). file_row e i f) (enumerate k files)\<rparr> \<and>
    (\<forall>i < length files. fs' (file_path e (k + i) (files ! i)) = Some (buffer (files ! i))) \<and>
    (\<forall>p. (\<forall>i < length files. p \<noteq> file_path e (k + i) (files ! i)) \<longrightarrow> fs' p = fs p)"
  using assms(2,3)
proof (induction files arbitrary: k d fs)
  case (Cons f rest)
  let ?p = "file_path e k f"
  have key: "resolveKey (ie_root e) (storage_key (ie_request_id e) (ie_uuid e k) (originalname f)) = Inr ?p"
    by (rule file_key [OF assms(1)]) (use Cons.prems(1) in simp)
  have w: "ie_can_write e ?p" using Cons.prems(2) by (auto simp: put_object_def key split: if_splits)
  let ?d = "d\<lparr>attachments := attachments d @ [file_row e k f]\<rparr>"
  have rest: "store_files e (Suc k) rest ?d (fs(?p \<mapsto> buffer f)) = (None, d', fs')"
    using Cons.prems(2) by (simp add: put_object_def key w file_row_def)
  from Cons.IH [OF _ this] Cons.prems(1)
  have d': "d' = ?d\<lparr>attachments := attachments ?d @ map (\<lambda>(i, f). file_row e i f) (enumerate (Suc k) rest)\<rparr>"
    and files: "\<And>i. i < length rest \<Longrightarrow> fs' (file_path e (Suc k + i) (rest ! i)) = Some (buffer (rest ! i))"
    and others: "\<And>p. (\<forall>i < length rest. p \<noteq> file_path e (Suc k + i) (rest ! i)) \<Longrightarrow> fs' p = (fs(?p \<mapsto> buffer f)) p"
    by auto
  have mine: "?p \<noteq> file_path e (Suc k + i) (rest ! i)" if "i < length rest" for i
    using file_path_inj [OF assms(1), of k "Suc k + i" f "rest ! i"] that Cons.prems(1) by auto
  have "fs' (file_path e (k + i) ((f # rest) ! i)) = Some (buffer ((f # rest) ! i))" if "i < length (f # rest)" for i
  proof (cases i)
    case 0
    then show ?thesis using others [of ?p] mine by auto
  next
    case (Suc j)
    then show ?thesis using files [of j] that by simp
  qed
  moreover have "fs' p = fs p" if "\<forall>i < length (f # rest). p \<noteq> file_path e (k + i) ((f # rest) ! i)" for p
  proof -
    have "p \<noteq> ?p" using that by auto
    moreover have "p \<noteq> file_path e (Suc k + i) (rest ! i)" if "i < length rest" for i
      using \<open>\<forall>i < length (f # rest). p \<noteq> file_path e (k + i) ((f # rest) ! i)\<close> that by (metis Suc_less_eq add_Suc_shift length_Cons nth_Cons_Suc)
    ultimately show ?thesis using others [of p] by simp
  qed
  moreover have "d' = d\<lparr>attachments := attachments d @ map (\<lambda>(i, f). file_row e i f) (enumerate k (f # rest))\<rparr>"
    using d' by simp
  ultimately show ?case by blast
qed simp

lemma createRequest_ok:
  assumes "createRequest e dto files d fs = (Inr (q, tasks), d', fs')"
  obtains orgId where "validateFiles files = None" and "ensureHasInput dto files = None" and "currentOrgId (ie_manager e) = Inr orgId"
    and "q = new_request (ie_request_id e) orgId dto (resolveChannel dto files) (clock d)"
    and "tasks = [Emit_Received orgId (ie_request_id e) (resolveChannel dto files) (length files), Enqueue (ie_request_id e)]"
    and "store_files e 0 files (d\<lparr>requests := requests d @ [q]\<rparr>) fs = (None, d', fs')"
  using assms by (auto simp: createRequest_def Let_def new_request_def split: option.splits sum.splits prod.splits)

lemma validateFiles_None:
  "validateFiles files = None \<longleftrightarrow> (\<forall>f \<in> set files. uf_size f \<le> MAX_UPLOAD_BYTES \<and>
     (\<exists>mimes. map_of ALLOWED_TYPES (lower_case (extname (originalname f))) = Some mimes \<and> mimetype f \<in> set mimes))"
  by (induction files) (auto split: option.splits)

lemma allowed_is_read:
  assumes "map_of ALLOWED_TYPES (lower_case (extname name)) = Some mimes"
  shows "extractText pdf bytes name \<noteq> Inl Pf_Unsupported_Format"
  using assms by (auto simp: ALLOWED_TYPES_def extractText_def Let_def split: if_splits option.splits)

section \<open>What the intake leaves\<close>

lemma enqueueOrRecover_rest:
  "attachments (rs_db (enqueueOrRecover mark_ok r s)) = attachments (rs_db s)"
  by (auto simp: enqueueOrRecover_def enqueue_def enqueueWithTrace_def queue_add_def markProcessing_def update_requests_def split: option.splits if_splits)

lemma run_tasks_attachments:
  "attachments (rs_db (fold (run_task ev mk) tasks s)) = attachments (rs_db s)"
proof (induction tasks arbitrary: s)
  case (Cons t tasks)
  then show ?case by (cases t) (simp_all add: enqueueOrRecover_rest)
qed simp

text \<open>The reader of the parse node, over the files of the store.\<close>

definition reader :: "path \<Rightarrow> (string \<Rightarrow> string option) \<Rightarrow> file_store \<Rightarrow> parse_env" where
  "reader rootdir pdf fs = \<lparr>ps_store = (\<lambda>url. case get_object rootdir url fs of Inl e \<Rightarrow> None | Inr b \<Rightarrow> Some b), ps_pdf = pdf\<rparr>"

text \<open>
  C29. Every file of an accepted request, whatever its name, is stored below the root in a file of its own, and the
  parse node reads back exactly its bytes, in a format it supports; no other file of the store changes.
\<close>

theorem intake_files_read_back:
  assumes "handle_create e True ev mk dto files s = (Inr q, s')" and "ids_plain e (length files)"
  shows "\<exists>rows. attachments (rs_db (is_run s')) = attachments (rs_db (is_run s)) @ rows \<and> length rows = length files \<and>
    (\<forall>k < length files. at_request_id (rows ! k) = r_id q \<and> filename (rows ! k) = originalname (files ! k) \<and>
       read_attachment (reader (ie_root e) pdf (is_files s')) (rows ! k) = extractText pdf (buffer (files ! k)) (originalname (files ! k)) \<and>
       read_attachment (reader (ie_root e) pdf (is_files s')) (rows ! k) \<noteq> Inl Pf_Unsupported_Format) \<and>
    (\<forall>p. is_files s' p \<noteq> is_files s p \<longrightarrow> (\<exists>k < length files. p = file_path e k (files ! k)))"
proof -
  from assms(1) obtain tasks d' fs' where c: "createRequest e dto files (rs_db (is_run s)) (is_files s) = (Inr (q, tasks), d', fs')"
    and s': "s' = \<lparr>is_run = fold (run_task ev mk) tasks ((is_run s)\<lparr>rs_db := d'\<rparr>), is_files = fs'\<rparr>"
    by (auto simp: handle_create_def split: prod.splits sum.splits)
  from createRequest_ok [OF c] obtain orgId where v: "validateFiles files = None"
    and q: "q = new_request (ie_request_id e) orgId dto (resolveChannel dto files) (clock (rs_db (is_run s)))"
    and st: "store_files e 0 files ((rs_db (is_run s))\<lparr>requests := requests (rs_db (is_run s)) @ [q]\<rparr>) (is_files s) = (None, d', fs')"
    by metis
  let ?rows = "map (\<lambda>(i, f). file_row e i f) (enumerate 0 files)"
  note sf = store_files_ok [OF assms(2) _ st]
  have d': "attachments d' = attachments (rs_db (is_run s)) @ ?rows" using sf by simp
  have "attachments (rs_db (is_run s')) = attachments (rs_db (is_run s)) @ ?rows"
    unfolding s' by (simp add: run_tasks_attachments d')
  moreover have len: "length ?rows = length files" by simp
  moreover have "at_request_id (?rows ! k) = r_id q \<and> filename (?rows ! k) = originalname (files ! k) \<and>
       read_attachment (reader (ie_root e) pdf (is_files s')) (?rows ! k) = extractText pdf (buffer (files ! k)) (originalname (files ! k)) \<and>
       read_attachment (reader (ie_root e) pdf (is_files s')) (?rows ! k) \<noteq> Inl Pf_Unsupported_Format" if k: "k < length files" for k
  proof -
    have row: "?rows ! k = file_row e k (files ! k)" using k by (simp add: nth_enumerate_eq)
    have key: "resolveKey (ie_root e) (storage_key (ie_request_id e) (ie_uuid e k) (originalname (files ! k))) = Inr (file_path e k (files ! k))"
      by (rule file_key [OF assms(2) k])
    have "fs' (file_path e k (files ! k)) = Some (buffer (files ! k))" using sf k by simp
    then have read: "read_attachment (reader (ie_root e) pdf (is_files s')) (?rows ! k) = extractText pdf (buffer (files ! k)) (originalname (files ! k))"
      unfolding row s' by (simp add: read_attachment_def reader_def file_row_def get_object_def key)
    obtain mimes where "map_of ALLOWED_TYPES (lower_case (extname (originalname (files ! k)))) = Some mimes"
      using v k nth_mem [OF k] unfolding validateFiles_None by blast
    from read allowed_is_read [OF this] show ?thesis unfolding row by (simp add: q new_request_def file_row_def)
  qed
  moreover have "\<exists>k < length files. p = file_path e k (files ! k)" if "is_files s' p \<noteq> is_files s p" for p
    using sf that unfolding s' by (metis add_0 intake_sys.select_convs(2) order_refl)
  ultimately show ?thesis by blast
qed

definition sample_intake :: intake_env where
  "sample_intake = \<lparr>ie_manager = Some (Some ''org''), ie_request_id = ''r9'', ie_uuid = (\<lambda>k. replicate 35 CHR ''0'' @ (if k = 0 then ''a'' else ''b'')),
     ie_attachment_id = (\<lambda>k. if k = 0 then ''a1'' else ''a2''), ie_root = [''data''], ie_can_write = (\<lambda>_. True)\<rparr>"

definition sample_files :: "uploaded_file list" where
  "sample_files =
     [\<lparr>originalname = ''../x y.txt'', mimetype = ''text/plain'', uf_size = 5, buffer = ''hello''\<rparr>,
      \<lparr>originalname = ''lista.CSV'', mimetype = ''text/csv'', uf_size = 3, buffer = ''a;b''\<rparr>]"

definition no_text :: create_request_dto where
  "no_text = \<lparr>cr_channel = Some Ch_Email, cr_source_subject = None, cr_source_body = None, cr_sender_company = None,
     cr_sender_contact = None, cr_sender_email = None\<rparr>"

definition sample_state :: intake_sys where
  "sample_state = \<lparr>is_run = \<lparr>rs_db = empty_db, rs_jobs = [], rs_up = False, rs_next = 0\<rparr>, is_files = Map.empty\<rparr>"

lemma sample_ids: "ids_plain sample_intake (length sample_files)"
  by (auto simp: ids_plain_def sample_intake_def sample_files_def plain_def inj_on_def less_Suc_eq split: if_splits)

definition sample_request :: request where
  "sample_request = new_request ''r9'' ''org'' no_text Ch_Upload 0"

definition sample_after :: intake_sys where
  "sample_after = snd (handle_create sample_intake True True True no_text sample_files sample_state)"

lemma sample_accepted:
  "handle_create sample_intake True True True no_text sample_files sample_state = (Inr sample_request, sample_after)"
proof -
  have "fst (handle_create sample_intake True True True no_text sample_files sample_state) = Inr sample_request" by code_simp
  then show ?thesis unfolding sample_after_def by (metis prod.collapse)
qed

theorem intake_files_read_back_witness:
  "\<exists>rows. attachments (rs_db (is_run sample_after)) = rows \<and> length rows = 2 \<and>
     read_attachment (reader [''data''] (\<lambda>_. None) (is_files sample_after)) (rows ! 0) = Inr ''hello'' \<and>
     read_attachment (reader [''data''] (\<lambda>_. None) (is_files sample_after)) (rows ! 1) = Inr ''a;b''"
proof -
  from intake_files_read_back [OF sample_accepted sample_ids, of "\<lambda>_. None"] obtain rows where
    rows: "attachments (rs_db (is_run sample_after)) = attachments (rs_db (is_run sample_state)) @ rows" "length rows = length sample_files"
    and read: "\<And>k. k < length sample_files \<Longrightarrow> read_attachment (reader (ie_root sample_intake) (\<lambda>_. None) (is_files sample_after)) (rows ! k) =
      extractText (\<lambda>_. None) (buffer (sample_files ! k)) (originalname (sample_files ! k))" by blast
  have "lower_case (extname ''../x y.txt'') = ''.txt''" "lower_case (extname ''lista.CSV'') = ''.csv''" by code_simp+
  then have "extractText (\<lambda>_. None) (buffer (sample_files ! 0)) (originalname (sample_files ! 0)) = Inr ''hello''"
    "extractText (\<lambda>_. None) (buffer (sample_files ! 1)) (originalname (sample_files ! 1)) = Inr ''a;b''"
    by (simp_all add: sample_files_def extractText_def MAX_PARSED_TEXT_CHARS_def Let_def)
  with read [of 0] read [of 1] rows show ?thesis
    by (simp add: sample_files_def sample_state_def empty_db_def sample_intake_def)
qed

section \<open>No accepted request is lost\<close>

lemma enqueueOrRecover_request:
  assumes "find_request r (rs_db s) = Some q" and "status q = St_Parsing" and "clock (rs_db s) = t"
    and "processing_started_at q = None \<or> processing_started_at q = Some t" and "r_created_at q = t"
  shows "\<exists>q'. find_request r (rs_db (enqueueOrRecover mark_ok r s)) = Some q' \<and> status q' = St_Parsing \<and>
    current_node q' = current_node q \<and> r_created_at q' = t \<and> (processing_started_at q' = None \<or> processing_started_at q' = Some t) \<and>
    clock (rs_db (enqueueOrRecover mark_ok r s)) = t"
proof (cases "enqueue r None False s")
  case (Some s')
  then have "rs_db s' = rs_db s" by (auto simp: enqueue_def enqueueWithTrace_def queue_add_def split: if_splits)
  with assms show ?thesis by (simp add: enqueueOrRecover_def Some)
next
  case None
  let ?f = "\<lambda>r. r\<lparr>status := St_Parsing, processing_started_at := Some t\<rparr>"
  have "find_request r (markProcessing r (rs_db s)) = Some (?f q)"
  proof -
    have "find (\<lambda>x. r_id x = r) (update_where (\<lambda>x. r_id x = r \<and> status x \<notin> set TERMINAL_STATUSES) ?f (requests (rs_db s))) =
        map_option (\<lambda>x. if r_id x = r \<and> status x \<notin> set TERMINAL_STATUSES then ?f x else x) (find (\<lambda>x. r_id x = r) (requests (rs_db s)))"
      by (rule find_update_where) simp
    moreover have "r_id q = r" using find_request_Some [OF assms(1)] by simp
    ultimately show ?thesis using assms(1-3)
      by (simp add: find_request_def markProcessing_def update_requests_def TERMINAL_STATUSES_def)
  qed
  moreover have "clock (markProcessing r (rs_db s)) = t" using assms(3) by (simp add: markProcessing_def update_requests_def)
  ultimately show ?thesis using assms by (simp add: enqueueOrRecover_def None)
qed

lemma store_files_frame:
  "store_files e k files d fs = (None, d', fs') \<Longrightarrow> requests d' = requests d \<and> clock d' = clock d"
proof (induction files arbitrary: k d fs)
  case (Cons f rest)
  from Cons.prems obtain url fs1 where
    "put_object (ie_root e) (ie_can_write e) (storage_key (ie_request_id e) (ie_uuid e k) (originalname f)) (buffer f) fs = (Inr url, fs1)"
    by (auto split: prod.splits sum.splits)
  with Cons.prems have "store_files e (k + 1) rest (d\<lparr>attachments := attachments d @ [\<lparr>at_id = ie_attachment_id e k,
      at_request_id = ie_request_id e, filename = originalname f, mime_type = mimetype f, size_bytes = uf_size f, storage_url = url,
      parsed_text = None, parse_status = Unparsed, parse_error_reason = None, pasted_text = None\<rparr>]\<rparr>) fs1 = (None, d', fs')" by simp
  from Cons.IH [OF this] show ?case by simp
qed simp

lemma find_request_new:
  assumes "r \<notin> r_id ` set (requests d)" and "r_id q = r"
  shows "find (\<lambda>x. r_id x = r) (requests d @ [q]) = Some q"
proof -
  have "find (\<lambda>x. r_id x = r) (xs @ [q]) = Some q" if "r \<notin> r_id ` set xs" for xs
    using that assms(2) by (induction xs) auto
  with assms(1) show ?thesis by blast
qed

lemma enqueue_waiting:
  assumes "rs_up s" and "find_run (Pipeline_Key r) s = None"
  shows "\<exists>j. find_run (Pipeline_Key r) (enqueueOrRecover mark_ok r s) = Some j \<and> rj_state j = R_Waiting \<and> rj_request j = r"
proof -
  have "find (\<lambda>j. rj_key j = Pipeline_Key r) (rs_jobs s) = None" using assms(2) by (simp add: find_run_def)
  moreover have "find P (xs @ [j]) = Some j" if "find P xs = None" "P j" for P and xs :: "run_job list" and j
    using that by (induction xs) (auto split: if_splits)
  ultimately have "find (\<lambda>j. rj_key j = Pipeline_Key r) (rs_jobs s @ [j]) = Some j" if "rj_key j = Pipeline_Key r" for j :: run_job
    using that by blast
  with assms show ?thesis
    by (simp add: enqueueOrRecover_def enqueue_def enqueueWithTrace_def queue_add_def find_run_def)
qed

text \<open>
  C27. An accepted request is never lost: when it is committed it is parsing at the first node, and queued if the queue
  can be reached; and if it was not, or its job is gone, the first sweep after the stale window that finds it as the
  intake left it queues it, whether or not the stamp for the sweep could be written.
\<close>

theorem accepted_request_is_queued:
  assumes "handle_create e True ev mk dto files s = (Inr q, s')"
    and "ie_request_id e \<notin> r_id ` set (requests (rs_db (is_run s)))" and "find_run (Pipeline_Key (ie_request_id e)) (is_run s) = None"
    and "0 < secs"
  shows "\<exists>q'. find_request (r_id q) (rs_db (is_run s')) = Some q' \<and> status q' = St_Parsing \<and> current_node q' = Parse \<and>
    (rs_up (is_run s) \<longrightarrow> (\<exists>j. find_run (Pipeline_Key (r_id q)) (is_run s') = Some j \<and> rj_state j = R_Waiting \<and> rj_request j = r_id q)) \<and>
    (\<forall>w w' n. q' \<in> set (requests (rs_db w)) \<and> distinct (map r_id (requests (rs_db w))) \<and> rs_up w \<and>
       clock (rs_db (is_run s)) + secs * 1000 < clock (rs_db w) \<and> find_run (Pipeline_Key (r_id q)) w = None \<and>
       recovery_sweep secs w = Some (n, w') \<longrightarrow> recovery_job q' \<in> set (rs_jobs w'))"
proof -
  let ?r = "ie_request_id e" and ?t = "clock (rs_db (is_run s))"
  from assms(1) obtain tasks d' fs' where c: "createRequest e dto files (rs_db (is_run s)) (is_files s) = (Inr (q, tasks), d', fs')"
    and s': "s' = \<lparr>is_run = fold (run_task ev mk) tasks ((is_run s)\<lparr>rs_db := d'\<rparr>), is_files = fs'\<rparr>"
    by (auto simp: handle_create_def split: prod.splits sum.splits)
  from createRequest_ok [OF c] obtain orgId where q: "q = new_request ?r orgId dto (resolveChannel dto files) ?t"
    and tasks: "tasks = [Emit_Received orgId ?r (resolveChannel dto files) (length files), Enqueue ?r]"
    and st: "store_files e 0 files ((rs_db (is_run s))\<lparr>requests := requests (rs_db (is_run s)) @ [q]\<rparr>) (is_files s) = (None, d', fs')"
    by metis
  have frame: "requests d' = requests (rs_db (is_run s)) @ [q] \<and> clock d' = ?t" using store_files_frame [OF st] by simp
  let ?s1 = "run_task ev mk (Emit_Received orgId ?r (resolveChannel dto files) (length files)) ((is_run s)\<lparr>rs_db := d'\<rparr>)"
  have s1: "find_request ?r (rs_db ?s1) = Some q" "clock (rs_db ?s1) = ?t" "rs_up ?s1 = rs_up (is_run s)"
    "find_run (Pipeline_Key ?r) ?s1 = None"
    using frame assms(2,3) find_request_new [of ?r "rs_db (is_run s)" q] by (simp_all add: find_request_def q new_request_def find_run_def)
  have run: "is_run s' = enqueueOrRecover mk ?r ?s1" by (simp add: s' tasks)
  have rq: "r_id q = ?r" by (simp add: q new_request_def)
  obtain q' where q': "find_request ?r (rs_db (is_run s')) = Some q'" "status q' = St_Parsing" "current_node q' = Parse"
    "r_created_at q' = ?t" "processing_started_at q' = None \<or> processing_started_at q' = Some ?t"
    using enqueueOrRecover_request [OF s1(1) _ s1(2), of mk] unfolding run by (auto simp: q new_request_def)
  have "\<exists>j. find_run (Pipeline_Key ?r) (is_run s') = Some j \<and> rj_state j = R_Waiting \<and> rj_request j = ?r" if "rs_up (is_run s)"
    unfolding run by (rule enqueue_waiting) (use s1 that in simp_all)
  moreover have "recovery_job q' \<in> set (rs_jobs w')"
    if w: "q' \<in> set (requests (rs_db w))" "distinct (map r_id (requests (rs_db w)))" "rs_up w" "?t + secs * 1000 < clock (rs_db w)"
      "find_run (Pipeline_Key ?r) w = None" "recovery_sweep secs w = Some (n, w')" for w w' n
  proof -
    have "stale secs (rs_db w) q'" using q' w(4) by (auto simp: stale_def)
    moreover have "r_id q' = ?r" using find_request_Some [OF q'(1)] by simp
    ultimately show ?thesis using recovery_sweep_outcome [OF w(3,2) assms(4)] w(1,5,6) by auto
  qed
  ultimately show ?thesis using q' unfolding rq by blast
qed

text \<open>The sample of above is accepted while the queue is down; the sweep after the stale window queues it.\<close>

definition swept :: run_sys where
  "swept = (is_run sample_after)\<lparr>rs_db := (rs_db (is_run sample_after))\<lparr>clock := 400000\<rparr>, rs_up := True\<rparr>"

theorem accepted_request_is_queued_witness:
  "\<exists>w'. recovery_sweep 300 swept = Some (1, w') \<and> rs_jobs (is_run sample_after) = [] \<and> length (rs_jobs w') = 1 \<and>
     (\<exists>q'. r_id q' = ''r9'' \<and> recovery_job q' \<in> set (rs_jobs w'))"
proof -
  have fresh: "ie_request_id sample_intake \<notin> r_id ` set (requests (rs_db (is_run sample_state)))"
    "find_run (Pipeline_Key (ie_request_id sample_intake)) (is_run sample_state) = None"
    by (simp_all add: sample_state_def empty_db_def find_run_def)
  have id: "r_id sample_request = ''r9''" by (simp add: sample_request_def new_request_def)
  from accepted_request_is_queued [OF sample_accepted fresh, of 300] obtain q' where
    q': "find_request ''r9'' (rs_db (is_run sample_after)) = Some q'"
    and later: "\<And>w w' n. q' \<in> set (requests (rs_db w)) \<and> distinct (map r_id (requests (rs_db w))) \<and> rs_up w \<and>
       clock (rs_db (is_run sample_state)) + 300 * 1000 < clock (rs_db w) \<and> find_run (Pipeline_Key ''r9'') w = None \<and>
       recovery_sweep 300 w = Some (n, w') \<Longrightarrow> recovery_job q' \<in> set (rs_jobs w')"
    unfolding id by auto
  have "map_option fst (recovery_sweep 300 swept) = Some 1" "map_option (\<lambda>(n, w). length (rs_jobs w)) (recovery_sweep 300 swept) = Some 1"
    and jobs: "rs_jobs (is_run sample_after) = []" by code_simp+
  then obtain w' where w': "recovery_sweep 300 swept = Some (1, w')" "length (rs_jobs w') = 1" by (auto simp: map_option_eq_Some)
  have "map r_id (requests (rs_db swept)) = [''r9'']" "clock (rs_db swept) = 400000" "rs_up swept" "rs_jobs swept = []" by code_simp+
  moreover have "q' \<in> set (requests (rs_db swept))" "r_id q' = ''r9''" using find_request_Some [OF q'] by (simp_all add: swept_def)
  ultimately have "recovery_job q' \<in> set (rs_jobs w')" using later [of swept 1 w'] w'
    by (simp add: find_run_def sample_state_def empty_db_def)
  with w' jobs \<open>r_id q' = ''r9''\<close> show ?thesis by blast
qed

text \<open>A commit that fails after the answer was written: the caller was told the request exists, and it does not.\<close>

lemma failed_commit_is_answered:
  assumes "createRequest e dto files (rs_db (is_run s)) (is_files s) = (Inr (q, tasks), d', fs')"
  shows "handle_create e False ev mk dto files s = (Inr q, s\<lparr>is_files := fs'\<rparr>)"
  using assms by (simp add: handle_create_def)

end
