(* ===== verification/Number_Text.thy ===== *)
theory Number_Text
  imports Js_Text
begin

text \<open>
  Facts about decimal numerals: the digits of a natural number read back, and what the readers of \<^verbatim>\<open>Js_Text\<close> make of a
  text that starts with digits. The catalog import and the policy file share them.
\<close>

lemma digits_val_append: "digits_val 10 (s @ t) = digits_val 10 s * 10 ^ length t + digits_val 10 t"
proof (induction t rule: rev_induct)
  case (snoc c t)
  then show ?case by (simp add: digits_val_def algebra_simps)
qed (simp add: digits_val_def)

lemma digit_char: "k < 10 \<Longrightarrow> is_digit (char_of (48 + k)) \<and> digit_val (char_of (48 + k)) = k" for k :: nat
  by (simp add: is_digit_def digit_val_def Let_def)

lemma digits_val_single: "digits_val 10 [c] = int (digit_val c)"
  by (simp add: digits_val_def)

lemma nat_digits_val: "digits_val 10 (nat_digits n) = int n \<and> list_all is_digit (nat_digits n) \<and> nat_digits n \<noteq> []"
proof (induction n rule: nat_digits.induct)
  case (1 n)
  show ?case
  proof (cases "n < 10")
    case True
    then show ?thesis using digit_char [of n] by (simp add: nat_digits.simps [of n] digits_val_single)
  next
    case False
    then show ?thesis using 1 digit_char [of "n mod 10"]
      by (simp add: nat_digits.simps [of n] digits_val_append digits_val_single) presburger
  qed
qed

lemma digits_val_nonneg: "0 \<le> digits_val 10 s"
  by (induction s rule: rev_induct) (simp_all add: digits_val_def)

lemma digits_val_zeros: "digits_val 10 (replicate n CHR ''0'') = 0"
  by (induction n) (simp_all add: digits_val_def digit_val_def)

lemma is_digit_cases:
  assumes "is_digit c"
  shows "c \<in> set ''0123456789''"
proof -
  let ?n = "of_char c :: nat"
  have "?n \<in> {48, 49, 50, 51, 52, 53, 54, 55, 56, 57}" using assms by (simp add: is_digit_def) presburger
  then have "c \<in> char_of ` {48, 49, 50, 51, 52, 53, 54, 55, 56, 57 :: nat}" by (metis char_of_char imageI)
  also have "char_of ` {48, 49, 50, 51, 52, 53, 54, 55, 56, 57 :: nat} = set ''0123456789''" by code_simp
  finally show ?thesis .
qed

lemma signed_digits: 
  assumes "whole \<noteq> []" and "list_all is_digit whole"
  shows "signed (whole @ r) = (1, whole @ r)"
proof -
  obtain c cs where "whole = c # cs" "is_digit c" using assms by (cases whole) auto
  with is_digit_cases [of c] show ?thesis by (auto simp: signed_def)
qed

lemma nat_digits_digits: "c \<in> set (nat_digits n) \<Longrightarrow> is_digit c"
  using nat_digits_val [of n] by (simp add: list_all_iff)

lemma nat_digits_ne [simp]: "nat_digits n \<noteq> []"
  using nat_digits_val [of n] by simp

end
