(* ===== verification/Catalog_Import.thy ===== *)
theory Catalog_Import
  imports Quote_Store Number_Text Entities "HOL-Library.Monad_Syntax"
begin

text \<open>
  The import of a catalog from a CSV or XLSX file (\<open>catalog/catalog-import.service.ts\<close>): the reading of a
  worksheet into rows, the parsing of a row, and the insertion or update of the products with their embeddings.
  The library that reads the file is a parameter: it gives the rows that have a value, with their numbers, and of
  every cell its value and its text.
\<close>

section \<open>The worksheet\<close>

datatype raw_value = V_Null | V_Num rat | V_Bool bool | V_Str string

text \<open>A cell: absent, a number, a boolean, or a value of another kind of which only the text is read.\<close>

datatype sheet_cell = Cell_Empty | Cell_Num rat string | Cell_Bool bool string | Cell_Text string

fun cell_text :: "sheet_cell \<Rightarrow> string" where
  "cell_text Cell_Empty = []"
| "cell_text (Cell_Num x t) = t"
| "cell_text (Cell_Bool b t) = t"
| "cell_text (Cell_Text t) = t"

type_synonym worksheet = "(nat \<times> sheet_cell list) list"

definition getRow :: "worksheet \<Rightarrow> nat \<Rightarrow> sheet_cell list" where
  "getRow ws n = (case map_of ws n of Some cs \<Rightarrow> cs | None \<Rightarrow> [])"

definition getCell :: "sheet_cell list \<Rightarrow> nat \<Rightarrow> sheet_cell" where
  "getCell cs column = (if 1 \<le> column \<and> column \<le> length cs then cs ! (column - 1) else Cell_Empty)"

definition rowCount :: "worksheet \<Rightarrow> nat" where
  "rowCount ws = fold max (map fst ws) 0"

definition actualCellCount :: "sheet_cell list \<Rightarrow> nat" where
  "actualCellCount cs = length (filter (\<lambda>c. c \<noteq> Cell_Empty) cs)"

record catalog_upload =
  cu_originalname :: string
  cu_buffer :: string

text \<open>
  The environment: the two readers of the library (\<open>None\<close> when they throw, \<open>Some None\<close> without a worksheet), the
  JSON reader, the embeddings with the message of their failure, and the identifiers of new products.
\<close>

record import_env =
  im_xlsx :: "string \<Rightarrow> worksheet option option"
  im_csv :: "char \<Rightarrow> string \<Rightarrow> worksheet option option"
  im_json :: "string \<Rightarrow> json option"
  im_embed :: "string \<Rightarrow> rat list option"
  im_message :: "string \<Rightarrow> string"
  im_new_id :: "nat \<Rightarrow> uuid"

section \<open>Values\<close>

fun value_text :: "raw_value \<Rightarrow> string" where
  "value_text V_Null = ''null''"
| "value_text (V_Num x) = number_text x"
| "value_text (V_Bool b) = (if b then ''true'' else ''false'')"
| "value_text (V_Str s) = s"

text \<open>\<open>String(value ?? '')\<close>.\<close>

fun text_or_empty :: "raw_value option \<Rightarrow> string" where
  "text_or_empty None = []"
| "text_or_empty (Some V_Null) = []"
| "text_or_empty (Some v) = value_text v"

text \<open>\<open>value !== undefined && value !== null && value !== ''\<close>.\<close>

definition present :: "raw_value option \<Rightarrow> bool" where
  "present v \<longleftrightarrow> v \<noteq> None \<and> v \<noteq> Some V_Null \<and> v \<noteq> Some (V_Str [])"

fun cellValue :: "sheet_cell \<Rightarrow> raw_value" where
  "cellValue Cell_Empty = V_Null"
| "cellValue (Cell_Num x t) = V_Num x"
| "cellValue (Cell_Bool b t) = V_Bool b"
| "cellValue (Cell_Text t) = V_Str (trim t)"

definition HEADER_ALIASES :: "(string \<times> string) list" where
  "HEADER_ALIASES =
     [(''codigo'', ''sku_code''), (''c'' @ [CHR 0xF3] @ ''digo'', ''sku_code''), (''nome'', ''name''),
      (''descricao'', ''description''), (''descri'' @ [CHR 0xE7, CHR 0xE3] @ ''o'', ''description''), (''atributos'', ''attributes''),
      (''preco_eur'', ''base_price_eur''), (''pre'' @ [CHR 0xE7] @ ''o_eur'', ''base_price_eur''), (''custo_eur'', ''cost_eur''),
      (''moeda'', ''currency''), (''prazo_dias'', ''lead_time_days''), (''ativo'', ''active'')]"

text \<open>\<open>replace(/[\s-]+/g, '_')\<close>.\<close>

fun underscored :: "bool \<Rightarrow> string \<Rightarrow> string" where
  "underscored inside [] = []"
| "underscored inside (c # cs) =
     (if js_space c \<or> c = CHR ''-'' then (if inside then underscored True cs else CHR ''_'' # underscored True cs)
      else c # underscored False cs)"

definition normalizeHeader :: "string \<Rightarrow> string" where
  "normalizeHeader value =
     (let normalized = underscored False (lower_pt (trim value)) in
      case map_of HEADER_ALIASES normalized of Some h \<Rightarrow> h | None \<Rightarrow> normalized)"

section \<open>Reading the rows\<close>

datatype import_error = Bad_Format | Unreadable_File | No_Products | Missing_Headers | No_Price_Header | Column_Error

type_synonym raw_row = "string \<Rightarrow> raw_value option"

definition after_last :: "char \<Rightarrow> string \<Rightarrow> string" where
  "after_last c s = rev (takeWhile (\<lambda>x. x \<noteq> c) (rev s))"

definition first_line :: "string \<Rightarrow> string" where
  "first_line s =
     (let l = takeWhile (\<lambda>c. c \<noteq> CHR 0x0A) s in
      if l \<noteq> s \<and> l \<noteq> [] \<and> last l = CHR 0x0D then butlast l else l)"

definition read_sheet :: "import_env \<Rightarrow> catalog_upload \<Rightarrow> import_error + worksheet option" where
  "read_sheet e f =
     (let extension = after_last CHR ''.'' (lower_pt (cu_originalname f)) in
      if extension \<noteq> ''csv'' \<and> extension \<noteq> ''xlsx'' then Inl Bad_Format
      else
        (case (if extension = ''xlsx'' then im_xlsx e (cu_buffer f)
               else im_csv e (if CHR '';'' \<in> set (first_line (cu_buffer f)) then CHR '';'' else CHR '','') (cu_buffer f)) of
           None \<Rightarrow> Inl Unreadable_File
         | Some ws \<Rightarrow> Inr ws))"

definition headers_of :: "worksheet \<Rightarrow> string list" where
  "headers_of ws =
     (let row = getRow ws 1 in map (\<lambda>column. normalizeHeader (cell_text (getCell row column))) [1..<Suc (actualCellCount row)])"

definition row_record :: "string list \<Rightarrow> sheet_cell list \<Rightarrow> raw_row" where
  "row_record headers cells =
     fold (\<lambda>(column, h) m. if h = [] then m else m(h \<mapsto> cellValue (getCell cells column))) (enumerate 1 headers) Map.empty"

definition row_has_value :: "string list \<Rightarrow> sheet_cell list \<Rightarrow> bool" where
  "row_has_value headers cells \<longleftrightarrow>
     (\<exists>(column, h) \<in> set (enumerate 1 headers). h \<noteq> [] \<and>
        (let v = cellValue (getCell cells column) in v \<noteq> V_Null \<and> trim (value_text v) \<noteq> []))"

definition readRows :: "import_env \<Rightarrow> catalog_upload \<Rightarrow> import_error + raw_row list" where
  "readRows e f =
     (case read_sheet e f of
        Inl err \<Rightarrow> Inl err
      | Inr None \<Rightarrow> Inl No_Products
      | Inr (Some ws) \<Rightarrow>
          if rowCount ws < 2 then Inl No_Products
          else
            (let headers = headers_of ws in
             if ''sku_code'' \<notin> set headers \<or> ''name'' \<notin> set headers then Inl Missing_Headers
             else if ''base_price_minor'' \<notin> set headers \<and> ''base_price_eur'' \<notin> set headers then Inl No_Price_Header
             else Inr (map (row_record headers \<circ> snd) (filter (\<lambda>(n, cells). n \<noteq> 1 \<and> row_has_value headers cells) ws))))"

section \<open>Parsing a row\<close>

datatype row_error = Required string | Not_Integer string | Too_Large string | Too_Many_Decimals string | Bad_Attributes | Not_Euro | Bad_Active

record parsed_sku =
  ps_sku_code :: string
  ps_name :: string
  ps_description :: "string option"
  ps_attributes :: json
  ps_base_price_minor :: int
  ps_cost_minor :: "int option"
  ps_currency :: string
  ps_lead_time_days :: "int option"
  ps_active :: bool

definition optionalText :: "raw_value option \<Rightarrow> string option" where
  "optionalText v = (case v of None \<Rightarrow> None | Some V_Null \<Rightarrow> None | Some v \<Rightarrow> (let t = trim (value_text v) in if t = [] then None else Some t))"

definition requiredText :: "raw_value option \<Rightarrow> string \<Rightarrow> row_error + string" where
  "requiredText v name = (case optionalText v of None \<Rightarrow> Inl (Required name) | Some t \<Rightarrow> Inr t)"

definition MAX_SAFE_INTEGER :: int where
  "MAX_SAFE_INTEGER = 9007199254740991"

definition nonNegativeInteger :: "raw_value option \<Rightarrow> string \<Rightarrow> row_error + int" where
  "nonNegativeInteger v name =
     (let t = trim (text_or_empty v) in
      if t = [] \<or> \<not> list_all is_digit t then Inl (Not_Integer name)
      else if MAX_SAFE_INTEGER < digits_val 10 t then Inl (Too_Large name)
      else Inr (digits_val 10 t))"

text \<open>\<open>replace(',', '.')\<close> replaces the first comma.\<close>

fun first_comma :: "string \<Rightarrow> string" where
  "first_comma [] = []"
| "first_comma (c # cs) = (if c = CHR '','' then CHR ''.'' # cs else c # first_comma cs)"

text \<open>The pattern: digits, and after a point one or two digits.\<close>

definition euro_parts :: "string \<Rightarrow> (string \<times> string) option" where
  "euro_parts t =
     (let whole = takeWhile is_digit t; rest = dropWhile is_digit t in
      if whole = [] then None
      else (case rest of
              [] \<Rightarrow> Some (whole, [])
            | c # decimals \<Rightarrow>
                if c = CHR ''.'' \<and> list_all is_digit decimals \<and> (length decimals = 1 \<or> length decimals = 2) then Some (whole, decimals) else None))"

definition padEnd2 :: "string \<Rightarrow> string" where
  "padEnd2 s = s @ replicate (2 - length s) CHR ''0''"

definition eurosToMinor :: "raw_value option \<Rightarrow> string \<Rightarrow> row_error + int" where
  "eurosToMinor v name =
     (case euro_parts (first_comma (trim (text_or_empty v))) of
        None \<Rightarrow> Inl (Too_Many_Decimals name)
      | Some (whole, decimals) \<Rightarrow>
          (let minor = digits_val 10 whole * 100 + digits_val 10 (padEnd2 decimals) in
           if MAX_SAFE_INTEGER < minor then Inl (Too_Large name) else Inr minor))"

fun booleanValue :: "raw_value option \<Rightarrow> row_error + bool" where
  "booleanValue None = Inr True"
| "booleanValue (Some V_Null) = Inr True"
| "booleanValue (Some (V_Bool b)) = Inr b"
| "booleanValue (Some v) =
     (if v = V_Str [] then Inr True
      else (let n = lower_pt (trim (value_text v)) in
        if n \<in> set [''true'', ''1'', ''sim'', ''yes''] then Inr True
        else if n \<in> set [''false'', ''0'', ''n'' @ [CHR 0xE3] @ ''o'', ''nao'', ''no''] then Inr False
        else Inl Bad_Active))"

text \<open>\<open>toUpperCase\<close> within Latin-1.\<close>

definition upper :: "string \<Rightarrow> string" where
  "upper s = concat (map (\<lambda>c. let n = of_char c :: nat in
     if 97 \<le> n \<and> n \<le> 122 \<or> 224 \<le> n \<and> n \<le> 254 \<and> n \<noteq> 247 then [char_of (n - 32)] else if n = 223 then ''SS'' else [c]) s)"

fun bind_row :: "'e + 'a \<Rightarrow> ('a \<Rightarrow> 'e + 'b) \<Rightarrow> 'e + 'b" where
  "bind_row (Inl e) k = Inl e"
| "bind_row (Inr x) k = k x"

definition base_price :: "raw_row \<Rightarrow> row_error + int" where
  "base_price row =
     (case row ''base_price_minor'' of
        Some v \<Rightarrow> nonNegativeInteger (if v = V_Null then row ''base_price_eur'' else Some v) ''base_price_minor''
      | None \<Rightarrow> eurosToMinor (row ''base_price_eur'') ''base_price_eur'')"

definition cost_price :: "raw_row \<Rightarrow> row_error + int option" where
  "cost_price row =
     (if present (row ''cost_minor'') then bind_row (nonNegativeInteger (row ''cost_minor'') ''cost_minor'') (Inr \<circ> Some)
      else if present (row ''cost_eur'') then bind_row (eurosToMinor (row ''cost_eur'') ''cost_eur'') (Inr \<circ> Some)
      else Inr None)"

definition row_attributes :: "(string \<Rightarrow> json option) \<Rightarrow> raw_row \<Rightarrow> row_error + json" where
  "row_attributes parse row =
     (if present (row ''attributes'')
      then (case parse (value_text (the (row ''attributes''))) of Some (JObj fs) \<Rightarrow> Inr (JObj fs) | _ \<Rightarrow> Inl Bad_Attributes)
      else Inr (JObj []))"

definition row_lead_time :: "raw_row \<Rightarrow> row_error + int option" where
  "row_lead_time row =
     (if present (row ''lead_time_days'') then bind_row (nonNegativeInteger (row ''lead_time_days'') ''lead_time_days'') (Inr \<circ> Some)
      else Inr None)"

definition parseRow :: "(string \<Rightarrow> json option) \<Rightarrow> raw_row \<Rightarrow> row_error + parsed_sku" where
  "parseRow parse row =
     bind_row (requiredText (row ''sku_code'') ''sku_code'') (\<lambda>code.
     bind_row (requiredText (row ''name'') ''name'') (\<lambda>name.
     bind_row (base_price row) (\<lambda>price.
     bind_row (cost_price row) (\<lambda>cost.
     bind_row (row_attributes parse row) (\<lambda>attrs.
     if \<not> isEuroCurrency (upper (case optionalText (row ''currency'') of None \<Rightarrow> STRATOS_CURRENCY | Some c \<Rightarrow> c)) then Inl Not_Euro
     else
       bind_row (row_lead_time row) (\<lambda>lead.
       bind_row (booleanValue (row ''active'')) (\<lambda>act.
         Inr \<lparr>ps_sku_code = upper code, ps_name = name, ps_description = optionalText (row ''description''), ps_attributes = attrs,
           ps_base_price_minor = price, ps_cost_minor = cost, ps_currency = STRATOS_CURRENCY, ps_lead_time_days = lead,
           ps_active = act\<rparr>)))))))"

section \<open>Storing the products\<close>

record import_result =
  created :: nat
  updated :: nat
  errors :: "(nat \<times> row_error) list"
  emb_ready :: nat
  emb_pending :: nat
  emb_unavailable :: nat

text \<open>The loop so far: the result, the skus enqueued after the commit, and the database.\<close>

record import_acc =
  ia_result :: import_result
  ia_tasks :: "uuid list"
  ia_db :: db

definition put_sku :: "uuid \<Rightarrow> (sku \<Rightarrow> sku) \<Rightarrow> db \<Rightarrow> db" where
  "put_sku i f d = d\<lparr>skus := update_where (\<lambda>k. sku_id k = i) f (skus d)\<rparr>"

definition find_code :: "uuid \<Rightarrow> string \<Rightarrow> db \<Rightarrow> sku option" where
  "find_code orgId code d = find (\<lambda>k. sku_org_id k = orgId \<and> sku_code k = code) (skus d)"

text \<open>What the columns of the table accept.\<close>

definition columns_ok :: "parsed_sku \<Rightarrow> bool" where
  "columns_ok p \<longleftrightarrow> int_column (of_int (ps_base_price_minor p)) \<noteq> None \<and>
     (case ps_cost_minor p of None \<Rightarrow> True | Some c \<Rightarrow> int_column (of_int c) \<noteq> None) \<and>
     (case ps_lead_time_days p of None \<Rightarrow> True | Some n \<Rightarrow> smallint_column n \<noteq> None)"

definition assigned :: "parsed_sku \<Rightarrow> millis \<Rightarrow> sku \<Rightarrow> sku" where
  "assigned p t k = k\<lparr>sku_code := ps_sku_code p, sku_name := ps_name p, sku_description := ps_description p,
     sku_attributes := ps_attributes p, base_price_minor := ps_base_price_minor p, cost_minor := ps_cost_minor p,
     sku_currency := ps_currency p, sku_lead_time_days := ps_lead_time_days p, sku_active := ps_active p,
     embedding_status := Emb_Pending, embedding_error := None, sku_updated_at := t\<rparr>"

definition blank_sku :: "uuid \<Rightarrow> uuid \<Rightarrow> sku" where
  "blank_sku i orgId = \<lparr>sku_id = i, sku_org_id = orgId, sku_code = [], sku_name = [], base_price_minor = 0, cost_minor = None,
     sku_currency = STRATOS_CURRENCY, sku_lead_time_days = None, sku_active = True, sku_description = None, sku_embedding = None,
     embedding_status = Emb_Pending, sku_attributes = JObj [], embedding_error = None, sku_updated_at = 0\<rparr>"

text \<open>\<open>filter(Boolean).join(' ')\<close>.\<close>

definition spaced :: "string list \<Rightarrow> string" where
  "spaced parts = concat (map (\<lambda>(i, s). (if i = 0 then [] else '' '') @ s) (enumerate (0 :: nat) (filter (\<lambda>s. s \<noteq> []) parts)))"

definition embedding_text :: "sku \<Rightarrow> string" where
  "embedding_text k = spaced [sku_code k, sku_name k, (case sku_description k of None \<Rightarrow> [] | Some t \<Rightarrow> t)]"

definition embedded :: "rat list \<Rightarrow> millis \<Rightarrow> sku \<Rightarrow> sku" where
  "embedded v t k = k\<lparr>sku_embedding := Some v, embedding_status := Emb_Ready, embedding_error := None, sku_updated_at := t\<rparr>"

definition not_embedded :: "string \<Rightarrow> millis \<Rightarrow> sku \<Rightarrow> sku" where
  "not_embedded message t k = k\<lparr>embedding_status := Emb_Unavailable, embedding_error := Some (take 500 message), sku_updated_at := t\<rparr>"

definition import_refresh :: "import_env \<Rightarrow> sku \<Rightarrow> import_acc \<Rightarrow> import_acc" where
  "import_refresh e k a =
     (let r = ia_result a; d = ia_db a in
      case im_embed e (embedding_text k) of
        Some v \<Rightarrow> a\<lparr>ia_result := r\<lparr>emb_ready := emb_ready r + 1\<rparr>, ia_db := put_sku (sku_id k) (embedded v (clock d)) d\<rparr>
      | None \<Rightarrow> a\<lparr>ia_result := r\<lparr>emb_unavailable := emb_unavailable r + 1\<rparr>,
                  ia_db := put_sku (sku_id k) (not_embedded (im_message e (embedding_text k)) (clock d)) d\<rparr>)"

text \<open>
  One product: updated when the organisation has its code, created otherwise; \<open>None\<close> when the database refuses it.
  \<open>deferred\<close>: the embedding is enqueued after the commit.
\<close>

definition save_sku :: "import_env \<Rightarrow> bool \<Rightarrow> uuid \<Rightarrow> nat \<Rightarrow> parsed_sku \<Rightarrow> import_acc \<Rightarrow> import_acc option" where
  "save_sku e deferred orgId n p a =
     (let d = ia_db a; r = ia_result a in
      if \<not> columns_ok p then None
      else
        (let (saved, d, r) =
           (case find_code orgId (ps_sku_code p) d of
              Some k \<Rightarrow> (assigned p (clock d) k, put_sku (sku_id k) (assigned p (clock d)) d, r\<lparr>updated := updated r + 1\<rparr>)
            | None \<Rightarrow>
                (let k = assigned p (clock d) (blank_sku (im_new_id e n) orgId)
                 in (k, d\<lparr>skus := skus d @ [k]\<rparr>, r\<lparr>created := created r + 1\<rparr>)))
         in Some (if deferred
                  then a\<lparr>ia_result := r\<lparr>emb_pending := emb_pending r + 1\<rparr>, ia_tasks := ia_tasks a @ [sku_id saved], ia_db := d\<rparr>
                  else import_refresh e saved (a\<lparr>ia_result := r, ia_db := d\<rparr>))))"

fun save_skus :: "import_env \<Rightarrow> bool \<Rightarrow> uuid \<Rightarrow> nat \<Rightarrow> parsed_sku list \<Rightarrow> import_acc \<Rightarrow> import_acc option" where
  "save_skus e deferred orgId n [] a = Some a"
| "save_skus e deferred orgId n (p # ps) a =
     (case save_sku e deferred orgId n p a of None \<Rightarrow> None | Some a \<Rightarrow> save_skus e deferred orgId (n + 1) ps a)"

definition numbered_rows :: "import_env \<Rightarrow> raw_row list \<Rightarrow> (nat \<times> (row_error + parsed_sku)) list" where
  "numbered_rows e rows = map (\<lambda>(k, row). (k + 2, parseRow (im_json e) row)) (enumerate 0 rows)"

definition row_errors :: "(nat \<times> (row_error + parsed_sku)) list \<Rightarrow> (nat \<times> row_error) list" where
  "row_errors xs = concat (map (\<lambda>(n, x). case x of Inl err \<Rightarrow> [(n, err)] | Inr p \<Rightarrow> []) xs)"

definition valid_rows :: "(nat \<times> (row_error + parsed_sku)) list \<Rightarrow> parsed_sku list" where
  "valid_rows xs = concat (map (\<lambda>(n, x). case x of Inl err \<Rightarrow> [] | Inr p \<Rightarrow> [p]) xs)"

text \<open>The import; an exception leaves the transaction of the caller to be rolled back.\<close>

definition import_catalog :: "import_env \<Rightarrow> bool \<Rightarrow> uuid \<Rightarrow> catalog_upload \<Rightarrow> db \<Rightarrow> import_error + import_acc" where
  "import_catalog e deferred orgId f d =
     (case readRows e f of
        Inl err \<Rightarrow> Inl err
      | Inr rows \<Rightarrow>
          (let xs = numbered_rows e rows;
               r = \<lparr>created = 0, updated = 0, errors = row_errors xs, emb_ready = 0, emb_pending = 0, emb_unavailable = 0\<rparr>
           in case save_skus e deferred orgId 0 (valid_rows xs) \<lparr>ia_result = r, ia_tasks = [], ia_db = d\<rparr> of
                None \<Rightarrow> Inl Column_Error
              | Some a \<Rightarrow> Inr a))"

lemma import_catalog_run:
  assumes "import_catalog e deferred orgId f d = Inr a"
  shows "\<exists>n ps a0. save_skus e deferred orgId n ps a0 = Some a \<and> ia_db a0 = d"
proof (cases "readRows e f")
  case (Inr rows)
  let ?xs = "numbered_rows e rows"
  let ?a0 = "\<lparr>ia_result = \<lparr>created = 0, updated = 0, errors = row_errors ?xs, emb_ready = 0, emb_pending = 0, emb_unavailable = 0\<rparr>,
    ia_tasks = [], ia_db = d\<rparr>"
  have "save_skus e deferred orgId 0 (valid_rows ?xs) ?a0 = Some a"
    using assms by (simp add: import_catalog_def Let_def Inr split: option.splits)
  moreover have "ia_db ?a0 = d" by simp
  ultimately show ?thesis by blast
qed (use assms in \<open>simp add: import_catalog_def\<close>)

section \<open>Amounts in euros\<close>

lemma euro_parts_Some:
  assumes "euro_parts t = Some (whole, cents)"
  shows "whole \<noteq> [] \<and> list_all is_digit whole \<and> list_all is_digit cents \<and> length cents \<le> 2 \<and>
    t = whole @ (if cents = [] then [] else CHR ''.'' # cents)"
proof -
  obtain w r where w: "w = takeWhile is_digit t" and r: "r = dropWhile is_digit t" and t: "t = w @ r" by (metis takeWhile_dropWhile_id)
  have d: "list_all is_digit w" unfolding w by (auto simp: list_all_iff dest: set_takeWhileD)
  have "(if w = [] then None else (case r of [] \<Rightarrow> Some (w, [])
      | c # x \<Rightarrow> if c = CHR ''.'' \<and> list_all is_digit x \<and> (length x = 1 \<or> length x = 2) then Some (w, x) else None)) = Some (whole, cents)"
    using assms unfolding euro_parts_def Let_def w r .
  with d show ?thesis unfolding t by (cases r) (auto split: if_splits)
qed

text \<open>
  C31. The conversion of a price in euros is exact: the text it accepts is a decimal numeral, the amount is a hundred
  times its value, and it lies between zero and the largest integer the language represents exactly.
\<close>

theorem euros_are_exact:
  assumes "eurosToMinor v name = Inr m"
  shows "decimal (first_comma (trim (text_or_empty v))) = Some (of_int m / 100) \<and> 0 \<le> m \<and> m \<le> MAX_SAFE_INTEGER"
proof -
  let ?t = "first_comma (trim (text_or_empty v))"
  obtain whole cents where p: "euro_parts ?t = Some (whole, cents)"
    and m: "m = digits_val 10 whole * 100 + digits_val 10 (padEnd2 cents)" "m \<le> MAX_SAFE_INTEGER"
    using assms by (auto simp: eurosToMinor_def Let_def split: option.splits if_splits)
  note parts = euro_parts_Some [OF p]
  have sg: "signed ?t = (1, ?t)" using parts signed_digits [of whole] by metis
  have w: "takeWhile is_digit ?t = whole" "dropWhile is_digit ?t = (if cents = [] then [] else CHR ''.'' # cents)"
  proof -
    have "\<not> is_digit CHR ''.''" by (simp add: is_digit_def)
    moreover have "\<And>x. x \<in> set whole \<Longrightarrow> is_digit x" using parts by (simp add: list_all_iff)
    moreover have "?t = whole @ (if cents = [] then [] else CHR ''.'' # cents)" using parts by blast
    ultimately show "takeWhile is_digit ?t = whole" "dropWhile is_digit ?t = (if cents = [] then [] else CHR ''.'' # cents)"
      by (cases "cents = []"; simp add: takeWhile_append dropWhile_append)+
  qed
  have c: "takeWhile is_digit cents = cents" "dropWhile is_digit cents = []"
    using parts by (simp_all add: list_all_iff takeWhile_eq_all_conv dropWhile_eq_Nil_conv)
  have dec: "decimal ?t = Some (of_int (digits_val 10 (whole @ cents)) * pow10 (- int (length cents)))"
    unfolding decimal_def sg Let_def prod.case w using parts by (simp add: exponent_def c)
  have "digits_val 10 (padEnd2 cents) = digits_val 10 cents * 10 ^ (2 - length cents)"
    by (simp add: padEnd2_def digits_val_append digits_val_zeros)
  moreover have "length cents = 0 \<or> length cents = 1 \<or> length cents = 2" using parts by linarith
  ultimately have "(of_int (digits_val 10 (whole @ cents)) :: rat) * pow10 (- int (length cents)) = of_int m / 100"
    unfolding m digits_val_append by (auto simp: pow10_def)
  moreover have "0 \<le> m" unfolding m using digits_val_nonneg by (simp add: add_nonneg_nonneg)
  ultimately show ?thesis using dec m(2) by simp
qed

section \<open>What an import leaves\<close>

definition stored_fields :: "sku \<Rightarrow> parsed_sku" where
  "stored_fields k = \<lparr>ps_sku_code = sku_code k, ps_name = sku_name k, ps_description = sku_description k, ps_attributes = sku_attributes k,
     ps_base_price_minor = base_price_minor k, ps_cost_minor = cost_minor k, ps_currency = sku_currency k,
     ps_lead_time_days = sku_lead_time_days k, ps_active = sku_active k\<rparr>"

text \<open>The keys of the table, and fresh identifiers for the rows still to be inserted.\<close>

definition catalog_ok :: "import_env \<Rightarrow> nat \<Rightarrow> db \<Rightarrow> bool" where
  "catalog_ok e n d \<longleftrightarrow> distinct (map sku_id (skus d)) \<and> inj (im_new_id e) \<and> (\<forall>m \<ge> n. im_new_id e m \<notin> sku_id ` set (skus d))"

lemma assigned_fields [simp]:
  "sku_id (assigned p t k) = sku_id k" "sku_org_id (assigned p t k) = sku_org_id k" "sku_code (assigned p t k) = ps_sku_code p"
  "embedding_status (assigned p t k) = Emb_Pending" "stored_fields (assigned p t k) = p"
  by (simp_all add: assigned_def stored_fields_def)

lemma find_code_Some: "find_code orgId c d = Some k \<Longrightarrow> k \<in> set (skus d) \<and> sku_org_id k = orgId \<and> sku_code k = c"
  by (auto simp: find_code_def dest!: find_Some_set)

lemma find_code_put:
  assumes "distinct (map sku_id (skus d))" and "find_code orgId c d = Some k"
    and "sku_org_id (f k) = orgId" and "sku_code (f k) = c"
  shows "find_code orgId c (put_sku (sku_id k) f d) = Some (f k)"
proof -
  have "find (\<lambda>k. sku_org_id k = orgId \<and> sku_code k = c) (update_where (\<lambda>x. sku_id x = sku_id k) f xs) = Some (f k)"
    if "distinct (map sku_id xs)" "find (\<lambda>k. sku_org_id k = orgId \<and> sku_code k = c) xs = Some k" for xs
    using that assms(3,4)
  proof (induction xs)
    case (Cons x xs)
    show ?case
    proof (cases "sku_org_id x = orgId \<and> sku_code x = c")
      case True
      with Cons.prems show ?thesis by simp
    next
      case False
      then have k: "find (\<lambda>k. sku_org_id k = orgId \<and> sku_code k = c) xs = Some k" using Cons.prems(2) by auto
      have "k \<in> set xs" using find_Some_set [OF k] by simp
      then have "sku_id x \<noteq> sku_id k" using Cons.prems(1) imageI [of k "set xs" sku_id] by auto
      moreover have "find (\<lambda>k. sku_org_id k = orgId \<and> sku_code k = c) (update_where (\<lambda>x. sku_id x = sku_id k) f xs) = Some (f k)"
        using Cons.IH [OF _ k] Cons.prems(1,3,4) by simp
      ultimately show ?thesis using False by auto
    qed
  qed simp
  with assms(1,2) show ?thesis by (simp add: find_code_def put_sku_def)
qed

lemma find_code_put_other:
  assumes "distinct (map sku_id (skus d))" and "find_code orgId c d = Some k"
    and "sku_org_id (f k) = orgId" and "sku_code (f k) = c" and "(org', c') \<noteq> (orgId, c)"
  shows "find_code org' c' (put_sku (sku_id k) f d) = find_code org' c' d"
proof -
  have k: "k \<in> set (skus d)" "sku_org_id k = orgId" "sku_code k = c" using find_code_Some [OF assms(2)] by simp_all
  have "find (\<lambda>k. sku_org_id k = org' \<and> sku_code k = c') (update_where (\<lambda>x. sku_id x = sku_id k) f xs) =
      find (\<lambda>k. sku_org_id k = org' \<and> sku_code k = c') xs"
    if "\<forall>x \<in> set xs. sku_id x = sku_id k \<longrightarrow> x = k" for xs
    using that k assms(3-5) by (induction xs) auto
  moreover have "\<forall>x \<in> set (skus d). sku_id x = sku_id k \<longrightarrow> x = k"
    using assms(1) k(1) by (auto simp: distinct_map dest: inj_onD)
  ultimately show ?thesis by (simp add: find_code_def put_sku_def)
qed

lemma find_code_append:
  "find_code org' c' (d\<lparr>skus := skus d @ [k]\<rparr>) =
    (case find_code org' c' d of Some x \<Rightarrow> Some x | None \<Rightarrow> if sku_org_id k = org' \<and> sku_code k = c' then Some k else None)"
proof -
  have "find P (xs @ [k]) = (case find P xs of Some x \<Rightarrow> Some x | None \<Rightarrow> if P k then Some k else None)" for P and xs :: "sku list"
    by (induction xs) auto
  then show ?thesis by (simp add: find_code_def)
qed

text \<open>One product of a deferred import.\<close>

lemma save_sku_effect:
  assumes "catalog_ok e n (ia_db a)" and "save_sku e True orgId n p a = Some a'"
  shows "catalog_ok e (n + 1) (ia_db a') \<and>
    (\<exists>k. find_code orgId (ps_sku_code p) (ia_db a') = Some k \<and> stored_fields k = p \<and> embedding_status k = Emb_Pending \<and>
       ia_tasks a' = ia_tasks a @ [sku_id k]) \<and>
    (\<forall>org' c'. (org', c') \<noteq> (orgId, ps_sku_code p) \<longrightarrow> find_code org' c' (ia_db a') = find_code org' c' (ia_db a)) \<and>
    created (ia_result a') + updated (ia_result a') = created (ia_result a) + updated (ia_result a) + 1 \<and>
    emb_pending (ia_result a') = emb_pending (ia_result a) + 1 \<and> errors (ia_result a') = errors (ia_result a)"
proof (cases "find_code orgId (ps_sku_code p) (ia_db a)")
  case (Some k)
  let ?d = "ia_db a" and ?f = "assigned p (clock (ia_db a))"
  have k: "sku_org_id k = orgId" "sku_code k = ps_sku_code p" "k \<in> set (skus ?d)"
    using find_code_Some [OF Some] by simp_all
  have a': "ia_db a' = put_sku (sku_id k) ?f ?d" "ia_tasks a' = ia_tasks a @ [sku_id k]"
    "created (ia_result a') + updated (ia_result a') = created (ia_result a) + updated (ia_result a) + 1"
    "emb_pending (ia_result a') = emb_pending (ia_result a) + 1" "errors (ia_result a') = errors (ia_result a)"
    using assms(2) by (auto simp: save_sku_def Let_def Some split: if_splits)
  have dist: "distinct (map sku_id (skus ?d))" using assms(1) by (simp add: catalog_ok_def)
  have ids: "map sku_id (skus (put_sku (sku_id k) ?f ?d)) = map sku_id (skus ?d)"
    unfolding put_sku_def by (simp add: map_update_where)
  then have "sku_id ` set (skus (put_sku (sku_id k) ?f ?d)) = sku_id ` set (skus ?d)" by (metis list.set_map)
  then have "catalog_ok e (n + 1) (ia_db a')" using assms(1) ids by (simp add: catalog_ok_def a'(1))
  moreover have "find_code orgId (ps_sku_code p) (ia_db a') = Some (?f k)"
    unfolding a'(1) by (rule find_code_put [OF dist Some]) (simp_all add: k)
  moreover have "find_code org' c' (ia_db a') = find_code org' c' ?d" if "(org', c') \<noteq> (orgId, ps_sku_code p)" for org' c'
    unfolding a'(1) by (rule find_code_put_other [OF dist Some _ _ that]) (simp_all add: k)
  ultimately show ?thesis using a'(2-5) by simp
next
  case None
  let ?d = "ia_db a" and ?k = "assigned p (clock (ia_db a)) (blank_sku (im_new_id e n) orgId)"
  have id: "sku_id ?k = im_new_id e n" "sku_org_id ?k = orgId" by (simp_all add: blank_sku_def)
  have a': "ia_db a' = ?d\<lparr>skus := skus ?d @ [?k]\<rparr>" "ia_tasks a' = ia_tasks a @ [sku_id ?k]"
    "created (ia_result a') + updated (ia_result a') = created (ia_result a) + updated (ia_result a) + 1"
    "emb_pending (ia_result a') = emb_pending (ia_result a) + 1" "errors (ia_result a') = errors (ia_result a)"
    using assms(2) by (auto simp: save_sku_def Let_def None split: if_splits)
  have "catalog_ok e (n + 1) (ia_db a')"
  proof -
    have "im_new_id e m \<noteq> im_new_id e n" if "n + 1 \<le> m" for m
      using assms(1) that by (auto simp: catalog_ok_def dest: injD)
    then show ?thesis using assms(1) id by (auto simp: catalog_ok_def a'(1))
  qed
  moreover have "find_code orgId (ps_sku_code p) (ia_db a') = Some ?k"
    unfolding a'(1) find_code_append using None id by simp
  moreover have "find_code org' c' (ia_db a') = find_code org' c' ?d" if "(org', c') \<noteq> (orgId, ps_sku_code p)" for org' c'
    unfolding a'(1) find_code_append using that id by (auto split: option.splits)
  ultimately show ?thesis using a'(2-5) by simp
qed

text \<open>The last of the rows with a code decides.\<close>

definition last_with :: "string \<Rightarrow> parsed_sku list \<Rightarrow> parsed_sku option" where
  "last_with c ps = find (\<lambda>p. ps_sku_code p = c) (rev ps)"

definition stored_as :: "parsed_sku option \<Rightarrow> sku option \<Rightarrow> uuid list \<Rightarrow> sku option \<Rightarrow> bool" where
  "stored_as p before tasks after \<longleftrightarrow>
     (case p of
        None \<Rightarrow> after = before
      | Some p \<Rightarrow> (\<exists>k. after = Some k \<and> stored_fields k = p \<and> embedding_status k = Emb_Pending \<and> sku_id k \<in> set tasks))"

lemma last_with_Cons: "last_with c (p # ps) = (case last_with c ps of Some x \<Rightarrow> Some x | None \<Rightarrow> if ps_sku_code p = c then Some p else None)"
proof -
  have "find P (xs @ [p]) = (case find P xs of Some x \<Rightarrow> Some x | None \<Rightarrow> if P p then Some p else None)" for P and xs :: "parsed_sku list"
    by (induction xs) auto
  then show ?thesis by (simp add: last_with_def)
qed

lemma save_skus_effect:
  assumes "catalog_ok e n (ia_db a)" and "save_skus e True orgId n ps a = Some a'"
  shows "(\<forall>org' c. stored_as (if org' = orgId then last_with c ps else None) (find_code org' c (ia_db a)) (ia_tasks a') (find_code org' c (ia_db a'))) \<and>
    (\<exists>ts. ia_tasks a' = ia_tasks a @ ts \<and> length ts = length ps) \<and>
    created (ia_result a') + updated (ia_result a') = created (ia_result a) + updated (ia_result a) + length ps \<and>
    emb_pending (ia_result a') = emb_pending (ia_result a) + length ps \<and> errors (ia_result a') = errors (ia_result a)"
  using assms
proof (induction ps arbitrary: n a)
  case (Cons p ps)
  from Cons.prems(2) obtain a1 where a1: "save_sku e True orgId n p a = Some a1" "save_skus e True orgId (n + 1) ps a1 = Some a'"
    by (auto split: option.splits)
  note one = save_sku_effect [OF Cons.prems(1) a1(1)]
  have ok: "catalog_ok e (n + 1) (ia_db a1)" using one by blast
  note rest = Cons.IH [OF ok a1(2)]
  obtain k where k: "find_code orgId (ps_sku_code p) (ia_db a1) = Some k" "stored_fields k = p" "embedding_status k = Emb_Pending"
    "ia_tasks a1 = ia_tasks a @ [sku_id k]" using one by blast
  obtain ts where ts: "ia_tasks a' = ia_tasks a1 @ ts" "length ts = length ps" using rest by blast
  have "stored_as (if org' = orgId then last_with c (p # ps) else None) (find_code org' c (ia_db a)) (ia_tasks a') (find_code org' c (ia_db a'))" for org' c
  proof -
    have st: "stored_as (if org' = orgId then last_with c ps else None) (find_code org' c (ia_db a1)) (ia_tasks a') (find_code org' c (ia_db a'))"
      using rest by blast
    show ?thesis
    proof (cases "org' = orgId \<and> c = ps_sku_code p")
      case True
      then show ?thesis using st k ts by (auto simp: last_with_Cons stored_as_def split: option.splits)
    next
      case False
      then have "find_code org' c (ia_db a1) = find_code org' c (ia_db a)" using one by auto
      with st False show ?thesis by (auto simp: last_with_Cons split: option.splits)
    qed
  qed
  moreover have "\<exists>ts. ia_tasks a' = ia_tasks a @ ts \<and> length ts = length (p # ps)" using k(4) ts by simp
  moreover have "created (ia_result a') + updated (ia_result a') = created (ia_result a) + updated (ia_result a) + length (p # ps)"
    "emb_pending (ia_result a') = emb_pending (ia_result a) + length (p # ps)" "errors (ia_result a') = errors (ia_result a)"
    using one rest by simp_all
  ultimately show ?case by blast
qed (simp add: stored_as_def last_with_def)

lemma rows_partition: "length (valid_rows xs) + length (row_errors xs) = length xs"
proof (induction xs)
  case (Cons x xs)
  obtain n y where "x = (n, y)" by (cases x)
  then show ?case using Cons by (cases y) (simp_all add: valid_rows_def row_errors_def)
qed (simp add: valid_rows_def row_errors_def)

text \<open>
  C30. Every row of an import is created, updated or rejected; a rejected row changes nothing, and of the rows with a code
  the last one is what the product of the organisation is afterwards, its embedding pending and enqueued. No other
  product of any organisation changes.
\<close>

theorem import_outcome:
  assumes "catalog_ok e 0 d" and "readRows e f = Inr rows" and "import_catalog e True orgId f d = Inr a"
  shows "created (ia_result a) + updated (ia_result a) + length (errors (ia_result a)) = length rows \<and>
    emb_pending (ia_result a) = created (ia_result a) + updated (ia_result a) \<and> length (ia_tasks a) = emb_pending (ia_result a) \<and>
    (\<forall>org' c. stored_as (if org' = orgId then last_with c (valid_rows (numbered_rows e rows)) else None)
       (find_code org' c d) (ia_tasks a) (find_code org' c (ia_db a)))"
proof -
  let ?xs = "numbered_rows e rows"
  let ?a0 = "\<lparr>ia_result = \<lparr>created = 0, updated = 0, errors = row_errors ?xs, emb_ready = 0, emb_pending = 0, emb_unavailable = 0\<rparr>,
    ia_tasks = [], ia_db = d\<rparr>"
  have run: "save_skus e True orgId 0 (valid_rows ?xs) ?a0 = Some a"
    using assms(2,3) by (auto simp: import_catalog_def Let_def split: option.splits)
  have ok: "catalog_ok e 0 (ia_db ?a0)" using assms(1) by simp
  have "length ?xs = length rows" by (simp add: numbered_rows_def)
  with save_skus_effect [OF ok run] rows_partition [of ?xs] show ?thesis by auto
qed

definition price_list :: worksheet where
  "price_list =
     [(1, [Cell_Text ''SKU Code'', Cell_Text '' Nome '', Cell_Text ''preco-eur'']),
      (2, [Cell_Text ''a1'', Cell_Text ''Porta'', Cell_Text ''12,5'']),
      (3, [Cell_Text ''a2'', Cell_Text ''Janela'', Cell_Text ''12,505'']),
      (4, [Cell_Text ''A1'', Cell_Text ''Porta lisa'', Cell_Num 13 ''13''])]"

definition sample_import :: "worksheet \<Rightarrow> import_env" where
  "sample_import ws = \<lparr>im_xlsx = (\<lambda>_. Some (Some ws)), im_csv = (\<lambda>_ _. Some (Some ws)), im_json = (\<lambda>_. None), im_embed = (\<lambda>_. None),
     im_message = (\<lambda>_. ''off''), im_new_id = (\<lambda>n. replicate n CHR ''x'')\<rparr>"

definition sample_upload :: catalog_upload where
  "sample_upload = \<lparr>cu_originalname = ''precos.CSV'', cu_buffer = ''SKU Code; Nome''\<rparr>"

lemma sample_catalog_ok: "catalog_ok (sample_import ws) n empty_db"
  by (auto simp: catalog_ok_def sample_import_def empty_db_def inj_def dest: arg_cong [where f = length])

theorem import_outcome_witness:
  "\<exists>a. import_catalog (sample_import price_list) True ''o1'' sample_upload empty_db = Inr a \<and>
     (created (ia_result a), updated (ia_result a), errors (ia_result a)) = (1, 1, [(3, Too_Many_Decimals ''base_price_eur'')]) \<and>
     map (\<lambda>k. (sku_code k, base_price_minor k)) (skus (ia_db a)) = [(''A1'', 1300)] \<and> find_code ''o2'' ''A1'' (ia_db a) = None"
proof -
  let ?e = "sample_import price_list"
  let ?run = "import_catalog ?e True ''o1'' sample_upload empty_db"
  let ?view = "\<lambda>x. case x of Inl err \<Rightarrow> None | Inr a \<Rightarrow> Some ((created (ia_result a), updated (ia_result a), errors (ia_result a)),
    map (\<lambda>k. (sku_code k, base_price_minor k)) (skus (ia_db a)))"
  have v: "?view ?run = Some ((1, 1, [(3, Too_Many_Decimals ''base_price_eur'')]), [(''A1'', 1300)])" by code_simp
  have "(case readRows ?e sample_upload of Inl _ \<Rightarrow> False | Inr rows \<Rightarrow> True)" by code_simp
  then obtain rows where rows: "readRows ?e sample_upload = Inr rows" by (auto split: sum.splits)
  obtain a where a: "?run = Inr a" using v by (cases ?run) auto
  have other: "(''o2'' :: string) \<noteq> ''o1''" by simp
  note all = import_outcome [OF sample_catalog_ok rows a, THEN conjunct2, THEN conjunct2, THEN conjunct2, THEN spec, THEN spec]
  have "stored_as None (find_code ''o2'' ''A1'' empty_db) (ia_tasks a) (find_code ''o2'' ''A1'' (ia_db a))"
    using all [of "''o2''" "''A1''"] unfolding if_not_P [OF other] .
  then have "find_code ''o2'' ''A1'' (ia_db a) = None" by (simp add: stored_as_def find_code_def empty_db_def)
  with v a show ?thesis by auto
qed

theorem euros_are_exact_witness:
  "eurosToMinor (Some (V_Str '' 12,5 '')) ''cost_eur'' = Inr 1250 \<and> decimal ''12.5'' = Some (1250 / 100)"
proof -
  have "eurosToMinor (Some (V_Str '' 12,5 '')) ''cost_eur'' = Inr 1250" by code_simp
  moreover have "first_comma (trim (text_or_empty (Some (V_Str '' 12,5 '')))) = ''12.5''" by code_simp
  ultimately show ?thesis using euros_are_exact [of "Some (V_Str '' 12,5 '')" "''cost_eur''" 1250] by simp
qed

section \<open>Prices that are misread\<close>

text \<open>
  In a file with both price columns, a row whose column of cents is empty and whose column of euros holds a whole
  number of euros is priced at that number of cents: the euros are read by the parser of the empty column.
\<close>

theorem euros_read_as_cents:
  assumes "row ''base_price_minor'' = Some V_Null" and "row ''base_price_eur'' = Some v" and "eurosToMinor (Some v) ''base_price_eur'' = Inr (100 * n)"
    and "list_all is_digit (trim (text_or_empty (Some v)))"
  shows "base_price row = Inr n"
proof -
  let ?t = "trim (text_or_empty (Some v))"
  have no: "first_comma s = s" if "list_all is_digit s" for s
    using that by (induction s) (auto simp: is_digit_def)
  obtain whole cents where p: "euro_parts ?t = Some (whole, cents)"
    and m: "100 * n = digits_val 10 whole * 100 + digits_val 10 (padEnd2 cents)" "100 * n \<le> MAX_SAFE_INTEGER"
    using assms(3) no [OF assms(4)] by (auto simp: eurosToMinor_def Let_def split: option.splits if_splits)
  note parts = euro_parts_Some [OF p]
  have "cents = []"
  proof (rule ccontr)
    assume "cents \<noteq> []"
    with parts have "?t = whole @ CHR ''.'' # cents" by simp
    then have "is_digit CHR ''.''" using assms(4) by (simp add: list_all_iff)
    then show False by (simp add: is_digit_def)
  qed
  then have t1: "?t = whole" using parts by simp
  have "padEnd2 cents = replicate 2 CHR ''0''" using \<open>cents = []\<close> by (simp add: padEnd2_def)
  then have "digits_val 10 (padEnd2 cents) = 0" by (simp only: digits_val_zeros)
  then have "digits_val 10 whole = n" using m(1) by linarith
  with t1 have t: "?t = whole" "digits_val 10 ?t = n" by simp_all
  have nn: "0 \<le> n" using digits_val_nonneg [of ?t] t(2) by simp
  have ne: "whole \<noteq> []" using parts by blast
  have "v \<noteq> V_Null"
  proof
    assume "v = V_Null"
    then have "?t = []" by (simp add: trim_def)
    with t(1) ne show False by simp
  qed
  then have "base_price row = nonNegativeInteger (Some v) ''base_price_minor''" using assms(1,2) by (simp add: base_price_def)
  also have "\<dots> = Inr n"
  proof -
    have "?t \<noteq> []" using t(1) ne by simp
    moreover have "\<not> MAX_SAFE_INTEGER < n" using m(2) nn by linarith
    ultimately show ?thesis using assms(4) t(2) by (simp add: nonNegativeInteger_def)
  qed
  finally show ?thesis .
qed

definition half_filled :: worksheet where
  "half_filled =
     [(1, [Cell_Text ''sku_code'', Cell_Text ''name'', Cell_Text ''base_price_minor'', Cell_Text ''base_price_eur'']),
      (2, [Cell_Text ''a1'', Cell_Text ''Porta'', Cell_Empty, Cell_Num 100 ''100''])]"

definition half_row :: raw_row where
  "half_row = row_record [''sku_code'', ''name'', ''base_price_minor'', ''base_price_eur''] (snd (half_filled ! 1))"

theorem euros_read_as_cents_witness:
  "base_price half_row = Inr 100 \<and> eurosToMinor (half_row ''base_price_eur'') ''base_price_eur'' = Inr 10000 \<and>
     readRows (sample_import half_filled) sample_upload = Inr [half_row]"
proof -
  have r: "half_row ''base_price_minor'' = Some V_Null" "half_row ''base_price_eur'' = Some (V_Num 100)" by code_simp+
  have m: "eurosToMinor (Some (V_Num 100)) ''base_price_eur'' = Inr (100 * 100)" by code_simp
  have "list_all is_digit (trim (text_or_empty (Some (V_Num 100))))" by code_simp
  from euros_read_as_cents [OF r m this] have "base_price half_row = Inr 100" .
  moreover have "headers_of half_filled = [''sku_code'', ''name'', ''base_price_minor'', ''base_price_eur'']"
    "row_has_value [''sku_code'', ''name'', ''base_price_minor'', ''base_price_eur''] (snd (half_filled ! 1))"
    "read_sheet (sample_import half_filled) sample_upload = Inr (Some half_filled)" "rowCount half_filled = 2" by code_simp+
  then have "readRows (sample_import half_filled) sample_upload = Inr [half_row]"
    by (simp add: readRows_def half_row_def half_filled_def)
  ultimately show ?thesis using m r(2) by simp
qed

section \<open>Three more boundaries\<close>

text \<open>A row whose price does not fit its column is accepted by the parser, and loses the whole import.\<close>

lemma overflow_loses_import:
  assumes "readRows e f = Inr rows" and "p \<in> set (valid_rows (numbered_rows e rows))" and "2147483647 < ps_base_price_minor p"
  shows "import_catalog e deferred orgId f d = Inl Column_Error"
proof -
  have "save_skus e deferred orgId n ps a = None" if "\<exists>p \<in> set ps. \<not> columns_ok p" for n ps a
    using that by (induction ps arbitrary: n a) (auto simp: save_sku_def Let_def split: option.splits)
  moreover have "\<not> columns_ok p" using assms(3) by (simp add: columns_ok_def int_column_def)
  ultimately have "save_skus e deferred orgId n (valid_rows (numbered_rows e rows)) a = None" for n a using assms(2) by blast
  then show ?thesis using assms(1) by (simp add: import_catalog_def Let_def)
qed

text \<open>The number reported for a rejected row counts the rows kept, not the rows of the file.\<close>

lemma reported_row_is_shifted:
  "let ws = [(1, [Cell_Text ''sku_code'', Cell_Text ''name'', Cell_Text ''base_price_eur'']), (5, [Cell_Text ''a1'', Cell_Text ''Porta'', Cell_Text ''x''])]
   in (case import_catalog (sample_import ws) True ''o1'' sample_upload empty_db of
         Inr a \<Rightarrow> errors (ia_result a) = [(2, Too_Many_Decimals ''base_price_eur'')] | Inl _ \<Rightarrow> False)"
  by code_simp

text \<open>A gap between the headers hides the last column: the columns are counted by their non-empty cells.\<close>

lemma header_gap_hides_column:
  "let ws = [(1, [Cell_Text ''sku_code'', Cell_Text ''name'', Cell_Empty, Cell_Text ''base_price_eur'']), (2, [Cell_Text ''a1'', Cell_Text ''Porta'', Cell_Empty, Cell_Text ''5''])]
   in (case readRows (sample_import ws) sample_upload of Inl err \<Rightarrow> err = No_Price_Header | Inr _ \<Rightarrow> False)"
  by code_simp

end
