(* ===== verification/Catalog_Admin.thy ===== *)
theory Catalog_Admin
  imports Catalog_Import
begin

text \<open>
  The administration of the products of an organisation (\<open>catalog/catalog.service.ts\<close>), the queue that
  re-embeds them (\<open>queue/processors/catalog-embedding.processor.ts\<close>), and what edits, imports and the worker do
  to the catalog together. The embeddings are a parameter: a text has a vector, which the provider gives or not. Of Bull
  the model uses that a job added under an identifier the queue holds is not added, that a job is tried three
  times, and that a finished job is removed.
\<close>

section \<open>The text of a product\<close>

text \<open>\<open>JSON.stringify\<close>.\<close>

definition hex_digit :: "nat \<Rightarrow> char" where
  "hex_digit n = (if n < 10 then char_of (48 + n) else char_of (87 + n))"

definition escape_char :: "char \<Rightarrow> string" where
  "escape_char c =
     (let n = of_char c :: nat in
      if n = 34 \<or> n = 92 then [CHR 0x5C, c]
      else if n = 8 then CHR 0x5C # ''b'' else if n = 9 then CHR 0x5C # ''t'' else if n = 10 then CHR 0x5C # ''n''
      else if n = 12 then CHR 0x5C # ''f'' else if n = 13 then CHR 0x5C # ''r''
      else if n < 32 then CHR 0x5C # ''u00'' @ [hex_digit (n div 16), hex_digit (n mod 16)]
      else [c])"

definition quoted :: "string \<Rightarrow> string" where
  "quoted s = CHR 0x22 # concat (map escape_char s) @ [CHR 0x22]"

fun commas :: "string list \<Rightarrow> string" where
  "commas [] = []"
| "commas [s] = s"
| "commas (s # ss) = s @ CHR '','' # commas ss"

fun stringify :: "json \<Rightarrow> string" where
  "stringify JNull = ''null''"
| "stringify (JBool b) = (if b then ''true'' else ''false'')"
| "stringify (JNum x) = number_text x"
| "stringify (JStr s) = quoted s"
| "stringify (JArr xs) = CHR ''['' # commas (map stringify xs) @ '']''"
| "stringify (JObj fs) = CHR ''{'' # commas (map (\<lambda>f. quoted (fst f) @ CHR '':'' # stringify (snd f)) fs) @ ''}''"

definition admin_text :: "sku \<Rightarrow> string" where
  "admin_text k = spaced [sku_code k, sku_name k, (case sku_description k of None \<Rightarrow> [] | Some t \<Rightarrow> t), stringify (sku_attributes k)]"

record embedder =
  eb_embed :: "string \<Rightarrow> rat list option"
  eb_message :: "string \<Rightarrow> string"

section \<open>The service\<close>

record admin_sku =
  as_sku_code :: string
  as_name :: string
  as_description :: "string option"
  as_attributes :: "json option"
  as_base_price_minor :: int
  as_cost_minor :: "int option"
  as_currency :: string
  as_lead_time_days :: "int option"
  as_active :: "bool option"

text \<open>A patch: \<open>None\<close> for an absent field, and for those that may be null an option of an option.\<close>

record admin_patch =
  ap_sku_code :: "string option"
  ap_name :: "string option"
  ap_description :: "string option option"
  ap_attributes :: "json option option"
  ap_base_price_minor :: "int option"
  ap_cost_minor :: "int option option"
  ap_currency :: "string option"
  ap_lead_time_days :: "int option option"
  ap_active :: "bool option"

datatype admin_error = Currency_Not_Euro | Database_Error

text \<open>What the table accepts of a row: the widths of its columns, its primary key and its unique key.\<close>

definition row_fits :: "sku \<Rightarrow> bool" where
  "row_fits k \<longleftrightarrow> int_column (of_int (base_price_minor k)) \<noteq> None \<and>
     (case cost_minor k of None \<Rightarrow> True | Some c \<Rightarrow> int_column (of_int c) \<noteq> None) \<and>
     (case sku_lead_time_days k of None \<Rightarrow> True | Some n \<Rightarrow> smallint_column n \<noteq> None)"

definition code_taken :: "uuid \<Rightarrow> uuid \<Rightarrow> string \<Rightarrow> db \<Rightarrow> bool" where
  "code_taken orgId i c d \<longleftrightarrow> (\<exists>k \<in> set (skus d). sku_org_id k = orgId \<and> sku_code k = c \<and> sku_id k \<noteq> i)"

definition owned :: "uuid \<Rightarrow> uuid \<Rightarrow> sku \<Rightarrow> bool" where
  "owned orgId i k \<longleftrightarrow> sku_id k = i \<and> sku_org_id k = orgId"

definition put_owned :: "uuid \<Rightarrow> uuid \<Rightarrow> (sku \<Rightarrow> sku) \<Rightarrow> db \<Rightarrow> db" where
  "put_owned orgId i f d = d\<lparr>skus := update_where (owned orgId i) f (skus d)\<rparr>"

text \<open>The product as the caller sees it afterwards, and the database; without embeddings nothing happens.\<close>

definition refreshEmbedding :: "embedder option \<Rightarrow> uuid \<Rightarrow> sku \<Rightarrow> db \<Rightarrow> sku \<times> db" where
  "refreshEmbedding g orgId k d =
     (case g of
        None \<Rightarrow> (k, d)
      | Some g \<Rightarrow>
          (case eb_embed g (admin_text k) of
             Some v \<Rightarrow> (k\<lparr>embedding_status := Emb_Ready, embedding_error := None\<rparr>, put_owned orgId (sku_id k) (embedded v (clock d)) d)
           | None \<Rightarrow>
               (let m = take 500 (eb_message g (admin_text k)) in
                (k\<lparr>embedding_status := Emb_Unavailable, embedding_error := Some m\<rparr>,
                 put_owned orgId (sku_id k) (not_embedded m (clock d)) d))))"

text \<open>\<open>i\<close>: the identifier the database gives the row. A failure leaves the database as it was.\<close>

definition new_sku :: "uuid \<Rightarrow> uuid \<Rightarrow> admin_sku \<Rightarrow> millis \<Rightarrow> sku" where
  "new_sku i orgId x t =
     \<lparr>sku_id = i, sku_org_id = orgId, sku_code = upper (trim (as_sku_code x)), sku_name = trim (as_name x),
       base_price_minor = as_base_price_minor x, cost_minor = as_cost_minor x, sku_currency = STRATOS_CURRENCY,
       sku_lead_time_days = as_lead_time_days x, sku_active = (case as_active x of None \<Rightarrow> True | Some b \<Rightarrow> b),
       sku_description = as_description x, sku_embedding = None, embedding_status = Emb_Pending,
       sku_attributes = (case as_attributes x of None \<Rightarrow> JObj [] | Some a \<Rightarrow> a), embedding_error = None, sku_updated_at = t\<rparr>"

definition createAdmin :: "embedder option \<Rightarrow> uuid \<Rightarrow> uuid \<Rightarrow> admin_sku \<Rightarrow> db \<Rightarrow> (admin_error + sku) \<times> db" where
  "createAdmin g i orgId x d =
     (if \<not> isEuroCurrency (as_currency x) then (Inl Currency_Not_Euro, d)
      else
        (let k = new_sku i orgId x (clock d) in
         if \<not> row_fits k \<or> code_taken orgId i (sku_code k) d \<or> i \<in> sku_id ` set (skus d) then (Inl Database_Error, d)
         else (case refreshEmbedding g orgId k (d\<lparr>skus := skus d @ [k]\<rparr>) of (k, d) \<Rightarrow> (Inr k, d))))"

definition patched_sku :: "admin_patch \<Rightarrow> millis \<Rightarrow> sku \<Rightarrow> sku" where
  "patched_sku p t k =
     k\<lparr>sku_code := (case ap_sku_code p of None \<Rightarrow> sku_code k | Some c \<Rightarrow> upper (trim c)),
       sku_name := (case ap_name p of None \<Rightarrow> sku_name k | Some s \<Rightarrow> trim s),
       sku_description := (case ap_description p of None \<Rightarrow> sku_description k | Some s \<Rightarrow> s),
       sku_attributes := (case ap_attributes p of None \<Rightarrow> sku_attributes k | Some None \<Rightarrow> JObj [] | Some (Some a) \<Rightarrow> a),
       base_price_minor := (case ap_base_price_minor p of None \<Rightarrow> base_price_minor k | Some n \<Rightarrow> n),
       cost_minor := (case ap_cost_minor p of None \<Rightarrow> cost_minor k | Some n \<Rightarrow> n),
       sku_currency := (case ap_currency p of None \<Rightarrow> sku_currency k | Some c \<Rightarrow> STRATOS_CURRENCY),
       sku_lead_time_days := (case ap_lead_time_days p of None \<Rightarrow> sku_lead_time_days k | Some n \<Rightarrow> n),
       sku_active := (case ap_active p of None \<Rightarrow> sku_active k | Some b \<Rightarrow> b),
       sku_updated_at := t\<rparr>"

definition find_owned :: "uuid \<Rightarrow> uuid \<Rightarrow> db \<Rightarrow> sku option" where
  "find_owned orgId i d = find (owned orgId i) (skus d)"

definition text_patched :: "admin_patch \<Rightarrow> bool" where
  "text_patched p \<longleftrightarrow> ap_sku_code p \<noteq> None \<or> ap_name p \<noteq> None \<or> ap_description p \<noteq> None \<or> ap_attributes p \<noteq> None"

definition updateAdmin :: "embedder option \<Rightarrow> uuid \<Rightarrow> uuid \<Rightarrow> admin_patch \<Rightarrow> db \<Rightarrow> (admin_error + sku option) \<times> db" where
  "updateAdmin g orgId skuId p d =
     (if (case ap_currency p of None \<Rightarrow> False | Some c \<Rightarrow> \<not> isEuroCurrency c) then (Inl Currency_Not_Euro, d)
      else
        (case find_owned orgId skuId d of
           None \<Rightarrow> (Inr None, d)
         | Some old \<Rightarrow>
             (let new = patched_sku p (clock d) old in
              if \<not> row_fits new \<or> code_taken orgId skuId (sku_code new) d then (Inl Database_Error, d)
              else
                (let d = put_owned orgId skuId (patched_sku p (clock d)) d in
                 case find_owned orgId skuId d of
                   None \<Rightarrow> (Inr None, d)
                 | Some k \<Rightarrow>
                     if text_patched p then (case refreshEmbedding g orgId k d of (k, d) \<Rightarrow> (Inr (Some k), d))
                     else (Inr (Some k), d)))))"

definition empty_patch :: admin_patch where
  "empty_patch = \<lparr>ap_sku_code = None, ap_name = None, ap_description = None, ap_attributes = None, ap_base_price_minor = None,
     ap_cost_minor = None, ap_currency = None, ap_lead_time_days = None, ap_active = None\<rparr>"

definition deactivateAdmin :: "embedder option \<Rightarrow> uuid \<Rightarrow> uuid \<Rightarrow> db \<Rightarrow> (admin_error + sku option) \<times> db" where
  "deactivateAdmin g orgId skuId d = updateAdmin g orgId skuId (empty_patch\<lparr>ap_active := Some False\<rparr>) d"

text \<open>The job of the worker; the row is locked from its read to the end of the transaction.\<close>

definition refreshAdminEmbedding :: "embedder option \<Rightarrow> uuid \<Rightarrow> uuid \<Rightarrow> db \<Rightarrow> bool \<times> db" where
  "refreshAdminEmbedding g orgId skuId d =
     (case find (\<lambda>k. owned orgId skuId k \<and> embedding_status k = Emb_Pending) (skus d) of
        None \<Rightarrow> (False, d)
      | Some k \<Rightarrow> (True, snd (refreshEmbedding g orgId k d)))"

definition PENDING_LIMIT :: nat where
  "PENDING_LIMIT = 100"

definition pending_of :: "uuid \<Rightarrow> db \<Rightarrow> sku list" where
  "pending_of orgId d = filter (\<lambda>k. sku_org_id k = orgId \<and> embedding_status k = Emb_Pending) (skus d)"

definition listPendingAdminEmbeddings :: "nat \<Rightarrow> uuid list \<Rightarrow> db \<Rightarrow> (uuid \<times> uuid) list" where
  "listPendingAdminEmbeddings limitPerOrg orgs d =
     concat (map (\<lambda>orgId. map (\<lambda>k. (sku_org_id k, sku_id k)) (take limitPerOrg (sort_key sku_updated_at (pending_of orgId d)))) orgs)"

text \<open>The search of the re-map drawer; without an organisation all catalogs are searched.\<close>

record sku_search_result =
  sr_sku_id :: uuid
  sr_sku_code :: string
  sr_name :: string
  sr_description :: "string option"
  sr_base_price_minor :: int
  sr_currency :: string
  sr_lead_time_days :: "int option"
  sr_score :: rat

definition DEFAULT_LIMIT :: int where "DEFAULT_LIMIT = 10"
definition MAX_LIMIT :: int where "MAX_LIMIT = 25"

definition sku_haystack :: "sku \<Rightarrow> string" where
  "sku_haystack k = sku_code k @ '' '' @ sku_name k @ '' '' @ (case sku_description k of Some t \<Rightarrow> t | None \<Rightarrow> [])"

definition drawer_result :: "rat \<Rightarrow> sku \<Rightarrow> sku_search_result" where
  "drawer_result x k = \<lparr>sr_sku_id = sku_id k, sr_sku_code = sku_code k, sr_name = sku_name k, sr_description = sku_description k,
     sr_base_price_minor = base_price_minor k, sr_currency = sku_currency k, sr_lead_time_days = sku_lead_time_days k, sr_score = x\<rparr>"

definition searchSkus ::
  "(string \<Rightarrow> string \<Rightarrow> rat) \<Rightarrow> (string \<Rightarrow> string \<Rightarrow> bool) \<Rightarrow> string \<Rightarrow> uuid option \<Rightarrow> int option \<Rightarrow> db \<Rightarrow> sku_search_result list" where
  "searchSkus similarity matches query orgId limit d =
     (let trimmed = trim query in
      if trimmed = [] then []
      else
        (let cappedLimit = min (max 1 (case limit of None \<Rightarrow> DEFAULT_LIMIT | Some n \<Rightarrow> n)) MAX_LIMIT;
             rows = filter (\<lambda>k. matches trimmed (sku_haystack k) \<and> sku_active k \<and> (case orgId of None \<Rightarrow> True | Some i \<Rightarrow> sku_org_id k = i)) (skus d)
         in take (nat cappedLimit) (sort_key (\<lambda>r. - sr_score r)
              (map (\<lambda>k. drawer_result (similarity trimmed (sku_haystack k)) k) rows))))"

section \<open>The queue of embeddings\<close>

text \<open>A job is identified by its organisation and product; it counts its failed attempts.\<close>

record embed_job =
  ej_key :: "uuid \<times> uuid"
  ej_attempts :: nat

record catalog_sys =
  cs_db :: db
  cs_jobs :: "embed_job list"
  cs_up :: bool

definition REEMBED_ATTEMPTS :: nat where
  "REEMBED_ATTEMPTS = 3"

definition enqueueEmbedding :: "uuid \<times> uuid \<Rightarrow> catalog_sys \<Rightarrow> catalog_sys" where
  "enqueueEmbedding key s =
     (if \<not> cs_up s \<or> key \<in> ej_key ` set (cs_jobs s) then s
      else s\<lparr>cs_jobs := cs_jobs s @ [\<lparr>ej_key = key, ej_attempts = 0\<rparr>]\<rparr>)"

definition handle_embedding :: "embedder option \<Rightarrow> uuid \<times> uuid \<Rightarrow> catalog_sys \<Rightarrow> catalog_sys" where
  "handle_embedding g key s =
     s\<lparr>cs_db := snd (refreshAdminEmbedding g (fst key) (snd key) (cs_db s)), cs_jobs := filter (\<lambda>j. ej_key j \<noteq> key) (cs_jobs s)\<rparr>"

text \<open>The handler throws when the database does not answer.\<close>

definition fail_embedding :: "uuid \<times> uuid \<Rightarrow> catalog_sys \<Rightarrow> catalog_sys" where
  "fail_embedding key s =
     s\<lparr>cs_jobs := filter (\<lambda>j. ej_attempts j < REEMBED_ATTEMPTS) (update_where (\<lambda>j. ej_key j = key) (\<lambda>j. j\<lparr>ej_attempts := ej_attempts j + 1\<rparr>) (cs_jobs s))\<rparr>"

definition recoverPending :: "uuid list \<Rightarrow> catalog_sys \<Rightarrow> catalog_sys" where
  "recoverPending orgs s = fold enqueueEmbedding (listPendingAdminEmbeddings PENDING_LIMIT orgs (cs_db s)) s"

text \<open>An import inside its transaction, which a repeated identifier aborts, and the tasks after the commit.\<close>

definition import_endpoint :: "import_env \<Rightarrow> bool \<Rightarrow> uuid \<Rightarrow> catalog_upload \<Rightarrow> catalog_sys \<Rightarrow> catalog_sys" where
  "import_endpoint e commit_ok orgId f s =
     (case import_catalog e True orgId f (cs_db s) of
        Inl err \<Rightarrow> s
      | Inr a \<Rightarrow>
          if \<not> commit_ok \<or> \<not> distinct (map sku_id (skus (ia_db a))) then s
          else fold enqueueEmbedding (map (Pair orgId) (ia_tasks a)) (s\<lparr>cs_db := ia_db a\<rparr>))"

text \<open>What can happen to the catalog: its three writers, the worker, the server, and the passing of time.\<close>

datatype catalog_action =
    Create_Sku embedder uuid uuid admin_sku
  | Update_Sku embedder uuid uuid admin_patch
  | Import_File import_env bool uuid catalog_upload
  | Handle_Job embedder "uuid \<times> uuid"
  | Fail_Job "uuid \<times> uuid"
  | Recover_Pending "uuid list"
  | Queue_Up bool
  | Wait millis

fun catalog_act :: "catalog_action \<Rightarrow> catalog_sys \<Rightarrow> catalog_sys" where
  "catalog_act (Create_Sku g i orgId x) s = s\<lparr>cs_db := snd (createAdmin (Some g) i orgId x (cs_db s))\<rparr>"
| "catalog_act (Update_Sku g orgId i p) s = s\<lparr>cs_db := snd (updateAdmin (Some g) orgId i p (cs_db s))\<rparr>"
| "catalog_act (Import_File e commit_ok orgId f) s = import_endpoint e commit_ok orgId f s"
| "catalog_act (Handle_Job g key) s = (if key \<in> ej_key ` set (cs_jobs s) then handle_embedding (Some g) key s else s)"
| "catalog_act (Fail_Job key) s = fail_embedding key s"
| "catalog_act (Recover_Pending orgs) s = recoverPending orgs s"
| "catalog_act (Queue_Up b) s = s\<lparr>cs_up := b\<rparr>"
| "catalog_act (Wait t) s = s\<lparr>cs_db := (cs_db s)\<lparr>clock := clock (cs_db s) + t\<rparr>\<rparr>"

definition catalog_run :: "catalog_action list \<Rightarrow> catalog_sys \<Rightarrow> catalog_sys" where
  "catalog_run acts s = fold catalog_act acts s"

section \<open>Facts about the rows\<close>

lemma owned_embedded [simp]: "owned orgId i (embedded v t k) = owned orgId i k" "owned orgId i (not_embedded m t k) = owned orgId i k"
  by (simp_all add: owned_def embedded_def not_embedded_def)

lemma embedded_fields [simp]:
  "sku_id (embedded v t k) = sku_id k" "sku_id (not_embedded m t k) = sku_id k"
  "sku_org_id (embedded v t k) = sku_org_id k" "sku_org_id (not_embedded m t k) = sku_org_id k"
  "embedding_status (embedded v t k) = Emb_Ready" "embedding_status (not_embedded m t k) = Emb_Unavailable"
  "sku_embedding (embedded v t k) = Some v" "admin_text (embedded v t k) = admin_text k"
  by (simp_all add: embedded_def not_embedded_def admin_text_def)

lemma patched_sku_fields [simp]: "sku_id (patched_sku p t k) = sku_id k" "sku_org_id (patched_sku p t k) = sku_org_id k"
  "embedding_status (patched_sku p t k) = embedding_status k" "sku_embedding (patched_sku p t k) = sku_embedding k"
  by (simp_all add: patched_sku_def)

lemma patched_text: "\<not> text_patched p \<Longrightarrow> admin_text (patched_sku p t k) = admin_text k"
  by (simp add: text_patched_def patched_sku_def admin_text_def)

lemma in_update_where:
  assumes "y \<in> set (update_where P f xs)"
  obtains x where "x \<in> set xs" "y = (if P x then f x else x)"
  using assms by (auto simp: update_where_def)

lemma put_owned_ids:
  assumes "\<And>k. sku_id (f k) = sku_id k"
  shows "map sku_id (skus (put_owned orgId i f d)) = map sku_id (skus d)"
  unfolding put_owned_def by (simp add: map_update_where assms)

lemma same_id:
  assumes "distinct (map sku_id xs)" and "x \<in> set xs" and "k \<in> set xs" and "sku_id x = sku_id k"
  shows "x = k"
  using assms by (auto simp: distinct_map dest: inj_onD)

lemma find_owned_Some: "find_owned orgId i d = Some k \<Longrightarrow> k \<in> set (skus d) \<and> owned orgId i k"
  by (auto simp: find_owned_def dest!: find_Some_set)

text \<open>The keys of the products whose embedding is pending.\<close>

definition pending_keys :: "db \<Rightarrow> (uuid \<times> uuid) set" where
  "pending_keys d = {(sku_org_id k, sku_id k) | k. k \<in> set (skus d) \<and> embedding_status k = Emb_Pending}"

lemma refreshEmbedding_pending: "pending_keys (snd (refreshEmbedding (Some g) orgId k d)) \<subseteq> pending_keys d - {(orgId, sku_id k)}"
proof -
  have "pending_keys (put_owned orgId i f d) \<subseteq> pending_keys d - {(orgId, i)}"
    if f: "\<And>x. embedding_status (f x) \<noteq> Emb_Pending" for i f
  proof
    fix key assume "key \<in> pending_keys (put_owned orgId i f d)"
    then obtain y where y: "key = (sku_org_id y, sku_id y)" "y \<in> set (update_where (owned orgId i) f (skus d))" "embedding_status y = Emb_Pending"
      by (auto simp: pending_keys_def put_owned_def)
    from y(2) obtain x where x: "x \<in> set (skus d)" "y = (if owned orgId i x then f x else x)" by (rule in_update_where)
    have "\<not> owned orgId i x" using x(2) y(3) f by auto
    with x y show "key \<in> pending_keys d - {(orgId, i)}" by (auto simp: pending_keys_def owned_def)
  qed
  then show ?thesis by (simp add: refreshEmbedding_def Let_def split: option.splits)
qed

lemma refreshAdminEmbedding_pending: "pending_keys (snd (refreshAdminEmbedding (Some g) orgId i d)) \<subseteq> pending_keys d - {(orgId, i)}"
proof (cases "find (\<lambda>k. owned orgId i k \<and> embedding_status k = Emb_Pending) (skus d)")
  case None
  then have "(orgId, i) \<notin> pending_keys d" by (auto simp: find_None_iff pending_keys_def owned_def)
  with None show ?thesis by (simp add: refreshAdminEmbedding_def)
next
  case (Some k)
  then have "sku_id k = i" by (auto simp: owned_def dest!: find_Some_set)
  with Some refreshEmbedding_pending [of g orgId k d] show ?thesis by (simp add: refreshAdminEmbedding_def)
qed

section \<open>No pending product is forgotten\<close>

lemma enqueueEmbedding_db [simp]: "cs_db (enqueueEmbedding key s) = cs_db s" "cs_up (enqueueEmbedding key s) = cs_up s"
  by (simp_all add: enqueueEmbedding_def)

lemma enqueue_all:
  assumes "cs_up s"
  shows "ej_key ` set (cs_jobs (fold enqueueEmbedding keys s)) = ej_key ` set (cs_jobs s) \<union> set keys"
  using assms
proof (induction keys arbitrary: s)
  case (Cons key keys)
  have "ej_key ` set (cs_jobs (enqueueEmbedding key s)) = insert key (ej_key ` set (cs_jobs s))"
    using Cons.prems by (auto simp: enqueueEmbedding_def)
  with Cons show ?case by simp
qed simp

lemma enqueue_all_db [simp]: "cs_db (fold enqueueEmbedding keys s) = cs_db s"
  by (induction keys arbitrary: s) simp_all

lemma handle_all:
  "cs_jobs (fold catalog_act (map (\<lambda>k. Handle_Job (g k) k) ks) s) = filter (\<lambda>j. ej_key j \<notin> set ks) (cs_jobs s) \<and>
   pending_keys (cs_db (fold catalog_act (map (\<lambda>k. Handle_Job (g k) k) ks) s)) \<subseteq> pending_keys (cs_db s) - (set ks \<inter> ej_key ` set (cs_jobs s))"
proof (induction ks arbitrary: s)
  case (Cons k ks)
  let ?s = "catalog_act (Handle_Job (g k) k) s"
  have jobs: "cs_jobs ?s = filter (\<lambda>j. ej_key j \<noteq> k) (cs_jobs s)"
  proof (cases "k \<in> ej_key ` set (cs_jobs s)")
    case False
    then have "filter (\<lambda>j. ej_key j \<noteq> k) (cs_jobs s) = cs_jobs s" by (intro filter_True) auto
    with False show ?thesis by simp
  qed (simp add: handle_embedding_def)
  have pend: "pending_keys (cs_db ?s) \<subseteq> pending_keys (cs_db s) - (if k \<in> ej_key ` set (cs_jobs s) then {k} else {})"
    using refreshAdminEmbedding_pending [of "g k" "fst k" "snd k" "cs_db s"] by (simp add: handle_embedding_def)
  have keys: "ej_key ` set (cs_jobs ?s) = ej_key ` set (cs_jobs s) - {k}" unfolding jobs by auto
  note IH = Cons.IH [of ?s]
  have "cs_jobs (fold catalog_act (map (\<lambda>k. Handle_Job (g k) k) ks) ?s) = filter (\<lambda>j. ej_key j \<notin> set (k # ks)) (cs_jobs s)"
    using IH unfolding jobs by (simp add: conj_commute)
  moreover have "pending_keys (cs_db (fold catalog_act (map (\<lambda>k. Handle_Job (g k) k) ks) ?s)) \<subseteq>
      pending_keys (cs_db s) - (set (k # ks) \<inter> ej_key ` set (cs_jobs s))"
    using IH pend unfolding keys by (auto split: if_splits)
  ultimately show ?case by simp
qed simp

lemma listed_all:
  assumes "orgId \<in> set orgs" and "length (pending_of orgId d) \<le> n" and "(orgId, i) \<in> pending_keys d"
  shows "(orgId, i) \<in> set (listPendingAdminEmbeddings n orgs d)"
proof -
  have "take n (sort_key sku_updated_at (pending_of orgId d)) = sort_key sku_updated_at (pending_of orgId d)" using assms(2) by simp
  moreover obtain k where "k \<in> set (pending_of orgId d)" "sku_org_id k = orgId" "sku_id k = i"
    using assms(3) by (auto simp: pending_keys_def pending_of_def)
  ultimately show ?thesis using assms(1) unfolding listPendingAdminEmbeddings_def by force
qed

text \<open>
  C33. Whatever jobs were lost, one recovery while the queue answers and the jobs then in it settle every pending product of
  an organisation that has at most a hundred: each is embedded or marked unavailable, and the queue is empty.
\<close>

theorem pending_is_settled:
  assumes "cs_up s" and "orgId \<in> set orgs" and "length (pending_of orgId (cs_db s)) \<le> 100"
  shows "let s1 = catalog_act (Recover_Pending orgs) s; s2 = catalog_run (map (\<lambda>j. Handle_Job (g (ej_key j)) (ej_key j)) (cs_jobs s1)) s1
    in cs_db s1 = cs_db s \<and> pending_of orgId (cs_db s2) = [] \<and> cs_jobs s2 = []"
proof -
  obtain s1 where s1: "s1 = catalog_act (Recover_Pending orgs) s" by blast
  obtain ks where ks: "ks = map ej_key (cs_jobs s1)" by blast
  obtain s2 where s2: "s2 = fold catalog_act (map (\<lambda>k. Handle_Job (g k) k) ks) s1" by blast
  have db: "cs_db s1 = cs_db s" by (simp add: s1 recoverPending_def)
  have jobs: "ej_key ` set (cs_jobs s1) = ej_key ` set (cs_jobs s) \<union> set (listPendingAdminEmbeddings PENDING_LIMIT orgs (cs_db s))"
    using enqueue_all [OF assms(1)] by (simp add: s1 recoverPending_def)
  note all = handle_all [of g ks s1, folded s2]
  have "cs_jobs s2 = []" using all by (simp add: ks filter_empty_conv)
  moreover have "(orgId, i) \<notin> pending_keys (cs_db s2)" for i
    using all listed_all [OF assms(2), of "cs_db s" PENDING_LIMIT i] assms(3) jobs db by (auto simp: ks PENDING_LIMIT_def)
  then have "pending_of orgId (cs_db s2) = []" by (auto simp: pending_of_def pending_keys_def filter_empty_conv)
  moreover have "s2 = catalog_run (map (\<lambda>j. Handle_Job (g (ej_key j)) (ej_key j)) (cs_jobs s1)) s1"
    unfolding s2 ks catalog_run_def by (simp add: comp_def)
  ultimately show ?thesis using db unfolding Let_def s1 [symmetric] by simp
qed

definition lost_jobs :: catalog_sys where
  "lost_jobs =
     \<lparr>cs_db = empty_db\<lparr>skus := [(blank_sku ''k1'' ''o1'')\<lparr>sku_code := ''A1''\<rparr>, (blank_sku ''k2'' ''o1'')\<lparr>sku_code := ''A2'', embedding_status := Emb_Unavailable\<rparr>,
        (blank_sku ''k3'' ''o2'')\<lparr>sku_code := ''A1''\<rparr>]\<rparr>,
      cs_jobs = [], cs_up = True\<rparr>"

definition length_embedder :: embedder where
  "length_embedder = \<lparr>eb_embed = (\<lambda>t. Some [of_nat (length t)]), eb_message = (\<lambda>_. [])\<rparr>"

theorem pending_is_settled_witness:
  "let s1 = catalog_act (Recover_Pending [''o1'']) lost_jobs;
       s2 = catalog_run (map (\<lambda>j. Handle_Job length_embedder (ej_key j)) (cs_jobs s1)) s1
   in map ej_key (cs_jobs s1) = [(''o1'', ''k1'')] \<and> pending_of ''o1'' (cs_db s2) = [] \<and> map sku_id (pending_of ''o2'' (cs_db s2)) = [''k3'']"
proof -
  have pre: "cs_up lost_jobs" "''o1'' \<in> set [''o1'']" "length (pending_of ''o1'' (cs_db lost_jobs)) \<le> 100" by code_simp+
  have "map ej_key (cs_jobs (catalog_act (Recover_Pending [''o1'']) lost_jobs)) = [(''o1'', ''k1'')]"
    "map sku_id (pending_of ''o2'' (cs_db (catalog_run (map (\<lambda>j. Handle_Job length_embedder (ej_key j))
       (cs_jobs (catalog_act (Recover_Pending [''o1'']) lost_jobs))) (catalog_act (Recover_Pending [''o1'']) lost_jobs)))) = [''k3'']"
    by code_simp+
  with pending_is_settled [OF pre, where g = "\<lambda>_. length_embedder"] show ?thesis unfolding Let_def by blast
qed

section \<open>What ready means\<close>

text \<open>Identifiers are unique, and a product marked ready has the vector of its text.\<close>

definition embeddings_current :: "(string \<Rightarrow> rat list) \<Rightarrow> db \<Rightarrow> bool" where
  "embeddings_current vec d \<longleftrightarrow> distinct (map sku_id (skus d)) \<and>
     (\<forall>k \<in> set (skus d). embedding_status k = Emb_Ready \<longrightarrow> sku_embedding k = Some (vec (admin_text k)))"

text \<open>The provider answers with the vector of the text, or not at all.\<close>

definition honest :: "(string \<Rightarrow> rat list) \<Rightarrow> embedder \<Rightarrow> bool" where
  "honest vec g \<longleftrightarrow> (\<forall>t v. eb_embed g t = Some v \<longrightarrow> v = vec t)"

fun honest_action :: "(string \<Rightarrow> rat list) \<Rightarrow> catalog_action \<Rightarrow> bool" where
  "honest_action vec (Create_Sku g i orgId x) \<longleftrightarrow> honest vec g"
| "honest_action vec (Update_Sku g orgId i p) \<longleftrightarrow> honest vec g"
| "honest_action vec (Handle_Job g key) \<longleftrightarrow> honest vec g"
| "honest_action vec _ \<longleftrightarrow> True"

lemma refreshEmbedding_current:
  assumes "honest vec g" and "distinct (map sku_id (skus d))" and "k \<in> set (skus d)"
    and "\<And>x. x \<in> set (skus d) \<Longrightarrow> sku_id x \<noteq> sku_id k \<Longrightarrow> embedding_status x = Emb_Ready \<Longrightarrow> sku_embedding x = Some (vec (admin_text x))"
    and "sku_org_id k = orgId"
  shows "embeddings_current vec (snd (refreshEmbedding (Some g) orgId k d))"
proof -
  have "embeddings_current vec (put_owned orgId (sku_id k) f d)"
    if f: "\<And>x. sku_id (f x) = sku_id x" "embedding_status (f k) = Emb_Ready \<Longrightarrow> sku_embedding (f k) = Some (vec (admin_text (f k)))" for f
  proof -
    have "sku_embedding y = Some (vec (admin_text y))"
      if y: "y \<in> set (skus (put_owned orgId (sku_id k) f d))" "embedding_status y = Emb_Ready" for y
    proof -
      from y(1) obtain x where x: "x \<in> set (skus d)" "y = (if owned orgId (sku_id k) x then f x else x)"
        unfolding put_owned_def by (auto elim: in_update_where)
      show ?thesis
      proof (cases "sku_id x = sku_id k")
        case True
        then have "x = k" using same_id [OF assms(2) x(1) assms(3)] by simp
        then have "y = f k" using x(2) assms(5) by (simp add: owned_def)
        with f(2) y(2) show ?thesis by simp
      next
        case False
        then have "y = x" using x(2) by (simp add: owned_def)
        with assms(4) [OF x(1) False] y(2) show ?thesis by simp
      qed
    qed
    then show ?thesis using assms(2) put_owned_ids [OF f(1)] by (simp add: embeddings_current_def)
  qed
  note put = this
  show ?thesis
  proof (cases "eb_embed g (admin_text k)")
    case None
    then show ?thesis by (auto simp: refreshEmbedding_def Let_def intro!: put)
  next
    case (Some v)
    then have "v = vec (admin_text k)" using assms(1) by (simp add: honest_def)
    with Some show ?thesis by (auto simp: refreshEmbedding_def intro!: put)
  qed
qed

lemma createAdmin_current:
  assumes "honest vec g" and "embeddings_current vec d"
  shows "embeddings_current vec (snd (createAdmin (Some g) i orgId x d))"
proof -
  let ?k = "new_sku i orgId x (clock d)" and ?d = "d\<lparr>skus := skus d @ [new_sku i orgId x (clock d)]\<rparr>"
  have k: "sku_id ?k = i" "sku_org_id ?k = orgId" by (simp_all add: new_sku_def)
  have "embeddings_current vec (snd (refreshEmbedding (Some g) orgId ?k ?d))" if "i \<notin> sku_id ` set (skus d)"
    using that assms k by (intro refreshEmbedding_current [OF assms(1)]) (auto simp: embeddings_current_def)
  then show ?thesis using assms(2) by (auto simp: createAdmin_def Let_def split: prod.splits)
qed

lemma updateAdmin_current:
  assumes "honest vec g" and "embeddings_current vec d"
  shows "embeddings_current vec (snd (updateAdmin (Some g) orgId i p d))"
proof -
  let ?d = "put_owned orgId i (patched_sku p (clock d)) d"
  have ids: "map sku_id (skus ?d) = map sku_id (skus d)" by (rule put_owned_ids) simp
  have dist: "distinct (map sku_id (skus ?d))" using assms(2) ids by (simp add: embeddings_current_def)
  have rest: "embedding_status y = Emb_Ready \<longrightarrow> sku_embedding y = Some (vec (admin_text y))"
    if y: "y \<in> set (skus ?d)" "sku_id y \<noteq> i \<or> \<not> text_patched p" for y
  proof -
    from y(1) obtain x where x: "x \<in> set (skus d)" "y = (if owned orgId i x then patched_sku p (clock d) x else x)"
      unfolding put_owned_def by (auto elim: in_update_where)
    have "embedding_status x = Emb_Ready \<longrightarrow> sku_embedding x = Some (vec (admin_text x))"
      using assms(2) x(1) by (simp add: embeddings_current_def)
    then show ?thesis using x(2) y(2) by (auto simp: owned_def patched_text split: if_splits)
  qed
  have "embeddings_current vec (snd (refreshEmbedding (Some g) orgId k ?d))" if "find_owned orgId i ?d = Some k" for k
  proof -
    have "k \<in> set (skus ?d)" "sku_id k = i" "sku_org_id k = orgId" using find_owned_Some [OF that] by (simp_all add: owned_def)
    then show ?thesis using rest by (intro refreshEmbedding_current [OF assms(1) dist]) auto
  qed
  moreover have "embeddings_current vec ?d" if "\<not> text_patched p" using dist rest that by (simp add: embeddings_current_def)
  moreover have "find_owned orgId i ?d \<noteq> None" if "find_owned orgId i d \<noteq> None"
    using that by (auto simp: find_owned_def put_owned_def find_update_where owned_def)
  ultimately show ?thesis using assms(2) by (auto simp: updateAdmin_def Let_def split: option.splits prod.splits)
qed

text \<open>An import only leaves rows as they were, or pending.\<close>

lemma save_sku_rows:
  assumes "save_sku e True orgId n p a = Some a'" and "y \<in> set (skus (ia_db a'))"
  shows "y \<in> set (skus (ia_db a)) \<or> embedding_status y = Emb_Pending"
proof (cases "find_code orgId (ps_sku_code p) (ia_db a)")
  case None
  then show ?thesis using assms by (auto simp: save_sku_def Let_def split: if_splits)
next
  case (Some k)
  then have "ia_db a' = put_sku (sku_id k) (assigned p (clock (ia_db a))) (ia_db a)"
    using assms(1) by (auto simp: save_sku_def Let_def split: if_splits)
  then show ?thesis using assms(2) unfolding put_sku_def by (auto elim!: in_update_where)
qed

lemma save_skus_rows:
  "save_skus e True orgId n ps a = Some a' \<Longrightarrow> y \<in> set (skus (ia_db a')) \<Longrightarrow> y \<in> set (skus (ia_db a)) \<or> embedding_status y = Emb_Pending"
proof (induction ps arbitrary: n a)
  case (Cons p ps)
  from Cons.prems(1) obtain a1 where a1: "save_sku e True orgId n p a = Some a1" "save_skus e True orgId (n + 1) ps a1 = Some a'"
    by (auto split: option.splits)
  show ?case using Cons.IH [OF a1(2) Cons.prems(2)] save_sku_rows [OF a1(1)] by blast
qed simp

lemma import_current:
  assumes "embeddings_current vec (cs_db s)"
  shows "embeddings_current vec (cs_db (import_endpoint e commit_ok orgId f s))"
proof -
  have "embeddings_current vec (ia_db a)"
    if a: "import_catalog e True orgId f (cs_db s) = Inr a" and dist: "distinct (map sku_id (skus (ia_db a)))" for a
  proof -
    obtain n ps a0 where run: "save_skus e True orgId n ps a0 = Some a" "ia_db a0 = cs_db s"
      using import_catalog_run [OF a] by blast
    have "embedding_status y = Emb_Ready \<longrightarrow> sku_embedding y = Some (vec (admin_text y))" if "y \<in> set (skus (ia_db a))" for y
      using save_skus_rows [OF run(1) that] run(2) assms by (auto simp: embeddings_current_def)
    with dist show ?thesis by (simp add: embeddings_current_def)
  qed
  then show ?thesis using assms by (auto simp: import_endpoint_def split: sum.splits)
qed

lemma catalog_act_current:
  assumes "honest_action vec act" and "embeddings_current vec (cs_db s)"
  shows "embeddings_current vec (cs_db (catalog_act act s))"
proof (cases act)
  case (Handle_Job g key)
  have "embeddings_current vec (snd (refreshAdminEmbedding (Some g) orgId i d))" if "honest vec g" "embeddings_current vec d" for orgId i d
  proof (cases "find (\<lambda>k. owned orgId i k \<and> embedding_status k = Emb_Pending) (skus d)")
    case (Some k)
    then have "k \<in> set (skus d)" "sku_org_id k = orgId" by (auto simp: owned_def dest!: find_Some_set)
    with that have "embeddings_current vec (snd (refreshEmbedding (Some g) orgId k d))"
      by (intro refreshEmbedding_current) (auto simp: embeddings_current_def)
    with Some show ?thesis by (simp add: refreshAdminEmbedding_def)
  qed (use that in \<open>simp add: refreshAdminEmbedding_def\<close>)
  with assms show ?thesis by (simp add: Handle_Job handle_embedding_def)
next
  case (Wait t)
  with assms(2) show ?thesis by (simp add: embeddings_current_def)
qed (use assms in \<open>simp_all add: createAdmin_current updateAdmin_current import_current recoverPending_def fail_embedding_def\<close>)


definition no_catalog :: catalog_sys where
  "no_catalog = \<lparr>cs_db = empty_db, cs_jobs = [], cs_up = True\<rparr>"

definition a_door :: admin_sku where
  "a_door = \<lparr>as_sku_code = '' p1 '', as_name = ''Porta'', as_description = None, as_attributes = None, as_base_price_minor = 1200,
     as_cost_minor = None, as_currency = ''eur'', as_lead_time_days = Some 5, as_active = None\<rparr>"

definition edits :: "catalog_action list" where
  "edits = [Create_Sku length_embedder ''k1'' ''o1'' a_door, Update_Sku length_embedder ''o1'' ''k1'' (empty_patch\<lparr>ap_name := Some ''Portas''\<rparr>)]"


text \<open>
  The import reads a product and saves it; the save writes the columns in which the product differs from the row it
  loaded. A worker that finishes between the two leaves the product ready with the vector of its former text, for the
  status the import sets is the one it loaded. The job enqueued afterwards finds nothing pending.
\<close>

definition save_columns :: "sku \<Rightarrow> sku \<Rightarrow> sku \<Rightarrow> sku" where
  "save_columns loaded new row =
     row\<lparr>sku_code := if sku_code new = sku_code loaded then sku_code row else sku_code new,
       sku_name := if sku_name new = sku_name loaded then sku_name row else sku_name new,
       sku_description := if sku_description new = sku_description loaded then sku_description row else sku_description new,
       sku_attributes := if sku_attributes new = sku_attributes loaded then sku_attributes row else sku_attributes new,
       base_price_minor := if base_price_minor new = base_price_minor loaded then base_price_minor row else base_price_minor new,
       cost_minor := if cost_minor new = cost_minor loaded then cost_minor row else cost_minor new,
       sku_currency := if sku_currency new = sku_currency loaded then sku_currency row else sku_currency new,
       sku_lead_time_days := if sku_lead_time_days new = sku_lead_time_days loaded then sku_lead_time_days row else sku_lead_time_days new,
       sku_active := if sku_active new = sku_active loaded then sku_active row else sku_active new,
       embedding_status := if embedding_status new = embedding_status loaded then embedding_status row else embedding_status new,
       embedding_error := if embedding_error new = embedding_error loaded then embedding_error row else embedding_error new,
       sku_updated_at := sku_updated_at new\<rparr>"

lemma save_without_interleaving: "save_columns k (assigned p t k) k = assigned p t k"
  by (simp add: save_columns_def assigned_def)

lemma interleaved_import_is_stale:
  assumes "embedding_status k = Emb_Pending" and "save_columns k (assigned p t k) (embedded v u k) = row"
  shows "stored_fields row = p \<and> embedding_status row = Emb_Ready \<and> sku_embedding row = Some v"
  using assms by (auto simp: save_columns_def assigned_def embedded_def stored_fields_def)

section \<open>What unavailable means\<close>

text \<open>Everything that happens without a request of a user.\<close>

fun of_worker :: "catalog_action \<Rightarrow> bool" where
  "of_worker (Create_Sku g i orgId x) \<longleftrightarrow> False"
| "of_worker (Update_Sku g orgId i p) \<longleftrightarrow> False"
| "of_worker (Import_File e commit_ok orgId f) \<longleftrightarrow> False"
| "of_worker _ \<longleftrightarrow> True"

lemma refreshAdminEmbedding_settled:
  assumes "k \<in> set (skus d)" and "embedding_status k \<noteq> Emb_Pending" and "distinct (map sku_id (skus d))"
  shows "k \<in> set (skus (snd (refreshAdminEmbedding g orgId i d)))"
proof (cases "find (\<lambda>k. owned orgId i k \<and> embedding_status k = Emb_Pending) (skus d)")
  case (Some x)
  then have x: "x \<in> set (skus d)" "sku_id x = i" "embedding_status x = Emb_Pending" by (auto simp: owned_def dest!: find_Some_set)
  have not_owned: "\<not> owned orgId i k"
  proof
    assume "owned orgId i k"
    then have "x = k" using same_id [OF assms(3) x(1) assms(1)] x(2) by (simp add: owned_def)
    with x(3) assms(2) show False by simp
  qed
  have "k \<in> set (skus (put_owned orgId i f d))" for f
  proof -
    have "(\<lambda>r. if owned orgId i r then f r else r) k \<in> set (skus (put_owned orgId i f d))"
      unfolding put_owned_def using assms(1) by (simp add: set_update_where)
    then show ?thesis using not_owned by simp
  qed
  with Some x(2) assms(1) show ?thesis by (simp add: refreshAdminEmbedding_def refreshEmbedding_def Let_def split: option.splits)
qed (use assms in \<open>simp add: refreshAdminEmbedding_def\<close>)

lemma refreshAdminEmbedding_ids: "map sku_id (skus (snd (refreshAdminEmbedding g orgId i d))) = map sku_id (skus d)"
  by (simp add: refreshAdminEmbedding_def refreshEmbedding_def Let_def put_owned_ids split: option.splits)

lemma of_worker_settled:
  assumes "of_worker act" and "k \<in> set (skus (cs_db s))" and "embedding_status k \<noteq> Emb_Pending" and "distinct (map sku_id (skus (cs_db s)))"
  shows "k \<in> set (skus (cs_db (catalog_act act s))) \<and> distinct (map sku_id (skus (cs_db (catalog_act act s))))"
  using assms
  by (cases act) (simp_all add: handle_embedding_def fail_embedding_def recoverPending_def refreshAdminEmbedding_settled refreshAdminEmbedding_ids)

text \<open>
  A product whose embedding failed stays as it is until a user edits or imports it again: no job is retried for it,
  whatever the worker, the recovery and the queue do, and however long the provider has been back.
\<close>

theorem unavailable_is_final:
  assumes "list_all of_worker acts" and "distinct (map sku_id (skus (cs_db s)))"
    and "k \<in> set (skus (cs_db s))" and "embedding_status k = Emb_Unavailable"
  shows "k \<in> set (skus (cs_db (catalog_run acts s)))"
proof -
  have "embedding_status k \<noteq> Emb_Pending" using assms(4) by simp
  with assms(1-3) show ?thesis
    unfolding catalog_run_def by (induction acts arbitrary: s) (simp_all add: of_worker_settled)
qed

theorem unavailable_is_final_witness:
  "let s = catalog_run [Recover_Pending [''o1'', ''o2''], Handle_Job length_embedder (''o1'', ''k1''), Recover_Pending [''o1'']] lost_jobs
   in map (\<lambda>k. (sku_id k, embedding_status k)) (skus (cs_db s)) = [(''k1'', Emb_Ready), (''k2'', Emb_Unavailable), (''k3'', Emb_Pending)] \<and>
     (blank_sku ''k2'' ''o1'')\<lparr>sku_code := ''A2'', embedding_status := Emb_Unavailable\<rparr> \<in> set (skus (cs_db s))"
proof -
  let ?acts = "[Recover_Pending [''o1'', ''o2''], Handle_Job length_embedder (''o1'', ''k1''), Recover_Pending [''o1'']]"
  let ?k = "(blank_sku ''k2'' ''o1'')\<lparr>sku_code := ''A2'', embedding_status := Emb_Unavailable\<rparr>"
  have "map (\<lambda>k. (sku_id k, embedding_status k)) (skus (cs_db (catalog_run ?acts lost_jobs))) =
      [(''k1'', Emb_Ready), (''k2'', Emb_Unavailable), (''k3'', Emb_Pending)]"
    by code_simp
  moreover have "?k \<in> set (skus (cs_db (catalog_run ?acts lost_jobs)))"
    by (rule unavailable_is_final) (simp_all add: lost_jobs_def blank_sku_def)
  ultimately show ?thesis unfolding Let_def by blast
qed

text \<open>A blank name passes: the checks of the fields look at the text before it is trimmed.\<close>

lemma blank_name_is_stored:
  "let x = a_door\<lparr>as_name := '' '', as_sku_code := '' ''\<rparr>
   in map (\<lambda>k. (sku_code k, sku_name k)) (skus (snd (createAdmin None ''k1'' ''o1'' x empty_db))) = [([], [])]"
  by code_simp

end
