(* ===== verification/Rules_File.thy ===== *)
theory Rules_File
  imports Object_Store Json
begin

text \<open>
  A service that keeps rules read from a file: the policy rules (\<open>policy/policy.service.ts\<close>) and the pricing rules
  (\<open>pricing/pricing.service.ts\<close>) are read, cached and reloaded by the same code over two schemas. The JSON reader is a parameter,
  and so is what the file system answers for a path: the time of modification and the content.
\<close>

section \<open>Reading and reloading\<close>

text \<open>\<open>fs.stat\<close> and \<open>fs.readFile\<close> of a path, \<open>JSON.parse\<close>, and the directories.\<close>

record rules_env =
  re_file :: "path \<Rightarrow> (millis \<times> string) option"
  re_json :: "string \<Rightarrow> json option"
  re_cwd :: path
  re_config_dir :: path

definition resolve_config :: "string \<Rightarrow> rules_env \<Rightarrow> string option \<Rightarrow> path option" where
  "resolve_config name e overridePath =
     (if overridePath = None \<or> overridePath = Some [] then Some (re_config_dir e @ [name])
      else
        (let resolved = resolve (re_cwd e) (the overridePath) in
         if length (re_config_dir e) < length resolved \<and> take (length (re_config_dir e)) resolved = re_config_dir e
         then Some resolved else None))"

definition validated :: "'c schema \<Rightarrow> rules_env \<Rightarrow> string \<Rightarrow> 'c option" where
  "validated schema e content = (case re_json e content of None \<Rightarrow> None | Some v \<Rightarrow> schema (Some v))"

record 'c rules_service =
  cachedConfig :: "'c option"
  lastMtime :: millis
  configPath :: path

definition get_rules :: "'c schema \<Rightarrow> 'c \<Rightarrow> rules_env \<Rightarrow> 'c rules_service \<Rightarrow> 'c \<times> 'c rules_service" where
  "get_rules schema defaults e s =
     (let fallback = (case cachedConfig s of Some c \<Rightarrow> c | None \<Rightarrow> defaults) in
      case re_file e (configPath s) of
        None \<Rightarrow> (fallback, s)
      | Some (mtimeMs, content) \<Rightarrow>
          if lastMtime s < mtimeMs \<or> cachedConfig s = None
          then (case validated schema e content of
                  Some c \<Rightarrow> (c, s\<lparr>cachedConfig := Some c, lastMtime := mtimeMs\<rparr>)
                | None \<Rightarrow> (fallback, s))
          else (fallback, s))"

datatype rules_error = Outside_Directory | No_Such_File | Not_Valid

definition reload_rules ::
  "'c schema \<Rightarrow> string \<Rightarrow> rules_env \<Rightarrow> string option \<Rightarrow> 'c rules_service \<Rightarrow> (rules_error + 'c) \<times> 'c rules_service" where
  "reload_rules schema name e overridePath s =
     (case (if overridePath = None \<or> overridePath = Some [] then Some (configPath s) else resolve_config name e overridePath) of
        None \<Rightarrow> (Inl Outside_Directory, s)
      | Some resolvedPath \<Rightarrow>
          (case re_file e resolvedPath of
             None \<Rightarrow> (Inl No_Such_File, s)
           | Some (mtimeMs, content) \<Rightarrow>
               (case validated schema e content of
                  None \<Rightarrow> (Inl Not_Valid, s)
                | Some c \<Rightarrow> (Inr c, \<lparr>cachedConfig = Some c, lastMtime = mtimeMs, configPath = resolvedPath\<rparr>))))"

text \<open>The service from its start, through any sequence of calls, each with what the file system then answers.\<close>

definition fresh_service :: "string \<Rightarrow> rules_env \<Rightarrow> 'c rules_service" where
  "fresh_service name e = \<lparr>cachedConfig = None, lastMtime = 0, configPath = re_config_dir e @ [name]\<rparr>"

datatype rules_call = Get_Rules | Reload_Rules "string option"

fun rules_step :: "'c schema \<Rightarrow> string \<Rightarrow> 'c \<Rightarrow> rules_env \<times> rules_call \<Rightarrow> 'c rules_service \<Rightarrow> 'c rules_service" where
  "rules_step schema name defaults (e, Get_Rules) s = snd (get_rules schema defaults e s)"
| "rules_step schema name defaults (e, Reload_Rules p) s = snd (reload_rules schema name e p s)"

definition rules_run :: "'c schema \<Rightarrow> string \<Rightarrow> 'c \<Rightarrow> (rules_env \<times> rules_call) list \<Rightarrow> 'c rules_service \<Rightarrow> 'c rules_service" where
  "rules_run schema name defaults calls s = fold (rules_step schema name defaults) calls s"

section \<open>The rules in force\<close>

text \<open>What a schema and the defaults owe the clients of the service: rules that are well formed.\<close>

locale rules_file =
  fixes schema :: "'c schema" and defaults :: 'c and well_formed :: "'c \<Rightarrow> bool"
  assumes schema_well_formed: "schema v = Some c \<Longrightarrow> well_formed c"
    and defaults_well_formed: "well_formed defaults"
begin

definition cached_ok :: "'c rules_service \<Rightarrow> bool" where
  "cached_ok s \<longleftrightarrow> (case cachedConfig s of Some c \<Rightarrow> well_formed c | None \<Rightarrow> True)"

lemma get_rules_ok: "cached_ok s \<Longrightarrow> well_formed (fst (get_rules schema defaults e s)) \<and> cached_ok (snd (get_rules schema defaults e s))"
  using defaults_well_formed
  by (auto simp: get_rules_def cached_ok_def Let_def validated_def dest: schema_well_formed split: option.splits)

lemma reload_rules_ok: "cached_ok s \<Longrightarrow> cached_ok (snd (reload_rules schema name e p s))"
  by (auto simp: reload_rules_def cached_ok_def validated_def dest: schema_well_formed split: option.splits)

lemma rules_run_ok: "cached_ok s \<Longrightarrow> cached_ok (rules_run schema name defaults calls s)"
  unfolding rules_run_def
proof (induction calls arbitrary: s)
  case (Cons x calls)
  have "cached_ok (rules_step schema name defaults x s)"
    using Cons.prems get_rules_ok reload_rules_ok by (cases x; cases "snd x") auto
  with Cons.IH show ?case by simp
qed simp

lemma rules_in_force:
  "well_formed (fst (get_rules schema defaults e (rules_run schema name defaults calls (fresh_service name e0))))"
  using get_rules_ok rules_run_ok by (simp add: cached_ok_def fresh_service_def)

end

text \<open>A file replaced by an older one is not read again; one that became invalid leaves the rules in force.\<close>

lemma older_file_is_not_read:
  assumes "cachedConfig s = Some c" and "re_file e (configPath s) = Some (t, content)" and "t \<le> lastMtime s"
  shows "get_rules schema defaults e s = (c, s)"
  using assms by (simp add: get_rules_def)

lemma invalid_file_is_ignored:
  assumes "re_file e (configPath s) = Some (t, content)" and "validated schema e content = None"
  shows "get_rules schema defaults e s = ((case cachedConfig s of Some c \<Rightarrow> c | None \<Rightarrow> defaults), s)"
  using assms by (simp add: get_rules_def Let_def)

text \<open>Reloading answers an error and changes nothing, or the rules it puts in force.\<close>

lemma reload_outcome:
  "case reload_rules schema name e overridePath s of
     (Inl err, s') \<Rightarrow> s' = s
   | (Inr c, s') \<Rightarrow> cachedConfig s' = Some c \<and> get_rules schema defaults e s' = (c, s')"
  by (auto simp: reload_rules_def get_rules_def split: option.splits prod.splits)

end
