(* ===== verification/Policy_File.thy ===== *)
theory Policy_File
  imports Number_Text Rules_File
begin

text \<open>
  The policy rules read from a file (\<open>policy/policy.service.ts\<close>): the schema of the file, the evaluation of a deal against
  the rules, and their conditions. Reading and reloading are those of \<^verbatim>\<open>Rules_File\<close>.
\<close>

section \<open>The file\<close>

record policy_file_rule =
  pf_name :: string
  pf_condition :: string
  pf_priority :: int
  pf_active :: bool

record policy_config =
  autoApproveThreshold :: rat
  maxLineItems :: int
  restrictedCategories :: "string list"
  file_rules :: "policy_file_rule list"

definition PolicyRuleSchema :: "policy_file_rule schema" where
  "PolicyRuleSchema v = do {
     p \<leftarrow> z_object v;
     n \<leftarrow> z_nonempty_string (field ''name'' p);
     c \<leftarrow> z_nonempty_string (field ''condition'' p);
     k \<leftarrow> z_default 1 (z_refine z_int (\<lambda>n. 1 \<le> n)) (field ''priority'' p);
     a \<leftarrow> z_default True z_boolean (field ''active'' p);
     Some \<lparr>pf_name = n, pf_condition = c, pf_priority = k, pf_active = a\<rparr> }"

definition PolicyRulesSchema :: "policy_config schema" where
  "PolicyRulesSchema v = do {
     p \<leftarrow> z_object v;
     t \<leftarrow> z_nonnegative (field ''autoApproveThreshold'' p);
     n \<leftarrow> z_refine z_int (\<lambda>n. 1 \<le> n) (field ''maxLineItems'' p);
     cs \<leftarrow> z_array z_string (field ''restrictedCategories'' p);
     rs \<leftarrow> z_array PolicyRuleSchema (field ''rules'' p);
     Some \<lparr>autoApproveThreshold = t, maxLineItems = n, restrictedCategories = cs, file_rules = rs\<rparr> }"

definition DEFAULT_RULES :: policy_config where
  "DEFAULT_RULES = \<lparr>autoApproveThreshold = 5000, maxLineItems = 100, restrictedCategories = [], file_rules = []\<rparr>"

definition getRules :: "rules_env \<Rightarrow> policy_config rules_service \<Rightarrow> policy_config \<times> policy_config rules_service" where
  "getRules = get_rules PolicyRulesSchema DEFAULT_RULES"

definition reload :: "rules_env \<Rightarrow> string option \<Rightarrow> policy_config rules_service \<Rightarrow> (rules_error + policy_config) \<times> policy_config rules_service" where
  "reload = reload_rules PolicyRulesSchema ''policy-rules.json''"

text \<open>What the schema gives: bounds that are not negative, and rules with a name, a condition and a priority.\<close>

definition policy_config_ok :: "policy_config \<Rightarrow> bool" where
  "policy_config_ok c \<longleftrightarrow> 0 \<le> autoApproveThreshold c \<and> 1 \<le> maxLineItems c \<and>
     list_all (\<lambda>r. pf_name r \<noteq> [] \<and> pf_condition r \<noteq> [] \<and> 1 \<le> pf_priority r) (file_rules c)"

lemma those_all: "those xs = Some ys \<Longrightarrow> y \<in> set ys \<Longrightarrow> Some y \<in> set xs"
  by (induction xs arbitrary: ys) (auto split: option.splits)

lemma PolicyRuleSchema_ok: "PolicyRuleSchema v = Some r \<Longrightarrow> pf_name r \<noteq> [] \<and> pf_condition r \<noteq> [] \<and> 1 \<le> pf_priority r"
  by (auto simp: PolicyRuleSchema_def z_nonempty_string_def z_refine_Some z_default_def split: bind_splits if_splits)

interpretation policy_rules: rules_file PolicyRulesSchema DEFAULT_RULES policy_config_ok
proof
  fix v c
  assume "PolicyRulesSchema v = Some c"
  then obtain p t n cs rs where t: "z_nonnegative t = Some (autoApproveThreshold c)" and n: "z_refine z_int (\<lambda>n. 1 \<le> n) n = Some (maxLineItems c)"
    and rs: "z_array PolicyRuleSchema rs = Some (file_rules c)"
    by (auto simp: PolicyRulesSchema_def split: bind_splits)
  have "0 \<le> autoApproveThreshold c" "1 \<le> maxLineItems c" using t n by (simp_all add: z_nonnegative_def z_refine_Some)
  moreover have "pf_name r \<noteq> [] \<and> pf_condition r \<noteq> [] \<and> 1 \<le> pf_priority r" if "r \<in> set (file_rules c)" for r
  proof -
    obtain vs where "those (map (\<lambda>v. PolicyRuleSchema (Some v)) vs) = Some (file_rules c)"
      using rs by (cases "(PolicyRuleSchema, rs)" rule: z_array.cases) auto
    from those_all [OF this that] show ?thesis using PolicyRuleSchema_ok by auto
  qed
  ultimately show "policy_config_ok c" by (simp add: policy_config_ok_def list_all_iff)
qed (simp add: policy_config_ok_def DEFAULT_RULES_def)

section \<open>Conditions\<close>

text \<open>\<open>replaceAll(key, value)\<close> of a non-empty key.\<close>

function replace_all :: "string \<Rightarrow> string \<Rightarrow> string \<Rightarrow> string" where
  "replace_all k v s =
     (if s = [] \<or> k = [] then s
      else if take (length k) s = k then v @ replace_all k v (drop (length k) s)
      else hd s # replace_all k v (tl s))"
  by pat_completeness auto

termination
  by (relation "measure (\<lambda>(k, v, s). length s)") (auto simp: length_greater_0_conv)

declare replace_all.simps [simp del]

fun index_of :: "string \<Rightarrow> string \<Rightarrow> nat option" where
  "index_of w [] = (if w = [] then Some 0 else None)"
| "index_of w (c # s) = (if take (length w) (c # s) = w then Some 0 else map_option Suc (index_of w s))"

text \<open>\<open>Number.parseFloat\<close>: the longest numeral the text starts with; the word \<open>Infinity\<close> aside.\<close>

definition exponent_prefix :: "string \<Rightarrow> int" where
  "exponent_prefix r =
     (case r of
        [] \<Rightarrow> 0
      | c # r \<Rightarrow> if c = CHR ''e'' \<or> c = CHR ''E'' then (let (sg, ds) = signed r in sg * digits_val 10 (takeWhile is_digit ds)) else 0)"

definition parseFloat :: "string \<Rightarrow> rat option" where
  "parseFloat s =
     (let (sg, r) = signed (dropWhile js_space s);
          whole = takeWhile is_digit r; r = dropWhile is_digit r;
          (frac, r) = (case r of CHR ''.'' # t \<Rightarrow> (takeWhile is_digit t, dropWhile is_digit t) | _ \<Rightarrow> ([], r))
      in if whole = [] \<and> frac = [] then None
         else Some (of_int sg * of_int (digits_val 10 (whole @ frac)) * pow10 (exponent_prefix r - int (length frac))))"

record policy_params =
  pp_total :: rat
  pp_lineItems :: rat
  pp_categories :: "string list"

text \<open>The names in a condition, the longest first, with their values.\<close>

definition condition_names :: "policy_params \<Rightarrow> policy_config \<Rightarrow> (string \<times> rat) list" where
  "condition_names ps cfg =
     [(''autoApproveThreshold'', autoApproveThreshold cfg), (''maxLineItems'', of_int (maxLineItems cfg)),
      (''lineItems'', pp_lineItems ps), (''total'', pp_total ps)]"

definition substitute :: "(string \<times> rat) list \<Rightarrow> string \<Rightarrow> string" where
  "substitute names s = fold (\<lambda>(k, x). replace_all k (number_text x)) names s"

definition condition_operators :: "(string \<times> (rat \<Rightarrow> rat \<Rightarrow> bool)) list" where
  "condition_operators = [(''<='', \<lambda>a b. a \<le> b), (''>='', \<lambda>a b. a \<ge> b), (''<'', \<lambda>a b. a < b), (''>'', \<lambda>a b. a > b)]"

fun first_operator :: "(string \<times> (rat \<Rightarrow> rat \<Rightarrow> bool)) list \<Rightarrow> string \<Rightarrow> bool" where
  "first_operator [] expr \<longleftrightarrow> False"
| "first_operator ((w, f) # ws) expr \<longleftrightarrow>
     (case index_of w expr of
        None \<Rightarrow> first_operator ws expr
      | Some idx \<Rightarrow>
          (case (parseFloat (trim (take idx expr)), parseFloat (trim (drop (idx + length w) expr))) of
             (Some a, Some b) \<Rightarrow> f a b
           | _ \<Rightarrow> first_operator ws expr))"

definition evaluateCondition :: "string \<Rightarrow> policy_params \<Rightarrow> policy_config \<Rightarrow> bool" where
  "evaluateCondition condition ps cfg \<longleftrightarrow> first_operator condition_operators (substitute (condition_names ps cfg) condition)"

section \<open>Evaluation\<close>

datatype file_violation = Max_Line_Items rat int | Restricted_Category string

record policy_verdict =
  pv_approved :: bool
  pv_autoApprovable :: bool
  pv_triggeredRules :: "string list"
  pv_violations :: "file_violation list"

definition evaluate_rules :: "policy_config \<Rightarrow> policy_params \<Rightarrow> policy_verdict" where
  "evaluate_rules rules ps =
     (let violations =
        (if pp_lineItems ps > of_int (maxLineItems rules) then [Max_Line_Items (pp_lineItems ps) (maxLineItems rules)] else []) @
        map Restricted_Category (filter (\<lambda>c. c \<in> set (restrictedCategories rules)) (pp_categories ps))
      in \<lparr>pv_approved = (violations = []), pv_autoApprovable = (pp_total ps \<le> autoApproveThreshold rules),
          pv_triggeredRules = map pf_name (filter (\<lambda>r. pf_active r \<and> evaluateCondition (pf_condition r) ps rules) (file_rules rules)),
          pv_violations = violations\<rparr>)"

definition evaluate_policy :: "rules_env \<Rightarrow> policy_params \<Rightarrow> policy_config rules_service \<Rightarrow> policy_verdict \<times> policy_config rules_service" where
  "evaluate_policy e ps s = (case getRules e s of (rules, s) \<Rightarrow> (evaluate_rules rules ps, s))"

text \<open>
  Whatever is written to the file and however often it is read and reloaded, the policy rules in force are well formed:
  an invalid file never takes effect.
\<close>

theorem policy_rules_in_force:
  "policy_config_ok (fst (getRules e (rules_run PolicyRulesSchema ''policy-rules.json'' DEFAULT_RULES calls (fresh_service ''policy-rules.json'' e0))))"
  unfolding getRules_def by (rule policy_rules.rules_in_force)

section \<open>Facts about texts\<close>

lemma replace_all_Nil [simp]: "replace_all k v [] = []"
  by (simp add: replace_all.simps)

lemma replace_all_space:
  assumes "k \<noteq> []" and "CHR '' '' \<notin> set k"
  shows "replace_all k v (x @ CHR '' '' # s) = replace_all k v x @ CHR '' '' # replace_all k v s"
proof (induction "length x" arbitrary: x rule: less_induct)
  case less
  have prefix: "take (length k) (x @ CHR '' '' # s) = k \<longleftrightarrow> take (length k) x = k"
  proof (cases "length k \<le> length x")
    case False
    have "CHR '' '' \<in> set (take (length k) (x @ CHR '' '' # s))" if "length x < length k"
      using that by (cases "length k - length x") auto
    then have "CHR '' '' \<in> set (take (length k) (x @ CHR '' '' # s))" using False by simp
    with assms(2) have "take (length k) (x @ CHR '' '' # s) \<noteq> k" by metis
    moreover have "take (length k) x \<noteq> k" using False by auto
    ultimately show ?thesis by simp
  qed simp
  show ?case
  proof (cases "take (length k) x = k")
    case True
    then have k: "length k \<le> length x" by (metis length_take min.cobounded1)
    have "x \<noteq> []" using True assms(1) by auto
    have "length (drop (length k) x) < length x" using k assms(1) \<open>x \<noteq> []\<close> by (cases k) auto
    note IH = less.hyps [OF this]
    have "replace_all k v (x @ CHR '' '' # s) = v @ replace_all k v (drop (length k) x @ CHR '' '' # s)"
      using True prefix assms(1) k by (subst replace_all.simps) simp
    moreover have "replace_all k v x = v @ replace_all k v (drop (length k) x)"
      using True assms(1) \<open>x \<noteq> []\<close> by (subst replace_all.simps) simp
    ultimately show ?thesis using IH by simp
  next
    case False
    show ?thesis
    proof (cases x)
      case Nil
      have "replace_all k v (CHR '' '' # s) = CHR '' '' # replace_all k v s"
        using False prefix assms(1) Nil by (subst replace_all.simps) simp
      then show ?thesis by (simp add: Nil)
    next
      case (Cons c y)
      note IH = less.hyps [of y]
      have "replace_all k v (x @ CHR '' '' # s) = c # replace_all k v (y @ CHR '' '' # s)"
        using False prefix assms(1) Cons by (subst replace_all.simps) simp
      moreover have "replace_all k v x = c # replace_all k v y"
        using False assms(1) Cons by (subst replace_all.simps) simp
      ultimately show ?thesis using IH Cons by simp
    qed
  qed
qed

text \<open>Digits hold no name and no operator.\<close>

lemma replace_all_digits:
  assumes "\<not> is_digit (hd k)" and "\<forall>c \<in> set x. is_digit c"
  shows "replace_all k v x = x"
  using assms(2)
proof (induction x)
  case (Cons c x)
  then show ?case using assms(1) by (cases k) (auto simp: replace_all.simps [of _ _ "c # x"])
qed simp

lemma index_of_digits:
  assumes "w \<noteq> []" and "\<not> is_digit (hd w)" and "\<forall>c \<in> set x. is_digit c"
  shows "index_of w (x @ s) = map_option (\<lambda>n. n + length x) (index_of w s)"
  using assms(3)
proof (induction x)
  case (Cons c x)
  then show ?case using assms(1,2) by (cases w) (auto simp: option.map_comp comp_def)
qed (simp add: option.map_ident)

lemma digit_not_space: "is_digit c \<Longrightarrow> \<not> js_space c"
  by (auto simp: is_digit_def js_space_def)

lemma trim_around:
  assumes "x \<noteq> []" and "\<forall>c \<in> set x. is_digit c"
  shows "trim (x @ '' '') = x" and "trim (CHR '' '' # x) = x"
proof -
  have front: "dropWhile js_space y = y" if "y \<noteq> []" "\<forall>c \<in> set y. is_digit c" for y
    using that digit_not_space by (cases y) auto
  have "dropWhile js_space (x @ '' '') = x @ '' ''" using assms digit_not_space by (cases x) auto
  moreover have "dropWhile js_space (CHR '' '' # rev x) = rev x" using front [of "rev x"] assms by (simp add: js_space_def)
  ultimately show "trim (x @ '' '') = x" by (simp add: trim_def)
  have "dropWhile js_space (CHR '' '' # x) = x" using front [of x] assms by (simp add: js_space_def)
  moreover have "dropWhile js_space (rev x) = rev x" using front [of "rev x"] assms by simp
  ultimately show "trim (CHR '' '' # x) = x" by (simp add: trim_def)
qed

lemma parseFloat_nat: "parseFloat (nat_digits n) = Some (of_nat n)"
proof -
  let ?x = "nat_digits n"
  have d: "\<forall>c \<in> set ?x. is_digit c" using nat_digits_digits by blast
  have facts: "dropWhile js_space ?x = ?x" "signed ?x = (1, ?x)" "takeWhile is_digit ?x = ?x" "dropWhile is_digit ?x = []"
    using digit_not_space d signed_digits [of ?x "[]"] nat_digits_val [of n]
    by (cases ?x; simp add: takeWhile_eq_all_conv dropWhile_eq_Nil_conv)+
  show ?thesis using nat_digits_val [of n]
    by (simp add: parseFloat_def exponent_prefix_def pow10_def Let_def facts)
qed

lemma number_text_nat: "number_text (of_nat n) = nat_digits n"
proof -
  have "frac_digits k 0 = []" for k by (cases k) simp_all
  then show ?thesis by (simp add: number_text_def Let_def)
qed

section \<open>The conditions that mean what they say\<close>

text \<open>Two operands around an operator, with spaces: a name of the deal or of the rules, or a natural number.\<close>

datatype operand = Op_Total | Op_Items | Op_Threshold | Op_Max | Op_Literal nat

fun operand_text :: "operand \<Rightarrow> string" where
  "operand_text Op_Total = ''total''" | "operand_text Op_Items = ''lineItems''"
| "operand_text Op_Threshold = ''autoApproveThreshold''" | "operand_text Op_Max = ''maxLineItems''"
| "operand_text (Op_Literal n) = nat_digits n"

fun operand_value :: "nat \<Rightarrow> nat \<Rightarrow> nat \<Rightarrow> nat \<Rightarrow> operand \<Rightarrow> nat" where
  "operand_value t i a m Op_Total = t" | "operand_value t i a m Op_Items = i"
| "operand_value t i a m Op_Threshold = a" | "operand_value t i a m Op_Max = m"
| "operand_value t i a m (Op_Literal n) = n"

datatype comparison = Le | Ge | Lt | Gt

fun comparison_text :: "comparison \<Rightarrow> string" where
  "comparison_text Le = ''<=''" | "comparison_text Ge = ''>=''" | "comparison_text Lt = ''<''" | "comparison_text Gt = ''>''"

fun compare_nats :: "comparison \<Rightarrow> nat \<Rightarrow> nat \<Rightarrow> bool" where
  "compare_nats Le a b \<longleftrightarrow> a \<le> b" | "compare_nats Ge a b \<longleftrightarrow> a \<ge> b" | "compare_nats Lt a b \<longleftrightarrow> a < b" | "compare_nats Gt a b \<longleftrightarrow> a > b"

definition condition_text :: "operand \<Rightarrow> comparison \<Rightarrow> operand \<Rightarrow> string" where
  "condition_text l op r = operand_text l @ '' '' @ comparison_text op @ '' '' @ operand_text r"

lemma substitute_space:
  assumes "\<forall>f \<in> set names. fst f \<noteq> [] \<and> CHR '' '' \<notin> set (fst f)"
  shows "substitute names (x @ CHR '' '' # s) = substitute names x @ CHR '' '' # substitute names s"
  using assms unfolding substitute_def
  by (induction names arbitrary: x s) (auto simp: replace_all_space)

lemma substitute_digits:
  assumes "\<forall>f \<in> set names. \<not> is_digit (hd (fst f))" and "\<forall>c \<in> set x. is_digit c"
  shows "substitute names x = x"
  using assms unfolding substitute_def
  by (induction names) (auto simp: replace_all_digits)

lemma substitute_operand:
  assumes "autoApproveThreshold cfg = of_nat a" and "maxLineItems cfg = int m" and "pp_total ps = of_nat t" and "pp_lineItems ps = of_nat i"
  shows "substitute (condition_names ps cfg) (operand_text x) = nat_digits (operand_value t i a m x)"
proof -
  have whole: "replace_all k v k = v" if "k \<noteq> []" for k v using that by (subst replace_all.simps) simp
  have digits: "replace_all k v (nat_digits n) = nat_digits n" if "\<not> is_digit (hd k)" for k v n
    using that nat_digits_digits by (intro replace_all_digits) auto
  have other: "replace_all k v s = s" if "index_of k s = None" for k v s
    using that
  proof (induction s)
    case (Cons c s)
    then show ?case by (subst replace_all.simps) (auto split: if_splits)
  qed simp
  have letters: "\<not> is_digit CHR ''a''" "\<not> is_digit CHR ''m''" "\<not> is_digit CHR ''l''" "\<not> is_digit CHR ''t''"
    by (simp_all add: is_digit_def)
  have n: "number_text (rat_of_int (int m)) = nat_digits m" using number_text_nat [of m] by simp
  show ?thesis
    by (cases x) (simp_all add: substitute_def condition_names_def assms number_text_nat n whole digits other letters)
qed

lemma substitute_condition:
  assumes "autoApproveThreshold cfg = of_nat a" and "maxLineItems cfg = int m" and "pp_total ps = of_nat t" and "pp_lineItems ps = of_nat i"
  shows "substitute (condition_names ps cfg) (condition_text l op r) =
    nat_digits (operand_value t i a m l) @ '' '' @ comparison_text op @ '' '' @ nat_digits (operand_value t i a m r)"
proof -
  have names: "\<forall>f \<in> set (condition_names ps cfg). fst f \<noteq> [] \<and> CHR '' '' \<notin> set (fst f)" by (simp add: condition_names_def)
  have "substitute (condition_names ps cfg) (comparison_text op) = comparison_text op"
    by (cases op) (simp_all add: substitute_def condition_names_def replace_all.simps)
  then show ?thesis
    by (simp add: condition_text_def substitute_space [OF names] substitute_operand [OF assms])
qed

text \<open>Where an operator is found, and what stands on its sides.\<close>

lemma index_of_operator:
  assumes "w \<in> set [''<='', ''>='', ''<'', ''>'']"
  shows "index_of w (nat_digits x @ '' '' @ comparison_text op @ '' '' @ nat_digits y) =
    (if take (length w) (comparison_text op) = w then Some (length (nat_digits x) + 1) else None)"
proof -
  have d: "\<forall>c \<in> set (nat_digits n). is_digit c" for n using nat_digits_digits by blast
  have w: "w \<noteq> []" "\<not> is_digit (hd w)" using assms by (auto simp: is_digit_def)
  have y: "index_of w (nat_digits y) = None" using index_of_digits [OF w d, where s = "[]"] w(1) by simp
  have "index_of w ('' '' @ comparison_text op @ '' '' @ nat_digits y) = (if take (length w) (comparison_text op) = w then Some 1 else None)"
    using assms y by (cases op) auto
  then show ?thesis unfolding index_of_digits [OF w d] by simp
qed

lemma operator_holds:
  "first_operator condition_operators (nat_digits x @ '' '' @ comparison_text op @ '' '' @ nat_digits y) \<longleftrightarrow> compare_nats op x y"
proof -
  let ?e = "nat_digits x @ '' '' @ comparison_text op @ '' '' @ nat_digits y"
  have d: "\<forall>c \<in> set (nat_digits n). is_digit c" for n using nat_digits_digits by blast
  have left: "parseFloat (trim (take (length (nat_digits x) + 1) ?e)) = Some (of_nat x)"
    using trim_around(1) [OF nat_digits_ne d, of x] by (simp add: parseFloat_nat)
  have right: "parseFloat (trim (drop (length (nat_digits x) + 1 + length (comparison_text op)) ?e)) = Some (of_nat y)"
    using trim_around(2) [OF nat_digits_ne d, of y] by (simp add: parseFloat_nat)
  note found = index_of_operator [of "''<=''" x op y] index_of_operator [of "''>=''" x op y]
    index_of_operator [of "''<''" x op y] index_of_operator [of "''>''" x op y]
  show ?thesis
    using left right found by (cases op) (simp_all add: condition_operators_def)
qed


definition shipped_rules :: policy_config where
  "shipped_rules = \<lparr>autoApproveThreshold = 5000, maxLineItems = 100, restrictedCategories = [],
     file_rules = [\<lparr>pf_name = ''auto_approve_small_orders'', pf_condition = ''total <= autoApproveThreshold'', pf_priority = 10, pf_active = True\<rparr>,
       \<lparr>pf_name = ''flag_large_orders'', pf_condition = ''total > 100000'', pf_priority = 20, pf_active = True\<rparr>]\<rparr>"

definition deal :: "nat \<Rightarrow> nat \<Rightarrow> policy_params" where
  "deal t i = \<lparr>pp_total = of_nat t, pp_lineItems = of_nat i, pp_categories = []\<rparr>"


section \<open>What the evaluation does not see\<close>

text \<open>Of a conjunction only the first comparison counts, and of an arithmetic operand the first number; there is no equality.\<close>

lemma conjunction_is_ignored:
  "let cfg = shipped_rules\<lparr>autoApproveThreshold := 5, maxLineItems := 9\<rparr>
   in evaluateCondition ''total > 1 && lineItems > 5'' (deal 2 1) cfg \<and>
      \<not> evaluateCondition ''total * 2 > 3'' (deal 2 1) cfg \<and> \<not> evaluateCondition ''total == 2'' (deal 2 1) cfg"
  by code_simp

end
