(* ===== verification/Event_Stream.thy ===== *)
theory Event_Stream
  imports Events Js_Text Request_Store
begin

text \<open>
  The stream a client watches a request on (\<open>requests/services/stream.service.ts\<close>): the events the service writes
  to it, the bridge between the processes (\<open>sse/sse.service.ts\<close>), and what is removed from an event before it
  leaves. A published event is a name and a document.
\<close>

section \<open>Summaries\<close>

definition SANITIZED_SUMMARY_PLACEHOLDER :: string where
  "SANITIZED_SUMMARY_PLACEHOLDER = ''Processing step completed''"

definition REDACTED_FIELD_PLACEHOLDER :: string where
  "REDACTED_FIELD_PLACEHOLDER = ''[redacted]''"

definition bounded :: "rx \<Rightarrow> rx" where
  "bounded r = Cat Word_Boundary (Cat r Word_Boundary)"

definition REASONING_PATTERNS :: "rx list" where
  "REASONING_PATTERNS =
     [bounded (alts (map lit_i [''chain.of.thought'', ''CoT'', ''reasoning'', ''think step by step''])),
      bounded (alts (map lit_i [''Let me think'', ''I need to'', ''First, I'', ''We can see that''])),
      cats [Word_Boundary, alts (map lit_i [''assistant:'', ''model:'', ''AI:'', ''system:'']), Star (Cls white_char), End_Of_Line],
      bounded (Alt (cats [lit_i ''step '', digits, lit ''/'', digits]) (cats [lit_i ''step '', digits, lit_i '' of '', digits]))]"

definition sanitizeSummary :: "string \<Rightarrow> string" where
  "sanitizeSummary summary = (if \<exists>p \<in> set REASONING_PATTERNS. rx_test p summary then SANITIZED_SUMMARY_PLACEHOLDER else summary)"

section \<open>What the service writes\<close>

text \<open>\<open>StreamToolStatus\<close>.\<close>

datatype stream_tool_status = Status_Running | Status_Success | Status_Failed | Status_Retried

fun stream_tool_name :: "stream_tool_status \<Rightarrow> string" where
  "stream_tool_name Status_Running = ''running''" | "stream_tool_name Status_Success = ''success''"
| "stream_tool_name Status_Failed = ''failed''" | "stream_tool_name Status_Retried = ''retried''"

definition stream_params :: "string \<Rightarrow> uuid \<Rightarrow> uuid option \<Rightarrow> (string \<times> json) list \<Rightarrow> emit_params" where
  "stream_params name requestId orgId attrs =
     \<lparr>ep_eventName = name, ep_orgId = orgId, ep_requestId = Some requestId, ep_quoteId = None, ep_userId = None, ep_attributes = Some (JObj attrs)\<rparr>"

text \<open>A failed emission is only logged. \<open>now\<close> is the time.\<close>

definition emitNodeEntered :: "string_formats \<Rightarrow> bool \<Rightarrow> string \<Rightarrow> uuid \<Rightarrow> current_node \<Rightarrow> uuid option \<Rightarrow> bus \<Rightarrow> bus" where
  "emitNodeEntered zf store_ok now requestId node orgId b =
     snd (service_emit zf store_ok now (stream_params ''node.entered'' requestId orgId
       [(''type'', JStr ''node.entered''), (''timestamp'', JStr now), (''node'', JStr (node_name node)), (''status'', JStr ''processing'')]) b)"

definition emitNodeExited :: "string_formats \<Rightarrow> bool \<Rightarrow> string \<Rightarrow> uuid \<Rightarrow> current_node \<Rightarrow> bool \<Rightarrow> nat \<Rightarrow> string \<Rightarrow> uuid option \<Rightarrow> bus \<Rightarrow> bus" where
  "emitNodeExited zf store_ok now requestId node success durationMs summary orgId b =
     snd (service_emit zf store_ok now (stream_params ''node.exited'' requestId orgId
       [(''type'', JStr ''node.exited''), (''timestamp'', JStr now), (''node'', JStr (node_name node)), (''status'', JStr (success_name success)),
        (''duration_ms'', JNum (of_nat durationMs)), (''summary'', JStr (sanitizeSummary summary))]) b)"

definition emitToolInvoked ::
  "string_formats \<Rightarrow> bool \<Rightarrow> string \<Rightarrow> uuid \<Rightarrow> current_node \<Rightarrow> string \<Rightarrow> stream_tool_status \<Rightarrow> nat \<Rightarrow> string \<Rightarrow> uuid option \<Rightarrow> bus \<Rightarrow> bus" where
  "emitToolInvoked zf store_ok now requestId node toolName progress attempt resultSummary orgId b =
     snd (service_emit zf store_ok now (stream_params ''tool.invoked'' requestId orgId
       [(''type'', JStr ''tool.invoked''), (''timestamp'', JStr now), (''node'', JStr (node_name node)), (''tool_name'', JStr toolName),
        (''status'', JStr (stream_tool_name progress)), (''attempt'', JNum (of_nat attempt)),
        (''result_summary'', JStr (sanitizeSummary resultSummary))]) b)"

definition emitProcessingComplete :: "string_formats \<Rightarrow> bool \<Rightarrow> string \<Rightarrow> uuid \<Rightarrow> bool \<Rightarrow> nat \<Rightarrow> uuid option \<Rightarrow> bus \<Rightarrow> bus" where
  "emitProcessingComplete zf store_ok now requestId success totalDurationMs orgId b =
     snd (service_emit zf store_ok now (stream_params ''processing.complete'' requestId orgId
       [(''type'', JStr ''processing.complete''), (''timestamp'', JStr now), (''status'', JStr (success_name success)),
        (''total_duration_ms'', JNum (of_nat totalDurationMs))]) b)"

section \<open>The bridge\<close>

text \<open>
  Every process has the messages its own clients were given. The publisher of a process is absent before the start is
  complete; a publication reaches every process that has subscribed, and when it fails the sender's own clients.
\<close>

type_synonym message = "string \<times> json"

record sse_process =
  publisher_ready :: bool
  subscribed :: bool
  delivered :: "message list"

definition sse_give :: "message \<Rightarrow> sse_process \<Rightarrow> sse_process" where
  "sse_give m p = p\<lparr>delivered := delivered p @ [m]\<rparr>"

definition sse_emit :: "bool \<Rightarrow> nat \<Rightarrow> message \<Rightarrow> sse_process list \<Rightarrow> sse_process list" where
  "sse_emit published_ok i m ps =
     (if i < length ps \<and> publisher_ready (ps ! i) \<and> published_ok
      then map (\<lambda>p. if subscribed p then sse_give m p else p) ps
      else (if i < length ps then ps[i := sse_give m (ps ! i)] else ps))"

section \<open>What a client is given\<close>

text \<open>\<open>String(value ?? '')\<close> of a document.\<close>

fun value_string :: "json \<Rightarrow> string" where
  "value_string JNull = []"
| "value_string (JBool b) = (if b then ''true'' else ''false'')"
| "value_string (JNum x) = number_text x"
| "value_string (JStr s) = s"
| "value_string (JArr xs) = concat (map (\<lambda>(i, s). (if i = 0 then [] else '','') @ s) (enumerate (0 :: nat) (map value_string xs)))"
| "value_string (JObj fs) = ''[object Object]''"

definition SUMMARY_KEYS :: "string list" where
  "SUMMARY_KEYS = [''summary'', ''result_summary'']"

definition REDACTED_KEYS :: "string list" where
  "REDACTED_KEYS = [''error'', ''error_detail'', ''raw_output'', ''model_reasoning'', ''chain_of_thought'']"

fun sanitizeValue :: "json \<Rightarrow> json" where
  "sanitizeValue (JArr xs) = JArr (map sanitizeValue xs)"
| "sanitizeValue (JObj fs) =
     JObj (map (\<lambda>f. (fst f,
        if fst f \<in> set SUMMARY_KEYS then JStr (sanitizeSummary (value_string (snd f)))
        else if fst f \<in> set REDACTED_KEYS then JStr REDACTED_FIELD_PLACEHOLDER
        else sanitizeValue (snd f))) fs)"
| "sanitizeValue v = v"

definition stream_subscribe :: "uuid \<Rightarrow> message list \<Rightarrow> message list" where
  "stream_subscribe requestId ms =
     map (\<lambda>(name, data). (name, sanitizeValue data)) (filter (\<lambda>(name, data). field ''request_id'' data = Some (JStr requestId)) ms)"

text \<open>The endpoint: an unknown request and one of another organisation are not found.\<close>

definition events_endpoint :: "bool \<Rightarrow> uuid option \<Rightarrow> uuid \<Rightarrow> db \<Rightarrow> message list \<Rightarrow> message list option" where
  "events_endpoint auth caller requestId d ms =
     (case find_request requestId d of
        None \<Rightarrow> None
      | Some q \<Rightarrow>
          if auth \<and> caller = None \<or> caller \<noteq> None \<and> caller \<noteq> Some (r_org_id q) then None
          else Some (stream_subscribe requestId ms))"

section \<open>Nothing of the reasoning leaves\<close>

text \<open>A summary none of the patterns finds, and a document that holds only such summaries and no field to redact.\<close>

definition unrevealing :: "string \<Rightarrow> bool" where
  "unrevealing s \<longleftrightarrow> list_all (\<lambda>p. \<not> rx_test p s) REASONING_PATTERNS"

fun clean :: "json \<Rightarrow> bool" where
  "clean (JArr xs) \<longleftrightarrow> (\<forall>x \<in> set xs. clean x)"
| "clean (JObj fs) \<longleftrightarrow>
     (\<forall>f \<in> set fs.
        if fst f \<in> set SUMMARY_KEYS then (case snd f of JStr s \<Rightarrow> unrevealing s | _ \<Rightarrow> False)
        else if fst f \<in> set REDACTED_KEYS then snd f = JStr REDACTED_FIELD_PLACEHOLDER
        else clean (snd f))"
| "clean _ \<longleftrightarrow> True"

lemma placeholder_unrevealing: "unrevealing SANITIZED_SUMMARY_PLACEHOLDER"
  by code_simp

lemma sanitizeSummary_unrevealing: "unrevealing (sanitizeSummary s)"
  using placeholder_unrevealing by (auto simp: sanitizeSummary_def unrevealing_def list_all_iff)

lemma sanitizeSummary_id: "unrevealing s \<Longrightarrow> sanitizeSummary s = s"
  by (auto simp: sanitizeSummary_def unrevealing_def list_all_iff)

lemma sanitizeValue_clean: "clean (sanitizeValue v)"
  by (induction v rule: sanitizeValue.induct) (simp_all add: sanitizeSummary_unrevealing)

lemma sanitizeValue_id: "clean v \<Longrightarrow> sanitizeValue v = v"
proof (induction v rule: sanitizeValue.induct)
  case (1 xs)
  then show ?case by (simp add: map_idI)
next
  case (2 fs)
  have "(\<lambda>f. (fst f,
        if fst f \<in> set SUMMARY_KEYS then JStr (sanitizeSummary (value_string (snd f)))
        else if fst f \<in> set REDACTED_KEYS then JStr REDACTED_FIELD_PLACEHOLDER
        else sanitizeValue (snd f))) f = f" if f: "f \<in> set fs" for f
  proof -
    have c: "if fst f \<in> set SUMMARY_KEYS then (case snd f of JStr s \<Rightarrow> unrevealing s | _ \<Rightarrow> False)
        else if fst f \<in> set REDACTED_KEYS then snd f = JStr REDACTED_FIELD_PLACEHOLDER else clean (snd f)"
      using "2.prems" f by simp
    show ?thesis
    proof (cases "fst f \<in> set SUMMARY_KEYS")
      case True
      with c obtain s where "snd f = JStr s" "unrevealing s" by (cases "snd f") auto
      with True show ?thesis by (cases f) (simp add: sanitizeSummary_id)
    next
      case False
      with c "2.IH" [OF f False] show ?thesis by (cases f) (auto split: if_splits)
    qed
  qed
  then show ?case by (simp add: map_idI)
qed simp_all

lemma sanitizeValue_request: "field ''request_id'' (sanitizeValue v) = map_option sanitizeValue (field ''request_id'' v)"
proof (cases v)
  case (JObj fs)
  have "map_of (map (\<lambda>f. (fst f, h f)) fs) ''request_id'' = map_option sanitizeValue (map_of fs ''request_id'')"
    if h: "\<And>x. h (''request_id'', x) = sanitizeValue x" for h :: "string \<times> json \<Rightarrow> json"
  proof (induction fs)
    case (Cons f fs)
    then show ?case using h by (cases f) (auto split: if_splits)
  qed simp
  then show ?thesis by (simp add: JObj field_def SUMMARY_KEYS_def REDACTED_KEYS_def)
qed (simp_all add: field_def)


definition watched :: db where
  "watched = empty_db\<lparr>requests := [demo_request ''o1'' Price St_Parsing]\<rparr>"

definition sample_messages :: "message list" where
  "sample_messages =
     [(''node.exited'', JObj [(''request_id'', JStr ''r1''), (''summary'', JStr ''Let me think about the rooms''),
        (''detail'', JArr [JObj [(''raw_output'', JStr ''secret''), (''k'', JNum 1)]])]),
      (''node.entered'', JObj [(''request_id'', JStr ''r2'')]),
      (''node.entered'', JObj [(''request_id'', JStr ''r1''), (''node'', JStr ''price'')])]"


section \<open>What the patterns and the schemas miss\<close>

text \<open>The pattern for chains of thought wants literal dots: the words as they are written pass.\<close>

lemma chain_of_thought_passes:
  "list_all (\<lambda>s. sanitizeSummary s = s) [''chain of thought: the rooms are five'', ''chain_of_thought follows'']"
  by code_simp

text \<open>A tool event with the status \<open>retried\<close> is refused by its schema: it is neither recorded nor sent.\<close>

lemma retried_is_dropped: "emitToolInvoked zf store_ok now r node toolName Status_Retried attempt summary orgId b = b"
proof -
  have "ToolInvokedPayloadSchema zf (Some (JObj
      [(''type'', JStr ''tool.invoked''), (''timestamp'', t), (''node'', JStr nd), (''tool_name'', JStr toolName),
       (''status'', JStr ''retried''), (''attempt'', a), (''result_summary'', JStr x)])) = None" for t nd a x
    by (auto simp: ToolInvokedPayloadSchema_def z_strict_def z_refine_def field_def z_names_def z_enum_def split: option.splits bind_splits)
  then show ?thesis
    by (simp add: emitToolInvoked_def service_emit_def stream_params_def EVENT_PAYLOAD_SCHEMAS_def)
qed

text \<open>An exit the service writes is stored, and reaches the clients of its request and no other.\<close>

lemma exit_reaches_clients:
  assumes "is_datetime zf now" and "node \<in> set CURRENT_NODES"
  shows "stream_subscribe r' (published (emitNodeExited zf True now r node success ms summary orgId b)) =
    stream_subscribe r' (published b) @
      (if r' = r then [(''node.exited'', JObj [(''request_id'', JStr r), (''type'', JStr ''node.exited''), (''timestamp'', JStr now),
         (''node'', JStr (node_name node)), (''status'', JStr (success_name success)), (''duration_ms'', JNum (of_nat ms)),
         (''summary'', JStr (sanitizeSummary summary))])] else [])"
proof -
  let ?as = "[(''type'', JStr ''node.exited''), (''timestamp'', JStr now), (''node'', JStr (node_name node)), (''status'', JStr (success_name success)),
        (''duration_ms'', JNum (of_nat ms)), (''summary'', JStr (sanitizeSummary summary))]"
  have "NodeExitedGenericSchema zf (Some (JObj ?as)) = Some (JObj ?as)"
    using assms by (simp add: NodeExitedGenericSchema_def wire_simps)
  then have "NodeExitedPayloadSchema zf (Some (JObj ?as)) = Some (JObj ?as)" by (simp add: NodeExitedPayloadSchema_def z_union_def)
  then have "published (emitNodeExited zf True now r node success ms summary orgId b) =
      published b @ [(''node.exited'', JObj ((''request_id'', JStr r) # ?as))]"
    by (simp add: emitNodeExited_def service_emit_def stream_params_def EVENT_PAYLOAD_SCHEMAS_def publish_def Let_def)
  then show ?thesis
    by (simp add: stream_subscribe_def field_def SUMMARY_KEYS_def REDACTED_KEYS_def sanitizeSummary_id sanitizeSummary_unrevealing)
qed

end
