(* ===== verification/Pricing_File.thy ===== *)
theory Pricing_File
  imports Rules_File
begin

text \<open>
  The pricing rules read from a file (\<open>pricing/pricing.service.ts\<close>): the schema of the file and the evaluation of a
  discount and a margin against it. Reading and reloading are those of \<^verbatim>\<open>Rules_File\<close>. These are not the rules of
  the quotes, which are rows of the database.
\<close>

section \<open>The file\<close>

record quantity_break =
  qb_minQty :: int
  qb_maxQty :: "int option"
  qb_discountPercent :: rat

text \<open>A percentage with exceptions for organisations.\<close>

record percent_rule =
  pr_default :: rat
  pr_byOrg :: "(string \<times> rat) list option"

record pricing_config =
  marginFloor :: percent_rule
  maxDiscount :: percent_rule
  quantityBreaks :: "quantity_break list"

definition z_from_one :: "int schema" where
  "z_from_one = z_refine z_int (\<lambda>n. 1 \<le> n)"

definition z_maybe :: "'a schema \<Rightarrow> 'a option schema" where
  "z_maybe s v = (if v = None then Some None else map_option Some (s v))"

definition QuantityBreakSchema :: "quantity_break schema" where
  "QuantityBreakSchema v = do {
     p \<leftarrow> z_object v;
     a \<leftarrow> z_from_one (field ''minQty'' p);
     b \<leftarrow> z_maybe z_from_one (field ''maxQty'' p);
     x \<leftarrow> z_percentage (field ''discountPercent'' p);
     if (case b of None \<Rightarrow> True | Some b \<Rightarrow> a \<le> b) then Some \<lparr>qb_minQty = a, qb_maxQty = b, qb_discountPercent = x\<rparr> else None }"

definition percent_rule_schema :: "percent_rule schema" where
  "percent_rule_schema v = do {
     p \<leftarrow> z_object v;
     x \<leftarrow> z_percentage (field ''default'' p);
     xs \<leftarrow> z_maybe (z_record z_string z_percentage) (field ''byOrg'' p);
     Some \<lparr>pr_default = x, pr_byOrg = xs\<rparr> }"

definition PricingRulesSchema :: "pricing_config schema" where
  "PricingRulesSchema v = do {
     p \<leftarrow> z_object v;
     m \<leftarrow> percent_rule_schema (field ''marginFloor'' p);
     d \<leftarrow> percent_rule_schema (field ''maxDiscount'' p);
     bs \<leftarrow> z_refine (z_array QuantityBreakSchema) (\<lambda>bs. 1 \<le> length bs) (field ''quantityBreaks'' p);
     Some \<lparr>marginFloor = m, maxDiscount = d, quantityBreaks = bs\<rparr> }"

definition PRICING_DEFAULT_RULES :: pricing_config where
  "PRICING_DEFAULT_RULES = \<lparr>marginFloor = \<lparr>pr_default = 15, pr_byOrg = None\<rparr>, maxDiscount = \<lparr>pr_default = 25, pr_byOrg = None\<rparr>,
     quantityBreaks =
       [\<lparr>qb_minQty = 1, qb_maxQty = None, qb_discountPercent = 0\<rparr>, \<lparr>qb_minQty = 11, qb_maxQty = Some 50, qb_discountPercent = 5\<rparr>,
        \<lparr>qb_minQty = 51, qb_maxQty = Some 100, qb_discountPercent = 10\<rparr>, \<lparr>qb_minQty = 101, qb_maxQty = None, qb_discountPercent = 15\<rparr>]\<rparr>"

definition pricing_getRules :: "rules_env \<Rightarrow> pricing_config rules_service \<Rightarrow> pricing_config \<times> pricing_config rules_service" where
  "pricing_getRules = get_rules PricingRulesSchema PRICING_DEFAULT_RULES"

definition pricing_reload :: "rules_env \<Rightarrow> string option \<Rightarrow> pricing_config rules_service \<Rightarrow> (rules_error + pricing_config) \<times> pricing_config rules_service" where
  "pricing_reload = reload_rules PricingRulesSchema ''pricing-rules.json''"

section \<open>Evaluation\<close>

record price_params =
  ev_orgId :: uuid
  ev_quantity :: rat
  ev_marginPercent :: rat
  ev_discountPercent :: rat

datatype price_breach = Margin_Floor_Breach rat rat | Max_Discount_Breach rat rat

record price_evaluation =
  pe_approved :: bool
  pe_effectiveDiscount :: rat
  pe_effectiveMargin :: rat
  pe_marginFloor :: rat
  pe_maxDiscount :: rat
  pe_quantityBreakApplied :: rat
  pe_breaches :: "price_breach list"

definition percent_for :: "percent_rule \<Rightarrow> uuid \<Rightarrow> rat" where
  "percent_for r orgId =
     (case pr_byOrg r of None \<Rightarrow> pr_default r | Some xs \<Rightarrow> (case map_of xs orgId of Some x \<Rightarrow> x | None \<Rightarrow> pr_default r))"

definition break_applies :: "rat \<Rightarrow> quantity_break \<Rightarrow> bool" where
  "break_applies quantity b \<longleftrightarrow> of_int (qb_minQty b) \<le> quantity \<and>
     (case qb_maxQty b of None \<Rightarrow> True | Some n \<Rightarrow> n = 0 \<or> quantity \<le> of_int n)"

definition best_break :: "rat \<Rightarrow> quantity_break list \<Rightarrow> rat" where
  "best_break quantity bs =
     fold (\<lambda>b best. if break_applies quantity b \<and> qb_discountPercent b > best then qb_discountPercent b else best) bs 0"

definition evaluate_price :: "pricing_config \<Rightarrow> price_params \<Rightarrow> price_evaluation" where
  "evaluate_price rules ps =
     (let mf = percent_for (marginFloor rules) (ev_orgId ps);
          md = percent_for (maxDiscount rules) (ev_orgId ps);
          breaches = (if ev_marginPercent ps < mf then [Margin_Floor_Breach (ev_marginPercent ps) mf] else []) @
            (if ev_discountPercent ps > md then [Max_Discount_Breach (ev_discountPercent ps) md] else []);
          applied = best_break (ev_quantity ps) (quantityBreaks rules);
          effectiveDiscount = (if applied > ev_discountPercent ps then applied else ev_discountPercent ps)
      in \<lparr>pe_approved = (breaches = []), pe_effectiveDiscount = effectiveDiscount,
          pe_effectiveMargin = ev_marginPercent ps - (effectiveDiscount - ev_discountPercent ps),
          pe_marginFloor = mf, pe_maxDiscount = md, pe_quantityBreakApplied = applied, pe_breaches = breaches\<rparr>)"

definition evaluate_pricing :: "rules_env \<Rightarrow> price_params \<Rightarrow> pricing_config rules_service \<Rightarrow> price_evaluation \<times> pricing_config rules_service" where
  "evaluate_pricing e ps s = (case pricing_getRules e s of (rules, s) \<Rightarrow> (evaluate_price rules ps, s))"

section \<open>The rules in force\<close>

definition percent_ok :: "rat \<Rightarrow> bool" where
  "percent_ok x \<longleftrightarrow> 0 \<le> x \<and> x \<le> 100"

definition percent_rule_ok :: "percent_rule \<Rightarrow> bool" where
  "percent_rule_ok r \<longleftrightarrow> percent_ok (pr_default r) \<and> (case pr_byOrg r of None \<Rightarrow> True | Some xs \<Rightarrow> list_all (\<lambda>f. percent_ok (snd f)) xs)"

definition pricing_config_ok :: "pricing_config \<Rightarrow> bool" where
  "pricing_config_ok c \<longleftrightarrow> percent_rule_ok (marginFloor c) \<and> percent_rule_ok (maxDiscount c) \<and> quantityBreaks c \<noteq> [] \<and>
     list_all (\<lambda>b. 1 \<le> qb_minQty b \<and> (case qb_maxQty b of None \<Rightarrow> True | Some n \<Rightarrow> qb_minQty b \<le> n) \<and> percent_ok (qb_discountPercent b)) (quantityBreaks c)"

lemma those_member: "those xs = Some ys \<Longrightarrow> y \<in> set ys \<Longrightarrow> Some y \<in> set xs"
  by (induction xs arbitrary: ys) (auto split: option.splits)

lemma percent_rule_schema_ok:
  assumes "percent_rule_schema v = Some r"
  shows "percent_rule_ok r"
proof -
  obtain p x xs where x: "z_percentage x = Some (pr_default r)" and xs: "z_maybe (z_record z_string z_percentage) xs = Some (pr_byOrg r)"
    using assms by (auto simp: percent_rule_schema_def split: bind_splits)
  have "percent_ok (snd f)" if fs: "pr_byOrg r = Some fs" and f: "f \<in> set fs" for fs f
  proof -
    obtain v where "z_record z_string z_percentage (Some v) = Some fs" using xs fs by (auto simp: z_maybe_def split: if_splits)
    then obtain gs where "those (map (\<lambda>(name, v). do { key \<leftarrow> z_string (Some (JStr name)); x \<leftarrow> z_percentage (Some v); Some (key, x) }) gs) = Some fs"
      by (cases v) auto
    from those_member [OF this f] show ?thesis by (auto simp: z_percentage_def z_refine_Some percent_ok_def split: bind_splits)
  qed
  then show ?thesis using x
    by (auto simp: percent_rule_ok_def z_percentage_def z_refine_Some percent_ok_def list_all_iff split: option.splits)
qed

lemma QuantityBreakSchema_ok:
  "QuantityBreakSchema v = Some b \<Longrightarrow> 1 \<le> qb_minQty b \<and> (case qb_maxQty b of None \<Rightarrow> True | Some n \<Rightarrow> qb_minQty b \<le> n) \<and> percent_ok (qb_discountPercent b)"
  by (auto simp: QuantityBreakSchema_def z_from_one_def z_percentage_def z_refine_Some percent_ok_def split: bind_splits if_splits option.splits)

interpretation pricing_rules: rules_file PricingRulesSchema PRICING_DEFAULT_RULES pricing_config_ok
proof
  fix v c
  assume "PricingRulesSchema v = Some c"
  then obtain m d bs where m: "percent_rule_schema m = Some (marginFloor c)" and d: "percent_rule_schema d = Some (maxDiscount c)"
    and bs: "z_array QuantityBreakSchema bs = Some (quantityBreaks c)" and ne: "quantityBreaks c \<noteq> []"
    by (auto simp: PricingRulesSchema_def z_refine_Some Suc_le_eq split: bind_splits)
  obtain vs where "those (map (\<lambda>v. QuantityBreakSchema (Some v)) vs) = Some (quantityBreaks c)"
    using bs by (cases "(QuantityBreakSchema, bs)" rule: z_array.cases) auto
  from those_member [OF this] have "\<exists>v. QuantityBreakSchema v = Some b" if "b \<in> set (quantityBreaks c)" for b
    using that by fastforce
  then show "pricing_config_ok c"
    using percent_rule_schema_ok [OF m] percent_rule_schema_ok [OF d] ne QuantityBreakSchema_ok
    by (auto simp: pricing_config_ok_def list_all_iff)
qed (simp add: pricing_config_ok_def PRICING_DEFAULT_RULES_def percent_rule_ok_def percent_ok_def)

section \<open>What an approval says\<close>

lemma best_break_ge: "best \<le> fold (\<lambda>b best. if break_applies q b \<and> qb_discountPercent b > best then qb_discountPercent b else best) bs best"
proof (induction bs arbitrary: best)
  case (Cons b bs)
  show ?case
  proof (cases "break_applies q b \<and> qb_discountPercent b > best")
    case True
    then show ?thesis using Cons.IH [of "qb_discountPercent b"] by simp
  next
    case False
    then show ?thesis using Cons.IH [of best] by auto
  qed
qed simp

lemma best_break_upper:
  "b \<in> set bs \<Longrightarrow> break_applies q b \<Longrightarrow>
   qb_discountPercent b \<le> fold (\<lambda>b best. if break_applies q b \<and> qb_discountPercent b > best then qb_discountPercent b else best) bs best"
proof (induction bs arbitrary: best)
  case (Cons c bs)
  show ?case
  proof (cases "b = c")
    case True
    then show ?thesis using Cons.prems best_break_ge [of "max best (qb_discountPercent b)" q bs] by (auto simp: max_def split: if_splits)
  next
    case False
    with Cons show ?thesis by simp
  qed
qed simp

text \<open>
  An approval looks at the margin that was asked for, not at the one that remains: when a quantity break gives more than the
  discount asked for, a deal at or just above the floor is approved with an effective margin below it.
\<close>

theorem approved_below_floor:
  assumes "b \<in> set (quantityBreaks rules)" and "break_applies (ev_quantity ps) b"
    and "percent_for (marginFloor rules) (ev_orgId ps) \<le> ev_marginPercent ps"
    and "ev_discountPercent ps \<le> percent_for (maxDiscount rules) (ev_orgId ps)"
    and "ev_marginPercent ps - percent_for (marginFloor rules) (ev_orgId ps) < qb_discountPercent b - ev_discountPercent ps"
  shows "pe_approved (evaluate_price rules ps) \<and> pe_breaches (evaluate_price rules ps) = [] \<and>
    pe_effectiveMargin (evaluate_price rules ps) < pe_marginFloor (evaluate_price rules ps)"
proof -
  have "qb_discountPercent b \<le> best_break (ev_quantity ps) (quantityBreaks rules)"
    unfolding best_break_def by (rule best_break_upper [OF assms(1,2)])
  then show ?thesis using assms(3-5) by (auto simp: evaluate_price_def Let_def)
qed

definition large_order :: price_params where
  "large_order = \<lparr>ev_orgId = ''o1'', ev_quantity = 101, ev_marginPercent = 16, ev_discountPercent = 0\<rparr>"

theorem approved_below_floor_witness:
  "pe_approved (evaluate_price PRICING_DEFAULT_RULES large_order) \<and>
   pe_effectiveMargin (evaluate_price PRICING_DEFAULT_RULES large_order) < pe_marginFloor (evaluate_price PRICING_DEFAULT_RULES large_order) \<and>
   pe_marginFloor (evaluate_price PRICING_DEFAULT_RULES large_order) = 15"
proof -
  let ?b = "\<lparr>qb_minQty = 101, qb_maxQty = None, qb_discountPercent = 15\<rparr>"
  have "?b \<in> set (quantityBreaks PRICING_DEFAULT_RULES)" by (simp add: PRICING_DEFAULT_RULES_def)
  moreover have "break_applies (ev_quantity large_order) ?b" by (simp add: break_applies_def large_order_def)
  ultimately show ?thesis using approved_below_floor [of ?b PRICING_DEFAULT_RULES large_order]
    by (simp add: PRICING_DEFAULT_RULES_def large_order_def percent_for_def evaluate_price_def Let_def)
qed

end
