(* ===== verification/Copilot.thy ===== *)
theory Copilot
  imports Events Redis Catalog_Search Js_Text Request_Store
begin

text \<open>
  The copilot: the tool that explains why a request was routed to a person (\<open>scoring/tools/explain-routing.tool.ts\<close>), the
  service that caches its answers (\<open>copilot/copilot.service.ts\<close>), and the agent that answers questions with two tools
  (\<open>copilot/agentic\<close>). The language model is a parameter: what it answers to a prompt, and which tools the agent calls
  with which arguments.
\<close>

section \<open>The tool\<close>

text \<open>A reason comes with its message, which the score node worded.\<close>

record explain_input =
  xi_routing :: "request_routing option"
  xi_overallConfidence :: rat
  xi_routingReasons :: "(routing_reason \<times> string) list"
  xi_policyFlags :: "string list"

record explain_output =
  xo_explanation :: string
  xo_degraded :: bool

definition ExplainRoutingInputSchema :: "explain_input \<Rightarrow> explain_input option" where
  "ExplainRoutingInputSchema i =
     (if xi_routing i \<noteq> None \<and> 0 \<le> xi_overallConfidence i \<and> xi_overallConfidence i \<le> 1 then Some i else None)"

definition ExplainRoutingOutputSchema :: "explain_output \<Rightarrow> explain_output option" where
  "ExplainRoutingOutputSchema x = (if xo_explanation x \<noteq> [] then Some x else None)"

definition EXPLAIN_ROUTING_ALL_CLEAR :: string where
  "EXPLAIN_ROUTING_ALL_CLEAR = ''All checks passed - quote is auto-eligible for pricing.''"

definition EXPLAIN_ROUTING_REVIEW_REQUIRED :: string where
  "EXPLAIN_ROUTING_REVIEW_REQUIRED = ''This quote requires manual review.''"

definition EXPLAIN_ROUTING_POLICY_FLAGS :: "nat \<Rightarrow> string" where
  "EXPLAIN_ROUTING_POLICY_FLAGS n = nat_digits n @ '' policy flag(s) on line items.''"

fun ROUTING_REASON_MAP :: "reason_code \<Rightarrow> string option" where
  "ROUTING_REASON_MAP Incomplete_Deal_Value = Some ''Some line items have incomplete pricing.''"
| "ROUTING_REASON_MAP No_Line_Items = Some ''No line items were found on this quote.''"
| "ROUTING_REASON_MAP Extraction_Failed = Some ''The source document could not be fully extracted.''"
| "ROUTING_REASON_MAP Extraction_Empty_Source = Some ''The source document could not be fully extracted.''"
| "ROUTING_REASON_MAP Rc_Auto_Eligible = Some EXPLAIN_ROUTING_ALL_CLEAR"
| "ROUTING_REASON_MAP _ = None"

fun joined_by :: "string \<Rightarrow> string list \<Rightarrow> string" where
  "joined_by sep [] = []"
| "joined_by sep [s] = s"
| "joined_by sep (s # ss) = s @ sep @ joined_by sep ss"

definition buildFallbackExplanation :: "explain_input \<Rightarrow> string" where
  "buildFallbackExplanation i =
     (if xi_routing i = Some Auto_Eligible \<and> xi_routingReasons i = [] then EXPLAIN_ROUTING_ALL_CLEAR
      else joined_by '' ''
        ((if xi_routing i = Some Needs_Review then [EXPLAIN_ROUTING_REVIEW_REQUIRED] else []) @
         map (\<lambda>(r, message). case ROUTING_REASON_MAP (fst r) of Some s \<Rightarrow> s | None \<Rightarrow> message) (xi_routingReasons i) @
         (if xi_policyFlags i \<noteq> [] then [EXPLAIN_ROUTING_POLICY_FLAGS (length (xi_policyFlags i))] else [])))"

text \<open>\<open>toFixed(0)\<close> of a number that is not negative: halves go up.\<close>

definition toFixed0 :: "rat \<Rightarrow> string" where
  "toFixed0 x = int_text \<lfloor>x + 1 / 2\<rfloor>"

definition buildExplainPrompt :: "explain_input \<Rightarrow> string" where
  "buildExplainPrompt i =
     joined_by [CHR 0x0A]
       ([''You are a helpful B2B quote analyst. Explain in plain English why this quote was routed the way it was.'', [],
         ''Routing decision: '' @ (case xi_routing i of Some r \<Rightarrow> routing_name r | None \<Rightarrow> ''null''),
         ''Overall confidence: '' @ toFixed0 (xi_overallConfidence i * 100) @ ''%'', [], ''Routing reasons:''] @
        map (\<lambda>(r, message). ''- ['' @ source_name (snd r) @ ''] '' @ code_name (fst r) @ '': '' @ message) (xi_routingReasons i) @
        (if xi_policyFlags i \<noteq> [] then [[], ''Policy flags on line items:''] @ map (\<lambda>f. ''- '' @ f) (xi_policyFlags i) else []) @
        [[], ''Write 2-3 concise sentences in plain English suitable for an estimator who is not familiar with internal routing codes. Do not use markdown or bullet points. Just a single paragraph.''])"

text \<open>\<open>llm\<close>: the answer to a prompt, or \<open>None\<close> when the call throws.\<close>

definition explain_routing :: "(string \<Rightarrow> string option) \<Rightarrow> explain_input \<Rightarrow> explain_output" where
  "explain_routing llm i =
     (let answer = (case llm (buildExplainPrompt i) of Some s \<Rightarrow> trim s | None \<Rightarrow> []) in
      if answer \<noteq> [] then \<lparr>xo_explanation = answer, xo_degraded = False\<rparr>
      else \<lparr>xo_explanation = buildFallbackExplanation i, xo_degraded = True\<rparr>)"

definition explain_contract :: "(string \<Rightarrow> string option) \<Rightarrow> (explain_input, explain_input, explain_output, explain_output) contract" where
  "explain_contract llm = \<lparr>inputSchema = ExplainRoutingInputSchema, execute = (\<lambda>i. Some (explain_routing llm i)),
     outputSchema = ExplainRoutingOutputSchema\<rparr>"

definition EXPLAIN_TOOL :: string where
  "EXPLAIN_TOOL = ''explain_routing''"

definition explain_tools :: "(string \<Rightarrow> string option) \<Rightarrow> (explain_input, explain_input, explain_output, explain_output) tool_registry" where
  "explain_tools llm = [EXPLAIN_TOOL \<mapsto> explain_contract llm]"

section \<open>The service\<close>

definition aggregatePolicyFlags :: "uuid \<Rightarrow> db \<Rightarrow> string list" where
  "aggregatePolicyFlags requestId d =
     uniq (filter (\<lambda>f. f \<noteq> CLOSE_TIE_FLAG \<and> f \<noteq> MANUAL_OVERRIDE_FLAG)
       (concat (map (\<lambda>l. case li_flags l of Some fs \<Rightarrow> fs | None \<Rightarrow> []) (filter (\<lambda>l. li_request_id l = requestId) (line_items d)))))"

definition buildExplainRoutingInput :: "(routing_reason \<Rightarrow> string) \<Rightarrow> request \<Rightarrow> string list \<Rightarrow> explain_input" where
  "buildExplainRoutingInput worded q policyFlags =
     \<lparr>xi_routing = routing q, xi_overallConfidence = (case overall_confidence q of Some x \<Rightarrow> x | None \<Rightarrow> 0),
       xi_routingReasons = map (\<lambda>r. (r, worded r)) (routing_reasons q), xi_policyFlags = policyFlags\<rparr>"

definition COPILOT_EXPLANATION_CACHE_TTL_S :: int where
  "COPILOT_EXPLANATION_CACHE_TTL_S = 900"

definition COPILOT_EXPLANATION_DEGRADED_CACHE_TTL_S :: int where
  "COPILOT_EXPLANATION_DEGRADED_CACHE_TTL_S = 60"

definition copilotExplanationCacheKey :: "uuid \<Rightarrow> string" where
  "copilotExplanationCacheKey requestId = ''copilot_explanation:'' @ requestId"

definition readCache :: "string \<Rightarrow> explain_output redis \<Rightarrow> explain_output option" where
  "readCache k s = (case redis_get k s of Some (Json x) \<Rightarrow> Some x | _ \<Rightarrow> None)"

text \<open>The request as its handler loaded it, the store and the database; \<open>None\<close> answers that no explanation could be made.\<close>

record copilot_sys =
  co_redis :: "explain_output redis"
  co_db :: db

text \<open>
  \<open>others\<close>: what other processes do between the reading of the flags and the storing of the answer, while the
  language model is asked.
\<close>

definition computeExplanation ::
  "(db \<Rightarrow> bool) \<Rightarrow> bool \<Rightarrow> (routing_reason \<Rightarrow> string) \<Rightarrow> (string \<Rightarrow> string option) \<Rightarrow> (copilot_sys \<Rightarrow> copilot_sys) \<Rightarrow> request \<Rightarrow> copilot_sys \<Rightarrow> explain_output option \<times> copilot_sys" where
  "computeExplanation ok log_ok worded llm others q s =
     (let policyFlags = aggregatePolicyFlags (r_id q) (co_db s) in
      case invoke ok log_ok (explain_tools llm) EXPLAIN_TOOL (buildExplainRoutingInput worded q policyFlags) (Some (r_id q)) 1 None (co_db s) of
        (Tool_Ok x, d) \<Rightarrow>
          (let s = others (s\<lparr>co_db := d\<rparr>);
               ttl = (if xo_degraded x then COPILOT_EXPLANATION_DEGRADED_CACHE_TTL_S else COPILOT_EXPLANATION_CACHE_TTL_S)
           in (Some x, s\<lparr>co_redis := redis_set (copilotExplanationCacheKey (r_id q)) (Json x) (Some ttl) (co_redis s)\<rparr>))
      | (_, d) \<Rightarrow> (None, others (s\<lparr>co_db := d\<rparr>)))"

definition getExplanation ::
  "(db \<Rightarrow> bool) \<Rightarrow> bool \<Rightarrow> (routing_reason \<Rightarrow> string) \<Rightarrow> (string \<Rightarrow> string option) \<Rightarrow> (copilot_sys \<Rightarrow> copilot_sys) \<Rightarrow> request \<Rightarrow> copilot_sys \<Rightarrow> explain_output option \<times> copilot_sys" where
  "getExplanation ok log_ok worded llm others q s =
     (if routing q \<noteq> Some Needs_Review then (Some \<lparr>xo_explanation = [], xo_degraded = False\<rparr>, s)
      else (case readCache (copilotExplanationCacheKey (r_id q)) (co_redis s) of
              Some x \<Rightarrow> (Some x, s)
            | None \<Rightarrow> computeExplanation ok log_ok worded llm others q s))"

text \<open>The invalidation after a re-map; its failure is only logged.\<close>

definition invalidate :: "uuid \<Rightarrow> copilot_sys \<Rightarrow> copilot_sys" where
  "invalidate r s = s\<lparr>co_redis := redis_del (copilotExplanationCacheKey r) (co_redis s)\<rparr>"

section \<open>The agent\<close>

text \<open>
  A call of the model: the name it gives and the arguments, a query and an optional limit. What a tool answers the agent:
  the result, or an exception with which the loop goes on.
\<close>

record agent_call =
  ac_tool :: string
  ac_query :: "string option"
  ac_limit :: "rat option"

datatype agent_answer = Found search_result | Explained explain_output | Tool_Threw | Unknown_Tool

record agent_context =
  ag_requestId :: uuid
  ag_orgId :: uuid
  ag_explain :: explain_input

definition SearchCatalogAgentInputSchema :: "agent_call \<Rightarrow> (string \<times> nat) option" where
  "SearchCatalogAgentInputSchema c =
     (case ac_query c of
        None \<Rightarrow> None
      | Some q \<Rightarrow>
          (let n = (case ac_limit c of None \<Rightarrow> 5 | Some n \<Rightarrow> n) in
           if q \<noteq> [] \<and> is_integer n \<and> 1 \<le> n \<and> n \<le> 20 then Some (q, nat \<lfloor>n\<rfloor>) else None))"

definition agent_tool ::
  "(db \<Rightarrow> bool) \<Rightarrow> bool \<Rightarrow> retrieval \<Rightarrow> rat \<Rightarrow> (string \<Rightarrow> string option) \<Rightarrow> agent_context \<Rightarrow> agent_call \<Rightarrow> db \<Rightarrow> agent_answer \<times> db" where
  "agent_tool ok log_ok rt threshold llm ctx c d =
     (if ac_tool c = ''search_catalog'' then
        (case SearchCatalogAgentInputSchema c of
           None \<Rightarrow> (Tool_Threw, d)
         | Some (query, limit) \<Rightarrow>
             (case invoke ok log_ok [''search_catalog'' \<mapsto> search_contract rt threshold (skus d)] ''search_catalog''
                     \<lparr>si_query = query, si_orgId = ag_orgId ctx, si_limit = limit\<rparr> (Some (ag_requestId ctx)) 1 (Some (ag_orgId ctx)) d of
                (Tool_Ok x, d) \<Rightarrow> (Found x, d)
              | (_, d) \<Rightarrow> (Tool_Threw, d)))
      else if ac_tool c = EXPLAIN_TOOL then
        (case invoke ok log_ok (explain_tools llm) EXPLAIN_TOOL (ag_explain ctx) (Some (ag_requestId ctx)) 1 (Some (ag_orgId ctx)) d of
           (Tool_Ok x, d) \<Rightarrow> (Explained x, d)
         | (_, d) \<Rightarrow> (Tool_Threw, d))
      else (Unknown_Tool, d))"

text \<open>The loop: the model chooses its next call from the answers so far, or stops; \<open>steps\<close> is the limit of the graph.\<close>

fun agent_loop ::
  "(agent_answer list \<Rightarrow> agent_call option) \<Rightarrow> (agent_call \<Rightarrow> db \<Rightarrow> agent_answer \<times> db) \<Rightarrow> nat \<Rightarrow> agent_answer list \<Rightarrow> db \<Rightarrow> agent_answer list \<times> db" where
  "agent_loop model run 0 answers d = (answers, d)"
| "agent_loop model run (Suc n) answers d =
     (case model answers of
        None \<Rightarrow> (answers, d)
      | Some c \<Rightarrow> (case run c d of (a, d) \<Rightarrow> agent_loop model run n (answers @ [a]) d))"

definition ask_agent ::
  "(db \<Rightarrow> bool) \<Rightarrow> bool \<Rightarrow> (routing_reason \<Rightarrow> string) \<Rightarrow> retrieval \<Rightarrow> rat \<Rightarrow> (string \<Rightarrow> string option) \<Rightarrow> (agent_answer list \<Rightarrow> agent_call option) \<Rightarrow> nat \<Rightarrow> request \<Rightarrow> db \<Rightarrow>
   agent_answer list \<times> db" where
  "ask_agent ok log_ok worded rt threshold llm model steps q d =
     (let ctx = \<lparr>ag_requestId = r_id q, ag_orgId = r_org_id q, ag_explain = buildExplainRoutingInput worded q (aggregatePolicyFlags (r_id q) d)\<rparr>
      in agent_loop model (agent_tool ok log_ok rt threshold llm ctx) steps [] d)"

section \<open>What the agent is shown\<close>

lemma answer_db: "snd (case p of (Tool_Ok x, d) \<Rightarrow> (f x, d) | (_, d) \<Rightarrow> (e, d)) = snd p"
  by (cases p; cases "fst p") auto

lemma agent_tool_frame: "tool_frame d (snd (agent_tool ok log_ok rt threshold llm ctx c d))"
  by (simp add: agent_tool_def answer_db invoke_frame split: option.splits prod.splits)

lemma agent_tool_found:
  assumes "agent_tool ok log_ok rt threshold llm ctx c d = (Found x, d')" and "k \<in> set (sr_candidates x)"
  shows "in_catalog (skus d) (ag_orgId ctx) (fc_sku_id (sc_hit k))"
proof -
  let ?tools = "[''search_catalog'' \<mapsto> search_contract rt threshold (skus d)]"
  obtain query limit d'' where inv: "invoke ok log_ok ?tools ''search_catalog''
       \<lparr>si_query = query, si_orgId = ag_orgId ctx, si_limit = limit\<rparr> (Some (ag_requestId ctx)) 1 (Some (ag_orgId ctx)) d = (Tool_Ok x, d'')"
    using assms(1) by (auto simp: agent_tool_def split: if_splits option.splits prod.splits tool_answer.splits)
  obtain contract input raw where c: "?tools (lower ''search_catalog'') = Some contract"
    and i: "inputSchema contract \<lparr>si_query = query, si_orgId = ag_orgId ctx, si_limit = limit\<rparr> = Some input"
    and raw: "execute contract input = Some raw" and x: "outputSchema contract raw = Some x"
    by (rule invoke_Ok [OF inv])
  have contract: "contract = search_contract rt threshold (skus d)" using c by (simp add: lower_def lower_char_def split: if_splits)
  have org: "si_orgId input = ag_orgId ctx" using i by (auto simp: contract search_contract_def SearchCatalogInputSchema_def split: if_splits)
  have raw_x: "raw = x" using x by (auto simp: contract search_contract_def SearchCatalogOutputSchema_def split: if_splits)
  have search: "search_catalog rt threshold (skus d) input = Some raw" using raw by (simp add: contract search_contract_def)
  obtain cs where cs: "map sc_hit (sr_candidates raw) = cs" and cat: "\<And>c. c \<in> set cs \<Longrightarrow> in_catalog (skus d) (si_orgId input) (fc_sku_id c)"
    by (rule search_catalog_Some [OF search]) blast
  have "sc_hit k \<in> set cs" using assms(2) unfolding cs [symmetric] raw_x by simp
  from cat [OF this] show ?thesis unfolding org .
qed

lemma in_catalog_frame: "tool_frame d d' \<Longrightarrow> in_catalog (skus d') orgId i = in_catalog (skus d) orgId i"
  by (simp add: tool_frame_fields)

lemma agent_loop_found:
  assumes "agent_loop model (agent_tool ok log_ok rt threshold llm ctx) n answers d = (out, d')"
    and "\<forall>a \<in> set answers. \<forall>x. a = Found x \<longrightarrow> (\<forall>k \<in> set (sr_candidates x). in_catalog (skus d) (ag_orgId ctx) (fc_sku_id (sc_hit k)))"
  shows "(\<forall>a \<in> set out. \<forall>x. a = Found x \<longrightarrow> (\<forall>k \<in> set (sr_candidates x). in_catalog (skus d) (ag_orgId ctx) (fc_sku_id (sc_hit k)))) \<and>
    tool_frame d d' \<and> length out \<le> length answers + n"
  using assms
proof (induction n arbitrary: answers d)
  case (Suc n)
  show ?case
  proof (cases "model answers")
    case None
    with Suc.prems show ?thesis by auto
  next
    case (Some c)
    obtain a e where run: "agent_tool ok log_ok rt threshold llm ctx c d = (a, e)" by (cases "agent_tool ok log_ok rt threshold llm ctx c d")
    have frame: "tool_frame d e" using agent_tool_frame [of d ok log_ok rt threshold llm ctx c] run by simp
    note same = in_catalog_frame [OF frame]
    have rest: "agent_loop model (agent_tool ok log_ok rt threshold llm ctx) n (answers @ [a]) e = (out, d')"
      using Suc.prems(1) Some run by simp
    have "\<forall>b \<in> set (answers @ [a]). \<forall>x. b = Found x \<longrightarrow> (\<forall>k \<in> set (sr_candidates x). in_catalog (skus e) (ag_orgId ctx) (fc_sku_id (sc_hit k)))"
      using Suc.prems(2) agent_tool_found [of ok log_ok rt threshold llm ctx c d] run by (auto simp: same)
    from Suc.IH [OF rest this] show ?thesis using tool_frame_trans [OF frame] by (auto simp: same)
  qed
qed auto

text \<open>
  C37. Whatever the model calls its tools with, every product the agent is shown is an active one of the organisation of
  the request; it takes at most its number of steps, and leaves only tool events and call logs behind.
\<close>

theorem agent_stays_in_tenant:
  assumes "ask_agent ok log_ok worded rt threshold llm model steps q d = (answers, d')"
  shows "list_all (\<lambda>a. case a of Found x \<Rightarrow> list_all (\<lambda>k. in_catalog (skus d) (r_org_id q) (fc_sku_id (sc_hit k))) (sr_candidates x) | _ \<Rightarrow> True) answers \<and>
    length answers \<le> steps \<and> tool_frame d d'"
proof -
  let ?ctx = "\<lparr>ag_requestId = r_id q, ag_orgId = r_org_id q, ag_explain = buildExplainRoutingInput worded q (aggregatePolicyFlags (r_id q) d)\<rparr>"
  have "agent_loop model (agent_tool ok log_ok rt threshold llm ?ctx) steps [] d = (answers, d')"
    using assms by (simp add: ask_agent_def Let_def)
  from agent_loop_found [OF this] show ?thesis by (auto simp: list_all_iff split: agent_answer.splits)
qed

definition a_sku :: "uuid \<Rightarrow> uuid \<Rightarrow> sku" where
  "a_sku i orgId = \<lparr>sku_id = i, sku_org_id = orgId, sku_code = ''P1'', sku_name = ''Porta'', base_price_minor = 100, cost_minor = None,
     sku_currency = STRATOS_CURRENCY, sku_lead_time_days = None, sku_active = True, sku_description = None, sku_embedding = None,
     embedding_status = Emb_Pending, sku_attributes = JObj [], embedding_error = None, sku_updated_at = 0\<rparr>"

definition two_tenants :: db where
  "two_tenants = empty_db\<lparr>skus := [a_sku ''k1'' ''o1'', a_sku ''k2'' ''o2'']\<rparr>"

definition equal_texts :: retrieval where
  "equal_texts = \<lparr>word_similarity = (\<lambda>_ _. 1), word_matches = (\<lambda>_ _. True), cosine_distance = (\<lambda>_ _. 0), embed = (\<lambda>_. None),
     queries_ok = True, uuid_ok = (\<lambda>_. True)\<rparr>"

fun asks_once :: "agent_answer list \<Rightarrow> agent_call option" where
  "asks_once [] = Some \<lparr>ac_tool = ''search_catalog'', ac_query = Some ''porta'', ac_limit = None\<rparr>"
| "asks_once _ = None"

definition held_request :: request where
  "held_request = (demo_request ''o1'' Done St_Needs_Review)\<lparr>routing := Some Needs_Review\<rparr>"

theorem agent_stays_in_tenant_witness:
  "\<exists>answers d'. ask_agent (\<lambda>_. True) True (\<lambda>_. []) equal_texts (1 / 2) (\<lambda>_. None) asks_once 10 held_request two_tenants = (answers, d') \<and>
     map (\<lambda>a. case a of Found x \<Rightarrow> map (fc_sku_id \<circ> sc_hit) (sr_candidates x) | _ \<Rightarrow> []) answers = [[''k1'']] \<and> skus d' = skus two_tenants \<and> length answers \<le> 10"
proof -
  let ?run = "ask_agent (\<lambda>_. True) True (\<lambda>_. []) equal_texts (1 / 2) (\<lambda>_. None) asks_once 10 held_request two_tenants"
  obtain answers d' where run: "?run = (answers, d')" by (cases ?run)
  have "map (\<lambda>a. case a of Found x \<Rightarrow> map (fc_sku_id \<circ> sc_hit) (sr_candidates x) | _ \<Rightarrow> []) (fst ?run) = [[''k1'']]" by code_simp
  moreover from agent_stays_in_tenant [OF run] have "length answers \<le> 10" "tool_frame two_tenants d'" by blast+
  ultimately show ?thesis using run tool_frame_fields(3) [of two_tenants d'] by simp
qed

section \<open>Explanations\<close>

lemma joined_ne: "s \<noteq> [] \<Longrightarrow> joined_by sep (s # ss) \<noteq> []"
  by (cases ss) simp_all

lemma fallback_ne: "xi_routing i = Some Needs_Review \<Longrightarrow> buildFallbackExplanation i \<noteq> []"
  by (simp add: buildFallbackExplanation_def joined_ne EXPLAIN_ROUTING_REVIEW_REQUIRED_def)

lemma explain_routing_ne: "xi_routing i = Some Needs_Review \<Longrightarrow> xo_explanation (explain_routing llm i) \<noteq> []"
  by (simp add: explain_routing_def fallback_ne Let_def)

lemma explain_answer:
  assumes "\<And>d. ok d" and "xi_routing i = Some Needs_Review" and "0 \<le> xi_overallConfidence i" and "xi_overallConfidence i \<le> 1"
  shows "fst (invoke ok log_ok (explain_tools llm) EXPLAIN_TOOL i r n org d) = Tool_Ok (explain_routing llm i)"
proof -
  have "explain_tools llm (lower EXPLAIN_TOOL) = Some (explain_contract llm)"
    by (simp add: explain_tools_def EXPLAIN_TOOL_def lower_def lower_char_def)
  from invoke_answer [of ok "explain_tools llm" EXPLAIN_TOOL, OF assms(1) this] show ?thesis
    using assms(2-4) explain_routing_ne [OF assms(2)]
    by (simp add: explain_contract_def ExplainRoutingInputSchema_def ExplainRoutingOutputSchema_def)
qed

text \<open>
  A request held for review always has an explanation, with the model or without it: it is not empty, it is marked degraded
  exactly when the model gave no text, and it is the answer to every question of the next fifteen minutes, or of the
  next minute when degraded, whatever happens to the request in the meantime.
\<close>

theorem explanation_is_answered:
  assumes "\<And>d. ok d" and "routing q = Some Needs_Review" and "case overall_confidence q of Some x \<Rightarrow> 0 \<le> x \<and> x \<le> 1 | None \<Rightarrow> True"
    and "up (co_redis s)" and "lookup (copilotExplanationCacheKey (r_id q)) (co_redis s) = None"
  shows "\<exists>x s'. getExplanation ok log_ok worded llm (\<lambda>s. s) q s = (Some x, s') \<and> xo_explanation x \<noteq> [] \<and>
    (xo_degraded x \<longleftrightarrow> (case llm (buildExplainPrompt (buildExplainRoutingInput worded q (aggregatePolicyFlags (r_id q) (co_db s)))) of
       Some answer \<Rightarrow> trim answer = [] | None \<Rightarrow> True)) \<and>
    (\<forall>t q' d'. 0 \<le> t \<and> t < (if xo_degraded x then 60000 else 900000) \<and> r_id q' = r_id q \<and> routing q' = Some Needs_Review \<longrightarrow>
       fst (getExplanation ok' log_ok' worded' llm' others q' \<lparr>co_redis = (co_redis s')\<lparr>r_now := r_now (co_redis s') + t\<rparr>, co_db = d'\<rparr>) = Some x)"
proof -
  let ?k = "copilotExplanationCacheKey (r_id q)" and ?i = "buildExplainRoutingInput worded q (aggregatePolicyFlags (r_id q) (co_db s))"
  obtain x where x: "x = explain_routing llm ?i" by blast
  obtain ttl where ttl: "ttl = (if xo_degraded x then COPILOT_EXPLANATION_DEGRADED_CACHE_TTL_S else COPILOT_EXPLANATION_CACHE_TTL_S)" by blast
  have i: "xi_routing ?i = Some Needs_Review" "0 \<le> xi_overallConfidence ?i" "xi_overallConfidence ?i \<le> 1"
    using assms(2,3) by (auto simp: buildExplainRoutingInput_def split: option.splits)
  obtain d' where inv: "invoke ok log_ok (explain_tools llm) EXPLAIN_TOOL ?i (Some (r_id q)) 1 None (co_db s) = (Tool_Ok x, d')"
    using explain_answer [of ok ?i log_ok llm "Some (r_id q)" 1 None "co_db s", OF assms(1) i]
    by (cases "invoke ok log_ok (explain_tools llm) EXPLAIN_TOOL ?i (Some (r_id q)) 1 None (co_db s)") (simp add: x)
  have miss: "readCache ?k (co_redis s) = None" using assms(5) by (simp add: readCache_def redis_get_def)
  obtain s' where s': "s' = s\<lparr>co_db := d', co_redis := redis_set ?k (Json x) (Some ttl) (co_redis s)\<rparr>" by blast
  have get: "getExplanation ok log_ok worded llm (\<lambda>s. s) q s = (Some x, s')"
    using assms(2) miss inv by (simp add: getExplanation_def computeExplanation_def Let_def s' ttl)
  have ttl_ms: "ttl * 1000 = (if xo_degraded x then 60000 else 900000)"
    by (simp add: ttl COPILOT_EXPLANATION_DEGRADED_CACHE_TTL_S_def COPILOT_EXPLANATION_CACHE_TTL_S_def)
  have "ttl \<noteq> 0" using ttl_ms by (auto split: if_splits)
  have hit: "readCache ?k ((co_redis s')\<lparr>r_now := r_now (co_redis s') + t\<rparr>) = Some x" if "0 \<le> t" "t < ttl * 1000" for t
    using that assms(4) \<open>ttl \<noteq> 0\<close> by (simp add: readCache_def redis_get_def lookup_def s' redis_set_def put_def expires_def)
  have later: "fst (getExplanation ok' log_ok' worded' llm' others q' \<lparr>co_redis = (co_redis s')\<lparr>r_now := r_now (co_redis s') + t\<rparr>, co_db = e\<rparr>) = Some x"
    if "0 \<le> t" "t < (if xo_degraded x then 60000 else 900000)" "r_id q' = r_id q" "routing q' = Some Needs_Review" for t q' e
    using that hit [of t] ttl_ms by (simp add: getExplanation_def)
  have "xo_explanation x \<noteq> []" unfolding x by (rule explain_routing_ne [OF i(1)])
  moreover have "xo_degraded x \<longleftrightarrow> (case llm (buildExplainPrompt ?i) of Some answer \<Rightarrow> trim answer = [] | None \<Rightarrow> True)"
    unfolding x by (auto simp: explain_routing_def Let_def split: option.splits)
  ultimately show ?thesis using get later by blast
qed

definition no_explanation :: copilot_sys where
  "no_explanation = \<lparr>co_redis = \<lparr>cells = Map.empty, r_now = 0, up = True\<rparr>, co_db = two_tenants\<rparr>"

theorem explanation_is_answered_witness:
  "\<exists>x s'. getExplanation (\<lambda>_. True) True (\<lambda>_. []) (\<lambda>_. None) (\<lambda>s. s) held_request no_explanation = (Some x, s') \<and>
     (xo_explanation x, xo_degraded x) = (''This quote requires manual review.'', True) \<and>
     fst (getExplanation (\<lambda>_. True) True (\<lambda>_. []) (\<lambda>_. Some ''Fine'') (\<lambda>s. s) held_request
       \<lparr>co_redis = (co_redis s')\<lparr>r_now := r_now (co_redis s') + 59999\<rparr>, co_db = empty_db\<rparr>) = Some x"
proof -
  have pre: "routing held_request = Some Needs_Review" "case overall_confidence held_request of Some x \<Rightarrow> 0 \<le> x \<and> x \<le> 1 | None \<Rightarrow> True"
    "up (co_redis no_explanation)" "lookup (copilotExplanationCacheKey (r_id held_request)) (co_redis no_explanation) = None"
    by (simp_all add: held_request_def demo_request_def no_explanation_def lookup_def)
  have v: "map_option (\<lambda>x. (xo_explanation x, xo_degraded x)) (fst (getExplanation (\<lambda>_. True) True (\<lambda>_. []) (\<lambda>_. None) (\<lambda>s. s) held_request no_explanation)) =
      Some (''This quote requires manual review.'', True)"
    by code_simp
  obtain x s' where x: "getExplanation (\<lambda>_. True) True (\<lambda>_. []) (\<lambda>_. None) (\<lambda>s. s) held_request no_explanation = (Some x, s')"
    and later: "\<forall>t q' d'. 0 \<le> t \<and> t < (if xo_degraded x then 60000 else 900000) \<and> r_id q' = r_id held_request \<and> routing q' = Some Needs_Review \<longrightarrow>
       fst (getExplanation (\<lambda>_. True) True (\<lambda>_. []) (\<lambda>_. Some ''Fine'') (\<lambda>s. s) q' \<lparr>co_redis = (co_redis s')\<lparr>r_now := r_now (co_redis s') + t\<rparr>, co_db = d'\<rparr>) = Some x"
    using explanation_is_answered [where ok = "\<lambda>_. True" and ok' = "\<lambda>_. True" and log_ok = True and log_ok' = True and worded = "\<lambda>_. []" and worded' = "\<lambda>_. []"
      and llm = "\<lambda>_. None" and llm' = "\<lambda>_. Some ''Fine''" and others = "\<lambda>s. s", OF TrueI pre] by blast
  have "(xo_explanation x, xo_degraded x) = (''This quote requires manual review.'', True)" using v x by simp
  with x later [rule_format, of 59999 held_request] pre(1) show ?thesis by auto
qed

text \<open>An invalidation while the model is asked is undone: the explanation of the former flags is stored after it.\<close>

lemma invalidation_is_lost:
  assumes "routing q = Some Needs_Review" and "readCache (copilotExplanationCacheKey (r_id q)) (co_redis s) = None" and "up (co_redis s)"
    and "getExplanation ok log_ok worded llm (invalidate (r_id q)) q s = (Some x, s')"
  shows "readCache (copilotExplanationCacheKey (r_id q)) (co_redis s') = Some x"
  using assms
  by (auto simp: getExplanation_def computeExplanation_def Let_def readCache_def redis_get_def invalidate_def lookup_redis_set
      COPILOT_EXPLANATION_CACHE_TTL_S_def COPILOT_EXPLANATION_DEGRADED_CACHE_TTL_S_def split: prod.splits tool_answer.splits)

end
