(* ===== verification/Access.thy ===== *)
theory Access
  imports Js_Text Entities
begin

text \<open>
  Who a request runs as (\<open>modules/auth\<close>): the token of the header and its claims (\<open>auth.service.ts\<close>), the
  demonstration tenants (\<open>demo-org.ts\<close>), the middleware that opens the transaction, sets the tenant of the row level
  security and closes the transaction with the response (\<open>rls-context.middleware.ts\<close>), and the guard of the roles
  (\<open>auth.guard.ts\<close>). The verification of a token is the package \<open>jsonwebtoken\<close>, a parameter; it may answer
  differently at the two moments a request asks it, for a token expires.
\<close>

section \<open>Tokens\<close>

datatype access_error = Unauthorized | Forbidden | Fault

record auth_user =
  userId :: string
  orgId :: string
  roles :: "string list"
  email :: string

text \<open>The claims of a verified token as they come: any of them may be missing.\<close>

record claims =
  c_userId :: "string option"
  c_orgId :: "string option"
  c_roles :: "string list option"
  c_email :: "string option"

datatype header = One string | Many "string list"

type_synonym headers = "(string \<times> header) list"

record auth_env =
  enabled :: bool
  verify_token :: "nat \<Rightarrow> string \<Rightarrow> claims option"
  demo_enabled :: "string \<Rightarrow> bool"

definition bearer_pattern :: rx where
  "bearer_pattern = cats [Start_Of_Text, lit_i ''Bearer'', spaces,
     Cap (plus (Cls (\<lambda>c. of_char c \<notin> {10 :: nat, 13}))), End_Of_Text]"

definition extractToken :: "headers \<Rightarrow> string option" where
  "extractToken hs =
     (case map_of hs ''authorization'' of
        Some (One h) \<Rightarrow>
          (case rx_group bearer_pattern h of
             Some g \<Rightarrow> (let t = trim g in if t = [] then None else Some t)
           | None \<Rightarrow> None)
      | _ \<Rightarrow> None)"

definition dummyToken :: auth_user where
  "dummyToken = \<lparr>userId = ''demo-user'', orgId = ''00000000-0000-0000-0000-000000000000'',
     roles = [''admin'', ''estimator''], email = ''demo@example.com''\<rparr>"

definition claim_present :: "string option \<Rightarrow> bool" where
  "claim_present v \<longleftrightarrow> (case v of Some s \<Rightarrow> s \<noteq> [] | None \<Rightarrow> False)"

definition buildAuthUser :: "claims \<Rightarrow> auth_user" where
  "buildAuthUser c = \<lparr>userId = the (c_userId c), orgId = the (c_orgId c), roles = the (c_roles c), email = the (c_email c)\<rparr>"

definition claimed :: "claims \<Rightarrow> bool" where
  "claimed c \<longleftrightarrow> claim_present (c_userId c) \<and> claim_present (c_orgId c) \<and> c_roles c \<noteq> None \<and> claim_present (c_email c)"

text \<open>\<open>validateToken\<close> at a moment, followed by \<open>buildAuthUser\<close>, as both callers do.\<close>

definition validateToken :: "auth_env \<Rightarrow> nat \<Rightarrow> string \<Rightarrow> access_error + auth_user" where
  "validateToken env now token =
     (if \<not> enabled env then Inr dummyToken
      else (case verify_token env now token of
              Some c \<Rightarrow> if claimed c then Inr (buildAuthUser c) else Inl Unauthorized
            | None \<Rightarrow> Inl Unauthorized))"

definition getUser :: "auth_env \<Rightarrow> auth_user option \<Rightarrow> access_error + auth_user" where
  "getUser env user =
     (if \<not> enabled env then Inr dummyToken else (case user of Some u \<Rightarrow> Inr u | None \<Rightarrow> Inl Unauthorized))"

text \<open>The access token, the seconds it is said to last and its kind; with authentication on there is no login here.\<close>

definition login :: "auth_env \<Rightarrow> int \<Rightarrow> (string \<times> int \<times> string) option" where
  "login env tokenExpiryMs = (if enabled env then None else Some (''demo-token'', tokenExpiryMs div 1000, ''Bearer''))"

section \<open>The demonstration tenants\<close>

definition DEFAULT_DEMO_ORG_ID :: string where
  "DEFAULT_DEMO_ORG_ID = ''00000000-0000-0000-0000-000000000000''"

definition CAIXILHARIA_DEMO_ORG_ID :: string where
  "CAIXILHARIA_DEMO_ORG_ID = ''00000000-0000-0000-0000-000000000002''"

definition DEMO_ORG_HEADER :: string where
  "DEMO_ORG_HEADER = ''x-demo-org-id''"

definition ALLOWED_DEMO_ORGS :: "string list" where
  "ALLOWED_DEMO_ORGS = [DEFAULT_DEMO_ORG_ID, CAIXILHARIA_DEMO_ORG_ID]"

definition resolveDemoOrgCandidate :: "string option \<Rightarrow> string" where
  "resolveDemoOrgCandidate candidate =
     (case candidate of
        Some c \<Rightarrow> if c \<noteq> [] \<and> c \<in> set ALLOWED_DEMO_ORGS then c else DEFAULT_DEMO_ORG_ID
      | None \<Rightarrow> DEFAULT_DEMO_ORG_ID)"

definition requestedDemoOrgId :: "headers \<Rightarrow> string option" where
  "requestedDemoOrgId hs =
     (case map_of hs DEMO_ORG_HEADER of
        Some (One h) \<Rightarrow> Some h
      | Some (Many (h # _)) \<Rightarrow> Some h
      | _ \<Rightarrow> None)"

definition resolveDemoOrgId :: "headers \<Rightarrow> string" where
  "resolveDemoOrgId hs = resolveDemoOrgCandidate (requestedDemoOrgId hs)"

definition demoAuthUser :: "string \<Rightarrow> auth_user" where
  "demoAuthUser org = \<lparr>userId = ''demo-user'', orgId = org, roles = [''admin'', ''estimator''], email = ''demo@example.com''\<rparr>"

definition hex_char :: "char \<Rightarrow> bool" where
  "hex_char c \<longleftrightarrow> (let n = of_char c :: nat in 48 \<le> n \<and> n \<le> 57 \<or> 97 \<le> n \<and> n \<le> 102 \<or> 65 \<le> n \<and> n \<le> 70)"

definition hexes :: "nat \<Rightarrow> rx list" where
  "hexes n = replicate n (Cls hex_char)"

definition uuid_pattern :: rx where
  "uuid_pattern = cats ([Start_Of_Text] @ hexes 8 @ [lit ''-''] @ hexes 4 @ [lit ''-''] @ hexes 4 @ [lit ''-''] @ hexes 4 @
     [lit ''-''] @ hexes 12 @ [End_Of_Text])"

section \<open>The tenant of a request\<close>

text \<open>
  What the middleware settles before the handler: \<open>app.org_id\<close> of the transaction, and \<open>request.user\<close>. A token that
  does not verify ends the request; with none the tenant is a demonstration tenant and there is no user.
\<close>

definition rls_context :: "auth_env \<Rightarrow> nat \<Rightarrow> headers \<Rightarrow> access_error + string \<times> auth_user option" where
  "rls_context env now hs =
     (let org = resolveDemoOrgId hs in
      if enabled env then
        (case extractToken hs of
           Some token \<Rightarrow> (case validateToken env now token of Inl e \<Rightarrow> Inl e | Inr u \<Rightarrow> Inr (orgId u, Some u))
         | None \<Rightarrow> Inr (org, None))
      else
        (let org = (case requestedDemoOrgId hs of
                      Some r \<Rightarrow> if r \<noteq> [] \<and> r \<noteq> org \<and> rx_test uuid_pattern r \<and> demo_enabled env r then r else org
                    | None \<Rightarrow> org)
         in Inr (org, Some (demoAuthUser org))))"

text \<open>\<open>AuthGuard.canActivate\<close>: the roles of the route are \<open>None\<close> where it has no \<open>@Roles\<close>.\<close>

definition canActivate ::
  "auth_env \<Rightarrow> nat \<Rightarrow> string list option \<Rightarrow> headers \<Rightarrow> auth_user option \<Rightarrow> access_error + auth_user option" where
  "canActivate env now required hs user =
     (if \<not> enabled env then Inr user
      else (case required of
              None \<Rightarrow> Inr user
            | Some required \<Rightarrow>
                (case extractToken hs of
                   None \<Rightarrow> Inl Unauthorized
                 | Some token \<Rightarrow>
                     (case validateToken env now token of
                        Inl e \<Rightarrow> Inl e
                      | Inr u \<Rightarrow> if list_ex (\<lambda>r. r \<in> set (roles u)) required then Inr (Some u) else Inl Forbidden))))"

section \<open>A request\<close>

text \<open>
  The handler gets the tenant of the transaction and the user, and returns the rows as it leaves them, the status of
  its answer and the tasks it has put off until the commit. A response ends: the commit succeeds, or fails, or the
  client has gone away before.
\<close>

datatype ending = Sent bool | Connection_Closed

definition error_status :: "access_error \<Rightarrow> nat" where
  "error_status e = (case e of Unauthorized \<Rightarrow> 401 | Forbidden \<Rightarrow> 403 | Fault \<Rightarrow> 500)"

text \<open>A task: whether it has ended well, and the world after it.\<close>

type_synonym 'w task = "'w \<Rightarrow> bool \<times> 'w"

type_synonym ('d, 'w) handler = "string \<Rightarrow> auth_user option \<Rightarrow> 'd \<Rightarrow> 'd \<times> nat \<times> 'w task list"

definition run_tasks :: "'w task list \<Rightarrow> 'w \<Rightarrow> 'w" where
  "run_tasks ts w = fold (\<lambda>t w. snd (t w)) ts w"

record ('d, 'w) answered =
  an_status :: nat
  an_rows :: 'd
  an_world :: 'w
  an_ran :: "(string \<times> auth_user option) option"

definition on_finish :: "ending \<Rightarrow> nat \<Rightarrow> 'd \<Rightarrow> 'd \<Rightarrow> 'w task list \<Rightarrow> 'w \<Rightarrow> 'd \<times> 'w" where
  "on_finish e code before after tasks w =
     (case e of
        Sent commit \<Rightarrow>
          if 400 \<le> code then (before, w)
          else if commit then (after, run_tasks tasks w)
          else (before, w)
      | Connection_Closed \<Rightarrow> (before, w))"

definition serve ::
  "auth_env \<Rightarrow> nat \<Rightarrow> nat \<Rightarrow> string list option \<Rightarrow> ('d, 'w) handler \<Rightarrow> headers \<Rightarrow> ending \<Rightarrow> 'd \<Rightarrow> 'w \<Rightarrow> ('d, 'w) answered" where
  "serve env t1 t2 required handler hs e rows w =
     (case rls_context env t1 hs of
        Inl err \<Rightarrow> \<lparr>an_status = error_status err, an_rows = rows, an_world = w, an_ran = None\<rparr>
      | Inr (org, user) \<Rightarrow>
          (case canActivate env t2 required hs user of
             Inl err \<Rightarrow> \<lparr>an_status = error_status err, an_rows = rows, an_world = w, an_ran = None\<rparr>
           | Inr user \<Rightarrow>
               (let (rows', code, tasks) = handler org user rows;
                    (rows'', w') = on_finish e code rows rows' tasks w
                in \<lparr>an_status = code, an_rows = rows'', an_world = w', an_ran = Some (org, user)\<rparr>)))"

section \<open>What it guarantees\<close>

lemma validated_user:
  assumes "enabled env" and "validateToken env now t = Inr u"
  obtains c where "verify_token env now t = Some c" "claimed c" "u = buildAuthUser c"
  using assms by (auto simp: validateToken_def split: option.splits if_splits)

lemma guarded_user:
  assumes "enabled env" and "canActivate env now (Some required) hs user = Inr user'"
  obtains t u where "extractToken hs = Some t" "validateToken env now t = Inr u" "user' = Some u"
    "list_ex (\<lambda>r. r \<in> set (roles u)) required"
  using assms by (auto simp: canActivate_def split: option.splits sum.splits if_splits)

lemma context_user:
  assumes "enabled env" and "rls_context env now hs = Inr (org, user)" and "extractToken hs = Some t"
  obtains u where "validateToken env now t = Inr u" "org = orgId u" "user = Some u"
  using assms by (auto simp: rls_context_def Let_def split: sum.splits)

lemma untouched:
  assumes "an_ran (serve env t1 t2 required handler hs e rows w) = None"
  shows "an_rows (serve env t1 t2 required handler hs e rows w) = rows \<and> an_world (serve env t1 t2 required handler hs e rows w) = w \<and>
    400 \<le> an_status (serve env t1 t2 required handler hs e rows w)"
  using assms
  by (auto simp: serve_def error_status_def Let_def split: sum.splits prod.splits access_error.splits)

lemma ran_in:
  assumes "an_ran (serve env t1 t2 required handler hs e rows w) = Some (org, user)"
  obtains user0 where "rls_context env t1 hs = Inr (org, user0)" "canActivate env t2 required hs user0 = Inr user"
  using assms by (auto simp: serve_def Let_def split: sum.splits prod.splits)

lemma served:
  assumes "an_ran (serve env t1 t2 required handler hs e rows w) = Some (org, user)"
  shows "(an_rows (serve env t1 t2 required handler hs e rows w), an_world (serve env t1 t2 required handler hs e rows w)) =
      on_finish e (an_status (serve env t1 t2 required handler hs e rows w)) rows (fst (handler org user rows)) (snd (snd (handler org user rows))) w \<and>
    an_status (serve env t1 t2 required handler hs e rows w) = fst (snd (handler org user rows))"
  using assms by (auto simp: serve_def Let_def split: sum.splits prod.splits)


definition token_claims :: claims where
  "token_claims = \<lparr>c_userId = Some ''u7'', c_orgId = Some ''o7'', c_roles = Some [''estimator''], c_email = Some ''u7@o7.pt''\<rparr>"

definition auth_on :: auth_env where
  "auth_on = \<lparr>enabled = True, verify_token = \<lambda>_ t. if t = ''abc'' then Some token_claims else None, demo_enabled = \<lambda>_. False\<rparr>"

definition counter :: "(nat, nat) handler" where
  "counter org user n = (Suc n, 200, [\<lambda>w. (False, w + 1), \<lambda>w. (True, w + 10)])"


text \<open>A route that names no role is open to anyone, also with authentication on, in a demonstration tenant of the caller's choice.\<close>

lemma route_without_roles_is_open:
  assumes "extractToken hs = None"
  shows "an_ran (serve env t1 t2 None handler hs e rows w) \<noteq> None"
  using assms by (auto simp: serve_def rls_context_def canActivate_def Let_def split: prod.splits option.splits)

text \<open>The answer leaves before the commit: a commit that fails has already been answered as a success.\<close>

lemma answered_before_commit:
  assumes "canActivate env t2 required hs user = Inr user'" and "rls_context env t1 hs = Inr (org, user)"
    and "handler org user' rows = (rows', code, tasks)" and "code < 400"
  shows "an_status (serve env t1 t2 required handler hs (Sent False) rows w) = code \<and>
    an_rows (serve env t1 t2 required handler hs (Sent False) rows w) = rows"
  using assms by (simp add: serve_def on_finish_def)

end
