(* ===== verification/Organizations.thy ===== *)
theory Organizations
  imports Access Object_Store
begin

text \<open>
  The tenants and their branding (\<open>organizations.controller.ts\<close> and its DTOs): the list, the onboarding of a
  demonstration tenant, the branding row that is made on first use, its patch, and the logo that is kept in the object
  store. The rows are those the transaction of the request sees. Whether a text is an e-mail address is the package
  \<open>class-validator\<close>, and the order of the names is that of the database: both are arguments.
\<close>

section \<open>Rows and requests\<close>

record organization =
  og_id :: string
  og_name :: string
  og_vertical :: vertical
  og_demo_enabled :: bool

record branding =
  br_org :: string
  company_name :: string
  logo_url :: "string option"
  primary_color :: string
  vat_number :: "string option"
  address :: "string option"
  footer_text :: "string option"
  iva_rate :: rat
  br_email :: "string option"
  phone :: "string option"
  quote_validity_days :: int

record org_db =
  organizations :: "organization list"
  brandings :: "branding list"
  files :: file_store

record org_host =
  og_env :: auth_env
  collation :: "string \<Rightarrow> nat"
  is_email :: "string \<Rightarrow> bool"
  store_root :: path
  can_write :: "path \<Rightarrow> bool"

text \<open>A field of a patch: absent, null, or a value.\<close>

type_synonym 'a field_patch = "'a option option"

record branding_patch =
  p_company_name :: "string field_patch"
  p_primary_color :: "string field_patch"
  p_vat_number :: "string field_patch"
  p_address :: "string field_patch"
  p_footer_text :: "string field_patch"
  p_iva_rate :: "rat field_patch"
  p_email :: "string field_patch"
  p_phone :: "string field_patch"
  p_quote_validity_days :: "int field_patch"

record logo_upload =
  mimetype :: string
  buffer :: string

datatype org_error = Og_Access access_error | Og_Bad_Request | Og_Not_Found | Og_Too_Large | Og_Null_Column | Og_Store object_error

section \<open>Validation\<close>

text \<open>The DTOs: \<open>@IsOptional\<close> skips the other checks of a field when it is absent or null.\<close>

definition optional_field :: "('a \<Rightarrow> bool) \<Rightarrow> 'a field_patch \<Rightarrow> bool" where
  "optional_field P v = (case v of Some (Some x) \<Rightarrow> P x | _ \<Rightarrow> True)"

definition color_pattern :: rx where
  "color_pattern = cats ([Start_Of_Text, lit ''#''] @ hexes 6 @ [End_Of_Text])"

definition UpdateBrandingDto :: "(string \<Rightarrow> bool) \<Rightarrow> branding_patch \<Rightarrow> bool" where
  "UpdateBrandingDto valid_mail p \<longleftrightarrow>
     optional_field (\<lambda>s. s \<noteq> [] \<and> length s \<le> 255) (p_company_name p) \<and>
     optional_field (rx_test color_pattern) (p_primary_color p) \<and>
     optional_field (\<lambda>s. length s \<le> 50) (p_vat_number p) \<and>
     optional_field (\<lambda>s. length s \<le> 1000) (p_address p) \<and>
     optional_field (\<lambda>s. length s \<le> 2000) (p_footer_text p) \<and>
     optional_field (\<lambda>x. is_integer (x * 10000) \<and> 0 \<le> x \<and> x \<le> 1) (p_iva_rate p) \<and>
     optional_field valid_mail (p_email p) \<and>
     optional_field (\<lambda>s. length s \<le> 50) (p_phone p) \<and>
     optional_field (\<lambda>n. 1 \<le> n \<and> n \<le> 365) (p_quote_validity_days p)"

definition OnboardOrganizationDto :: "string \<Rightarrow> bool" where
  "OnboardOrganizationDto name \<longleftrightarrow> name \<noteq> [] \<and> length name \<le> 255"

section \<open>Operations\<close>

definition requireOrg :: "auth_user option \<Rightarrow> org_error + string" where
  "requireOrg user =
     (case user of Some u \<Rightarrow> if orgId u \<noteq> [] then Inr (orgId u) else Inl (Og_Access Unauthorized)
                 | None \<Rightarrow> Inl (Og_Access Unauthorized))"

definition NO_ORG :: string where
  "NO_ORG = ''00000000-0000-0000-0000-000000000099''"

definition list_organizations :: "org_host \<Rightarrow> auth_user option \<Rightarrow> org_db \<Rightarrow> (string \<times> string \<times> vertical) list" where
  "list_organizations h user d =
     map (\<lambda>g. (og_id g, og_name g, og_vertical g))
       (sort_key (\<lambda>g. collation h (og_name g))
         (filter (\<lambda>g. if enabled (og_env h) then og_id g = (case user of Some u \<Rightarrow> orgId u | None \<Rightarrow> NO_ORG) else og_demo_enabled g)
           (organizations d)))"

definition onboard :: "org_host \<Rightarrow> string \<Rightarrow> string \<Rightarrow> vertical \<Rightarrow> org_db \<Rightarrow> (org_error + organization) \<times> org_db" where
  "onboard h fresh name v d =
     (if \<not> OnboardOrganizationDto name then (Inl Og_Bad_Request, d)
      else if enabled (og_env h) then (Inl (Og_Access Forbidden), d)
      else (let g = \<lparr>og_id = fresh, og_name = trim name, og_vertical = v, og_demo_enabled = True\<rparr>
            in (Inr g, d\<lparr>organizations := organizations d @ [g]\<rparr>)))"

definition branding_of :: "string \<Rightarrow> org_db \<Rightarrow> branding option" where
  "branding_of org d = find (\<lambda>b. br_org b = org) (brandings d)"

definition default_branding :: "string \<Rightarrow> string \<Rightarrow> branding" where
  "default_branding org name =
     \<lparr>br_org = org, company_name = name, logo_url = None, primary_color = ''#5eead4'', vat_number = None, address = None,
      footer_text = None, iva_rate = 23 / 100, br_email = None, phone = None, quote_validity_days = 30\<rparr>"

definition findOrCreateBranding :: "string \<Rightarrow> org_db \<Rightarrow> (org_error + branding) \<times> org_db" where
  "findOrCreateBranding org d =
     (case branding_of org d of
        Some b \<Rightarrow> (Inr b, d)
      | None \<Rightarrow>
          (case find (\<lambda>g. og_id g = org) (organizations d) of
             None \<Rightarrow> (Inl (Og_Access Unauthorized), d)
           | Some g \<Rightarrow> (let b = default_branding org (og_name g) in (Inr b, d\<lparr>brandings := brandings d @ [b]\<rparr>))))"

definition save_branding :: "branding \<Rightarrow> org_db \<Rightarrow> org_db" where
  "save_branding b d = d\<lparr>brandings := map (\<lambda>c. if br_org c = br_org b then b else c) (brandings d)\<rparr>"

definition getBranding :: "auth_user option \<Rightarrow> org_db \<Rightarrow> (org_error + branding) \<times> org_db" where
  "getBranding user d = (case requireOrg user of Inl e \<Rightarrow> (Inl e, d) | Inr org \<Rightarrow> findOrCreateBranding org d)"

text \<open>A field of a row after the patch; a column that may not be null refuses null.\<close>

definition patch_null :: "'a option \<Rightarrow> 'a field_patch \<Rightarrow> 'a option" where
  "patch_null v p = (case p of None \<Rightarrow> v | Some w \<Rightarrow> w)"

definition patch_value :: "'a \<Rightarrow> 'a field_patch \<Rightarrow> 'a option" where
  "patch_value v p = (case p of None \<Rightarrow> Some v | Some w \<Rightarrow> w)"

definition apply_patch :: "branding \<Rightarrow> branding_patch \<Rightarrow> branding option" where
  "apply_patch b p =
     (case (patch_value (company_name b) (p_company_name p), patch_value (iva_rate b) (p_iva_rate p),
            patch_value (quote_validity_days b) (p_quote_validity_days p)) of
        (Some name, Some iva, Some days) \<Rightarrow>
          Some (b\<lparr>company_name := name,
            primary_color := (case p_primary_color p of
               Some None \<Rightarrow> ''#5eead4'' | Some (Some c) \<Rightarrow> c | None \<Rightarrow> primary_color b),
            vat_number := patch_null (vat_number b) (p_vat_number p), address := patch_null (address b) (p_address p),
            footer_text := patch_null (footer_text b) (p_footer_text p), iva_rate := iva,
            br_email := patch_null (br_email b) (p_email p), phone := patch_null (phone b) (p_phone p),
            quote_validity_days := days\<rparr>)
      | _ \<Rightarrow> None)"

text \<open>A refused write rolls the transaction back, the row that was made for it included.\<close>

definition updateBranding :: "org_host \<Rightarrow> auth_user option \<Rightarrow> branding_patch \<Rightarrow> org_db \<Rightarrow> (org_error + branding) \<times> org_db" where
  "updateBranding h user p d =
     (if \<not> UpdateBrandingDto (is_email h) p then (Inl Og_Bad_Request, d)
      else
        (case requireOrg user of
           Inl e \<Rightarrow> (Inl e, d)
         | Inr org \<Rightarrow>
             (case findOrCreateBranding org d of
                (Inl e, _) \<Rightarrow> (Inl e, d)
              | (Inr b, d') \<Rightarrow>
                  (case apply_patch b p of
                     None \<Rightarrow> (Inl Og_Null_Column, d)
                   | Some b' \<Rightarrow> (Inr b', save_branding b' d')))))"

definition starts_with :: "nat list \<Rightarrow> string \<Rightarrow> bool" where
  "starts_with magic s \<longleftrightarrow> map of_char (take (length magic) s) = magic"

definition imageExtension :: "logo_upload \<Rightarrow> string option" where
  "imageExtension f =
     (if mimetype f = ''image/png'' \<and> starts_with [137, 80, 78, 71, 13, 10, 26, 10] (buffer f) then Some ''png''
      else if mimetype f = ''image/jpeg'' \<and> starts_with [255, 216, 255] (buffer f) then Some ''jpg''
      else None)"

definition logo_key :: "string \<Rightarrow> string \<Rightarrow> string" where
  "logo_key org ext = ''branding'' @ ''/'' @ org @ ''/'' @ ''logo.'' @ ext"

definition MAX_LOGO_BYTES :: int where
  "MAX_LOGO_BYTES = 2 * 1024 * 1024"

text \<open>The file is written at once; the rows are kept only when the whole handler succeeds.\<close>

definition uploadLogo :: "org_host \<Rightarrow> auth_user option \<Rightarrow> logo_upload option \<Rightarrow> org_db \<Rightarrow> (org_error + branding) \<times> org_db" where
  "uploadLogo h user upload d =
     (case upload of
        None \<Rightarrow> (Inl Og_Bad_Request, d)
      | Some f \<Rightarrow>
          if MAX_LOGO_BYTES < int (length (buffer f)) then (Inl Og_Too_Large, d)
          else
            (case imageExtension f of
               None \<Rightarrow> (Inl Og_Bad_Request, d)
             | Some ext \<Rightarrow>
                 (case requireOrg user of
                    Inl e \<Rightarrow> (Inl e, d)
                  | Inr org \<Rightarrow>
                      (case findOrCreateBranding org d of
                         (Inl e, _) \<Rightarrow> (Inl e, d)
                       | (Inr b, d') \<Rightarrow>
                           (case put_object (store_root h) (can_write h) (logo_key org ext) (buffer f) (files d) of
                              (Inl e, fs) \<Rightarrow> (Inl (Og_Store e), d\<lparr>files := fs\<rparr>)
                            | (Inr url, fs) \<Rightarrow>
                                (let b' = b\<lparr>logo_url := Some url\<rparr> in (Inr b', save_branding b' (d'\<lparr>files := fs\<rparr>))))))))"

text \<open>The logo, as its content type and its bytes.\<close>

definition getLogo :: "org_host \<Rightarrow> auth_user option \<Rightarrow> org_db \<Rightarrow> org_error + string \<times> string" where
  "getLogo h user d =
     (case requireOrg user of
        Inl e \<Rightarrow> Inl e
      | Inr org \<Rightarrow>
          (case (case branding_of org d of Some b \<Rightarrow> logo_url b | None \<Rightarrow> None) of
             None \<Rightarrow> Inl Og_Not_Found
           | Some key \<Rightarrow>
               if key \<notin> {logo_key org ''png'', logo_key org ''jpg''} then Inl Og_Not_Found
               else
                 (case get_object (store_root h) key (files d) of
                    Inl Object_Not_Found \<Rightarrow> Inl Og_Not_Found
                  | Inl e \<Rightarrow> Inl (Og_Store e)
                  | Inr bytes \<Rightarrow> Inr (if key = logo_key org ''png'' then ''image/png'' else ''image/jpeg'', bytes))))"

section \<open>Sequences of requests\<close>

datatype org_call =
    Og_List
  | Og_Onboard string string vertical
  | Og_Get
  | Og_Patch branding_patch
  | Og_Upload "logo_upload option"
  | Og_Logo

definition org_step :: "org_host \<Rightarrow> auth_user option \<times> org_call \<Rightarrow> org_db \<Rightarrow> org_db" where
  "org_step h r d =
     (case snd r of
        Og_Onboard fresh name v \<Rightarrow> snd (onboard h fresh name v d)
      | Og_Get \<Rightarrow> snd (getBranding (fst r) d)
      | Og_Patch p \<Rightarrow> snd (updateBranding h (fst r) p d)
      | Og_Upload f \<Rightarrow> snd (uploadLogo h (fst r) f d)
      | _ \<Rightarrow> d)"

definition org_run :: "org_host \<Rightarrow> (auth_user option \<times> org_call) list \<Rightarrow> org_db \<Rightarrow> org_db" where
  "org_run h rs d = fold (org_step h) rs d"

section \<open>Facts\<close>

lemma requireOrg_Inr: "requireOrg user = Inr org \<longleftrightarrow> (\<exists>u. user = Some u \<and> orgId u = org \<and> org \<noteq> [])"
  by (auto simp: requireOrg_def split: option.splits)

lemma find_in_append: "find P (xs @ ys) = (case find P xs of Some x \<Rightarrow> Some x | None \<Rightarrow> find P ys)"
  by (induction xs) auto

lemma find_saved:
  "find (\<lambda>c. br_org c = org) (map (\<lambda>c. if br_org c = br_org b then b else c) bs) =
     (if br_org b = org then map_option (\<lambda>_. b) (find (\<lambda>c. br_org c = org) bs) else find (\<lambda>c. br_org c = org) bs)"
  by (induction bs) auto

lemma branding_of_save:
  "branding_of org (save_branding b d) = (if br_org b = org then map_option (\<lambda>_. b) (branding_of org d) else branding_of org d)"
  by (simp add: branding_of_def save_branding_def find_saved)

lemma branding_of_org: "branding_of org d = Some b \<Longrightarrow> br_org b = org"
  by (auto simp: branding_of_def find_Some_iff)

lemma created:
  assumes "findOrCreateBranding org d = (Inr b, d')"
  shows "br_org b = org \<and> branding_of org d' = Some b \<and> files d' = files d \<and> organizations d' = organizations d \<and>
    (\<forall>other. other \<noteq> org \<longrightarrow> branding_of other d' = branding_of other d) \<and> (\<forall>c. branding_of org d = Some c \<longrightarrow> b = c)"
  using assms branding_of_org [of org d b]
  by (auto simp: findOrCreateBranding_def default_branding_def branding_of_def find_in_append Let_def split: option.splits)

lemma refused: "findOrCreateBranding org d = (Inl e, d') \<Longrightarrow> d' = d"
  by (auto simp: findOrCreateBranding_def Let_def split: option.splits)

lemma row_after_patch: "apply_patch b p = Some b' \<Longrightarrow> br_org b' = br_org b \<and> logo_url b' = logo_url b"
  by (auto simp: apply_patch_def split: option.splits)

lemma resolve_logo:
  assumes "plain org" and "ext \<in> {''png'', ''jpg''}"
  shows "resolveKey rootdir (logo_key org ext) = Inr (rootdir @ [''branding'', org, ''logo.'' @ ext])"
  unfolding logo_key_def
  by (rule resolveKey_three) (use assms in \<open>auto simp: plain_def js_space_def\<close>)

lemma imageExtension_cases: "imageExtension f = Some ext \<Longrightarrow> ext = ''png'' \<and> mimetype f = ''image/png'' \<or> ext = ''jpg'' \<and> mimetype f = ''image/jpeg''"
  by (auto simp: imageExtension_def split: if_splits)

text \<open>The logo of a tenant, as it stands in the rows and in the store.\<close>

definition logo_stands :: "org_host \<Rightarrow> string \<Rightarrow> string \<Rightarrow> string \<Rightarrow> org_db \<Rightarrow> bool" where
  "logo_stands h org key bytes d \<longleftrightarrow>
     (\<exists>b. branding_of org d = Some b \<and> logo_url b = Some key) \<and> get_object (store_root h) key (files d) = Inr bytes"

lemma stands_created:
  assumes "findOrCreateBranding other d = (Inr b, d')" and "logo_stands h org key bytes d"
  shows "logo_stands h org key bytes d'"
  using created [OF assms(1)] assms(2) unfolding logo_stands_def by (cases "other = org") auto

lemma stands_upload:
  assumes "logo_stands h org (logo_key org ext) bytes d" and "ext \<in> {''png'', ''jpg''}" and "plain org"
    and "\<forall>u. user = Some u \<longrightarrow> plain (orgId u) \<and> orgId u \<noteq> org"
  shows "logo_stands h org (logo_key org ext) bytes (snd (uploadLogo h user f d))"
proof (cases "fst (uploadLogo h user f d)")
  case (Inl e)
  then show ?thesis using assms(1)
    by (auto simp: uploadLogo_def put_object_def Let_def logo_stands_def split: option.splits if_splits sum.splits prod.splits dest: refused)
next
  case (Inr b')
  then obtain up e o1 b d1 fs url where up: "f = Some up" and e: "imageExtension up = Some e" and o1: "requireOrg user = Inr o1"
    and b: "findOrCreateBranding o1 d = (Inr b, d1)"
    and put: "put_object (store_root h) (can_write h) (logo_key o1 e) (buffer up) (files d) = (Inr url, fs)"
    and out: "snd (uploadLogo h user f d) = save_branding (b\<lparr>logo_url := Some url\<rparr>) (d1\<lparr>files := fs\<rparr>)"
    by (auto simp: uploadLogo_def Let_def split: option.splits if_splits sum.splits prod.splits)
  have o1': "plain o1" "o1 \<noteq> org" using o1 assms(4) by (auto simp: requireOrg_Inr)
  have e': "e \<in> {''png'', ''jpg''}" using imageExtension_cases [OF e] by auto
  have "get_object (store_root h) (logo_key org ext) fs = get_object (store_root h) (logo_key org ext) (files d)"
    using put_elsewhere [OF resolve_logo [OF assms(3,2)] resolve_logo [OF o1'(1) e'], of "store_root h" "can_write h" "buffer up" "files d"] o1'(2) put
    by simp
  then show ?thesis using stands_created [OF b assms(1)] created [OF b] o1'(2)
    by (auto simp: out logo_stands_def branding_of_save) (auto simp: branding_of_def save_branding_def)
qed

lemma stands_step:
  assumes "logo_stands h org (logo_key org ext) bytes d" and "ext \<in> {''png'', ''jpg''}" and "plain org"
    and "\<forall>u. fst r = Some u \<longrightarrow> plain (orgId u)" and "\<forall>u f. r = (Some u, Og_Upload f) \<longrightarrow> orgId u \<noteq> org"
  shows "logo_stands h org (logo_key org ext) bytes (org_step h r d)"
proof (cases "snd r")
  case (Og_Onboard fresh name v)
  then show ?thesis using assms(1) by (auto simp: org_step_def onboard_def logo_stands_def branding_of_def Let_def)
next
  case Og_Get
  then show ?thesis using assms(1)
    by (auto simp: org_step_def getBranding_def split: sum.splits) (metis prod.collapse sum.exhaust refused stands_created)
next
  case (Og_Patch p)
  show ?thesis
  proof (cases "fst (updateBranding h (fst r) p d)")
    case (Inl e)
    then show ?thesis using assms(1) Og_Patch
      by (auto simp: org_step_def updateBranding_def split: sum.splits prod.splits option.splits if_splits)
  next
    case (Inr b')
    then obtain o1 b d1 where b: "findOrCreateBranding o1 d = (Inr b, d1)" and b': "apply_patch b p = Some b'"
      and out: "snd (updateBranding h (fst r) p d) = save_branding b' d1"
      by (auto simp: updateBranding_def split: sum.splits prod.splits option.splits if_splits)
    have "logo_stands h org (logo_key org ext) bytes (save_branding b' d1)"
      using stands_created [OF b assms(1)] created [OF b] row_after_patch [OF b']
      by (auto simp: logo_stands_def branding_of_save) (auto simp: save_branding_def)
    then show ?thesis using Og_Patch out by (simp add: org_step_def)
  qed
next
  case (Og_Upload f)
  have "\<forall>u. fst r = Some u \<longrightarrow> plain (orgId u) \<and> orgId u \<noteq> org"
    using assms(4,5) Og_Upload by (cases r) auto
  from stands_upload [OF assms(1-3) this] show ?thesis using Og_Upload by (simp add: org_step_def)
qed (use assms(1) in \<open>simp_all add: org_step_def\<close>)

lemma stands_run:
  assumes "logo_stands h org (logo_key org ext) bytes d" and "ext \<in> {''png'', ''jpg''}" and "plain org"
    and "\<forall>r \<in> set rs. (\<forall>u. fst r = Some u \<longrightarrow> plain (orgId u)) \<and> (\<forall>u f. r = (Some u, Og_Upload f) \<longrightarrow> orgId u \<noteq> org)"
  shows "logo_stands h org (logo_key org ext) bytes (org_run h rs d)"
  using assms(1,4) unfolding org_run_def
proof (induction rs arbitrary: d)
  case (Cons r rs)
  have "logo_stands h org (logo_key org ext) bytes (org_step h r d)"
    by (rule stands_step [OF Cons.prems(1) assms(2,3)]) (use Cons.prems(2) in auto)
  then show ?case using Cons by simp
qed simp


definition demo_host :: org_host where
  "demo_host = \<lparr>og_env = auth_on, collation = length, is_email = (\<lambda>s. CHR ''@'' \<in> set s), store_root = [''data''], can_write = (\<lambda>_. True)\<rparr>"

definition as_admin :: "string \<Rightarrow> auth_user" where
  "as_admin org = \<lparr>userId = ''u'', orgId = org, roles = [''admin''], email = ''u@x.pt''\<rparr>"

definition jpeg :: logo_upload where
  "jpeg = \<lparr>mimetype = ''image/jpeg'', buffer = [CHR 0xFF, CHR 0xD8, CHR 0xFF, CHR ''a'']\<rparr>"

definition png :: logo_upload where
  "png = \<lparr>mimetype = ''image/png'', buffer = [CHR 0x89, CHR ''P'', CHR ''N'', CHR ''G'', CHR 0x0D, CHR 0x0A, CHR 0x1A, CHR 0x0A]\<rparr>"

definition two_orgs :: org_db where
  "two_orgs = \<lparr>organizations = [\<lparr>og_id = ''A'', og_name = ''Clima'', og_vertical = Avac, og_demo_enabled = True\<rparr>,
     \<lparr>og_id = ''B'', og_name = ''Janelas'', og_vertical = Caixilharia, og_demo_enabled = True\<rparr>], brandings = [], files = Map.empty\<rparr>"

definition nothing_patched :: branding_patch where
  "nothing_patched = \<lparr>p_company_name = None, p_primary_color = None, p_vat_number = None, p_address = None, p_footer_text = None,
     p_iva_rate = None, p_email = None, p_phone = None, p_quote_validity_days = None\<rparr>"

definition later_requests :: "(auth_user option \<times> org_call) list" where
  "later_requests = [(Some (as_admin ''B''), Og_Upload (Some png)),
     (Some (as_admin ''A''), Og_Patch (nothing_patched\<lparr>p_primary_color := Some None\<rparr>)), (Some (as_admin ''A''), Og_Logo)]"


section \<open>The rows\<close>

text \<open>What the table asks of a row, and one row to a tenant.\<close>

definition branding_checks :: "branding \<Rightarrow> bool" where
  "branding_checks b \<longleftrightarrow> rx_test color_pattern (primary_color b) \<and> 0 \<le> iva_rate b \<and> iva_rate b \<le> 1 \<and>
     1 \<le> quote_validity_days b \<and> quote_validity_days b \<le> 365"

definition branding_rows_ok :: "org_db \<Rightarrow> bool" where
  "branding_rows_ok d \<longleftrightarrow> distinct (map br_org (brandings d)) \<and> list_all branding_checks (brandings d)"

lemma default_color: "rx_test color_pattern ''#5eead4''"
  by code_simp

lemma default_checks: "branding_checks (default_branding org name)"
  using default_color by (simp add: branding_checks_def default_branding_def)

lemma saved_orgs: "map br_org (brandings (save_branding b d)) = map br_org (brandings d)"
  by (simp add: save_branding_def)

lemma rows_save:
  assumes "branding_rows_ok d" and "branding_checks b"
  shows "branding_rows_ok (save_branding b d)"
  using assms unfolding branding_rows_ok_def saved_orgs by (auto simp: list_all_iff save_branding_def)

lemma rows_create:
  assumes "branding_rows_ok d" and "findOrCreateBranding org d = (r, d')"
  shows "branding_rows_ok d' \<and> (\<forall>b. r = Inr b \<longrightarrow> branding_checks b) \<and>
    set (map br_org (brandings d)) \<subseteq> set (map br_org (brandings d'))"
proof (cases "branding_of org d")
  case (Some b)
  then have "b \<in> set (brandings d)" by (auto simp: branding_of_def find_Some_iff)
  then show ?thesis using Some assms by (auto simp: findOrCreateBranding_def branding_rows_ok_def list_all_iff)
next
  case None
  then have new: "org \<notin> set (map br_org (brandings d))" by (auto simp: branding_of_def find_None_iff)
  show ?thesis
  proof (cases "find (\<lambda>g. og_id g = org) (organizations d)")
    case no_org: None
    then have "r = Inl (Og_Access Unauthorized)" "d' = d" using None assms(2) by (auto simp: findOrCreateBranding_def)
    then show ?thesis using assms(1) by simp
  next
    case (Some g)
    have "br_org (default_branding org (og_name g)) = org" by (simp add: default_branding_def)
    then show ?thesis using None Some assms new default_checks [of org "og_name g"]
      by (auto simp: findOrCreateBranding_def branding_rows_ok_def Let_def)
  qed
qed

lemma patch_field: "optional_field P v \<Longrightarrow> P x \<Longrightarrow> patch_value x v = Some y \<Longrightarrow> P y"
  by (auto simp: optional_field_def patch_value_def split: option.splits)

lemma patch_color:
  "optional_field P v \<Longrightarrow> P x \<Longrightarrow> P c0 \<Longrightarrow> P (case v of Some None \<Rightarrow> c0 | Some (Some c) \<Rightarrow> c | None \<Rightarrow> x)"
  by (auto simp: optional_field_def split: option.splits)

lemma rows_patch:
  assumes "branding_checks b" and "UpdateBrandingDto valid_mail p" and "apply_patch b p = Some b'"
  shows "branding_checks b'"
proof -
  have old: "rx_test color_pattern (primary_color b)" "0 \<le> iva_rate b \<and> iva_rate b \<le> 1"
    "1 \<le> quote_validity_days b \<and> quote_validity_days b \<le> 365"
    using assms(1) by (simp_all only: branding_checks_def)
  have dto: "optional_field (rx_test color_pattern) (p_primary_color p)"
    "optional_field (\<lambda>x. 0 \<le> x \<and> x \<le> 1) (p_iva_rate p)" "optional_field (\<lambda>n. 1 \<le> n \<and> n \<le> 365) (p_quote_validity_days p)"
    using assms(2) by (auto simp: UpdateBrandingDto_def optional_field_def split: option.splits)
  obtain name iva days where new: "patch_value (iva_rate b) (p_iva_rate p) = Some iva"
    "patch_value (quote_validity_days b) (p_quote_validity_days p) = Some days"
    and b': "iva_rate b' = iva" "quote_validity_days b' = days"
    "primary_color b' = (case p_primary_color p of Some None \<Rightarrow> ''#5eead4'' | Some (Some c) \<Rightarrow> c | None \<Rightarrow> primary_color b)"
    using assms(3) by (auto simp: apply_patch_def split: option.splits)
  have "0 \<le> iva \<and> iva \<le> 1" using patch_field [where P = "\<lambda>x :: rat. 0 \<le> x \<and> x \<le> 1", OF dto(2) old(2) new(1)] by assumption
  moreover have "1 \<le> days \<and> days \<le> 365" using patch_field [where P = "\<lambda>n :: int. 1 \<le> n \<and> n \<le> 365", OF dto(3) old(3) new(2)] by assumption
  moreover have "rx_test color_pattern (primary_color b')" unfolding b' using patch_color [where P = "rx_test color_pattern", OF dto(1) old(1) default_color] by assumption
  ultimately show ?thesis by (simp only: branding_checks_def b')
qed

lemma rows_files: "branding_rows_ok (d\<lparr>files := fs\<rparr>) = branding_rows_ok d"
  by (simp add: branding_rows_ok_def)

text \<open>Both operations that write: refused, they leave the rows; accepted, they save a row the tenant has.\<close>

lemma rows_patch_step:
  assumes "branding_rows_ok d"
  shows "branding_rows_ok (snd (updateBranding h user p d)) \<and>
    set (map br_org (brandings d)) \<subseteq> set (map br_org (brandings (snd (updateBranding h user p d))))"
proof (cases "fst (updateBranding h user p d)")
  case (Inl e)
  then have "snd (updateBranding h user p d) = d"
    by (auto simp: updateBranding_def split: sum.splits prod.splits option.splits if_splits)
  then show ?thesis using assms by simp
next
  case (Inr b')
  then obtain o1 b d1 where dto: "UpdateBrandingDto (is_email h) p" and b: "findOrCreateBranding o1 d = (Inr b, d1)"
    and b': "apply_patch b p = Some b'" and out: "snd (updateBranding h user p d) = save_branding b' d1"
    by (auto simp: updateBranding_def split: sum.splits prod.splits option.splits if_splits)
  have c: "branding_rows_ok d1" "branding_checks b" "set (map br_org (brandings d)) \<subseteq> set (map br_org (brandings d1))"
    using rows_create [OF assms b] by blast+
  show ?thesis unfolding out saved_orgs using rows_save [OF c(1) rows_patch [OF c(2) dto b']] c(3) by blast
qed

lemma rows_upload_step:
  assumes "branding_rows_ok d"
  shows "branding_rows_ok (snd (uploadLogo h user f d)) \<and>
    set (map br_org (brandings d)) \<subseteq> set (map br_org (brandings (snd (uploadLogo h user f d))))"
proof (cases "fst (uploadLogo h user f d)")
  case (Inl e)
  then have "brandings (snd (uploadLogo h user f d)) = brandings d"
    by (auto simp: uploadLogo_def Let_def split: option.splits if_splits sum.splits prod.splits)
  then show ?thesis using assms by (simp add: branding_rows_ok_def)
next
  case (Inr b')
  then obtain o1 b d1 fs url where b: "findOrCreateBranding o1 d = (Inr b, d1)"
    and out: "snd (uploadLogo h user f d) = save_branding (b\<lparr>logo_url := Some url\<rparr>) (d1\<lparr>files := fs\<rparr>)"
    by (auto simp: uploadLogo_def Let_def split: option.splits if_splits sum.splits prod.splits)
  have c: "branding_rows_ok (d1\<lparr>files := fs\<rparr>)" "branding_checks b" "set (map br_org (brandings d)) \<subseteq> set (map br_org (brandings d1))"
    using rows_create [OF assms b] by (simp_all add: rows_files)
  have "branding_checks (b\<lparr>logo_url := Some url\<rparr>)" using c(2) by (simp add: branding_checks_def)
  from rows_save [OF c(1) this] show ?thesis unfolding out saved_orgs using c(3) by simp
qed

lemma null_name_passes:
  "UpdateBrandingDto valid_mail (nothing_patched\<lparr>p_company_name := Some None\<rparr>) \<and> apply_patch b (nothing_patched\<lparr>p_company_name := Some None\<rparr>) = None"
  by (simp add: UpdateBrandingDto_def optional_field_def nothing_patched_def apply_patch_def patch_value_def)

lemma blank_name_passes:
  "OnboardOrganizationDto ''  '' \<and> (\<forall>g. fst (onboard h fresh ''  '' v d) = Inr g \<longrightarrow> og_name g = [])"
  by (auto simp: OnboardOrganizationDto_def onboard_def trim_def js_space_def Let_def)

text \<open>
  The rows of the branding stay as the table wants them through every request, accepted or refused: one row to a
  tenant, a colour of six hexadecimal digits, a rate between 0 and 1, a validity of 1 to 365 days; no request removes
  the row of a tenant.
\<close>

theorem branding_rows_kept:
  assumes "branding_rows_ok d"
  shows "branding_rows_ok (org_step h r d) \<and> set (map br_org (brandings d)) \<subseteq> set (map br_org (brandings (org_step h r d)))"
proof (cases "snd r")
  case (Og_Onboard fresh name v)
  then show ?thesis using assms by (auto simp: org_step_def onboard_def branding_rows_ok_def Let_def)
next
  case Og_Get
  then show ?thesis using assms rows_create [OF assms]
    by (cases "requireOrg (fst r)") (simp_all add: org_step_def getBranding_def, metis prod.collapse)
next
  case (Og_Patch p)
  then show ?thesis using assms rows_patch_step [OF assms] by (simp add: org_step_def)
next
  case (Og_Upload f)
  then show ?thesis using assms rows_upload_step [OF assms] by (simp add: org_step_def)
qed (use assms in \<open>simp_all add: org_step_def\<close>)

theorem branding_rows_kept_witness:
  "branding_rows_ok (org_step demo_host (Some (as_admin ''A''), Og_Upload (Some png)) two_orgs) \<and>
   map br_org (brandings (org_step demo_host (Some (as_admin ''A''), Og_Upload (Some png)) two_orgs)) = [''A'']"
proof
  show "branding_rows_ok (org_step demo_host (Some (as_admin ''A''), Og_Upload (Some png)) two_orgs)"
    by (rule branding_rows_kept [THEN conjunct1]) (simp add: branding_rows_ok_def two_orgs_def)
  show "map br_org (brandings (org_step demo_host (Some (as_admin ''A''), Og_Upload (Some png)) two_orgs)) = [''A'']"
    by code_simp
qed

end
