(* ===== verification/Live_Trace.thy ===== *)
theory Live_Trace
  imports Access Event_Stream
begin

text \<open>
  The trace a person watches while a request is processed: the hook of the web client that opens the stream, keeps a row
  for each node and closes the stream again (\<open>src/client/src/hooks/useSSEEvents.ts\<close>), and the request with which it opens
  it. Of the browser the model has what the hook uses: a source that was closed delivers nothing more, and a timer fires
  when its time has come. Of React: an effect runs again only when one of its dependencies has changed.
\<close>

section \<open>The state of the hook\<close>

datatype row_status = Row_Pending | Row_In_Progress | Row_Success | Row_Failed

text \<open>The fields of an event are used as they come; an absent one is \<open>None\<close>.\<close>

record trace_row =
  tr_name :: string
  tr_status :: row_status
  tr_tool_name :: "json option"
  tr_attempt :: "json option"
  tr_duration_ms :: "json option"
  tr_summary :: "json option"
  tr_error :: "json option"

datatype connection_status = Connecting | Connected | Disconnected | Lost string

datatype source = Closed_Source | Opening | Open_Source

record trace =
  rows :: "trace_row list"
  connection :: connection_status
  resumed_from :: "json option option"
  finalOutput :: "(json option \<times> json option) option"
  source :: source
  inactivity :: "int option"
  clock_ms :: int
  snapshot :: "string option \<times> string option"

definition NODE_ORDER :: "string list" where
  "NODE_ORDER = [''parse'', ''extract'', ''classify'', ''match'', ''price'', ''policy'', ''score'']"

definition SETTLED_STATUSES :: "string list" where
  "SETTLED_STATUSES = [''needs_review'', ''priced'', ''ready'', ''sent'', ''declined'']"

definition INACTIVITY_MS :: int where
  "INACTIVITY_MS = 60000"

fun position :: "string \<Rightarrow> string list \<Rightarrow> nat option" where
  "position x [] = None"
| "position x (y # ys) = (if x = y then Some 0 else map_option Suc (position x ys))"

definition is_settled :: "string option \<Rightarrow> bool" where
  "is_settled st \<longleftrightarrow> (case st of Some s \<Rightarrow> s \<in> set SETTLED_STATUSES | None \<Rightarrow> False)"

definition completedNodeCount :: "string option \<Rightarrow> string option \<Rightarrow> nat" where
  "completedNodeCount currentNode st =
     (if is_settled st then length NODE_ORDER
      else (case currentNode of
              None \<Rightarrow> 0
            | Some n \<Rightarrow> (case position n NODE_ORDER of Some i \<Rightarrow> i | None \<Rightarrow> 0)))"

definition pending_row :: "string \<Rightarrow> trace_row" where
  "pending_row n = \<lparr>tr_name = n, tr_status = Row_Pending, tr_tool_name = None, tr_attempt = None, tr_duration_ms = None,
     tr_summary = None, tr_error = None\<rparr>"

section \<open>What the hook does\<close>

definition clearInactivity :: "trace \<Rightarrow> trace" where
  "clearInactivity s = s\<lparr>inactivity := None\<rparr>"

definition resetInactivity :: "trace \<Rightarrow> trace" where
  "resetInactivity s = s\<lparr>inactivity := Some (clock_ms s + INACTIVITY_MS)\<rparr>"

definition close_trace :: "trace \<Rightarrow> trace" where
  "close_trace s = (clearInactivity s)\<lparr>source := Closed_Source\<rparr>"

definition connect :: "trace \<Rightarrow> trace" where
  "connect s = (close_trace s)\<lparr>connection := Connecting, resumed_from := None, rows := map pending_row NODE_ORDER,
     finalOutput := None, source := Opening\<rparr>"

text \<open>The handler of an event for the rows; the row of another node stays as it is.\<close>

definition row_event :: "string \<Rightarrow> json \<Rightarrow> trace_row \<Rightarrow> trace_row" where
  "row_event kind v r =
     (if kind = ''node.entered'' \<and> field ''node'' v = Some (JStr (tr_name r)) then r\<lparr>tr_status := Row_In_Progress\<rparr>
      else if kind = ''node.exited'' \<and> field ''node'' v = Some (JStr (tr_name r)) then
        r\<lparr>tr_status := (if field ''status'' v = Some (JStr ''success'') then Row_Success else Row_Failed),
          tr_duration_ms := field ''duration_ms'' v, tr_summary := field ''summary'' v\<rparr>
      else if kind = ''tool.invoked'' \<and> field ''node'' v = Some (JStr (tr_name r)) then
        r\<lparr>tr_status := (if field ''status'' v = Some (JStr ''running'') then Row_In_Progress else tr_status r),
          tr_tool_name := field ''tool_name'' v, tr_attempt := field ''attempt'' v\<rparr>
      else if kind = ''stage.error'' \<and> field ''stage'' v = Some (JStr (tr_name r)) then
        r\<lparr>tr_status := Row_Failed, tr_error := field ''reason'' v\<rparr>
      else r)"

definition LISTENED :: "string list" where
  "LISTENED = [''node.entered'', ''node.exited'', ''tool.invoked'', ''stage.error'', ''request.resumed'']"

text \<open>An event of the stream; a document that does not parse is \<open>None\<close>, and an event nobody listens to does nothing.\<close>

definition on_event :: "string \<Rightarrow> json option \<Rightarrow> trace \<Rightarrow> trace" where
  "on_event kind data s =
     (if kind = ''processing.complete'' then
        (case data of
           None \<Rightarrow> s
         | Some v \<Rightarrow> (close_trace s)\<lparr>finalOutput := Some (field ''status'' v, field ''total_duration_ms'' v),
             connection := Disconnected, resumed_from := None\<rparr>)
      else if kind \<in> set LISTENED then
        (let s = resetInactivity s in
         case data of
           None \<Rightarrow> s
         | Some v \<Rightarrow>
             if kind = ''request.resumed'' then s\<lparr>resumed_from := Some (field ''resumed_from_node'' v)\<rparr>
             else s\<lparr>rows := map (row_event kind v) (rows s)\<rparr>)
      else s)"

text \<open>The effect that fills the rows the stream has missed from the stored request.\<close>

definition fill_rows :: "nat \<Rightarrow> trace_row list \<Rightarrow> trace_row list" where
  "fill_rows done rs =
     map (\<lambda>(i, r). if i < done \<and> tr_status r = Row_Pending then r\<lparr>tr_status := Row_Success\<rparr> else r) (enumerate 0 rs)"

definition snapshot_effect :: "string option \<times> string option \<Rightarrow> trace \<Rightarrow> trace" where
  "snapshot_effect snap s =
     (let done = completedNodeCount (fst snap) (snd snap); settled = is_settled (snd snap) in
      if done = 0 \<and> \<not> settled then s
      else s\<lparr>rows := fill_rows done (rows s),
             finalOutput := (if settled then (case finalOutput s of
                 Some f \<Rightarrow> Some f | None \<Rightarrow> Some (map_option JStr (snd snap), None)) else finalOutput s)\<rparr>)"

datatype trace_action =
    On_Open
  | On_Event string "json option"
  | On_Error
  | Wait int
  | Render "string option \<times> string option"
  | Reconnect

fun trace_step :: "trace_action \<Rightarrow> trace \<Rightarrow> trace" where
  "trace_step On_Open s =
     (if source s = Opening then resetInactivity (s\<lparr>source := Open_Source, connection := Connected, resumed_from := None\<rparr>) else s)"
| "trace_step (On_Event kind data) s = (if source s = Open_Source then on_event kind data s else s)"
| "trace_step On_Error s =
     (if source s = Closed_Source then s
      else clearInactivity (s\<lparr>source := Closed_Source, connection := Lost ''SSE connection lost'', resumed_from := None\<rparr>))"
| "trace_step (Wait ms) s =
     (let s = s\<lparr>clock_ms := clock_ms s + max 0 ms\<rparr> in
      case inactivity s of
        None \<Rightarrow> s
      | Some t \<Rightarrow>
          if clock_ms s < t then s
          else s\<lparr>inactivity := None, source := Closed_Source, connection := Lost ''Node timeout: no activity for 60s'',
            resumed_from := None\<rparr>)"
| "trace_step (Render snap) s = (if snap = snapshot s then s else snapshot_effect snap (s\<lparr>snapshot := snap\<rparr>))"
| "trace_step Reconnect s = connect s"

text \<open>The mount: both effects run, the stream first.\<close>

definition mount :: "string option \<times> string option \<Rightarrow> int \<Rightarrow> trace" where
  "mount snap now =
     snapshot_effect snap (connect \<lparr>rows = [], connection = Disconnected, resumed_from = None, finalOutput = None,
       source = Closed_Source, inactivity = None, clock_ms = now, snapshot = snap\<rparr>)"

definition trace_run :: "trace_action list \<Rightarrow> trace \<Rightarrow> trace" where
  "trace_run acts s = fold trace_step acts s"

section \<open>The rows\<close>

lemma row_event_name [simp]: "tr_name (row_event kind v r) = tr_name r"
  by (simp add: row_event_def)

lemma map_enumerate: "map (\<lambda>(i, x). f x) (enumerate k xs) = map f xs"
  by (induction xs arbitrary: k) simp_all

lemma fill_rows_names [simp]: "map tr_name (fill_rows k rs) = map tr_name rs"
proof -
  have "map tr_name (fill_rows k rs) = map (\<lambda>(i, r). tr_name r) (enumerate 0 rs)"
    by (auto simp: fill_rows_def)
  then show ?thesis by (simp add: map_enumerate)
qed

lemma snapshot_effect_fields [simp]:
  "map tr_name (rows (snapshot_effect snap s)) = map tr_name (rows s)" "connection (snapshot_effect snap s) = connection s"
  "source (snapshot_effect snap s) = source s" "inactivity (snapshot_effect snap s) = inactivity s"
  "clock_ms (snapshot_effect snap s) = clock_ms s"
  by (simp_all add: snapshot_effect_def Let_def)

text \<open>Without a completion the row of a node is what the events make of it, one after the other.\<close>

lemma rows_follow_events:
  assumes "source s = Open_Source" and "list_all (\<lambda>(kind, v). kind \<in> set LISTENED) es"
  shows "rows (trace_run (map (\<lambda>(kind, v). On_Event kind (Some v)) es) s) =
      map (\<lambda>r. fold (\<lambda>(kind, v). row_event kind v) es r) (rows s) \<and>
    source (trace_run (map (\<lambda>(kind, v). On_Event kind (Some v)) es) s) = Open_Source"
  using assms
proof (induction es arbitrary: s)
  case (Cons e es)
  obtain kind v where e: "e = (kind, v)" by (cases e)
  have listened: "kind \<in> set LISTENED" using Cons.prems(2) e by simp
  then have other: "kind \<noteq> ''processing.complete''" by (auto simp: LISTENED_def)
  obtain s' where s': "s' = trace_step (On_Event kind (Some v)) s" by blast
  have open_still: "source s' = Open_Source"
    using Cons.prems(1) listened other by (simp add: s' on_event_def resetInactivity_def Let_def)
  have resumed: "map (row_event ''request.resumed'' v) rs = rs" for rs by (rule map_idI) (simp add: row_event_def)
  have step_rows: "rows s' = map (row_event kind v) (rows s)"
    using Cons.prems(1) listened other by (simp add: s' on_event_def resetInactivity_def Let_def resumed)
  have "rows (trace_run (map (\<lambda>(kind, v). On_Event kind (Some v)) es) s') =
      map (\<lambda>r. fold (\<lambda>(kind, v). row_event kind v) es r) (rows s') \<and>
    source (trace_run (map (\<lambda>(kind, v). On_Event kind (Some v)) es) s') = Open_Source"
    by (rule Cons.IH [OF open_still]) (use Cons.prems(2) in simp)
  moreover have "trace_run (map (\<lambda>(kind, v). On_Event kind (Some v)) (e # es)) s =
      trace_run (map (\<lambda>(kind, v). On_Event kind (Some v)) es) s'"
    unfolding s' by (simp add: trace_run_def e del: trace_step.simps)
  ultimately show ?case unfolding step_rows by (simp add: e comp_def)
qed (simp add: trace_run_def)

section \<open>A connection that is shown is alive\<close>

text \<open>
  What holds of the hook at every moment. The deadline of the timer is a minute after the last event, so a trace that is
  shown as connected has heard from the server within the last minute.
\<close>

definition trace_ok :: "trace \<Rightarrow> bool" where
  "trace_ok s \<longleftrightarrow> map tr_name (rows s) = NODE_ORDER \<and>
     (case connection s of
        Connecting \<Rightarrow> source s = Opening \<and> inactivity s = None
      | Connected \<Rightarrow> source s = Open_Source \<and> (\<exists>t. inactivity s = Some t \<and> clock_ms s < t \<and> t \<le> clock_ms s + INACTIVITY_MS)
      | _ \<Rightarrow> source s = Closed_Source \<and> inactivity s = None)"

lemma pending_names: "map tr_name (map pending_row NODE_ORDER) = NODE_ORDER"
  by (simp add: pending_row_def comp_def)

lemma connect_ok: "trace_ok (connect s)"
  using pending_names by (simp add: trace_ok_def connect_def close_trace_def clearInactivity_def)

lemma snapshot_ok: "trace_ok (snapshot_effect snap s) = trace_ok s"
  by (cases "connection s") (simp_all add: trace_ok_def)

lemma mount_ok: "trace_ok (mount snap now)"
  by (simp add: mount_def snapshot_ok connect_ok)

lemma names_event: "map tr_name (map (row_event kind v) rs) = map tr_name rs"
  by simp

lemma event_ok:
  assumes "trace_ok s" and "source s = Open_Source"
  shows "trace_ok (on_event kind data s)"
proof -
  have c: "connection s = Connected" and n: "map tr_name (rows s) = NODE_ORDER"
    and t: "\<exists>t. inactivity s = Some t \<and> clock_ms s < t \<and> t \<le> clock_ms s + INACTIVITY_MS"
    using assms by (auto simp: trace_ok_def split: connection_status.splits)
  have pos: "0 < INACTIVITY_MS" by (simp add: INACTIVITY_MS_def)
  show ?thesis
  proof (cases "kind = ''processing.complete''")
    case True
    then show ?thesis using assms n by (cases data) (simp_all add: on_event_def trace_ok_def close_trace_def clearInactivity_def)
  next
    case False
    then show ?thesis using assms c n pos names_event [of kind _ "rows s"]
      by (cases data) (simp_all add: on_event_def trace_ok_def resetInactivity_def Let_def comp_def)
  qed
qed

lemma step_ok:
  assumes "trace_ok s"
  shows "trace_ok (trace_step a s)"
proof (cases a)
  case On_Open
  then show ?thesis using assms by (simp add: trace_ok_def resetInactivity_def INACTIVITY_MS_def)
next
  case (On_Event kind data)
  then show ?thesis using assms event_ok by simp
next
  case On_Error
  then show ?thesis using assms by (simp add: trace_ok_def clearInactivity_def)
next
  case (Wait ms)
  then show ?thesis using assms by (auto simp: trace_ok_def Let_def split: option.splits connection_status.splits)
next
  case (Render snap)
  have "trace_ok (s\<lparr>snapshot := snap\<rparr>)" using assms by (cases "connection s") (simp_all add: trace_ok_def)
  then show ?thesis using Render assms by (simp add: snapshot_ok)
next
  case Reconnect
  then show ?thesis by (simp add: connect_ok)
qed

lemma run_ok: "trace_ok s \<Longrightarrow> trace_ok (trace_run acts s)"
  unfolding trace_run_def by (induction acts arbitrary: s) (simp_all add: step_ok)

text \<open>The moment of the last sign of the server since the connection was opened.\<close>

fun heard_step :: "trace_action \<Rightarrow> trace \<times> int \<Rightarrow> trace \<times> int" where
  "heard_step a (s, t) =
     (trace_step a s,
      (case a of
         On_Open \<Rightarrow> if source s = Opening then clock_ms s else t
       | On_Event kind _ \<Rightarrow> if source s = Open_Source \<and> kind \<in> set LISTENED then clock_ms s else t
       | _ \<Rightarrow> t))"

definition heard_ok :: "trace \<times> int \<Rightarrow> bool" where
  "heard_ok st \<longleftrightarrow> trace_ok (fst st) \<and> (connection (fst st) = Connected \<longrightarrow> inactivity (fst st) = Some (snd st + INACTIVITY_MS))"

lemma step_connected:
  assumes "connection (trace_step a s) = Connected" and "trace_ok s"
  shows "a = On_Open \<and> source s = Opening \<or> connection s = Connected"
  using assms
  by (cases a) (auto simp: on_event_def close_trace_def clearInactivity_def resetInactivity_def connect_def Let_def trace_ok_def
      split: if_splits option.splits connection_status.splits)

lemma step_timer:
  assumes "connection s = Connected" and "connection (trace_step a s) = Connected" and "trace_ok s"
    and "inactivity s = Some (t + INACTIVITY_MS)"
  shows "inactivity (trace_step a s) = Some (snd (heard_step a (s, t)) + INACTIVITY_MS)"
proof -
  have src: "source s = Open_Source" using assms(1,3) by (simp add: trace_ok_def)
  show ?thesis
  proof (cases a)
    case (On_Event kind data)
    then show ?thesis using assms src
      by (cases data) (auto simp: on_event_def close_trace_def clearInactivity_def resetInactivity_def Let_def LISTENED_def split: if_splits)
  next
    case (Wait ms)
    then show ?thesis using assms src by (auto simp: Let_def split: option.splits if_splits)
  qed (use assms src in \<open>simp_all add: clearInactivity_def connect_def\<close>)
qed

lemma heard_step_ok:
  assumes "heard_ok st"
  shows "heard_ok (heard_step a st)"
proof -
  obtain s t where st: "st = (s, t)" by (cases st)
  have ok: "trace_ok s" and timer: "connection s = Connected \<longrightarrow> inactivity s = Some (t + INACTIVITY_MS)"
    using assms by (simp_all add: heard_ok_def st)
  have "inactivity (trace_step a s) = Some (snd (heard_step a (s, t)) + INACTIVITY_MS)" if c: "connection (trace_step a s) = Connected"
  proof (cases "connection s = Connected")
    case True
    then show ?thesis using step_timer [OF True c ok] timer by blast
  next
    case False
    then have "a = On_Open" "source s = Opening" using step_connected [OF c ok] by auto
    then show ?thesis by (simp add: resetInactivity_def)
  qed
  then show ?thesis using step_ok [OF ok] by (simp add: heard_ok_def st)
qed

text \<open>
  C39. Whatever happens, in whatever order: the trace has one row for each node of the pipeline, in its order; a trace that is shown
  as connected has an open stream and has heard from the server within the last minute, and one that is shown as disconnected or
  lost holds neither a stream nor a timer.
\<close>

theorem trace_is_live:
  "map tr_name (rows (fst (fold heard_step acts (mount snap now, now)))) = NODE_ORDER \<and>
   (case connection (fst (fold heard_step acts (mount snap now, now))) of
      Connected \<Rightarrow> source (fst (fold heard_step acts (mount snap now, now))) = Open_Source \<and>
        clock_ms (fst (fold heard_step acts (mount snap now, now))) < snd (fold heard_step acts (mount snap now, now)) + 60000
    | Connecting \<Rightarrow> source (fst (fold heard_step acts (mount snap now, now))) = Opening
    | _ \<Rightarrow> source (fst (fold heard_step acts (mount snap now, now))) = Closed_Source \<and>
        inactivity (fst (fold heard_step acts (mount snap now, now))) = None)"
proof -
  have "connection (mount snap now) = Connecting" by (simp add: mount_def connect_def)
  then have start: "heard_ok (mount snap now, now)" by (simp add: heard_ok_def mount_ok)
  have "heard_ok (fold heard_step acts st)" if "heard_ok st" for st
    using that by (induction acts arbitrary: st) (simp_all add: heard_step_ok)
  from this [OF start] show ?thesis
    by (auto simp: heard_ok_def trace_ok_def INACTIVITY_MS_def split: connection_status.splits)
qed

section \<open>Which requests can be watched\<close>

text \<open>
  An event source of the browser sends no header of the program, neither a token nor the tenant the person has chosen. The
  endpoint asks for a role.
\<close>

definition open_stream :: "auth_env \<Rightarrow> nat \<Rightarrow> headers \<Rightarrow> uuid \<Rightarrow> db \<Rightarrow> message list \<Rightarrow> message list option" where
  "open_stream env now hs requestId d ms =
     (case rls_context env now hs of
        Inl _ \<Rightarrow> None
      | Inr (_, user) \<Rightarrow>
          (case canActivate env now (Some [''estimator'', ''admin'']) hs user of
             Inl _ \<Rightarrow> None
           | Inr user \<Rightarrow> events_endpoint (enabled env) (map_option orgId user) requestId d ms))"

lemma only_the_default_tenant_watches:
  assumes "map_of hs ''authorization'' = None" and "map_of hs DEMO_ORG_HEADER = None"
    and "open_stream env now hs requestId d ms = Some out"
  shows "\<not> enabled env \<and> (\<exists>q \<in> set (requests d). r_id q = requestId \<and> r_org_id q = DEFAULT_DEMO_ORG_ID)"
proof -
  have no_token: "extractToken hs = None" using assms(1) by (simp add: extractToken_def)
  have no_tenant: "requestedDemoOrgId hs = None" using assms(2) by (simp add: requestedDemoOrgId_def)
  have off: "\<not> enabled env"
  proof
    assume "enabled env"
    then have "open_stream env now hs requestId d ms = None"
      by (simp add: open_stream_def rls_context_def canActivate_def no_token Let_def)
    then show False using assms(3) by simp
  qed
  then have "events_endpoint False (Some DEFAULT_DEMO_ORG_ID) requestId d ms = Some out"
    using assms(3) by (simp add: open_stream_def rls_context_def canActivate_def no_tenant resolveDemoOrgId_def
        resolveDemoOrgCandidate_def demoAuthUser_def Let_def)
  then obtain q where q: "find_request requestId d = Some q" "r_org_id q = DEFAULT_DEMO_ORG_ID"
    by (auto simp: events_endpoint_def split: option.splits if_splits)
  then show ?thesis using off find_request_Some [OF q(1)] by blast
qed

section \<open>A reconnection\<close>

text \<open>
  A reconnection empties the rows, and the stored request, unchanged, does not fill them again: of a request that is
  finished, on which nothing more comes, the trace then shows every node as pending and no result.
\<close>

lemma reconnection_forgets:
  assumes "snapshot s = snap"
  shows "rows (trace_run [Reconnect, On_Open, Render snap] s) = map pending_row NODE_ORDER \<and>
    finalOutput (trace_run [Reconnect, On_Open, Render snap] s) = None"
  using assms by (simp add: trace_run_def connect_def close_trace_def clearInactivity_def resetInactivity_def)

lemma finished_trace_forgotten:
  "map tr_status (rows (trace_run [On_Open] (mount (Some ''done'', Some ''priced'') 0))) = replicate 7 Row_Success \<and>
   map tr_status (rows (trace_run [On_Open, On_Error, Reconnect, On_Open, Render (Some ''done'', Some ''priced'')] (mount (Some ''done'', Some ''priced'') 0))) =
     replicate 7 Row_Pending"
  by code_simp

end
