(* ===== verification/Analytics.thy ===== *)
theory Analytics
  imports Entities
begin

text \<open>
  The figures of the dashboard (\<open>analytics/analytics.service.ts\<close>, with the window of \<open>analytics.controller.ts\<close>): the queries
  over the rows of an organisation and the percentages and differences made of them. The rows carry the time of their
  creation. Times are milliseconds; a count is a natural number.
\<close>

section \<open>Rows\<close>

record dated_quote = quote +
  dq_created_at :: millis

record dated_call = tool_call +
  dc_created_at :: millis

record analytics_db =
  an_requests :: "request list"
  an_quotes :: "dated_quote list"
  an_items :: "line_item list"
  an_calls :: "dated_call list"
  an_events :: "audit_event list"

type_synonym window = "millis \<times> millis"

definition in_window :: "window \<Rightarrow> millis \<Rightarrow> bool" where
  "in_window w t \<longleftrightarrow> fst w \<le> t \<and> t < snd w"

definition prior :: "window \<Rightarrow> window" where
  "prior w = (fst w - (snd w - fst w), fst w)"

definition SEVEN_DAYS_MS :: int where
  "SEVEN_DAYS_MS = 7 * 24 * 60 * 60 * 1000"

definition MONTH_MS :: int where
  "MONTH_MS = 30 * 24 * 60 * 60 * 1000"

text \<open>The window of a question; a window that is empty or turned round is refused.\<close>

definition summary_window :: "millis \<Rightarrow> millis option \<Rightarrow> millis option \<Rightarrow> window option" where
  "summary_window now from_arg to_arg =
     (let t = (case to_arg of Some t \<Rightarrow> t | None \<Rightarrow> now);
          f = (case from_arg of Some f \<Rightarrow> f | None \<Rightarrow> t - SEVEN_DAYS_MS)
      in if t \<le> f then None else Some (f, t))"

section \<open>The queries\<close>

definition APPROVED_STATUSES :: "quote_status list" where
  "APPROVED_STATUSES = [Q_Approved, Q_Ready, Q_Sent]"

text \<open>The quotes joined to a request: of the same request and organisation.\<close>

definition quotes_of :: "request \<Rightarrow> analytics_db \<Rightarrow> dated_quote list" where
  "quotes_of r d = filter (\<lambda>q. q_request_id q = r_id r \<and> q_org_id q = r_org_id r) (an_quotes d)"

definition has_override :: "request \<Rightarrow> analytics_db \<Rightarrow> bool" where
  "has_override r d \<longleftrightarrow> list_ex (\<lambda>li. li_request_id li = r_id r \<and> ''manual_override'' \<in> set (flags_of li)) (an_items d)"

definition org_requests :: "uuid \<Rightarrow> window \<Rightarrow> analytics_db \<Rightarrow> request list" where
  "org_requests org w d = filter (\<lambda>r. r_org_id r = org \<and> in_window w (r_created_at r)) (an_requests d)"

definition count_distinct :: "request list \<Rightarrow> nat" where
  "count_distinct rs = card (set (map r_id rs))"

record funnel =
  ingested :: nat
  drafted :: nat
  fn_approved :: nat
  fn_sent :: nat

definition FUNNEL_SQL :: "uuid \<Rightarrow> window \<Rightarrow> analytics_db \<Rightarrow> funnel" where
  "FUNNEL_SQL org w d =
     (let rs = org_requests org w d in
      \<lparr>ingested = count_distinct rs,
       drafted = count_distinct (filter (\<lambda>r. quotes_of r d \<noteq> []) rs),
       fn_approved = count_distinct (filter (\<lambda>r. list_ex (\<lambda>q. q_status q \<in> set APPROVED_STATUSES) (quotes_of r d)) rs),
       fn_sent = count_distinct (filter (\<lambda>r. list_ex (\<lambda>q. q_status q = Q_Sent) (quotes_of r d)) rs)\<rparr>)"

text \<open>\<open>percentile_cont(0.5)\<close>: the middle of the sorted values, or the mean of the two in the middle.\<close>

definition percentile_half :: "rat list \<Rightarrow> rat option" where
  "percentile_half xs =
     (let ys = sort xs; n = length ys in
      if n = 0 then None
      else if odd n then Some (ys ! (n div 2))
      else Some ((ys ! (n div 2 - 1) + ys ! (n div 2)) / 2))"

definition MEDIAN_SQL :: "uuid \<Rightarrow> window \<Rightarrow> analytics_db \<Rightarrow> rat option" where
  "MEDIAN_SQL org w d =
     percentile_half (concat (map (\<lambda>r. map (\<lambda>q. of_int (dq_created_at q - r_created_at r) / 1000)
         (filter (\<lambda>q. in_window w (dq_created_at q)) (quotes_of r d)))
       (filter (\<lambda>r. r_org_id r = org) (an_requests d))))"

definition QUOTES_SQL :: "uuid \<Rightarrow> window \<Rightarrow> analytics_db \<Rightarrow> nat" where
  "QUOTES_SQL org w d = length (filter (\<lambda>q. q_org_id q = org \<and> in_window w (dq_created_at q)) (an_quotes d))"

text \<open>The groups of approved quotes, by request and time, and whether a line of the request was overridden.\<close>

definition approved_groups :: "uuid \<Rightarrow> window \<Rightarrow> analytics_db \<Rightarrow> (uuid \<times> millis \<times> bool) set" where
  "approved_groups org w d =
     set (concat (map (\<lambda>r. map (\<lambda>q. (r_id r, dq_created_at q, has_override r d))
         (filter (\<lambda>q. q_status q \<in> set APPROVED_STATUSES \<and> in_window w (dq_created_at q)) (quotes_of r d)))
       (filter (\<lambda>r. r_org_id r = org) (an_requests d))))"

definition APPROVED_SQL :: "uuid \<Rightarrow> window \<Rightarrow> analytics_db \<Rightarrow> nat \<times> nat" where
  "APPROVED_SQL org w d = (card (approved_groups org w d), card (Set.filter (\<lambda>g. \<not> snd (snd g)) (approved_groups org w d)))"

definition reviewed :: "uuid \<Rightarrow> window \<Rightarrow> analytics_db \<Rightarrow> request list" where
  "reviewed org w d = filter (\<lambda>r. routing r = Some Needs_Review) (org_requests org w d)"

definition NEEDS_REVIEW_SQL :: "uuid \<Rightarrow> window \<Rightarrow> analytics_db \<Rightarrow> nat \<times> nat" where
  "NEEDS_REVIEW_SQL org w d =
     (count_distinct (reviewed org w d),
      count_distinct (filter (\<lambda>r. list_ex (\<lambda>q. q_status q \<in> set APPROVED_STATUSES) (quotes_of r d) \<and> \<not> has_override r d) (reviewed org w d)))"

definition HIGH_THRESHOLD :: rat where "HIGH_THRESHOLD = 95 / 100"
definition MEDIUM_THRESHOLD :: rat where "MEDIUM_THRESHOLD = 7 / 10"

record tiers =
  high :: nat
  medium :: nat
  low :: nat
  scored :: nat

definition CONFIDENCE_SQL :: "uuid \<Rightarrow> window \<Rightarrow> analytics_db \<Rightarrow> tiers" where
  "CONFIDENCE_SQL org w d =
     (let cs = List.map_filter overall_confidence (org_requests org w d) in
      \<lparr>high = length (filter (\<lambda>c. HIGH_THRESHOLD \<le> c) cs),
       medium = length (filter (\<lambda>c. MEDIUM_THRESHOLD \<le> c \<and> c < HIGH_THRESHOLD) cs),
       low = length (filter (\<lambda>c. c < MEDIUM_THRESHOLD) cs),
       scored = length cs\<rparr>)"

definition is_crash_recovery :: "audit_event \<Rightarrow> bool" where
  "is_crash_recovery e \<longleftrightarrow> (case payload e of Ev_Request_Resumed _ reason \<Rightarrow> reason = Crash_Recovery | _ \<Rightarrow> False)"

definition CRASH_SQL :: "uuid \<Rightarrow> window \<Rightarrow> analytics_db \<Rightarrow> nat" where
  "CRASH_SQL org w d =
     length (filter (\<lambda>e. ev_org_id e = Some org \<and> is_crash_recovery e \<and> in_window w (ev_created_at e)) (an_events d))"

definition TOOL_CALLS_SQL :: "uuid \<Rightarrow> window \<Rightarrow> analytics_db \<Rightarrow> nat" where
  "TOOL_CALLS_SQL org w d =
     length (concat (map (\<lambda>c. filter (\<lambda>r. r_id r = tc_request_id c \<and> r_org_id r = org) (an_requests d))
       (filter (\<lambda>c. in_window w (dc_created_at c)) (an_calls d))))"

section \<open>The summary\<close>

definition round1 :: "rat \<Rightarrow> rat" where
  "round1 x = of_int (js_round (x * 10)) / 10"

definition pct :: "nat \<Rightarrow> nat \<Rightarrow> rat" where
  "pct n m = (if 0 < m then round1 (of_nat n / of_nat m * 100) else 0)"

definition pctChange :: "rat option \<Rightarrow> rat option \<Rightarrow> rat" where
  "pctChange cur before =
     (case (cur, before) of (Some c, Some p) \<Rightarrow> if p \<noteq> 0 then round1 ((c - p) / p * 100) else 0 | _ \<Rightarrow> 0)"

record analytics_raw =
  raw_funnel :: funnel
  medianCurSec :: "rat option"
  medianPriorSec :: "rat option"
  quotesCur :: nat
  quotesPrior :: nat
  approvedCur :: "nat \<times> nat"
  approvedPrior :: "nat \<times> nat"
  needsReviewCur :: "nat \<times> nat"
  needsReviewPrior :: "nat \<times> nat"
  raw_confidence :: tiers
  crashRecoveries :: nat
  toolCallsTotal :: nat

record analytics_summary =
  median_time_to_draft_seconds :: int
  median_time_to_draft_delta_pct :: rat
  zero_edit_approval_pct :: rat
  zero_edit_approval_delta_pts :: rat
  auto_eligible_false_negative_pct :: rat
  auto_eligible_false_negative_delta_pts :: rat
  quotes_this_week :: nat
  quotes_this_week_delta :: int
  crash_recoveries_this_month :: nat
  tool_calls_total :: nat
  high_pct :: rat
  medium_pct :: rat
  low_pct :: rat
  quote_funnel :: funnel

definition assembleSummary :: "analytics_raw \<Rightarrow> analytics_summary" where
  "assembleSummary raw =
     (let zeroEditCur = pct (snd (approvedCur raw)) (fst (approvedCur raw));
          zeroEditPrior = pct (snd (approvedPrior raw)) (fst (approvedPrior raw));
          falseNegCur = pct (snd (needsReviewCur raw)) (fst (needsReviewCur raw));
          falseNegPrior = pct (snd (needsReviewPrior raw)) (fst (needsReviewPrior raw));
          c = raw_confidence raw
      in \<lparr>median_time_to_draft_seconds = js_round (case medianCurSec raw of Some m \<Rightarrow> m | None \<Rightarrow> 0),
          median_time_to_draft_delta_pct = pctChange (medianCurSec raw) (medianPriorSec raw),
          zero_edit_approval_pct = zeroEditCur,
          zero_edit_approval_delta_pts = (if 0 < fst (approvedPrior raw) then round1 (zeroEditCur - zeroEditPrior) else 0),
          auto_eligible_false_negative_pct = falseNegCur,
          auto_eligible_false_negative_delta_pts = (if 0 < fst (needsReviewPrior raw) then round1 (falseNegCur - falseNegPrior) else 0),
          quotes_this_week = quotesCur raw,
          quotes_this_week_delta = int (quotesCur raw) - int (quotesPrior raw),
          crash_recoveries_this_month = crashRecoveries raw,
          tool_calls_total = toolCallsTotal raw,
          high_pct = pct (high c) (scored c), medium_pct = pct (medium c) (scored c), low_pct = pct (low c) (scored c),
          quote_funnel = raw_funnel raw\<rparr>)"

definition getSummary :: "uuid \<Rightarrow> window \<Rightarrow> analytics_db \<Rightarrow> analytics_summary" where
  "getSummary org w d =
     assembleSummary
       \<lparr>raw_funnel = FUNNEL_SQL org w d,
        medianCurSec = MEDIAN_SQL org w d, medianPriorSec = MEDIAN_SQL org (prior w) d,
        quotesCur = QUOTES_SQL org w d, quotesPrior = QUOTES_SQL org (prior w) d,
        approvedCur = APPROVED_SQL org w d, approvedPrior = APPROVED_SQL org (prior w) d,
        needsReviewCur = NEEDS_REVIEW_SQL org w d, needsReviewPrior = NEEDS_REVIEW_SQL org (prior w) d,
        raw_confidence = CONFIDENCE_SQL org w d,
        crashRecoveries = CRASH_SQL org (snd w - MONTH_MS, snd w) d,
        toolCallsTotal = TOOL_CALLS_SQL org w d\<rparr>"

section \<open>Percentages\<close>

lemma round1_error: "\<bar>round1 x - x\<bar> \<le> 1 / 20"
proof -
  have "\<bar>of_int (js_round (x * 10)) - x * 10\<bar> \<le> 1 / 2" by (rule js_round_error)
  then show ?thesis unfolding round1_def abs_le_iff by linarith
qed

lemma round1_mono: "x \<le> y \<Longrightarrow> round1 x \<le> round1 y"
  by (simp add: round1_def js_round_def divide_right_mono floor_mono)

lemma pct_bounds: "n \<le> m \<Longrightarrow> 0 \<le> pct n m \<and> pct n m \<le> 100"
proof (cases "m = 0")
  case False
  assume "n \<le> m"
  then have "of_nat n / of_nat m * 100 \<le> (100 :: rat)" "0 \<le> of_nat n / of_nat m * (100 :: rat)" using False by (simp_all add: field_simps)
  then have "round1 0 \<le> round1 (of_nat n / of_nat m * 100)" "round1 (of_nat n / of_nat m * 100) \<le> round1 100"
    by (simp_all only: round1_mono)
  moreover have "round1 0 = 0" "round1 100 = 100" by (simp_all add: round1_def js_round_def)
  ultimately show ?thesis using False by (simp add: pct_def)
qed (simp add: pct_def)

lemma count_distinct_mono: "set rs \<subseteq> set qs \<Longrightarrow> count_distinct rs \<le> count_distinct qs"
  unfolding count_distinct_def by (rule card_mono) auto

lemma tiers_cover:
  "high (CONFIDENCE_SQL org w d) + medium (CONFIDENCE_SQL org w d) + low (CONFIDENCE_SQL org w d) = scored (CONFIDENCE_SQL org w d)"
proof -
  have "length (filter (\<lambda>c. HIGH_THRESHOLD \<le> c) cs) + length (filter (\<lambda>c. MEDIUM_THRESHOLD \<le> c \<and> c < HIGH_THRESHOLD) cs) +
      length (filter (\<lambda>c. c < MEDIUM_THRESHOLD) cs) = length cs" for cs
    by (induction cs) (auto simp: HIGH_THRESHOLD_def MEDIUM_THRESHOLD_def)
  then show ?thesis by (simp add: CONFIDENCE_SQL_def Let_def)
qed

lemma three_pcts:
  assumes "a + b + c = n" and "0 < n"
  shows "\<bar>pct a n + pct b n + pct c n - 100\<bar> \<le> 3 / 20"
proof -
  have "of_nat a / of_nat n * 100 + of_nat b / of_nat n * 100 + of_nat c / of_nat n * 100 = (of_nat (a + b + c) / of_nat n * 100 :: rat)"
    by (simp add: add_divide_distrib algebra_simps)
  also have "\<dots> = 100" using assms by simp
  finally have sum: "of_nat a / of_nat n * 100 + of_nat b / of_nat n * 100 + of_nat c / of_nat n * (100 :: rat) = 100" .
  have p: "pct k n = round1 (of_nat k / of_nat n * 100)" for k using assms(2) by (simp add: pct_def)
  show ?thesis
    using sum round1_error [of "of_nat a / of_nat n * 100"] round1_error [of "of_nat b / of_nat n * 100"] round1_error [of "of_nat c / of_nat n * 100"]
    unfolding p abs_le_iff by linarith
qed


section \<open>One organisation\<close>

text \<open>The rows of an organisation: its requests and quotes, and what hangs on its requests.\<close>

definition own_rows :: "uuid \<Rightarrow> analytics_db \<Rightarrow> analytics_db" where
  "own_rows org d =
     (let ids = set (map r_id (filter (\<lambda>r. r_org_id r = org) (an_requests d))) in
      \<lparr>an_requests = filter (\<lambda>r. r_org_id r = org) (an_requests d), an_quotes = filter (\<lambda>q. q_org_id q = org) (an_quotes d),
       an_items = filter (\<lambda>li. li_request_id li \<in> ids) (an_items d), an_calls = filter (\<lambda>c. tc_request_id c \<in> ids) (an_calls d),
       an_events = filter (\<lambda>e. ev_org_id e = Some org) (an_events d)\<rparr>)"

lemma quotes_of_own: "r_org_id r = org \<Longrightarrow> quotes_of r (own_rows org d) = quotes_of r d"
  by (auto simp: quotes_of_def own_rows_def Let_def intro!: filter_cong)

lemma override_own: "r \<in> set (an_requests d) \<Longrightarrow> r_org_id r = org \<Longrightarrow> has_override r (own_rows org d) = has_override r d"
  by (auto simp: has_override_def own_rows_def Let_def list_ex_iff)

lemma org_requests_own: "org_requests org w (own_rows org d) = org_requests org w d"
  by (auto simp: org_requests_def own_rows_def Let_def intro!: filter_cong)

lemma in_org_requests: "r \<in> set (org_requests org w d) \<Longrightarrow> r \<in> set (an_requests d) \<and> r_org_id r = org"
  by (simp add: org_requests_def)

lemma requests_own: "filter (\<lambda>r. r_org_id r = org) (an_requests (own_rows org d)) = filter (\<lambda>r. r_org_id r = org) (an_requests d)"
  by (simp add: own_rows_def Let_def)

lemma FUNNEL_own: "FUNNEL_SQL org w (own_rows org d) = FUNNEL_SQL org w d"
proof -
  have "filter (\<lambda>r. P (quotes_of r (own_rows org d))) (org_requests org w d) = filter (\<lambda>r. P (quotes_of r d)) (org_requests org w d)" for P
    by (rule filter_cong) (auto dest: in_org_requests simp: quotes_of_own)
  from this [of "\<lambda>qs. qs \<noteq> []"] this [of "list_ex (\<lambda>q. q_status q \<in> set APPROVED_STATUSES)"] this [of "list_ex (\<lambda>q. q_status q = Q_Sent)"]
  show ?thesis by (simp add: FUNNEL_SQL_def org_requests_own Let_def)
qed

lemma MEDIAN_own: "MEDIAN_SQL org w (own_rows org d) = MEDIAN_SQL org w d"
  unfolding MEDIAN_SQL_def requests_own
  by (rule arg_cong [where f = percentile_half], rule arg_cong [where f = concat], rule map_cong) (auto simp: quotes_of_own)

lemma QUOTES_own: "QUOTES_SQL org w (own_rows org d) = QUOTES_SQL org w d"
  by (auto simp: QUOTES_SQL_def own_rows_def Let_def intro!: arg_cong [where f = length] filter_cong)

lemma approved_groups_own: "approved_groups org w (own_rows org d) = approved_groups org w d"
  unfolding approved_groups_def requests_own
  by (rule arg_cong [where f = set], rule arg_cong [where f = concat], rule map_cong) (auto simp: quotes_of_own override_own)

lemma NEEDS_REVIEW_own: "NEEDS_REVIEW_SQL org w (own_rows org d) = NEEDS_REVIEW_SQL org w d"
proof -
  have same: "reviewed org w (own_rows org d) = reviewed org w d" by (simp add: reviewed_def org_requests_own)
  have "r \<in> set (an_requests d) \<and> r_org_id r = org" if "r \<in> set (reviewed org w d)" for r
    using that in_org_requests [of r org w d] by (simp add: reviewed_def)
  then have "filter (\<lambda>r. list_ex (\<lambda>q. q_status q \<in> set APPROVED_STATUSES) (quotes_of r (own_rows org d)) \<and> \<not> has_override r (own_rows org d)) (reviewed org w d) =
      filter (\<lambda>r. list_ex (\<lambda>q. q_status q \<in> set APPROVED_STATUSES) (quotes_of r d) \<and> \<not> has_override r d) (reviewed org w d)"
    by (intro filter_cong) (simp_all add: quotes_of_own override_own)
  then show ?thesis by (simp add: NEEDS_REVIEW_SQL_def same)
qed

lemma CRASH_own: "CRASH_SQL org w (own_rows org d) = CRASH_SQL org w d"
  by (auto simp: CRASH_SQL_def own_rows_def Let_def intro!: arg_cong [where f = length] filter_cong)

lemma concat_skips: "(\<And>x. x \<in> set xs \<Longrightarrow> \<not> P x \<Longrightarrow> f x = []) \<Longrightarrow> concat (map f (filter P xs)) = concat (map f xs)"
  by (induction xs) auto

lemma TOOL_CALLS_own: "TOOL_CALLS_SQL org w (own_rows org d) = TOOL_CALLS_SQL org w d"
proof -
  let ?f = "\<lambda>c. filter (\<lambda>r. r_id r = tc_request_id c \<and> r_org_id r = org) (an_requests d)"
  let ?own = "\<lambda>c. tc_request_id c \<in> set (map r_id (filter (\<lambda>r. r_org_id r = org) (an_requests d)))"
  have calls: "filter (\<lambda>c. in_window w (dc_created_at c)) (an_calls (own_rows org d)) = filter ?own (filter (\<lambda>c. in_window w (dc_created_at c)) (an_calls d))"
    by (simp add: own_rows_def Let_def conj_commute)
  have rows: "filter (\<lambda>r. r_id r = tc_request_id c \<and> r_org_id r = org) (an_requests (own_rows org d)) = ?f c" for c
    by (auto simp: own_rows_def Let_def intro!: filter_cong)
  have "concat (map ?f (filter ?own cs)) = concat (map ?f cs)" for cs :: "dated_call list"
    by (rule concat_skips) (force simp: filter_empty_conv image_iff)
  then show ?thesis by (simp only: TOOL_CALLS_SQL_def calls rows)
qed

text \<open>
  The dashboard of an organisation is computed from the rows of the organisation only: taking away all rows of the others
  changes nothing.
\<close>

theorem analytics_of_tenant: "getSummary org w (own_rows org d) = getSummary org w d"
proof -
  have "APPROVED_SQL org v (own_rows org d) = APPROVED_SQL org v d" for v by (simp only: APPROVED_SQL_def approved_groups_own)
  moreover have "CONFIDENCE_SQL org w (own_rows org d) = CONFIDENCE_SQL org w d" by (simp only: CONFIDENCE_SQL_def org_requests_own)
  ultimately show ?thesis
    by (simp only: getSummary_def FUNNEL_own MEDIAN_own QUOTES_own NEEDS_REVIEW_own CRASH_own TOOL_CALLS_own)
qed

end
