(* ===== verification/Reads.thy ===== *)
theory Reads
  imports Access Jobs Js_Text Object_Store Quote_Store Request_Store "HOL-Library.Product_Lexorder" "HOL-Library.List_Lexorder" "HOL-Library.Char_ord"
begin

text \<open>
  What people read: the list of requests with its pages (\<open>requests/services/requests.service.ts\<close>,
  \<open>common/pagination/parse-pagination.ts\<close>), the detail of a request with its lines and quote, the candidates of a line
  (\<open>catalog/line-items.service.ts\<close>) and the list of quotes (\<open>quotes/quote-list.controller.ts\<close>), each with the handler that
  settles the organisation.
\<close>

section \<open>Pages\<close>

text \<open>\<open>parseInt(s, 10)\<close>: an optional sign and the digits at the start; what follows them is ignored.\<close>

definition parse_int :: "string \<Rightarrow> int option" where
  "parse_int s =
     (let (sg, r) = signed (dropWhile white_char s); ds = takeWhile is_digit r
      in if ds = [] then None else Some (sg * digits_val 10 ds))"

definition MAX_PAGE_SIZE :: int where "MAX_PAGE_SIZE = 100"
definition DEFAULT_PAGE_SIZE :: int where "DEFAULT_PAGE_SIZE = 50"
definition DEFAULT_PAGE :: int where "DEFAULT_PAGE = 1"

definition parsePagination :: "string option \<Rightarrow> string option \<Rightarrow> nat \<times> nat" where
  "parsePagination rawPage rawLimit =
     (let parsed = (\<lambda>raw default. case parse_int (case raw of Some s \<Rightarrow> s | None \<Rightarrow> []) of Some n \<Rightarrow> n | None \<Rightarrow> default)
      in (nat (max (parsed rawPage DEFAULT_PAGE) 1), nat (min (max (parsed rawLimit DEFAULT_PAGE_SIZE) 1) MAX_PAGE_SIZE)))"

text \<open>\<open>created_at DESC, id DESC\<close>.\<close>

definition newest_first :: "('a \<Rightarrow> millis) \<Rightarrow> ('a \<Rightarrow> uuid) \<Rightarrow> 'a list \<Rightarrow> 'a list" where
  "newest_first created ident rows = rev (sort_key (\<lambda>r. (created r, ident r)) rows)"

section \<open>Requests\<close>

record request_summary =
  rs_id :: uuid
  rs_vertical :: "vertical option"
  rs_sender_company :: "string option"
  rs_sender_contact :: "string option"
  rs_source_subject :: "string option"
  rs_request_type :: request_type
  rs_overall_confidence :: "rat option"
  rs_status :: request_status
  rs_created_at :: millis

definition toRequestSummary :: "request \<Rightarrow> request_summary" where
  "toRequestSummary r =
     \<lparr>rs_id = r_id r, rs_vertical = r_vertical r, rs_sender_company = sender_company r, rs_sender_contact = sender_contact r,
      rs_source_subject = source_subject r, rs_request_type = r_request_type r, rs_overall_confidence = overall_confidence r,
      rs_status = status r, rs_created_at = r_created_at r\<rparr>"

text \<open>The requests of an organisation, or all of them.\<close>

definition scoped_requests :: "uuid option \<Rightarrow> db \<Rightarrow> request list" where
  "scoped_requests org d = (case org of Some x \<Rightarrow> filter (\<lambda>r. r_org_id r = x) (requests d) | None \<Rightarrow> requests d)"

definition listForOrg :: "uuid option \<Rightarrow> nat \<Rightarrow> nat \<Rightarrow> db \<Rightarrow> request_summary list \<times> pagination_meta" where
  "listForOrg org page limit d =
     (map toRequestSummary (take limit (drop (limit * (page - 1)) (newest_first r_created_at r_id (scoped_requests org d)))),
      computePaginationMeta (length (scoped_requests org d)) limit page)"

text \<open>The handler: \<open>None\<close> as the page information is the empty answer of a caller without an organisation.\<close>

definition list_requests ::
  "bool \<Rightarrow> uuid option \<Rightarrow> string option \<Rightarrow> string option \<Rightarrow> db \<Rightarrow> request_summary list \<times> pagination_meta option" where
  "list_requests auth caller rawPage rawLimit d =
     (let (page, limit) = parsePagination rawPage rawLimit;
          org = (if auth then caller else Some (case caller of Some x \<Rightarrow> x | None \<Rightarrow> DEFAULT_DEMO_ORG_ID))
      in case org of
           None \<Rightarrow> ([], None)
         | Some x \<Rightarrow>
             if x = [] \<and> auth then ([], None)
             else (case listForOrg (if x = [] then None else Some x) page limit d of (rs, meta) \<Rightarrow> (rs, Some meta)))"

record line_item_detail =
  ld_id :: uuid
  ld_position :: int
  ld_raw_text :: string
  ld_quantity :: "rat option"
  ld_unit_price_minor :: "int option"
  ld_match_confidence :: "rat option"
  ld_matched_sku :: "(uuid \<times> string \<times> string) option"
  ld_flags :: "string list"

text \<open>The product of a line is joined by its identifier.\<close>

definition toLineItemDetail :: "db \<Rightarrow> line_item \<Rightarrow> line_item_detail" where
  "toLineItemDetail d li =
     \<lparr>ld_id = li_id li, ld_position = li_position li, ld_raw_text = raw_text li, ld_quantity = li_quantity li,
      ld_unit_price_minor = li_unit_price_minor li, ld_match_confidence = match_confidence li,
      ld_matched_sku = (case matched_sku_id li of
          None \<Rightarrow> None
        | Some i \<Rightarrow> map_option (\<lambda>s. (sku_id s, sku_code s, sku_name s)) (find (\<lambda>s. sku_id s = i) (skus d))),
      ld_flags = flags_of li\<rparr>"

record attachment_summary =
  as_id :: uuid
  as_filename :: string
  as_mime_type :: string
  as_size_bytes :: int
  as_parse_status :: parse_status
  as_parse_error_reason :: "parse_failure option"

definition listForRequest :: "uuid \<Rightarrow> db \<Rightarrow> attachment_summary list" where
  "listForRequest i d =
     map (\<lambda>a. \<lparr>as_id = at_id a, as_filename = filename a, as_mime_type = mime_type a, as_size_bytes = size_bytes a,
        as_parse_status = parse_status a, as_parse_error_reason = parse_error_reason a\<rparr>)
       (filter (\<lambda>a. at_request_id a = i) (attachments d))"

record request_detail =
  rd_summary :: request_summary
  rd_sender_email :: "string option"
  rd_sender_address :: "string option"
  rd_source_body :: "string option"
  rd_current_node :: current_node
  rd_routing :: "request_routing option"
  rd_routing_reasons :: "routing_reason list"
  rd_attachments :: "attachment_summary list"
  rd_line_items :: "line_item_detail list"
  rd_quote :: "(quote \<times> quote_line_item list) option"

definition getDetail :: "request \<Rightarrow> db \<Rightarrow> request_detail" where
  "getDetail r d =
     \<lparr>rd_summary = toRequestSummary r, rd_sender_email = sender_email r, rd_sender_address = sender_address r,
      rd_source_body = source_body r, rd_current_node = current_node r, rd_routing = routing r, rd_routing_reasons = routing_reasons r,
      rd_attachments = listForRequest (r_id r) d,
      rd_line_items = map (toLineItemDetail d) (sort_key li_position (filter (\<lambda>li. li_request_id li = r_id r) (line_items d))),
      rd_quote = getForRequest (r_id r) d\<rparr>"

text \<open>The handlers of one request; an unknown one and one of another organisation are not found.\<close>

definition request_for :: "bool \<Rightarrow> auth_user option \<Rightarrow> uuid \<Rightarrow> db \<Rightarrow> request option" where
  "request_for auth user i d =
     (case find_request i d of
        None \<Rightarrow> None
      | Some r \<Rightarrow>
          if auth \<and> user = None \<or> (case user of Some u \<Rightarrow> r_org_id r \<noteq> orgId u | None \<Rightarrow> False) then None else Some r)"

definition getOne :: "bool \<Rightarrow> auth_user option \<Rightarrow> uuid \<Rightarrow> db \<Rightarrow> request_detail option" where
  "getOne auth user i d = map_option (\<lambda>r. getDetail r d) (request_for auth user i d)"

text \<open>The audit trail of a request, oldest first.\<close>

definition history :: "bool \<Rightarrow> auth_user option \<Rightarrow> uuid \<Rightarrow> string option \<Rightarrow> string option \<Rightarrow> db \<Rightarrow> (audit_event list \<times> pagination_meta) option" where
  "history auth user i rawPage rawLimit d =
     (case request_for auth user i d of
        None \<Rightarrow> None
      | Some _ \<Rightarrow>
          (case parsePagination rawPage rawLimit of (page, limit) \<Rightarrow>
             Some (list_page (\<lambda>e. ev_request_id e = Some i) ev_created_at page limit (events d))))"

section \<open>The candidates of a line\<close>

record candidate_item =
  ci_rank :: int
  ci_confidence :: rat
  ci_sku_id :: uuid
  ci_sku_code :: string
  ci_name :: string
  ci_description :: "string option"
  ci_base_price_minor :: int
  ci_currency :: string
  ci_lead_time_days :: "int option"

text \<open>A candidate joins its product; the reference is a foreign key, so one without a product does not occur.\<close>

definition getCandidates :: "uuid \<Rightarrow> uuid option \<Rightarrow> db \<Rightarrow> candidate_item list option" where
  "getCandidates lineId callerOrgId d =
     (case find (\<lambda>li. li_id li = lineId) (line_items d) of
        None \<Rightarrow> None
      | Some li \<Rightarrow>
          (case find_request (li_request_id li) d of
             None \<Rightarrow> None
           | Some r \<Rightarrow>
               if callerOrgId \<noteq> None \<and> callerOrgId \<noteq> Some (r_org_id r) then None
               else Some (List.map_filter
                 (\<lambda>c. map_option (\<lambda>s. \<lparr>ci_rank = cm_rank c, ci_confidence = cm_score c, ci_sku_id = sku_id s, ci_sku_code = sku_code s,
                    ci_name = sku_name s, ci_description = sku_description s, ci_base_price_minor = base_price_minor s,
                    ci_currency = sku_currency s, ci_lead_time_days = sku_lead_time_days s\<rparr>)
                   (find (\<lambda>s. sku_id s = cm_sku_id c) (skus d)))
                 (sort_key cm_rank (filter (\<lambda>c. cm_line_item_id c = lineId) (candidates d))))))"

text \<open>The organisation a reading handler takes: of the user with authentication on, and none otherwise.\<close>

definition candidates_endpoint :: "bool \<Rightarrow> auth_user option \<Rightarrow> uuid \<Rightarrow> db \<Rightarrow> candidate_item list option" where
  "candidates_endpoint auth user lineId d =
     (if auth then (case user of Some u \<Rightarrow> if orgId u = [] then None else getCandidates lineId (Some (orgId u)) d | None \<Rightarrow> None)
      else getCandidates lineId None d)"

section \<open>The document of a quote\<close>

datatype pdf_answer = Pdf string string | Request_Not_Found | Pdf_Not_Ready | Pdf_Unreadable

text \<open>The name of the file and its bytes.\<close>

definition downloadPdf :: "path \<Rightarrow> file_store \<Rightarrow> bool \<Rightarrow> auth_user option \<Rightarrow> uuid \<Rightarrow> db \<Rightarrow> pdf_answer" where
  "downloadPdf rootdir fs auth user i d =
     (case request_for auth user i d of
        None \<Rightarrow> Request_Not_Found
      | Some _ \<Rightarrow>
          (case getForRequest i d of
             None \<Rightarrow> Pdf_Not_Ready
           | Some (q, _) \<Rightarrow>
               (case pdf_storage_url q of
                  None \<Rightarrow> Pdf_Not_Ready
                | Some url \<Rightarrow>
                    if url = [] then Pdf_Not_Ready
                    else (case get_object rootdir url fs of
                            Inl Object_Not_Found \<Rightarrow> Pdf_Not_Ready
                          | Inl _ \<Rightarrow> Pdf_Unreadable
                          | Inr bytes \<Rightarrow> Pdf (quote_number q @ ''.pdf'') bytes))))"

text \<open>What a user reads of a request, its trail or its document is of the organisation of the user.\<close>

lemma read_in_own_tenant:
  assumes "getOne auth (Some u) i d \<noteq> None \<or> history auth (Some u) i rp rl d \<noteq> None \<or>
    (\<exists>name bytes. downloadPdf rootdir fs auth (Some u) i d = Pdf name bytes)"
  shows "\<exists>r \<in> set (requests d). r_id r = i \<and> r_org_id r = orgId u"
proof -
  have "request_for auth (Some u) i d \<noteq> None"
    using assms by (auto simp: getOne_def history_def downloadPdf_def split: option.splits)
  then obtain r where "find_request i d = Some r" "r_org_id r = orgId u"
    by (auto simp: request_for_def split: option.splits if_splits)
  then show ?thesis using find_request_Some [of i d r] by blast
qed

section \<open>Every request is on one page\<close>

lemma pages_of_list: "0 < n \<Longrightarrow> concat (map (\<lambda>p. take n (drop (n * p) xs)) [0..<k]) = take (n * k) xs"
proof (induction k)
  case (Suc k)
  have "take (n * k) xs @ take n (drop (n * k) xs) = take (n * Suc k) xs"
    by (simp add: take_add [symmetric] algebra_simps)
  then show ?case using Suc by simp
qed simp

lemma ceil_div_covers: "0 < n \<Longrightarrow> m \<le> n * ceil_div m n"
proof -
  assume "0 < n"
  have m: "m = n * (m div n) + m mod n" by simp
  have "m mod n < n" using \<open>0 < n\<close> by simp
  with m have "m \<le> n * (m div n) + n" by linarith
  with m show ?thesis by (cases "m mod n = 0") (simp_all add: ceil_div_def algebra_simps)
qed

lemma limit_bounds: "1 \<le> snd (parsePagination rp rl) \<and> snd (parsePagination rp rl) \<le> 100"
  by (auto simp: parsePagination_def MAX_PAGE_SIZE_def Let_def split: option.splits)

lemma pages_list_all:
  assumes "0 < limit"
  shows "concat (map (\<lambda>p. fst (listForOrg org (Suc p) limit d)) [0..<pm_total_pages (snd (listForOrg org page limit d))]) =
    map toRequestSummary (newest_first r_created_at r_id (scoped_requests org d))"
proof -
  let ?xs = "newest_first r_created_at r_id (scoped_requests org d)" and ?n = "length (scoped_requests org d)"
  have len: "length ?xs = ?n" by (simp add: newest_first_def)
  have "concat (map (\<lambda>p. fst (listForOrg org (Suc p) limit d)) [0..<k]) = map toRequestSummary (take (limit * k) ?xs)" for k
  proof -
    have "concat (map (\<lambda>p. fst (listForOrg org (Suc p) limit d)) [0..<k]) =
        map toRequestSummary (concat (map (\<lambda>p. take limit (drop (limit * p) ?xs)) [0..<k]))"
      by (simp add: listForOrg_def map_concat comp_def)
    then show ?thesis by (simp only: pages_of_list [OF assms])
  qed
  moreover have "take (limit * ceil_div ?n limit) ?xs = ?xs" using ceil_div_covers [OF assms, of ?n] len by simp
  ultimately show ?thesis by (simp add: listForOrg_def computePaginationMeta_def Let_def)
qed

text \<open>
  Whatever a client asks for as a page size, the pages have between one and a hundred requests, and reading them one after the
  other, up to the number of pages the answer announces, gives every request of the organisation once, the newest first.
\<close>

theorem pages_give_every_request:
  "1 \<le> snd (parsePagination rawPage rawLimit) \<and> snd (parsePagination rawPage rawLimit) \<le> 100 \<and>
   length (fst (listForOrg org page (snd (parsePagination rawPage rawLimit)) d)) \<le> snd (parsePagination rawPage rawLimit) \<and>
   concat (map (\<lambda>p. fst (listForOrg org (Suc p) (snd (parsePagination rawPage rawLimit)) d))
      [0..<pm_total_pages (snd (listForOrg org page (snd (parsePagination rawPage rawLimit)) d))]) =
     map toRequestSummary (newest_first r_created_at r_id (scoped_requests org d)) \<and>
   mset (newest_first r_created_at r_id (scoped_requests org d)) = mset (scoped_requests org d) \<and>
   sorted (rev (map (\<lambda>r. (r_created_at r, r_id r)) (newest_first r_created_at r_id (scoped_requests org d))))"
proof -
  have "0 < snd (parsePagination rawPage rawLimit)" using limit_bounds [of rawPage rawLimit] by linarith
  from pages_list_all [OF this] limit_bounds [of rawPage rawLimit] show ?thesis
    by (simp add: listForOrg_def newest_first_def rev_map)
qed

text \<open>With authentication off the candidates of a line are those of any tenant, whoever asks.\<close>

lemma candidates_of_any_tenant:
  "candidates_endpoint False user lineId d = candidates_endpoint False other lineId d"
  by (simp add: candidates_endpoint_def)

end
