(* ===== verification/Llm_Client.thy ===== *)
theory Llm_Client
  imports Circuit_Breaker Demo_Fixtures
begin

text \<open>
  The client of the language model as its callers see it (\<open>llm/llm-client.service.ts\<close>): the answer of the model, or in the
  demonstration mode the fixture replayed for it, or the open breaker, which is announced before it is thrown. Admission and
  retries are those of \<^verbatim>\<open>Circuit_Breaker\<close>. The files of the seed directory are a parameter.
\<close>

section \<open>The fixtures\<close>

definition ends_with :: "string \<Rightarrow> string \<Rightarrow> bool" where
  "ends_with suf s \<longleftrightarrow> length suf \<le> length s \<and> drop (length s - length suf) s = suf"

text \<open>
  The directory as the list of its names and what reading gives, in the order of the names, or \<open>None\<close> when it cannot be listed; a
  file that cannot be read or parsed is left out.
\<close>

definition loadFixtures :: "(string \<Rightarrow> json option) \<Rightarrow> (string \<times> string option) list option \<Rightarrow> json list" where
  "loadFixtures parse seedDir =
     (case seedDir of
        None \<Rightarrow> []
      | Some entries \<Rightarrow>
          List.map_filter (\<lambda>(name, raw). case raw of Some s \<Rightarrow> parse s | None \<Rightarrow> None)
            (filter (\<lambda>(name, raw). ends_with ''.json'' name) entries))"

definition meta :: "string \<Rightarrow> json \<Rightarrow> json option" where
  "meta k f = (case field ''_meta'' f of Some m \<Rightarrow> field k m | None \<Rightarrow> None)"

definition getFixture :: "json list \<Rightarrow> string \<Rightarrow> json option" where
  "getFixture fixtures type =
     (case find (\<lambda>f. meta ''request_type'' f = Some (JStr type)) fixtures of
        Some f \<Rightarrow> Some f
      | None \<Rightarrow> find (\<lambda>f. meta ''sample_id'' f = Some (JStr CLEAN_FIXTURE_ID)) fixtures)"

text \<open>\<open>a || b\<close> on a document that may be absent.\<close>

definition truthy_json :: "json option \<Rightarrow> bool" where
  "truthy_json v \<longleftrightarrow> (case v of
     None \<Rightarrow> False | Some JNull \<Rightarrow> False | Some (JBool b) \<Rightarrow> b | Some (JNum x) \<Rightarrow> x \<noteq> 0 | Some (JStr s) \<Rightarrow> s \<noteq> [] | Some _ \<Rightarrow> True)"

definition fixture_content :: "json \<Rightarrow> json" where
  "fixture_content f =
     (if truthy_json (field ''extracted_fields'' f) then the (field ''extracted_fields'' f)
      else if truthy_json (field ''expected_catalog_matches'' f) then the (field ''expected_catalog_matches'' f)
      else JObj [])"

section \<open>A call\<close>

record llm_context =
  lc_orgId :: uuid
  lc_requestId :: uuid
  lc_node :: current_node
  lc_requestType :: string

record llm_env =
  demo_mode :: bool
  fixtures :: "json list"
  breaker_of :: breaker_env

text \<open>The content of the answer is a document: what the model sent, or the content of the fixture.\<close>

definition handleOpenBreaker :: "llm_env \<Rightarrow> llm_context \<Rightarrow> db \<Rightarrow> json completion \<times> db" where
  "handleOpenBreaker env c d =
     (let announced = emit (Some (lc_orgId c)) (Some (lc_requestId c)) None None (Ev_Stage_Error (lc_node c) Llm_Circuit_Open) d in
      if demo_mode env then
        (case getFixture (fixtures env) (lc_requestType c) of
           Some f \<Rightarrow> (Completed (fixture_content f), d)
         | None \<Rightarrow> (Breaker_Open, announced))
      else (Breaker_Open, announced))"

text \<open>
  The answer, the database, the store of the breaker, and the number of calls that went out.
\<close>

definition chat ::
  "llm_env \<Rightarrow> llm_context \<Rightarrow> int \<Rightarrow> int \<Rightarrow> (nat \<Rightarrow> call_error + json) \<Rightarrow> breaker \<Rightarrow> db \<Rightarrow> json completion \<times> db \<times> breaker \<times> nat" where
  "chat env c dur w net s d =
     (if demo_mode env then (case handleOpenBreaker env c d of (out, d) \<Rightarrow> (out, d, s, 0))
      else
        (case createChatCompletion (breaker_of env) dur w net s of
           (Breaker_Open, s, calls) \<Rightarrow> (case handleOpenBreaker env c d of (out, d) \<Rightarrow> (out, d, s, calls))
         | (out, s, calls) \<Rightarrow> (out, d, s, calls)))"

section \<open>Facts\<close>

text \<open>Without keys nothing goes out, and the breaker is left alone.\<close>

lemma demo_mode_makes_no_call:
  "demo_mode env \<Longrightarrow> fst (snd (snd (chat env c dur w net s d))) = s \<and> snd (snd (snd (chat env c dur w net s d))) = 0"
  by (simp add: chat_def split: prod.splits)

lemma calls_are_bounded:
  "snd (snd (snd (chat env c dur w net s d))) \<le> Suc (LLM_MAX_RETRIES (breaker_of env))"
proof -
  have "calls \<le> Suc (LLM_MAX_RETRIES e)" if "executeWithRetry e net = (res, calls)" for e res calls
    using retry_bounds [of "LLM_MAX_RETRIES e" 0 net res calls] that by (simp add: executeWithRetry_def)
  then have "snd (snd (createChatCompletion e dur w net s)) \<le> Suc (LLM_MAX_RETRIES e)" for e
    by (auto simp: createChatCompletion_def Let_def split: prod.splits admission.splits)
  then show ?thesis
    by (auto simp: chat_def split: prod.splits completion.splits) (metis snd_conv)+
qed

text \<open>
  The callers record nothing for an open breaker, trusting that it was announced: it was, once, and nothing else was.
\<close>

lemma open_breaker_is_announced:
  assumes "chat env c dur w net s d = (out, d', s', calls)"
  shows "d' = (if out = Breaker_Open
      then emit (Some (lc_orgId c)) (Some (lc_requestId c)) None None (Ev_Stage_Error (lc_node c) Llm_Circuit_Open) d else d)"
  using assms
  by (auto simp: chat_def handleOpenBreaker_def Let_def split: if_splits prod.splits completion.splits option.splits)

text \<open>With any fixture for the clean sample the demonstration mode always has an answer.\<close>

lemma demo_mode_answers:
  assumes "demo_mode env" and "f \<in> set (fixtures env)" and "meta ''sample_id'' f = Some (JStr CLEAN_FIXTURE_ID)"
  shows "\<exists>v. fst (chat env c dur w net s d) = Completed v"
proof -
  have "find (\<lambda>f. meta ''sample_id'' f = Some (JStr CLEAN_FIXTURE_ID)) (fixtures env) \<noteq> None"
    using assms(2,3) by (auto simp: find_None_iff)
  then have "getFixture (fixtures env) (lc_requestType c) \<noteq> None" by (auto simp: getFixture_def split: option.splits)
  then show ?thesis using assms(1) by (auto simp: chat_def handleOpenBreaker_def Let_def)
qed

end
