(* ===== verification/Spec2Isabelle.thy ===== *)
theory Spec2Isabelle
  imports Timing_Wheel Job_Worker Caixilharia_Quote Price_Node Quote_Recompute Quote_Approval Scoring
    Scoring_Config Pipeline_Runs Quote_Delivery Line_Remap Events Extraction_Json Circuit_Breaker Rule_Admin Clarifications Intake Catalog_Admin
    Policy_File Event_Stream Pricing_File Copilot Organizations Live_Trace Analytics Reads Llm_Client Mail_Draft
begin

text \<open>
  A verification library of the backend of Distill: a service that turns an incoming request for a quotation (an
  e-mail, a form, files) into a priced quote, with a person deciding what a machine should not. The server under
  \<open>src/src\<close> is written in TypeScript on NestJS; an API process receives the requests and a worker process
  runs the pipeline, and they share a database, a queue (Bull) and a key-value store (Redis). This theory imports the
  others and holds this description. Paths below are relative to \<open>src/src\<close>, and to \<open>src/src/modules\<close> where the
  directory is a module.

  \<^bold>\<open>The program and its theories.\<close>

  Every HTTP request passes the middleware and the guard of \<open>auth\<close> (\<open>Access\<close>): who it runs as, in which tenant, and when
  what it did is kept. A request for a quotation enters through \<open>ingestion\<close> (theory \<open>Intake\<close>): the submission is checked, its row, its text and its files
  are stored (\<open>Object_Store\<close>), and after the commit a run of the pipeline is queued. \<open>Pipeline_Queue\<close> is
  the queue between the two processes: the producers, the resumption of a request, the crash recovery and the
  consumer. A run is \<open>PipelineGraphEngine.run\<close> (\<open>Pipeline\<close>): it walks from the node the request is at to the next,
  writes a checkpoint before each, and turns exceptions into a status. Its seven nodes are \<open>parse\<close>
  (\<open>Parse_Node\<close>), \<open>extract\<close> (\<open>Extract_Node\<close>, with the schemas in \<open>Extraction_Schema\<close> and \<open>Extraction_Json\<close>, the
  reconciliation against the source in \<open>Reconcile\<close> and the replayed fixtures in \<open>Demo_Fixtures\<close>),
  \<open>classify\<close> (\<open>Classify_Node\<close>), \<open>match\<close> (\<open>Match_Node\<close>, over the search of \<open>Catalog_Search\<close>), \<open>price\<close>
  (\<open>Price_Node\<close>, over the engines \<open>Avac_Pricing\<close> and \<open>Caixilharia_Pricing\<close> with what they share in
  \<open>Vertical_Lines\<close> and \<open>Quote_Pricing\<close>), \<open>policy\<close> (\<open>Policy\<close>) and \<open>score\<close> (\<open>Scoring\<close>, \<open>Scoring_Config\<close>).
  \<open>Pipeline_Runs\<close> registers the seven and states what a run does. Nodes call what is not deterministic through the tool registry
  (\<open>Tools\<close>), and the language model through a client (\<open>Llm_Client\<close>) with a circuit breaker (\<open>Circuit_Breaker\<close>) whose state is in the
  key-value store (\<open>Redis\<close>).

  What people do: approving a quote (\<open>Quote_Approval\<close>, with the mail \<open>Mail_Draft\<close> drafts), sending it (\<open>Quote_Delivery\<close>), re-mapping a line
  (\<open>Line_Remap\<close>, which prices the request again with \<open>Quote_Recompute\<close>), declining (\<open>Request_Store\<close>), asking the
  customer (\<open>Clarifications\<close>), administering the pricing rules (\<open>Rule_Admin\<close>) and the products
  (\<open>Catalog_Import\<close>, \<open>Catalog_Admin\<close>), reloading the rules of the policy and pricing files (\<open>Rules_File\<close>,
  \<open>Policy_File\<close>, \<open>Pricing_File\<close>), administering the organisation and its branding (\<open>Organizations\<close>), reading
  requests, their trail and the candidates of a line (\<open>Reads\<close>), watching the stream of a request (\<open>Event_Stream\<close>, and in the
  browser \<open>Live_Trace\<close>), looking at the figures of the dashboard (\<open>Analytics\<close>) and asking the copilot why a request is held, or anything about it (\<open>Copilot\<close>). Every operation leaves typed events in the audit trail (\<open>Events\<close>).

  Beside the pipeline there is a scheduler of background jobs: a binary heap (\<open>Heap\<close>) and a timing wheel
  (\<open>Timing_Wheel\<close>), the rows, the sweep and the dead letter queue (\<open>Jobs\<close>), and the worker (\<open>Job_Worker\<close>).

  \<^bold>\<open>How the state corresponds to the code.\<close>

  \<open>Entities\<close> has a record for each TypeORM entity, with the columns the program reads or writes, and a record \<open>db\<close>
  of the tables, each a list of rows in insertion order. An \<open>UPDATE\<close> is \<open>update_where\<close>, its number of rows
  \<open>affected\<close>, a \<open>SELECT\<close> a filter with the sort of its \<open>ORDER BY\<close>. A transaction is a function from a
  database to a result and a database, and a failure inside it returns the one it started from. Columns with a width (\<open>integer\<close>,
  \<open>smallint\<close>, \<open>numeric(p, s)\<close>) refuse or round what does not fit (\<open>Quote_Store\<close>). Conditional statements, which
  the program uses as locks, meet the locale \<open>guarded_update\<close> (\<open>Guarded_Update\<close>): from any state at most one of
  several callers succeeds. It is interpreted for the claim of an approval, of a delivery, of a job, of a declined request, of a
  sent clarification and of the probe of the breaker. The heap interprets the locale \<open>priority_queue\<close>, whose laws give that
  popping sorts; the seven nodes interpret \<open>pipeline_nodes\<close>, what the engine relies on;
  the policy and the pricing rules interpret \<open>rules_file\<close>, what a schema owes the service that reads its file.

  Numbers of the language are exact rationals (\<open>rat\<close>), amounts in minor units are \<open>int\<close> once the code has rounded them;
  the code rounds with \<open>Math.round\<close>, which is \<open>js_round\<close>. Text is a list of Latin-1 characters. \<open>Js_Text\<close> has what
  the program uses of \<open>Number\<close>, \<open>String\<close> and regular expressions, with a backtracking matcher. \<open>Json\<close> has
  documents and the combinators of the schema library, one for each call of the source, and \<open>Number_Text\<close> shows that
  the digits written for a number are read back as it. Optional values are \<open>option\<close>,
  exceptions are a datatype of errors in a sum, and a promise is its result.

  What is not under \<open>src\<close> is an argument: the answers of the language model and of the embeddings, the readers of PDF,
  XLSX and CSV files, the similarity functions of the database, the provider of e-mail, whether the database or the store
  answers at a step, new identifiers, and the clock. Of Bull and Redis the models use what their references
  document, which each theory states at its head.

  Where several processes act, a system is a function on a state with an action for each thing that can happen, or an
  inductive reachability: the concurrent approvers, the pipeline queue, the job worker with the sweep and
  the cancelling user, the callers of the breaker, the handlers of clarifications, and the writers and the worker of the catalog.

  \<^bold>\<open>What the lemmas show.\<close>

  \<^item> Pricing. Each engine is one function from the extraction, the rules and the catalog to the lines, the totals and the reasons
    that block the quote. The figures of a quote are consistent, an unblocked quote had every input, the order of the rule rows does not
    matter, a second run of the node after a crash leaves the same rows, and a recompute keeps the prices people set.
  \<^item> Control. An extraction the node accepts is supported by its source; every number of it occurs there. Policy flags are
    reconciled with those of other nodes, a breaching request is reviewed, and the score node routes by the documented
    conditions. A run returns, after at most fifty nodes; its stream follows a protocol; it keeps a final status, and what a crash leaves behind
    is where the recovery finds it.
  \<^item> Exclusion. At most one approver holds a quote, the contacts with the provider of e-mail use one key within one
    window, one probe passes the breaker, a sent clarification is final, a completed job was announced once.
  \<^item> Round trips. A stored extraction reads back, an accepted file is read back by the parse node, the rules administrators may
    store are those the engines read, a heap gives back what was put in, and a wheel loses nothing.
  \<^item> The catalog. Every row of an import is accounted for, the conversion of prices is exact, a product marked ready has
    the vector of its text, and no pending product is forgotten.
  \<^item> Reading. The pages of the requests give each once, the figures of the dashboard are consistent and those of one
    organisation, and a live trace shown as connected hears from the server.
  \<^item> Tenants. A protected handler runs in the tenant of its verified token, the agent is shown the products of the
    organisation of its request only, a logo is served to the organisation that uploaded it, and a stream has the events of its request only.
  \<^item> What fails. The lemmas that show a defect are stated as such, with the input that shows it: a finished job under the fixed
    identifier of a request makes a resumption a no-op, a failed attempt of a job is never repeated, a cancelled job
    completes, a straggler takes the lock of the probe, euros are read as cents.

  \<^bold>\<open>Bounds.\<close> Recursion is structural nearly everywhere. A run of the pipeline carries the fuel of the code itself, which
  stops at fifty transitions (\<open>MAX_NODE_TRANSITIONS\<close>); the nodes of the code need eight. The extraction loop is bounded by its
  attempts and the model calls by their retries, as in the code. The sweep takes at most its batch, the recovery of embeddings a hundred
  products of an organisation. A star of a regular expression is unrolled
  as often as there are characters left, which is enough because each turn must consume one.

  \<^bold>\<open>Not modelled.\<close>

  \<^item> The web client (\<open>src/client\<close>) but for the hook that watches a request: components of the user interface.
  \<^item> The rendering of PDF documents and the list of quotes: layout and a projection.
  \<^item> The HTTP clients of the language model, the embeddings and the mail provider: one call each, whose answers are arguments here.
  \<^item> The verification of a token, which is a package, and the policies of the row-level security, which the database
    enforces; the tenant they are given is modelled (\<open>Access\<close>).
  \<^item> The benchmark and the health endpoint: measurements.
  \<^item> Bootstrap, configuration other than the scoring, logging, telemetry, migrations and seeds. The constraints the migrations declare
    are in the stores that rely on them.
  \<^item> Binary floating point: amounts and scores are exact, so a result that depends on a rounding of the last bit is outside the model.
\<close>

end
